(* ===== verification/Prelude.thy ===== *)
theory Prelude
  imports Main "HOL-Library.Word" "HOL-Library.Multiset" "HOL-Library.Monad_Syntax"
begin

text \<open>
  Shared vocabulary of the development: the machine integers and addresses of the
  Cortex-M4 target, the status codes the C code returns, flat byte memory with
  \<open>memcpy\<close>/\<open>memset\<close>, and the generic lemmas on words, lists and options that the
  component theories rely on. A result of \<open>None\<close> in a model stands for undefined
  behaviour of the C code (a NULL or dangling dereference), never for an error code.
\<close>

unbundle bit_operations_syntax

section \<open>Types\<close>

type_synonym u8 = "8 word"
type_synonym u16 = "16 word"
type_synonym u32 = "32 word"
type_synonym u64 = "64 word"

type_synonym addr = u32
type_synonym bytes = "u8 list"
type_synonym memory = "addr \<Rightarrow> u8"

abbreviation (input) NULL :: addr where
  "NULL \<equiv> 0"

section \<open>Collections of facts\<close>

named_theorems inv_defs \<open>definitions of the component invariants\<close>
named_theorems op_defs \<open>definitions of the operations of the components\<close>
named_theorems frame_rules \<open>fields an operation leaves alone\<close>

section \<open>C strings\<close>

text \<open>
  A C string is its characters before the terminating NUL. \<open>strncmp (a, b, n) == 0\<close>
  compares at most \<open>n\<close> characters, the terminator included: for NUL-free strings that
  is equality of the first \<open>n\<close> characters.
\<close>

definition strncmp_eq :: "nat \<Rightarrow> string \<Rightarrow> string \<Rightarrow> bool" where
  "strncmp_eq n a b \<longleftrightarrow> take n a = take n b"

lemma strncmp_eq_refl [simp]: "strncmp_eq n a a"
  by (simp add: strncmp_eq_def)

lemma strncmp_eq_short:
  assumes "length a < n" and "length b < n"
  shows "strncmp_eq n a b \<longleftrightarrow> a = b"
  using assms by (simp add: strncmp_eq_def)

section \<open>Words\<close>

lemma unat_widen_u16 [simp]: "unat (ucast (w :: u16) :: u32) = unat w"
proof -
  have "unat w < 2 ^ 16" using unsigned_less [of w, where ?'a = nat] by simp
  then show ?thesis by (simp add: unsigned_ucast_eq take_bit_nat_eq_self)
qed

lemma unat_narrow_u16: "unat (w :: u32) < 2 ^ 16 \<Longrightarrow> unat (ucast w :: u16) = unat w"
  by (simp add: unsigned_ucast_eq take_bit_nat_eq_self)

section \<open>Byte memory\<close>

fun mem_write :: "memory \<Rightarrow> addr \<Rightarrow> bytes \<Rightarrow> memory" where
  "mem_write m a [] = m"
| "mem_write m a (b # bs) = mem_write (m(a := b)) (a + 1) bs"

definition mem_read :: "memory \<Rightarrow> addr \<Rightarrow> nat \<Rightarrow> bytes" where
  "mem_read m a n = map (\<lambda>i. m (a + of_nat i)) [0..<n]"

lemma length_mem_read [simp]: "length (mem_read m a n) = n"
  by (simp add: mem_read_def)

lemma nth_mem_read [simp]: "i < n \<Longrightarrow> mem_read m a n ! i = m (a + of_nat i)"
  by (simp add: mem_read_def)

lemma mem_read_0 [simp]: "mem_read m a 0 = []"
  by (simp add: mem_read_def)

lemma mem_write_other:
  "(\<And>i. i < length bs \<Longrightarrow> x \<noteq> a + of_nat i) \<Longrightarrow> mem_write m a bs x = m x"
proof (induction bs arbitrary: m a)
  case Nil
  then show ?case by simp
next
  case (Cons b bs)
  have "x \<noteq> a" using Cons.prems [of 0] by simp
  moreover have "x \<noteq> a + 1 + of_nat i" if "i < length bs" for i
    using Cons.prems [of "Suc i"] that by (simp add: algebra_simps)
  ultimately show ?case using Cons.IH [of "a + 1" "m(a := b)"] by (simp add: fun_upd_def)
qed

lemma addr_offset_inj:
  assumes "i < 2 ^ 32" and "j < 2 ^ 32" and "(a :: addr) + of_nat i = a + of_nat j"
  shows "i = j"
proof -
  have "unat (of_nat i :: addr) = unat (of_nat j :: addr)"
    using assms(3) by simp
  then show ?thesis using assms(1,2) by (simp add: unat_of_nat)
qed

lemma mem_write_nth:
  "i < length bs \<Longrightarrow> length bs \<le> 2 ^ 32 \<Longrightarrow> mem_write m a bs (a + of_nat i) = bs ! i"
proof (induction bs arbitrary: m a i)
  case Nil
  then show ?case by simp
next
  case (Cons b bs)
  show ?case
  proof (cases i)
    case 0
    have "mem_write (m(a := b)) (a + 1) bs a = (m(a := b)) a"
    proof (rule mem_write_other)
      fix k assume "k < length bs"
      then have "Suc k < 2 ^ 32" using Cons.prems(2) by simp
      then show "a \<noteq> a + 1 + of_nat k"
        using addr_offset_inj [of 0 "Suc k" a] by (auto simp: algebra_simps)
    qed
    with 0 show ?thesis by simp
  next
    case (Suc k)
    have "a + of_nat i = a + 1 + of_nat k" using Suc by (simp add: algebra_simps)
    then show ?thesis using Cons.IH [of k "m(a := b)" "a + 1"] Cons.prems Suc by (simp add: fun_upd_def add.assoc)
  qed
qed

lemma mem_read_write_same:
  "length bs \<le> 2 ^ 32 \<Longrightarrow> mem_read (mem_write m a bs) a (length bs) = bs"
  by (rule nth_equalityI) (simp_all add: mem_write_nth)

text \<open>Two address ranges that do not wrap around and do not meet.\<close>

definition apart :: "addr \<Rightarrow> nat \<Rightarrow> addr \<Rightarrow> nat \<Rightarrow> bool" where
  "apart a n b k \<longleftrightarrow> unat a + n \<le> 2 ^ 32 \<and> unat b + k \<le> 2 ^ 32 \<and>
     (unat a + n \<le> unat b \<or> unat b + k \<le> unat a)"

lemma apart_sym: "apart a n b k \<Longrightarrow> apart b k a n"
  by (auto simp: apart_def)

lemma apart_sub:
  "apart a n b k \<Longrightarrow> unat a \<le> unat a' \<Longrightarrow> unat a' + n' \<le> unat a + n \<Longrightarrow> apart a' n' b k"
  by (auto simp: apart_def)

lemma unat_addr_offset:
  "unat a + i < 2 ^ 32 \<Longrightarrow> unat ((a :: addr) + of_nat i) = unat a + i"
  by (simp add: unat_word_ariths unat_of_nat)

lemma apart_offset_neq:
  assumes "apart a n b k" and "i < n" and "j < k"
  shows "a + of_nat i \<noteq> b + of_nat j"
proof
  assume "a + of_nat i = b + of_nat j"
  then have "unat (a + of_nat i) = unat (b + of_nat j)" by simp
  moreover have "unat (a + of_nat i) = unat a + i" "unat (b + of_nat j) = unat b + j"
    using assms by (auto simp: apart_def intro!: unat_addr_offset)
  ultimately show False using assms by (auto simp: apart_def)
qed

lemma mem_read_write_apart:
  assumes "apart b k a (length bs)"
  shows "mem_read (mem_write m a bs) b k = mem_read m b k"
  by (rule nth_equalityI)
     (use apart_offset_neq [OF assms] in \<open>auto intro!: mem_write_other\<close>)

lemma mem_read_take: "j \<le> k \<Longrightarrow> take j (mem_read m a k) = mem_read m a j"
  by (simp add: mem_read_def take_map)

end
