(* ===== verification/Flash_Config.thy ===== *)
theory Flash_Config
  imports Prelude
begin

text \<open>
  The table of supported NOR devices of \<^verbatim>\<open>hal/hal/src/ferm_flash_config.c\<close>, entry by entry.
  The parameter \<open>quad\<close> is the build option \<open>CONFIG_FLASH_QCC730_QSPI_QUAD_MODE\<close>. The clock
  selector \<open>flash_clock_t\<close> is its enumeration value (30 MHz is 0).
\<close>

definition FLASH_RW_MODE_SDR_SINGLE :: u8 where "FLASH_RW_MODE_SDR_SINGLE = 1"
definition FLASH_RW_MODE_SDR_DUAL :: u8 where "FLASH_RW_MODE_SDR_DUAL = 2"
definition FLASH_RW_MODE_SDR_QUAD :: u8 where "FLASH_RW_MODE_SDR_QUAD = 3"
definition FLASH_RW_MODE_DDR_QUAD :: u8 where "FLASH_RW_MODE_DDR_QUAD = 7"

record flash_config_data =
  fc_addr_bytes :: u8
  fc_read_cmd_mode :: u8
  fc_read_addr_mode :: u8
  fc_read_data_mode :: u8
  fc_read_opcode :: u8
  fc_read_wait_state :: u8
  fc_write_cmd_mode :: u8
  fc_write_addr_mode :: u8
  fc_write_data_mode :: u8
  fc_write_opcode :: u8
  fc_erase_4kb_opcode :: u8
  fc_bulk_erase_size_4kb :: u8
  fc_bulk_erase_opcode :: u8
  fc_chip_erase_opcode :: u8
  fc_quad_enable_mode :: u8
  fc_suspend_erase_opcode :: u8
  fc_suspend_program_opcode :: u8
  fc_resume_erase_opcode :: u8
  fc_resume_program_opcode :: u8
  fc_erase_err_bmsk :: u8
  fc_erase_err_status_reg :: u8
  fc_write_err_bmsk :: u8
  fc_write_err_status_reg :: u8
  fc_high_performance_mode_bmask :: u8
  fc_power_on_delay_in_us :: u8
  fc_suspend_erase_delay_in_us :: u16
  fc_suspend_program_delay_in_us :: u16
  fc_resume_erase_delay_in_us :: u16
  fc_resume_program_delay_in_us :: u16
  fc_density_in_blocks :: u32
  fc_device_id :: u32
  fc_write_protect_bmask :: u32
  fc_clk_freq :: u8

definition cfg_MX25R6435F :: "bool \<Rightarrow> flash_config_data" where
  "cfg_MX25R6435F quad = \<lparr>
     fc_addr_bytes = 3,
     fc_read_cmd_mode = FLASH_RW_MODE_SDR_SINGLE,
     fc_read_addr_mode = (if quad then FLASH_RW_MODE_SDR_QUAD else FLASH_RW_MODE_SDR_DUAL),
     fc_read_data_mode = (if quad then FLASH_RW_MODE_SDR_QUAD else FLASH_RW_MODE_SDR_DUAL),
     fc_read_opcode = (if quad then 0xEB else 0xBB),
     fc_read_wait_state = (if quad then 6 else 4),
     fc_write_cmd_mode = FLASH_RW_MODE_SDR_SINGLE,
     fc_write_addr_mode = FLASH_RW_MODE_SDR_SINGLE,
     fc_write_data_mode = (if quad then FLASH_RW_MODE_SDR_QUAD else FLASH_RW_MODE_SDR_SINGLE),
     fc_write_opcode = (if quad then 0x32 else 2),
     fc_erase_4kb_opcode = 0x20,
     fc_bulk_erase_size_4kb = 16,
     fc_bulk_erase_opcode = 0xD8,
     fc_chip_erase_opcode = 0x60,
     fc_quad_enable_mode = 2,
     fc_suspend_erase_opcode = 0xB0,
     fc_suspend_program_opcode = 0xB0,
     fc_resume_erase_opcode = 0x30,
     fc_resume_program_opcode = 0x30,
     fc_erase_err_bmsk = 0x40,
     fc_erase_err_status_reg = 0x2B,
     fc_write_err_bmsk = 0x20,
     fc_write_err_status_reg = 0x2B,
     fc_high_performance_mode_bmask = 0,
     fc_power_on_delay_in_us = 8,
     fc_suspend_erase_delay_in_us = 60,
     fc_suspend_program_delay_in_us = 60,
     fc_resume_erase_delay_in_us = 0,
     fc_resume_program_delay_in_us = 0,
     fc_density_in_blocks = 2048,
     fc_device_id = 0x001728C2,
     fc_write_protect_bmask = 0xBC,
     fc_clk_freq = 0\<rparr>"

definition cfg_GD25WQ32E :: "bool \<Rightarrow> flash_config_data" where
  "cfg_GD25WQ32E quad = \<lparr>
     fc_addr_bytes = 3,
     fc_read_cmd_mode = FLASH_RW_MODE_SDR_SINGLE,
     fc_read_addr_mode = (if quad then FLASH_RW_MODE_SDR_QUAD else FLASH_RW_MODE_SDR_DUAL),
     fc_read_data_mode = (if quad then FLASH_RW_MODE_SDR_QUAD else FLASH_RW_MODE_SDR_DUAL),
     fc_read_opcode = (if quad then 0xEB else 0xBB),
     fc_read_wait_state = (if quad then 6 else 4),
     fc_write_cmd_mode = FLASH_RW_MODE_SDR_SINGLE,
     fc_write_addr_mode = FLASH_RW_MODE_SDR_SINGLE,
     fc_write_data_mode = (if quad then FLASH_RW_MODE_SDR_QUAD else FLASH_RW_MODE_SDR_SINGLE),
     fc_write_opcode = (if quad then 0x32 else 2),
     fc_erase_4kb_opcode = 0x20,
     fc_bulk_erase_size_4kb = 16,
     fc_bulk_erase_opcode = 0xD8,
     fc_chip_erase_opcode = 0x60,
     fc_quad_enable_mode = 1,
     fc_suspend_erase_opcode = 0x75,
     fc_suspend_program_opcode = 0x75,
     fc_resume_erase_opcode = 0x7A,
     fc_resume_program_opcode = 0x7A,
     fc_erase_err_bmsk = 0,
     fc_erase_err_status_reg = 0,
     fc_write_err_bmsk = 0,
     fc_write_err_status_reg = 0,
     fc_high_performance_mode_bmask = 0,
     fc_power_on_delay_in_us = 30,
     fc_suspend_erase_delay_in_us = 40,
     fc_suspend_program_delay_in_us = 40,
     fc_resume_erase_delay_in_us = 0,
     fc_resume_program_delay_in_us = 0,
     fc_density_in_blocks = 1024,
     fc_device_id = 0x001665C8,
     fc_write_protect_bmask = 0x0441FC,
     fc_clk_freq = 0\<rparr>"

definition cfg_GD25LQ32EE :: "bool \<Rightarrow> flash_config_data" where
  "cfg_GD25LQ32EE quad = \<lparr>
     fc_addr_bytes = 3,
     fc_read_cmd_mode = FLASH_RW_MODE_SDR_SINGLE,
     fc_read_addr_mode = (if quad then FLASH_RW_MODE_SDR_QUAD else FLASH_RW_MODE_SDR_DUAL),
     fc_read_data_mode = (if quad then FLASH_RW_MODE_SDR_QUAD else FLASH_RW_MODE_SDR_DUAL),
     fc_read_opcode = (if quad then 0xEB else 0xBB),
     fc_read_wait_state = (if quad then 6 else 4),
     fc_write_cmd_mode = FLASH_RW_MODE_SDR_SINGLE,
     fc_write_addr_mode = FLASH_RW_MODE_SDR_SINGLE,
     fc_write_data_mode = (if quad then FLASH_RW_MODE_SDR_QUAD else FLASH_RW_MODE_SDR_SINGLE),
     fc_write_opcode = (if quad then 0x32 else 2),
     fc_erase_4kb_opcode = 0x20,
     fc_bulk_erase_size_4kb = 16,
     fc_bulk_erase_opcode = 0xD8,
     fc_chip_erase_opcode = 0x60,
     fc_quad_enable_mode = 1,
     fc_suspend_erase_opcode = 0x75,
     fc_suspend_program_opcode = 0x75,
     fc_resume_erase_opcode = 0x7A,
     fc_resume_program_opcode = 0x7A,
     fc_erase_err_bmsk = 0,
     fc_erase_err_status_reg = 0,
     fc_write_err_bmsk = 0,
     fc_write_err_status_reg = 0,
     fc_high_performance_mode_bmask = 0,
     fc_power_on_delay_in_us = 30,
     fc_suspend_erase_delay_in_us = 40,
     fc_suspend_program_delay_in_us = 40,
     fc_resume_erase_delay_in_us = 0,
     fc_resume_program_delay_in_us = 0,
     fc_density_in_blocks = 1024,
     fc_device_id = 0x001660C8,
     fc_write_protect_bmask = 0x0441FC,
     fc_clk_freq = 0\<rparr>"

definition cfg_GT25Q32AU_DS :: "bool \<Rightarrow> flash_config_data" where
  "cfg_GT25Q32AU_DS quad = \<lparr>
     fc_addr_bytes = 3,
     fc_read_cmd_mode = FLASH_RW_MODE_SDR_SINGLE,
     fc_read_addr_mode = (if quad then FLASH_RW_MODE_SDR_QUAD else FLASH_RW_MODE_SDR_DUAL),
     fc_read_data_mode = (if quad then FLASH_RW_MODE_SDR_QUAD else FLASH_RW_MODE_SDR_DUAL),
     fc_read_opcode = (if quad then 0xEB else 0xBB),
     fc_read_wait_state = (if quad then 6 else 4),
     fc_write_cmd_mode = FLASH_RW_MODE_SDR_SINGLE,
     fc_write_addr_mode = FLASH_RW_MODE_SDR_SINGLE,
     fc_write_data_mode = (if quad then FLASH_RW_MODE_SDR_QUAD else FLASH_RW_MODE_SDR_SINGLE),
     fc_write_opcode = (if quad then 0x32 else 2),
     fc_erase_4kb_opcode = 0x20,
     fc_bulk_erase_size_4kb = 16,
     fc_bulk_erase_opcode = 0xD8,
     fc_chip_erase_opcode = 0x60,
     fc_quad_enable_mode = 1,
     fc_suspend_erase_opcode = 0x75,
     fc_suspend_program_opcode = 0x75,
     fc_resume_erase_opcode = 0x7A,
     fc_resume_program_opcode = 0x7A,
     fc_erase_err_bmsk = 0,
     fc_erase_err_status_reg = 0,
     fc_write_err_bmsk = 0,
     fc_write_err_status_reg = 0,
     fc_high_performance_mode_bmask = 0,
     fc_power_on_delay_in_us = 20,
     fc_suspend_erase_delay_in_us = 20,
     fc_suspend_program_delay_in_us = 20,
     fc_resume_erase_delay_in_us = 0,
     fc_resume_program_delay_in_us = 0,
     fc_density_in_blocks = 1024,
     fc_device_id = 0x001660C4,
     fc_write_protect_bmask = 0x0441FC,
     fc_clk_freq = 0\<rparr>"

definition cfg_zd25wq32ce :: "bool \<Rightarrow> flash_config_data" where
  "cfg_zd25wq32ce quad = \<lparr>
     fc_addr_bytes = 3,
     fc_read_cmd_mode = FLASH_RW_MODE_SDR_SINGLE,
     fc_read_addr_mode = (if quad then FLASH_RW_MODE_SDR_QUAD else FLASH_RW_MODE_SDR_DUAL),
     fc_read_data_mode = (if quad then FLASH_RW_MODE_SDR_QUAD else FLASH_RW_MODE_SDR_DUAL),
     fc_read_opcode = (if quad then 0xEB else 0xBB),
     fc_read_wait_state = 4,
     fc_write_cmd_mode = FLASH_RW_MODE_SDR_SINGLE,
     fc_write_addr_mode = FLASH_RW_MODE_SDR_SINGLE,
     fc_write_data_mode = (if quad then FLASH_RW_MODE_SDR_QUAD else FLASH_RW_MODE_SDR_SINGLE),
     fc_write_opcode = (if quad then 0x32 else 2),
     fc_erase_4kb_opcode = 0x20,
     fc_bulk_erase_size_4kb = 16,
     fc_bulk_erase_opcode = 0xD8,
     fc_chip_erase_opcode = 0x60,
     fc_quad_enable_mode = 1,
     fc_suspend_erase_opcode = 0x75,
     fc_suspend_program_opcode = 0x75,
     fc_resume_erase_opcode = 0x7A,
     fc_resume_program_opcode = 0x7A,
     fc_erase_err_bmsk = 0,
     fc_erase_err_status_reg = 0,
     fc_write_err_bmsk = 0,
     fc_write_err_status_reg = 0,
     fc_high_performance_mode_bmask = 0,
     fc_power_on_delay_in_us = 30,
     fc_suspend_erase_delay_in_us = 40,
     fc_suspend_program_delay_in_us = 40,
     fc_resume_erase_delay_in_us = 0,
     fc_resume_program_delay_in_us = 0,
     fc_density_in_blocks = 1024,
     fc_device_id = 0x001660BA,
     fc_write_protect_bmask = 0x0441FC,
     fc_clk_freq = 0\<rparr>"

definition cfg_PY25Q32HB :: "bool \<Rightarrow> flash_config_data" where
  "cfg_PY25Q32HB quad = \<lparr>
     fc_addr_bytes = 3,
     fc_read_cmd_mode = FLASH_RW_MODE_SDR_SINGLE,
     fc_read_addr_mode = (if quad then FLASH_RW_MODE_SDR_QUAD else FLASH_RW_MODE_SDR_DUAL),
     fc_read_data_mode = (if quad then FLASH_RW_MODE_SDR_QUAD else FLASH_RW_MODE_SDR_DUAL),
     fc_read_opcode = (if quad then 0xEB else 0xBB),
     fc_read_wait_state = 4,
     fc_write_cmd_mode = FLASH_RW_MODE_SDR_SINGLE,
     fc_write_addr_mode = FLASH_RW_MODE_SDR_SINGLE,
     fc_write_data_mode = (if quad then FLASH_RW_MODE_SDR_QUAD else FLASH_RW_MODE_SDR_SINGLE),
     fc_write_opcode = (if quad then 0x32 else 2),
     fc_erase_4kb_opcode = 0x20,
     fc_bulk_erase_size_4kb = 16,
     fc_bulk_erase_opcode = 0xD8,
     fc_chip_erase_opcode = 0x60,
     fc_quad_enable_mode = 1,
     fc_suspend_erase_opcode = 0x75,
     fc_suspend_program_opcode = 0x75,
     fc_resume_erase_opcode = 0x7A,
     fc_resume_program_opcode = 0x7A,
     fc_erase_err_bmsk = 0,
     fc_erase_err_status_reg = 0,
     fc_write_err_bmsk = 0,
     fc_write_err_status_reg = 0,
     fc_high_performance_mode_bmask = 0,
     fc_power_on_delay_in_us = 30,
     fc_suspend_erase_delay_in_us = 40,
     fc_suspend_program_delay_in_us = 40,
     fc_resume_erase_delay_in_us = 0,
     fc_resume_program_delay_in_us = 0,
     fc_density_in_blocks = 1024,
     fc_device_id = 0x00162085,
     fc_write_protect_bmask = 0x0441FC,
     fc_clk_freq = 0\<rparr>"

definition cfg_PY25Q32HA :: "bool \<Rightarrow> flash_config_data" where
  "cfg_PY25Q32HA quad = \<lparr>
     fc_addr_bytes = 3,
     fc_read_cmd_mode = FLASH_RW_MODE_SDR_SINGLE,
     fc_read_addr_mode = (if quad then FLASH_RW_MODE_SDR_QUAD else FLASH_RW_MODE_SDR_DUAL),
     fc_read_data_mode = (if quad then FLASH_RW_MODE_SDR_QUAD else FLASH_RW_MODE_SDR_DUAL),
     fc_read_opcode = (if quad then 0xEB else 0xBB),
     fc_read_wait_state = 4,
     fc_write_cmd_mode = FLASH_RW_MODE_SDR_SINGLE,
     fc_write_addr_mode = FLASH_RW_MODE_SDR_SINGLE,
     fc_write_data_mode = (if quad then FLASH_RW_MODE_SDR_QUAD else FLASH_RW_MODE_SDR_SINGLE),
     fc_write_opcode = (if quad then 0x32 else 2),
     fc_erase_4kb_opcode = 0x20,
     fc_bulk_erase_size_4kb = 16,
     fc_bulk_erase_opcode = 0xD8,
     fc_chip_erase_opcode = 0x60,
     fc_quad_enable_mode = 1,
     fc_suspend_erase_opcode = 0x75,
     fc_suspend_program_opcode = 0x75,
     fc_resume_erase_opcode = 0x7A,
     fc_resume_program_opcode = 0x7A,
     fc_erase_err_bmsk = 0,
     fc_erase_err_status_reg = 0,
     fc_write_err_bmsk = 0,
     fc_write_err_status_reg = 0,
     fc_high_performance_mode_bmask = 0,
     fc_power_on_delay_in_us = 30,
     fc_suspend_erase_delay_in_us = 40,
     fc_suspend_program_delay_in_us = 40,
     fc_resume_erase_delay_in_us = 0,
     fc_resume_program_delay_in_us = 0,
     fc_density_in_blocks = 2048,
     fc_device_id = 0x00172085,
     fc_write_protect_bmask = 0x0441FC,
     fc_clk_freq = 0\<rparr>"

definition cfg_PY25Q32LC :: "bool \<Rightarrow> flash_config_data" where
  "cfg_PY25Q32LC quad = \<lparr>
     fc_addr_bytes = 3,
     fc_read_cmd_mode = FLASH_RW_MODE_SDR_SINGLE,
     fc_read_addr_mode = (if quad then FLASH_RW_MODE_SDR_QUAD else FLASH_RW_MODE_SDR_DUAL),
     fc_read_data_mode = (if quad then FLASH_RW_MODE_SDR_QUAD else FLASH_RW_MODE_SDR_DUAL),
     fc_read_opcode = (if quad then 0xEB else 0xBB),
     fc_read_wait_state = 4,
     fc_write_cmd_mode = FLASH_RW_MODE_SDR_SINGLE,
     fc_write_addr_mode = FLASH_RW_MODE_SDR_SINGLE,
     fc_write_data_mode = (if quad then FLASH_RW_MODE_SDR_QUAD else FLASH_RW_MODE_SDR_SINGLE),
     fc_write_opcode = (if quad then 0x32 else 2),
     fc_erase_4kb_opcode = 0x20,
     fc_bulk_erase_size_4kb = 16,
     fc_bulk_erase_opcode = 0xD8,
     fc_chip_erase_opcode = 0x60,
     fc_quad_enable_mode = 1,
     fc_suspend_erase_opcode = 0x75,
     fc_suspend_program_opcode = 0x75,
     fc_resume_erase_opcode = 0x7A,
     fc_resume_program_opcode = 0x7A,
     fc_erase_err_bmsk = 0,
     fc_erase_err_status_reg = 0,
     fc_write_err_bmsk = 0,
     fc_write_err_status_reg = 0,
     fc_high_performance_mode_bmask = 0,
     fc_power_on_delay_in_us = 30,
     fc_suspend_erase_delay_in_us = 40,
     fc_suspend_program_delay_in_us = 40,
     fc_resume_erase_delay_in_us = 0,
     fc_resume_program_delay_in_us = 0,
     fc_density_in_blocks = 1024,
     fc_device_id = 0x00166585,
     fc_write_protect_bmask = 0x0441FC,
     fc_clk_freq = 0\<rparr>"

definition flash_device_config :: "bool \<Rightarrow> flash_config_data list" where
  "flash_device_config quad = [cfg_MX25R6435F quad, cfg_GD25WQ32E quad, cfg_GD25LQ32EE quad, cfg_GT25Q32AU_DS quad, cfg_zd25wq32ce quad, cfg_PY25Q32HB quad, cfg_PY25Q32HA quad, cfg_PY25Q32LC quad]"

definition flash_get_config_entries_count :: "bool \<Rightarrow> u32" where
  "flash_get_config_entries_count quad = of_nat (length (flash_device_config quad))"

lemmas rw_modes = FLASH_RW_MODE_SDR_SINGLE_def FLASH_RW_MODE_SDR_DUAL_def FLASH_RW_MODE_SDR_QUAD_def
  FLASH_RW_MODE_DDR_QUAD_def

lemmas cfg_defs = cfg_MX25R6435F_def cfg_GD25WQ32E_def cfg_GD25LQ32EE_def cfg_GT25Q32AU_DS_def cfg_zd25wq32ce_def cfg_PY25Q32HB_def cfg_PY25Q32HA_def cfg_PY25Q32LC_def

end
