(* ===== verification/Flash.thy ===== *)
theory Flash
  imports Flash_Config
begin

text \<open>
  The NOR flash driver \<^verbatim>\<open>hal/hal/src/ferm_flash.c\<close>, as the boot loader and the programmer
  build it (\<open>CONFIG_NON_OS\<close>: no mutex, blocking operations). The QSPI bus with the chip on
  it is a parameter: what a transaction returns and does to the chip, what initialising
  the controller does, and what passes while the driver delays. An operation returns
  \<open>None\<close> when the C code does not return (the polling loop runs on for ever) or follows the
  NULL configuration pointer.
\<close>

section \<open>Constants and data\<close>

datatype flash_status = FLASH_DEVICE_DONE | FLASH_DEVICE_FAIL | FLASH_DEVICE_INVALID_PARAMETER
  | FLASH_DEVICE_NOT_FOUND | FLASH_DEVICE_BUSY

definition PAGE_SIZE_IN_BYTES :: u32 where "PAGE_SIZE_IN_BYTES = 256"
definition BLOCK_SIZE_IN_BYTES :: u32 where "BLOCK_SIZE_IN_BYTES = 4096"
definition FLASH_16MB_IN_BYTES :: u32 where "FLASH_16MB_IN_BYTES = 0x1000000"

definition WRITE_STATUS_POLLING_USEC :: u32 where "WRITE_STATUS_POLLING_USEC = 100"
definition WRITE_TIMEOUT :: u32 where "WRITE_TIMEOUT = 5000000"
definition ERASE_STATUS_POLLING_MSEC :: u32 where "ERASE_STATUS_POLLING_MSEC = 5"
definition ERASE_TIMEOUT :: u32 where "ERASE_TIMEOUT = 5000000"
definition READ_STATUS_POLLING_USEC :: u32 where "READ_STATUS_POLLING_USEC = 20"
definition READ_STATUS_TIMEOUT :: u32 where "READ_STATUS_TIMEOUT = 5000000"
definition CHIP_ERASE_STATUS_POLLING_MSEC :: u32 where "CHIP_ERASE_STATUS_POLLING_MSEC = 1000"
definition CHIP_ERASE_TIMEOUT :: u32 where "CHIP_ERASE_TIMEOUT = 500000000"

definition WRITE_ENABLE_CMD :: u8 where "WRITE_ENABLE_CMD = 0x06"
definition READ_STATUS_CMD :: u8 where "READ_STATUS_CMD = 0x05"
definition READ_STATUS_2_CMD :: u8 where "READ_STATUS_2_CMD = 0x3F"
definition READ_CFG_REG_CMD :: u8 where "READ_CFG_REG_CMD = 0x15"
definition READ_CFG1_CMD :: u8 where "READ_CFG1_CMD = 0x35"
definition WRITE_STATUS_CMD :: u8 where "WRITE_STATUS_CMD = 0x01"
definition ENTER_4B_ADDR_CMD :: u8 where "ENTER_4B_ADDR_CMD = 0xB7"
definition WRITE_STATUS_2_CMD :: u8 where "WRITE_STATUS_2_CMD = 0x3E"
definition READ_IDENTIFICATION_CMD :: u8 where "READ_IDENTIFICATION_CMD = 0x9F"
definition POWERUP_OPCODE :: u8 where "POWERUP_OPCODE = 0xAB"

definition STATUS_WR_EN_MASK :: u8 where "STATUS_WR_EN_MASK = 2"
definition PROG_ERASE_WRITE_BUSY_BMSK :: u8 where "PROG_ERASE_WRITE_BUSY_BMSK = 1"
definition READ_STATUS_BUSY_MASK :: u8 where "READ_STATUS_BUSY_MASK = 1"

definition MANUFACTURER_ID_MACRONIX :: u8 where "MANUFACTURER_ID_MACRONIX = 0xC2"
definition MANUFACTURER_ID_WINBOND :: u8 where "MANUFACTURER_ID_WINBOND = 0xEF"
definition MANUFACTURER_ID_ISSI :: u8 where "MANUFACTURER_ID_ISSI = 0x9D"
definition MANUFACTURER_ID_GD :: u8 where "MANUFACTURER_ID_GD = 0xC8"
definition MANUFACTURER_ID_GT :: u8 where "MANUFACTURER_ID_GT = 0xC4"

definition FLASH_STATE_WRITE :: u8 where "FLASH_STATE_WRITE = 1"
definition FLASH_STATE_READ :: u8 where "FLASH_STATE_READ = 2"
definition FLASH_STATE_ERASE :: u8 where "FLASH_STATE_ERASE = 4"
definition FLASH_STATE_WRITE_REG :: u8 where "FLASH_STATE_WRITE_REG = 8"
definition FLASH_STATE_READ_REG :: u8 where "FLASH_STATE_READ_REG = 16"

datatype flash_operation = WRITE_OPERATION | ERASE_OPERATION | OTHER_OPERATION

datatype flash_erase_type = FLASH_BLOCK_ERASE_E | FLASH_BULK_ERASE_E | FLASH_CHIP_ERASE_E

definition QSPI_SDR_1BIT_E :: u8 where "QSPI_SDR_1BIT_E = 1"

record qspi_cmd =
  qc_opcode :: u8
  qc_addr_bytes :: u8
  qc_dummy_clocks :: u8
  qc_cmd_mode :: u8
  qc_addr_mode :: u8
  qc_data_mode :: u8
  qc_write :: bool

text \<open>The data phase of a transaction: none, bytes read, bytes written.\<close>

datatype xfer = Xfer_none | Xfer_in nat | Xfer_out bytes

record 'd qspi_bus =
  qb_transact :: "qspi_cmd \<Rightarrow> u32 \<Rightarrow> xfer \<Rightarrow> 'd \<Rightarrow> bytes \<times> 'd"
  qb_init :: "u8 \<Rightarrow> 'd \<Rightarrow> 'd"
  qb_delay :: "u32 \<Rightarrow> 'd \<Rightarrow> 'd"
  qb_quad_support :: bool
  qb_quad_table :: bool

record 'd flash =
  fl_init_done :: bool
  fl_state :: u8
  fl_config :: "flash_config_data option"
  fl_clock :: u8
  fl_dev :: 'd

type_synonym 'd flash_result = "(flash_status \<times> 'd flash) option"

section \<open>QSPI commands\<close>

definition drv_qspi_prepare_cmd :: "u8 \<Rightarrow> u8 \<Rightarrow> u8 \<Rightarrow> u8 \<Rightarrow> u8 \<Rightarrow> u8 \<Rightarrow> bool \<Rightarrow> qspi_cmd" where
  "drv_qspi_prepare_cmd opcode addr_bytes dummy_clocks cmd_mode addr_mode data_mode write =
     \<lparr>qc_opcode = opcode, qc_addr_bytes = addr_bytes, qc_dummy_clocks = dummy_clocks,
      qc_cmd_mode = cmd_mode, qc_addr_mode = addr_mode, qc_data_mode = data_mode, qc_write = write\<rparr>"

definition drv_qspi_run_cmd ::
    "'d qspi_bus \<Rightarrow> qspi_cmd \<Rightarrow> u32 \<Rightarrow> xfer \<Rightarrow> 'd flash \<Rightarrow> bool \<times> bytes \<times> 'd flash" where
  "drv_qspi_run_cmd bus cmd addr x s =
     (if qc_addr_bytes cmd > 4 \<or> qc_dummy_clocks cmd > 16 then (False, [], s)
      else case qb_transact bus cmd addr x (fl_dev s) of (bs, d) \<Rightarrow> (True, bs, s\<lparr>fl_dev := d\<rparr>))"

definition reg_cmd :: "u8 \<Rightarrow> bool \<Rightarrow> qspi_cmd" where
  "reg_cmd opcode write =
     drv_qspi_prepare_cmd opcode 0 0 QSPI_SDR_1BIT_E QSPI_SDR_1BIT_E QSPI_SDR_1BIT_E write"

section \<open>Registers\<close>

text \<open>
  \<open>old\<close> is what the caller's buffer holds before (\<open>None\<close> for a NULL pointer); the second
  component of the result is what it holds after.
\<close>

definition drv_flash_read_reg_internal ::
    "'d qspi_bus \<Rightarrow> u8 \<Rightarrow> u8 \<Rightarrow> bytes option \<Rightarrow> 'd flash \<Rightarrow> flash_status \<times> bytes \<times> 'd flash" where
  "drv_flash_read_reg_internal bus reg_opcode len old s =
     (if len > 0 \<and> old = None then (FLASH_DEVICE_INVALID_PARAMETER, [], s)
      else case drv_qspi_run_cmd bus (reg_cmd reg_opcode False) 0
                  (if len = 0 then Xfer_none else Xfer_in (unat len)) s of
        (ok, bs, s) \<Rightarrow> if ok then (FLASH_DEVICE_DONE, bs, s)
                       else (FLASH_DEVICE_FAIL, case old of None \<Rightarrow> [] | Some b \<Rightarrow> b, s))"

text \<open>A one-byte register read into a variable that holds \<open>old\<close>.\<close>

definition read_reg1 :: "'d qspi_bus \<Rightarrow> u8 \<Rightarrow> u8 \<Rightarrow> 'd flash \<Rightarrow> flash_status \<times> u8 \<times> 'd flash" where
  "read_reg1 bus reg_opcode old s =
     (case drv_flash_read_reg_internal bus reg_opcode 1 (Some [old]) s of
        (status, bs, s) \<Rightarrow> (status, case bs of [] \<Rightarrow> old | b # _ \<Rightarrow> b, s))"

definition drv_flash_check_error :: "'d qspi_bus \<Rightarrow> flash_operation \<Rightarrow> 'd flash \<Rightarrow> 'd flash_result" where
  "drv_flash_check_error bus operation_type s =
     do {
       (status_mask, err_status_register) \<leftarrow>
         (case operation_type of
            WRITE_OPERATION \<Rightarrow> map_option (\<lambda>c. (fc_write_err_bmsk c, fc_write_err_status_reg c)) (fl_config s)
          | ERASE_OPERATION \<Rightarrow> map_option (\<lambda>c. (fc_erase_err_bmsk c, fc_erase_err_status_reg c)) (fl_config s)
          | OTHER_OPERATION \<Rightarrow> Some (0, 0));
       if err_status_register = 0 then Some (FLASH_DEVICE_DONE, s)
       else case read_reg1 bus err_status_register 0 s of
         (status, qspi_status, s) \<Rightarrow>
           Some (if status = FLASH_DEVICE_DONE \<and> qspi_status AND status_mask \<noteq> 0 then FLASH_DEVICE_FAIL else status, s)
     }"

definition delay :: "'d qspi_bus \<Rightarrow> u32 \<Rightarrow> 'd flash \<Rightarrow> 'd flash" where
  "delay bus t s = s\<lparr>fl_dev := qb_delay bus t (fl_dev s)\<rparr>"

text \<open>
  The polling loop. The remaining time is a 32-bit counter that is only compared with 0,
  so the loop ends by time only when the period divides the remaining time.
\<close>

partial_function (option) wait_loop ::
    "'d qspi_bus \<Rightarrow> flash_operation \<Rightarrow> u8 \<Rightarrow> u8 \<Rightarrow> u32 \<Rightarrow> u32 \<Rightarrow> u8 \<Rightarrow> 'd flash \<Rightarrow> 'd flash_result" where
  "wait_loop bus operation bmask status_value polling timeout result s =
     (if timeout = 0 then Some (FLASH_DEVICE_FAIL, s)
      else case read_reg1 bus READ_STATUS_CMD result s of
        (_, result, s) \<Rightarrow>
          if result AND bmask = status_value then drv_flash_check_error bus operation s
          else wait_loop bus operation bmask status_value polling (timeout - polling) result (delay bus polling s))"

definition drv_flash_wait_operation_done ::
    "'d qspi_bus \<Rightarrow> u32 \<Rightarrow> u32 \<Rightarrow> flash_operation \<Rightarrow> u8 \<Rightarrow> u8 \<Rightarrow> 'd flash \<Rightarrow> 'd flash_result" where
  "drv_flash_wait_operation_done bus timeout polling operation bmask status_value s =
     wait_loop bus operation bmask status_value polling timeout 0 s"

definition wait_not_busy :: "'d qspi_bus \<Rightarrow> 'd flash \<Rightarrow> 'd flash_result" where
  "wait_not_busy bus s =
     drv_flash_wait_operation_done bus READ_STATUS_TIMEOUT READ_STATUS_POLLING_USEC OTHER_OPERATION READ_STATUS_BUSY_MASK 0 s"

definition run_plain :: "'d qspi_bus \<Rightarrow> u8 \<Rightarrow> 'd flash \<Rightarrow> 'd flash" where
  "run_plain bus opcode s = snd (snd (drv_qspi_run_cmd bus (reg_cmd opcode False) 0 Xfer_none s))"

definition drv_flash_write_enable :: "'d qspi_bus \<Rightarrow> 'd flash \<Rightarrow> 'd flash_result" where
  "drv_flash_write_enable bus s =
     drv_flash_wait_operation_done bus READ_STATUS_TIMEOUT READ_STATUS_POLLING_USEC OTHER_OPERATION
       STATUS_WR_EN_MASK STATUS_WR_EN_MASK (run_plain bus WRITE_ENABLE_CMD s)"

definition drv_flash_write_reg_internal ::
    "'d qspi_bus \<Rightarrow> u8 \<Rightarrow> u8 \<Rightarrow> bytes option \<Rightarrow> 'd flash \<Rightarrow> 'd flash_result" where
  "drv_flash_write_reg_internal bus reg_opcode len reg_value s =
     (if len > 0 \<and> reg_value = None then Some (FLASH_DEVICE_INVALID_PARAMETER, s)
      else do {
        (status, s) \<leftarrow> drv_flash_write_enable bus s;
        if status \<noteq> FLASH_DEVICE_DONE then Some (status, s)
        else case drv_qspi_run_cmd bus (reg_cmd reg_opcode True) 0
                    (case reg_value of Some bs \<Rightarrow> if len = 0 then Xfer_none else Xfer_out (take (unat len) bs)
                                     | None \<Rightarrow> Xfer_none) s of
          (ok, _, s) \<Rightarrow> Some (if ok then FLASH_DEVICE_DONE else FLASH_DEVICE_FAIL, s)
      })"

section \<open>Device set-up\<close>

definition drv_flash_power_up :: "'d qspi_bus \<Rightarrow> 'd flash \<Rightarrow> 'd flash" where
  "drv_flash_power_up bus s = run_plain bus POWERUP_OPCODE s"

definition drv_flash_set_high_performance :: "'d qspi_bus \<Rightarrow> 'd flash \<Rightarrow> 'd flash_result" where
  "drv_flash_set_high_performance bus s =
     (case read_reg1 bus READ_STATUS_CMD 0 s of
        (_, t0, s) \<Rightarrow> case drv_flash_read_reg_internal bus READ_CFG_REG_CMD 2 (Some [0, 0]) s of
          (_, bs, s) \<Rightarrow> do {
            c \<leftarrow> fl_config s;
            let t1 = (case bs of b # _ \<Rightarrow> b | [] \<Rightarrow> 0);
            let t2 = (case bs of _ # b # _ \<Rightarrow> b | _ \<Rightarrow> 0) OR fc_high_performance_mode_bmask c;
            (status, s) \<leftarrow> drv_flash_write_reg_internal bus WRITE_STATUS_CMD 3 (Some [t0, t1, t2]) s;
            if status \<noteq> FLASH_DEVICE_DONE then Some (status, s) else wait_not_busy bus s
          })"

definition drv_flash_enable_quad_mode145 :: "'d qspi_bus \<Rightarrow> 'd flash \<Rightarrow> 'd flash_result" where
  "drv_flash_enable_quad_mode145 bus s =
     (case read_reg1 bus READ_STATUS_CMD 0 s of (status, status_reg1, s) \<Rightarrow>
      if status \<noteq> FLASH_DEVICE_DONE then Some (status, s)
      else case read_reg1 bus READ_CFG1_CMD 0 s of (status, status_reg2, s) \<Rightarrow>
      if status \<noteq> FLASH_DEVICE_DONE then Some (status, s)
      else if status_reg2 AND 2 \<noteq> 0 then Some (status, s)
      else do {
        (status, s) \<leftarrow> drv_flash_write_reg_internal bus WRITE_STATUS_CMD 2 (Some [status_reg1, status_reg2 OR 2]) s;
        if status \<noteq> FLASH_DEVICE_DONE then Some (status, s) else wait_not_busy bus s
      })"

definition drv_flash_enable_quad_mode2 :: "'d qspi_bus \<Rightarrow> 'd flash \<Rightarrow> 'd flash_result" where
  "drv_flash_enable_quad_mode2 bus s =
     (case read_reg1 bus READ_STATUS_CMD 0 s of (status, status_reg, s) \<Rightarrow>
      if status \<noteq> FLASH_DEVICE_DONE then Some (status, s)
      else if status_reg AND 0x40 \<noteq> 0 then Some (status, s)
      else do {
        (status, s) \<leftarrow> drv_flash_write_reg_internal bus WRITE_STATUS_CMD 1 (Some [status_reg OR 0x40]) s;
        if status \<noteq> FLASH_DEVICE_DONE then Some (status, s) else wait_not_busy bus s
      })"

definition drv_flash_enable_quad_mode3 :: "'d qspi_bus \<Rightarrow> 'd flash \<Rightarrow> 'd flash_result" where
  "drv_flash_enable_quad_mode3 bus s =
     (case read_reg1 bus READ_STATUS_2_CMD 0 s of (status, status2_reg, s) \<Rightarrow>
      if status \<noteq> FLASH_DEVICE_DONE then Some (status, s)
      else if status2_reg AND 0x80 \<noteq> 0 then Some (status, s)
      else do {
        (status, s) \<leftarrow> drv_flash_write_reg_internal bus WRITE_STATUS_2_CMD 1 (Some [status2_reg OR 0x80]) s;
        if status \<noteq> FLASH_DEVICE_DONE then Some (status, s) else wait_not_busy bus s
      })"

definition drv_flash_enable_quad_mode :: "'d qspi_bus \<Rightarrow> u8 \<Rightarrow> 'd flash \<Rightarrow> 'd flash_result" where
  "drv_flash_enable_quad_mode bus quad_mode s =
     (if quad_mode = 0 then Some (FLASH_DEVICE_DONE, s)
      else if quad_mode = 1 \<or> quad_mode = 4 \<or> quad_mode = 5 then drv_flash_enable_quad_mode145 bus s
      else if quad_mode = 2 then drv_flash_enable_quad_mode2 bus s
      else if quad_mode = 3 then drv_flash_enable_quad_mode3 bus s
      else Some (FLASH_DEVICE_FAIL, s))"

definition drv_flash_clear_spi_bits :: "'d qspi_bus \<Rightarrow> u8 \<Rightarrow> u8 \<Rightarrow> u8 \<Rightarrow> 'd flash \<Rightarrow> 'd flash_result" where
  "drv_flash_clear_spi_bits bus reg_read_opcode reg_write_opcode bits_mask s =
     (if bits_mask = 0 then Some (FLASH_DEVICE_DONE, s)
      else case read_reg1 bus reg_read_opcode 0 s of (status, read_ret, s) \<Rightarrow>
      if read_ret AND bits_mask = 0 \<or> status \<noteq> FLASH_DEVICE_DONE then Some (status, s)
      else do {
        (status, s) \<leftarrow> drv_flash_write_reg_internal bus reg_write_opcode 1 (Some [read_ret AND NOT bits_mask]) s;
        if status \<noteq> FLASH_DEVICE_DONE then Some (status, s)
        else do {
          (status, s) \<leftarrow> wait_not_busy bus s;
          if status \<noteq> FLASH_DEVICE_DONE then Some (status, s)
          else case read_reg1 bus reg_read_opcode 0 s of (status, read_back, s) \<Rightarrow>
            if read_back AND bits_mask \<noteq> 0 \<or> status \<noteq> FLASH_DEVICE_DONE then Some (FLASH_DEVICE_FAIL, s)
            else Some (status, s)
        }
      })"

text \<open>The three parallel arrays as a list of triples (read opcode, write opcode, mask).\<close>

fun drv_flash_clear_spi_bits_list :: "'d qspi_bus \<Rightarrow> (u8 \<times> u8 \<times> u8) list \<Rightarrow> 'd flash \<Rightarrow> 'd flash_result" where
  "drv_flash_clear_spi_bits_list bus [] s = Some (FLASH_DEVICE_DONE, s)"
| "drv_flash_clear_spi_bits_list bus ((r, w, m) # xs) s =
     do {
       (status, s) \<leftarrow> drv_flash_clear_spi_bits bus r w m s;
       if status \<noteq> FLASH_DEVICE_DONE then Some (status, s) else drv_flash_clear_spi_bits_list bus xs s
     }"

definition drv_flash_clear_write_protection :: "'d qspi_bus \<Rightarrow> 'd flash \<Rightarrow> 'd flash_result" where
  "drv_flash_clear_write_protection bus s =
     do {
       c \<leftarrow> fl_config s;
       let flash_vid = (ucast (fc_device_id c) :: u8);
       let wp_mask = fc_write_protect_bmask c;
       if flash_vid = MANUFACTURER_ID_WINBOND \<or> flash_vid = MANUFACTURER_ID_GD \<or> flash_vid = MANUFACTURER_ID_GT then
         drv_flash_clear_spi_bits_list bus
           [(READ_STATUS_CMD, WRITE_STATUS_CMD, ucast wp_mask),
            (0x35, 0x31, ucast (drop_bit 8 wp_mask)),
            (0x15, 0x11, ucast (drop_bit 16 wp_mask))] s
       else if flash_vid = MANUFACTURER_ID_MACRONIX \<or> flash_vid = MANUFACTURER_ID_ISSI then
         drv_flash_clear_spi_bits bus READ_STATUS_CMD WRITE_STATUS_CMD (ucast wp_mask) s
       else Some (FLASH_DEVICE_DONE, s)
     }"

text \<open>\<open>drv_qspi_init\<close> has no failing path, so the controller is always up afterwards.\<close>

definition drv_flash_controller_init :: "'d qspi_bus \<Rightarrow> 'd flash \<Rightarrow> flash_status \<times> 'd flash" where
  "drv_flash_controller_init bus s = (FLASH_DEVICE_DONE, s\<lparr>fl_dev := qb_init bus (fl_clock s) (fl_dev s)\<rparr>)"

definition drv_flash_info_init :: "'d qspi_bus \<Rightarrow> u32 \<Rightarrow> 'd flash \<Rightarrow> flash_status \<times> 'd flash" where
  "drv_flash_info_init bus device_id s =
     (case find (\<lambda>c. device_id = fc_device_id c) (flash_device_config (qb_quad_table bus)) of
        None \<Rightarrow> (FLASH_DEVICE_NOT_FOUND, s)
      | Some c \<Rightarrow>
          let s = s\<lparr>fl_state := 0, fl_config := Some c\<rparr>;
              s = (if fc_clk_freq c \<noteq> fl_clock s
                   then snd (drv_flash_controller_init bus (s\<lparr>fl_clock := fc_clk_freq c\<rparr>)) else s)
          in (FLASH_DEVICE_DONE, s))"

definition VALID_RW_MODE :: "u8 \<Rightarrow> bool" where
  "VALID_RW_MODE mode \<longleftrightarrow>
     (mode \<ge> FLASH_RW_MODE_SDR_SINGLE \<and> mode \<le> FLASH_RW_MODE_SDR_QUAD) \<or> mode = FLASH_RW_MODE_DDR_QUAD"

definition IS_QUAD_MODE :: "u8 \<Rightarrow> bool" where
  "IS_QUAD_MODE mode \<longleftrightarrow> mode AND 3 = 3"

definition rw_modes_of :: "flash_config_data \<Rightarrow> u8 list" where
  "rw_modes_of c = [fc_read_cmd_mode c, fc_read_addr_mode c, fc_read_data_mode c,
     fc_write_cmd_mode c, fc_write_addr_mode c, fc_write_data_mode c]"

text \<open>The steps of the initialisation after the configuration is known.\<close>

definition init_device :: "'d qspi_bus \<Rightarrow> 'd flash \<Rightarrow> 'd flash_result" where
  "init_device bus s =
     do {
       (status, s) \<leftarrow> drv_flash_clear_write_protection bus s;
       if status \<noteq> FLASH_DEVICE_DONE then Some (status, s) else do {
       c \<leftarrow> fl_config s;
       (status, s) \<leftarrow> (if fc_high_performance_mode_bmask c \<noteq> 0 then drv_flash_set_high_performance bus s
                       else Some (FLASH_DEVICE_DONE, s));
       if status \<noteq> FLASH_DEVICE_DONE then Some (status, s)
       else if \<not> list_all VALID_RW_MODE (rw_modes_of c) then Some (FLASH_DEVICE_INVALID_PARAMETER, s)
       else do {
       (status, s) \<leftarrow> (if qb_quad_support bus \<and> list_ex IS_QUAD_MODE (rw_modes_of c)
                       then drv_flash_enable_quad_mode bus (fc_quad_enable_mode c) s
                       else Some (FLASH_DEVICE_DONE, s));
       if status \<noteq> FLASH_DEVICE_DONE then Some (status, s) else do {
       (status, s) \<leftarrow> (if fc_addr_bytes c = 4 \<and> fc_density_in_blocks c * BLOCK_SIZE_IN_BYTES > FLASH_16MB_IN_BYTES
                       then drv_flash_write_reg_internal bus ENTER_4B_ADDR_CMD 0 None s
                       else Some (FLASH_DEVICE_DONE, s));
       if status \<noteq> FLASH_DEVICE_DONE then Some (status, s)
       else Some (FLASH_DEVICE_DONE, s\<lparr>fl_init_done := True\<rparr>)
     }}}}"

text \<open>The three identification bytes in the low bytes of a zeroed little-endian word.\<close>

definition device_id_of :: "bytes \<Rightarrow> u32" where
  "device_id_of bs = horner_sum (\<lambda>b. ucast b) 256 (take 3 bs)"

definition drv_flash_init :: "'d qspi_bus \<Rightarrow> 'd flash \<Rightarrow> 'd flash_result" where
  "drv_flash_init bus s =
     (if fl_init_done s then Some (FLASH_DEVICE_DONE, s)
      else case drv_flash_controller_init bus s of (status, s) \<Rightarrow>
      if status \<noteq> FLASH_DEVICE_DONE then Some (status, s) else
      let s = delay bus (100 * 8) (drv_flash_power_up bus s)
      in case drv_flash_read_reg_internal bus READ_IDENTIFICATION_CMD 3 (Some [0, 0, 0]) s of (status, bs, s) \<Rightarrow>
      if status \<noteq> FLASH_DEVICE_DONE then Some (status, s)
      else case drv_flash_info_init bus (device_id_of bs) s of (status, s) \<Rightarrow>
      if status \<noteq> FLASH_DEVICE_DONE then Some (status, s) else init_device bus s)"

definition drv_flash_deinit :: "u32 \<Rightarrow> 'd flash \<Rightarrow> flash_status \<times> 'd flash" where
  "drv_flash_deinit dereg s = (FLASH_DEVICE_DONE, s)"

section \<open>Reading, writing, erasing\<close>

text \<open>
  The range check of reads and writes, with 32-bit wrap-around. \<open>density\<close> is the size of
  the device in blocks.
\<close>

definition range_bad :: "u32 \<Rightarrow> u32 \<Rightarrow> u32 \<Rightarrow> bool" where
  "range_bad density address byte_cnt \<longleftrightarrow>
     byte_cnt = 0 \<or> address + byte_cnt < address \<or> address + byte_cnt > density * BLOCK_SIZE_IN_BYTES"

text \<open>\<open>buf\<close> tells whether the caller's buffer is not NULL; the bytes read are the second component.\<close>

definition drv_flash_read ::
    "'d qspi_bus \<Rightarrow> u32 \<Rightarrow> u32 \<Rightarrow> bool \<Rightarrow> bool \<Rightarrow> 'd flash \<Rightarrow> (flash_status \<times> bytes \<times> 'd flash) option" where
  "drv_flash_read bus address byte_cnt buf read_cb s =
     (if \<not> fl_init_done s then Some (FLASH_DEVICE_FAIL, [], s)
      else if fl_state s \<noteq> 0 then Some (FLASH_DEVICE_BUSY, [], s)
      else do {
        let s = s\<lparr>fl_state := FLASH_STATE_READ\<rparr>;
        c \<leftarrow> fl_config s;
        if \<not> buf \<or> range_bad (fc_density_in_blocks c) address byte_cnt
        then Some (FLASH_DEVICE_INVALID_PARAMETER, [], s\<lparr>fl_state := 0\<rparr>)
        else
          let cmd = drv_qspi_prepare_cmd (fc_read_opcode c) (fc_addr_bytes c) (fc_read_wait_state c)
                      (fc_read_cmd_mode c) (fc_read_addr_mode c) (fc_read_data_mode c) False
          in if read_cb then Some (FLASH_DEVICE_DONE, [], s\<lparr>fl_state := 0\<rparr>)
             else case drv_qspi_run_cmd bus cmd address (Xfer_in (unat byte_cnt)) s of
               (ok, bs, s) \<Rightarrow> Some (if ok then FLASH_DEVICE_DONE else FLASH_DEVICE_FAIL, bs, s\<lparr>fl_state := 0\<rparr>)
      })"

definition page_write_cmd :: "flash_config_data \<Rightarrow> qspi_cmd" where
  "page_write_cmd c = drv_qspi_prepare_cmd (fc_write_opcode c) (fc_addr_bytes c) 0
     (fc_write_cmd_mode c) (fc_write_addr_mode c) (fc_write_data_mode c) True"

definition transfer_size :: "u32 \<Rightarrow> u32 \<Rightarrow> u32" where
  "transfer_size address byte_cnt =
     (if address mod PAGE_SIZE_IN_BYTES \<noteq> 0 then
        (let t = PAGE_SIZE_IN_BYTES - address mod PAGE_SIZE_IN_BYTES in if t > byte_cnt then byte_cnt else t)
      else if byte_cnt > PAGE_SIZE_IN_BYTES then PAGE_SIZE_IN_BYTES else byte_cnt)"

lemma transfer_size_bounds:
  assumes "byte_cnt \<noteq> 0"
  shows "0 < transfer_size address byte_cnt" and "transfer_size address byte_cnt \<le> byte_cnt"
proof -
  have lt: "address mod PAGE_SIZE_IN_BYTES < PAGE_SIZE_IN_BYTES"
    by (simp add: PAGE_SIZE_IN_BYTES_def word_less_nat_alt unat_mod_distrib)
  then have "0 < PAGE_SIZE_IN_BYTES - address mod PAGE_SIZE_IN_BYTES"
    by (simp add: word_less_nat_alt unat_sub word_le_nat_alt)
  then show "0 < transfer_size address byte_cnt"
    using assms by (simp add: transfer_size_def Let_def word_neq_0_conv PAGE_SIZE_IN_BYTES_def)
  show "transfer_size address byte_cnt \<le> byte_cnt"
    by (auto simp: transfer_size_def Let_def not_less)
qed

text \<open>
  One turn of the page loop: enable writing, program up to the end of the page, wait. The
  result of the program transaction is not looked at.
\<close>

definition write_page :: "'d qspi_bus \<Rightarrow> flash_config_data \<Rightarrow> bool \<Rightarrow> u32 \<Rightarrow> bytes \<Rightarrow> 'd flash \<Rightarrow> 'd flash_result" where
  "write_page bus c write_cb address bs s =
     do {
       (status, s) \<leftarrow> drv_flash_write_enable bus s;
       if status \<noteq> FLASH_DEVICE_DONE then Some (status, s)
       else
         let s = (if write_cb then s else snd (snd (drv_qspi_run_cmd bus (page_write_cmd c) address (Xfer_out bs) s)))
         in drv_flash_wait_operation_done bus WRITE_TIMEOUT WRITE_STATUS_POLLING_USEC WRITE_OPERATION
              PROG_ERASE_WRITE_BUSY_BMSK 0 s
     }"

function write_loop ::
    "'d qspi_bus \<Rightarrow> flash_config_data \<Rightarrow> bool \<Rightarrow> u32 \<Rightarrow> u32 \<Rightarrow> bytes \<Rightarrow> 'd flash \<Rightarrow> 'd flash_result" where
  "write_loop bus c write_cb address byte_cnt buffer s =
     (if byte_cnt = 0 then Some (FLASH_DEVICE_DONE, s)
      else
        let n = transfer_size address byte_cnt
        in do {
          (status, s) \<leftarrow> write_page bus c write_cb address (take (unat n) buffer) s;
          if status \<noteq> FLASH_DEVICE_DONE then Some (status, s)
          else write_loop bus c write_cb (address + n) (byte_cnt - n) (drop (unat n) buffer) s
        })"
  by pat_completeness auto

termination
proof (relation "measure (\<lambda>(bus, c, cb, a, byte_cnt, b, s). unat byte_cnt)", goal_cases)
  case (2 bus c cb a byte_cnt b s n z status s')
  then have "0 < unat (transfer_size a byte_cnt)" "unat (transfer_size a byte_cnt) \<le> unat byte_cnt"
    using transfer_size_bounds [of byte_cnt a] by (simp_all add: word_less_nat_alt word_le_nat_alt)
  then show ?case using 2 by (simp add: unat_sub word_le_nat_alt)
qed simp

definition drv_flash_write :: "'d qspi_bus \<Rightarrow> u32 \<Rightarrow> u32 \<Rightarrow> bytes option \<Rightarrow> bool \<Rightarrow> 'd flash \<Rightarrow> 'd flash_result" where
  "drv_flash_write bus address byte_cnt buffer write_cb s =
     (if \<not> fl_init_done s then Some (FLASH_DEVICE_FAIL, s)
      else if fl_state s \<noteq> 0 then Some (FLASH_DEVICE_BUSY, s)
      else do {
        let s = s\<lparr>fl_state := FLASH_STATE_WRITE\<rparr>;
        c \<leftarrow> fl_config s;
        (status, s) \<leftarrow>
          (case buffer of
             None \<Rightarrow> Some (FLASH_DEVICE_INVALID_PARAMETER, s)
           | Some bs \<Rightarrow>
               if range_bad (fc_density_in_blocks c) address byte_cnt then Some (FLASH_DEVICE_INVALID_PARAMETER, s)
               else write_loop bus c write_cb address byte_cnt bs s);
        Some (status, s\<lparr>fl_state := 0\<rparr>)
      })"

text \<open>Size, opcode, address bytes, timeout and polling period of an erase; \<open>None\<close> if the device lacks it.\<close>

definition erase_params :: "flash_config_data \<Rightarrow> flash_erase_type \<Rightarrow> (u32 \<times> u8 \<times> u8 \<times> u32 \<times> u32) option" where
  "erase_params c erase_type =
     (case erase_type of
        FLASH_BLOCK_ERASE_E \<Rightarrow>
          if fc_erase_4kb_opcode c = 0 then None
          else Some (BLOCK_SIZE_IN_BYTES, fc_erase_4kb_opcode c, fc_addr_bytes c, ERASE_TIMEOUT, ERASE_STATUS_POLLING_MSEC)
      | FLASH_BULK_ERASE_E \<Rightarrow>
          if fc_bulk_erase_size_4kb c = 0 \<or> fc_bulk_erase_opcode c = 0 then None
          else Some (ucast (fc_bulk_erase_size_4kb c) * BLOCK_SIZE_IN_BYTES, fc_bulk_erase_opcode c, fc_addr_bytes c,
                     ERASE_TIMEOUT, ERASE_STATUS_POLLING_MSEC)
      | FLASH_CHIP_ERASE_E \<Rightarrow>
          if fc_chip_erase_opcode c = 0 then None
          else Some (fc_density_in_blocks c * BLOCK_SIZE_IN_BYTES, fc_chip_erase_opcode c, 0,
                     CHIP_ERASE_TIMEOUT, CHIP_ERASE_STATUS_POLLING_MSEC))"

definition erase_cmd :: "u8 \<Rightarrow> u8 \<Rightarrow> qspi_cmd" where
  "erase_cmd opcode addr_bytes =
     drv_qspi_prepare_cmd opcode addr_bytes 0 QSPI_SDR_1BIT_E QSPI_SDR_1BIT_E QSPI_SDR_1BIT_E False"

definition erase_one :: "'d qspi_bus \<Rightarrow> qspi_cmd \<Rightarrow> u32 \<Rightarrow> u32 \<Rightarrow> u32 \<Rightarrow> 'd flash \<Rightarrow> 'd flash_result" where
  "erase_one bus cmd timeout polling address s =
     do {
       (status, s) \<leftarrow> drv_flash_write_enable bus s;
       if status \<noteq> FLASH_DEVICE_DONE then Some (status, s)
       else
         let s = snd (snd (drv_qspi_run_cmd bus cmd address Xfer_none s))
         in drv_flash_wait_operation_done bus timeout (polling * 1000) ERASE_OPERATION PROG_ERASE_WRITE_BUSY_BMSK 0 s
     }"

primrec erase_loop ::
    "'d qspi_bus \<Rightarrow> qspi_cmd \<Rightarrow> u32 \<Rightarrow> u32 \<Rightarrow> u32 \<Rightarrow> nat \<Rightarrow> u32 \<Rightarrow> 'd flash \<Rightarrow> 'd flash_result" where
  "erase_loop bus cmd timeout polling sz 0 address s = Some (FLASH_DEVICE_DONE, s)"
| "erase_loop bus cmd timeout polling sz (Suc cnt) address s =
     do {
       (status, s) \<leftarrow> erase_one bus cmd timeout polling address s;
       if status \<noteq> FLASH_DEVICE_DONE then Some (status, s)
       else erase_loop bus cmd timeout polling sz cnt (address + sz) s
     }"

text \<open>The range check of an erase: the products are 32-bit.\<close>

definition erase_range_bad :: "u32 \<Rightarrow> u32 \<Rightarrow> u32 \<Rightarrow> u32 \<Rightarrow> bool" where
  "erase_range_bad density sz start cnt \<longleftrightarrow>
     cnt = 0 \<or> (start + cnt) * sz < start * sz \<or> (start + cnt) * sz > density * BLOCK_SIZE_IN_BYTES"

text \<open>The configuration is read for its address bytes before anything is checked.\<close>

definition drv_flash_erase :: "'d qspi_bus \<Rightarrow> flash_erase_type \<Rightarrow> u32 \<Rightarrow> u32 \<Rightarrow> 'd flash \<Rightarrow> 'd flash_result" where
  "drv_flash_erase bus erase_type start cnt s =
     do {
       c \<leftarrow> fl_config s;
       if \<not> fl_init_done s then Some (FLASH_DEVICE_FAIL, s)
       else if fl_state s \<noteq> 0 then Some (FLASH_DEVICE_BUSY, s)
       else do {
         let s = s\<lparr>fl_state := FLASH_STATE_ERASE\<rparr>;
         (status, s) \<leftarrow>
           (case erase_params c erase_type of
              None \<Rightarrow> Some (FLASH_DEVICE_INVALID_PARAMETER, s)
            | Some (sz, opcode, addr_bytes, timeout, polling) \<Rightarrow>
                if erase_range_bad (fc_density_in_blocks c) sz start cnt then Some (FLASH_DEVICE_INVALID_PARAMETER, s)
                else erase_loop bus (erase_cmd opcode addr_bytes) timeout polling sz (unat cnt) (start * sz) s);
         Some (status, s\<lparr>fl_state := 0\<rparr>)
       }
     }"

definition drv_flash_get_config :: "'d flash \<Rightarrow> flash_config_data option" where
  "drv_flash_get_config s = (if \<not> fl_init_done s then None else fl_config s)"

definition drv_flash_read_reg ::
    "'d qspi_bus \<Rightarrow> u8 \<Rightarrow> u8 \<Rightarrow> bytes option \<Rightarrow> 'd flash \<Rightarrow> flash_status \<times> bytes \<times> 'd flash" where
  "drv_flash_read_reg bus reg_opcode len reg_value s =
     (if \<not> fl_init_done s then (FLASH_DEVICE_FAIL, [], s)
      else if fl_state s \<noteq> 0 then (FLASH_DEVICE_BUSY, [], s)
      else case drv_flash_read_reg_internal bus reg_opcode len reg_value (s\<lparr>fl_state := FLASH_STATE_READ_REG\<rparr>) of
        (status, bs, s) \<Rightarrow> (status, bs, s\<lparr>fl_state := 0\<rparr>))"

definition drv_flash_write_reg ::
    "'d qspi_bus \<Rightarrow> u8 \<Rightarrow> u8 \<Rightarrow> bytes option \<Rightarrow> bool \<Rightarrow> 'd flash \<Rightarrow> 'd flash_result" where
  "drv_flash_write_reg bus reg_opcode len reg_value write_cb s =
     (if \<not> fl_init_done s then Some (FLASH_DEVICE_FAIL, s)
      else if fl_state s \<noteq> 0 then Some (FLASH_DEVICE_BUSY, s)
      else do {
        (status, s) \<leftarrow> drv_flash_write_reg_internal bus reg_opcode len reg_value (s\<lparr>fl_state := FLASH_STATE_WRITE_REG\<rparr>);
        (status, s) \<leftarrow> (if status \<noteq> FLASH_DEVICE_DONE \<or> write_cb then Some (status, s) else wait_not_busy bus s);
        Some (status, s\<lparr>fl_state := 0\<rparr>)
      })"

end
