(* ===== verification/Rram_Otp.thy ===== *)
theory Rram_Otp
  imports Prelude
begin

text \<open>
  Reading the RRAM and the one-time-programmable area in the boot loader, \<^verbatim>\<open>qboot/system/nt_bl_mem.c\<close>
  (built with \<open>FERMION_OTP_SUPPORT\<close>): the map from addresses to OTP regions, the read and write
  locks of the regions, the range check and the read itself. The lock bits are in the OTP
  area, so the check of a read reads memory through the same function; the recursion is
  bounded by a depth, and \<open>check_returns\<close> shows that depth 2 is always enough. The section
  addresses are those of the linker script \<^verbatim>\<open>qboot/frn_ioe_bl_cmn.ld\<close>.
\<close>

definition OTP_region_st_addr :: u32 where "OTP_region_st_addr = 0x1A0000"
definition OTP_region_end_addr :: u32 where "OTP_region_end_addr = 0x1A1000"
definition rram_region_start_addr :: u32 where "rram_region_start_addr = 0x200000"
definition rram_region_end_address :: u32 where "rram_region_end_address = 0x380000"

definition EINVAL :: int where "EINVAL = 22"
definition EIO :: int where "EIO = 5"
definition MAX_REGION :: nat where "MAX_REGION = 22"
definition RW_PERMISSION_REGION :: nat where "RW_PERMISSION_REGION = 2"

datatype otp_lock = READ_LOCKED | WRITE_LOCKED

definition RRAM_MAIN_ADD_CHECK :: "u32 \<Rightarrow> bool" where
  "RRAM_MAIN_ADD_CHECK address \<longleftrightarrow> address \<ge> rram_region_start_addr \<and> address \<le> rram_region_end_address"

definition RRAM_OTP_ADD_CHECK :: "u32 \<Rightarrow> bool" where
  "RRAM_OTP_ADD_CHECK address \<longleftrightarrow> address \<ge> OTP_region_st_addr \<and> address \<le> OTP_region_end_addr"

text \<open>Size and lock bit of each region.\<close>

definition g_otp_region_lock_map :: "(u16 \<times> nat) list" where
  "g_otp_region_lock_map =
     [(32, 0), (16, 1), (16, 2), (16, 9), (16, 3), (16, 4), (32, 5), (16, 6), (16, 7), (16, 8), (256, 10), (32, 11),
      (16, 13), (16, 16), (64, 17), (16, 19), (16, 14), (16, 15), (16, 12), (3456, 20)]"

fun region_from :: "(u16 \<times> nat) list \<Rightarrow> nat \<Rightarrow> u32 \<Rightarrow> u32 \<Rightarrow> nat" where
  "region_from [] region_count region_end_addr address = region_count"
| "region_from ((sz, l) # rs) region_count region_start_addr address =
     (let region_end_addr = region_start_addr + ucast sz
      in if region_start_addr \<le> address \<and> address < region_end_addr then region_count
         else region_from rs (region_count + 1) region_end_addr address)"

definition address_to_region_num_map :: "u32 \<Rightarrow> nat" where
  "address_to_region_num_map address = region_from g_otp_region_lock_map 0 OTP_region_st_addr address"

text \<open>
  \<open>chk\<close> is the range check the nested read goes through. The lock bytes of a region are at
  offset 48 (read) and 51 (write) of the OTP area.
\<close>

definition lock_addr :: "nat \<Rightarrow> otp_lock \<Rightarrow> u32" where
  "lock_addr region_num rd_wr_lock =
     OTP_region_st_addr + (case rd_wr_lock of READ_LOCKED \<Rightarrow> 48 | WRITE_LOCKED \<Rightarrow> 51) + of_nat (region_num div 8)"

definition nt_otp_region_locked ::
    "(u32 \<Rightarrow> u32 \<Rightarrow> otp_lock \<Rightarrow> int option) \<Rightarrow> memory \<Rightarrow> nat \<Rightarrow> otp_lock \<Rightarrow> int option" where
  "nt_otp_region_locked chk m region_num rd_wr_lock =
     (if region_num \<ge> MAX_REGION then Some (- EINVAL)
      else do {
        st \<leftarrow> chk (lock_addr region_num rd_wr_lock) 1 READ_LOCKED;
        Some (if st \<noteq> 0 then - EIO
              else if bit (m (lock_addr region_num rd_wr_lock)) (region_num mod 8) then 1 else 0)
      })"

text \<open>The loop over the regions asks for every region, also after one was found locked.\<close>

primrec regions_unlocked :: "(nat \<Rightarrow> int option) \<Rightarrow> nat list \<Rightarrow> bool option" where
  "regions_unlocked locked [] = Some True"
| "regions_unlocked locked (r # rs) =
     do {
       l \<leftarrow> locked (snd (g_otp_region_lock_map ! r));
       rest \<leftarrow> regions_unlocked locked rs;
       Some (l = 0 \<and> rest)
     }"

text \<open>The length is truncated to 16 bits by the parameter type.\<close>

definition check_otp_region_rw_permission ::
    "(nat \<Rightarrow> otp_lock \<Rightarrow> int option) \<Rightarrow> u32 \<Rightarrow> u16 \<Rightarrow> otp_lock \<Rightarrow> bool option" where
  "check_otp_region_rw_permission locked address len rw_lock_check =
     (let num_region = length g_otp_region_lock_map;
          starting_region_no = address_to_region_num_map address;
          ending_region_no = address_to_region_num_map (address + ucast len)
      in if starting_region_no \<ge> num_region \<or> ending_region_no \<ge> num_region then Some False
         else if starting_region_no = ending_region_no \<and> starting_region_no = RW_PERMISSION_REGION \<and> rw_lock_check = READ_LOCKED
         then Some True
         else regions_unlocked (\<lambda>l. locked l rw_lock_check) [starting_region_no ..< ending_region_no + 1])"

primrec rram_address_range_check :: "nat \<Rightarrow> memory \<Rightarrow> u32 \<Rightarrow> u32 \<Rightarrow> otp_lock \<Rightarrow> int option" where
  "rram_address_range_check 0 m rram_add data_len rd_wr_lock = None"
| "rram_address_range_check (Suc depth) m rram_add data_len rd_wr_lock =
     (if RRAM_OTP_ADD_CHECK rram_add \<and> RRAM_OTP_ADD_CHECK (rram_add + data_len) then
        map_option (\<lambda>ok. if ok then 0 else - EINVAL)
          (check_otp_region_rw_permission (nt_otp_region_locked (rram_address_range_check depth m) m)
             rram_add (ucast data_len) rd_wr_lock)
      else if RRAM_OTP_ADD_CHECK rram_add \<or> RRAM_OTP_ADD_CHECK (rram_add + data_len) then Some (- EINVAL)
      else if (RRAM_MAIN_ADD_CHECK rram_add \<or> RRAM_OTP_ADD_CHECK rram_add)
            \<and> (RRAM_MAIN_ADD_CHECK (rram_add + data_len) \<or> RRAM_OTP_ADD_CHECK (rram_add + data_len)) then Some 0
      else Some (- EINVAL))"

text \<open>The status and the memory after \<open>len\<close> bytes were copied from \<open>address\<close> to \<open>rdata\<close>.\<close>

definition nt_bl_rram_read :: "u32 \<Rightarrow> u32 \<Rightarrow> u32 \<Rightarrow> memory \<Rightarrow> (int \<times> memory) option" where
  "nt_bl_rram_read address rdata len m =
     (if len = 0 then Some (- EINVAL, m)
      else do {
        st \<leftarrow> rram_address_range_check (Suc (Suc 0)) m address len READ_LOCKED;
        if st \<noteq> 0 then Some (- EINVAL, m)
        else Some (0, mem_write m rdata (mem_read m address (unat len)))
      })"

section \<open>The check returns\<close>

lemma region_from_mono:
  "start \<le> a \<Longrightarrow> a \<le> b \<Longrightarrow> region_from rs i start a \<le> region_from rs i start b"
proof (induction rs i start a rule: region_from.induct)
  case (2 sz l rs i start a)
  have ge: "i \<le> region_from rs' i s x" for rs' i s x
    by (induction rs' i s x rule: region_from.induct) (auto simp: Let_def split: if_splits)
  show ?case
  proof (cases "a < start + ucast sz")
    case True
    then show ?thesis using 2 ge [of "i + 1" rs "start + ucast sz" b] by (auto simp: Let_def)
  next
    case False
    then show ?thesis using 2 by (auto simp: Let_def not_less)
  qed
qed simp

lemma permission_region: "0x1A0030 \<le> a \<Longrightarrow> a < 0x1A0040 \<Longrightarrow> address_to_region_num_map a = 2"
  by (auto simp: address_to_region_num_map_def g_otp_region_lock_map_def OTP_region_st_addr_def Let_def word_less_nat_alt word_le_nat_alt)

text \<open>Reading a lock byte needs no further permission.\<close>

lemma lock_byte_check:
  assumes "n < MAX_REGION"
  shows "rram_address_range_check (Suc d) m (lock_addr n lk) 1 READ_LOCKED = Some 0"
proof -
  have n: "n div 8 < 3" using assms by (simp add: MAX_REGION_def)
  define k where "k = (case lk of READ_LOCKED \<Rightarrow> 48 | WRITE_LOCKED \<Rightarrow> 51) + n div 8"
  have k: "48 \<le> k" "k < 54" using n by (auto simp: k_def split: otp_lock.split)
  have a: "lock_addr n lk = 0x1A0000 + of_nat k"
    by (cases lk) (simp_all add: lock_addr_def OTP_region_st_addr_def k_def)
  have a1: "lock_addr n lk + 1 = 0x1A0000 + of_nat (Suc k)" by (simp add: a)
  have off: "unat (0x1A0000 + of_nat i :: u32) = 0x1A0000 + i" if "i < 100" for i
    using unat_addr_offset [of "0x1A0000" i] that by simp
  have u: "unat (lock_addr n lk) = 0x1A0000 + k" "unat (lock_addr n lk + 1) = 0x1A0001 + k"
    unfolding a1 unfolding a using off [of k] off [of "Suc k"] k by (simp_all del: of_nat_Suc)
  then have "address_to_region_num_map (lock_addr n lk) = 2" "address_to_region_num_map (lock_addr n lk + 1) = 2"
    using k by (auto intro!: permission_region simp: word_le_nat_alt word_less_nat_alt)
  then show ?thesis
    using u k by (simp add: RRAM_OTP_ADD_CHECK_def OTP_region_st_addr_def OTP_region_end_addr_def word_le_nat_alt
        check_otp_region_rw_permission_def RW_PERMISSION_REGION_def g_otp_region_lock_map_def Let_def)
qed

lemma locked_returns:
  "nt_otp_region_locked (rram_address_range_check (Suc d) m) m n lk =
     Some (if n \<ge> MAX_REGION then - EINVAL else if bit (m (lock_addr n lk)) (n mod 8) then 1 else 0)"
  using lock_byte_check [of n d m lk] by (simp add: nt_otp_region_locked_def not_le)

lemma regions_unlocked_total:
  "(\<And>l. locked l = Some (f l)) \<Longrightarrow> regions_unlocked locked rs = Some (list_all (\<lambda>r. f (snd (g_otp_region_lock_map ! r)) = 0) rs)"
  by (induction rs) auto

lemma permission_returns:
  "\<exists>ok. check_otp_region_rw_permission (nt_otp_region_locked (rram_address_range_check (Suc d) m) m) a n lk = Some ok"
  by (auto simp: check_otp_region_rw_permission_def Let_def locked_returns regions_unlocked_total [OF refl])

lemma check_returns: "\<exists>st. rram_address_range_check (Suc (Suc d)) m a n lk = Some st"
  using permission_returns [of d m a "ucast n" lk] by auto

lemma read_returns: "\<exists>st m'. nt_bl_rram_read a dst n m = Some (st, m')"
proof -
  obtain st where "rram_address_range_check (Suc (Suc 0)) m a n READ_LOCKED = Some st"
    using check_returns [of 0 m a n READ_LOCKED] by blast
  then show ?thesis by (cases "n = 0") (simp_all add: nt_bl_rram_read_def)
qed

text \<open>Inside the main RRAM a read is a copy.\<close>

lemma read_main:
  assumes "0x200000 \<le> unat a" and "unat a + unat n \<le> 0x380000" and "n \<noteq> 0"
  shows "nt_bl_rram_read a dst n m = Some (0, mem_write m dst (mem_read m a (unat n)))"
proof -
  have "unat (a + n) = unat a + unat n" using assms(2) by (simp add: unat_word_ariths)
  then show ?thesis
    using assms by (simp add: nt_bl_rram_read_def RRAM_OTP_ADD_CHECK_def RRAM_MAIN_ADD_CHECK_def
        OTP_region_st_addr_def OTP_region_end_addr_def rram_region_start_addr_def rram_region_end_address_def word_le_nat_alt)
qed

section \<open>Locks\<close>

text \<open>Every read through the boot loader returns (two levels of the nested check are
  enough), and a read that starts in a region of the OTP area whose read-lock bit is set is
  refused whatever its length, with nothing copied. Only the region with the lock bits
  itself can always be read.\<close>

theorem otp_locked_read_refused:
  assumes "0x1A0000 \<le> unat a" and "unat a \<le> 0x1A1000"
    and "r = address_to_region_num_map a" and "r < length g_otp_region_lock_map" and "r \<noteq> RW_PERMISSION_REGION"
    and "l = snd (g_otp_region_lock_map ! r)" and "bit (m (lock_addr l READ_LOCKED)) (l mod 8)"
  shows "nt_bl_rram_read a dst n m = Some (- EINVAL, m)"
proof (cases "n = 0")
  case False
  have otp: "RRAM_OTP_ADD_CHECK a"
    using assms(1,2) by (simp add: RRAM_OTP_ADD_CHECK_def OTP_region_st_addr_def OTP_region_end_addr_def word_le_nat_alt)
  let ?e = "a + ucast (ucast n :: u16)"
  have "unat ?e = unat a + unat (ucast n :: u16)"
    using assms(2) unsigned_less [of "ucast n :: u16", where ?'a = nat] by (simp add: unat_word_ariths)
  then have mono: "r \<le> address_to_region_num_map ?e"
    unfolding assms(3) address_to_region_num_map_def
    using assms(1) by (intro region_from_mono) (simp_all add: OTP_region_st_addr_def word_le_nat_alt)
  let ?locked = "nt_otp_region_locked (rram_address_range_check (Suc 0) m) m"
  have "\<exists>f. (\<forall>x. ?locked x READ_LOCKED = Some (f x)) \<and> f l \<noteq> 0"
    by (rule exI [of _ "\<lambda>x. if x \<ge> MAX_REGION then - EINVAL else if bit (m (lock_addr x READ_LOCKED)) (x mod 8) then 1 else 0"])
      (use assms(7) in \<open>simp add: locked_returns EINVAL_def\<close>)
  then obtain f where f: "\<And>x. ?locked x READ_LOCKED = Some (f x)" "f l \<noteq> 0" by blast
  have "\<not> list_all (\<lambda>r. f (snd (g_otp_region_lock_map ! r)) = 0) [r ..< address_to_region_num_map ?e + 1]"
    unfolding list_all_iff using mono f(2) assms(6) by (intro notI) (drule bspec [of _ _ r], auto)
  then have "check_otp_region_rw_permission ?locked a (ucast n) READ_LOCKED = Some False"
    using assms(5) unfolding check_otp_region_rw_permission_def Let_def assms(3) [symmetric]
    by (simp add: regions_unlocked_total [of "\<lambda>l. ?locked l READ_LOCKED", OF f(1)])
  then show ?thesis using False otp by (simp add: nt_bl_rram_read_def EINVAL_def)
qed (simp add: nt_bl_rram_read_def)

theorem otp_locked_read_refused_witness:
  "nt_bl_rram_read 0x1A0040 0x1000 16 ((\<lambda>_. 0)(0x1A0031 := 2)) = Some (- EINVAL, (\<lambda>_. 0)(0x1A0031 := 2))"
  by (rule otp_locked_read_refused [of _ 3 9])
    (simp_all add: address_to_region_num_map_def g_otp_region_lock_map_def OTP_region_st_addr_def Let_def
      RW_PERMISSION_REGION_def lock_addr_def bit_simps)

end
