(* ===== verification/Rram_Dxe.thy ===== *)
theory Rram_Dxe
  imports Prelude
begin

text \<open>
  Writing the on-chip RRAM through the DXE engine, \<^verbatim>\<open>qboot/system/nt_bl_rram_dxe.c\<close>. RAM and
  RRAM are one byte memory. The engine moves whole 16-byte blocks; the code around it reads
  the blocks that are overwritten in part and splits long writes. What a transfer of the
  engine does is the parameter \<open>dma\<close>; the code relies on it being a copy (\<open>dma_copies\<close>).
\<close>

section \<open>Status codes of the boot loader\<close>

datatype bl_error_type = BL_ERR_NONE | BL_ERR_NULL_PTR | BL_ERR_INVALID_PARAM
  | BL_ERR_ELF_MEM_NULL_PTR | BL_ERR_ELF_MEM_INIT | BL_ERR_ELF_MEM_READ | BL_ERR_ELF_MEM_REGION | BL_ERR_ELF_MEM_INVAL_PARAM
  | BL_ERR_ELF_NULL_PTR | BL_ERR_ELF_INVAL_PARAM | BL_ERR_ELF_MEM | BL_ERR_ELF_PARSE | BL_ERR_ELF_FORMAT
  | BL_ERR_ELF_HASH_TABLE_MISSING | BL_ERR_ELF_CLASS_INVALID | BL_ERR_ELF_NO_HASH_SEG_FOUND | BL_ERR_ELF_SEGMENT_COUNT
  | BL_ERR_ELF_HASH_MISMATCH | BL_ERR_ELF_MULTI_HASH_SEG_FOUND | BL_ERR_ELF_WHITELIST_CHECK
  | BL_ERR_RRAM_DXE_INVALID_ADDR | BL_ERR_RRAM_DXE_INVALID_BLOCK_ADDR
  | BL_ERR_FDT_NULL_PTR | BL_ERR_FDT_INVALID_ADDR | BL_ERR_FDT_INVALID_SIGNATURE | BL_ERR_FDT_INVALID_ENTRY_NUM
  | BL_ERR_FDT_INVALID_PARAM | BL_ERR_FDE_INVALID_IMAGE_ID | BL_ERR_FDE_INVALID_IMAGE_ADDR | BL_ERR_FDE_INVALID_IDX
  | BL_ERR_FDE_UPDATE_ERR
  | BL_ERR_IMG_AUTH_NULL_PTR | BL_ERR_IMG_AUTH_INVAL_PARAM | BL_ERR_IMG_SECURITY_FAIL | BL_ERR_IMG_META_DATA_AUTH_FAIL
  | BL_ERR_AUTH_ELF_HDR_FAIL | BL_ERR_ROLLBACK_IMAGE_SET_NOT_FOUND | BL_ERR_ROLLBACK_VERSION_VERIFY_FAIL
  | BL_ERR_ROLLBACK_VERSION_BLOW_FAIL | BL_ERR_ROLLBACK_OPEN_VERSION_FUSE_NOT_FOUND

section \<open>Model\<close>

definition RRAM_START :: u32 where "RRAM_START = 0x00200000"
definition RRAM_END :: u32 where "RRAM_END = 0x0037FFFF"
definition RRAM_WRITE_ADR_BYTE_ALIGN :: u32 where "RRAM_WRITE_ADR_BYTE_ALIGN = 16"
definition RRAM_WRITE_BLOCK_MAX_SIZE :: u32 where "RRAM_WRITE_BLOCK_MAX_SIZE = 0x3FF0"
definition RRAM_SET_BUFFER_SIZE :: u32 where "RRAM_SET_BUFFER_SIZE = 4096"

text \<open>A source pointer: into the memory, or into a buffer of the caller.\<close>

datatype source = Src_mem addr | Src_buf bytes

fun src_byte :: "memory \<Rightarrow> source \<Rightarrow> u8" where
  "src_byte m (Src_mem a) = m a"
| "src_byte m (Src_buf bs) = (case bs of [] \<Rightarrow> 0 | b # _ \<Rightarrow> b)"

fun advance :: "source \<Rightarrow> nat \<Rightarrow> source" where
  "advance (Src_mem a) k = Src_mem (a + of_nat k)"
| "advance (Src_buf bs) k = Src_buf (drop k bs)"

fun src_bytes :: "memory \<Rightarrow> source \<Rightarrow> nat \<Rightarrow> bytes" where
  "src_bytes m (Src_mem a) n = mem_read m a n"
| "src_bytes m (Src_buf bs) n = take n bs"

type_synonym dma = "addr \<Rightarrow> bytes \<Rightarrow> memory \<Rightarrow> memory"

definition rram_verify_address :: "u32 \<Rightarrow> u32 \<Rightarrow> bl_error_type" where
  "rram_verify_address address len =
     (if address \<ge> RRAM_START \<and> address \<le> RRAM_END \<and> address mod 4 = 0 \<and> (RRAM_END - address) + 1 \<ge> len
      then BL_ERR_NONE else BL_ERR_RRAM_DXE_INVALID_ADDR)"

definition rram_block_write_dxe :: "dma \<Rightarrow> u32 \<Rightarrow> source \<Rightarrow> u32 \<Rightarrow> memory \<Rightarrow> bl_error_type \<times> memory" where
  "rram_block_write_dxe dma destination src len m =
     (if destination AND (RRAM_WRITE_ADR_BYTE_ALIGN - 1) \<noteq> 0 then (BL_ERR_RRAM_DXE_INVALID_BLOCK_ADDR, m)
      else if len AND (RRAM_WRITE_ADR_BYTE_ALIGN - 1) \<noteq> 0 then (BL_ERR_RRAM_DXE_INVALID_BLOCK_ADDR, m)
      else (BL_ERR_NONE, dma destination (src_bytes m src (unat len)) m))"

text \<open>The byte loop of the unaligned write: overwrite \<open>buffer\<close> from \<open>offset\<close> on.\<close>

function fill_block :: "memory \<Rightarrow> nat \<Rightarrow> u32 \<Rightarrow> source \<Rightarrow> bytes \<Rightarrow> nat \<Rightarrow> bytes \<times> nat" where
  "fill_block m offset len src buffer written =
     (if offset < unat RRAM_WRITE_ADR_BYTE_ALIGN \<and> len \<noteq> 0
      then fill_block m (offset + 1) (len - 1) (advance src 1) (buffer[offset := src_byte m src]) (written + 1)
      else (buffer, written))"
  by pat_completeness auto

termination
  by (relation "measure (\<lambda>(m, offset, l, src, b, w). unat RRAM_WRITE_ADR_BYTE_ALIGN - offset)") auto

text \<open>The number of bytes written is the second component.\<close>

definition rram_write_unaligned_dxe :: "dma \<Rightarrow> u32 \<Rightarrow> source \<Rightarrow> u32 \<Rightarrow> memory \<Rightarrow> bl_error_type \<times> u32 \<times> memory" where
  "rram_write_unaligned_dxe dma destination src len m =
     (let offset = destination AND (RRAM_WRITE_ADR_BYTE_ALIGN - 1);
          destination = destination - offset;
          buffer = mem_read m destination (unat RRAM_WRITE_ADR_BYTE_ALIGN)
      in case fill_block m (unat offset) len src buffer 0 of
        (buffer, bytes_written) \<Rightarrow>
          case rram_block_write_dxe dma destination (Src_buf buffer) RRAM_WRITE_ADR_BYTE_ALIGN m of
            (status, m) \<Rightarrow> (status, of_nat bytes_written, m))"

primrec write_full_blocks :: "dma \<Rightarrow> nat \<Rightarrow> u32 \<Rightarrow> source \<Rightarrow> memory \<Rightarrow> bl_error_type \<times> memory" where
  "write_full_blocks dma 0 dst src m = (BL_ERR_NONE, m)"
| "write_full_blocks dma (Suc n) dst src m =
     (case rram_block_write_dxe dma dst src RRAM_WRITE_BLOCK_MAX_SIZE m of
        (status, m) \<Rightarrow>
          if status \<noteq> BL_ERR_NONE then (status, m)
          else write_full_blocks dma n (dst + RRAM_WRITE_BLOCK_MAX_SIZE) (advance src (unat RRAM_WRITE_BLOCK_MAX_SIZE)) m)"

text \<open>The last block, when it is not a full one.\<close>

definition write_partial_block :: "dma \<Rightarrow> u32 \<Rightarrow> source \<Rightarrow> u32 \<Rightarrow> memory \<Rightarrow> bl_error_type \<times> memory" where
  "write_partial_block dma dst src nbytes m =
     (let unaligned = nbytes AND (RRAM_WRITE_ADR_BYTE_ALIGN - 1);
          aligned = nbytes - unaligned
      in case rram_block_write_dxe dma dst src aligned m of
        (status, m) \<Rightarrow>
          if status \<noteq> BL_ERR_NONE then (status, m)
          else if unaligned = 0 then (status, m)
          else
            let dst = dst + aligned;
                buffer = src_bytes m (advance src (unat aligned)) (unat unaligned)
                  @ mem_read m (dst + unaligned) (unat (RRAM_WRITE_ADR_BYTE_ALIGN - unaligned))
            in rram_block_write_dxe dma dst (Src_buf buffer) RRAM_WRITE_ADR_BYTE_ALIGN m)"

definition write_blocks :: "dma \<Rightarrow> u32 \<Rightarrow> source \<Rightarrow> u32 \<Rightarrow> memory \<Rightarrow> bl_error_type \<times> memory" where
  "write_blocks dma dst src len m =
     (let n_full_blocks = unat (len div RRAM_WRITE_BLOCK_MAX_SIZE);
          nbytes_partial_block = len mod RRAM_WRITE_BLOCK_MAX_SIZE;
          full = n_full_blocks * unat RRAM_WRITE_BLOCK_MAX_SIZE
      in case write_full_blocks dma n_full_blocks dst src m of
        (status, m) \<Rightarrow>
          if status \<noteq> BL_ERR_NONE then (status, m)
          else if nbytes_partial_block = 0 then (status, m)
          else write_partial_block dma (dst + of_nat full) (advance src full) nbytes_partial_block m)"

definition rram_write_dxe :: "dma \<Rightarrow> u32 \<Rightarrow> source \<Rightarrow> u32 \<Rightarrow> memory \<Rightarrow> bl_error_type \<times> memory" where
  "rram_write_dxe dma destination src len m =
     (if rram_verify_address destination len \<noteq> BL_ERR_NONE then (rram_verify_address destination len, m)
      else if destination AND (RRAM_WRITE_ADR_BYTE_ALIGN - 1) \<noteq> 0 then
        (case rram_write_unaligned_dxe dma destination src len m of
           (status, nbytes_written, m) \<Rightarrow>
             if status \<noteq> BL_ERR_NONE \<or> len \<le> nbytes_written then (status, m)
             else write_blocks dma (destination + nbytes_written) (advance src (unat nbytes_written)) (len - nbytes_written) m)
      else write_blocks dma destination src len m)"

definition set_buffer :: "u8 \<Rightarrow> bytes" where
  "set_buffer v = replicate (unat RRAM_SET_BUFFER_SIZE) v"

function memset_loop :: "dma \<Rightarrow> u32 \<Rightarrow> u8 \<Rightarrow> u32 \<Rightarrow> memory \<Rightarrow> bl_error_type \<times> memory" where
  "memset_loop dma dst_addr v len m =
     (if len = 0 then (BL_ERR_NONE, m)
      else
        let set_length = (if RRAM_SET_BUFFER_SIZE \<le> len then RRAM_SET_BUFFER_SIZE else len)
        in case rram_write_dxe dma dst_addr (Src_buf (set_buffer v)) set_length m of
          (status, m) \<Rightarrow>
            if status \<noteq> BL_ERR_NONE then (status, m)
            else memset_loop dma (dst_addr + set_length) v (len - set_length) m)"
  by pat_completeness auto

termination
proof (relation "measure (\<lambda>(dma, d, v, l, m). unat l)", goal_cases)
  case (2 dma d v l m s x y)
  have "0 < unat l" using 2(1) by (simp add: unat_gt_0)
  then show ?case using 2 by (auto simp: RRAM_SET_BUFFER_SIZE_def unat_sub word_le_nat_alt split: if_splits)
qed simp

text \<open>\<open>memset\<close> stores the low byte of its \<open>int\<close> argument.\<close>

definition rram_memset_dxe :: "dma \<Rightarrow> u32 \<Rightarrow> u32 \<Rightarrow> u32 \<Rightarrow> memory \<Rightarrow> bl_error_type \<times> memory" where
  "rram_memset_dxe dma address value len m =
     (if rram_verify_address address len \<noteq> BL_ERR_NONE then (rram_verify_address address len, m)
      else
        let v = (ucast value :: u8)
        in if address AND (RRAM_WRITE_ADR_BYTE_ALIGN - 1) \<noteq> 0 then
             (let set_length = (if RRAM_WRITE_ADR_BYTE_ALIGN \<le> len then RRAM_WRITE_ADR_BYTE_ALIGN else len)
              in case rram_write_unaligned_dxe dma address (Src_buf (set_buffer v)) set_length m of
                (status, set_length, m) \<Rightarrow>
                  if status \<noteq> BL_ERR_NONE \<or> len \<le> set_length then (status, m)
                  else memset_loop dma (address + set_length) v (len - set_length) m)
           else memset_loop dma address v len m)"

declare fill_block.simps [simp del] memset_loop.simps [simp del]

end
