(* ===== verification/Rram_Correct.thy ===== *)
theory Rram_Correct
  imports Rram_Dxe
begin

text \<open>
  Correctness of the RRAM writer: whatever the alignment of the destination and however the
  length splits into blocks, exactly the requested bytes change.
\<close>

section \<open>Composing writes\<close>

lemma mem_write_append:
  "mem_write m a (xs @ ys) = mem_write (mem_write m a xs) (a + of_nat (length xs)) ys"
proof (induction xs arbitrary: m a)
  case (Cons x xs)
  have "a + 1 + of_nat (length xs) = a + of_nat (length (x # xs))" by (simp add: algebra_simps)
  then show ?case using Cons.IH [of "m(a := x)" "a + 1"] by (simp add: fun_upd_def add.assoc)
qed simp

lemma mem_read_add: "mem_read m a (i + j) = mem_read m a i @ mem_read m (a + of_nat i) j"
  by (rule nth_equalityI) (auto simp: nth_append algebra_simps of_nat_diff)

lemma drop_mem_read: "drop i (mem_read m a n) = mem_read m (a + of_nat i) (n - i)"
  by (rule nth_equalityI) (auto simp: algebra_simps)

lemma mem_read_Suc: "mem_read m a (Suc n) = m a # mem_read m (a + 1) n"
  using mem_read_add [of m a 1 n] by (simp add: mem_read_def)

lemma mem_write_same: "mem_write m a (mem_read m a n) = m"
proof (induction n arbitrary: m a)
  case (Suc n)
  then show ?case using Suc.IH [of m "a + 1"] by (simp add: mem_read_Suc)
qed simp

text \<open>Writing a block back with some bytes replaced changes only those.\<close>

lemma mem_write_patch:
  assumes "unat a + (i + length ys + k) \<le> 2 ^ 32"
  shows "mem_write m a (mem_read m a i @ ys @ mem_read m (a + of_nat (i + length ys)) k) = mem_write m (a + of_nat i) ys"
proof -
  let ?b = "a + of_nat (i + length ys)"
  have "mem_read (mem_write m (a + of_nat i) ys) ?b k = mem_read m ?b k"
  proof (cases "k = 0 \<or> ys = []")
    case False
    then have "unat (a + of_nat i) = unat a + i" "unat ?b = unat a + (i + length ys)"
      using assms by (auto intro!: unat_addr_offset simp del: of_nat_add)
    then show ?thesis using assms by (intro mem_read_write_apart) (simp add: apart_def)
  qed auto
  then have "mem_write (mem_write m (a + of_nat i) ys) ?b (mem_read m ?b k) = mem_write m (a + of_nat i) ys"
    using mem_write_same [of "mem_write m (a + of_nat i) ys" ?b k] by simp
  then show ?thesis by (simp add: mem_write_append mem_write_same add.assoc)
qed

section \<open>Sources\<close>

text \<open>\<open>n\<close> bytes can be read from the source, and a write of \<open>n\<close> bytes at \<open>dst\<close> does not touch them.\<close>

fun src_ok :: "source \<Rightarrow> addr \<Rightarrow> nat \<Rightarrow> bool" where
  "src_ok (Src_mem a) dst n = apart a n dst n"
| "src_ok (Src_buf bs) dst n = (n \<le> length bs)"

lemma length_src_bytes: "src_ok src dst n \<Longrightarrow> k \<le> n \<Longrightarrow> length (src_bytes m src k) = k"
  by (cases src) auto

lemma src_bytes_take: "k \<le> n \<Longrightarrow> src_bytes m src k = take k (src_bytes m src n)"
  by (cases src) (simp_all add: mem_read_take min_absorb1)

lemma src_bytes_advance: "src_bytes m (advance src k) j = drop k (src_bytes m src (k + j))"
  by (cases src) (simp_all add: drop_mem_read drop_take)

lemma unat_offset_le: "unat a + n \<le> 2 ^ 32 \<Longrightarrow> k < n \<Longrightarrow> unat ((a :: addr) + of_nat k) = unat a + k"
  by (rule unat_addr_offset) simp

lemma src_advance:
  assumes "src_ok src dst n" and "k < n" and "unat dst + n \<le> 2 ^ 32" and "length bs = k"
  shows "src_ok (advance src k) (dst + of_nat k) (n - k)"
    and "j \<le> n - k \<Longrightarrow> src_bytes (mem_write m dst bs) (advance src k) j = src_bytes m (advance src k) j"
proof -
  have d: "unat (dst + of_nat k) = unat dst + k" by (rule unat_offset_le [OF assms(3,2)])
  have both: "src_ok (advance src k) (dst + of_nat k) (n - k) \<and>
      (j \<le> n - k \<longrightarrow> src_bytes (mem_write m dst bs) (advance src k) j = src_bytes m (advance src k) j)"
  proof (cases src)
    case (Src_mem a)
    have ap: "apart a n dst n" using assms(1) Src_mem by simp
    then have a: "unat (a + of_nat k) = unat a + k" by (intro unat_offset_le [OF _ assms(2)]) (simp add: apart_def)
    have "apart (a + of_nat k) (n - k) (dst + of_nat k) (n - k)"
      using ap a d assms(2) by (auto simp: apart_def)
    moreover have "apart (a + of_nat k) j dst (length bs)" if "j \<le> n - k"
      using ap a that assms(2,4) by (auto simp: apart_def)
    ultimately show ?thesis using Src_mem by (simp add: mem_read_write_apart)
  next
    case (Src_buf bs)
    then show ?thesis using assms(1) by simp
  qed
  from both show "src_ok (advance src k) (dst + of_nat k) (n - k)" by simp
  from both show "j \<le> n - k \<Longrightarrow> src_bytes (mem_write m dst bs) (advance src k) j = src_bytes m (advance src k) j" by simp
qed

lemma src_bytes_0 [simp]: "src_bytes m src 0 = []"
  by (cases src) auto

lemma src_ok_advance:
  assumes "src_ok src dst n" and "k \<le> n" and "unat dst + n \<le> 2 ^ 32"
  shows "src_ok (advance src k) (dst + of_nat k) (n - k)"
proof (cases "k = n")
  case True
  have z: "apart x 0 y 0" for x y using unsigned_less [of x, where ?'a = nat] unsigned_less [of y, where ?'a = nat]
    by (auto simp: apart_def)
  show ?thesis using True z assms(1) by (cases src) auto
next
  case False
  then have "k < n" using assms(2) by simp
  have "length (replicate k (0 :: u8)) = k" by simp
  from src_advance(1) [OF assms(1) \<open>k < n\<close> assms(3) this] show ?thesis .
qed

text \<open>Writing a source in two pieces.\<close>

lemma src_write_split:
  assumes "src_ok src dst n" and "k \<le> n" and "unat dst + n \<le> 2 ^ 32"
  shows "mem_write (mem_write m dst (src_bytes m src k)) (dst + of_nat k)
           (src_bytes (mem_write m dst (src_bytes m src k)) (advance src k) (n - k)) = mem_write m dst (src_bytes m src n)"
proof -
  have l: "length (src_bytes m src k) = k" using length_src_bytes [OF assms(1,2)] .
  have e: "src_bytes m src n = src_bytes m src k @ src_bytes m (advance src k) (n - k)"
    using assms(2) by (simp add: src_bytes_advance src_bytes_take [of k n])
  show ?thesis
  proof (cases "k = n")
    case False
    then have "k < n" using assms(2) by simp
    from src_advance(2) [OF assms(1) this assms(3) l, of "n - k", OF order.refl] show ?thesis
      unfolding e mem_write_append l by (rule arg_cong)
  qed simp
qed

section \<open>Blocks\<close>

definition dma_copies :: "dma \<Rightarrow> bool" where
  "dma_copies dma \<longleftrightarrow> (\<forall>a bs m. dma a bs m = mem_write m a bs)"

lemma low_bits: "unat (w AND (RRAM_WRITE_ADR_BYTE_ALIGN - 1)) = unat w mod 16"
proof -
  have "(15 :: u32) = mask 4" by (simp add: mask_eq_exp_minus_1)
  then have "w AND (RRAM_WRITE_ADR_BYTE_ALIGN - 1) = take_bit 4 w"
    by (simp add: RRAM_WRITE_ADR_BYTE_ALIGN_def take_bit_eq_mask)
  then show ?thesis by (simp add: take_bit_eq_mod unat_mod_distrib)
qed

lemma low_bits_zero: "w AND (RRAM_WRITE_ADR_BYTE_ALIGN - 1) = 0 \<longleftrightarrow> unat w mod 16 = 0"
  using low_bits [of w] by (metis unat_eq_zero unat_0)

lemma block_write:
  assumes "dma_copies dma" and "unat dst mod 16 = 0" and "unat n mod 16 = 0"
  shows "rram_block_write_dxe dma dst src n m = (BL_ERR_NONE, mem_write m dst (src_bytes m src (unat n)))"
  using assms by (simp add: rram_block_write_dxe_def low_bits_zero dma_copies_def)

lemma unat_align: "unat RRAM_WRITE_ADR_BYTE_ALIGN = 16"
  by (simp add: RRAM_WRITE_ADR_BYTE_ALIGN_def)

lemma block_write_buf:
  assumes "dma_copies dma" and "unat dst mod 16 = 0" and "length bs = 16"
  shows "rram_block_write_dxe dma dst (Src_buf bs) RRAM_WRITE_ADR_BYTE_ALIGN m = (BL_ERR_NONE, mem_write m dst bs)"
  using block_write [OF assms(1,2), of RRAM_WRITE_ADR_BYTE_ALIGN "Src_buf bs" m] assms(3) by (simp add: unat_align)

fun src_has :: "source \<Rightarrow> nat \<Rightarrow> bool" where
  "src_has (Src_mem a) n = True"
| "src_has (Src_buf bs) n = (n \<le> length bs)"

lemma src_ok_has: "src_ok src dst n \<Longrightarrow> src_has src n"
  by (cases src) auto

lemma src_bytes_Suc: "src_has src (Suc n) \<Longrightarrow> src_bytes m src (Suc n) = src_byte m src # src_bytes m (advance src 1) n"
  by (cases src) (auto simp: mem_read_Suc split: list.split)

lemma src_has_advance: "src_has src (Suc n) \<Longrightarrow> src_has (advance src 1) n"
  by (cases src) auto

text \<open>The byte loop is one splice.\<close>

lemma fill_block_splice:
  assumes "length buffer = 16" and "src_has src (min (16 - offset) (unat len))"
  shows "fill_block m offset len src buffer w =
    (take offset buffer @ src_bytes m src (min (16 - offset) (unat len)) @ drop (offset + min (16 - offset) (unat len)) buffer,
     w + min (16 - offset) (unat len))"
  using assms
proof (induction m offset len src buffer w rule: fill_block.induct)
  case (1 m offset len src buffer w)
  show ?case
  proof (cases "offset < 16 \<and> len \<noteq> 0")
    case True
    then have len: "unat len = Suc (unat (len - 1))" by (simp add: unat_minus_one unat_gt_0)
    define n where "n = min (16 - Suc offset) (unat (len - 1))"
    have n: "min (16 - offset) (unat len) = Suc n" using True len by (auto simp: n_def)
    have h: "src_has src (Suc n)" using 1(3) n by simp
    have "fill_block m (offset + 1) (len - 1) (advance src 1) (buffer[offset := src_byte m src]) (w + 1) =
      (take (Suc offset) (buffer[offset := src_byte m src]) @ src_bytes m (advance src 1) n
        @ drop (Suc offset + n) (buffer[offset := src_byte m src]), w + 1 + n)"
      using 1(1) 1(2) True src_has_advance [OF h] by (simp add: n_def RRAM_WRITE_ADR_BYTE_ALIGN_def)
    moreover have "take (Suc offset) (buffer[offset := src_byte m src]) = take offset buffer @ [src_byte m src]"
      using True 1(2) by (simp add: take_Suc_conv_app_nth)
    ultimately show ?thesis
      using True n src_bytes_Suc [OF h, of m] by (subst fill_block.simps) (simp add: RRAM_WRITE_ADR_BYTE_ALIGN_def)
  next
    case False
    then show ?thesis by (subst fill_block.simps) (auto simp: RRAM_WRITE_ADR_BYTE_ALIGN_def split: if_splits)
  qed
qed

lemma unaligned_write:
  assumes "dma_copies dma" and "src_has src (min (16 - unat dst mod 16) (unat n))"
  shows "rram_write_unaligned_dxe dma dst src n m =
    (BL_ERR_NONE, of_nat (min (16 - unat dst mod 16) (unat n)),
     mem_write m dst (src_bytes m src (min (16 - unat dst mod 16) (unat n))))"
proof -
  define off where "off = unat dst mod 16"
  define k where "k = min (16 - off) (unat n)"
  define base where "base = dst - (dst AND (RRAM_WRITE_ADR_BYTE_ALIGN - 1))"
  define buf where "buf = mem_read m base off @ src_bytes m src k @ mem_read m (base + of_nat (off + k)) (16 - (off + k))"
  have "unat base = unat dst - off" unfolding base_def off_def
    by (subst unat_sub) (simp_all add: low_bits word_le_nat_alt)
  then have b: "unat base mod 16 = 0" "unat base + off = unat dst"
    by (simp_all add: off_def minus_mod_eq_mult_div)
  have "unat dst < 4294967296" using unsigned_less [of dst, where ?'a = nat] by simp
  then have "unat base + 16 \<le> 4294967296" using b by presburger
  then have b16: "unat base + 16 \<le> 2 ^ 32" by simp
  have dst: "base + of_nat off = dst" unfolding base_def off_def low_bits [of dst, symmetric] by simp
  have "off < 16" by (simp add: off_def)
  then have k: "off + k \<le> 16" unfolding k_def by linarith
  have has: "src_has src k" using assms(2) by (simp add: k_def off_def)
  then have lk: "length (src_bytes m src k) = k" by (cases src) auto
  have tk: "take off (mem_read m base 16) = mem_read m base off" by (rule mem_read_take) (use \<open>off < 16\<close> in simp)
  have fill: "fill_block m off n src (mem_read m base 16) 0 = (buf, k)"
    using fill_block_splice [OF length_mem_read, of src off n m m base 0] has
    unfolding k_def [symmetric] tk drop_mem_read buf_def by simp
  have lb: "length buf = 16" unfolding buf_def length_append length_mem_read lk using k by linarith
  have "unat base + (off + length (src_bytes m src k) + (16 - (off + k))) \<le> 2 ^ 32" unfolding lk using b16 k by linarith
  from mem_write_patch [OF this, of m] have "mem_write m base buf = mem_write m dst (src_bytes m src k)"
    unfolding buf_def lk dst .
  with block_write_buf [OF assms(1) b(1) lb, of m] show ?thesis
    unfolding rram_write_unaligned_dxe_def Let_def low_bits unat_align off_def [symmetric] k_def [symmetric] base_def [symmetric] fill by simp
qed

abbreviation (input) BMAX :: nat where "BMAX \<equiv> 0x3FF0"

lemma full_blocks_write:
  assumes "dma_copies dma" and "unat dst mod 16 = 0" and "src_ok src dst (n * BMAX)" and "unat dst + n * BMAX \<le> 2 ^ 32"
  shows "write_full_blocks dma n dst src m = (BL_ERR_NONE, mem_write m dst (src_bytes m src (n * BMAX)))"
  using assms(2-4)
proof (induction n arbitrary: dst src m)
  case (Suc n)
  let ?d = "dst + of_nat BMAX" and ?s = "advance src BMAX"
  let ?m = "mem_write m dst (src_bytes m src BMAX)"
  have d: "?d = dst + 0x3FF0" by simp
  have one: "rram_block_write_dxe dma dst src RRAM_WRITE_BLOCK_MAX_SIZE m = (BL_ERR_NONE, ?m)"
    using block_write [OF assms(1) Suc.prems(1), of RRAM_WRITE_BLOCK_MAX_SIZE src m] by (simp add: RRAM_WRITE_BLOCK_MAX_SIZE_def)
  have ok: "src_ok ?s ?d (n * BMAX)"
    using src_ok_advance [OF Suc.prems(2) _ Suc.prems(3), of BMAX] by simp
  have split: "mem_write ?m ?d (src_bytes ?m ?s (n * BMAX)) = mem_write m dst (src_bytes m src (Suc n * BMAX))"
    using src_write_split [OF Suc.prems(2) _ Suc.prems(3), of BMAX m] by simp
  show ?case
  proof (cases "n = 0")
    case True
    then show ?thesis using one by simp
  next
    case False
    then have "unat ?d = unat dst + BMAX" using Suc.prems(3) by (intro unat_addr_offset) simp
    then have "unat ?d mod 16 = 0" "unat ?d + n * BMAX \<le> 2 ^ 32"
      using Suc.prems by (simp_all add: mod_add_eq [symmetric, of "unat dst"])
    from Suc.IH [OF this(1) ok this(2), of ?m] show ?thesis
      using one split d by (simp add: RRAM_WRITE_BLOCK_MAX_SIZE_def)
  qed
qed simp

lemma partial_block_write:
  assumes "dma_copies dma" and al: "unat dst mod 16 = 0" and src: "src_ok src dst (unat n)" and top: "unat dst + unat n + 16 \<le> 2 ^ 32"
  shows "write_partial_block dma dst src n m = (BL_ERR_NONE, mem_write m dst (src_bytes m src (unat n)))"
proof -
  define u where "u = n AND (RRAM_WRITE_ADR_BYTE_ALIGN - 1)"
  define g where "g = n - u"
  have u: "unat u = unat n mod 16" unfolding u_def by (rule low_bits)
  have g: "unat g = unat n - unat u" unfolding g_def by (rule unat_sub) (simp add: word_le_nat_alt u)
  then have g16: "unat g mod 16 = 0" and gu: "unat g + unat u = unat n" using u by (auto simp: minus_mod_eq_mult_div)
  let ?m = "mem_write m dst (src_bytes m src (unat g))"
  have top': "unat dst + unat n \<le> 2 ^ 32" using top by simp
  have first: "rram_block_write_dxe dma dst src g m = (BL_ERR_NONE, ?m)" by (rule block_write [OF assms(1) al g16])
  have split: "mem_write ?m (dst + g) (src_bytes ?m (advance src (unat g)) (unat u)) = mem_write m dst (src_bytes m src (unat n))"
  proof -
    have "unat n - unat g = unat u" using gu by simp
    then show ?thesis using src_write_split [OF src _ top', of "unat g" m] gu by simp
  qed
  show ?thesis
  proof (cases "u = 0")
    case True
    then have "g = n" using g_def by simp
    then show ?thesis using first True
      by (simp add: write_partial_block_def Let_def u_def [symmetric] g_def [symmetric])
  next
    case False
    let ?d = "dst + g"
    have d: "unat ?d = unat dst + unat g" using top gu by (simp add: unat_word_ariths)
    then have d16: "unat ?d mod 16 = 0" using al g16 by (simp add: mod_add_eq [symmetric])
    have u16: "unat u < 16" "unat (RRAM_WRITE_ADR_BYTE_ALIGN - u) = 16 - unat u"
      by (simp_all add: u RRAM_WRITE_ADR_BYTE_ALIGN_def unat_sub word_le_nat_alt less_imp_le)
    let ?ys = "src_bytes ?m (advance src (unat g)) (unat u)"
    have ly: "length ?ys = unat u"
      using length_src_bytes [OF src_ok_advance [OF src _ top', of "unat g"], of "unat u"] gu by simp
    let ?buf = "?ys @ mem_read ?m (?d + u) (16 - unat u)"
    have lb: "length ?buf = 16" using ly u16 by simp
    have b: "rram_block_write_dxe dma ?d (Src_buf ?buf) RRAM_WRITE_ADR_BYTE_ALIGN ?m = (BL_ERR_NONE, mem_write ?m ?d ?buf)"
      by (rule block_write_buf [OF assms(1) d16 lb])
    have "unat ?d + (0 + length ?ys + (16 - unat u)) \<le> 2 ^ 32" using d top gu ly u16 by simp
    from mem_write_patch [OF this, of ?m] have "mem_write ?m ?d ?buf = mem_write ?m ?d ?ys"
      using ly by simp
    with b split show ?thesis
      using first False u16
      by (simp add: write_partial_block_def Let_def u_def [symmetric] g_def [symmetric])
  qed
qed

lemma blocks_write:
  assumes "dma_copies dma" and "unat dst mod 16 = 0" and src: "src_ok src dst (unat n)" and top: "unat dst + unat n + 16 \<le> 2 ^ 32"
  shows "write_blocks dma dst src n m = (BL_ERR_NONE, mem_write m dst (src_bytes m src (unat n)))"
proof -
  let ?q = "unat n div BMAX" and ?r = "unat n mod BMAX"
  have q: "unat (n div RRAM_WRITE_BLOCK_MAX_SIZE) = ?q" and r: "unat (n mod RRAM_WRITE_BLOCK_MAX_SIZE) = ?r"
    by (simp_all add: RRAM_WRITE_BLOCK_MAX_SIZE_def unat_div_distrib unat_mod_distrib)
  have le: "?q * BMAX \<le> unat n" and sum: "unat n - ?q * BMAX = ?r"
    by (simp_all add: minus_div_mult_eq_mod)
  have top': "unat dst + unat n \<le> 2 ^ 32" using top by simp
  have src1: "src_ok src dst (?q * BMAX)" using src le by (cases src) (auto simp: apart_def)
  let ?m = "mem_write m dst (src_bytes m src (?q * BMAX))"
  have full: "write_full_blocks dma ?q dst src m = (BL_ERR_NONE, ?m)"
    by (rule full_blocks_write [OF assms(1,2) src1]) (use top' le in linarith)
  let ?d = "dst + of_nat (?q * BMAX)" and ?s = "advance src (?q * BMAX)"
  have d: "unat ?d = unat dst + ?q * BMAX" by (rule unat_addr_offset) (use top le in linarith)
  have part: "write_partial_block dma ?d ?s (n mod RRAM_WRITE_BLOCK_MAX_SIZE) ?m = (BL_ERR_NONE, mem_write ?m ?d (src_bytes ?m ?s ?r))"
    unfolding r [symmetric]
  proof (rule partial_block_write [OF assms(1)])
    have "?q * BMAX = (?q * 1023) * 16" by simp
    then have "?q * BMAX mod 16 = 0" by (metis mod_mult_self2_is_0)
    then show "unat ?d mod 16 = 0" unfolding d using assms(2) by (metis add_0 mod_add_eq mod_0)
    show "src_ok ?s ?d (unat (n mod RRAM_WRITE_BLOCK_MAX_SIZE))"
      using src_ok_advance [OF src le top'] sum r by simp
    show "unat ?d + unat (n mod RRAM_WRITE_BLOCK_MAX_SIZE) + 16 \<le> 2 ^ 32" unfolding d r using top le sum by linarith
  qed
  have "mem_write ?m ?d (src_bytes ?m ?s ?r) = mem_write m dst (src_bytes m src (unat n))"
    using src_write_split [OF src le top', of m] unfolding sum .
  then show ?thesis
  proof (cases "?r = 0")
    case True
    then have "unat n = ?q * BMAX" using sum le by linarith
    moreover have "n mod RRAM_WRITE_BLOCK_MAX_SIZE = 0" using r True by (metis unat_eq_zero)
    ultimately show ?thesis unfolding write_blocks_def Let_def q using full by simp
  next
    case False
    then have "n mod RRAM_WRITE_BLOCK_MAX_SIZE \<noteq> 0" using r by (metis unat_0)
    moreover have "unat RRAM_WRITE_BLOCK_MAX_SIZE = BMAX" by (simp add: RRAM_WRITE_BLOCK_MAX_SIZE_def)
    ultimately show ?thesis unfolding write_blocks_def Let_def q
      using full part \<open>mem_write ?m ?d (src_bytes ?m ?s ?r) = mem_write m dst (src_bytes m src (unat n))\<close> by simp
  qed
qed

section \<open>Writing and setting a range\<close>

lemma verify_iff:
  "rram_verify_address a n = BL_ERR_NONE \<longleftrightarrow> 0x200000 \<le> unat a \<and> unat a \<le> 0x37FFFF \<and> unat a mod 4 = 0 \<and> unat a + unat n \<le> 0x380000"
proof -
  have "unat (RRAM_END - a + 1) = 0x380000 - unat a" if "unat a \<le> 0x37FFFF"
  proof -
    have "unat (RRAM_END - a) = 0x37FFFF - unat a"
      using that by (simp add: RRAM_END_def unat_sub word_le_nat_alt)
    then show ?thesis using that by (simp add: unat_word_ariths)
  qed
  moreover have "a mod 4 = 0 \<longleftrightarrow> unat a mod 4 = 0" by (simp add: unat_eq_zero [symmetric] unat_mod_distrib)
  ultimately show ?thesis
    by (auto simp: rram_verify_address_def word_le_nat_alt RRAM_START_def RRAM_END_def)
qed

lemma round_up16: "(d :: nat) + (16 - d mod 16) = (d div 16 + 1) * 16"
  by presburger

lemma write_ok:
  assumes "dma_copies dma" and v: "rram_verify_address dst n = BL_ERR_NONE" and src: "src_ok src dst (unat n)"
  shows "rram_write_dxe dma dst src n m = (BL_ERR_NONE, mem_write m dst (src_bytes m src (unat n)))"
proof (cases "unat dst mod 16 = 0")
  case True
  have "unat dst + unat n + 16 \<le> 2 ^ 32" using v by (simp add: verify_iff)
  from blocks_write [OF assms(1) True src this] show ?thesis
    using True v by (simp add: rram_write_dxe_def low_bits_zero)
next
  case False
  define k where "k = min (16 - unat dst mod 16) (unat n)"
  have k: "k \<le> unat n" "k < 2 ^ 32" by (auto simp: k_def)
  then have uk: "unat (of_nat k :: u32) = k" by (simp add: unat_of_nat)
  have top: "unat dst + unat n \<le> 2 ^ 32" using v by (simp add: verify_iff)
  have "src_has src k" using src k(1) by (cases src) auto
  then have u: "rram_write_unaligned_dxe dma dst src n m = (BL_ERR_NONE, of_nat k, mem_write m dst (src_bytes m src k))"
    unfolding k_def by (rule unaligned_write [OF assms(1)])
  show ?thesis
  proof (cases "unat n \<le> k")
    case True
    then have "k = unat n" using k(1) by simp
    then show ?thesis using u False v by (simp add: rram_write_dxe_def low_bits_zero)
  next
    case lt: False
    let ?d = "dst + of_nat k" and ?m = "mem_write m dst (src_bytes m src k)"
    have d: "unat ?d = unat dst + k" by (rule unat_addr_offset) (use v k in \<open>simp add: verify_iff\<close>)
    have "unat dst + k = (unat dst div 16 + 1) * 16"
    proof -
      have "k = 16 - unat dst mod 16" using lt unfolding k_def by linarith
      then show ?thesis by (simp only: round_up16)
    qed
    then have d16: "unat ?d mod 16 = 0" unfolding d by (metis mod_mult_self2_is_0)
    have sub: "unat (n - of_nat k) = unat n - k" using k uk by (simp add: unat_sub word_le_nat_alt)
    have "write_blocks dma ?d (advance src k) (n - of_nat k) ?m = (BL_ERR_NONE, mem_write ?m ?d (src_bytes ?m (advance src k) (unat n - k)))"
      unfolding sub [symmetric]
      by (rule blocks_write [OF assms(1) d16])
        (use src_ok_advance [OF src k(1) top] sub d v k in \<open>simp_all add: verify_iff\<close>)
    then show ?thesis
      using u False v lt uk src_write_split [OF src k(1) top, of m]
      by (simp add: rram_write_dxe_def low_bits_zero word_le_nat_alt)
  qed
qed

lemma memset_loop_ok:
  assumes "dma_copies dma" and "rram_verify_address a n = BL_ERR_NONE \<or> n = 0"
  shows "memset_loop dma a v n m = (BL_ERR_NONE, mem_write m a (replicate (unat n) v))"
  using assms
proof (induction dma a v n m rule: memset_loop.induct)
  case (1 dma a v n m)
  show ?case
  proof (cases "n = 0")
    case False
    then have ver: "rram_verify_address a n = BL_ERR_NONE" using 1(3) by simp
    define k where "k = (if RRAM_SET_BUFFER_SIZE \<le> n then RRAM_SET_BUFFER_SIZE else n)"
    have k: "unat k \<le> unat n" "unat k \<le> 4096" "unat k = 4096 \<or> k = n"
      by (auto simp: k_def RRAM_SET_BUFFER_SIZE_def word_le_nat_alt)
    have vk: "rram_verify_address a k = BL_ERR_NONE" using ver k(1) by (simp add: verify_iff)
    let ?m = "mem_write m a (replicate (unat k) v)"
    have w: "rram_write_dxe dma a (Src_buf (set_buffer v)) k m = (BL_ERR_NONE, ?m)"
      using write_ok [OF 1(2) vk, of "Src_buf (set_buffer v)" m] k(2) by (simp add: set_buffer_def RRAM_SET_BUFFER_SIZE_def)
    have sub: "unat (n - k) = unat n - unat k" using k(1) by (simp add: unat_sub word_le_nat_alt)
    have ak: "unat (a + k) = unat a + unat k" using ver k(1) by (simp add: verify_iff unat_word_ariths)
    have "rram_verify_address (a + k) (n - k) = BL_ERR_NONE \<or> n - k = 0"
    proof (cases "k = n")
      case False
      then have "unat k = 4096" "unat k < unat n" using k by (auto simp: less_le word_unat_eq_iff)
      then show ?thesis using ver ak sub by (simp add: verify_iff mod_add_eq [symmetric, of "unat a"])
    qed simp
    from 1(1) [OF False k_def w [symmetric] _ 1(2) this]
    have "memset_loop dma (a + k) v (n - k) ?m = (BL_ERR_NONE, mem_write ?m (a + k) (replicate (unat n - unat k) v))"
      unfolding sub by simp
    moreover have "mem_write ?m (a + k) (replicate (unat n - unat k) v) = mem_write m a (replicate (unat n) v)"
      using mem_write_append [of m a "replicate (unat k) v" "replicate (unat n - unat k) v"] k(1)
      by (simp add: replicate_add [symmetric])
    ultimately show ?thesis using False w by (subst memset_loop.simps) (simp add: k_def [symmetric] Let_def)
  qed (simp add: memset_loop.simps)
qed

lemma memset_ok:
  assumes "dma_copies dma" and v: "rram_verify_address a n = BL_ERR_NONE"
  shows "rram_memset_dxe dma a value n m = (BL_ERR_NONE, mem_write m a (replicate (unat n) (ucast value)))"
proof (cases "unat a mod 16 = 0")
  case True
  then show ?thesis using memset_loop_ok [OF assms(1) disjI1 [OF v]] v by (simp add: rram_memset_dxe_def low_bits_zero)
next
  case False
  let ?b = "ucast value :: u8"
  define l where "l = (if RRAM_WRITE_ADR_BYTE_ALIGN \<le> n then RRAM_WRITE_ADR_BYTE_ALIGN else n)"
  define k where "k = min (16 - unat a mod 16) (unat l)"
  have l: "unat l = min 16 (unat n)"
    by (auto simp: l_def RRAM_WRITE_ADR_BYTE_ALIGN_def word_le_nat_alt)
  then have k: "k = min (16 - unat a mod 16) (unat n)" by (simp add: k_def)
  have uk: "unat (of_nat k :: u32) = k" by (simp add: k_def unat_of_nat)
  have "src_has (Src_buf (set_buffer ?b)) k" by (simp add: k_def set_buffer_def RRAM_SET_BUFFER_SIZE_def)
  then have "rram_write_unaligned_dxe dma a (Src_buf (set_buffer ?b)) l m =
      (BL_ERR_NONE, of_nat k, mem_write m a (src_bytes m (Src_buf (set_buffer ?b)) k))"
    unfolding k_def by (rule unaligned_write [OF assms(1)])
  then have u: "rram_write_unaligned_dxe dma a (Src_buf (set_buffer ?b)) l m = (BL_ERR_NONE, of_nat k, mem_write m a (replicate k ?b))"
  proof -
    have "k \<le> 4096" by (simp add: k_def)
    then have "src_bytes m (Src_buf (set_buffer ?b)) k = replicate k ?b"
      by (simp add: set_buffer_def RRAM_SET_BUFFER_SIZE_def min_absorb1)
    then show ?thesis using \<open>rram_write_unaligned_dxe dma a _ l m = _\<close> by simp
  qed
  show ?thesis
  proof (cases "unat n \<le> k")
    case True
    then have "k = unat n" using k by simp
    then show ?thesis unfolding rram_memset_dxe_def Let_def l_def [symmetric]
      using u False v by (simp add: low_bits_zero)
  next
    case lt: False
    have ak: "unat (a + of_nat k) = unat a + k" by (rule unat_addr_offset) (use v lt in \<open>simp add: verify_iff\<close>)
    have sub: "unat (n - of_nat k) = unat n - k" using k uk by (simp add: unat_sub word_le_nat_alt)
    have "k = 16 - unat a mod 16" using lt k by linarith
    then have "unat a + k = (unat a div 16 + 1) * 16" by (simp only: round_up16)
    then have "(unat a + k) mod 4 = 0" by presburger
    then have "rram_verify_address (a + of_nat k) (n - of_nat k) = BL_ERR_NONE"
      using v lt ak sub by (simp add: verify_iff)
    from memset_loop_ok [OF assms(1) disjI1 [OF this], of ?b "mem_write m a (replicate k ?b)"]
    have "memset_loop dma (a + of_nat k) ?b (n - of_nat k) (mem_write m a (replicate k ?b)) = (BL_ERR_NONE, mem_write m a (replicate (unat n) ?b))"
      using mem_write_append [of m a "replicate k ?b" "replicate (unat n - k) ?b"] lt
      by (simp add: sub replicate_add [symmetric])
    then show ?thesis unfolding rram_memset_dxe_def Let_def l_def [symmetric]
      using u False v lt uk by (simp add: low_bits_zero word_le_nat_alt)
  qed
qed

lemma verify_cases: "rram_verify_address a n \<noteq> BL_ERR_NONE \<Longrightarrow> rram_verify_address a n = BL_ERR_RRAM_DXE_INVALID_ADDR"
  by (auto simp: rram_verify_address_def split: if_splits)

text \<open>C13: A write to the RRAM changes exactly the requested bytes, for every destination in the
  RRAM on a 4-byte boundary, every length and every source (a buffer, or memory that does
  not overlap the destination), although the engine writes aligned 16-byte blocks only; a
  range outside the RRAM is refused and nothing changes.\<close>

theorem rram_write_exact:
  assumes "dma_copies dma" and "src_ok src dst (unat n)"
  shows "rram_write_dxe dma dst src n m =
    (if 0x200000 \<le> unat dst \<and> unat dst \<le> 0x37FFFF \<and> unat dst mod 4 = 0 \<and> unat dst + unat n \<le> 0x380000
     then (BL_ERR_NONE, mem_write m dst (src_bytes m src (unat n))) else (BL_ERR_RRAM_DXE_INVALID_ADDR, m))"
proof (cases "rram_verify_address dst n = BL_ERR_NONE")
  case True
  then show ?thesis using write_ok [OF assms(1) True assms(2)] by (simp add: verify_iff)
next
  case False
  then have "rram_write_dxe dma dst src n m = (BL_ERR_RRAM_DXE_INVALID_ADDR, m)"
    using verify_cases by (simp add: rram_write_dxe_def)
  with False show ?thesis unfolding verify_iff by simp
qed

theorem rram_write_exact_witness:
  "rram_write_dxe (\<lambda>a bs m. mem_write m a bs) 0x20A404 (Src_buf [1, 2, 3]) 3 (\<lambda>_. 0)
     = (BL_ERR_NONE, mem_write (\<lambda>_. 0) 0x20A404 [1, 2, 3])"
  using rram_write_exact [of "\<lambda>a bs m. mem_write m a bs" "Src_buf [1, 2, 3]" "0x20A404" 3 "\<lambda>_. 0"]
  by (simp add: dma_copies_def)

text \<open>Setting a range of the RRAM stores the low byte of the value in exactly the requested
  bytes, for every alignment and length.\<close>

theorem rram_memset_exact:
  assumes "dma_copies dma" and "rram_verify_address a n = BL_ERR_NONE"
  shows "rram_memset_dxe dma a value n m = (BL_ERR_NONE, mem_write m a (replicate (unat n) (ucast value)))"
  by (rule memset_ok [OF assms])

theorem rram_memset_exact_witness:
  "rram_memset_dxe (\<lambda>a bs m. mem_write m a bs) 0x20A404 0xFF 30 (\<lambda>_. 0)
     = (BL_ERR_NONE, mem_write (\<lambda>_. 0) 0x20A404 (replicate 30 0xFF))"
  using rram_memset_exact [of "\<lambda>a bs m. mem_write m a bs" "0x20A404" 30 "0xFF" "\<lambda>_. 0"]
  by (simp add: dma_copies_def rram_verify_address_def RRAM_START_def RRAM_END_def)

end
