(* ===== verification/Nvm_Rram.thy ===== *)
theory Nvm_Rram
  imports Rram_Correct
begin

text \<open>
  The RRAM and OTP back end of the JTAG programmer, \<^verbatim>\<open>qprgd/src/nvm_rram.c\<close>: address checks,
  the writer on top of the DXE engine with every register it programs, reads and the erase.
  RAM, RRAM and OTP are one byte memory; the peripheral registers are a map from addresses
  to words. The engine is started by the write of its channel's control register and works
  on the descriptor and the registers it finds then; what a transfer does and what the
  status register shows are the parameter \<open>dx\<close>. A result \<open>None\<close> means that the code does not return: a failed
  \<open>assert\<close>, or a transfer that is never reported done.
\<close>

section \<open>Constants and registers\<close>

definition QAPI_OK :: int where "QAPI_OK = 0"
definition QAPI_ERROR :: int where "QAPI_ERROR = - 10001"
definition QAPI_ERR_BOUNDS :: int where "QAPI_ERR_BOUNDS = - 10010"

definition OTP_START :: u32 where "OTP_START = 0x001A0000"
definition OTP_END :: u32 where "OTP_END = 0x001A0FFF"
definition READ_PERMISSION_READ_WRITE_PERMISIONS_ADDRESS :: u32 where
  "READ_PERMISSION_READ_WRITE_PERMISIONS_ADDRESS = 0x001A0030"
definition READ_PERMISSION_READ_WRITE_PERMISIONS_OFFSET :: u8 where
  "READ_PERMISSION_READ_WRITE_PERMISIONS_OFFSET = 2"
definition RRAM_ERASE_START :: u32 where "RRAM_ERASE_START = 0x00208000"
definition RRAM_ERASE_BUFFER_SIZE :: u32 where "RRAM_ERASE_BUFFER_SIZE = 4096"

text \<open>The limits of the RRAM in \<^verbatim>\<open>nvm_rram.h\<close> are those of the boot loader, \<open>RRAM_START\<close> and
  \<open>RRAM_END\<close>, and so are the block sizes.\<close>

definition QWLAN_PMU_DIG_TOP_CFG_REG :: addr where "QWLAN_PMU_DIG_TOP_CFG_REG = 0x011AF81C"
definition RRAM_32_BIT_LEGACY_WR_MODE_MASK :: u32 where "RRAM_32_BIT_LEGACY_WR_MODE_MASK = 0x80000000"
definition RRAM_PD_MODE_DEFAULT :: u32 where "RRAM_PD_MODE_DEFAULT = 0x2000"
definition QWLAN_CCU_R_CCU_SOFT_RESET_REG :: addr where "QWLAN_CCU_R_CCU_SOFT_RESET_REG = 0x0119A010"
definition DXE_SOFT_RESET_MASK :: u32 where "DXE_SOFT_RESET_MASK = 2"
definition QWLAN_DXE_0_DMA_CSR_REG :: addr where "QWLAN_DXE_0_DMA_CSR_REG = 0x0119F000"
definition DIS_RRAM_128BIT_MASK :: u32 where "DIS_RRAM_128BIT_MASK = 0x20000"
definition QWLAN_DXE_0_INT_MSK_REG :: addr where "QWLAN_DXE_0_INT_MSK_REG = 0x0119F018"
definition QWLAN_DXE_0_CTR_CLR_REG :: addr where "QWLAN_DXE_0_CTR_CLR_REG = 0x0119F07C"
definition QWLAN_CACHE_REGS_R_CACHECTRL_REG :: addr where "QWLAN_CACHE_REGS_R_CACHECTRL_REG = 0x01180000"
definition CACHECTRL_FLUSH_MASK :: u32 where "CACHECTRL_FLUSH_MASK = 1"

definition QWLAN_DXE_0_CH0_CTRL_REG :: addr where "QWLAN_DXE_0_CH0_CTRL_REG = 0x0119F400"
definition QWLAN_DXE_0_CH0_SZ_REG :: addr where "QWLAN_DXE_0_CH0_SZ_REG = 0x0119F408"
definition CH0_SZ_CHK_SZ_OFFSET :: nat where "CH0_SZ_CHK_SZ_OFFSET = 0x1C"
definition CH0_STATUS_DONE_MASK :: u32 where "CH0_STATUS_DONE_MASK = 4"
definition NT_DXE_CH_REG_SIZE :: u32 where "NT_DXE_CH_REG_SIZE = 0x40"
definition NT_DXE_CH_STATUS_REG :: u32 where "NT_DXE_CH_STATUS_REG = 0x04"
definition NT_DXE_CH_DESCL_REG :: u32 where "NT_DXE_CH_DESCL_REG = 0x1C"
definition NT_DXE_CH_DESCH_REG :: u32 where "NT_DXE_CH_DESCH_REG = 0x20"
definition DXE_CH_RRAM_WRITE_VIA_DXE :: u32 where "DXE_CH_RRAM_WRITE_VIA_DXE = 7"

definition NT_DXE_DESC_CTRL_VALID :: u32 where "NT_DXE_DESC_CTRL_VALID = 0x00000001"
definition NT_DXE_DESC_CTRL_XTYPE_MASK :: u32 where "NT_DXE_DESC_CTRL_XTYPE_MASK = 0x00000006"
definition NT_DXE_DESC_CTRL_XTYPE_H2H :: u32 where "NT_DXE_DESC_CTRL_XTYPE_H2H = 0x00000000"
definition NT_DXE_DESC_CTRL_EOP :: u32 where "NT_DXE_DESC_CTRL_EOP = 0x00000008"
definition NT_DXE_DESC_CTRL_INT :: u32 where "NT_DXE_DESC_CTRL_INT = 0x00020000"

section \<open>State\<close>

text \<open>The short descriptor of a transfer. Its source address is a \<open>source\<close>, because the
  addresses of the buffers on the stack are not fixed.\<close>

record DXEDesc =
  dd_ctrl :: u32
  dd_xfrSize :: u32
  dd_srcMemAddrL :: source
  dd_dstMemAddrL :: u32
  dd_phyNextL :: u32

type_synonym reg_file = "addr \<Rightarrow> u32"

definition DxeChannel_BaseAddr :: addr where
  "DxeChannel_BaseAddr = QWLAN_DXE_0_CH0_CTRL_REG + NT_DXE_CH_REG_SIZE * DXE_CH_RRAM_WRITE_VIA_DXE"

text \<open>\<open>hw_desc\<close> are the descriptors in the memory, by address; \<open>hw_xfer\<close> is the transfer that
  the write channel works on: its descriptor and the registers at its start.\<close>

record nvm_hw =
  hw_mem :: memory
  hw_reg :: reg_file
  hw_block_number :: u32
  hw_desc :: "addr \<Rightarrow> DXEDesc"
  hw_xfer :: "(DXEDesc \<times> reg_file) option"

text \<open>The engine: what a transfer does to the memory, given the registers when it was
  started, and what the \<open>k\<close>-th read of the channel's status register returns;
  \<open>dx_desc_addr\<close> is where the descriptor lies on the stack.\<close>

record dxe =
  dx_transfer :: "DXEDesc \<Rightarrow> reg_file \<Rightarrow> memory \<Rightarrow> memory"
  dx_status :: "DXEDesc \<Rightarrow> nat \<Rightarrow> u32"
  dx_desc_addr :: addr

definition HW_REG_RD :: "addr \<Rightarrow> nvm_hw \<Rightarrow> u32" where
  "HW_REG_RD r h = hw_reg h r"

text \<open>A register write. The engine reacts to one of them: when the enable bit is written to the
  control register of the write channel, the channel fetches the descriptor that its
  descriptor register points to and starts.\<close>

definition HW_REG_WR :: "addr \<Rightarrow> u32 \<Rightarrow> nvm_hw \<Rightarrow> nvm_hw" where
  "HW_REG_WR r v h =
     (let regs = (hw_reg h)(r := v)
      in if r = DxeChannel_BaseAddr \<and> bit v 0
         then h\<lparr>hw_reg := regs, hw_xfer := Some (hw_desc h (regs (DxeChannel_BaseAddr + NT_DXE_CH_DESCL_REG)), regs)\<rparr>
         else h\<lparr>hw_reg := regs\<rparr>)"

text \<open>A read of the channel's status register. While a transfer runs the engine answers, and when
  it answers that it is done, the transfer has reached the memory; otherwise the register
  reads as it is.\<close>

definition HW_STATUS_RD :: "dxe \<Rightarrow> nat \<Rightarrow> nvm_hw \<Rightarrow> u32 \<times> nvm_hw" where
  "HW_STATUS_RD dx k h =
     (case hw_xfer h of
        None \<Rightarrow> (HW_REG_RD (DxeChannel_BaseAddr + NT_DXE_CH_STATUS_REG) h, h)
      | Some (d, regs) \<Rightarrow>
          if dx_status dx d k AND CH0_STATUS_DONE_MASK = CH0_STATUS_DONE_MASK
          then (dx_status dx d k, h\<lparr>hw_mem := dx_transfer dx d regs (hw_mem h), hw_xfer := None\<rparr>)
          else (dx_status dx d k, h))"

section \<open>Initialising the engine\<close>

definition DMA_CSR_INIT :: u32 where
  "DMA_CSR_INIT = 0x1 OR 0x2000 OR 0x8000 OR 0x4 OR (push_bit 3 8 AND 0xF8) OR (push_bit 8 10 AND 0x1F00) OR 0x20000000"

definition rram_dxe_init :: "nvm_hw \<Rightarrow> nvm_hw" where
  "rram_dxe_init h =
     (let h = HW_REG_WR QWLAN_PMU_DIG_TOP_CFG_REG
                (HW_REG_RD QWLAN_PMU_DIG_TOP_CFG_REG h AND NOT RRAM_32_BIT_LEGACY_WR_MODE_MASK) h;
          h = HW_REG_WR QWLAN_CCU_R_CCU_SOFT_RESET_REG (HW_REG_RD QWLAN_CCU_R_CCU_SOFT_RESET_REG h OR DXE_SOFT_RESET_MASK) h;
          h = HW_REG_WR QWLAN_CCU_R_CCU_SOFT_RESET_REG (HW_REG_RD QWLAN_CCU_R_CCU_SOFT_RESET_REG h AND NOT DXE_SOFT_RESET_MASK) h;
          h = HW_REG_WR QWLAN_DXE_0_DMA_CSR_REG 0 h;
          h = HW_REG_WR QWLAN_DXE_0_INT_MSK_REG 0xFFF h;
          h = HW_REG_WR QWLAN_DXE_0_DMA_CSR_REG DMA_CSR_INIT h;
          h = HW_REG_WR QWLAN_DXE_0_CTR_CLR_REG 0x7F h;
          cache_ctrl = HW_REG_RD QWLAN_CACHE_REGS_R_CACHECTRL_REG h;
          h = HW_REG_WR QWLAN_CACHE_REGS_R_CACHECTRL_REG (cache_ctrl OR CACHECTRL_FLUSH_MASK) h
      in HW_REG_WR QWLAN_CACHE_REGS_R_CACHECTRL_REG cache_ctrl h)"

section \<open>Address checks\<close>

definition otp_rram_verify_address :: "u32 \<Rightarrow> u32 \<Rightarrow> bool" where
  "otp_rram_verify_address address len \<longleftrightarrow>
     address \<ge> OTP_START \<and> address \<le> OTP_END \<and> address mod 4 = 0 \<and> (OTP_END - address) + 1 \<ge> len"

definition nvm_rram_verify_address :: "u32 \<Rightarrow> u32 \<Rightarrow> bool" where
  "nvm_rram_verify_address address len \<longleftrightarrow>
     address \<ge> RRAM_START \<and> address \<le> RRAM_END \<and> address mod 4 = 0 \<and> (RRAM_END - address) + 1 \<ge> len"

definition rram_verify_erase_address :: "u32 \<Rightarrow> u32 \<Rightarrow> bool" where
  "rram_verify_erase_address address len \<longleftrightarrow>
     address \<ge> RRAM_ERASE_START \<and> address \<le> RRAM_END \<and> address mod 4 = 0 \<and> (RRAM_END - address) + 1 \<ge> len"

section \<open>Writing\<close>

text \<open>Waiting for the end of a transfer; the first read is the one before the loop.\<close>

partial_function (option) wait_done :: "dxe \<Rightarrow> nat \<Rightarrow> nvm_hw \<Rightarrow> nvm_hw option" where
  "wait_done dx k h =
     (case HW_STATUS_RD dx k h of
        (xfrStatus, h) \<Rightarrow> if xfrStatus AND CH0_STATUS_DONE_MASK = CH0_STATUS_DONE_MASK then Some h else wait_done dx (k + 1) h)"

definition write_desc :: "u32 \<Rightarrow> source \<Rightarrow> u32 \<Rightarrow> DXEDesc" where
  "write_desc destination src len =
     \<lparr>dd_ctrl = NT_DXE_DESC_CTRL_INT OR NT_DXE_DESC_CTRL_EOP
        OR (push_bit 1 NT_DXE_DESC_CTRL_XTYPE_H2H AND NT_DXE_DESC_CTRL_XTYPE_MASK) OR NT_DXE_DESC_CTRL_VALID,
      dd_xfrSize = len, dd_srcMemAddrL = src, dd_dstMemAddrL = destination, dd_phyNextL = 0\<rparr>"

text \<open>The registers written up to the one that starts the channel.\<close>

definition program_channel :: "addr \<Rightarrow> nvm_hw \<Rightarrow> nvm_hw" where
  "program_channel desc_addr h =
     (let h = HW_REG_WR QWLAN_PMU_DIG_TOP_CFG_REG
                ((HW_REG_RD QWLAN_PMU_DIG_TOP_CFG_REG h AND NOT RRAM_32_BIT_LEGACY_WR_MODE_MASK) OR RRAM_PD_MODE_DEFAULT) h;
          h = HW_REG_WR QWLAN_DXE_0_DMA_CSR_REG (HW_REG_RD QWLAN_DXE_0_DMA_CSR_REG h AND NOT DIS_RRAM_128BIT_MASK) h;
          h = HW_REG_WR QWLAN_DXE_0_DMA_CSR_REG 0x2000A001 h;
          sz_reg = DxeChannel_BaseAddr + (QWLAN_DXE_0_CH0_SZ_REG - QWLAN_DXE_0_CH0_CTRL_REG);
          ch_sz = HW_REG_RD sz_reg h;
          h = HW_REG_WR sz_reg (ch_sz OR push_bit CH0_SZ_CHK_SZ_OFFSET 4) h;
          h = HW_REG_WR (DxeChannel_BaseAddr + NT_DXE_CH_DESCH_REG) 0 h;
          h = HW_REG_WR (DxeChannel_BaseAddr + NT_DXE_CH_DESCL_REG) desc_addr h
      in HW_REG_WR DxeChannel_BaseAddr 0xF80709 h)"

definition rram_block_write :: "dxe \<Rightarrow> u32 \<Rightarrow> source \<Rightarrow> u32 \<Rightarrow> nvm_hw \<Rightarrow> (int \<times> nvm_hw) option" where
  "rram_block_write dx destination src len h =
     (if destination AND (RRAM_WRITE_ADR_BYTE_ALIGN - 1) \<noteq> 0 then None
      else if len AND (RRAM_WRITE_ADR_BYTE_ALIGN - 1) \<noteq> 0 then None
      else
        let h = h\<lparr>hw_desc := (hw_desc h)(dx_desc_addr dx := write_desc destination src len)\<rparr>;
            h = program_channel (dx_desc_addr dx) h
        in do {
          h \<leftarrow> wait_done dx 0 h;
          Some (0, h\<lparr>hw_block_number := hw_block_number h + 1\<rparr>)
        })"

text \<open>The byte loop of the unaligned write is the one of the boot loader (\<open>fill_block\<close>). The
  number of bytes written is the second component.\<close>

definition rram_write_unaligned :: "dxe \<Rightarrow> u32 \<Rightarrow> source \<Rightarrow> u32 \<Rightarrow> nvm_hw \<Rightarrow> (int \<times> u32 \<times> nvm_hw) option" where
  "rram_write_unaligned dx destination src len h =
     (let offset = destination AND (RRAM_WRITE_ADR_BYTE_ALIGN - 1);
          destination = destination - offset;
          buffer = mem_read (hw_mem h) destination (unat RRAM_WRITE_ADR_BYTE_ALIGN)
      in case fill_block (hw_mem h) (unat offset) len src buffer 0 of
        (buffer, bytes_written) \<Rightarrow> do {
          (status, h) \<leftarrow> rram_block_write dx destination (Src_buf buffer) RRAM_WRITE_ADR_BYTE_ALIGN h;
          Some (status, of_nat bytes_written, h)
        })"

primrec rram_write_full :: "dxe \<Rightarrow> nat \<Rightarrow> u32 \<Rightarrow> source \<Rightarrow> int \<Rightarrow> nvm_hw \<Rightarrow> (int \<times> nvm_hw) option" where
  "rram_write_full dx 0 dst src status h = Some (status, h)"
| "rram_write_full dx (Suc n) dst src status h =
     do {
       (status, h) \<leftarrow> rram_block_write dx dst src RRAM_WRITE_BLOCK_MAX_SIZE h;
       if status \<noteq> 0 then Some (status, h)
       else rram_write_full dx n (dst + RRAM_WRITE_BLOCK_MAX_SIZE) (advance src (unat RRAM_WRITE_BLOCK_MAX_SIZE)) status h
     }"

definition rram_write_partial :: "dxe \<Rightarrow> u32 \<Rightarrow> source \<Rightarrow> u32 \<Rightarrow> nvm_hw \<Rightarrow> (int \<times> nvm_hw) option" where
  "rram_write_partial dx dst src nbytes_partial_block h =
     (let unaligned = nbytes_partial_block AND (RRAM_WRITE_ADR_BYTE_ALIGN - 1);
          aligned = nbytes_partial_block - unaligned
      in do {
        (status, h) \<leftarrow> rram_block_write dx dst src aligned h;
        if status \<noteq> 0 then Some (status, h)
        else if unaligned = 0 then Some (status, h)
        else
          let dst = dst + aligned;
              buffer = src_bytes (hw_mem h) (advance src (unat aligned)) (unat unaligned)
                @ mem_read (hw_mem h) (dst + unaligned) (unat (RRAM_WRITE_ADR_BYTE_ALIGN - unaligned))
          in rram_block_write dx dst (Src_buf buffer) RRAM_WRITE_ADR_BYTE_ALIGN h
      })"

text \<open>The status of the unaligned start is overwritten by the full blocks; a block write that
  returns always returns 0, so a full-block loop that returns non-zero is never taken.\<close>

definition rram_write_from :: "dxe \<Rightarrow> u32 \<Rightarrow> source \<Rightarrow> u32 \<Rightarrow> int \<Rightarrow> nvm_hw \<Rightarrow> (int \<times> nvm_hw) option" where
  "rram_write_from dx dst src len status h =
     (let n_full_blocks = unat (len div RRAM_WRITE_BLOCK_MAX_SIZE);
          nbytes_partial_block = len mod RRAM_WRITE_BLOCK_MAX_SIZE;
          full = n_full_blocks * unat RRAM_WRITE_BLOCK_MAX_SIZE
      in do {
        (status, h) \<leftarrow> rram_write_full dx n_full_blocks dst src status h;
        if status \<noteq> 0 \<and> n_full_blocks \<noteq> 0 then Some (status, h)
        else if nbytes_partial_block = 0 then Some (status, h)
        else rram_write_partial dx (dst + of_nat full) (advance src full) nbytes_partial_block h
      })"

definition rram_write :: "dxe \<Rightarrow> u32 \<Rightarrow> source \<Rightarrow> u32 \<Rightarrow> nvm_hw \<Rightarrow> (int \<times> nvm_hw) option" where
  "rram_write dx destination src len h =
     (if destination AND (RRAM_WRITE_ADR_BYTE_ALIGN - 1) \<noteq> 0 then do {
        (status, nbytes_written, h) \<leftarrow> rram_write_unaligned dx destination src len h;
        rram_write_from dx (destination + nbytes_written) (advance src (unat nbytes_written)) (len - nbytes_written) status h
      }
      else rram_write_from dx destination src len QAPI_OK h)"

text \<open>The OTP write clears a bit in the caller's buffer when the destination is the permission
  word; the buffer afterwards is the second component. A write that would take more bytes
  than the buffer holds is undefined.\<close>

definition otp_rram_write :: "dxe \<Rightarrow> u32 \<Rightarrow> bytes \<Rightarrow> u32 \<Rightarrow> nvm_hw \<Rightarrow> (int \<times> bytes \<times> nvm_hw) option" where
  "otp_rram_write dx destination source len h =
     (if \<not> otp_rram_verify_address destination len then Some (QAPI_ERR_BOUNDS, source, h)
      else if length source < unat len \<or> source = [] then None
      else
        let source = (if READ_PERMISSION_READ_WRITE_PERMISIONS_ADDRESS = destination
                      then source[0 := source ! 0 AND NOT READ_PERMISSION_READ_WRITE_PERMISIONS_OFFSET] else source)
        in do {
          (status, h) \<leftarrow> rram_write dx destination (Src_buf source) len h;
          Some (status, source, h)
        })"

definition nvm_rram_write :: "dxe \<Rightarrow> u32 \<Rightarrow> bytes \<Rightarrow> u32 \<Rightarrow> nvm_hw \<Rightarrow> (int \<times> nvm_hw) option" where
  "nvm_rram_write dx destination source len h =
     (if \<not> nvm_rram_verify_address destination len then Some (QAPI_ERR_BOUNDS, h)
      else if length source < unat len then None
      else rram_write dx destination (Src_buf source) len h)"

section \<open>Reading\<close>

definition rram_read :: "u32 \<Rightarrow> u32 \<Rightarrow> nvm_hw \<Rightarrow> bytes" where
  "rram_read address len h = mem_read (hw_mem h) address (unat len)"

definition nvm_rram_read :: "u32 \<Rightarrow> u32 \<Rightarrow> nvm_hw \<Rightarrow> int \<times> bytes" where
  "nvm_rram_read address len h =
     (if \<not> nvm_rram_verify_address address len then (QAPI_ERR_BOUNDS, []) else (0, rram_read address len h))"

definition otp_rram_read :: "u32 \<Rightarrow> u32 \<Rightarrow> nvm_hw \<Rightarrow> int \<times> bytes" where
  "otp_rram_read address len h =
     (if \<not> otp_rram_verify_address address len then (QAPI_ERR_BOUNDS, []) else (0, rram_read address len h))"

section \<open>Erasing\<close>

definition erase_buffer :: bytes where
  "erase_buffer = replicate (unat RRAM_ERASE_BUFFER_SIZE) 0xFF"

function rram_erase_loop :: "dxe \<Rightarrow> u32 \<Rightarrow> u32 \<Rightarrow> int \<Rightarrow> nvm_hw \<Rightarrow> (int \<times> nvm_hw) option" where
  "rram_erase_loop dx dst_addr len status h =
     (if status = QAPI_OK \<and> len \<noteq> 0 then
        let erase_length = (if RRAM_ERASE_BUFFER_SIZE \<le> len then RRAM_ERASE_BUFFER_SIZE else len)
        in do {
          (status, h) \<leftarrow> rram_write dx dst_addr (Src_buf erase_buffer) erase_length h;
          if status \<noteq> 0 then Some (- 1, h)
          else rram_erase_loop dx (dst_addr + erase_length) (len - erase_length) status h
        }
      else Some (status, h))"
  by pat_completeness auto

termination
proof (relation "measure (\<lambda>(dx, d, l, st, h). unat l)", goal_cases)
  case (2 dx d l st h s x y z)
  have "0 < unat l" using 2(1) by (simp add: unat_gt_0)
  then show ?case using 2 by (auto simp: RRAM_ERASE_BUFFER_SIZE_def unat_sub word_le_nat_alt split: if_splits)
qed simp

declare rram_erase_loop.simps [simp del]

definition rram_erase :: "dxe \<Rightarrow> u32 \<Rightarrow> u32 \<Rightarrow> nvm_hw \<Rightarrow> (int \<times> nvm_hw) option" where
  "rram_erase dx address len h =
     (if \<not> rram_verify_erase_address address len then Some (QAPI_ERR_BOUNDS, h)
      else if address AND (RRAM_WRITE_ADR_BYTE_ALIGN - 1) \<noteq> 0 then
        let erase_length = (if RRAM_WRITE_ADR_BYTE_ALIGN \<le> len then RRAM_WRITE_ADR_BYTE_ALIGN else len)
        in do {
          (status, erase_length, h) \<leftarrow> rram_write_unaligned dx address (Src_buf erase_buffer) erase_length h;
          rram_erase_loop dx (address + erase_length) (len - erase_length) status h
        }
      else rram_erase_loop dx address len QAPI_OK h)"

end
