(* ===== verification/Elf_Mem.thy ===== *)
theory Elf_Mem
  imports Flash Rram_Dxe Rram_Otp
begin

text \<open>
  The memory layer of the ELF loader, \<^verbatim>\<open>qboot/elf_loader/boot_elf_mem.c\<close> (with \<open>SBL_BUILD\<close>), and the
  storage wrappers of \<^verbatim>\<open>qboot/system/sbl_storage.c\<close> it calls: copying from RRAM or flash into RAM
  or RRAM, zeroing, the table of operations with their address regions and the dispatch over
  it. The state is the byte memory (RAM and RRAM) with the flash driver; \<open>None\<close> is a call that
  does not return.
\<close>

section \<open>State\<close>

record 'd boot =
  bt_mem :: memory
  bt_flash :: "'d flash"

record 'd boot_env =
  be_bus :: "'d qspi_bus"
  be_dma :: dma

type_synonym 'd boot_result = "(bl_error_type \<times> 'd boot) option"

definition FRN_RAM_START :: u32 where "FRN_RAM_START = 0"
definition FRN_RAM_END :: u32 where "FRN_RAM_END = 0x9FFFF"
definition FRN_RRAM_START :: u32 where "FRN_RRAM_START = 0x200000"
definition FRN_RRAM_END :: u32 where "FRN_RRAM_END = 0x37FFFF"
definition APP_IMAGE_FLASH_ADDRESS :: u32 where "APP_IMAGE_FLASH_ADDRESS = 0xA00000"
definition FRN_FLASH_START :: u32 where "FRN_FLASH_START = 0xA00000 - 1"
definition FRN_FLASH_END :: u32 where "FRN_FLASH_END = 0xA00000 + 0x400000"
definition RRAM_READ_BUF_SIZE :: u32 where "RRAM_READ_BUF_SIZE = 2048"
definition BL_MEM_MAX_NUM :: nat where "BL_MEM_MAX_NUM = 4"

section \<open>Storage\<close>

definition boot_sbl_flash_read ::
    "'d boot_env \<Rightarrow> u32 \<Rightarrow> u32 \<Rightarrow> 'd boot \<Rightarrow> (flash_status \<times> bytes \<times> 'd boot) option" where
  "boot_sbl_flash_read env address byte_cnt s =
     map_option (\<lambda>(status, bs, f). (status, bs, s\<lparr>bt_flash := f\<rparr>))
       (drv_flash_read (be_bus env) address byte_cnt True False (bt_flash s))"

definition boot_sbl_rram_write :: "'d boot_env \<Rightarrow> u32 \<Rightarrow> source \<Rightarrow> u32 \<Rightarrow> 'd boot \<Rightarrow> bl_error_type \<times> 'd boot" where
  "boot_sbl_rram_write env destination src len s =
     (case rram_write_dxe (be_dma env) destination src len (bt_mem s) of (status, m) \<Rightarrow> (status, s\<lparr>bt_mem := m\<rparr>))"

section \<open>Copying and setting\<close>

text \<open>
  The chunked copies. \<open>store\<close> puts a chunk that was read from flash at its destination; the
  loop reads full chunks while more than one is left, then the rest.
\<close>

function flash_chunks ::
    "'d boot_env \<Rightarrow> (u32 \<Rightarrow> bytes \<Rightarrow> 'd boot \<Rightarrow> 'd boot) \<Rightarrow> u32 \<Rightarrow> u32 \<Rightarrow> u32 \<Rightarrow> u32 \<Rightarrow> 'd boot
     \<Rightarrow> (flash_status \<times> u32 \<times> 'd boot) option" where
  "flash_chunks env store nvm_add data bytes_n done_n s =
     (if done_n \<le> bytes_n \<and> bytes_n - done_n > RRAM_READ_BUF_SIZE then do {
        (status, bs, s) \<leftarrow> boot_sbl_flash_read env (nvm_add + done_n) RRAM_READ_BUF_SIZE s;
        if status \<noteq> FLASH_DEVICE_DONE then Some (status, done_n, s)
        else flash_chunks env store nvm_add data bytes_n (done_n + RRAM_READ_BUF_SIZE) (store (data + done_n) bs s)
      } else Some (FLASH_DEVICE_DONE, done_n, s))"
  by pat_completeness auto

termination
proof (relation "measure (\<lambda>(env, st, a, d, n, k, s). unat (n - k))", goal_cases)
  case (2 env st a d n k s x y z w v)
  then have "2048 < unat (n - k)" by (simp add: RRAM_READ_BUF_SIZE_def word_less_nat_alt)
  then have "unat (n - k - 2048) < unat (n - k)" by (simp add: unat_sub word_le_nat_alt del: diff_diff_eq)
  then show ?case by (simp add: RRAM_READ_BUF_SIZE_def diff_diff_eq)
qed simp

definition flash_copy ::
    "'d boot_env \<Rightarrow> (u32 \<Rightarrow> bytes \<Rightarrow> 'd boot \<Rightarrow> 'd boot) \<Rightarrow> u32 \<Rightarrow> u32 \<Rightarrow> u32 \<Rightarrow> 'd boot \<Rightarrow> 'd boot_result" where
  "flash_copy env store address data bytes_n s =
     (let nvm_add = address - APP_IMAGE_FLASH_ADDRESS
      in do {
        (status, done_n, s) \<leftarrow>
          (if bytes_n > RRAM_READ_BUF_SIZE then flash_chunks env store nvm_add data bytes_n 0 s
           else Some (FLASH_DEVICE_DONE, 0, s));
        if status \<noteq> FLASH_DEVICE_DONE then Some (BL_ERR_ELF_MEM_READ, s)
        else
          let last_bytes = bytes_n - done_n
          in if last_bytes = 0 then Some (BL_ERR_NONE, s)
             else do {
               (status, bs, s) \<leftarrow> boot_sbl_flash_read env (nvm_add + done_n) last_bytes s;
               if status \<noteq> FLASH_DEVICE_DONE then Some (BL_ERR_ELF_MEM_READ, s)
               else Some (BL_ERR_NONE, store (data + done_n) bs s)
             }
      })"

definition store_ram :: "u32 \<Rightarrow> bytes \<Rightarrow> 'd boot \<Rightarrow> 'd boot" where
  "store_ram a bs s = s\<lparr>bt_mem := mem_write (bt_mem s) a bs\<rparr>"

text \<open>A failed write to the RRAM is only printed.\<close>

definition store_rram :: "'d boot_env \<Rightarrow> u32 \<Rightarrow> bytes \<Rightarrow> 'd boot \<Rightarrow> 'd boot" where
  "store_rram env a bs s = snd (boot_sbl_rram_write env a (Src_buf bs) (of_nat (length bs)) s)"

definition bl_elf_flash_read_to_ram :: "'d boot_env \<Rightarrow> u32 \<Rightarrow> u32 \<Rightarrow> u32 \<Rightarrow> 'd boot \<Rightarrow> 'd boot_result" where
  "bl_elf_flash_read_to_ram env address data bytes_n s = flash_copy env store_ram address data bytes_n s"

definition bl_elf_flash_read_to_rram_dxe :: "'d boot_env \<Rightarrow> u32 \<Rightarrow> u32 \<Rightarrow> u32 \<Rightarrow> 'd boot \<Rightarrow> 'd boot_result" where
  "bl_elf_flash_read_to_rram_dxe env address data bytes_n s = flash_copy env (store_rram env) address data bytes_n s"

definition bl_elf_rram_set_rram_dxe :: "'d boot_env \<Rightarrow> u32 \<Rightarrow> u32 \<Rightarrow> u32 \<Rightarrow> 'd boot \<Rightarrow> 'd boot_result" where
  "bl_elf_rram_set_rram_dxe env address value bytes_n s =
     (case rram_memset_dxe (be_dma env) address value bytes_n (bt_mem s) of (status, m) \<Rightarrow> Some (status, s\<lparr>bt_mem := m\<rparr>))"

definition bl_elf_rram_read_to_rram_dxe :: "'d boot_env \<Rightarrow> u32 \<Rightarrow> u32 \<Rightarrow> u32 \<Rightarrow> 'd boot \<Rightarrow> 'd boot_result" where
  "bl_elf_rram_read_to_rram_dxe env address data bytes_n s =
     (case rram_write_dxe (be_dma env) data (Src_mem address) bytes_n (bt_mem s) of (status, m) \<Rightarrow> Some (status, s\<lparr>bt_mem := m\<rparr>))"

definition bl_elf_rram_set_ram :: "u32 \<Rightarrow> u32 \<Rightarrow> u32 \<Rightarrow> 'd boot \<Rightarrow> 'd boot_result" where
  "bl_elf_rram_set_ram address value bytes_n s =
     Some (BL_ERR_NONE, s\<lparr>bt_mem := mem_write (bt_mem s) address (replicate (unat bytes_n) (ucast value))\<rparr>)"

text \<open>The loop of the RRAM to RAM copy runs while \<open>done \<le> bytes\<close>, always a full chunk at a time.\<close>

partial_function (option) rram_chunks :: "u32 \<Rightarrow> u32 \<Rightarrow> u32 \<Rightarrow> u32 \<Rightarrow> memory \<Rightarrow> (int \<times> u32 \<times> memory) option" where
  "rram_chunks address data bytes_n done_n m =
     (if done_n \<le> bytes_n then do {
        (status, m) \<leftarrow> nt_bl_rram_read (address + done_n) (data + done_n) RRAM_READ_BUF_SIZE m;
        if status \<noteq> 0 then Some (status, done_n, m)
        else rram_chunks address data bytes_n (done_n + RRAM_READ_BUF_SIZE) m
      } else Some (0, done_n, m))"

definition bl_elf_rram_read_to_ram :: "u32 \<Rightarrow> u32 \<Rightarrow> u32 \<Rightarrow> 'd boot \<Rightarrow> 'd boot_result" where
  "bl_elf_rram_read_to_ram address data bytes_n s =
     do {
       (status, done_n, last_bytes, m) \<leftarrow>
         (if bytes_n > RRAM_READ_BUF_SIZE then do {
            (status, done_n, m) \<leftarrow> rram_chunks address data bytes_n 0 (bt_mem s);
            Some (if status \<noteq> 0 then (status, done_n, 0, m)
                  else (status, done_n - RRAM_READ_BUF_SIZE, RRAM_READ_BUF_SIZE - (done_n - bytes_n), m))
          } else Some (0, 0, bytes_n, bt_mem s));
       if status \<noteq> 0 then Some (BL_ERR_ELF_MEM_READ, s\<lparr>bt_mem := m\<rparr>)
       else if last_bytes = 0 then Some (BL_ERR_NONE, s\<lparr>bt_mem := m\<rparr>)
       else do {
         (status, m) \<leftarrow> nt_bl_rram_read (address + done_n) (data + done_n) last_bytes m;
         Some (if status \<noteq> 0 then BL_ERR_ELF_MEM_READ else BL_ERR_NONE, s\<lparr>bt_mem := m\<rparr>)
       }
     }"

section \<open>The table of operations\<close>

datatype bl_elf_mem_type = BL_RRAM_RAM | BL_RRAM_RRAM | BL_FLASH_RAM | BL_FLASH_RRAM

record bl_elf_mem_region =
  v_start :: u32
  v_end :: u32
  p_start :: u32
  p_end :: u32

record 'd bl_elf_mem_op =
  op_type :: bl_elf_mem_type
  op_region :: bl_elf_mem_region
  op_read :: "u32 \<Rightarrow> u32 \<Rightarrow> u32 \<Rightarrow> 'd boot \<Rightarrow> 'd boot_result"
  op_set :: "(u32 \<Rightarrow> u32 \<Rightarrow> u32 \<Rightarrow> 'd boot \<Rightarrow> 'd boot_result) option"

definition elf_mem_op :: "'d boot_env \<Rightarrow> 'd bl_elf_mem_op list" where
  "elf_mem_op env =
     [\<lparr>op_type = BL_RRAM_RAM,
       op_region = \<lparr>v_start = FRN_RAM_START, v_end = FRN_RAM_END, p_start = FRN_RRAM_START, p_end = FRN_RRAM_END\<rparr>,
       op_read = bl_elf_rram_read_to_ram, op_set = Some bl_elf_rram_set_ram\<rparr>,
      \<lparr>op_type = BL_RRAM_RRAM,
       op_region = \<lparr>v_start = FRN_RRAM_START, v_end = FRN_RRAM_END, p_start = FRN_RRAM_START, p_end = FRN_RRAM_END\<rparr>,
       op_read = bl_elf_rram_read_to_rram_dxe env, op_set = Some (bl_elf_rram_set_rram_dxe env)\<rparr>,
      \<lparr>op_type = BL_FLASH_RAM,
       op_region = \<lparr>v_start = FRN_RAM_START, v_end = FRN_RAM_END, p_start = FRN_FLASH_START, p_end = FRN_FLASH_END\<rparr>,
       op_read = bl_elf_flash_read_to_ram env, op_set = None\<rparr>,
      \<lparr>op_type = BL_FLASH_RRAM,
       op_region = \<lparr>v_start = FRN_RRAM_START, v_end = FRN_RRAM_END, p_start = FRN_FLASH_START, p_end = FRN_FLASH_END\<rparr>,
       op_read = bl_elf_flash_read_to_rram_dxe env, op_set = None\<rparr>]"

text \<open>The region tests, with 32-bit sums.\<close>

definition BL_ELF_MEM_SET_REGION_CHECK :: "u32 \<Rightarrow> u32 \<Rightarrow> u32 \<Rightarrow> u32 \<Rightarrow> bool" where
  "BL_ELF_MEM_SET_REGION_CHECK dst n vs ve \<longleftrightarrow> dst \<ge> vs \<and> dst + n \<le> ve"

definition BL_ELF_MEM_READ_REGION_CHECK :: "u32 \<Rightarrow> u32 \<Rightarrow> u32 \<Rightarrow> u32 \<Rightarrow> u32 \<Rightarrow> u32 \<Rightarrow> u32 \<Rightarrow> bool" where
  "BL_ELF_MEM_READ_REGION_CHECK src dst n ps pe vs ve \<longleftrightarrow> (src \<ge> ps \<and> src + n \<le> pe) \<and> dst \<ge> vs \<and> dst + n \<le> ve"

definition boot_elf_mem_read :: "u32 \<Rightarrow> u32 \<Rightarrow> u32 \<Rightarrow> 'd bl_elf_mem_op list \<Rightarrow> 'd boot \<Rightarrow> 'd boot_result" where
  "boot_elf_mem_read address data bytes_n ops s =
     (if ops = [] then Some (BL_ERR_ELF_MEM_INVAL_PARAM, s)
      else case find (\<lambda>op. let r = op_region op
             in BL_ELF_MEM_READ_REGION_CHECK address data bytes_n (p_start r) (p_end r) (v_start r) (v_end r)) ops of
          None \<Rightarrow> Some (BL_ERR_NONE, s)
        | Some op \<Rightarrow> op_read op address data bytes_n s)"

definition boot_elf_mem_set :: "u32 \<Rightarrow> u32 \<Rightarrow> u32 \<Rightarrow> 'd bl_elf_mem_op list \<Rightarrow> 'd boot \<Rightarrow> 'd boot_result" where
  "boot_elf_mem_set address value bytes_n ops s =
     (if ops = [] then Some (BL_ERR_ELF_MEM_INVAL_PARAM, s)
      else case find (\<lambda>op. let r = op_region op in BL_ELF_MEM_SET_REGION_CHECK address bytes_n (v_start r) (v_end r)) ops of
          None \<Rightarrow> Some (BL_ERR_NONE, s)
        | Some op \<Rightarrow> (case op_set op of None \<Rightarrow> Some (BL_ERR_NONE, s) | Some f \<Rightarrow> f address value bytes_n s))"

text \<open>The registered operations are the used prefix of the four-entry array.\<close>

definition boot_elf_mem_op_register :: "'d bl_elf_mem_op list \<Rightarrow> 'd bl_elf_mem_op \<Rightarrow> bl_error_type \<times> 'd bl_elf_mem_op list" where
  "boot_elf_mem_op_register ops mem_op =
     (if length ops \<ge> BL_MEM_MAX_NUM then (BL_ERR_ELF_MEM_INVAL_PARAM, ops) else (BL_ERR_NONE, ops @ [mem_op]))"

fun register_all :: "'d bl_elf_mem_op list \<Rightarrow> 'd bl_elf_mem_op list \<Rightarrow> bl_error_type \<times> 'd bl_elf_mem_op list" where
  "register_all ops [] = (BL_ERR_NONE, ops)"
| "register_all ops (c # cfg) =
     (case boot_elf_mem_op_register ops c of
        (status, ops) \<Rightarrow> if status \<noteq> BL_ERR_NONE then (BL_ERR_ELF_MEM_INIT, ops) else register_all ops cfg)"

definition boot_elf_mem_op_init :: "'d bl_elf_mem_op list \<Rightarrow> bl_error_type \<times> 'd bl_elf_mem_op list" where
  "boot_elf_mem_op_init op_cfg = register_all [] op_cfg"

declare flash_chunks.simps [simp del]

end
