(* ===== verification/Elf_Loader.thy ===== *)
theory Elf_Loader
  imports Elf_Mem
begin

text \<open>
  The ELF loader, \<^verbatim>\<open>qboot/elf_loader/boot_elf_loader.c\<close>. The loader object lives in memory at
  \<open>base\<close>: the ELF header and the program headers are read into it as bytes and decoded where
  the code looks at a field, so a segment that is loaded over the object changes what the
  loader sees. The table of memory operations, which holds code pointers, is a list. The
  indirection through the ROM table (\<open>PBL_IND_MOD_PFN\<close>, \<open>pbl_running_check\<close>) selects between
  two copies of the same functions and is not modelled.
\<close>

section \<open>Headers\<close>

definition MI_PBT_MAX_SEGMENTS :: u16 where "MI_PBT_MAX_SEGMENTS = 40"
definition PT_LOAD :: u32 where "PT_LOAD = 1"
definition EHDR_SIZE :: nat where "EHDR_SIZE = 52"
definition PHDR_SIZE :: nat where "PHDR_SIZE = 32"

fun le16 :: "bytes \<Rightarrow> u16" where
  "le16 (a # b # _) = ucast a OR push_bit 8 (ucast b)"
| "le16 _ = 0"

fun le32 :: "bytes \<Rightarrow> u32" where
  "le32 (a # b # c # d # _) = ucast a OR push_bit 8 (ucast b) OR push_bit 16 (ucast c) OR push_bit 24 (ucast d)"
| "le32 _ = 0"

record boot_elf32_ehdr =
  e_ident :: bytes
  e_type :: u16
  e_machine :: u16
  e_version :: u32
  e_entry :: u32
  e_phoff :: u32
  e_shoff :: u32
  e_flags :: u32
  e_ehsize :: u16
  e_phentsize :: u16
  e_phnum :: u16
  e_shentsize :: u16
  e_shnum :: u16
  e_shstrndx :: u16

record boot_elf32_phdr =
  p_type :: u32
  p_offset :: u32
  p_vaddr :: u32
  p_paddr :: u32
  p_filesz :: u32
  p_memsz :: u32
  p_flags :: u32
  p_align :: u32

definition decode_ehdr :: "bytes \<Rightarrow> boot_elf32_ehdr" where
  "decode_ehdr bs =
     \<lparr>e_ident = take 16 bs, e_type = le16 (drop 16 bs), e_machine = le16 (drop 18 bs), e_version = le32 (drop 20 bs),
      e_entry = le32 (drop 24 bs), e_phoff = le32 (drop 28 bs), e_shoff = le32 (drop 32 bs), e_flags = le32 (drop 36 bs),
      e_ehsize = le16 (drop 40 bs), e_phentsize = le16 (drop 42 bs), e_phnum = le16 (drop 44 bs),
      e_shentsize = le16 (drop 46 bs), e_shnum = le16 (drop 48 bs), e_shstrndx = le16 (drop 50 bs)\<rparr>"

definition decode_phdr :: "bytes \<Rightarrow> boot_elf32_phdr" where
  "decode_phdr bs =
     \<lparr>p_type = le32 bs, p_offset = le32 (drop 4 bs), p_vaddr = le32 (drop 8 bs), p_paddr = le32 (drop 12 bs),
      p_filesz = le32 (drop 16 bs), p_memsz = le32 (drop 20 bs), p_flags = le32 (drop 24 bs), p_align = le32 (drop 28 bs)\<rparr>"

section \<open>The loader object\<close>

text \<open>
  \<open>base\<close> is the address of the object; the bytes of its headers start 4 bytes in. The other
  fields, \<open>elf_addr\<close>, \<open>phr_num\<close> and the operations, are components of the record.
\<close>

record 'd boot_elf_loader =
  el_base :: addr
  el_elf_addr :: addr
  el_phr_num :: u32
  el_ops :: "'d bl_elf_mem_op list"

definition hdr_addr :: "'d boot_elf_loader \<Rightarrow> addr" where
  "hdr_addr l = el_base l + 4"

definition prog_hdrs_addr :: "'d boot_elf_loader \<Rightarrow> addr" where
  "prog_hdrs_addr l = el_base l + 4 + of_nat EHDR_SIZE"

definition elf_hdr :: "'d boot_elf_loader \<Rightarrow> memory \<Rightarrow> boot_elf32_ehdr" where
  "elf_hdr l m = decode_ehdr (mem_read m (hdr_addr l) EHDR_SIZE)"

definition prog_hdr :: "'d boot_elf_loader \<Rightarrow> memory \<Rightarrow> nat \<Rightarrow> boot_elf32_phdr" where
  "prog_hdr l m i = decode_phdr (mem_read m (prog_hdrs_addr l + of_nat (i * PHDR_SIZE)) PHDR_SIZE)"

definition boot_elf_validate_elf_header :: "boot_elf32_ehdr \<Rightarrow> bl_error_type" where
  "boot_elf_validate_elf_header h =
     (if take 4 (e_ident h) \<noteq> [0x7F, 0x45, 0x4C, 0x46] then BL_ERR_ELF_PARSE
      else if take 1 (drop 4 (e_ident h)) \<noteq> [1] then BL_ERR_ELF_CLASS_INVALID
      else if e_ehsize h \<noteq> of_nat EHDR_SIZE then BL_ERR_ELF_FORMAT
      else if e_phentsize h \<noteq> of_nat PHDR_SIZE then BL_ERR_ELF_FORMAT
      else if e_phnum h > MI_PBT_MAX_SEGMENTS then BL_ERR_ELF_SEGMENT_COUNT
      else BL_ERR_NONE)"

text \<open>How many bytes of a segment are copied and how many zeroed.\<close>

definition bytes_to_read :: "boot_elf32_phdr \<Rightarrow> u32 \<Rightarrow> u32 \<Rightarrow> u32" where
  "bytes_to_read ph offset bytes_to_load =
     (if offset \<ge> p_filesz ph then 0
      else if bytes_to_load \<ge> p_filesz ph - offset then p_filesz ph - offset
      else bytes_to_load)"

definition bytes_to_set :: "boot_elf32_phdr \<Rightarrow> u32 \<Rightarrow> u32 \<Rightarrow> u32" where
  "bytes_to_set ph bytes_read bytes_to_load =
     (if bytes_read \<ge> bytes_to_load then 0
      else if bytes_to_load - bytes_read \<ge> p_memsz ph - p_filesz ph then p_memsz ph - p_filesz ph
      else bytes_to_load - bytes_read)"

text \<open>The zeroing looks at the program header again, after the copy.\<close>

definition boot_elf_load_generic_segment ::
    "'d boot_elf_loader \<Rightarrow> nat \<Rightarrow> u32 \<Rightarrow> u32 \<Rightarrow> u32 \<Rightarrow> 'd boot \<Rightarrow> 'd boot_result" where
  "boot_elf_load_generic_segment l prog_idx offset dest_addr bytes_to_load s =
     (if el_elf_addr l = NULL then Some (BL_ERR_ELF_NULL_PTR, s)
      else if prog_idx \<ge> unat (el_phr_num l) then Some (BL_ERR_ELF_INVAL_PARAM, s)
      else
        let ph = prog_hdr l (bt_mem s) prog_idx;
            rd = bytes_to_read ph offset bytes_to_load;
            st = bytes_to_set ph rd bytes_to_load
        in if p_filesz ph = 0 then Some (BL_ERR_NONE, s)
           else do {
             (result, s) \<leftarrow>
               (if p_memsz ph \<noteq> 0 \<and> p_filesz ph \<noteq> 0 \<and> p_memsz ph \<ge> p_filesz ph \<and> rd \<noteq> 0
                then boot_elf_mem_read (el_elf_addr l + p_offset ph + offset) dest_addr rd (el_ops l) s
                else Some (BL_ERR_NONE, s));
             if result \<noteq> BL_ERR_NONE then Some (result, s)
             else
               let ph = prog_hdr l (bt_mem s) prog_idx
               in if p_memsz ph > p_filesz ph \<and> dest_addr + p_filesz ph \<ge> dest_addr \<and> st \<noteq> 0
                  then boot_elf_mem_set (dest_addr + rd) 0 st (el_ops l) s
                  else Some (result, s)
           })"

definition boot_elf_load_elf_header :: "'d boot_elf_loader \<Rightarrow> 'd boot \<Rightarrow> 'd boot_result" where
  "boot_elf_load_elf_header l s =
     (if el_elf_addr l = NULL then Some (BL_ERR_ELF_NULL_PTR, s)
      else do {
        (result, s) \<leftarrow> boot_elf_mem_read (el_elf_addr l) (hdr_addr l) (of_nat EHDR_SIZE) (el_ops l) s;
        if result \<noteq> BL_ERR_NONE then Some (result, s)
        else Some (boot_elf_validate_elf_header (elf_hdr l (bt_mem s)), s)
      })"

definition boot_elf_load_prog_hdrs :: "'d boot_elf_loader \<Rightarrow> 'd boot \<Rightarrow> 'd boot_result" where
  "boot_elf_load_prog_hdrs l s =
     (if el_elf_addr l = NULL then Some (BL_ERR_ELF_NULL_PTR, s)
      else
        let h = elf_hdr l (bt_mem s)
        in boot_elf_mem_read (el_elf_addr l + e_phoff h) (prog_hdrs_addr l) (ucast (e_phnum h) * ucast (e_phentsize h)) (el_ops l) s)"

text \<open>Zero the headers, register the operations, load and check both headers.\<close>

definition boot_elf_load_init ::
    "'d boot_elf_loader \<Rightarrow> addr \<Rightarrow> 'd bl_elf_mem_op list \<Rightarrow> 'd boot
     \<Rightarrow> (bl_error_type \<times> 'd boot_elf_loader \<times> 'd boot) option" where
  "boot_elf_load_init l elf_addr op_cfg s =
     (if elf_addr = NULL then Some (BL_ERR_ELF_NULL_PTR, l, s)
      else
        let s = s\<lparr>bt_mem := mem_write (mem_write (bt_mem s) (hdr_addr l) (replicate EHDR_SIZE 0))
                    (prog_hdrs_addr l) (replicate (PHDR_SIZE * unat MI_PBT_MAX_SEGMENTS) 0)\<rparr>
        in case boot_elf_mem_op_init op_cfg of
          (result, ops) \<Rightarrow>
            if result \<noteq> BL_ERR_NONE then Some (result, l\<lparr>el_ops := ops\<rparr>, s)
            else
              let l = l\<lparr>el_ops := ops, el_elf_addr := elf_addr\<rparr>
              in do {
                (result, s) \<leftarrow> boot_elf_load_elf_header l s;
                if result \<noteq> BL_ERR_NONE then Some (result, l, s)
                else do {
                  (result, s) \<leftarrow> boot_elf_load_prog_hdrs l s;
                  if result \<noteq> BL_ERR_NONE then Some (result, l, s)
                  else Some (BL_ERR_NONE, l\<lparr>el_phr_num := ucast (e_phnum (elf_hdr l (bt_mem s)))\<rparr>, s)
                }
              })"

datatype boot_elf_load_type = BOOT_ELF_LOAD_FULL | BOOT_ELF_LOAD_RAM | BOOT_ELF_LOAD_COPY

definition load_segment :: "'d boot_elf_loader \<Rightarrow> boot_elf_load_type \<Rightarrow> nat \<Rightarrow> 'd boot \<Rightarrow> 'd boot_result" where
  "load_segment l load_type prog_idx s =
     (let ph = prog_hdr l (bt_mem s) prog_idx
      in if p_type ph \<noteq> PT_LOAD then Some (BL_ERR_NONE, s)
         else if load_type \<noteq> BOOT_ELF_LOAD_COPY then
           (if load_type = BOOT_ELF_LOAD_RAM \<and> p_vaddr ph < FRN_RAM_END \<or> load_type = BOOT_ELF_LOAD_FULL
            then boot_elf_load_generic_segment l prog_idx 0 (p_vaddr ph) (p_memsz ph) s
            else Some (BL_ERR_NONE, s))
         else boot_elf_load_generic_segment l prog_idx 0 (p_paddr ph) (p_filesz ph) s)"

primrec load_segments :: "'d boot_elf_loader \<Rightarrow> boot_elf_load_type \<Rightarrow> nat list \<Rightarrow> 'd boot \<Rightarrow> 'd boot_result" where
  "load_segments l load_type [] s = Some (BL_ERR_NONE, s)"
| "load_segments l load_type (i # is) s =
     do {
       (result, s) \<leftarrow> load_segment l load_type i s;
       if result \<noteq> BL_ERR_NONE then Some (result, s) else load_segments l load_type is s
     }"

definition boot_elf_load_image :: "'d boot_elf_loader \<Rightarrow> boot_elf_load_type \<Rightarrow> 'd boot \<Rightarrow> 'd boot_result" where
  "boot_elf_load_image l load_type s =
     (if el_elf_addr l = NULL then Some (BL_ERR_ELF_NULL_PTR, s)
      else load_segments l load_type [0 ..< unat (el_phr_num l)] s)"

end
