(* ===== verification/Fdt.thy ===== *)
theory Fdt
  imports Elf_Loader
begin

text \<open>
  The firmware descriptor table in RRAM, \<^verbatim>\<open>qboot/system/rram_fdt.c\<close>, with the searches over it in
  \<^verbatim>\<open>qboot/src/sbl_main.c\<close>. The table is bytes of the memory: a 32-byte header and entries of 32
  bytes. The indirection through the ROM table is not modelled.
\<close>

section \<open>Data\<close>

definition FDT_Start_Addr :: addr where "FDT_Start_Addr = 0x208000"
definition FDT_SIGNATURE :: u32 where "FDT_SIGNATURE = 0x54445746"
definition FDT_MAX_ENTRY :: u32 where "FDT_MAX_ENTRY = 1024 div 32 - 1"
definition FDE_INVAL_IDX :: u32 where "FDE_INVAL_IDX = 1024 div 32"
definition SBL_IMAGE_REGION_START :: u32 where "SBL_IMAGE_REGION_START = 0x20A400"
definition SBL_IMAGE_REGION_END :: u32 where "SBL_IMAGE_REGION_END = SBL_IMAGE_REGION_START + 0x10000"

definition OTA_IMG_STATE_INVALID :: u32 where "OTA_IMG_STATE_INVALID = 0"
definition OTA_IMG_STATE_VALID :: u32 where "OTA_IMG_STATE_VALID = 1"
definition OTA_IMG_STATE_VERIFY_PENDING :: u32 where "OTA_IMG_STATE_VERIFY_PENDING = 4"
definition OTA_IMG_RANK_AGED :: u32 where "OTA_IMG_RANK_AGED = 0"
definition OTA_IMG_RANK_GOLDEN :: u32 where "OTA_IMG_RANK_GOLDEN = 1"
definition OTA_IMG_RANK_CURRENT :: u32 where "OTA_IMG_RANK_CURRENT = 2"
definition OTA_IMG_RANK_TRIAL :: u32 where "OTA_IMG_RANK_TRIAL = 3"
definition OTA_IMG_FORMAT_ELF :: u32 where "OTA_IMG_FORMAT_ELF = 0"
definition OTA_IMG_FORMAT_BIN :: u32 where "OTA_IMG_FORMAT_BIN = 1"
definition OTA_IMG_ID_SBL :: u32 where "OTA_IMG_ID_SBL = 0"
definition OTA_IMG_ID_APP :: u32 where "OTA_IMG_ID_APP = 2"
definition OTA_IMG_ID_BDF :: u32 where "OTA_IMG_ID_BDF = 3"

record fdt_entry =
  fe_id :: u32
  fe_rank :: u32
  fe_format :: u32
  fe_addr :: u32
  fe_state :: u32
  fe_version :: u32
  fe_reserve :: bytes

definition le_bytes32 :: "u32 \<Rightarrow> bytes" where
  "le_bytes32 w = [ucast w, ucast (drop_bit 8 w), ucast (drop_bit 16 w), ucast (drop_bit 24 w)]"

definition decode_fde :: "bytes \<Rightarrow> fdt_entry" where
  "decode_fde bs =
     \<lparr>fe_id = le32 bs, fe_rank = le32 (drop 4 bs), fe_format = le32 (drop 8 bs), fe_addr = le32 (drop 12 bs),
      fe_state = le32 (drop 16 bs), fe_version = le32 (drop 20 bs), fe_reserve = take 8 (drop 24 bs)\<rparr>"

definition encode_fde :: "fdt_entry \<Rightarrow> bytes" where
  "encode_fde e =
     le_bytes32 (fe_id e) @ le_bytes32 (fe_rank e) @ le_bytes32 (fe_format e) @ le_bytes32 (fe_addr e)
     @ le_bytes32 (fe_state e) @ le_bytes32 (fe_version e) @ fe_reserve e"

definition empty_fde :: fdt_entry where
  "empty_fde = \<lparr>fe_id = 0, fe_rank = 0, fe_format = 0, fe_addr = 0, fe_state = 0, fe_version = 0, fe_reserve = replicate 8 0\<rparr>"

definition fdt_signature :: "memory \<Rightarrow> addr \<Rightarrow> u32" where
  "fdt_signature m fdt = le32 (mem_read m fdt 4)"

definition fdt_num_fde :: "memory \<Rightarrow> addr \<Rightarrow> u32" where
  "fdt_num_fde m fdt = le32 (mem_read m (fdt + 4) 4)"

definition fde_address :: "addr \<Rightarrow> u32 \<Rightarrow> addr" where
  "fde_address fdt idx = fdt + 32 + 32 * idx"

definition fde_at :: "memory \<Rightarrow> addr \<Rightarrow> u32 \<Rightarrow> fdt_entry" where
  "fde_at m fdt idx = decode_fde (mem_read m (fde_address fdt idx) 32)"

section \<open>Operations\<close>

definition fdt_verify :: "memory \<Rightarrow> addr \<Rightarrow> bl_error_type" where
  "fdt_verify m fdt =
     (if fdt = NULL then BL_ERR_FDT_NULL_PTR
      else if fdt_signature m fdt \<noteq> FDT_SIGNATURE then BL_ERR_FDT_INVALID_SIGNATURE
      else if fdt_num_fde m fdt = 0 \<or> fdt_num_fde m fdt > FDT_MAX_ENTRY then BL_ERR_FDT_INVALID_ENTRY_NUM
      else BL_ERR_NONE)"

definition fde_verify :: "fdt_entry option \<Rightarrow> bl_error_type" where
  "fde_verify fde =
     (case fde of
        None \<Rightarrow> BL_ERR_FDT_NULL_PTR
      | Some e \<Rightarrow>
          if fe_id e > OTA_IMG_ID_APP then BL_ERR_FDE_INVALID_IMAGE_ID
          else if fe_id e = OTA_IMG_ID_SBL \<and> (fe_addr e < SBL_IMAGE_REGION_START \<or> fe_addr e > SBL_IMAGE_REGION_END)
          then BL_ERR_FDE_INVALID_IMAGE_ADDR
          else BL_ERR_NONE)"

definition fdt_get :: "memory \<Rightarrow> bl_error_type \<times> addr" where
  "fdt_get m = (fdt_verify m FDT_Start_Addr, FDT_Start_Addr)"

text \<open>The first index below \<open>num_fde\<close> whose entry satisfies the test, or the invalid index.\<close>

definition first_fde :: "memory \<Rightarrow> addr \<Rightarrow> (fdt_entry \<Rightarrow> bool) \<Rightarrow> u32" where
  "first_fde m fdt P =
     (case find (\<lambda>i. P (fde_at m fdt (of_nat i))) [0 ..< unat (fdt_num_fde m fdt)] of
        None \<Rightarrow> FDE_INVAL_IDX | Some i \<Rightarrow> of_nat i)"

text \<open>\<open>idx\<close> is what the caller's variable holds; the second component is what it holds after.\<close>

definition fde_get_idx_by_id :: "memory \<Rightarrow> addr \<Rightarrow> u32 \<Rightarrow> u32 \<Rightarrow> bl_error_type \<times> u32" where
  "fde_get_idx_by_id m fdt img idx =
     (if fdt = NULL then (BL_ERR_FDT_INVALID_PARAM, idx) else (BL_ERR_NONE, first_fde m fdt (\<lambda>e. fe_id e = img)))"

definition fde_get_idx_by_id_rank :: "memory \<Rightarrow> addr \<Rightarrow> u32 \<Rightarrow> u32 \<Rightarrow> u32 \<Rightarrow> bl_error_type \<times> u32" where
  "fde_get_idx_by_id_rank m fdt img rank idx =
     (if fdt = NULL then (BL_ERR_FDT_INVALID_PARAM, idx)
      else (BL_ERR_NONE, first_fde m fdt (\<lambda>e. fe_id e = img \<and> fe_rank e = rank)))"

text \<open>\<open>fde\<close> is \<open>None\<close> for a NULL pointer, else what the caller's entry holds.\<close>

definition fde_get_by_idx :: "memory \<Rightarrow> addr \<Rightarrow> fdt_entry option \<Rightarrow> u32 \<Rightarrow> bl_error_type \<times> fdt_entry option" where
  "fde_get_by_idx m fdt fde idx =
     (if fde = None \<or> fdt = NULL \<or> idx > FDT_MAX_ENTRY then (BL_ERR_FDT_INVALID_PARAM, fde)
      else if idx \<ge> fdt_num_fde m fdt then (BL_ERR_FDE_INVALID_IDX, fde)
      else (fde_verify (Some (fde_at m fdt idx)), Some (fde_at m fdt idx)))"

definition fde_update :: "dma \<Rightarrow> addr \<Rightarrow> fdt_entry option \<Rightarrow> u32 \<Rightarrow> memory \<Rightarrow> bl_error_type \<times> memory" where
  "fde_update dma fdt fde idx m =
     (case fde of
        None \<Rightarrow> (BL_ERR_FDT_INVALID_PARAM, m)
      | Some e \<Rightarrow>
          if fdt = NULL \<or> idx > FDT_MAX_ENTRY then (BL_ERR_FDT_INVALID_PARAM, m)
          else if idx \<ge> fdt_num_fde m fdt then (BL_ERR_FDE_INVALID_IDX, m)
          else case rram_write_dxe dma (fde_address fdt idx) (Src_buf (encode_fde e)) 32 m of
            (status, m) \<Rightarrow> (if status \<noteq> BL_ERR_NONE then BL_ERR_FDE_UPDATE_ERR else status, m))"

section \<open>Searches of the boot loader\<close>

definition boot_sbl_find_appimg :: "memory \<Rightarrow> addr \<Rightarrow> u32 \<Rightarrow> bl_error_type \<times> u32" where
  "boot_sbl_find_appimg m fdt idx =
     (if fdt = NULL then (BL_ERR_NULL_PTR, idx)
      else
        let look = (\<lambda>rank app_idx. if app_idx = FDE_INVAL_IDX then snd (fde_get_idx_by_id_rank m fdt OTA_IMG_ID_APP rank app_idx) else app_idx);
            app_idx = look OTA_IMG_RANK_AGED (look OTA_IMG_RANK_GOLDEN (look OTA_IMG_RANK_CURRENT (look OTA_IMG_RANK_TRIAL FDE_INVAL_IDX)))
        in if app_idx \<noteq> FDE_INVAL_IDX then (BL_ERR_NONE, app_idx) else (BL_ERR_INVALID_PARAM, idx))"

definition boot_sbl_find_bdf :: "memory \<Rightarrow> addr \<Rightarrow> u32 \<Rightarrow> bl_error_type \<times> u32" where
  "boot_sbl_find_bdf m fdt idx =
     (if fdt = NULL then (BL_ERR_NULL_PTR, idx)
      else
        let app_idx = snd (fde_get_idx_by_id_rank m fdt OTA_IMG_ID_BDF OTA_IMG_RANK_CURRENT FDE_INVAL_IDX)
        in if app_idx \<noteq> FDE_INVAL_IDX then (BL_ERR_NONE, app_idx) else (BL_ERR_INVALID_PARAM, idx))"

definition get_bdf_addr :: "memory \<Rightarrow> addr \<Rightarrow> u32" where
  "get_bdf_addr m fdt =
     (let idx = (case boot_sbl_find_bdf m fdt FDE_INVAL_IDX of (status, i) \<Rightarrow> if status \<noteq> BL_ERR_NONE then FDE_INVAL_IDX else i)
      in if idx \<noteq> FDE_INVAL_IDX then
           (case snd (fde_get_by_idx m fdt (Some empty_fde) idx) of Some e \<Rightarrow> fe_addr e | None \<Rightarrow> 0)
         else 0x37A000)"

text \<open>
  What the boot loader hands to the application. The table of the partitions has room for ten
  entries; writing an entry beyond it is undefined (\<open>None\<close>).
\<close>

definition PART_SIZE :: nat where "PART_SIZE = 10"
definition APP_ARGS_MAGIC :: u32 where "APP_ARGS_MAGIC = 0x55AA55AA"
definition SBL_SHARE_VER :: u8 where "SBL_SHARE_VER = 1"

record boot_sbl_share =
  sh_magic_num :: u32
  sh_ver :: u8
  sh_img_type :: u8
  sh_bdf_addr :: u32
  sh_fdt_part :: "(u32 \<times> u32) list"

fun fill_parts :: "memory \<Rightarrow> addr \<Rightarrow> nat list \<Rightarrow> (u32 \<times> u32) list \<Rightarrow> (u32 \<times> u32) list option" where
  "fill_parts m fdt [] ps = Some ps"
| "fill_parts m fdt (i # is) ps =
     (if i < length ps
      then let e = fde_at m fdt (of_nat i) in fill_parts m fdt is (ps[i := (fe_id e, fe_addr e)])
      else None)"

definition set_sbl_share :: "u8 \<Rightarrow> u32 \<Rightarrow> memory \<Rightarrow> addr \<Rightarrow> boot_sbl_share \<Rightarrow> boot_sbl_share option" where
  "set_sbl_share img_type bdf_addr m fdt share =
     map_option (\<lambda>ps. share\<lparr>sh_fdt_part := ps, sh_magic_num := APP_ARGS_MAGIC, sh_ver := SBL_SHARE_VER,
                            sh_img_type := img_type, sh_bdf_addr := bdf_addr\<rparr>)
       (fill_parts m fdt [0 ..< unat (fdt_num_fde m fdt)] (sh_fdt_part share))"

end
