(* ===== verification/Fdt_Props.thy ===== *)
theory Fdt_Props
  imports Fdt Rram_Correct
begin

text \<open>
  The firmware descriptor table as a table of entries: an entry survives its encoding, an
  update through the DXE engine writes exactly the entry, and searches find the first match.
\<close>

section \<open>Encoding\<close>

lemma le32_le_bytes32 [simp]: "le32 (le_bytes32 w @ bs) = w"
proof (rule bit_word_eqI)
  fix n assume n: "n < LENGTH(32)"
  consider "n < 8" | "8 \<le> n" "n < 16" | "16 \<le> n" "n < 24" | "24 \<le> n" by linarith
  then show "bit (le32 (le_bytes32 w @ bs)) n = bit w n"
    using n by cases (simp_all add: le_bytes32_def bit_simps, linarith+)
qed

lemma length_le_bytes32 [simp]: "length (le_bytes32 w) = 4"
  by (simp add: le_bytes32_def)

lemma length_encode_fde: "length (fe_reserve e) = 8 \<Longrightarrow> length (encode_fde e) = 32"
  by (simp add: encode_fde_def)

lemma decode_encode_fde: "length (fe_reserve e) = 8 \<Longrightarrow> decode_fde (encode_fde e) = e"
  by (simp add: decode_fde_def encode_fde_def)

section \<open>Tables of entries\<close>

text \<open>
  A table keeps one entry per index: an update is seen at its index and nowhere else. Then
  after a series of updates every index holds the entry written last.
\<close>

locale entry_table =
  fixes indices :: "'s \<Rightarrow> 'i set"
    and fits :: "'e \<Rightarrow> bool"
    and lookup :: "'s \<Rightarrow> 'i \<Rightarrow> 'e"
    and update :: "'i \<Rightarrow> 'e \<Rightarrow> 's \<Rightarrow> 's"
  assumes lookup_same: "i \<in> indices s \<Longrightarrow> fits e \<Longrightarrow> lookup (update i e s) i = e"
    and lookup_other: "i \<in> indices s \<Longrightarrow> j \<in> indices s \<Longrightarrow> fits e \<Longrightarrow> i \<noteq> j \<Longrightarrow> lookup (update i e s) j = lookup s j"
    and indices_update: "i \<in> indices s \<Longrightarrow> fits e \<Longrightarrow> indices (update i e s) = indices s"
begin

definition updates :: "('i \<times> 'e) list \<Rightarrow> 's \<Rightarrow> 's" where
  "updates us s = fold (\<lambda>(i, e). update i e) us s"

lemma updates_lookup:
  assumes "\<And>i e. (i, e) \<in> set us \<Longrightarrow> i \<in> indices s \<and> fits e"
  shows "indices (updates us s) = indices s
    \<and> (\<forall>j \<in> indices s. lookup (updates us s) j = (case map_of (rev us) j of Some e \<Rightarrow> e | None \<Rightarrow> lookup s j))"
  using assms
proof (induction us arbitrary: s)
  case Nil
  then show ?case by (simp add: updates_def)
next
  case (Cons u us)
  obtain i e where u: "u = (i, e)" by force
  have ie: "i \<in> indices s" "fits e" using Cons.prems u by auto
  note keep = indices_update [OF ie]
  have "indices (updates us (update i e s)) = indices s
      \<and> (\<forall>j \<in> indices s. lookup (updates us (update i e s)) j
           = (case map_of (rev us) j of Some e' \<Rightarrow> e' | None \<Rightarrow> lookup (update i e s) j))"
    using Cons.IH [of "update i e s"] Cons.prems unfolding keep by (metis list.set_intros(2))
  then show ?case
    using lookup_same [OF ie] lookup_other [OF ie(1) _ ie(2)]
    by (auto simp: updates_def u map_add_def split: option.splits)
qed

end

section \<open>The table in RRAM\<close>

definition fdt_place :: "addr \<Rightarrow> bool" where
  "fdt_place fdt \<longleftrightarrow> 0x200000 \<le> unat fdt \<and> unat fdt + 1024 \<le> 0x380000 \<and> unat fdt mod 4 = 0"

definition fde_indices :: "dma \<Rightarrow> addr \<Rightarrow> memory \<Rightarrow> u32 set" where
  "fde_indices dma fdt m = {i. dma_copies dma \<and> fdt_place fdt \<and> i < fdt_num_fde m fdt \<and> i < FDT_MAX_ENTRY}"

definition fde_fits :: "fdt_entry \<Rightarrow> bool" where
  "fde_fits e \<longleftrightarrow> length (fe_reserve e) = 8"

lemma unat_fde_address:
  assumes "fdt_place fdt" and "i < FDT_MAX_ENTRY"
  shows "unat (fde_address fdt i) = unat fdt + 32 + 32 * unat i"
proof -
  have i: "unat i < 31" using assms(2) by (simp add: FDT_MAX_ENTRY_def word_less_nat_alt)
  have e: "fde_address fdt i = fdt + of_nat (32 + 32 * unat i)" by (simp add: fde_address_def)
  show ?thesis unfolding e by (subst unat_addr_offset) (use assms(1) i in \<open>simp_all add: fdt_place_def\<close>)
qed

lemma fde_update_writes:
  assumes "i \<in> fde_indices dma fdt m" and "fde_fits e"
  shows "fde_update dma fdt (Some e) i m = (BL_ERR_NONE, mem_write m (fde_address fdt i) (encode_fde e))"
proof -
  have d: "dma_copies dma" and p: "fdt_place fdt" and i: "i < fdt_num_fde m fdt" "i < FDT_MAX_ENTRY"
    using assms(1) by (auto simp: fde_indices_def)
  have u: "unat i < 31" using i(2) by (simp add: FDT_MAX_ENTRY_def word_less_nat_alt)
  have len: "length (encode_fde e) = 32" using assms(2) by (simp add: fde_fits_def length_encode_fde)
  have m4: "(unat fdt + 32 + 32 * unat i) mod 4 = 0" using p unfolding fdt_place_def by presburger
  have "rram_verify_address (fde_address fdt i) 32 = BL_ERR_NONE"
    unfolding verify_iff unat_fde_address [OF p i(2)] using p u m4 by (simp add: fdt_place_def)
  from write_ok [OF d this, of "Src_buf (encode_fde e)" m]
  have "rram_write_dxe dma (fde_address fdt i) (Src_buf (encode_fde e)) 32 m = (BL_ERR_NONE, mem_write m (fde_address fdt i) (encode_fde e))"
    by (simp add: len)
  moreover have "fdt \<noteq> 0" using p by (auto simp: fdt_place_def)
  moreover have "\<not> i > FDT_MAX_ENTRY" "\<not> fdt_num_fde m fdt \<le> i" using i by auto
  ultimately show ?thesis by (simp add: fde_update_def)
qed

lemma fde_apart:
  assumes "fdt_place fdt" and "i < FDT_MAX_ENTRY"
  shows "apart fdt 32 (fde_address fdt i) 32"
    and "j < FDT_MAX_ENTRY \<Longrightarrow> i \<noteq> j \<Longrightarrow> apart (fde_address fdt j) 32 (fde_address fdt i) 32"
proof -
  have u: "unat i < 31" using assms(2) by (simp add: FDT_MAX_ENTRY_def word_less_nat_alt)
  show "apart fdt 32 (fde_address fdt i) 32"
    unfolding apart_def unat_fde_address [OF assms] using assms(1) u by (simp add: fdt_place_def)
  assume j: "j < FDT_MAX_ENTRY" and ne: "i \<noteq> j"
  then have "unat j < 31" "unat i \<noteq> unat j" by (simp_all add: FDT_MAX_ENTRY_def word_less_nat_alt word_unat_eq_iff)
  then show "apart (fde_address fdt j) 32 (fde_address fdt i) 32"
    unfolding apart_def unat_fde_address [OF assms] unat_fde_address [OF assms(1) j] using assms(1) u by (auto simp: fdt_place_def)
qed

lemma header_update:
  assumes "fdt_place fdt" and "i < FDT_MAX_ENTRY" and "fde_fits e" and "k \<le> 28"
  shows "mem_read (mem_write m (fde_address fdt i) (encode_fde e)) (fdt + of_nat k) 4 = mem_read m (fdt + of_nat k) 4"
proof (rule mem_read_write_apart)
  have "unat (fdt + of_nat k) = unat fdt + k" by (rule unat_addr_offset) (use assms(1,4) in \<open>simp add: fdt_place_def\<close>)
  then show "apart (fdt + of_nat k) 4 (fde_address fdt i) (length (encode_fde e))"
    using apart_sub [OF fde_apart(1) [OF assms(1,2)], of "fdt + of_nat k" 4] assms(3,4)
    by (simp add: fde_fits_def length_encode_fde)
qed

definition write_fde :: "dma \<Rightarrow> addr \<Rightarrow> u32 \<Rightarrow> fdt_entry \<Rightarrow> memory \<Rightarrow> memory" where
  "write_fde dma fdt i e m = snd (fde_update dma fdt (Some e) i m)"

interpretation fdt_table: entry_table "fde_indices dma fdt" fde_fits "\<lambda>m. fde_at m fdt" "write_fde dma fdt"
  for dma fdt
proof (unfold_locales, goal_cases)
  case (1 i s e)
  have "length (encode_fde e) = 32" using 1(2) by (simp add: fde_fits_def length_encode_fde)
  then show ?case
    using 1 mem_read_write_same [of "encode_fde e" s "fde_address fdt i"]
    by (simp add: write_fde_def fde_update_writes fde_at_def decode_encode_fde fde_fits_def)
next
  case (2 i s j e)
  have "length (encode_fde e) = 32" using 2(3) by (simp add: fde_fits_def length_encode_fde)
  moreover have "apart (fde_address fdt j) 32 (fde_address fdt i) 32"
    using 2 by (intro fde_apart(2)) (auto simp: fde_indices_def)
  ultimately show ?case using 2 by (simp add: write_fde_def fde_update_writes fde_at_def mem_read_write_apart)
next
  case (3 i s e)
  then have "fdt_place fdt" "i < FDT_MAX_ENTRY" by (auto simp: fde_indices_def)
  from header_update [OF this 3(2), of 4 s]
  have "fdt_num_fde (write_fde dma fdt i e s) fdt = fdt_num_fde s fdt"
    using 3 by (simp add: write_fde_def fde_update_writes fdt_num_fde_def)
  then show ?case by (simp add: fde_indices_def)
qed

section \<open>Series of updates and searches\<close>

text \<open>
  The statuses of a series of updates and the memory after it.
\<close>

primrec fde_updates :: "dma \<Rightarrow> addr \<Rightarrow> (u32 \<times> fdt_entry) list \<Rightarrow> memory \<Rightarrow> bl_error_type list \<times> memory" where
  "fde_updates dma fdt [] m = ([], m)"
| "fde_updates dma fdt (u # us) m =
     (case fde_update dma fdt (Some (snd u)) (fst u) m of (st, m) \<Rightarrow>
      case fde_updates dma fdt us m of (sts, m) \<Rightarrow> (st # sts, m))"

lemma fde_updates_eq:
  assumes "\<And>i e. (i, e) \<in> set us \<Longrightarrow> i \<in> fde_indices dma fdt m \<and> fde_fits e"
  shows "fde_updates dma fdt us m = (replicate (length us) BL_ERR_NONE, fdt_table.updates dma fdt us m)"
  using assms
proof (induction us arbitrary: m)
  case Nil
  then show ?case by (simp add: fdt_table.updates_def)
next
  case (Cons u us)
  obtain i e where u: "u = (i, e)" by force
  have ie: "i \<in> fde_indices dma fdt m" "fde_fits e" using Cons.prems u by auto
  have w: "fde_update dma fdt (Some e) i m = (BL_ERR_NONE, write_fde dma fdt i e m)"
    using fde_update_writes [OF ie] by (simp add: write_fde_def)
  have "fde_updates dma fdt us (write_fde dma fdt i e m) = (replicate (length us) BL_ERR_NONE, fdt_table.updates dma fdt us (write_fde dma fdt i e m))"
    by (rule Cons.IH) (unfold fdt_table.indices_update [OF ie], rule Cons.prems, simp)
  then show ?case by (simp add: u w fdt_table.updates_def)
qed

text \<open>C15: Updating the descriptor table: on a table in RRAM, a series of \<open>fde_update\<close> calls on
  existing entries succeeds, afterwards \<open>fde_get_by_idx\<close> returns at every index the entry that
  was written last (all seven fields, through the encoding and the DXE engine), or the old one
  where none was written.\<close>

theorem fde_update_then_get:
  assumes "dma_copies dma" and "fdt_place fdt" and "fdt_num_fde m fdt \<le> FDT_MAX_ENTRY"
    and "\<forall>(i, e) \<in> set us. i < fdt_num_fde m fdt \<and> length (fe_reserve e) = 8"
    and "fde_updates dma fdt us m = (sts, m')" and "j < fdt_num_fde m fdt"
  shows "set sts \<subseteq> {BL_ERR_NONE}
    \<and> snd (fde_get_by_idx m' fdt (Some empty_fde) j) = Some (case map_of (rev us) j of Some e \<Rightarrow> e | None \<Rightarrow> fde_at m fdt j)"
proof -
  have idx: "i \<in> fde_indices dma fdt m" if "i < fdt_num_fde m fdt" for i
    using assms(1-3) that by (auto simp: fde_indices_def)
  have ok: "i \<in> fde_indices dma fdt m \<and> fde_fits e" if "(i, e) \<in> set us" for i e
    using assms(4) that idx by (auto simp: fde_fits_def)
  have m': "sts = replicate (length us) BL_ERR_NONE" "m' = fdt_table.updates dma fdt us m"
    using fde_updates_eq [OF ok] assms(5) by auto
  note res = fdt_table.updates_lookup [of us dma fdt m, OF ok]
  have "j \<in> fde_indices dma fdt m'" using res idx [OF assms(6)] m'(2) by simp
  then have j: "j < FDT_MAX_ENTRY" "j < fdt_num_fde m' fdt" by (auto simp: fde_indices_def)
  have "fdt \<noteq> 0" using assms(2) by (auto simp: fdt_place_def)
  moreover have "\<not> j > FDT_MAX_ENTRY" "\<not> fdt_num_fde m' fdt \<le> j" using j by auto
  ultimately have "snd (fde_get_by_idx m' fdt (Some empty_fde) j) = Some (fde_at m' fdt j)"
    by (simp add: fde_get_by_idx_def)
  then show ?thesis using res idx [OF assms(6)] m' by auto
qed

text \<open>A small table: two entries at the address the boot loader uses.\<close>

definition demo_fde :: "u32 \<Rightarrow> u32 \<Rightarrow> u32 \<Rightarrow> fdt_entry" where
  "demo_fde img rank a =
     \<lparr>fe_id = img, fe_rank = rank, fe_format = 0, fe_addr = a, fe_state = 1, fe_version = 7, fe_reserve = [0, 0, 0, 0, 0, 0, 0, 0]\<rparr>"

definition demo_fdt :: memory where
  "demo_fdt = (\<lambda>_. 0)(0x208000 := 0x46, 0x208001 := 0x57, 0x208002 := 0x44, 0x208003 := 0x54, 0x208004 := 2)"

lemma mem_read_4: "mem_read m a 4 = [m a, m (a + 1), m (a + 2), m (a + 3)]"
  by (simp add: mem_read_def upt_rec)

lemma demo_fdt_num: "fdt_num_fde demo_fdt 0x208000 = 2"
  by (simp add: fdt_num_fde_def demo_fdt_def mem_read_4)

theorem fde_update_then_get_witness:
  "\<exists>sts m'. fde_updates (\<lambda>a bs m. mem_write m a bs) 0x208000 [(1, demo_fde 2 3 0), (0, demo_fde 0 2 9), (1, demo_fde 2 2 5)] demo_fdt = (sts, m')
     \<and> set sts \<subseteq> {BL_ERR_NONE} \<and> snd (fde_get_by_idx m' 0x208000 (Some empty_fde) 1) = Some (demo_fde 2 2 5)"
proof -
  let ?us = "[(1, demo_fde 2 3 0), (0, demo_fde 0 2 9), (1, demo_fde 2 2 5)]"
  obtain sts m' where e: "fde_updates (\<lambda>a bs m. mem_write m a bs) 0x208000 ?us demo_fdt = (sts, m')" by force
  have "dma_copies (\<lambda>a bs m. mem_write m a bs)" "fdt_place 0x208000" by (simp_all add: dma_copies_def fdt_place_def)
  from fde_update_then_get [OF this _ _ e, of 1] show ?thesis
    unfolding demo_fdt_num e by (simp add: FDT_MAX_ENTRY_def demo_fde_def)
qed

section \<open>The partitions handed to the application\<close>

lemma fill_parts_some:
  "k \<le> n \<Longrightarrow> n \<le> length ps \<Longrightarrow> fill_parts m fdt [k ..< n] ps
     = Some (take k ps @ map (\<lambda>i. (fe_id (fde_at m fdt (of_nat i)), fe_addr (fde_at m fdt (of_nat i)))) [k ..< n] @ drop n ps)"
proof (induction "n - k" arbitrary: k ps)
  case 0
  then show ?case by simp
next
  case (Suc d)
  then have "[k ..< n] = k # [Suc k ..< n]" by (simp add: upt_conv_Cons)
  then show ?case using Suc.hyps(1) [of "Suc k"] Suc.hyps(2) Suc.prems
    by (simp add: Let_def take_Suc_conv_app_nth)
qed

lemma fill_parts_none: "k \<le> length ps \<Longrightarrow> length ps < n \<Longrightarrow> fill_parts m fdt [k ..< n] ps = None"
proof (induction "n - k" arbitrary: k ps)
  case 0
  then show ?case by simp
next
  case (Suc d)
  then have "[k ..< n] = k # [Suc k ..< n]" by (simp add: upt_conv_Cons)
  then show ?case using Suc.hyps(1) [of "Suc k"] Suc.hyps(2) Suc.prems by (simp add: Let_def)
qed

text \<open>C34: What the application is told about the partitions: \<open>set_sbl_share\<close> copies the id and
  address of every table entry, in order, exactly when the table has at most ten entries. With
  more (the table may have up to 31) it writes past the end of the ten-element array.\<close>

theorem sbl_share_partitions:
  assumes "length (sh_fdt_part share) = PART_SIZE"
  shows "set_sbl_share img_type bdf_addr m fdt share =
    (if unat (fdt_num_fde m fdt) \<le> PART_SIZE
     then Some \<lparr>sh_magic_num = APP_ARGS_MAGIC, sh_ver = SBL_SHARE_VER, sh_img_type = img_type, sh_bdf_addr = bdf_addr,
                sh_fdt_part = map (\<lambda>i. (fe_id (fde_at m fdt (of_nat i)), fe_addr (fde_at m fdt (of_nat i)))) [0 ..< unat (fdt_num_fde m fdt)]
                  @ drop (unat (fdt_num_fde m fdt)) (sh_fdt_part share)\<rparr>
     else None)"
  using assms by (auto simp: set_sbl_share_def fill_parts_some fill_parts_none)

theorem sbl_share_partitions_witness:
  "set_sbl_share 0 0x37A000 demo_fdt 0x208000 \<lparr>sh_magic_num = 0, sh_ver = 0, sh_img_type = 0, sh_bdf_addr = 0, sh_fdt_part = replicate 10 (0, 0)\<rparr>
     \<noteq> None
   \<and> set_sbl_share 0 0x37A000 (demo_fdt(0x208004 := 11)) 0x208000
       \<lparr>sh_magic_num = 0, sh_ver = 0, sh_img_type = 0, sh_bdf_addr = 0, sh_fdt_part = replicate 10 (0, 0)\<rparr> = None
   \<and> fst (fdt_get (demo_fdt(0x208004 := 11))) = BL_ERR_NONE"
proof -
  have n: "fdt_num_fde (demo_fdt(0x208004 := 11)) 0x208000 = 11"
    by (simp add: fdt_num_fde_def demo_fdt_def mem_read_4)
  have s: "fdt_signature (demo_fdt(0x208004 := 11)) 0x208000 = FDT_SIGNATURE"
    by (simp add: fdt_signature_def demo_fdt_def mem_read_4 FDT_SIGNATURE_def)
  have "fst (fdt_get (demo_fdt(0x208004 := 11))) = BL_ERR_NONE"
    by (simp add: fdt_get_def fdt_verify_def FDT_Start_Addr_def n s FDT_MAX_ENTRY_def)
  then show ?thesis
    using sbl_share_partitions [of "\<lparr>sh_magic_num = 0, sh_ver = 0, sh_img_type = 0, sh_bdf_addr = 0, sh_fdt_part = replicate 10 (0, 0)\<rparr>" 0 "0x37A000"]
    by (simp add: PART_SIZE_def n demo_fdt_num)
qed

end
