(* ===== verification/Bl_Rram.thy ===== *)
theory Bl_Rram
  imports Rram_Otp Nvm_Rram Fdt_Props
begin

text \<open>
  The word-by-word writer of the boot loader, the second half of \<^verbatim>\<open>qboot/system/nt_bl_mem.c\<close>:
  the set-up of the RRAM controller, the write of one word with its retries, and the write of
  a byte range in 16-byte blocks. The RRAM and the OTP area are byte memory, and a read
  returns what is stored; the controller is the parameter \<open>dev\<close>: what the \<open>t\<close>-th access to a
  register returns, and what the \<open>t\<close>-th write of a word leaves in the memory. A failing write
  may therefore store anything in its word, and the power domain may go off at any time.
\<close>

section \<open>Constants\<close>

definition EPERM :: int where "EPERM = 1"
definition EBADE :: int where "EBADE = 52"
definition NT_RRAM_NRETRIES :: nat where "NT_RRAM_NRETRIES = 5"
definition RRAM_BLOCK_LEN :: u32 where "RRAM_BLOCK_LEN = 16"
definition RRAM_WR_CHECK_VALUE :: u32 where "RRAM_WR_CHECK_VALUE = 0xA5"
definition QC_FORMED_MARKER_VAL :: u8 where "QC_FORMED_MARKER_VAL = 0x51"

definition QWLAN_RRAM_CTRL_RRAM_WR_DUR_TX_REG :: addr where "QWLAN_RRAM_CTRL_RRAM_WR_DUR_TX_REG = 0x01192428"
definition QWLAN_RRAM_CTRL_RRAM_TX_DUR_WR_REG :: addr where "QWLAN_RRAM_CTRL_RRAM_TX_DUR_WR_REG = 0x0119242C"
definition QWLAN_RRAM_CTRL_RRAM_ERROR_CNT_REG :: addr where "QWLAN_RRAM_CTRL_RRAM_ERROR_CNT_REG = 0x011927FC"
definition WR_DUR_TX_STATUS_MASK :: u32 where "WR_DUR_TX_STATUS_MASK = 1"
definition TX_DUR_WR_STATUS_MASK :: u32 where "TX_DUR_WR_STATUS_MASK = 1"

text \<open>The address of \<open>pte_region.site_tsmc\<close>: byte 22 of the OTP area.\<close>

definition site_tsmc_addr :: addr where "site_tsmc_addr = OTP_region_st_addr + 22"

definition rram_trc_config_qc :: "(addr \<times> u32) list" where
  "rram_trc_config_qc =
     [(0x00081000, 0x01), (0x000810C0, 0x00003A14), (0x00081090, 0x000007DD), (0x00081020, 0x00160400), (0x00081024, 0)]"

definition rram_trc_config :: "(addr \<times> u32) list" where
  "rram_trc_config = [(0x00081000, 0x01), (0x000810C0, 0x00003A14)]"

datatype nt_pwr_domain_status = PWR_DOMAIN_ON | PWR_DOMAIN_OFF

section \<open>The hardware\<close>

record bl_hw =
  bh_mem :: memory
  bh_reg :: reg_file
  bh_time :: nat

text \<open>\<open>rv_reg t r v\<close> is what the \<open>t\<close>-th access reads from register \<open>r\<close> when \<open>v\<close> was written to it
  last; \<open>rv_wr t a old v\<close> is what the word at \<open>a\<close> holds after \<open>v\<close> was written over \<open>old\<close>.\<close>

record rram_dev =
  rv_reg :: "nat \<Rightarrow> addr \<Rightarrow> u32 \<Rightarrow> u32"
  rv_wr :: "nat \<Rightarrow> addr \<Rightarrow> u32 \<Rightarrow> u32 \<Rightarrow> u32"

definition reg_rd :: "rram_dev \<Rightarrow> addr \<Rightarrow> bl_hw \<Rightarrow> u32 \<times> bl_hw" where
  "reg_rd dev r h = (rv_reg dev (bh_time h) r (bh_reg h r), h\<lparr>bh_time := bh_time h + 1\<rparr>)"

definition reg_wr :: "addr \<Rightarrow> u32 \<Rightarrow> bl_hw \<Rightarrow> bl_hw" where
  "reg_wr r v h = h\<lparr>bh_reg := (bh_reg h)(r := v)\<rparr>"

definition word_at :: "memory \<Rightarrow> addr \<Rightarrow> u32" where
  "word_at m a = le32 (mem_read m a 4)"

definition word_wr :: "rram_dev \<Rightarrow> addr \<Rightarrow> u32 \<Rightarrow> bl_hw \<Rightarrow> bl_hw" where
  "word_wr dev a v h =
     h\<lparr>bh_mem := mem_write (bh_mem h) a (le_bytes32 (rv_wr dev (bh_time h) a (word_at (bh_mem h) a) v)),
       bh_time := bh_time h + 1\<rparr>"

section \<open>Reading into a local variable\<close>

text \<open>\<open>nt_bl_rram_read\<close> with a local buffer as destination: the status and the bytes copied.\<close>

definition range_ok :: "memory \<Rightarrow> u32 \<Rightarrow> u32 \<Rightarrow> otp_lock \<Rightarrow> bool" where
  "range_ok m a n lk \<longleftrightarrow> rram_address_range_check (Suc (Suc 0)) m a n lk = Some 0"

definition bl_read :: "u32 \<Rightarrow> u32 \<Rightarrow> memory \<Rightarrow> int \<times> bytes" where
  "bl_read a n m = (if n = 0 \<or> \<not> range_ok m a n READ_LOCKED then (- EINVAL, []) else (0, mem_read m a (unat n)))"

text \<open>A read of one byte into a variable that holds \<open>v\<close> before.\<close>

definition bl_read_byte :: "u32 \<Rightarrow> u8 \<Rightarrow> memory \<Rightarrow> int \<times> u8" where
  "bl_read_byte a v m = (case bl_read a 1 m of (st, bs) \<Rightarrow> (st, if bs = [] then v else hd bs))"

section \<open>Setting up the controller\<close>

definition nt_rram_write_init :: "bl_hw \<Rightarrow> bl_hw" where
  "nt_rram_write_init h =
     (let form_flag = snd (bl_read_byte site_tsmc_addr 0 (bh_mem h));
          trc_config = (if form_flag = QC_FORMED_MARKER_VAL then rram_trc_config_qc else rram_trc_config)
      in fold (\<lambda>(address, value). reg_wr address value) trc_config h)"

definition nt_rram_cache_clear :: "rram_dev \<Rightarrow> bl_hw \<Rightarrow> bl_hw" where
  "nt_rram_cache_clear dev h =
     (case reg_rd dev QWLAN_CACHE_REGS_R_CACHECTRL_REG h of
        (cache_ctrl, h) \<Rightarrow>
          reg_wr QWLAN_CACHE_REGS_R_CACHECTRL_REG cache_ctrl
            (reg_wr QWLAN_CACHE_REGS_R_CACHECTRL_REG (cache_ctrl OR CACHECTRL_FLUSH_MASK) h))"

section \<open>Writing a word\<close>

definition rram_xip_status :: "rram_dev \<Rightarrow> bl_hw \<Rightarrow> nt_pwr_domain_status \<times> bl_hw" where
  "rram_xip_status dev h =
     (case reg_rd dev QWLAN_RRAM_CTRL_RRAM_ERROR_CNT_REG h of
        (v, h) \<Rightarrow> if v AND 0xFF \<noteq> RRAM_WR_CHECK_VALUE then (PWR_DOMAIN_OFF, nt_rram_write_init h) else (PWR_DOMAIN_ON, h))"

definition RRAM_WR_UNRELIABLE :: "rram_dev \<Rightarrow> bl_hw \<Rightarrow> bool \<times> bl_hw" where
  "RRAM_WR_UNRELIABLE dev h =
     (case reg_rd dev QWLAN_RRAM_CTRL_RRAM_TX_DUR_WR_REG h of
        (tx, h) \<Rightarrow> case reg_rd dev QWLAN_RRAM_CTRL_RRAM_WR_DUR_TX_REG h of
          (wr, h) \<Rightarrow> (tx AND TX_DUR_WR_STATUS_MASK \<noteq> 0 \<or> wr AND WR_DUR_TX_STATUS_MASK \<noteq> 0, h))"

text \<open>One pass of the retry loop; \<open>True\<close> is the \<open>break\<close>, \<open>False\<close> a \<open>continue\<close>.\<close>

definition rram_attempt :: "rram_dev \<Rightarrow> addr \<Rightarrow> u32 \<Rightarrow> bl_hw \<Rightarrow> bool \<times> bl_hw" where
  "rram_attempt dev address data h =
     (let h = reg_wr QWLAN_RRAM_CTRL_RRAM_ERROR_CNT_REG RRAM_WR_CHECK_VALUE h
      in case rram_xip_status dev h of
        (xip, h) \<Rightarrow>
          if xip = PWR_DOMAIN_OFF then (False, h)
          else case RRAM_WR_UNRELIABLE dev (word_wr dev address data h) of
            (unreliable, h) \<Rightarrow>
              if unreliable then (False, h)
              else if word_at (bh_mem h) address \<noteq> data then (False, h)
              else case rram_xip_status dev h of (xip, h) \<Rightarrow> (xip \<noteq> PWR_DOMAIN_OFF, h))"

primrec rram_retry :: "rram_dev \<Rightarrow> nat \<Rightarrow> addr \<Rightarrow> u32 \<Rightarrow> bl_hw \<Rightarrow> int \<times> bl_hw" where
  "rram_retry dev 0 address data h = (- EBADE, h)"
| "rram_retry dev (Suc n) address data h =
     (case rram_attempt dev address data h of (ok, h) \<Rightarrow> if ok then (0, h) else rram_retry dev n address data h)"

definition rram_write_status :: "rram_dev \<Rightarrow> addr \<Rightarrow> u32 \<Rightarrow> bl_hw \<Rightarrow> int \<times> bl_hw" where
  "rram_write_status dev address data h = rram_retry dev NT_RRAM_NRETRIES address data h"

section \<open>Writing a range\<close>

text \<open>The \<open>do\<close> loop that fills a block; at least one byte is copied. The source pointer and the
  remaining length are returned with the block.\<close>

function copy_to_block :: "memory \<Rightarrow> nat \<Rightarrow> source \<Rightarrow> u32 \<Rightarrow> bytes \<Rightarrow> bytes \<times> source \<times> u32" where
  "copy_to_block m byte_idx src len blk =
     (let blk = blk[byte_idx := src_byte m src];
          byte_idx = byte_idx + 1;
          src = advance src 1;
          len = len - 1
      in if byte_idx < unat RRAM_BLOCK_LEN \<and> len > 0 then copy_to_block m byte_idx src len blk else (blk, src, len))"
  by pat_completeness auto

termination
  by (relation "measure (\<lambda>(m, byte_idx, src, l, blk). unat RRAM_BLOCK_LEN - byte_idx)") auto

declare copy_to_block.simps [simp del]

primrec write_words :: "rram_dev \<Rightarrow> addr \<Rightarrow> bytes \<Rightarrow> nat list \<Rightarrow> bl_hw \<Rightarrow> int \<times> bl_hw" where
  "write_words dev block_addr blk [] h = (0, h)"
| "write_words dev block_addr blk (word_idx # ws) h =
     (case rram_write_status dev (block_addr + of_nat (4 * word_idx)) (le32 (drop (4 * word_idx) blk)) h of
        (st, h) \<Rightarrow> if st \<noteq> 0 then (- EBADE, h) else write_words dev block_addr blk ws h)"

text \<open>The loop over the blocks. \<open>dst_blk\<close> is a local union that is not initialised: its first
  content is an argument.\<close>

partial_function (option) write_range ::
    "rram_dev \<Rightarrow> addr \<Rightarrow> addr \<Rightarrow> nat \<Rightarrow> source \<Rightarrow> u32 \<Rightarrow> bytes \<Rightarrow> bl_hw \<Rightarrow> (int \<times> bl_hw) option" where
  "write_range dev block_addr last_block_addr byte_idx src len dst_blk h =
     (if block_addr \<le> last_block_addr then
        (case copy_to_block (bh_mem h) byte_idx src len
               (if byte_idx > 0 \<or> len < RRAM_BLOCK_LEN then mem_read (bh_mem h) block_addr 16 else dst_blk) of
           (dst_blk, src, len) \<Rightarrow>
             (case write_words dev block_addr dst_blk [0, 1, 2, 3] h of
                (st, h) \<Rightarrow>
                  if st \<noteq> 0 then Some (st, h)
                  else write_range dev (block_addr + RRAM_BLOCK_LEN) last_block_addr 0 src len dst_blk h))
      else Some (0, h))"

definition nt_bl_rram_write ::
    "rram_dev \<Rightarrow> bytes \<Rightarrow> addr \<Rightarrow> source \<Rightarrow> u32 \<Rightarrow> bl_hw \<Rightarrow> (int \<times> bl_hw) option" where
  "nt_bl_rram_write dev dst_blk dst wdata len h =
     (if len = 0 then Some (- EINVAL, h)
      else if \<not> range_ok (bh_mem h) dst len WRITE_LOCKED then Some (- EINVAL, h)
      else
        let first_block_addr = dst - (dst AND (RRAM_BLOCK_LEN - 1));
            last_block_addr = dst + (len - 1) - ((dst + len - 1) AND (RRAM_BLOCK_LEN - 1));
            byte_idx = unat (dst mod RRAM_BLOCK_LEN)
        in write_range dev first_block_addr last_block_addr byte_idx wdata len dst_blk h)"

end
