(* ===== verification/Qspi.thy ===== *)
theory Qspi
  imports Flash Bl_Rram
begin

text \<open>
  The driver of the QSPI controller, \<^verbatim>\<open>hal/hal/src/ferm_qspi.c\<close>, with the register functions of
  \<^verbatim>\<open>hal/hal/include/ferm_qspi_hal.h\<close> it calls, as the boot loader and the programmer build it
  (\<open>CONFIG_NON_OS\<close>). A command is queued as a chain of descriptors (a static array of eight,
  pointers into it are indices) whose short parts live in a static 128-byte transfer buffer;
  flushing the chain moves the bytes through the FIFOs of the controller. The controller with
  everything behind it is a parameter: what reading a register returns and what reading and
  writing do to it. \<open>None\<close> is a word access at an address that is not a multiple of four, or a
  loop that does not end.
\<close>

section \<open>Registers\<close>

datatype qspi_reg = QSPI_MSTR_CONFIG | QSPI_AHB_MASTER_CFG | QSPI_MSTR_INT_ENABLE | QSPI_MSTR_INT_STATUS
  | QSPI_PIO_TRANSFER_CONTROL | QSPI_PIO_TRANSFER_CONFIG | QSPI_PIO_TRANSFER_STATUS
  | QSPI_PIO_DATAOUT_1BYTE | QSPI_PIO_DATAOUT_4BYTE
  | QSPI_RD_FIFO_STATUS | QSPI_RD_FIFO_CONFIG | QSPI_RD_FIFO_RESET | QSPI_RD_FIFO nat
  | QSPI_XIP_MASTER_CFG | QSPI_XIP_MASTER_STATUS | QSPI_XIP_INST_PH_CONFIG | QSPI_XIP_DUMMY_PH_CONFIG
  | QSPI_XIP_SUSPEND_PH_CONFIG | QSPI_XIP_RESUME_PH_CONFIG
  | QSPI_XIP_REGION_SIZE nat | QSPI_XIP_REGION_SPI_BASE nat
  | PMU_BOOT_STRAP_CONFIG_SECURE | PMU_BOOT_STRAP_CONFIGURATION_STATUS
  | PMU_CFG_MCU_ACTIVE_STATE_RESOURCE_REQ | PMU_COMMON_QSPI_REF_CLK_DIV_RCGR | PMU_QSPI_GDSCR | PMU_QSPI_BCR
  | CCU_DISABLE_CLK_GATING

text \<open>\<open>qh_buf\<close> is the address the linker gave to \<open>qspi_transfer_buffer\<close>.\<close>

record 'd qspi_hw =
  qh_rd :: "qspi_reg \<Rightarrow> 'd \<Rightarrow> u32 \<times> 'd"
  qh_wr :: "qspi_reg \<Rightarrow> u32 \<Rightarrow> 'd \<Rightarrow> 'd"
  qh_buf :: addr

text \<open>A bit field of a register structure: reading it reads the register, assigning it reads the
  register and writes it back with the field replaced.\<close>

definition field_get :: "'d qspi_hw \<Rightarrow> qspi_reg \<Rightarrow> u32 \<Rightarrow> nat \<Rightarrow> 'd \<Rightarrow> u32 \<times> 'd" where
  "field_get hw r msk off d = (case qh_rd hw r d of (v, d) \<Rightarrow> (drop_bit off (v AND msk), d))"

definition field_set :: "'d qspi_hw \<Rightarrow> qspi_reg \<Rightarrow> u32 \<Rightarrow> nat \<Rightarrow> u32 \<Rightarrow> 'd \<Rightarrow> 'd" where
  "field_set hw r msk off x d =
     (case qh_rd hw r d of (v, d) \<Rightarrow> qh_wr hw r ((v AND NOT msk) OR (push_bit off x AND msk)) d)"

section \<open>The register functions\<close>

definition FERM_PMU_BOOT_STRAP_UNLOCK :: u32 where "FERM_PMU_BOOT_STRAP_UNLOCK = 0x63887466"

definition hal_qspi_enable_qspi :: "'d qspi_hw \<Rightarrow> u8 \<Rightarrow> u8 \<Rightarrow> 'd \<Rightarrow> 'd" where
  "hal_qspi_enable_qspi hw enable pads_option d =
     (let d = qh_wr hw PMU_BOOT_STRAP_CONFIG_SECURE FERM_PMU_BOOT_STRAP_UNLOCK d
      in if enable \<noteq> 0 then
           field_set hw PMU_BOOT_STRAP_CONFIGURATION_STATUS 0x80 7 (ucast pads_option)
             (qh_wr hw PMU_BOOT_STRAP_CONFIG_SECURE FERM_PMU_BOOT_STRAP_UNLOCK
               (field_set hw PMU_BOOT_STRAP_CONFIGURATION_STATUS 0x40 6 (ucast enable) d))
         else field_set hw PMU_BOOT_STRAP_CONFIGURATION_STATUS 0x40 6 (ucast enable) d)"

definition hal_qspi_mcu_enable_qspi :: "'d qspi_hw \<Rightarrow> 'd \<Rightarrow> 'd" where
  "hal_qspi_mcu_enable_qspi hw d =
     (case field_get hw PMU_CFG_MCU_ACTIVE_STATE_RESOURCE_REQ 0x1000 12 d of
        (value, d) \<Rightarrow> if value = 0 then field_set hw PMU_CFG_MCU_ACTIVE_STATE_RESOURCE_REQ 0x1000 12 1 d else d)"

definition hal_qspi_enable_clock_gating :: "'d qspi_hw \<Rightarrow> u8 \<Rightarrow> 'd \<Rightarrow> 'd" where
  "hal_qspi_enable_clock_gating hw enable d =
     (let x = (if enable \<noteq> 0 then 0 else 1)
      in field_set hw CCU_DISABLE_CLK_GATING 0x40000 18 x
           (field_set hw CCU_DISABLE_CLK_GATING 0x20000 17 x
             (field_set hw CCU_DISABLE_CLK_GATING 0x10000 16 x d)))"

definition hal_qspi_is_qspi_active :: "'d qspi_hw \<Rightarrow> 'd \<Rightarrow> u8 \<times> 'd" where
  "hal_qspi_is_qspi_active hw d = map_prod ucast id (field_get hw PMU_BOOT_STRAP_CONFIGURATION_STATUS 0x40 6 d)"

definition hal_qspi_set_clock :: "'d qspi_hw \<Rightarrow> u8 \<Rightarrow> 'd \<Rightarrow> 'd" where
  "hal_qspi_set_clock hw clock d = qh_wr hw PMU_COMMON_QSPI_REF_CLK_DIV_RCGR (ucast clock) d"

definition hal_qspi_qspi_gdscr_config :: "'d qspi_hw \<Rightarrow> 'd \<Rightarrow> 'd" where
  "hal_qspi_qspi_gdscr_config hw d =
     (case qh_rd hw PMU_QSPI_GDSCR d of
        (value, d) \<Rightarrow> qh_wr hw PMU_QSPI_GDSCR (value OR (push_bit 0x14 2 OR push_bit 0xC 2 OR push_bit 0x10 2)) d)"

definition hal_qspi_gdscr_pwr_ready :: "'d qspi_hw \<Rightarrow> 'd \<Rightarrow> u32 \<times> 'd" where
  "hal_qspi_gdscr_pwr_ready hw d = field_get hw PMU_QSPI_GDSCR 0x80000000 31 d"

definition hal_qspi_set_master_config_sbl_en :: "'d qspi_hw \<Rightarrow> u8 \<Rightarrow> 'd \<Rightarrow> 'd" where
  "hal_qspi_set_master_config_sbl_en hw enable d = field_set hw QSPI_MSTR_CONFIG 0x2000 13 (ucast enable) d"

definition hal_qspi_set_master_config_spi_mode :: "'d qspi_hw \<Rightarrow> u8 \<Rightarrow> 'd \<Rightarrow> 'd" where
  "hal_qspi_set_master_config_spi_mode hw mode d = field_set hw QSPI_MSTR_CONFIG 0xC00 10 (ucast mode) d"

definition hal_qspi_set_master_config_wpn :: "'d qspi_hw \<Rightarrow> u8 \<Rightarrow> 'd \<Rightarrow> 'd" where
  "hal_qspi_set_master_config_wpn hw enable d = field_set hw QSPI_MSTR_CONFIG 0x80 7 (ucast enable) d"

definition hal_qspi_set_master_config_holdn :: "'d qspi_hw \<Rightarrow> u8 \<Rightarrow> 'd \<Rightarrow> 'd" where
  "hal_qspi_set_master_config_holdn hw enable d = field_set hw QSPI_MSTR_CONFIG 0x40 6 (ucast enable) d"

definition hal_qspi_master_status_reset :: "'d qspi_hw \<Rightarrow> 'd \<Rightarrow> 'd" where
  "hal_qspi_master_status_reset hw d =
     (let d = qh_wr hw QSPI_AHB_MASTER_CFG 0x00001A02 d;
          d = qh_wr hw QSPI_MSTR_INT_ENABLE 0 d;
          d = qh_wr hw QSPI_MSTR_INT_STATUS 0xFFFFFFFF d;
          d = qh_wr hw QSPI_RD_FIFO_CONFIG 0 d;
          d = field_set hw QSPI_RD_FIFO_RESET 1 0 1 d
      in qh_wr hw QSPI_XIP_MASTER_CFG 0x4000 d)"

definition hal_qspi_pmu_qspi_bcr_reset :: "'d qspi_hw \<Rightarrow> 'd \<Rightarrow> 'd" where
  "hal_qspi_pmu_qspi_bcr_reset hw d = qh_wr hw PMU_QSPI_BCR 0 (qh_wr hw PMU_QSPI_BCR 1 d)"

definition hal_qspi_clear_isr_status :: "'d qspi_hw \<Rightarrow> 'd \<Rightarrow> 'd" where
  "hal_qspi_clear_isr_status hw d = qh_wr hw QSPI_MSTR_INT_STATUS 0xFFFFFFFF d"

definition hal_qspi_set_pio_config :: "'d qspi_hw \<Rightarrow> u8 \<Rightarrow> u8 \<Rightarrow> u8 \<Rightarrow> 'd \<Rightarrow> 'd" where
  "hal_qspi_set_pio_config hw write io_mode fragment d =
     (case qh_rd hw QSPI_PIO_TRANSFER_CONFIG d of
        (reg, d) \<Rightarrow>
          qh_wr hw QSPI_PIO_TRANSFER_CONFIG
            ((reg AND NOT (0xE OR 0x100 OR 0x1)) OR
             (ucast write OR push_bit 1 (ucast io_mode) OR push_bit 8 (ucast fragment))) d)"

definition hal_qspi_set_pio_transfer_control_request_count :: "'d qspi_hw \<Rightarrow> u16 \<Rightarrow> 'd \<Rightarrow> 'd" where
  "hal_qspi_set_pio_transfer_control_request_count hw request_count d =
     field_set hw QSPI_PIO_TRANSFER_CONTROL 0xFFFF 0 (ucast request_count) d"

definition hal_qspi_get_pio_transfer_wr_fifo_bytes :: "'d qspi_hw \<Rightarrow> 'd \<Rightarrow> u32 \<times> 'd" where
  "hal_qspi_get_pio_transfer_wr_fifo_bytes hw d = field_get hw QSPI_PIO_TRANSFER_STATUS 0xFFFF0000 16 d"

definition hal_qspi_check_pio_transaction_done :: "'d qspi_hw \<Rightarrow> 'd \<Rightarrow> u8 \<times> 'd" where
  "hal_qspi_check_pio_transaction_done hw d = map_prod ucast id (field_get hw QSPI_MSTR_INT_STATUS 0x10000 16 d)"

definition hal_qspi_pio_write_4bytes :: "'d qspi_hw \<Rightarrow> u32 \<Rightarrow> 'd \<Rightarrow> 'd" where
  "hal_qspi_pio_write_4bytes hw word_value d = qh_wr hw QSPI_PIO_DATAOUT_4BYTE word_value d"

definition hal_qspi_pio_write_1bytes :: "'d qspi_hw \<Rightarrow> u8 \<Rightarrow> 'd \<Rightarrow> 'd" where
  "hal_qspi_pio_write_1bytes hw byte_value d = field_set hw QSPI_PIO_DATAOUT_1BYTE 0xFF 0 (ucast byte_value) d"

definition hal_qspi_get_pio_rd_fifo_wrcnts :: "'d qspi_hw \<Rightarrow> 'd \<Rightarrow> u8 \<times> 'd" where
  "hal_qspi_get_pio_rd_fifo_wrcnts hw d = map_prod ucast id (field_get hw QSPI_RD_FIFO_STATUS 0x7F0 4 d)"

definition hal_qspi_get_pio_rd_fifo :: "'d qspi_hw \<Rightarrow> nat \<Rightarrow> 'd \<Rightarrow> u32 \<times> 'd" where
  "hal_qspi_get_pio_rd_fifo hw index d = qh_rd hw (QSPI_RD_FIFO index) d"

definition hal_qspi_xip_is_enabled :: "'d qspi_hw \<Rightarrow> 'd \<Rightarrow> u8 \<times> 'd" where
  "hal_qspi_xip_is_enabled hw d = map_prod ucast id (field_get hw QSPI_XIP_MASTER_CFG 1 0 d)"

definition hal_qspi_xip_enable :: "'d qspi_hw \<Rightarrow> u8 \<Rightarrow> 'd \<Rightarrow> 'd" where
  "hal_qspi_xip_enable hw enable d = field_set hw QSPI_XIP_MASTER_CFG 1 0 (ucast enable) d"

definition hal_qspi_get_xip_is_active :: "'d qspi_hw \<Rightarrow> 'd \<Rightarrow> u8 \<times> 'd" where
  "hal_qspi_get_xip_is_active hw d = map_prod ucast id (field_get hw QSPI_XIP_MASTER_STATUS 1 0 d)"

definition hal_qspi_xip_enable_program_erase_ongoing :: "'d qspi_hw \<Rightarrow> u8 \<Rightarrow> 'd \<Rightarrow> 'd" where
  "hal_qspi_xip_enable_program_erase_ongoing hw enable d = field_set hw QSPI_XIP_MASTER_CFG 8 3 (ucast enable) d"

definition hal_qspi_xip_set_suspend_opcode :: "'d qspi_hw \<Rightarrow> u8 \<Rightarrow> 'd \<Rightarrow> 'd" where
  "hal_qspi_xip_set_suspend_opcode hw opcode d = field_set hw QSPI_XIP_SUSPEND_PH_CONFIG 0xFF000000 24 (ucast opcode) d"

definition hal_qspi_xip_set_suspend_delay :: "'d qspi_hw \<Rightarrow> u16 \<Rightarrow> 'd \<Rightarrow> 'd" where
  "hal_qspi_xip_set_suspend_delay hw usecs d = field_set hw QSPI_XIP_SUSPEND_PH_CONFIG 0x3FF00 8 (ucast usecs) d"

definition hal_qspi_xip_enable_suspend :: "'d qspi_hw \<Rightarrow> u8 \<Rightarrow> 'd \<Rightarrow> 'd" where
  "hal_qspi_xip_enable_suspend hw enable d = field_set hw QSPI_XIP_SUSPEND_PH_CONFIG 1 0 (ucast enable) d"

definition hal_qspi_xip_set_resume_opcode :: "'d qspi_hw \<Rightarrow> u8 \<Rightarrow> 'd \<Rightarrow> 'd" where
  "hal_qspi_xip_set_resume_opcode hw opcode d = field_set hw QSPI_XIP_RESUME_PH_CONFIG 0xFF000000 24 (ucast opcode) d"

definition hal_qspi_xip_set_resume_delay :: "'d qspi_hw \<Rightarrow> u16 \<Rightarrow> 'd \<Rightarrow> 'd" where
  "hal_qspi_xip_set_resume_delay hw usecs d = field_set hw QSPI_XIP_RESUME_PH_CONFIG 0x3FF00 8 (ucast usecs) d"

definition hal_qspi_xip_resume_suspend :: "'d qspi_hw \<Rightarrow> u8 \<Rightarrow> 'd \<Rightarrow> 'd" where
  "hal_qspi_xip_resume_suspend hw enable d = field_set hw QSPI_XIP_RESUME_PH_CONFIG 1 0 (ucast enable) d"

definition hal_qspi_xip_ph_config :: "'d qspi_hw \<Rightarrow> u32 \<Rightarrow> u32 \<Rightarrow> 'd \<Rightarrow> 'd" where
  "hal_qspi_xip_ph_config hw ph_inst ph_dummy d =
     qh_wr hw QSPI_XIP_DUMMY_PH_CONFIG ph_dummy (field_set hw QSPI_XIP_INST_PH_CONFIG 0xFF000000 24 ph_inst d)"

definition hal_qspi_xip_region_config :: "'d qspi_hw \<Rightarrow> nat \<Rightarrow> u32 \<Rightarrow> u32 \<Rightarrow> 'd \<Rightarrow> 'd" where
  "hal_qspi_xip_region_config hw region_id region_size region_addr d =
     field_set hw (QSPI_XIP_REGION_SPI_BASE region_id) 0xFFFFF 0 region_addr
       (field_set hw (QSPI_XIP_REGION_SIZE region_id) 0x1FFF 0 region_size d)"

definition hal_qspi_xip_master_config_set :: "'d qspi_hw \<Rightarrow> u32 \<Rightarrow> 'd \<Rightarrow> 'd" where
  "hal_qspi_xip_master_config_set hw val d = qh_wr hw QSPI_XIP_MASTER_CFG val d"

definition hal_qspi_xip_master_config_get :: "'d qspi_hw \<Rightarrow> 'd \<Rightarrow> u32 \<times> 'd" where
  "hal_qspi_xip_master_config_get hw d = qh_rd hw QSPI_XIP_MASTER_CFG d"

definition hal_qspi_xip_master_config :: "'d qspi_hw \<Rightarrow> 'd \<Rightarrow> 'd" where
  "hal_qspi_xip_master_config hw d =
     (case qh_rd hw QSPI_XIP_MASTER_CFG d of
        (reg_val, d) \<Rightarrow> qh_wr hw QSPI_XIP_MASTER_CFG ((reg_val AND NOT 0xFF00) OR (0x4000 OR 0x80000 OR 0x1)) d)"

section \<open>Data of the driver\<close>

definition MAX_READ_WAIT :: nat where "MAX_READ_WAIT = 0x20000"
definition MAX_WRITE_WAIT :: nat where "MAX_WRITE_WAIT = 0x2000"
definition QSPI_SDR_2BIT_E :: u8 where "QSPI_SDR_2BIT_E = 2"
definition QSPI_SDR_4BIT_E :: u8 where "QSPI_SDR_4BIT_E = 3"
definition QSPI_DDR_1BIT_E :: u8 where "QSPI_DDR_1BIT_E = 5"
definition QSPI_DDR_2BIT_E :: u8 where "QSPI_DDR_2BIT_E = 6"
definition QSPI_DDR_4BIT_E :: u8 where "QSPI_DDR_4BIT_E = 7"

lemmas qspi_mode_defs = QSPI_SDR_1BIT_E_def QSPI_SDR_2BIT_E_def QSPI_SDR_4BIT_E_def
  QSPI_DDR_1BIT_E_def QSPI_DDR_2BIT_E_def QSPI_DDR_4BIT_E_def

datatype qspi_transfer_mode = QSPI_PIO_MODE_E | QSPI_DMA_POLL_MODE_E | QSPI_DMA_INT_MODE_E | QSPI_XIP_MODE_E

datatype qspi_transfer_dir = QSPI_MASTER_READ_E | QSPI_MASTER_WRITE_E

text \<open>\<open>next_descriptor\<close> points into \<open>qspi_descriptors\<close>, as an index; \<open>None\<close> is NULL.\<close>

record qspi_descriptor =
  qd_data_address :: addr
  qd_next_descriptor :: "nat option"
  qd_direction :: qspi_transfer_dir
  qd_multi_io_mode :: "3 word"
  qd_fragment :: bool
  qd_length :: u16
  qd_bounce_src :: addr
  qd_bounce_dst :: addr
  qd_bounce_length :: u32

record 'd qspi =
  q_mem :: memory
  q_descriptors :: "nat \<Rightarrow> qspi_descriptor"
  q_transfer_chain :: "nat option"
  q_free_ptr :: addr
  q_transfer_mode :: qspi_transfer_mode
  q_xip_init_done :: bool
  q_dev :: 'd

definition QSPI_NUM_DESCRIPTORS :: nat where "QSPI_NUM_DESCRIPTORS = 8"
definition QSPI_BUFFER_SIZE :: u32 where "QSPI_BUFFER_SIZE = 128"

definition zero_descriptor :: qspi_descriptor where
  "zero_descriptor =
     \<lparr>qd_data_address = 0, qd_next_descriptor = None, qd_direction = QSPI_MASTER_READ_E, qd_multi_io_mode = 0,
      qd_fragment = False, qd_length = 0, qd_bounce_src = 0, qd_bounce_dst = 0, qd_bounce_length = 0\<rparr>"

definition upd_desc :: "nat \<Rightarrow> (qspi_descriptor \<Rightarrow> qspi_descriptor) \<Rightarrow> 'd qspi \<Rightarrow> 'd qspi" where
  "upd_desc i f s = s\<lparr>q_descriptors := (q_descriptors s)(i := f (q_descriptors s i))\<rparr>"

section \<open>FIFO service\<close>

definition word_aligned :: "addr \<Rightarrow> bool" where
  "word_aligned a \<longleftrightarrow> a AND 3 = 0"

fun rx_words :: "'d qspi_hw \<Rightarrow> nat \<Rightarrow> nat \<Rightarrow> addr \<Rightarrow> memory \<Rightarrow> 'd \<Rightarrow> (memory \<times> 'd) option" where
  "rx_words hw i 0 ptr m d = Some (m, d)"
| "rx_words hw i (Suc n) ptr m d =
     (if \<not> word_aligned ptr then None
      else case hal_qspi_get_pio_rd_fifo hw i d of
        (word_value, d) \<Rightarrow> rx_words hw (Suc i) n (ptr + 4) (mem_write m ptr (le_bytes32 word_value)) d)"

definition drv_qspi_service_rxfifo ::
    "'d qspi_hw \<Rightarrow> addr \<Rightarrow> u32 \<Rightarrow> memory \<Rightarrow> 'd \<Rightarrow> (u32 \<times> memory \<times> 'd) option" where
  "drv_qspi_service_rxfifo hw ptr num_bytes m d =
     (let full_words = drop_bit 2 num_bytes;
          partial_bytes = num_bytes AND 3
      in case hal_qspi_get_pio_rd_fifo_wrcnts hw d of
        (bytes_in_fifo, d) \<Rightarrow>
          let words_in_fifo = drop_bit 2 bytes_in_fifo;
              words_to_read = (if ucast words_in_fifo < full_words then ucast words_in_fifo else full_words);
              bytes_to_read = (if ucast bytes_in_fifo < num_bytes then 0 else partial_bytes)
          in case rx_words hw 0 (unat words_to_read) ptr m d of
            None \<Rightarrow> None
          | Some (m, d) \<Rightarrow>
              if bytes_to_read \<noteq> 0 then
                case hal_qspi_get_pio_rd_fifo hw (unat words_to_read) d of
                  (word_value, d) \<Rightarrow>
                    Some (words_to_read * 4 + bytes_to_read,
                      mem_write m (ptr + words_to_read * 4)
                        (map (\<lambda>i. ucast (drop_bit (i * 8) word_value)) [0..<unat bytes_to_read]), d)
              else Some (words_to_read * 4 + bytes_to_read, m, d))"

fun tx_words :: "'d qspi_hw \<Rightarrow> nat \<Rightarrow> addr \<Rightarrow> memory \<Rightarrow> 'd \<Rightarrow> 'd option" where
  "tx_words hw 0 ptr m d = Some d"
| "tx_words hw (Suc n) ptr m d =
     (if \<not> word_aligned ptr then None
      else tx_words hw n (ptr + 4) m (hal_qspi_pio_write_4bytes hw (word_at m ptr) d))"

fun tx_bytes :: "'d qspi_hw \<Rightarrow> nat \<Rightarrow> addr \<Rightarrow> memory \<Rightarrow> 'd \<Rightarrow> 'd" where
  "tx_bytes hw 0 ptr m d = d"
| "tx_bytes hw (Suc n) ptr m d = tx_bytes hw n (ptr + 1) m (hal_qspi_pio_write_1bytes hw (m ptr) d)"

definition drv_qspi_service_txfifo :: "'d qspi_hw \<Rightarrow> addr \<Rightarrow> u32 \<Rightarrow> memory \<Rightarrow> 'd \<Rightarrow> (u32 \<times> 'd) option" where
  "drv_qspi_service_txfifo hw ptr num_bytes m d =
     (let full_words = drop_bit 2 num_bytes;
          partial_bytes = num_bytes AND 3
      in case hal_qspi_get_pio_transfer_wr_fifo_bytes hw d of
        (room_in_bytes, d) \<Rightarrow>
          let room_in_words = drop_bit 2 room_in_bytes;
              words_to_send = (if full_words > room_in_words then room_in_words else full_words);
              bytes_to_send = (if num_bytes > room_in_bytes then 0 else partial_bytes)
          in map_option
               (\<lambda>d. (words_to_send * 4 + bytes_to_send,
                     tx_bytes hw (unat bytes_to_send) (ptr + words_to_send * 4) m d))
               (tx_words hw (unat words_to_send) ptr m d))"

section \<open>PIO transfers\<close>

text \<open>The polling loop of a read: what is left to read, the retry counter, memory and device.\<close>

function rx_poll ::
    "'d qspi_hw \<Rightarrow> addr \<Rightarrow> u32 \<Rightarrow> nat \<Rightarrow> memory \<Rightarrow> 'd \<Rightarrow> (u32 \<times> nat \<times> memory \<times> 'd) option" where
  "rx_poll hw ptr bytes_left retry m d =
     (if bytes_left = 0 then Some (bytes_left, retry, m, d)
      else if retry < MAX_READ_WAIT then
        (case drv_qspi_service_rxfifo hw ptr bytes_left m d of
           None \<Rightarrow> None
         | Some (bytes_read, m, d) \<Rightarrow> rx_poll hw (ptr + bytes_read) (bytes_left - bytes_read) (retry + 1) m d)
      else Some (bytes_left, retry + 1, m, d))"
  by pat_completeness auto

termination
  by (relation "measure (\<lambda>(hw, ptr, l, retry, m, d). MAX_READ_WAIT - retry)") auto

declare rx_poll.simps [simp del]

text \<open>The first component of a transfer tells whether the timeout message is printed.\<close>

definition drv_qspi_pio_read ::
    "'d qspi_hw \<Rightarrow> addr \<Rightarrow> u32 \<Rightarrow> u8 \<Rightarrow> u8 \<Rightarrow> u8 \<Rightarrow> memory \<Rightarrow> 'd \<Rightarrow> (bool \<times> memory \<times> 'd) option" where
  "drv_qspi_pio_read hw buffer num_bytes write io_mode fragment m d =
     (let d = hal_qspi_set_pio_config hw write io_mode fragment d;
          d = hal_qspi_set_pio_transfer_control_request_count hw (ucast num_bytes) d
      in map_option (\<lambda>(bytes_left, retry, m, d). (retry = MAX_READ_WAIT, m, d)) (rx_poll hw buffer num_bytes 0 m d))"

partial_function (option) tx_poll :: "'d qspi_hw \<Rightarrow> addr \<Rightarrow> u32 \<Rightarrow> memory \<Rightarrow> 'd \<Rightarrow> 'd option" where
  "tx_poll hw ptr bytes_left m d =
     (if bytes_left = 0 then Some d
      else do {
        (bytes_written, d) \<leftarrow> drv_qspi_service_txfifo hw ptr bytes_left m d;
        tx_poll hw (ptr + bytes_written) (bytes_left - bytes_written) m d
      })"

function done_poll :: "'d qspi_hw \<Rightarrow> nat \<Rightarrow> 'd \<Rightarrow> nat \<times> 'd" where
  "done_poll hw retry d =
     (case hal_qspi_check_pio_transaction_done hw d of
        (finished, d) \<Rightarrow>
          if finished \<noteq> 0 then (retry, d)
          else if retry \<ge> MAX_WRITE_WAIT then (retry + 1, d)
          else done_poll hw (retry + 1) d)"
  by pat_completeness auto

termination
  by (relation "measure (\<lambda>(hw, retry, d). MAX_WRITE_WAIT - retry)") auto

declare done_poll.simps [simp del]

definition drv_qspi_pio_write ::
    "'d qspi_hw \<Rightarrow> addr \<Rightarrow> u32 \<Rightarrow> u8 \<Rightarrow> u8 \<Rightarrow> u8 \<Rightarrow> memory \<Rightarrow> 'd \<Rightarrow> (bool \<times> 'd) option" where
  "drv_qspi_pio_write hw buffer num_bytes write io_mode fragment m d =
     (let d = hal_qspi_clear_isr_status hw d;
          d = hal_qspi_set_pio_config hw write io_mode fragment d;
          d = hal_qspi_set_pio_transfer_control_request_count hw (ucast num_bytes) d
      in map_option (\<lambda>d. case done_poll hw 0 d of (retry, d) \<Rightarrow> (retry = MAX_WRITE_WAIT, d))
           (tx_poll hw buffer num_bytes m d))"

definition run_descriptor :: "'d qspi_hw \<Rightarrow> qspi_descriptor \<Rightarrow> memory \<Rightarrow> 'd \<Rightarrow> (memory \<times> 'd) option" where
  "run_descriptor hw pdesc m d =
     (if qd_direction pdesc = QSPI_MASTER_WRITE_E then
        map_option (\<lambda>(_, d). (m, d))
          (drv_qspi_pio_write hw (qd_data_address pdesc) (ucast (qd_length pdesc)) 1
             (ucast (qd_multi_io_mode pdesc)) (of_bool (qd_fragment pdesc)) m d)
      else
        map_option snd
          (drv_qspi_pio_read hw (qd_data_address pdesc) (ucast (qd_length pdesc)) 0
             (ucast (qd_multi_io_mode pdesc)) (of_bool (qd_fragment pdesc)) m d))"

partial_function (option) drv_qspi_pio_transfer_chain ::
    "'d qspi_hw \<Rightarrow> (nat \<Rightarrow> qspi_descriptor) \<Rightarrow> nat option \<Rightarrow> memory \<Rightarrow> 'd \<Rightarrow> (memory \<times> 'd) option" where
  "drv_qspi_pio_transfer_chain hw descs pdesc m d =
     (case pdesc of
        None \<Rightarrow> Some (m, d)
      | Some i \<Rightarrow> do {
          (m, d) \<leftarrow> run_descriptor hw (descs i) m d;
          drv_qspi_pio_transfer_chain hw descs (qd_next_descriptor (descs i)) m d
        })"

section \<open>The descriptor chain\<close>

text \<open>The byte loops \<open>pdst[i] = psrc[i]\<close>, forwards.\<close>

fun copy_bytes :: "nat \<Rightarrow> addr \<Rightarrow> addr \<Rightarrow> memory \<Rightarrow> memory" where
  "copy_bytes 0 dst src m = m"
| "copy_bytes (Suc n) dst src m = copy_bytes n (dst + 1) (src + 1) (m(dst := m src))"

partial_function (option) bounce_chain ::
    "(nat \<Rightarrow> qspi_descriptor) \<Rightarrow> nat option \<Rightarrow> memory \<Rightarrow> memory option" where
  "bounce_chain descs pdesc m =
     (case pdesc of
        None \<Rightarrow> Some m
      | Some i \<Rightarrow>
          bounce_chain descs (qd_next_descriptor (descs i))
            (copy_bytes (unat (qd_bounce_length (descs i))) (qd_bounce_dst (descs i)) (qd_bounce_src (descs i)) m))"

definition drv_qspi_flush_chain :: "'d qspi_hw \<Rightarrow> qspi_transfer_mode \<Rightarrow> 'd qspi \<Rightarrow> 'd qspi option" where
  "drv_qspi_flush_chain hw transfer_mode s =
     do {
       s' \<leftarrow> (if transfer_mode = QSPI_PIO_MODE_E then do {
                (m, d) \<leftarrow> drv_qspi_pio_transfer_chain hw (q_descriptors s) (q_transfer_chain s) (q_mem s) (q_dev s);
                Some (s\<lparr>q_mem := m, q_dev := d\<rparr>)
              } else Some s);
       if transfer_mode \<noteq> QSPI_DMA_INT_MODE_E then do {
         m \<leftarrow> bounce_chain (q_descriptors s') (q_transfer_chain s') (q_mem s');
         Some (s'\<lparr>q_mem := m, q_free_ptr := qh_buf hw, q_transfer_chain := None\<rparr>)
       } else Some s'
     }"

partial_function (option) last_from :: "(nat \<Rightarrow> qspi_descriptor) \<Rightarrow> nat \<Rightarrow> nat option" where
  "last_from descs i =
     (case qd_next_descriptor (descs i) of None \<Rightarrow> Some i | Some j \<Rightarrow> last_from descs j)"

text \<open>The outer option is non-termination on a cyclic chain, the inner one NULL.\<close>

definition drv_qspi_get_last_descriptor :: "'d qspi \<Rightarrow> nat option option" where
  "drv_qspi_get_last_descriptor s =
     (case q_transfer_chain s of None \<Rightarrow> Some None | Some i \<Rightarrow> map_option Some (last_from (q_descriptors s) i))"

definition alignment_of :: "qspi_transfer_mode \<Rightarrow> u32" where
  "alignment_of transfer_mode = (if transfer_mode \<noteq> QSPI_PIO_MODE_E then 32 else 4)"

definition align_up :: "u32 \<Rightarrow> addr \<Rightarrow> addr" where
  "align_up alignment p = (p + alignment - 1) AND NOT (alignment - 1)"

definition drv_qspi_alloc_descriptor ::
    "'d qspi_hw \<Rightarrow> u32 \<Rightarrow> qspi_transfer_mode \<Rightarrow> 'd qspi \<Rightarrow> (nat \<times> 'd qspi) option" where
  "drv_qspi_alloc_descriptor hw bytes_needed transfer_mode s =
     do {
       let free_ptr = align_up (alignment_of transfer_mode) (q_free_ptr s);
       let room = qh_buf hw + QSPI_BUFFER_SIZE - free_ptr;
       current \<leftarrow> drv_qspi_get_last_descriptor s;
       let next = (case current of Some i \<Rightarrow> i + 1 | None \<Rightarrow> 0);
       (free_ptr, current, next, s) \<leftarrow>
         (if room < bytes_needed \<or> next \<ge> QSPI_NUM_DESCRIPTORS then
            map_option (\<lambda>s. (qh_buf hw, None, 0, s))
              (drv_qspi_flush_chain hw
                (if transfer_mode \<noteq> QSPI_DMA_INT_MODE_E then transfer_mode else QSPI_DMA_POLL_MODE_E) s)
          else Some (free_ptr, current, next, s));
       let s = upd_desc next (\<lambda>_. zero_descriptor\<lparr>qd_data_address := (if bytes_needed \<noteq> 0 then free_ptr else 0),
                                qd_direction := QSPI_MASTER_READ_E, qd_fragment := True\<rparr>) s;
       Some (next,
         (case current of
            Some i \<Rightarrow> upd_desc i (\<lambda>p. p\<lparr>qd_next_descriptor := Some next\<rparr>) s
          | None \<Rightarrow> s\<lparr>q_transfer_chain := Some next\<rparr>))
     }"

definition drv_qspi_get_available_room :: "'d qspi_hw \<Rightarrow> qspi_descriptor \<Rightarrow> u32" where
  "drv_qspi_get_available_room hw pdesc =
     (let end_of_buffer = qh_buf hw + QSPI_BUFFER_SIZE
      in if qd_data_address pdesc < qh_buf hw \<or> qd_data_address pdesc \<ge> end_of_buffer then 0
         else end_of_buffer - (qd_data_address pdesc + ucast (qd_length pdesc)))"

section \<open>Queueing a command\<close>

text \<open>\<open>data\<close> is a local array of the caller or points to memory; \<open>bounce_dst\<close> takes its address,
  which only a client buffer that is read into ever needs.\<close>

definition source_addr :: "source \<Rightarrow> addr" where
  "source_addr src = (case src of Src_mem a \<Rightarrow> a | Src_buf bs \<Rightarrow> 0)"

definition copy_in :: "nat \<Rightarrow> addr \<Rightarrow> source \<Rightarrow> memory \<Rightarrow> memory" where
  "copy_in n ptr src m = (case src of Src_mem a \<Rightarrow> copy_bytes n ptr a m | Src_buf bs \<Rightarrow> mem_write m ptr (take n bs))"

definition drv_qspi_set_descriptor ::
    "'d qspi_hw \<Rightarrow> source \<Rightarrow> u32 \<Rightarrow> u8 \<Rightarrow> qspi_transfer_dir \<Rightarrow> qspi_transfer_mode \<Rightarrow> 'd qspi \<Rightarrow> 'd qspi option" where
  "drv_qspi_set_descriptor hw data data_bytes mode direction transfer_mode s =
     (if data_bytes = 0 \<or> data = Src_mem 0 then Some s
      else do {
        pdesc \<leftarrow> drv_qspi_get_last_descriptor s;
        (i, s) \<leftarrow>
          (case pdesc of
             Some i \<Rightarrow>
               if qd_direction (q_descriptors s i) \<noteq> direction \<or> ucast (qd_multi_io_mode (q_descriptors s i)) \<noteq> mode
                  \<or> drv_qspi_get_available_room hw (q_descriptors s i) < data_bytes
               then map_option (\<lambda>(i, s). (i, upd_desc i (\<lambda>p. p\<lparr>qd_direction := direction, qd_multi_io_mode := ucast mode\<rparr>) s))
                      (drv_qspi_alloc_descriptor hw data_bytes transfer_mode s)
               else Some (i, s)
           | None \<Rightarrow> map_option (\<lambda>(i, s). (i, upd_desc i (\<lambda>p. p\<lparr>qd_direction := direction, qd_multi_io_mode := ucast mode\<rparr>) s))
                      (drv_qspi_alloc_descriptor hw data_bytes transfer_mode s));
        let p = q_descriptors s i;
        let ptr = qd_data_address p + ucast (qd_length p);
        let s = (if direction = QSPI_MASTER_WRITE_E then s\<lparr>q_mem := copy_in (unat data_bytes) ptr data (q_mem s)\<rparr>
                 else upd_desc i (\<lambda>p. p\<lparr>qd_bounce_src := ptr, qd_bounce_dst := source_addr data, qd_bounce_length := data_bytes\<rparr>) s);
        let s = upd_desc i (\<lambda>p. p\<lparr>qd_length := ucast ((ucast (qd_length p) :: u32) + data_bytes)\<rparr>) s;
        let p = q_descriptors s i;
        Some (s\<lparr>q_free_ptr := qd_data_address p + ucast (qd_length p)\<rparr>)
      })"

definition drv_qspi_queue_opcode :: "'d qspi_hw \<Rightarrow> u8 \<Rightarrow> u8 \<Rightarrow> qspi_transfer_mode \<Rightarrow> 'd qspi \<Rightarrow> 'd qspi option" where
  "drv_qspi_queue_opcode hw opcode cmd_mode transfer_mode s =
     drv_qspi_set_descriptor hw (Src_buf [opcode]) 1 cmd_mode QSPI_MASTER_WRITE_E transfer_mode s"

text \<open>The address goes out most significant byte first.\<close>

definition write_addr :: "u32 \<Rightarrow> nat \<Rightarrow> bytes" where
  "write_addr address addr_bytes = map (\<lambda>i. ucast (drop_bit ((i - 1) * 8) address)) (rev [1..<addr_bytes + 1])"

definition drv_qspi_queue_addr ::
    "'d qspi_hw \<Rightarrow> u32 \<Rightarrow> u8 \<Rightarrow> u8 \<Rightarrow> qspi_transfer_mode \<Rightarrow> 'd qspi \<Rightarrow> 'd qspi option" where
  "drv_qspi_queue_addr hw address addr_bytes addr_mode transfer_mode s =
     (if addr_bytes = 0 then Some s
      else drv_qspi_set_descriptor hw (Src_buf (write_addr address (unat addr_bytes))) (ucast addr_bytes) addr_mode
             QSPI_MASTER_WRITE_E transfer_mode s)"

definition clocks_per_bytes :: "u8 \<Rightarrow> u32 option" where
  "clocks_per_bytes mode =
     (if mode = QSPI_SDR_1BIT_E then Some 8
      else if mode = QSPI_SDR_2BIT_E then Some 4
      else if mode = QSPI_SDR_4BIT_E then Some 2
      else if mode = QSPI_DDR_1BIT_E then Some 4
      else if mode = QSPI_DDR_2BIT_E then Some 2
      else if mode = QSPI_DDR_4BIT_E then Some 1
      else None)"

text \<open>The end of \<open>drv_qspi_queue_dummy\<close>: the dummy bytes at \<open>ptr\<close>.\<close>

definition fill_dummy :: "nat \<Rightarrow> addr \<Rightarrow> u32 \<Rightarrow> 'd qspi \<Rightarrow> 'd qspi" where
  "fill_dummy i ptr dummy_bytes s =
     (let s = s\<lparr>q_mem := mem_write (q_mem s) ptr (replicate (unat dummy_bytes) 0xFF)\<rparr>;
          s = upd_desc i (\<lambda>p. p\<lparr>qd_length := ucast ((ucast (qd_length p) :: u32) + dummy_bytes)\<rparr>) s;
          p = q_descriptors s i
      in s\<lparr>q_free_ptr := qd_data_address p + ucast (qd_length p)\<rparr>)"

text \<open>Its middle, when the dummy bytes do not fit behind the last descriptor.\<close>

definition alloc_dummy :: "'d qspi_hw \<Rightarrow> u8 \<Rightarrow> qspi_transfer_mode \<Rightarrow> 'd qspi \<Rightarrow> 'd qspi option" where
  "alloc_dummy hw dummy_clocks transfer_mode s =
     do {
       let dummy_bytes = ucast dummy_clocks div 2;
       (i, s) \<leftarrow> drv_qspi_alloc_descriptor hw dummy_bytes transfer_mode s;
       let s = upd_desc i (\<lambda>p. p\<lparr>qd_direction := QSPI_MASTER_WRITE_E, qd_multi_io_mode := ucast QSPI_SDR_4BIT_E\<rparr>) s;
       Some (fill_dummy i (qd_data_address (q_descriptors s i)) dummy_bytes s)
     }"

definition drv_qspi_queue_dummy :: "'d qspi_hw \<Rightarrow> u8 \<Rightarrow> qspi_transfer_mode \<Rightarrow> 'd qspi \<Rightarrow> 'd qspi option" where
  "drv_qspi_queue_dummy hw dummy_clocks transfer_mode s =
     (if dummy_clocks = 0 then Some s
      else do {
        pdesc \<leftarrow> drv_qspi_get_last_descriptor s;
        case pdesc of
          None \<Rightarrow> alloc_dummy hw dummy_clocks transfer_mode s
        | Some i \<Rightarrow>
            let p = q_descriptors s i
            in if qd_direction p = QSPI_MASTER_WRITE_E then
                 (case clocks_per_bytes (ucast (qd_multi_io_mode p)) of
                    None \<Rightarrow> Some s
                  | Some clocks \<Rightarrow>
                      let dummy_bytes = ucast dummy_clocks div clocks;
                          remainder = ucast dummy_clocks mod clocks;
                          ptr = (if remainder = 0 \<and> drv_qspi_get_available_room hw p \<ge> dummy_bytes
                                 then qd_data_address p + ucast (qd_length p) else 0)
                      in if ptr = 0 then alloc_dummy hw dummy_clocks transfer_mode s
                         else Some (fill_dummy i ptr dummy_bytes s))
               else alloc_dummy hw dummy_clocks transfer_mode s
      })"

definition dir_of :: "bool \<Rightarrow> qspi_transfer_dir" where
  "dir_of write = (if write then QSPI_MASTER_WRITE_E else QSPI_MASTER_READ_E)"

function drv_qspi_queue_data_direct ::
    "'d qspi_hw \<Rightarrow> addr \<Rightarrow> u32 \<Rightarrow> u8 \<Rightarrow> bool \<Rightarrow> qspi_transfer_mode \<Rightarrow> 'd qspi \<Rightarrow> 'd qspi option" where
  "drv_qspi_queue_data_direct hw data data_bytes data_mode write transfer_mode s =
     (if data_bytes = 0 then Some s
      else
        let chunk_size = (if data_bytes > 0xFFE0 then 0xFFE0 else data_bytes)
        in case drv_qspi_alloc_descriptor hw 0 transfer_mode s of
          None \<Rightarrow> None
        | Some (i, s) \<Rightarrow>
            drv_qspi_queue_data_direct hw (data + chunk_size) (data_bytes - chunk_size) data_mode write transfer_mode
              (upd_desc i (\<lambda>p. p\<lparr>qd_direction := dir_of write, qd_multi_io_mode := ucast data_mode,
                               qd_data_address := data, qd_length := ucast chunk_size\<rparr>) s))"
  by pat_completeness auto

termination
proof (relation "measure (\<lambda>(hw, data, n, mode, write, tm, s). unat n)", goal_cases)
  case 1
  then show ?case by simp
next
  case (2 hw data n mode wr tm s chunk a i s')
  have "0 < chunk" "chunk \<le> n" using 2(1,2) by (auto simp: word_neq_0_conv)
  then have "unat (n - chunk) < unat n" by (simp add: unat_sub word_le_nat_alt word_less_nat_alt)
  then show ?case by simp
qed

declare drv_qspi_queue_data_direct.simps [simp del]

definition drv_qspi_queue_data ::
    "'d qspi_hw \<Rightarrow> addr \<Rightarrow> u32 \<Rightarrow> u8 \<Rightarrow> bool \<Rightarrow> qspi_transfer_mode \<Rightarrow> 'd qspi \<Rightarrow> 'd qspi option" where
  "drv_qspi_queue_data hw data data_bytes data_mode write transfer_mode s =
     (if data_bytes = 0 then Some s
      else do {
        let aligned_ptr = align_up (alignment_of transfer_mode) data;
        let prolog_bytes = (if aligned_ptr - data > data_bytes then data_bytes else aligned_ptr - data);
        let epilog_bytes = (if transfer_mode \<noteq> QSPI_PIO_MODE_E \<and> \<not> write then (data_bytes - prolog_bytes) AND 3 else 0);
        let aligned_bytes = data_bytes - prolog_bytes - epilog_bytes;
        let epilog_ptr = data + prolog_bytes + aligned_bytes;
        let (prolog_bytes, epilog_bytes) =
          (if aligned_bytes = 0 then (prolog_bytes + epilog_bytes, 0) else (prolog_bytes, epilog_bytes));
        s \<leftarrow> (if prolog_bytes \<noteq> 0
              then drv_qspi_set_descriptor hw (Src_mem data) prolog_bytes data_mode (dir_of write) transfer_mode s
              else Some s);
        s \<leftarrow> (if aligned_bytes \<noteq> 0
              then drv_qspi_queue_data_direct hw aligned_ptr aligned_bytes data_mode write transfer_mode s
              else Some s);
        if epilog_bytes \<noteq> 0
        then drv_qspi_set_descriptor hw (Src_mem epilog_ptr) epilog_bytes data_mode (dir_of write) transfer_mode s
        else Some s
      })"

section \<open>The interface\<close>

partial_function (option) wait_pwr_ready :: "'d qspi_hw \<Rightarrow> 'd \<Rightarrow> 'd option" where
  "wait_pwr_ready hw d = (case hal_qspi_gdscr_pwr_ready hw d of (v, d) \<Rightarrow> if v \<noteq> 0 then Some d else wait_pwr_ready hw d)"

definition drv_qspi_init :: "'d qspi_hw \<Rightarrow> u32 \<Rightarrow> 'd qspi \<Rightarrow> (bool \<times> 'd qspi) option" where
  "drv_qspi_init hw clk_freq s =
     do {
       let d = hal_qspi_mcu_enable_qspi hw (q_dev s);
       let d = hal_qspi_enable_qspi hw 1 1 d;
       let d = hal_qspi_set_clock hw (ucast clk_freq) d;
       d \<leftarrow> wait_pwr_ready hw (hal_qspi_qspi_gdscr_config hw d);
       let d = hal_qspi_enable_clock_gating hw 0 d;
       let d = hal_qspi_set_master_config_wpn hw 1 d;
       let d = hal_qspi_set_master_config_holdn hw 1 d;
       let (xip, d) = hal_qspi_xip_is_enabled hw d;
       let d = (if xip = 0 then hal_qspi_master_status_reset hw d else d);
       Some (True, s\<lparr>q_dev := d, q_transfer_mode := QSPI_PIO_MODE_E, q_free_ptr := qh_buf hw\<rparr>)
     }"

definition drv_qspi_deinit :: "'d qspi_hw \<Rightarrow> 'd qspi \<Rightarrow> bool \<times> 'd qspi" where
  "drv_qspi_deinit hw s =
     (True, s\<lparr>q_dev := hal_qspi_enable_qspi hw 0 0 (hal_qspi_enable_clock_gating hw 1 (hal_qspi_master_status_reset hw (q_dev s)))\<rparr>)"

definition qspi_run_cmd ::
    "'d qspi_hw \<Rightarrow> qspi_cmd option \<Rightarrow> u32 \<Rightarrow> addr \<Rightarrow> u32 \<Rightarrow> qspi_transfer_mode \<Rightarrow> 'd qspi \<Rightarrow> (bool \<times> 'd qspi) option" where
  "qspi_run_cmd hw pcmd address data data_bytes transfer_mode s =
     (case pcmd of
        None \<Rightarrow> Some (False, s)
      | Some cmd \<Rightarrow>
          if qc_addr_bytes cmd > 4 \<or> qc_dummy_clocks cmd > 16 then Some (False, s)
          else do {
            s \<leftarrow> drv_qspi_queue_opcode hw (qc_opcode cmd) (qc_cmd_mode cmd) transfer_mode s;
            s \<leftarrow> drv_qspi_queue_addr hw address (qc_addr_bytes cmd) (qc_addr_mode cmd) transfer_mode s;
            s \<leftarrow> drv_qspi_queue_dummy hw (qc_dummy_clocks cmd) transfer_mode s;
            s \<leftarrow> drv_qspi_queue_data hw data data_bytes (qc_data_mode cmd) (qc_write cmd) transfer_mode s;
            pdesc \<leftarrow> drv_qspi_get_last_descriptor s;
            i \<leftarrow> pdesc;
            s \<leftarrow> drv_qspi_flush_chain hw transfer_mode (upd_desc i (\<lambda>p. p\<lparr>qd_fragment := False\<rparr>) s);
            Some (True, s)
          })"

partial_function (option) wait_xip_inactive :: "'d qspi_hw \<Rightarrow> 'd \<Rightarrow> 'd option" where
  "wait_xip_inactive hw d =
     (case hal_qspi_get_xip_is_active hw d of (v, d) \<Rightarrow> if v = 0 then Some d else wait_xip_inactive hw d)"

definition drv_qspi_disable_xip_mode :: "'d qspi_hw \<Rightarrow> 'd qspi \<Rightarrow> (bool \<times> 'd qspi) option" where
  "drv_qspi_disable_xip_mode hw s =
     (case hal_qspi_xip_is_enabled hw (q_dev s) of
        (xip, d) \<Rightarrow>
          if xip = 0 then Some (True, s\<lparr>q_dev := d\<rparr>)
          else map_option (\<lambda>d. (True, s\<lparr>q_dev := d\<rparr>)) (wait_xip_inactive hw (hal_qspi_xip_enable hw 0 d)))"

partial_function (option) wait_transaction_done :: "'d qspi_hw \<Rightarrow> 'd \<Rightarrow> 'd option" where
  "wait_transaction_done hw d =
     (case hal_qspi_check_pio_transaction_done hw d of (v, d) \<Rightarrow> if v \<noteq> 0 then Some d else wait_transaction_done hw d)"

definition drv_qspi_restore_xip_mode :: "'d qspi_hw \<Rightarrow> 'd qspi \<Rightarrow> (bool \<times> 'd qspi) option" where
  "drv_qspi_restore_xip_mode hw s =
     (case hal_qspi_xip_is_enabled hw (q_dev s) of
        (xip, d) \<Rightarrow>
          if xip = 0 then map_option (\<lambda>d. (True, s\<lparr>q_dev := hal_qspi_xip_enable hw 1 d\<rparr>)) (wait_transaction_done hw d)
          else Some (True, s\<lparr>q_dev := d\<rparr>))"

definition drv_qspi_xip_set_pe_state :: "'d qspi_hw \<Rightarrow> u8 \<Rightarrow> 'd qspi \<Rightarrow> bool \<times> 'd qspi" where
  "drv_qspi_xip_set_pe_state hw enable s =
     (True, s\<lparr>q_dev := hal_qspi_xip_enable_program_erase_ongoing hw enable (q_dev s)\<rparr>)"

definition drv_qspi_xip_config_suspend_resume ::
    "'d qspi_hw \<Rightarrow> u16 \<Rightarrow> u8 \<Rightarrow> u16 \<Rightarrow> u8 \<Rightarrow> 'd qspi \<Rightarrow> bool \<times> 'd qspi" where
  "drv_qspi_xip_config_suspend_resume hw suspend_delay suspend_opcode resume_delay resume_opcode s =
     (let d = hal_qspi_xip_set_suspend_delay hw suspend_delay (q_dev s);
          d = hal_qspi_xip_set_resume_opcode hw suspend_opcode d;
          d = hal_qspi_xip_enable_suspend hw 1 d;
          d = hal_qspi_xip_set_resume_opcode hw resume_opcode d;
          d = hal_qspi_xip_set_resume_delay hw resume_delay d;
          d = hal_qspi_xip_resume_suspend hw 1 d
      in (True, s\<lparr>q_dev := d\<rparr>))"

datatype qspi_xip_flash_region = QSPI_XIP_FLASH_REGION_0 | QSPI_XIP_FLASH_REGION_1 | QSPI_XIP_FLASH_REGION_2
  | QSPI_XIP_FLASH_REGION_3

definition drv_qspi_xip_config ::
    "'d qspi_hw \<Rightarrow> qspi_xip_flash_region \<Rightarrow> u32 \<Rightarrow> u32 \<Rightarrow> 'd qspi \<Rightarrow> int \<times> 'd qspi" where
  "drv_qspi_xip_config hw region_id region_size region_addr s =
     (if q_xip_init_done s then (0, s)
      else if region_id \<noteq> QSPI_XIP_FLASH_REGION_3 then (- 1, s)
      else
        let d = hal_qspi_xip_ph_config hw 0x03 0 (q_dev s);
            d = hal_qspi_xip_region_config hw 2 region_size (region_addr div BLOCK_SIZE_IN_BYTES) d;
            d = hal_qspi_xip_master_config hw d
        in (0, s\<lparr>q_xip_init_done := True, q_dev := d\<rparr>))"

end
