(* ===== verification/Bl_Rram_Correct.thy ===== *)
theory Bl_Rram_Correct
  imports Bl_Rram
begin

text \<open>
  Correctness of the word-by-word RRAM writer. Whatever the controller does, the writer
  returns, a success means that exactly the requested bytes hold the data, and a failure has
  touched no byte outside the 16-byte blocks of the request.
\<close>

section \<open>Words in memory\<close>

lemma word_at_write [simp]: "word_at (mem_write m a (le_bytes32 v)) a = v"
  using mem_read_write_same [of "le_bytes32 v" m a] le32_le_bytes32 [of v "[]"]
  by (simp add: word_at_def del: le32_le_bytes32)

lemma mem_write_twice:
  assumes "length xs = length ys" and "length ys \<le> 2 ^ 32"
  shows "mem_write (mem_write m a xs) a ys = mem_write m a ys"
proof
  fix p
  show "mem_write (mem_write m a xs) a ys p = mem_write m a ys p"
  proof (cases "\<exists>i < length ys. p = a + of_nat i")
    case True
    then show ?thesis using mem_write_nth [OF _ assms(2)] by auto
  next
    case False
    then have "mem_write (mem_write m a xs) a ys p = mem_write m a xs p" "mem_write m a ys p = m p"
      "mem_write m a xs p = m p"
      using assms(1) by (auto intro!: mem_write_other)
    then show ?thesis by simp
  qed
qed

lemma le_bytes32_le32: "length bs = 4 \<Longrightarrow> le_bytes32 (le32 bs) = bs"
proof -
  assume "length bs = 4"
  then obtain a b c d where bs: "bs = [a, b, c, d]"
    by (auto simp: length_Suc_conv eval_nat_numeral)
  have [simp]: "\<not> bit (x :: u8) (8 + n)" "\<not> bit (x :: u8) (16 + n)" "\<not> bit (x :: u8) (24 + n)" for x n
    by (auto dest: bit_imp_le_length)
  have "ucast (le32 bs) = a" "ucast (drop_bit 8 (le32 bs)) = b" "ucast (drop_bit 16 (le32 bs)) = c"
    "ucast (drop_bit 24 (le32 bs)) = d"
    by (auto simp: bs bit_simps intro!: bit_eqI dest: bit_imp_le_length)
  then show ?thesis by (simp add: le_bytes32_def bs)
qed

section \<open>One word\<close>

lemma bh_mem_reg_wr [simp]: "bh_mem (reg_wr r v h) = bh_mem h"
  by (simp add: reg_wr_def)

lemma bh_mem_write_init [simp]: "bh_mem (nt_rram_write_init h) = bh_mem h"
proof -
  have "bh_mem (fold (\<lambda>(a, v). reg_wr a v) cs h) = bh_mem h" for cs
    by (induction cs arbitrary: h) (auto simp: split_def)
  then show ?thesis by (simp add: nt_rram_write_init_def Let_def)
qed

lemma bh_mem_xip: "rram_xip_status dev h = (xip, h') \<Longrightarrow> bh_mem h' = bh_mem h"
  by (auto simp: rram_xip_status_def reg_rd_def split: if_splits)

lemma bh_mem_unreliable: "RRAM_WR_UNRELIABLE dev h = (u, h') \<Longrightarrow> bh_mem h' = bh_mem h"
  by (auto simp: RRAM_WR_UNRELIABLE_def reg_rd_def)

text \<open>An attempt stores something in its word and nothing elsewhere; one that passes has
  stored the data.\<close>

lemma attempt_mem:
  assumes "rram_attempt dev a v h = (ok, h')"
  shows "\<exists>w. bh_mem h' = mem_write (bh_mem h) a (le_bytes32 w) \<and> (ok \<longrightarrow> w = v)"
proof -
  have keep: "\<exists>w. bh_mem h = mem_write (bh_mem h) a (le_bytes32 w)"
    by (rule exI [of _ "le32 (mem_read (bh_mem h) a 4)"]) (simp add: le_bytes32_le32 mem_write_same)
  obtain x h1 where x: "rram_xip_status dev (reg_wr QWLAN_RRAM_CTRL_RRAM_ERROR_CNT_REG RRAM_WR_CHECK_VALUE h) = (x, h1)"
    by (cases "rram_xip_status dev (reg_wr QWLAN_RRAM_CTRL_RRAM_ERROR_CNT_REG RRAM_WR_CHECK_VALUE h)")
  have m1: "bh_mem h1 = bh_mem h" using bh_mem_xip [OF x] by simp
  obtain u h2 where u: "RRAM_WR_UNRELIABLE dev (word_wr dev a v h1) = (u, h2)"
    by (cases "RRAM_WR_UNRELIABLE dev (word_wr dev a v h1)")
  obtain w where m2: "bh_mem h2 = mem_write (bh_mem h) a (le_bytes32 w)"
    using bh_mem_unreliable [OF u] by (auto simp: word_wr_def m1)
  obtain y h3 where y: "rram_xip_status dev h2 = (y, h3)" by (cases "rram_xip_status dev h2")
  show ?thesis
  proof (cases "x = PWR_DOMAIN_OFF")
    case True
    then show ?thesis using assms keep m1 by (simp add: rram_attempt_def x)
  next
    case False
    have "w = v" if ok
      using assms that False m2 by (simp add: rram_attempt_def x u y split: if_splits)
    moreover have "bh_mem h' = bh_mem h2"
      using assms False bh_mem_xip [OF y] by (auto simp: rram_attempt_def x u y split: if_splits)
    ultimately show ?thesis using m2 by auto
  qed
qed

lemma retry_mem:
  assumes "rram_retry dev n a v h = (st, h')"
  shows "\<exists>w. bh_mem h' = mem_write (bh_mem h) a (le_bytes32 w) \<and> (st = 0 \<longrightarrow> w = v)" and "st = 0 \<or> st = - EBADE"
proof -
  have "(\<exists>w. bh_mem h' = mem_write (bh_mem h) a (le_bytes32 w) \<and> (st = 0 \<longrightarrow> w = v)) \<and> (st = 0 \<or> st = - EBADE)"
    using assms
  proof (induction n arbitrary: h)
    case 0
    have "bh_mem h = mem_write (bh_mem h) a (le_bytes32 (le32 (mem_read (bh_mem h) a 4)))"
      by (simp add: le_bytes32_le32 mem_write_same)
    then show ?case using 0 by (auto simp: EBADE_def)
  next
    case (Suc n)
    obtain ok h1 where at: "rram_attempt dev a v h = (ok, h1)" by (cases "rram_attempt dev a v h")
    obtain w where w: "bh_mem h1 = mem_write (bh_mem h) a (le_bytes32 w)" "ok \<longrightarrow> w = v"
      using attempt_mem [OF at] by blast
    show ?case
    proof (cases ok)
      case False
      then have "rram_retry dev n a v h1 = (st, h')" using Suc.prems by (simp add: at)
      from Suc.IH [OF this] show ?thesis by (simp add: w mem_write_twice)
    qed (use Suc.prems w in \<open>auto simp: at\<close>)
  qed
  then show "\<exists>w. bh_mem h' = mem_write (bh_mem h) a (le_bytes32 w) \<and> (st = 0 \<longrightarrow> w = v)" and "st = 0 \<or> st = - EBADE"
    by auto
qed

lemma write_status_mem:
  assumes "rram_write_status dev a v h = (st, h')"
  shows "\<exists>w. bh_mem h' = mem_write (bh_mem h) a (le_bytes32 w) \<and> (st = 0 \<longrightarrow> w = v)" and "st = 0 \<or> st = - EBADE"
  using retry_mem [OF assms [unfolded rram_write_status_def]] by auto

section \<open>One block\<close>

lemma le32_take: "le32 (take 4 bs) = le32 bs"
  by (cases bs rule: le32.cases) (simp_all add: eval_nat_numeral)

text \<open>The words from \<open>k\<close> on; as for a single word, a success has stored the data and a failure
  has changed nothing outside them.\<close>

lemma write_words_mem:
  assumes "write_words dev b blk [k ..< k + n] h = (st, h')" and "length blk = 4 * (k + n)" and "4 * (k + n) \<le> 2 ^ 32"
  shows "\<exists>bs. length bs = 4 * n \<and> bh_mem h' = mem_write (bh_mem h) (b + of_nat (4 * k)) bs \<and> (st = 0 \<longrightarrow> bs = drop (4 * k) blk)
    \<and> (st = 0 \<or> st = - EBADE)"
  using assms
proof (induction n arbitrary: k h)
  case (Suc n)
  let ?a = "b + of_nat (4 * k)"
  obtain s h1 where w: "rram_write_status dev ?a (le32 (drop (4 * k) blk)) h = (s, h1)"
    by (cases "rram_write_status dev ?a (le32 (drop (4 * k) blk)) h")
  obtain v where v: "bh_mem h1 = mem_write (bh_mem h) ?a (le_bytes32 v)" "s = 0 \<longrightarrow> v = le32 (drop (4 * k) blk)"
    using write_status_mem(1) [OF w] by blast
  have upt: "[k ..< k + Suc n] = k # [Suc k ..< Suc k + n]" by (simp add: upt_conv_Cons)
  have next_a: "?a + of_nat 4 = b + of_nat (4 * Suc k)" by (simp add: algebra_simps)
  have split_blk: "drop (4 * k) blk = take 4 (drop (4 * k) blk) @ drop (4 * Suc k) blk"
    using append_take_drop_id [of 4 "drop (4 * k) blk"] by (simp add: add.commute)
  show ?case
  proof (cases "s = 0")
    case True
    have "write_words dev b blk [Suc k ..< Suc k + n] h1 = (st, h')"
      using Suc.prems(1) True unfolding upt by (simp add: w [simplified] del: upt_Suc)
    from Suc.IH [OF this] Suc.prems(2,3) obtain bs where bs: "length bs = 4 * n"
      "bh_mem h' = mem_write (bh_mem h1) (b + of_nat (4 * Suc k)) bs" "st = 0 \<longrightarrow> bs = drop (4 * Suc k) blk" "st = 0 \<or> st = - EBADE"
      by auto
    have "le_bytes32 v = take 4 (drop (4 * k) blk)"
      using v(2) True Suc.prems(2) le_bytes32_le32 [of "take 4 (drop (4 * k) blk)"] by (simp add: le32_take)
    moreover have "bh_mem h' = mem_write (bh_mem h) ?a (le_bytes32 v @ bs)"
      unfolding mem_write_append by (simp only: length_le_bytes32 next_a bs(2) v(1))
    moreover have "length (le_bytes32 v @ bs) = 4 * Suc n" by (simp add: bs(1))
    ultimately show ?thesis using bs(3,4) split_blk by (intro exI [of _ "le_bytes32 v @ bs"]) auto
  next
    case False
    let ?rest = "mem_read (bh_mem h1) (b + of_nat (4 * Suc k)) (4 * n)"
    have "st = - EBADE" "h' = h1" using Suc.prems(1) False unfolding upt by (simp_all add: w [simplified] del: upt_Suc)
    moreover have "bh_mem h1 = mem_write (bh_mem h) ?a (le_bytes32 v @ ?rest)"
      unfolding mem_write_append length_le_bytes32 next_a v(1) [symmetric] by (simp only: mem_write_same)
    ultimately show ?thesis by (intro exI [of _ "le_bytes32 v @ ?rest"]) (auto simp: EBADE_def)
  qed
qed simp

lemma write_block_mem:
  assumes "write_words dev b blk [0, 1, 2, 3] h = (st, h')" and "length blk = 16"
  shows "st = 0 \<Longrightarrow> bh_mem h' = mem_write (bh_mem h) b blk" and "st = 0 \<or> st = - EBADE"
    and "\<exists>bs. length bs = 16 \<and> bh_mem h' = mem_write (bh_mem h) b bs"
proof -
  have "[0, 1, 2, 3] = [0 ..< 0 + 4 :: nat]" by (simp add: upt_rec)
  with assms(1) have "write_words dev b blk [0 ..< 0 + 4] h = (st, h')" by (simp only:)
  from write_words_mem [OF this] assms(2) show "st = 0 \<Longrightarrow> bh_mem h' = mem_write (bh_mem h) b blk"
    and "st = 0 \<or> st = - EBADE" and "\<exists>bs. length bs = 16 \<and> bh_mem h' = mem_write (bh_mem h) b bs" by auto
qed

text \<open>Filling the block is the loop of the DXE writer when there is something to copy.\<close>

lemma unat_minus_1: "(n :: u32) \<noteq> 0 \<Longrightarrow> unat (n - 1) = unat n - 1"
  by (simp add: unat_sub unat_gt_0 word_le_nat_alt Suc_le_eq)

lemma advance_advance: "advance (advance src i) j = advance src (i + j)"
  by (cases src) (simp_all add: add.commute add.left_commute)

lemma copy_to_block_fill:
  assumes "byte_idx < 16" and "len \<noteq> 0" and "k = min (16 - byte_idx) (unat len)"
  shows "copy_to_block m byte_idx src len blk = (fst (fill_block m byte_idx len src blk w), advance src k, len - of_nat k)"
  using assms
proof (induction m byte_idx src len blk arbitrary: w k rule: copy_to_block.induct)
  case (1 m i src len blk)
  let ?blk = "blk[i := src_byte m src]"
  have fill: "fill_block m i len src blk w = fill_block m (i + 1) (len - 1) (advance src 1) ?blk (w + 1)"
    using 1(2,3) by (subst fill_block.simps) (simp add: unat_align)
  have len: "unat (len - 1) = unat len - 1" "0 < unat len"
    using 1(3) by (simp_all add: unat_minus_1 unat_gt_0)
  show ?case
  proof (cases "i + 1 < 16 \<and> len - 1 > 0")
    case True
    then have ne: "len - 1 \<noteq> 0" by auto
    have k: "k - 1 = min (16 - (i + 1)) (unat (len - 1))" "1 + (k - 1) = k"
      using 1(2,4) len ne by (auto simp: len(1) unat_eq_zero [symmetric] simp del: unat_eq_zero)
    have "copy_to_block m (i + 1) (advance src 1) (len - 1) ?blk =
        (fst (fill_block m (i + 1) (len - 1) (advance src 1) ?blk (w + 1)), advance (advance src 1) (k - 1), len - 1 - of_nat (k - 1))"
      using 1(1) [OF refl refl refl refl _ _ ne k(1)] True by (simp add: RRAM_BLOCK_LEN_def)
    moreover have "len - 1 - of_nat (k - 1) = len - of_nat k"
      using k(2) by (metis diff_diff_eq of_nat_1 of_nat_add)
    ultimately show ?thesis
      using True by (subst copy_to_block.simps) (simp add: fill advance_advance k(2) [simplified] RRAM_BLOCK_LEN_def Let_def)
  next
    case False
    then have "i + 1 = 16 \<or> unat (len - 1) = 0" using 1(2) by (auto simp: word_gt_0)
    then have k: "k = 1" using 1(2,4) len by auto
    have "fill_block m (i + 1) (len - 1) (advance src 1) ?blk (w + 1) = (?blk, w + 1)"
      using False by (subst fill_block.simps) (auto simp: unat_align word_gt_0)
    then show ?thesis using False k by (subst copy_to_block.simps) (auto simp: fill RRAM_BLOCK_LEN_def Let_def)
  qed
qed

section \<open>Retries\<close>

text \<open>The state after \<open>k\<close> attempts.\<close>

definition rram_tries :: "rram_dev \<Rightarrow> addr \<Rightarrow> u32 \<Rightarrow> nat \<Rightarrow> bl_hw \<Rightarrow> bl_hw" where
  "rram_tries dev a v k h = ((\<lambda>h. snd (rram_attempt dev a v h)) ^^ k) h"

lemma rram_tries_Suc: "rram_tries dev a v (Suc k) h = rram_tries dev a v k (snd (rram_attempt dev a v h))"
  unfolding rram_tries_def funpow_Suc_right comp_def ..

lemma retry_iff:
  "fst (rram_retry dev n a v h) = 0 \<longleftrightarrow> (\<exists>k<n. fst (rram_attempt dev a v (rram_tries dev a v k h)))"
proof (induction n arbitrary: h)
  case (Suc n)
  have "(\<exists>k<Suc n. fst (rram_attempt dev a v (rram_tries dev a v k h))) \<longleftrightarrow>
      fst (rram_attempt dev a v h) \<or> (\<exists>k<n. fst (rram_attempt dev a v (rram_tries dev a v (Suc k) h)))"
    by (subst Ex_less_Suc2) (simp add: rram_tries_def)
  then show ?case using Suc by (simp add: rram_tries_Suc split_def)
qed (simp add: EBADE_def)

text \<open>The word at \<open>a\<close> can be written within the retries; and so can all words of a range.\<close>

definition recovers_at :: "rram_dev \<Rightarrow> addr \<Rightarrow> bool" where
  "recovers_at dev a \<longleftrightarrow> (\<forall>v h. \<exists>k < NT_RRAM_NRETRIES. fst (rram_attempt dev a v (rram_tries dev a v k h)))"

definition recovers :: "rram_dev \<Rightarrow> nat \<Rightarrow> nat \<Rightarrow> bool" where
  "recovers dev lo hi \<longleftrightarrow> (\<forall>a. lo \<le> unat a \<and> unat a < hi \<longrightarrow> recovers_at dev a)"

lemma recovers_sub: "recovers dev lo hi \<Longrightarrow> lo \<le> lo' \<Longrightarrow> hi' \<le> hi \<Longrightarrow> recovers dev lo' hi'"
  by (simp add: recovers_def)

lemma write_status_recovers: "recovers_at dev a \<Longrightarrow> fst (rram_write_status dev a v h) = 0"
  by (simp add: recovers_at_def rram_write_status_def retry_iff)

lemma write_words_recovers:
  "(\<And>w. w \<in> set ws \<Longrightarrow> recovers_at dev (b + of_nat (4 * w))) \<Longrightarrow> fst (write_words dev b blk ws h) = 0"
  by (induction ws arbitrary: h) (simp_all add: write_status_recovers split_def)

lemma write_block_recovers:
  assumes "recovers dev (unat b) (unat b + 16)" and "unat b + 16 \<le> 2 ^ 32"
  shows "fst (write_words dev b blk [0, 1, 2, 3] h) = 0"
proof (rule write_words_recovers)
  fix w assume "w \<in> set [0, 1, 2, 3 :: nat]"
  then have w: "4 * w < 16" by auto
  then have "unat (b + of_nat (4 * w)) = unat b + 4 * w" using assms(2) by (intro unat_addr_offset) simp
  then show "recovers_at dev (b + of_nat (4 * w))" using assms(1) w unfolding recovers_def by simp
qed

section \<open>A range\<close>

text \<open>The block after the copy, written back, changes the requested bytes of the block only.\<close>

lemma copy_to_block_mem:
  assumes "off < 16" and "len \<noteq> 0" and "k = min (16 - off) (unat len)" and "src_has src k" and "length blk = 16"
    and "unat b + 16 \<le> 2 ^ 32" and "m = bh_mem h"
    and "copy_to_block m off src len (if off > 0 \<or> len < RRAM_BLOCK_LEN then mem_read m b 16 else blk) = (blk', src', len')"
  shows "length blk' = 16 \<and> mem_write m b blk' = mem_write m (b + of_nat off) (src_bytes m src k)"
    and "src' = advance src k" and "len' = len - of_nat k"
proof -
  let ?old = "if off > 0 \<or> len < RRAM_BLOCK_LEN then mem_read m b 16 else blk"
  have old: "length ?old = 16" using assms(5) by simp
  note copy = copy_to_block_fill [OF assms(1-3), of m src ?old 0]
  have blk': "blk' = take off ?old @ src_bytes m src k @ drop (off + k) ?old"
    using assms(8) fill_block_splice [OF old, of src off len m 0] assms(3,4) by (simp add: copy del: if_split)
  have k: "length (src_bytes m src k) = k" "off + k \<le> 16"
    using assms(1,3,4) by (cases src; simp)+
  show "src' = advance src k" "len' = len - of_nat k" using assms(8) by (simp_all add: copy del: if_split)
  have "mem_write m b blk' = mem_write m (b + of_nat off) (src_bytes m src k)"
  proof (cases "off > 0 \<or> len < RRAM_BLOCK_LEN")
    case True
    then have "blk' = mem_read m b off @ src_bytes m src k @ mem_read m (b + of_nat (off + length (src_bytes m src k))) (16 - (off + k))"
      using k assms(1) by (simp add: blk' drop_mem_read mem_read_take)
    then show ?thesis using mem_write_patch [of b off "src_bytes m src k" "16 - (off + k)" m] k assms(6) by simp
  next
    case False
    then have "off = 0" "k = 16" using assms(3) by (auto simp: RRAM_BLOCK_LEN_def word_less_nat_alt)
    then show ?thesis using assms(5) False by (simp add: blk')
  qed
  moreover have "length blk' = 16" unfolding blk' using k old assms(1) by (simp del: if_split)
  ultimately show "length blk' = 16 \<and> mem_write m b blk' = mem_write m (b + of_nat off) (src_bytes m src k)" by simp
qed

lemma mem_write_frame:
  assumes "unat a + length bs \<le> 2 ^ 32" and "unat p < unat a \<or> unat a + length bs \<le> unat p"
  shows "mem_write m a bs p = m p"
proof (rule mem_write_other)
  fix i assume "i < length bs"
  then have "unat (a + of_nat i) = unat a + i" using assms(1) by (intro unat_addr_offset) simp
  then show "p \<noteq> a + of_nat i" using assms(2) \<open>i < length bs\<close> by auto
qed

lemma write_range_mem:
  assumes "unat b mod 16 = 0" and "off < 16" and "len \<noteq> 0" and "unat b + off + unat len + 32 \<le> 2 ^ 32"
    and "src_ok src (b + of_nat off) (unat len)" and "length blk = 16"
    and "unat last_b = (unat b + off + unat len - 1) div 16 * 16"
  shows "\<exists>st h'. write_range dev b last_b off src len blk h = Some (st, h') \<and> (st = 0 \<or> st = - EBADE) \<and> (recovers dev (unat b) (unat last_b + 16) \<longrightarrow> st = 0)
    \<and> (st = 0 \<longrightarrow> bh_mem h' = mem_write (bh_mem h) (b + of_nat off) (src_bytes (bh_mem h) src (unat len)))
    \<and> (\<forall>p. unat p < unat b \<or> unat last_b + 16 \<le> unat p \<longrightarrow> bh_mem h' p = bh_mem h p)"
  using assms
proof (induction "unat len" arbitrary: b off src len blk h rule: less_induct)
  case less
  let ?m = "bh_mem h" and ?d = "b + of_nat off"
  define k where "k = min (16 - off) (unat len)"
  have k0: "0 < k" "k \<le> unat len" "off + k \<le> 16" using less.prems(2,3) by (auto simp: k_def unat_gt_0)
  have b_last: "unat b \<le> unat last_b"
  proof -
    have "unat b div 16 \<le> (unat b + off + unat len - 1) div 16" using k0 by (intro div_le_mono) simp
    then show ?thesis unfolding less.prems(7) using less.prems(1) by (metis div_mult_mod_eq add_0_right mult_le_mono1)
  qed
  obtain blk' src' len' where copy: "copy_to_block ?m off src len
      (if off > 0 \<or> len < RRAM_BLOCK_LEN then mem_read ?m b 16 else blk) = (blk', src', len')"
    by (cases "copy_to_block ?m off src len (if off > 0 \<or> len < RRAM_BLOCK_LEN then mem_read ?m b 16 else blk)")
  have has: "src_has src k" using src_ok_has [OF less.prems(5)] k0(2) by (cases src) auto
  have top: "unat b + 16 \<le> 2 ^ 32" using less.prems(4) by simp
  note cb = copy_to_block_mem [OF less.prems(2,3) k_def has less.prems(6) top refl copy]
  obtain s h1 where w: "write_words dev b blk' [0, 1, 2, 3] h = (s, h1)" by (cases "write_words dev b blk' [0, 1, 2, 3] h")
  note wb = write_block_mem [OF w conjunct1 [OF cb(1)]]
  have frame1: "bh_mem h1 p = ?m p" if "unat p < unat b \<or> unat b + 16 \<le> unat p" for p
    using wb(3) that top mem_write_frame by metis
  have step: "write_range dev b last_b off src len blk h =
      (if s \<noteq> 0 then Some (s, h1) else write_range dev (b + RRAM_BLOCK_LEN) last_b 0 src' len' blk' h1)"
    using b_last by (subst write_range.simps) (simp only: word_le_nat_alt copy w if_True prod.case)
  show ?case
  proof (cases "s = 0")
    case False
    have "bh_mem h1 p = ?m p" if "unat p < unat b \<or> unat last_b + 16 \<le> unat p" for p
      using frame1 that b_last by auto
    moreover have "\<not> recovers dev (unat b) (unat last_b + 16)"
    proof
      assume "recovers dev (unat b) (unat last_b + 16)"
      then have "recovers dev (unat b) (unat b + 16)" using b_last by (auto elim: recovers_sub)
      from write_block_recovers [OF this top, of blk' h] show False using False by (simp only: w fst_conv)
    qed
    ultimately show ?thesis using step False wb(2) by auto
  next
    case True
    have m1: "bh_mem h1 = mem_write ?m ?d (src_bytes ?m src k)" using wb(1) True cb(1) by simp
    have b16: "unat (b + RRAM_BLOCK_LEN) = unat b + 16"
      using unat_addr_offset [of b 16] less.prems(4) by (simp add: RRAM_BLOCK_LEN_def)
    show ?thesis
    proof (cases "k = unat len")
      case True
      then have "unat b + off + unat len - 1 < unat b + 16" using k0 by simp
      moreover have "unat b + 16 = (unat b div 16 + 1) * 16" using less.prems(1) by (simp add: mod_eq_0_iff_dvd)
      ultimately have "(unat b + off + unat len - 1) div 16 < unat b div 16 + 1" by (metis less_mult_imp_div_less)
      then have "unat last_b < unat b + 16" using less.prems(1,7) by (simp add: mod_eq_0_iff_dvd)
      then have "write_range dev (b + RRAM_BLOCK_LEN) last_b 0 src' len' blk' h1 = Some (0, h1)"
        by (subst write_range.simps) (simp add: word_le_nat_alt b16)
      moreover have "bh_mem h1 p = ?m p" if "unat p < unat b \<or> unat last_b + 16 \<le> unat p" for p
        using frame1 that b_last by auto
      ultimately show ?thesis using step \<open>s = 0\<close> m1 True by auto
    next
      case False
      then have k: "k = 16 - off" "k < unat len" using k0 by (auto simp: k_def)
      have len': "unat len' = unat len - k" 
        using k(2) unsigned_less [of len, where ?'a = nat] by (simp add: cb(3) unat_sub_if' unat_of_nat)
      have d': "b + RRAM_BLOCK_LEN = ?d + of_nat k"
        using less.prems(2) k by (simp add: RRAM_BLOCK_LEN_def of_nat_diff)
      have dk: "unat ?d = unat b + off" using less.prems(2,4) by (intro unat_addr_offset) simp
      let ?b = "b + RRAM_BLOCK_LEN"
      have "src_ok src' ?b (unat len')"
        unfolding cb(2) d' len' using less.prems(4,5) k dk by (intro src_ok_advance) simp_all
      then have src': "src_ok src' (?b + of_nat 0) (unat len')" by simp
      have end': "unat ?b + 0 + unat len' = unat b + off + unat len"
        using k less.prems(2) len' b16 by simp
      have shorter: "unat len' < unat len" "len' \<noteq> 0" using len' k k0 by auto
      have "unat ?b mod 16 = 0" using less.prems(1) b16 by simp
      moreover have "unat ?b + 0 + unat len' + 32 \<le> 2 ^ 32" "unat last_b = (unat ?b + 0 + unat len' - 1) div 16 * 16"
        unfolding end' by (fact less.prems(4), fact less.prems(7))
      ultimately obtain st h' where r: "write_range dev ?b last_b 0 src' len' blk' h1 = Some (st, h')"
        "st = 0 \<or> st = - EBADE" "recovers dev (unat ?b) (unat last_b + 16) \<longrightarrow> st = 0"
        "st = 0 \<longrightarrow> bh_mem h' = mem_write (bh_mem h1) ?b (src_bytes (bh_mem h1) src' (unat len'))"
        "\<forall>p. unat p < unat ?b \<or> unat last_b + 16 \<le> unat p \<longrightarrow> bh_mem h' p = bh_mem h1 p"
        using less.hyps [OF shorter(1) _ _ shorter(2) _ src' conjunct1 [OF cb(1)], of h1] unfolding semiring_1_class.of_nat_0 add_0_right
        by (elim meta_impE) (auto simp only: zero_less_numeral)
      have "mem_write (bh_mem h1) (b + RRAM_BLOCK_LEN) (src_bytes (bh_mem h1) src' (unat len')) =
          mem_write ?m ?d (src_bytes ?m src (unat len))"
        unfolding m1 d' cb(2) len' using less.prems(4,5) k dk by (intro src_write_split) simp_all
      moreover have "bh_mem h' p = ?m p" if "unat p < unat b \<or> unat last_b + 16 \<le> unat p" for p
        using r(5) [rule_format, of p] frame1 [of p] that b_last b16 by fastforce
      moreover have "recovers dev (unat b) (unat last_b + 16) \<longrightarrow> st = 0" using r(3) b16 recovers_sub by auto
      ultimately show ?thesis using r step \<open>s = 0\<close> by auto
    qed
  qed
qed

text \<open>What the range check leaves: both ends lie below the end of the RRAM.\<close>

lemma range_ok_bounds:
  assumes "range_ok m a n lk"
  shows "unat a \<le> 0x380000" and "unat (a + n) \<le> 0x380000"
  using assms
  by (auto simp: range_ok_def RRAM_OTP_ADD_CHECK_def RRAM_MAIN_ADD_CHECK_def OTP_region_end_addr_def EINVAL_def
      rram_region_end_address_def word_le_nat_alt split: if_splits)

lemma block_align: "RRAM_BLOCK_LEN = RRAM_WRITE_ADR_BYTE_ALIGN"
  by (simp add: RRAM_BLOCK_LEN_def RRAM_WRITE_ADR_BYTE_ALIGN_def)

lemma align_down: "unat (a - (a AND (RRAM_BLOCK_LEN - 1))) = unat a div 16 * 16"
proof -
  have u: "unat (a AND (RRAM_BLOCK_LEN - 1)) = unat a mod 16" unfolding block_align by (rule low_bits)
  then have "a AND (RRAM_BLOCK_LEN - 1) \<le> a" by (simp add: word_le_nat_alt)
  then show ?thesis using u by (simp add: unat_sub minus_mod_eq_div_mult)
qed

lemma rram_write_mem:
  assumes "unat dst + unat len < 2 ^ 32" and "src_ok src dst (unat len)" and "length blk = 16"
    and "len \<noteq> 0" and "range_ok (bh_mem h) dst len WRITE_LOCKED"
  shows "\<exists>st h'. nt_bl_rram_write dev blk dst src len h = Some (st, h') \<and> (st = 0 \<or> st = - EBADE)
    \<and> (recovers dev (unat dst div 16 * 16) ((unat dst + unat len - 1) div 16 * 16 + 16) \<longrightarrow> st = 0)
    \<and> (st = 0 \<longrightarrow> bh_mem h' = mem_write (bh_mem h) dst (src_bytes (bh_mem h) src (unat len)))
    \<and> (\<forall>p. unat p < unat dst div 16 * 16 \<or> (unat dst + unat len - 1) div 16 * 16 + 16 \<le> unat p \<longrightarrow> bh_mem h' p = bh_mem h p)"
proof -
  let ?b = "dst - (dst AND (RRAM_BLOCK_LEN - 1))"
  let ?l = "dst + (len - 1) - ((dst + len - 1) AND (RRAM_BLOCK_LEN - 1))"
  define off where "off = unat (dst mod RRAM_BLOCK_LEN)"
  have "unat (dst + len) = unat dst + unat len" using assms(1) by (simp add: unat_word_ariths)
  then have top: "unat dst + unat len \<le> 0x380000" using range_ok_bounds(2) [OF assms(5)] by simp
  have b: "unat ?b = unat dst div 16 * 16" by (rule align_down)
  have off: "off = unat dst mod 16" by (simp add: off_def RRAM_BLOCK_LEN_def unat_mod_distrib)
  have dst: "?b + of_nat off = dst"
    unfolding word_unat_eq_iff using top by (subst unat_addr_offset) (simp_all add: b off)
  have pos: "0 < unat len" using assms(4) by (simp add: unat_gt_0)
  have "unat (dst + len - 1) = unat dst + unat len - 1"
    using unat_addr_offset [of dst "unat len - 1"] top pos by (simp add: of_nat_diff algebra_simps)
  moreover have "?l = (dst + len - 1) - ((dst + len - 1) AND (RRAM_BLOCK_LEN - 1))" by (simp add: algebra_simps)
  ultimately have l: "unat ?l = (unat dst + unat len - 1) div 16 * 16" by (simp only: align_down)
  have sum: "unat ?b + off = unat dst" by (simp add: b off)
  have "nt_bl_rram_write dev blk dst src len h = write_range dev ?b ?l off src len blk h"
    using assms(4,5) by (simp add: nt_bl_rram_write_def Let_def off_def)
  moreover have "\<exists>st h'. write_range dev ?b ?l off src len blk h = Some (st, h') \<and> (st = 0 \<or> st = - EBADE)
    \<and> (recovers dev (unat ?b) (unat ?l + 16) \<longrightarrow> st = 0)
    \<and> (st = 0 \<longrightarrow> bh_mem h' = mem_write (bh_mem h) (?b + of_nat off) (src_bytes (bh_mem h) src (unat len)))
    \<and> (\<forall>p. unat p < unat ?b \<or> unat ?l + 16 \<le> unat p \<longrightarrow> bh_mem h' p = bh_mem h p)"
    using assms(2-4) top by (intro write_range_mem) (simp_all add: sum dst, simp_all add: b off l)
  ultimately show ?thesis by (simp only: dst b l)
qed

section \<open>Properties of the writer\<close>

lemma write_ok_main:
  assumes "0x200000 \<le> unat a" and "unat a + unat n \<le> 0x380000"
  shows "range_ok m a n lk"
proof -
  have "unat (a + n) = unat a + unat n" using assms(2) by (simp add: unat_word_ariths)
  then show ?thesis
    using assms by (simp add: range_ok_def RRAM_OTP_ADD_CHECK_def RRAM_MAIN_ADD_CHECK_def OTP_region_st_addr_def
        OTP_region_end_addr_def rram_region_start_addr_def rram_region_end_address_def word_le_nat_alt)
qed

text \<open>A controller that loses a write now and then, for examples: the next attempt falls on
  another tick and is kept.\<close>

definition flaky_dev :: rram_dev where
  "flaky_dev = \<lparr>rv_reg = \<lambda>t r v. if r = QWLAN_RRAM_CTRL_RRAM_ERROR_CNT_REG then v else 0,
                rv_wr = \<lambda>t a old v. if t mod 5 = 1 then old else v\<rparr>"

definition calm_hw :: "memory \<Rightarrow> bl_hw" where
  "calm_hw m = \<lparr>bh_mem = m, bh_reg = \<lambda>_. 0, bh_time = 0\<rparr>"

lemmas attempt_defs = rram_attempt_def rram_xip_status_def RRAM_WR_UNRELIABLE_def reg_rd_def reg_wr_def word_wr_def
  RRAM_WR_CHECK_VALUE_def QWLAN_RRAM_CTRL_RRAM_WR_DUR_TX_REG_def QWLAN_RRAM_CTRL_RRAM_TX_DUR_WR_REG_def
  QWLAN_RRAM_CTRL_RRAM_ERROR_CNT_REG_def

lemma flaky_attempt_ok: "bh_time h mod 5 \<noteq> 0 \<Longrightarrow> fst (rram_attempt flaky_dev a v h)"
  by (simp add: attempt_defs flaky_dev_def Let_def mod_Suc)

lemma flaky_attempt_time: "\<not> fst (rram_attempt flaky_dev a v h) \<Longrightarrow> bh_time (snd (rram_attempt flaky_dev a v h)) = bh_time h + 4"
  by (simp add: attempt_defs flaky_dev_def Let_def split: if_splits)

lemma flaky_recovers: "recovers flaky_dev lo hi"
  unfolding recovers_def recovers_at_def
proof (intro allI impI)
  fix a v h
  show "\<exists>k < NT_RRAM_NRETRIES. fst (rram_attempt flaky_dev a v (rram_tries flaky_dev a v k h))"
  proof (cases "fst (rram_attempt flaky_dev a v h)")
    case True
    then show ?thesis by (intro exI [of _ 0]) (simp add: NT_RRAM_NRETRIES_def rram_tries_def)
  next
    case False
    then have "bh_time h mod 5 = 0" using flaky_attempt_ok by blast
    then have "bh_time (snd (rram_attempt flaky_dev a v h)) mod 5 \<noteq> 0"
      unfolding flaky_attempt_time [OF False] by presburger
    from flaky_attempt_ok [OF this] show ?thesis
      by (intro exI [of _ 1]) (simp add: NT_RRAM_NRETRIES_def rram_tries_def)
  qed
qed

text \<open>C5: Writing to the RRAM word by word, with any controller: the call returns; a length of
  zero or a range that the check refuses gives \<open>-EINVAL\<close> and changes nothing; a success means
  that the memory changed in exactly the requested bytes, which hold the source; a failure of
  the controller is reported as \<open>-EBADE\<close>, with every byte outside the 16-byte blocks of the
  request unchanged. The range does not wrap around the address space.\<close>

theorem bl_rram_write_sound:
  assumes "unat dst + unat len < 2 ^ 32" and "src_ok src dst (unat len)" and "length blk = 16"
  shows "\<exists>st h'. nt_bl_rram_write dev blk dst src len h = Some (st, h')
    \<and> (st = - EINVAL \<longleftrightarrow> len = 0 \<or> \<not> range_ok (bh_mem h) dst len WRITE_LOCKED) \<and> st \<in> {0, - EINVAL, - EBADE}
    \<and> (st = - EINVAL \<longrightarrow> h' = h)
    \<and> (st = 0 \<longrightarrow> bh_mem h' = mem_write (bh_mem h) dst (src_bytes (bh_mem h) src (unat len)))
    \<and> (\<forall>p. unat p < unat dst div 16 * 16 \<or> (unat dst + unat len - 1) div 16 * 16 + 16 \<le> unat p \<longrightarrow> bh_mem h' p = bh_mem h p)"
proof (cases "len = 0 \<or> \<not> range_ok (bh_mem h) dst len WRITE_LOCKED")
  case True
  then have "nt_bl_rram_write dev blk dst src len h = Some (- EINVAL, h)" by (auto simp: nt_bl_rram_write_def)
  then show ?thesis using True by (auto simp: EINVAL_def)
next
  case False
  then show ?thesis using rram_write_mem [OF assms, of h dev] by (auto simp: EINVAL_def EBADE_def)
qed

theorem bl_rram_write_sound_witness:
  "\<exists>h'. nt_bl_rram_write flaky_dev (replicate 16 0) 0x200405 (Src_buf [1, 2, 3]) 3 (calm_hw (\<lambda>_. 7)) = Some (0, h')
    \<and> bh_mem h' = mem_write (\<lambda>_. 7) 0x200405 [1, 2, 3]"
proof -
  have r: "range_ok (bh_mem (calm_hw (\<lambda>_. 7))) 0x200405 3 WRITE_LOCKED" by (rule write_ok_main) simp_all
  then obtain st h' where w: "nt_bl_rram_write flaky_dev (replicate 16 0) 0x200405 (Src_buf [1, 2, 3]) 3 (calm_hw (\<lambda>_. 7)) = Some (st, h')"
    "st = 0"
    using rram_write_mem [of "0x200405" 3 "Src_buf [1, 2, 3]" "replicate 16 0" "calm_hw (\<lambda>_. 7)" flaky_dev] flaky_recovers by auto
  then show ?thesis
    using bl_rram_write_sound [of "0x200405" 3 "Src_buf [1, 2, 3]" "replicate 16 0" flaky_dev "calm_hw (\<lambda>_. 7)"]
    by (simp add: calm_hw_def)
qed

lemma find_map: "find P (map f xs) = map_option f (find (P \<circ> f) xs)"
  by (induction xs) simp_all

text \<open>Writing a word is tried at most five times and stops with the first attempt that
  passes (power on before and after, no disturbance flagged, the word read back as written);
  when none of the five passes, the result is \<open>-EBADE\<close>.\<close>

theorem rram_write_status_retries:
  "rram_write_status dev a v h =
    (case find (\<lambda>k. fst (rram_attempt dev a v (rram_tries dev a v k h))) [0 ..< 5] of
       Some k \<Rightarrow> (0, rram_tries dev a v (Suc k) h)
     | None \<Rightarrow> (- EBADE, rram_tries dev a v 5 h))"
proof -
  have "rram_retry dev n a v h =
    (case find (\<lambda>k. fst (rram_attempt dev a v (rram_tries dev a v k h))) [0 ..< n] of
       Some k \<Rightarrow> (0, rram_tries dev a v (Suc k) h)
     | None \<Rightarrow> (- EBADE, rram_tries dev a v n h))" for n
  proof (induction n arbitrary: h)
    case (Suc n)
    have z: "rram_tries dev a v 0 h = h" for h by (simp add: rram_tries_def)
    show ?case
      unfolding upt_conv_Cons [OF zero_less_Suc] map_Suc_upt [symmetric] find.simps find_map comp_def rram_tries_Suc
      by (simp add: z Suc split_def rram_tries_Suc split: option.split)
  qed (simp add: rram_tries_def)
  from this [of 5] show ?thesis by (simp only: rram_write_status_def NT_RRAM_NRETRIES_def)
qed

text \<open>An address and a length whose sum wraps around pass the range check: the request is
  reported as a success and nothing is written.\<close>

lemma bl_rram_write_wraps:
  "nt_bl_rram_write dev blk 0x201000 src 0xFFFFF000 h = Some (0, h)"
proof -
  have "range_ok (bh_mem h) 0x201000 0xFFFFF000 WRITE_LOCKED"
    by (simp add: range_ok_def RRAM_OTP_ADD_CHECK_def RRAM_MAIN_ADD_CHECK_def OTP_region_st_addr_def
        OTP_region_end_addr_def rram_region_start_addr_def rram_region_end_address_def)
  then show ?thesis by (simp add: nt_bl_rram_write_def RRAM_BLOCK_LEN_def write_range.simps)
qed

end
