(* ===== verification/Qspi_Pio.thy ===== *)
theory Qspi_Pio
  imports Qspi Bl_Rram_Correct
begin

text \<open>
  What the QSPI driver relies on in its controller, and the correctness of the PIO transfers.
  The bus behind the controller is a \<open>wire\<close>: what clocking out a byte, clocking in a byte and
  releasing the chip select do to the chip. The contract of the controller is stated over a
  view of its state: the transfer that is set up, the room and the fill level it reported last,
  the bytes still to come in, and the chip; \<open>lag\<close> bounds how often it can keep the driver
  waiting during one transfer.
\<close>

section \<open>The wire\<close>

record 'f wire =
  w_out :: "3 word \<Rightarrow> u8 \<Rightarrow> 'f \<Rightarrow> 'f"
  w_in :: "3 word \<Rightarrow> 'f \<Rightarrow> u8 \<times> 'f"
  w_end :: "'f \<Rightarrow> 'f"

fun outs :: "'f wire \<Rightarrow> 3 word \<Rightarrow> bytes \<Rightarrow> 'f \<Rightarrow> 'f" where
  "outs W io [] f = f"
| "outs W io (b # bs) f = outs W io bs (w_out W io b f)"

fun ins :: "'f wire \<Rightarrow> 3 word \<Rightarrow> nat \<Rightarrow> 'f \<Rightarrow> bytes \<times> 'f" where
  "ins W io 0 f = ([], f)"
| "ins W io (Suc n) f = (case w_in W io f of (b, f) \<Rightarrow> case ins W io n f of (bs, f) \<Rightarrow> (b # bs, f))"

definition release :: "'f wire \<Rightarrow> bool \<Rightarrow> 'f \<Rightarrow> 'f" where
  "release W fragment f = (if fragment then f else w_end W f)"

lemma outs_append [simp]: "outs W io (xs @ ys) f = outs W io ys (outs W io xs f)"
  by (induction xs arbitrary: f) auto

lemma length_ins [simp]: "length (fst (ins W io n f)) = n"
  by (induction n arbitrary: f) (auto split: prod.splits, metis fst_conv)

lemma ins_add:
  "ins W io (n + k) f =
     (fst (ins W io n f) @ fst (ins W io k (snd (ins W io n f))), snd (ins W io k (snd (ins W io n f))))"
  by (induction n arbitrary: f) (auto split: prod.splits)

section \<open>The contract of the controller\<close>

record 'f pio_view =
  pv_write :: bool
  pv_mode :: "3 word"
  pv_fragment :: bool
  pv_left :: nat
  pv_room :: nat
  pv_pending :: bytes
  pv_avail :: nat
  pv_chip :: 'f

definition pio_idle :: "'f pio_view \<Rightarrow> bool" where
  "pio_idle a \<longleftrightarrow> pv_left a = 0 \<and> pv_pending a = []"

definition QSPI_MAX_STALLS :: nat where "QSPI_MAX_STALLS = 0x1C000"

text \<open>Bytes pushed into the write FIFO; the chip select goes with the last one, unless the
  transfer is a fragment.\<close>

definition push :: "'f wire \<Rightarrow> bytes \<Rightarrow> 'f pio_view \<Rightarrow> 'f pio_view" where
  "push W bs a =
     (if bs = [] then a else
     a\<lparr>pv_left := pv_left a - length bs, pv_room := pv_room a - length bs,
       pv_chip := release W (pv_fragment a \<or> pv_left a \<noteq> length bs) (outs W (pv_mode a) bs (pv_chip a))\<rparr>)"

text \<open>Setting the request count starts a transfer.\<close>

definition started :: "'f wire \<Rightarrow> nat \<Rightarrow> 'f pio_view \<Rightarrow> 'f pio_view" where
  "started W n a =
     (if pv_write a then a\<lparr>pv_left := n, pv_room := 0\<rparr>
      else case ins W (pv_mode a) n (pv_chip a) of
        (bs, f) \<Rightarrow> a\<lparr>pv_pending := bs, pv_avail := 0, pv_chip := release W (pv_fragment a) f\<rparr>)"

definition configured :: "u32 \<Rightarrow> 'f pio_view \<Rightarrow> 'f pio_view" where
  "configured v a = a\<lparr>pv_write := bit v 0, pv_mode := ucast (drop_bit 1 v), pv_fragment := bit v 8\<rparr>"

definition wr_room :: "u32 \<Rightarrow> nat" where
  "wr_room v = unat (drop_bit 16 (v AND 0xFFFF0000))"

definition rd_count :: "u32 \<Rightarrow> nat" where
  "rd_count v = unat (drop_bit 4 (v AND 0x7F0))"

text \<open>What reading \<open>v\<close> from \<open>r\<close> means for the view and the lag before (\<open>a\<close>, \<open>k\<close>) and after
  (\<open>b\<close>, \<open>k'\<close>): a report of less than a word, and less than what is left, uses up lag.\<close>

definition rd_law :: "qspi_reg \<Rightarrow> u32 \<Rightarrow> 'f pio_view \<Rightarrow> nat \<Rightarrow> 'f pio_view \<Rightarrow> nat \<Rightarrow> bool" where
  "rd_law r v a k b k' \<longleftrightarrow>
     (case r of
        QSPI_PIO_TRANSFER_STATUS \<Rightarrow>
          b = a\<lparr>pv_room := wr_room v\<rparr> \<and> k' \<le> k \<and> (wr_room v < min 4 (pv_left a) \<longrightarrow> k' < k)
      | QSPI_RD_FIFO_STATUS \<Rightarrow>
          b = a\<lparr>pv_avail := rd_count v\<rparr> \<and> rd_count v \<le> length (pv_pending a) \<and> k' \<le> k
          \<and> (rd_count v < min 4 (length (pv_pending a)) \<longrightarrow> k' < k)
      | QSPI_RD_FIFO i \<Rightarrow>
          (let n = min 4 (length (pv_pending a))
           in n \<le> pv_avail a \<longrightarrow>
                take n (le_bytes32 v) = take n (pv_pending a) \<and> k' \<le> k
                \<and> b = a\<lparr>pv_pending := drop n (pv_pending a), pv_avail := pv_avail a - n\<rparr>)
      | _ \<Rightarrow> b = a \<and> k' \<le> k)"

definition wr_law :: "'f wire \<Rightarrow> qspi_reg \<Rightarrow> u32 \<Rightarrow> 'f pio_view \<Rightarrow> nat \<Rightarrow> 'f pio_view \<Rightarrow> nat \<Rightarrow> bool" where
  "wr_law W r v a k b k' \<longleftrightarrow>
     (case r of
        QSPI_PIO_TRANSFER_CONFIG \<Rightarrow> pio_idle a \<longrightarrow> b = configured v a \<and> k' \<le> k
      | QSPI_PIO_TRANSFER_CONTROL \<Rightarrow>
          pio_idle a \<and> v AND 0xFFFF \<noteq> 0 \<longrightarrow> b = started W (unat (v AND 0xFFFF)) a \<and> k' \<le> QSPI_MAX_STALLS
      | QSPI_PIO_DATAOUT_4BYTE \<Rightarrow> 4 \<le> pv_left a \<and> 4 \<le> pv_room a \<longrightarrow> b = push W (le_bytes32 v) a \<and> k' \<le> k
      | QSPI_PIO_DATAOUT_1BYTE \<Rightarrow> 1 \<le> pv_left a \<and> 1 \<le> pv_room a \<longrightarrow> b = push W [ucast v] a \<and> k' \<le> k
      | QSPI_MSTR_INT_STATUS \<Rightarrow> b = a \<and> k' \<le> k
      | _ \<Rightarrow> True)"

definition pio_controller :: "'d qspi_hw \<Rightarrow> 'f wire \<Rightarrow> ('d \<Rightarrow> 'f pio_view) \<Rightarrow> ('d \<Rightarrow> nat) \<Rightarrow> bool" where
  "pio_controller hw W view lag \<longleftrightarrow>
     (\<forall>r d. rd_law r (fst (qh_rd hw r d)) (view d) (lag d) (view (snd (qh_rd hw r d))) (lag (snd (qh_rd hw r d))))
     \<and> (\<forall>r v d. wr_law W r v (view d) (lag d) (view (qh_wr hw r v d)) (lag (qh_wr hw r v d)))"

lemma pio_controller_rd:
  "pio_controller hw W view lag \<Longrightarrow> qh_rd hw r d = (v, d') \<Longrightarrow> rd_law r v (view d) (lag d) (view d') (lag d')"
  unfolding pio_controller_def by (metis fst_conv snd_conv)

lemma pio_controller_wr:
  "pio_controller hw W view lag \<Longrightarrow> wr_law W r v (view d) (lag d) (view (qh_wr hw r v d)) (lag (qh_wr hw r v d))"
  unfolding pio_controller_def by blast

section \<open>The register functions under the contract\<close>

lemma set_count_bits: "((v AND NOT 0xFFFF) OR (push_bit 0 (ucast (c :: u16)) AND 0xFFFF)) AND 0xFFFF = (ucast c :: u32)"
proof -
  have m: "(0xFFFF :: u32) = mask 16" by (simp add: mask_eq_exp_minus_1)
  show ?thesis unfolding m by (rule bit_eqI) (auto simp: bit_simps dest: bit_imp_le_length)
qed

lemma set_byte_bits: "ucast ((v AND NOT 0xFF) OR (push_bit 0 (ucast (b :: u8)) AND 0xFF) :: u32) = b"
proof -
  have m: "(0xFF :: u32) = mask 8" by (simp add: mask_eq_exp_minus_1)
  show ?thesis unfolding m by (rule bit_eqI) (auto simp: bit_simps dest: bit_imp_le_length)
qed

lemma rd_count_u8: "unat (ucast (drop_bit 4 (v AND 0x7F0)) :: u8) = rd_count v" and rd_count_le: "rd_count v \<le> 127"
proof -
  have m: "(0x7F0 :: u32) = push_bit 4 (mask 7)" by (simp add: mask_eq_exp_minus_1)
  have "drop_bit 4 (v AND 0x7F0) = take_bit 7 (drop_bit 4 v)"
    unfolding m by (rule bit_eqI) (auto simp: bit_simps)
  then have "rd_count v = take_bit 7 (unat (drop_bit 4 v))"
    unfolding rd_count_def by (simp only: unsigned_take_bit_eq)
  then have c: "rd_count v < 2 ^ 7" by (simp only: take_bit_nat_less_exp)
  then show "rd_count v \<le> 127" by simp
  from c have "unat (drop_bit 4 (v AND 0x7F0)) < 2 ^ 8" unfolding rd_count_def by simp
  then show "unat (ucast (drop_bit 4 (v AND 0x7F0)) :: u8) = rd_count v"
    unfolding rd_count_def unsigned_ucast_eq by (simp add: take_bit_nat_eq_self)
qed

lemma pio_config_view:
  "configured ((reg AND NOT (0xE OR 0x100 OR 0x1)) OR
      (ucast (of_bool w :: u8) OR push_bit 1 (ucast (ucast (io :: 3 word) :: u8)) OR push_bit 8 (ucast (of_bool fr :: u8)))) a =
   a\<lparr>pv_write := w, pv_mode := io, pv_fragment := fr\<rparr>" (is "configured ?v a = _")
proof -
  have m: "bit (0xE OR 0x100 OR 0x1 :: u32) n \<longleftrightarrow> n \<in> {0, 1, 2, 3, 8}" for n
  proof -
    have "(0xE OR 0x100 OR 0x1 :: u32) = push_bit 1 (mask 3) OR push_bit 8 1 OR 1" by (simp add: mask_eq_exp_minus_1)
    then show ?thesis by (simp only: bit_or_iff bit_push_bit_iff bit_mask_iff bit_1_iff) auto
  qed
  have io: "bit (ucast (ucast io :: u8) :: u32) n = bit io n" for n
    by (auto simp: bit_simps dest: bit_imp_le_length)
  have b: "bit (ucast (of_bool c :: u8) :: u32) n \<longleftrightarrow> n = 0 \<and> c" for n c
    by (cases c) (auto simp: bit_1_iff)
  have v: "bit ?v n \<longleftrightarrow> n < 32 \<and> (bit reg n \<and> n \<notin> {0, 1, 2, 3, 8} \<or> n = 0 \<and> w \<or> 1 \<le> n \<and> bit io (n - 1) \<or> n = 8 \<and> fr)" for n
    unfolding bit_or_iff bit_and_iff bit_not_iff bit_push_bit_iff io b m [unfolded bit_or_iff]
    by (auto dest: bit_imp_le_length)
  have "bit ?v 0 = w" and "bit ?v 8 = fr" unfolding v by (auto dest: bit_imp_le_length)
  moreover have "ucast (drop_bit 1 ?v) = io"
  proof (rule bit_eqI)
    fix n assume "possible_bit TYPE(3 word) n"
    then have "n < 3" by simp
    then have "bit (drop_bit 1 ?v) n = bit io n" unfolding bit_drop_bit_eq comp_def v by auto
    with \<open>n < 3\<close> show "bit (ucast (drop_bit 1 ?v) :: 3 word) n = bit io n" by (simp add: bit_ucast_iff del: drop_bit_or)
  qed
  ultimately show ?thesis by (simp add: configured_def)
qed

lemma set_pio_config_view:
  assumes C: "pio_controller hw W view lag" and "pio_idle (view d)"
  shows "view (hal_qspi_set_pio_config hw (of_bool w) (ucast (io :: 3 word)) (of_bool fr) d) =
    (view d)\<lparr>pv_write := w, pv_mode := io, pv_fragment := fr\<rparr>"
proof -
  obtain v d1 where rd: "qh_rd hw QSPI_PIO_TRANSFER_CONFIG d = (v, d1)" by fastforce
  have v1: "view d1 = view d" using pio_controller_rd [OF C rd] by (simp add: rd_law_def)
  show ?thesis
    using pio_controller_wr [OF C, of QSPI_PIO_TRANSFER_CONFIG _ d1] assms(2) pio_config_view [of v w io fr "view d"]
    by (simp add: hal_qspi_set_pio_config_def rd wr_law_def v1)
qed

lemma set_count_view:
  assumes C: "pio_controller hw W view lag" and "pio_idle (view d)" and n: "0 < unat n" "unat n < 2 ^ 16"
    and d': "d' = hal_qspi_set_pio_transfer_control_request_count hw (ucast (n :: u32)) d"
  shows "view d' = started W (unat n) (view d)" and "lag d' \<le> QSPI_MAX_STALLS"
proof -
  obtain v d1 where rd: "qh_rd hw QSPI_PIO_TRANSFER_CONTROL d = (v, d1)" by fastforce
  have v1: "view d1 = view d" using pio_controller_rd [OF C rd] by (simp add: rd_law_def)
  let ?v = "(v AND NOT 0xFFFF) OR (push_bit 0 (ucast (ucast n :: u16)) AND 0xFFFF)"
  have cnt: "unat (?v AND 0xFFFF) = unat n"
    unfolding set_count_bits using n(2) by (simp add: unat_narrow_u16)
  then have "?v AND 0xFFFF \<noteq> 0" using n(1) by (metis unat_0 less_irrefl)
  with pio_controller_wr [OF C, of QSPI_PIO_TRANSFER_CONTROL ?v d1] assms(2) cnt
  have "view (qh_wr hw QSPI_PIO_TRANSFER_CONTROL ?v d1) = started W (unat n) (view d)
      \<and> lag (qh_wr hw QSPI_PIO_TRANSFER_CONTROL ?v d1) \<le> QSPI_MAX_STALLS"
    unfolding wr_law_def v1 by (simp only: qspi_reg.case) simp
  moreover have "d' = qh_wr hw QSPI_PIO_TRANSFER_CONTROL ?v d1"
    unfolding d' hal_qspi_set_pio_transfer_control_request_count_def field_set_def rd by simp
  ultimately show "view d' = started W (unat n) (view d)" and "lag d' \<le> QSPI_MAX_STALLS" by simp_all
qed

section \<open>Writing through the FIFO\<close>

lemma push_Nil [simp]: "push W [] a = a"
  by (simp add: push_def)

lemma push_append:
  assumes "length xs + length ys \<le> pv_left a"
  shows "push W ys (push W xs a) = push W (xs @ ys) a"
proof (cases "xs = [] \<or> ys = []")
  case False
  then have ne: "xs \<noteq> []" "ys \<noteq> []" "xs @ ys \<noteq> []" by auto
  have rel: "release W (fr \<or> l - x \<noteq> y) (g (release W (fr \<or> l \<noteq> x) c)) = release W (fr \<or> l \<noteq> x + y) (g c)"
    if "0 < y" "x + y \<le> l" for fr l x g c and y :: nat
  proof -
    have "l \<noteq> x" "(l - x \<noteq> y) = (l \<noteq> x + y)" using that by auto
    then show ?thesis by (simp only: release_def simp_thms if_True)
  qed
  have "0 < length ys" using ne by simp
  note rel = rel [OF this assms]
  show ?thesis
    by (rule pio_view.equality) (simp_all add: push_def ne diff_diff_left rel del: length_greater_0_conv)
qed auto

lemma push_room: "push W bs (a\<lparr>pv_room := r\<rparr>) = (push W bs a)\<lparr>pv_room := r - length bs\<rparr>"
  by (simp add: push_def)

lemma pv_push [simp]:
  "pv_left (push W bs a) = pv_left a - length bs" "pv_room (push W bs a) = pv_room a - length bs"
  "pv_pending (push W bs a) = pv_pending a" "pv_mode (push W bs a) = pv_mode a"
  by (simp_all add: push_def)

lemma unat_and_3: "unat (a AND 3 :: u32) = unat a mod 4"
proof -
  have "a AND 3 = take_bit 2 a" by (simp add: take_bit_eq_mask mask_eq_exp_minus_1)
  then have "unat (a AND 3) = take_bit 2 (unat a)" by (simp only: unsigned_take_bit_eq)
  then show ?thesis by (simp add: take_bit_eq_mod)
qed

lemma unat_drop_2: "unat (drop_bit 2 a :: u32) = unat a div 4"
  by (simp add: drop_bit_eq_div unat_div_distrib)

lemma word_aligned_unat: "word_aligned a \<longleftrightarrow> unat a mod 4 = 0"
  unfolding word_aligned_def using unat_and_3 [of a] by (metis unat_0 unat_eq_zero)

lemma word_aligned_add: "word_aligned a \<Longrightarrow> 4 dvd k \<Longrightarrow> word_aligned (a + of_nat k)"
proof -
  assume "word_aligned a" "4 dvd k"
  then have "4 dvd unat a + k" by (auto simp: word_aligned_unat dvd_eq_mod_eq_0 mod_add_eq)
  then have "4 dvd (unat a + k) mod 2 ^ 32" by (simp add: dvd_mod)
  moreover have "unat (a + of_nat k) = (unat a + k) mod 2 ^ 32"
    by (simp add: unat_word_ariths unat_of_nat mod_simps)
  ultimately show "word_aligned (a + of_nat k)" by (simp add: word_aligned_unat)
qed

lemma push4_law:
  assumes "pio_controller hw W view lag" and "4 \<le> pv_left (view d)" and "4 \<le> pv_room (view d)"
  shows "view (hal_qspi_pio_write_4bytes hw (word_at m a) d) = push W (mem_read m a 4) (view d)"
    and "lag (hal_qspi_pio_write_4bytes hw (word_at m a) d) \<le> lag d"
  using pio_controller_wr [OF assms(1), of QSPI_PIO_DATAOUT_4BYTE "word_at m a" d] assms(2,3)
  by (simp_all add: hal_qspi_pio_write_4bytes_def wr_law_def word_at_def le_bytes32_le32)

lemma push1_law:
  assumes C: "pio_controller hw W view lag" and "1 \<le> pv_left (view d)" and "1 \<le> pv_room (view d)"
  shows "view (hal_qspi_pio_write_1bytes hw b d) = push W [b] (view d)" and "lag (hal_qspi_pio_write_1bytes hw b d) \<le> lag d"
proof -
  obtain v d1 where rd: "qh_rd hw QSPI_PIO_DATAOUT_1BYTE d = (v, d1)" by fastforce
  have v1: "view d1 = view d" "lag d1 \<le> lag d" using pio_controller_rd [OF C rd] by (simp_all add: rd_law_def)
  let ?v = "(v AND NOT 0xFF) OR (push_bit 0 (ucast b) AND 0xFF)"
  have "view (qh_wr hw QSPI_PIO_DATAOUT_1BYTE ?v d1) = push W [ucast ?v] (view d)
      \<and> lag (qh_wr hw QSPI_PIO_DATAOUT_1BYTE ?v d1) \<le> lag d1"
    using pio_controller_wr [OF C, of QSPI_PIO_DATAOUT_1BYTE ?v d1] assms(2,3)
    unfolding wr_law_def v1 by (simp only: qspi_reg.case)
  moreover have "hal_qspi_pio_write_1bytes hw b d = qh_wr hw QSPI_PIO_DATAOUT_1BYTE ?v d1"
    unfolding hal_qspi_pio_write_1bytes_def field_set_def rd by simp
  ultimately show "view (hal_qspi_pio_write_1bytes hw b d) = push W [b] (view d)"
    and "lag (hal_qspi_pio_write_1bytes hw b d) \<le> lag d"
    using v1(2) unfolding set_byte_bits by simp_all
qed

lemma tx_words_push:
  assumes C: "pio_controller hw W view lag"
  shows "word_aligned ptr \<Longrightarrow> 4 * n \<le> pv_left (view d) \<Longrightarrow> 4 * n \<le> pv_room (view d) \<Longrightarrow>
    \<exists>d'. tx_words hw n ptr m d = Some d' \<and> view d' = push W (mem_read m ptr (4 * n)) (view d) \<and> lag d' \<le> lag d"
proof (induction n arbitrary: ptr d)
  case 0
  then show ?case by simp
next
  case (Suc n)
  let ?d = "hal_qspi_pio_write_4bytes hw (word_at m ptr) d"
  have d: "view ?d = push W (mem_read m ptr 4) (view d)" "lag ?d \<le> lag d"
    using push4_law [OF C, of d m ptr] Suc.prems(2,3) by simp_all
  have al: "word_aligned (ptr + 4)" using word_aligned_add [OF Suc.prems(1), of 4] by simp
  obtain d' where d': "tx_words hw n (ptr + 4) m ?d = Some d'"
      "view d' = push W (mem_read m (ptr + 4) (4 * n)) (view ?d)" "lag d' \<le> lag ?d"
  proof -
    have "4 * n \<le> pv_left (view ?d)" "4 * n \<le> pv_room (view ?d)" using Suc.prems(2,3) by (simp_all add: d(1))
    from Suc.IH [OF al this] show ?thesis using that by blast
  qed
  have "view d' = push W (mem_read m ptr (4 * Suc n)) (view d)"
    using Suc.prems(2) mem_read_add [of m ptr 4 "4 * n"] by (simp add: d' d push_append)
  then show ?case using Suc.prems(1) d' d(2) by auto
qed

lemma tx_bytes_push:
  assumes C: "pio_controller hw W view lag"
  shows "n \<le> pv_left (view d) \<Longrightarrow> n \<le> pv_room (view d) \<Longrightarrow>
    view (tx_bytes hw n ptr m d) = push W (mem_read m ptr n) (view d) \<and> lag (tx_bytes hw n ptr m d) \<le> lag d"
proof (induction n arbitrary: ptr d)
  case 0
  then show ?case by simp
next
  case (Suc n)
  let ?d = "hal_qspi_pio_write_1bytes hw (m ptr) d"
  have d: "view ?d = push W [m ptr] (view d)" "lag ?d \<le> lag d"
    using push1_law [OF C, of d "m ptr"] Suc.prems by simp_all
  have IH: "view (tx_bytes hw n (ptr + 1) m ?d) = push W (mem_read m (ptr + 1) n) (view ?d)
      \<and> lag (tx_bytes hw n (ptr + 1) m ?d) \<le> lag ?d"
    using Suc.prems by (intro Suc.IH) (auto simp: d)
  have "mem_read m ptr (Suc n) = [m ptr] @ mem_read m (ptr + 1) n"
    using mem_read_add [of m ptr 1 n] by (simp add: mem_read_def)
  then show ?case using IH d Suc.prems(1) by (simp add: push_append)
qed

text \<open>Whole words as far as they fit, and the rest when everything fits.\<close>

definition fifo_chunk :: "nat \<Rightarrow> nat \<Rightarrow> nat" where
  "fifo_chunk room n = (if room < n then 4 * min (room div 4) (n div 4) else n)"

lemma fifo_chunk_le: "fifo_chunk room n \<le> n" "fifo_chunk room n \<le> room"
  by (auto simp: fifo_chunk_def)

lemma fifo_chunk_dvd: "fifo_chunk room n < n \<Longrightarrow> 4 dvd fifo_chunk room n"
  by (auto simp: fifo_chunk_def split: if_splits)

lemma fifo_chunk_0: "fifo_chunk room n = 0 \<Longrightarrow> 0 < n \<Longrightarrow> room < min 4 n"
  by (auto simp: fifo_chunk_def min_def split: if_splits)

lemma fifo_words:
  fixes num room :: u32
  defines "w \<equiv> (if drop_bit 2 num > drop_bit 2 room then drop_bit 2 room else drop_bit 2 num)"
    and "b \<equiv> (if num > room then 0 else num AND 3)"
  shows "unat w = min (unat room div 4) (unat num div 4)"
    and "unat b = (if unat room < unat num then 0 else unat num mod 4)"
    and "4 * unat w + unat b = fifo_chunk (unat room) (unat num)"
    and "w * 4 + b = of_nat (fifo_chunk (unat room) (unat num))"
proof -
  show w: "unat w = min (unat room div 4) (unat num div 4)"
    by (auto simp: w_def word_less_nat_alt unat_drop_2 min_def)
  show b: "unat b = (if unat room < unat num then 0 else unat num mod 4)"
    by (simp add: b_def word_less_nat_alt unat_and_3)
  show sum: "4 * unat w + unat b = fifo_chunk (unat room) (unat num)"
    using div_le_mono [of "unat num" "unat room" 4] unfolding w b fifo_chunk_def by (simp add: min_absorb2)
  have "w * 4 + b = of_nat (4 * unat w + unat b)" by simp
  then show "w * 4 + b = of_nat (fifo_chunk (unat room) (unat num))" unfolding sum .
qed

text \<open>What is left after a poll, for both directions.\<close>

lemma left_after:
  assumes "k \<le> unat (num :: u32)"
  shows "unat (num - of_nat k) = unat num - k"
proof -
  have "k < 2 ^ 32" using assms unsigned_less [of num, where ?'a = nat] by simp
  then have "unat (of_nat k :: u32) = k" by (simp add: unat_of_nat)
  then show ?thesis using assms by (simp add: unat_sub word_le_nat_alt)
qed

lemma polls_left:
  assumes "4 dvd k" and "k \<le> n" and "lag' \<le> lag" and "k = 0 \<longrightarrow> lag' < lag" and "(n + 3) div 4 + lag + retry \<le> (limit :: nat)"
  shows "(n - k + 3) div 4 + lag' + (retry + 1) \<le> limit"
proof -
  obtain q where q: "k = 4 * q" using assms(1) by blast
  have "n + 3 = (n - k + 3) + q * 4" using assms(2) q by simp
  then have "(n + 3) div 4 = (n - k + 3) div 4 + q" by (simp only: div_mult_self1)
  moreover have "q = 0 \<longrightarrow> lag' < lag" using assms(4) q by simp
  ultimately show ?thesis using assms(3,5) by linarith
qed

lemma service_txfifo_push:
  assumes C: "pio_controller hw W view lag" and al: "word_aligned ptr" and left: "pv_left (view d) = unat num" and "num \<noteq> 0"
  shows "\<exists>k d' r. drv_qspi_service_txfifo hw ptr num m d = Some (of_nat k, d') \<and> k \<le> unat num
    \<and> view d' = (push W (mem_read m ptr k) (view d))\<lparr>pv_room := r\<rparr> \<and> lag d' \<le> lag d
    \<and> (k = 0 \<longrightarrow> lag d' < lag d) \<and> (k < unat num \<longrightarrow> 4 dvd k)"
proof -
  obtain v d1 where rd: "qh_rd hw QSPI_PIO_TRANSFER_STATUS d = (v, d1)" by fastforce
  define room where "room = drop_bit 16 (v AND 0xFFFF0000)"
  have r: "wr_room v = unat room" by (simp add: wr_room_def room_def)
  have v1: "view d1 = (view d)\<lparr>pv_room := unat room\<rparr>" "lag d1 \<le> lag d"
      "unat room < min 4 (unat num) \<longrightarrow> lag d1 < lag d"
    using pio_controller_rd [OF C rd] unfolding rd_law_def r left by simp_all
  have get: "hal_qspi_get_pio_transfer_wr_fifo_bytes hw d = (room, d1)"
    unfolding hal_qspi_get_pio_transfer_wr_fifo_bytes_def field_get_def rd room_def by simp
  define w where "w = (if drop_bit 2 num > drop_bit 2 room then drop_bit 2 room else drop_bit 2 num)"
  define b where "b = (if num > room then 0 else num AND 3)"
  let ?k = "fifo_chunk (unat room) (unat num)"
  note wb = fifo_words [of room num, folded w_def b_def]
  have le: "?k \<le> unat num" "?k \<le> unat room" by (rule fifo_chunk_le)+
  obtain d2 where d2: "tx_words hw (unat w) ptr m d1 = Some d2"
      "view d2 = push W (mem_read m ptr (4 * unat w)) (view d1)" "lag d2 \<le> lag d1"
    using tx_words_push [OF C al, of "unat w" d1 m] le wb(3) left by (auto simp: v1(1))
  let ?d3 = "tx_bytes hw (unat b) (ptr + w * 4) m d2"
  have ptr: "ptr + w * 4 = ptr + of_nat (4 * unat w)" by simp
  have d3: "view ?d3 = push W (mem_read m (ptr + w * 4) (unat b)) (view d2)" "lag ?d3 \<le> lag d2"
    using tx_bytes_push [OF C, of "unat b" d2 "ptr + w * 4" m] le wb(3) left by (auto simp: d2(2) v1(1))
  have "mem_read m ptr ?k = mem_read m ptr (4 * unat w) @ mem_read m (ptr + w * 4) (unat b)"
    unfolding ptr wb(3) [symmetric] by (rule mem_read_add)
  then have "view ?d3 = push W (mem_read m ptr ?k) (view d1)"
    unfolding d3(1) d2(2) using le(1) wb(3) left by (simp add: push_append v1(1))
  then have view: "view ?d3 = (push W (mem_read m ptr ?k) (view d))\<lparr>pv_room := unat room - ?k\<rparr>"
    by (simp add: v1(1) push_room)
  have "drv_qspi_service_txfifo hw ptr num m d = Some (of_nat ?k, ?d3)"
    unfolding drv_qspi_service_txfifo_def Let_def get prod.case w_def [symmetric] b_def [symmetric] d2(1) wb(4) [symmetric]
    by simp
  moreover have "lag ?d3 \<le> lag d1" using d3(2) d2(3) by simp
  moreover have "?k = 0 \<longrightarrow> lag d1 < lag d"
    using v1(3) fifo_chunk_0 [of "unat room" "unat num"] \<open>num \<noteq> 0\<close> by (auto simp: unat_gt_0)
  ultimately show ?thesis using le(1) view v1(2) fifo_chunk_dvd [of "unat room" "unat num"] by fastforce
qed

lemma tx_poll_push:
  assumes C: "pio_controller hw W view lag"
  shows "word_aligned ptr \<Longrightarrow> pv_left (view d) = unat num \<Longrightarrow>
    \<exists>d' r. tx_poll hw ptr num m d = Some d' \<and> view d' = (push W (mem_read m ptr (unat num)) (view d))\<lparr>pv_room := r\<rparr>"
proof (induction "unat num + lag d" arbitrary: ptr num d rule: less_induct)
  case less
  show ?case
  proof (cases "num = 0")
    case True
    then have "tx_poll hw ptr num m d = Some d" by (simp add: tx_poll.simps)
    then show ?thesis using True by (auto intro!: exI [of _ "pv_room (view d)"])
  next
    case False
    obtain k d1 r where s: "drv_qspi_service_txfifo hw ptr num m d = Some (of_nat k, d1)" "k \<le> unat num"
        "view d1 = (push W (mem_read m ptr k) (view d))\<lparr>pv_room := r\<rparr>" "lag d1 \<le> lag d"
        "k = 0 \<longrightarrow> lag d1 < lag d" "k < unat num \<longrightarrow> 4 dvd k"
      using service_txfifo_push [OF C less.prems False] by blast
    have poll: "tx_poll hw ptr num m d = tx_poll hw (ptr + of_nat k) (num - of_nat k) m d1"
      using False by (simp add: tx_poll.simps [of hw ptr num] s(1))
    note num' = left_after [OF s(2)]
    show ?thesis
    proof (cases "k = unat num")
      case True
      then have "num - of_nat k = 0" by simp
      then have "tx_poll hw ptr num m d = Some d1" unfolding poll by (simp add: tx_poll.simps)
      then show ?thesis using s(3) True by auto
    next
      case False
      with s(2) have "k < unat num" by simp
      with s(6) have al: "word_aligned (ptr + of_nat k)" using word_aligned_add [OF less.prems(1)] by blast
      have dec: "unat (num - of_nat k) + lag d1 < unat num + lag d"
        using s(2,4,5) num' \<open>k < unat num\<close> by (cases "k = 0") auto
      have left: "pv_left (view d1) = unat (num - of_nat k)" using s(3) less.prems(2) num' by simp
      obtain d' r' where d': "tx_poll hw (ptr + of_nat k) (num - of_nat k) m d1 = Some d'"
          "view d' = (push W (mem_read m (ptr + of_nat k) (unat num - k)) (view d1))\<lparr>pv_room := r'\<rparr>"
        using less.hyps [OF dec al left] unfolding num' by blast
      have "mem_read m ptr k @ mem_read m (ptr + of_nat k) (unat num - k) = mem_read m ptr (unat num)"
        using mem_read_add [of m ptr k "unat num - k"] s(2) by simp
      then have "push W (mem_read m (ptr + of_nat k) (unat num - k)) (push W (mem_read m ptr k) (view d))
          = push W (mem_read m ptr (unat num)) (view d)"
        using less.prems(2) s(2) by (simp add: push_append)
      then have "view d' = (push W (mem_read m ptr (unat num)) (view d))\<lparr>pv_room := r'\<rparr>"
        unfolding d'(2) s(3) push_room by simp
      then show ?thesis using d'(1) poll by auto
    qed
  qed
qed

lemma done_poll_view:
  assumes C: "pio_controller hw W view lag"
  shows "view (snd (done_poll hw retry d)) = view d"
  using C
proof (induction hw retry d rule: done_poll.induct)
  case (1 hw retry d)
  obtain v d1 where rd: "qh_rd hw QSPI_MSTR_INT_STATUS d = (v, d1)" by fastforce
  have v1: "view d1 = view d" using pio_controller_rd [OF 1(2) rd] by (simp add: rd_law_def)
  obtain x where x: "hal_qspi_check_pio_transaction_done hw d = (x, d1)"
    by (simp add: hal_qspi_check_pio_transaction_done_def field_get_def rd)
  show ?case
    using 1(1) [OF x [symmetric]] 1(2) v1 by (subst done_poll.simps) (auto simp: x)
qed

lemma pio_write_chip:
  assumes C: "pio_controller hw W view lag" and idle: "pio_idle (view d)" and al: "word_aligned ptr"
    and n: "0 < unat num" "unat num < 2 ^ 16"
  shows "\<exists>msg d'. drv_qspi_pio_write hw ptr num 1 (ucast (io :: 3 word)) (of_bool fr) m d = Some (msg, d') \<and> pio_idle (view d')
    \<and> pv_chip (view d') = release W fr (outs W io (mem_read m ptr (unat num)) (pv_chip (view d)))"
proof -
  let ?d1 = "hal_qspi_clear_isr_status hw d"
  let ?d2 = "hal_qspi_set_pio_config hw 1 (ucast io) (of_bool fr) ?d1"
  let ?d3 = "hal_qspi_set_pio_transfer_control_request_count hw (ucast num) ?d2"
  have v1: "view ?d1 = view d"
    using pio_controller_wr [OF C, of QSPI_MSTR_INT_STATUS "0xFFFFFFFF" d] by (simp add: wr_law_def hal_qspi_clear_isr_status_def)
  have v2: "view ?d2 = (view d)\<lparr>pv_write := True, pv_mode := io, pv_fragment := fr\<rparr>"
    using set_pio_config_view [OF C, of ?d1 True io fr] idle v1 by simp
  then have idle2: "pio_idle (view ?d2)" using idle by (simp add: pio_idle_def)
  have v3: "view ?d3 = started W (unat num) (view ?d2)" by (rule set_count_view [OF C idle2 n refl])
  then have left: "pv_left (view ?d3) = unat num" and pend: "pv_pending (view ?d3) = []"
    using idle by (simp_all add: started_def v2 pio_idle_def)
  from tx_poll_push [OF C al left]
  obtain d4 r where d4: "tx_poll hw ptr num m ?d3 = Some d4"
    "view d4 = (push W (mem_read m ptr (unat num)) (view ?d3))\<lparr>pv_room := r\<rparr>" by blast
  have "pio_idle (view d4)" unfolding pio_idle_def d4(2) using left pend by (simp del: of_bool_eq_iff split del: split_of_bool)
  moreover have "pv_chip (view d4) = release W fr (outs W io (mem_read m ptr (unat num)) (pv_chip (view d)))"
    unfolding d4(2) push_def v3 started_def v2 using n(1) by (simp add: mem_read_def)
  moreover have "view (snd (done_poll hw 0 d4)) = view d4" by (rule done_poll_view [OF C])
  ultimately show ?thesis
    by (cases "done_poll hw 0 d4") (simp add: drv_qspi_pio_write_def Let_def d4(1))
qed

section \<open>Reading through the FIFO\<close>

lemma rx_words_read:
  assumes C: "pio_controller hw W view lag"
  shows "word_aligned ptr \<Longrightarrow> 4 * n \<le> pv_avail (view d) \<Longrightarrow> 4 * n \<le> length (pv_pending (view d)) \<Longrightarrow>
    \<exists>d'. rx_words hw i n ptr m d = Some (mem_write m ptr (take (4 * n) (pv_pending (view d))), d') \<and> lag d' \<le> lag d
      \<and> view d' = (view d)\<lparr>pv_pending := drop (4 * n) (pv_pending (view d)), pv_avail := pv_avail (view d) - 4 * n\<rparr>"
proof (induction n arbitrary: i ptr m d)
  case 0
  then show ?case by simp
next
  case (Suc n)
  obtain v d1 where rd: "qh_rd hw (QSPI_RD_FIFO i) d = (v, d1)" by fastforce
  let ?p = "pv_pending (view d)"
  have m4: "min 4 (length ?p) = 4" using Suc.prems(3) by simp
  have v1: "le_bytes32 v = take 4 ?p" "lag d1 \<le> lag d"
      "view d1 = (view d)\<lparr>pv_pending := drop 4 ?p, pv_avail := pv_avail (view d) - 4\<rparr>"
    using pio_controller_rd [OF C rd] Suc.prems(2) by (simp_all add: rd_law_def Let_def m4)
  have al: "word_aligned (ptr + 4)" using word_aligned_add [OF Suc.prems(1), of 4] by simp
  have "4 * n \<le> pv_avail (view d1)" "4 * n \<le> length (pv_pending (view d1))" using Suc.prems(2,3) by (simp_all add: v1(3))
  from Suc.IH [OF al this, of "Suc i" "mem_write m ptr (le_bytes32 v)"]
  obtain d' where d': "rx_words hw (Suc i) n (ptr + 4) (mem_write m ptr (le_bytes32 v)) d1
        = Some (mem_write (mem_write m ptr (le_bytes32 v)) (ptr + 4) (take (4 * n) (drop 4 ?p)), d')" "lag d' \<le> lag d1"
      "view d' = (view d)\<lparr>pv_pending := drop (4 * n) (drop 4 ?p), pv_avail := pv_avail (view d) - 4 - 4 * n\<rparr>"
    by (auto simp: v1(3))
  have split: "take (4 * Suc n) ?p = take 4 ?p @ take (4 * n) (drop 4 ?p)"
    by (simp add: take_add)
  have mw: "mem_write (mem_write m ptr (le_bytes32 v)) (ptr + 4) (take (4 * n) (drop 4 ?p)) = mem_write m ptr (take (4 * Suc n) ?p)"
    unfolding split mem_write_append v1(1) using Suc.prems(3) by simp
  have "rx_words hw i (Suc n) ptr m d = Some (mem_write m ptr (take (4 * Suc n) ?p), d')"
    using Suc.prems(1) d'(1) mw by (simp add: hal_qspi_get_pio_rd_fifo_def rd)
  moreover have "view d' = (view d)\<lparr>pv_pending := drop (4 * Suc n) ?p, pv_avail := pv_avail (view d) - 4 * Suc n\<rparr>"
    unfolding d'(3) by (simp add: add.commute)
  ultimately show ?case using d'(2) v1(2) by auto
qed

text \<open>The low bytes of the last word.\<close>

lemma partial_word: "k \<le> 4 \<Longrightarrow> map (\<lambda>i. ucast (drop_bit (i * 8) v)) [0..<k] = take k (le_bytes32 v)"
proof -
  assume "k \<le> 4"
  then have "k \<in> {0, 1, 2, 3, 4}" by auto
  then show ?thesis by (auto simp: le_bytes32_def upt_rec)
qed

text \<open>The end of a service: the bytes of a word that is not full, when everything has arrived.\<close>

lemma rx_tail:
  assumes C: "pio_controller hw W view lag" and p: "pv_pending (view d) = drop (4 * unat w) p"
    and k: "4 * unat w + unat b = k" "k \<le> length p" and b: "b \<noteq> 0 \<longrightarrow> k = length p \<and> unat b < 4 \<and> unat b \<le> pv_avail (view d)"
  shows "\<exists>d' a. (if b \<noteq> 0 then case hal_qspi_get_pio_rd_fifo hw i d of
         (word_value, d) \<Rightarrow> Some (w * 4 + b, mem_write (mem_write m ptr (take (4 * unat w) p)) (ptr + w * 4)
             (map (\<lambda>i. ucast (drop_bit (i * 8) word_value)) [0..<unat b]), d)
       else Some (w * 4 + b, mem_write m ptr (take (4 * unat w) p), d))
     = Some (w * 4 + b, mem_write m ptr (take k p), d') \<and> lag d' \<le> lag d
       \<and> view d' = (view d)\<lparr>pv_pending := drop k p, pv_avail := a\<rparr>"
proof (cases "b = 0")
  case True
  then have "k = 4 * unat w" using k(1) by simp
  then show ?thesis using True p by (auto intro!: exI [of _ "pv_avail (view d)"])
next
  case False
  obtain u d' where rd: "qh_rd hw (QSPI_RD_FIFO i) d = (u, d')" by fastforce
  have all: "k = length p" "unat b < 4" "unat b \<le> pv_avail (view d)" using b False by auto
  have len: "length (drop (4 * unat w) p) = unat b" using k(1) all(1) by simp
  then have "min 4 (length (pv_pending (view d))) = unat b" using all(2) by (simp add: p)
  then have r: "take (unat b) (le_bytes32 u) = drop (4 * unat w) p" "lag d' \<le> lag d"
      "view d' = (view d)\<lparr>pv_pending := [], pv_avail := pv_avail (view d) - unat b\<rparr>"
    using pio_controller_rd [OF C rd] all(3) len by (simp_all add: rd_law_def Let_def p)
  have "take k p = take (4 * unat w) p @ drop (4 * unat w) p" using all(1) by simp
  moreover have "ptr + w * 4 = ptr + of_nat (length (take (4 * unat w) p))" using k by simp
  ultimately have "mem_write (mem_write m ptr (take (4 * unat w) p)) (ptr + w * 4) (take (unat b) (le_bytes32 u))
      = mem_write m ptr (take k p)" using r(1) by (simp only: mem_write_append)
  moreover have "view d' = (view d)\<lparr>pv_pending := drop k p, pv_avail := pv_avail (view d) - unat b\<rparr>" using r(3) all(1) by simp
  ultimately show ?thesis
    using False r(2) partial_word [of "unat b" u] all(2) by (auto simp: hal_qspi_get_pio_rd_fifo_def rd)
qed

lemma ucast_drop_2: "(ucast (drop_bit 2 (c :: u8)) :: u32) = drop_bit 2 (ucast c)"
  by (rule bit_eqI) (auto simp: bit_simps dest: bit_imp_le_length)

lemma unat_u8_u32 [simp]: "unat (ucast (x :: u8) :: u32) = unat x"
  using unsigned_less [of x, where ?'a = nat] by (simp add: unsigned_ucast_eq take_bit_nat_eq_self)

lemma service_rxfifo_read:
  assumes C: "pio_controller hw W view lag" and al: "word_aligned ptr"
    and left: "length (pv_pending (view d)) = unat num" and "num \<noteq> 0"
  shows "\<exists>k d' c. drv_qspi_service_rxfifo hw ptr num m d = Some (of_nat k, mem_write m ptr (take k (pv_pending (view d))), d')
    \<and> k \<le> unat num \<and> view d' = (view d)\<lparr>pv_pending := drop k (pv_pending (view d)), pv_avail := c\<rparr> \<and> lag d' \<le> lag d
    \<and> (k = 0 \<longrightarrow> lag d' < lag d) \<and> (k < unat num \<longrightarrow> 4 dvd k)"
proof -
  obtain v d1 where rd: "qh_rd hw QSPI_RD_FIFO_STATUS d = (v, d1)" by fastforce
  define c :: u8 where "c = ucast (drop_bit 4 (v AND 0x7F0))"
  have c: "rd_count v = unat c" by (simp only: c_def rd_count_u8)
  let ?p = "pv_pending (view d)" and ?k = "fifo_chunk (unat c) (unat num)"
  have v1: "view d1 = (view d)\<lparr>pv_avail := unat c\<rparr>" "lag d1 \<le> lag d"
      "unat c < min 4 (unat num) \<longrightarrow> lag d1 < lag d"
    using pio_controller_rd [OF C rd] unfolding rd_law_def c left by simp_all
  have get: "hal_qspi_get_pio_rd_fifo_wrcnts hw d = (c, d1)"
    unfolding hal_qspi_get_pio_rd_fifo_wrcnts_def field_get_def rd c_def by simp
  define w :: u32 where "w = (if ucast (drop_bit 2 c) < drop_bit 2 num then ucast (drop_bit 2 c) else drop_bit 2 num)"
  define b :: u32 where "b = (if ucast c < num then 0 else num AND 3)"
  note wb = fifo_words [of "ucast c" num, folded w_def [unfolded ucast_drop_2] b_def, unfolded unat_u8_u32]
  have le: "?k \<le> unat num" "?k \<le> unat c" by (rule fifo_chunk_le)+
  obtain d2 where d2: "rx_words hw 0 (unat w) ptr m d1 = Some (mem_write m ptr (take (4 * unat w) ?p), d2)" "lag d2 \<le> lag d1"
      "view d2 = (view d)\<lparr>pv_pending := drop (4 * unat w) ?p, pv_avail := unat c - 4 * unat w\<rparr>"
    using rx_words_read [OF C al, of "unat w" d1 0 m] le wb(3) left by (auto simp: v1(1))
  have "b \<noteq> 0 \<longrightarrow> ?k = length ?p \<and> unat b < 4 \<and> unat b \<le> pv_avail (view d2)"
    using wb(2,3) le(2) left by (auto simp: d2(3) fifo_chunk_def unat_eq_zero split: if_splits)
  from rx_tail [OF C _ wb(3) _ this, where i = "unat w" and m = m and ptr = ptr]
  obtain d3 a where d3: "drv_qspi_service_rxfifo hw ptr num m d = Some (of_nat ?k, mem_write m ptr (take ?k ?p), d3)"
      "lag d3 \<le> lag d2" "view d3 = (view d2)\<lparr>pv_pending := drop ?k ?p, pv_avail := a\<rparr>"
    unfolding drv_qspi_service_rxfifo_def Let_def get prod.case w_def [symmetric] b_def [symmetric] d2(1) option.case wb(4)
    using d2(3) le(1) left by auto
  have "?k = 0 \<longrightarrow> lag d1 < lag d"
    using v1(3) fifo_chunk_0 [of "unat c" "unat num"] \<open>num \<noteq> 0\<close> by (auto simp: unat_gt_0)
  then show ?thesis using d3 d2(2,3) le(1) v1(2) fifo_chunk_dvd [of "unat c" "unat num"] by fastforce
qed

text \<open>The polling loop reads everything when the controller keeps it waiting at most as often as
  the retry limit leaves room for.\<close>

lemma rx_poll_read:
  assumes C: "pio_controller hw W view lag"
  shows "word_aligned ptr \<Longrightarrow> length (pv_pending (view d)) = unat num \<Longrightarrow>
    (unat num + 3) div 4 + lag d + retry \<le> MAX_READ_WAIT \<Longrightarrow>
    \<exists>retry' d' c. rx_poll hw ptr num retry m d = Some (0, retry', mem_write m ptr (pv_pending (view d)), d')
      \<and> view d' = (view d)\<lparr>pv_pending := [], pv_avail := c\<rparr>"
proof (induction "unat num + lag d" arbitrary: ptr num retry m d rule: less_induct)
  case less
  let ?p = "pv_pending (view d)"
  show ?case
  proof (cases "num = 0")
    case True
    then have "?p = []" using less.prems(2) by simp
    moreover have "rx_poll hw ptr num retry m d = Some (0, retry, m, d)" using True by (simp add: rx_poll.simps)
    ultimately show ?thesis by (auto intro!: exI [of _ "pv_avail (view d)"])
  next
    case False
    then have "0 < unat num" by (simp add: unat_gt_0)
    then have retry: "retry < MAX_READ_WAIT" using less.prems(3) by linarith
    obtain k d1 c where s: "drv_qspi_service_rxfifo hw ptr num m d = Some (of_nat k, mem_write m ptr (take k ?p), d1)"
        "k \<le> unat num" "view d1 = (view d)\<lparr>pv_pending := drop k ?p, pv_avail := c\<rparr>" "lag d1 \<le> lag d"
        "k = 0 \<longrightarrow> lag d1 < lag d" "k < unat num \<longrightarrow> 4 dvd k"
      using service_rxfifo_read [OF C less.prems(1,2) False] by blast
    let ?m = "mem_write m ptr (take k ?p)"
    have poll: "rx_poll hw ptr num retry m d = rx_poll hw (ptr + of_nat k) (num - of_nat k) (retry + 1) ?m d1"
      using False retry by (simp add: rx_poll.simps [of hw ptr num] s(1))
    note num' = left_after [OF s(2)]
    show ?thesis
    proof (cases "k = unat num")
      case True
      then have "num - of_nat k = 0" by simp
      then have "rx_poll hw ptr num retry m d = Some (0, retry + 1, ?m, d1)" unfolding poll by (simp add: rx_poll.simps)
      then show ?thesis using s(3) True less.prems(2) by auto
    next
      case False
      with s(2) have k: "k < unat num" by simp
      then have dvd: "4 dvd k" using s(6) by simp
      then have al: "word_aligned (ptr + of_nat k)" by (rule word_aligned_add [OF less.prems(1)])
      have dec: "unat (num - of_nat k) + lag d1 < unat num + lag d"
        using s(2,4,5) num' k by (cases "k = 0") auto
      have left: "length (pv_pending (view d1)) = unat (num - of_nat k)" using s(3) less.prems(2) num' by simp
      have fuel: "(unat (num - of_nat k) + 3) div 4 + lag d1 + (retry + 1) \<le> MAX_READ_WAIT"
        unfolding num' by (rule polls_left [OF dvd s(2,4,5) less.prems(3)])
      obtain retry' d' c' where d': "rx_poll hw (ptr + of_nat k) (num - of_nat k) (retry + 1) ?m d1
            = Some (0, retry', mem_write ?m (ptr + of_nat k) (drop k ?p), d')"
          "view d' = (view d1)\<lparr>pv_pending := [], pv_avail := c'\<rparr>"
        using less.hyps [OF dec al left fuel, of ?m] s(3) by auto
      have "length (take k ?p) = k" using less.prems(2) s(2) by simp
      then have "mem_write ?m (ptr + of_nat k) (drop k ?p) = mem_write m ptr ?p"
        using mem_write_append [of m ptr "take k ?p" "drop k ?p"] by simp
      then show ?thesis using d' poll s(3) by auto
    qed
  qed
qed

lemma pio_read_chip:
  assumes C: "pio_controller hw W view lag" and idle: "pio_idle (view d)" and al: "word_aligned ptr"
    and n: "0 < unat num" "unat num < 2 ^ 16" and f: "ins W io (unat num) (pv_chip (view d)) = (bs, f)"
  shows "\<exists>msg d'. drv_qspi_pio_read hw ptr num 0 (ucast (io :: 3 word)) (of_bool fr) m d = Some (msg, mem_write m ptr bs, d')
    \<and> pio_idle (view d') \<and> pv_chip (view d') = release W fr f"
proof -
  let ?d2 = "hal_qspi_set_pio_config hw 0 (ucast io) (of_bool fr) d"
  let ?d3 = "hal_qspi_set_pio_transfer_control_request_count hw (ucast num) ?d2"
  have v2: "view ?d2 = (view d)\<lparr>pv_write := False, pv_mode := io, pv_fragment := fr\<rparr>"
    using set_pio_config_view [OF C, of d False io fr] idle by simp
  then have idle2: "pio_idle (view ?d2)" using idle by (simp add: pio_idle_def)
  have v3: "view ?d3 = started W (unat num) (view ?d2)" and lag: "lag ?d3 \<le> QSPI_MAX_STALLS"
    by (rule set_count_view [OF C idle2 n refl])+
  have v3': "view ?d3 = (view d)\<lparr>pv_write := False, pv_mode := io, pv_fragment := fr,
      pv_pending := bs, pv_avail := 0, pv_chip := release W fr f\<rparr>"
    unfolding v3 started_def v2 by (simp add: f)
  have bs: "length bs = unat num" using length_ins [of W io "unat num" "pv_chip (view d)"] f by simp
  then have pend: "length (pv_pending (view ?d3)) = unat num" unfolding v3' by simp
  have "(unat num + 3) div 4 \<le> 0x4000" using n(2) by simp
  then have "(unat num + 3) div 4 + lag ?d3 + 0 \<le> MAX_READ_WAIT"
    using lag unfolding QSPI_MAX_STALLS_def MAX_READ_WAIT_def by linarith
  from rx_poll_read [OF C al pend this, of m]
  obtain r d4 c where d4: "rx_poll hw ptr num 0 m ?d3 = Some (0, r, mem_write m ptr bs, d4)"
      "view d4 = (view ?d3)\<lparr>pv_pending := [], pv_avail := c\<rparr>"
    unfolding v3' by auto
  have "pio_idle (view d4)" "pv_chip (view d4) = release W fr f"
    unfolding d4(2) v3' using idle by (simp_all add: pio_idle_def)
  then show ?thesis by (simp add: drv_qspi_pio_read_def Let_def d4(1))
qed

end
