(* ===== verification/Qspi_Chain.thy ===== *)
theory Qspi_Chain
  imports Qspi_Pio
begin

text \<open>
  The descriptor chain of the QSPI driver: what flushing it does to the memory and to the chip,
  and what allocating and filling descriptors adds to it. The chain is described by its length:
  the driver links the descriptors of its array in order.
\<close>

section \<open>Flushing a chain\<close>

definition desc_ok :: "qspi_descriptor \<Rightarrow> bool" where
  "desc_ok p \<longleftrightarrow> word_aligned (qd_data_address p) \<and> 0 < unat (qd_length p)"

definition desc_effect :: "'f wire \<Rightarrow> qspi_descriptor \<Rightarrow> memory \<times> 'f \<Rightarrow> memory \<times> 'f" where
  "desc_effect W p mf =
     (if qd_direction p = QSPI_MASTER_WRITE_E then
        (fst mf, release W (qd_fragment p)
           (outs W (qd_multi_io_mode p) (mem_read (fst mf) (qd_data_address p) (unat (qd_length p))) (snd mf)))
      else
        case ins W (qd_multi_io_mode p) (unat (qd_length p)) (snd mf) of
          (bs, f) \<Rightarrow> (mem_write (fst mf) (qd_data_address p) bs, release W (qd_fragment p) f))"

definition bounce :: "qspi_descriptor \<Rightarrow> memory \<Rightarrow> memory" where
  "bounce p m = copy_bytes (unat (qd_bounce_length p)) (qd_bounce_dst p) (qd_bounce_src p) m"

definition linked :: "(nat \<Rightarrow> qspi_descriptor) \<Rightarrow> nat \<Rightarrow> bool" where
  "linked descs n \<longleftrightarrow> (\<forall>i<n. qd_next_descriptor (descs i) = (if Suc i < n then Some (Suc i) else None))"

definition chain_len :: "'d qspi \<Rightarrow> nat \<Rightarrow> bool" where
  "chain_len s n \<longleftrightarrow> n \<le> QSPI_NUM_DESCRIPTORS \<and> q_transfer_chain s = (if n = 0 then None else Some 0)
     \<and> linked (q_descriptors s) n"

text \<open>The queued descriptors, without their links.\<close>

definition unlink :: "qspi_descriptor \<Rightarrow> qspi_descriptor" where
  "unlink p = p\<lparr>qd_next_descriptor := None\<rparr>"

definition queue :: "'d qspi \<Rightarrow> nat \<Rightarrow> qspi_descriptor list" where
  "queue s n = map (\<lambda>i. unlink (q_descriptors s i)) [0..<n]"

lemma unlink_simps [simp]:
  "desc_ok (unlink p) = desc_ok p" "desc_effect W (unlink p) = desc_effect W p" "bounce (unlink p) = bounce p"
  by (simp_all add: unlink_def desc_ok_def desc_effect_def bounce_def fun_eq_iff)

lemma fold_queue:
  "fold (desc_effect W) (queue s n) = fold (desc_effect W) (map (q_descriptors s) [0..<n])"
  "fold bounce (queue s n) = fold bounce (map (q_descriptors s) [0..<n])"
  unfolding queue_def by (simp_all add: fold_map comp_def)

lemma queue_0 [simp]: "queue s 0 = []" and queue_Suc: "queue s (Suc n) = queue s n @ [unlink (q_descriptors s n)]"
  by (simp_all add: queue_def)

lemma queue_upd_desc [simp]: "n \<le> i \<Longrightarrow> queue (upd_desc i f s) n = queue s n"
  by (simp add: queue_def upd_desc_def)

lemma queue_fields [simp]:
  "queue (s\<lparr>q_mem := m\<rparr>) n = queue s n" "queue (s\<lparr>q_free_ptr := a\<rparr>) n = queue s n"
  "queue (s\<lparr>q_transfer_chain := c\<rparr>) n = queue s n"
  by (simp_all add: queue_def)

lemma queue_length [simp]: "length (queue s n) = n"
  by (simp add: queue_def)

lemma unat_u16_u32 [simp]: "unat (ucast (x :: u16) :: u32) = unat x" and unat_u16_less: "unat (x :: u16) < 2 ^ 16"
  using unsigned_less [of x, where ?'a = nat] by simp_all

lemma run_descriptor_effect:
  assumes C: "pio_controller hw W view lag" and idle: "pio_idle (view d)" and p: "desc_ok p"
  shows "\<exists>d'. run_descriptor hw p m d = Some (fst (desc_effect W p (m, pv_chip (view d))), d') \<and> pio_idle (view d')
    \<and> pv_chip (view d') = snd (desc_effect W p (m, pv_chip (view d)))"
proof -
  have al: "word_aligned (qd_data_address p)" and n: "0 < unat (ucast (qd_length p) :: u32)" "unat (ucast (qd_length p) :: u32) < 2 ^ 16"
    using p unat_u16_less [of "qd_length p"] by (simp_all add: desc_ok_def)
  show ?thesis
  proof (cases "qd_direction p = QSPI_MASTER_WRITE_E")
    case True
    then show ?thesis
      using pio_write_chip [OF C idle al n, of "qd_multi_io_mode p" "qd_fragment p" m]
      by (auto simp: run_descriptor_def desc_effect_def)
  next
    case False
    obtain bs f where f: "ins W (qd_multi_io_mode p) (unat (ucast (qd_length p) :: u32)) (pv_chip (view d)) = (bs, f)" by fastforce
    show ?thesis
      using False f pio_read_chip [OF C idle al n f, of "qd_fragment p" m]
      by (auto simp: run_descriptor_def desc_effect_def)
  qed
qed

lemma transfer_chain_effect:
  assumes C: "pio_controller hw W view lag" and l: "linked descs n" and ok: "\<forall>i<n. desc_ok (descs i)"
  shows "i \<le> n \<Longrightarrow> pio_idle (view d) \<Longrightarrow>
    \<exists>d'. drv_qspi_pio_transfer_chain hw descs (if i < n then Some i else None) m d
        = Some (fst (fold (desc_effect W) (map descs [i..<n]) (m, pv_chip (view d))), d')
      \<and> pio_idle (view d') \<and> pv_chip (view d') = snd (fold (desc_effect W) (map descs [i..<n]) (m, pv_chip (view d)))"
proof (induction "n - i" arbitrary: i m d)
  case 0
  then show ?case by (auto simp: drv_qspi_pio_transfer_chain.simps [of hw descs None])
next
  case (Suc k)
  then have i: "i < n" by simp
  let ?e = "desc_effect W (descs i) (m, pv_chip (view d))"
  obtain d1 where d1: "run_descriptor hw (descs i) m d = Some (fst ?e, d1)" "pio_idle (view d1)" "pv_chip (view d1) = snd ?e"
    using run_descriptor_effect [OF C Suc.prems(2)] ok i by blast
  have nx: "qd_next_descriptor (descs i) = (if Suc i < n then Some (Suc i) else None)"
    using l i by (simp add: linked_def)
  have up: "[i..<n] = i # [Suc i..<n]" using i by (rule upt_conv_Cons)
  have "k = n - Suc i" "Suc i \<le> n" using Suc.hyps(2) i by simp_all
  from Suc.hyps(1) [OF this d1(2), of "fst ?e"] show ?case
    unfolding d1(3) prod.collapse
    using i by (simp add: up drv_qspi_pio_transfer_chain.simps [of hw descs "Some i"] d1(1) nx)
qed

lemma bounce_chain_effect:
  assumes l: "linked descs n"
  shows "i \<le> n \<Longrightarrow> bounce_chain descs (if i < n then Some i else None) m = Some (fold bounce (map descs [i..<n]) m)"
proof (induction "n - i" arbitrary: i m)
  case 0
  then show ?case by (simp add: bounce_chain.simps [of descs None])
next
  case (Suc k)
  then have i: "i < n" by simp
  have nx: "qd_next_descriptor (descs i) = (if Suc i < n then Some (Suc i) else None)"
    using l i by (simp add: linked_def)
  have up: "[i..<n] = i # [Suc i..<n]" using i by (rule upt_conv_Cons)
  have "k = n - Suc i" "Suc i \<le> n" using Suc.hyps(2) i by simp_all
  from Suc.hyps(1) [OF this, of "bounce (descs i) m"] show ?case
    using i by (simp add: up bounce_chain.simps [of descs "Some i"] nx bounce_def)
qed

lemma last_from_linked:
  assumes l: "linked descs n"
  shows "i < n \<Longrightarrow> last_from descs i = Some (n - 1)"
proof (induction "n - i" arbitrary: i)
  case (Suc k)
  have nx: "qd_next_descriptor (descs i) = (if Suc i < n then Some (Suc i) else None)"
    using l Suc.prems by (simp add: linked_def)
  show ?case
  proof (cases "Suc i < n")
    case True
    have "k = n - Suc i" using Suc.hyps(2) by simp
    from Suc.hyps(1) [OF this True] True show ?thesis by (simp add: last_from.simps [of descs i] nx)
  next
    case False
    then have "last_from descs i = Some i" by (simp add: last_from.simps [of descs i] nx)
    moreover have "i = n - 1" using False Suc.prems by simp
    ultimately show ?thesis by simp
  qed
qed simp

lemma get_last_descriptor:
  assumes "chain_len s n"
  shows "drv_qspi_get_last_descriptor s = Some (if n = 0 then None else Some (n - 1))"
  using assms last_from_linked [of "q_descriptors s" n 0] by (simp add: chain_len_def drv_qspi_get_last_descriptor_def)

text \<open>What a flush of the queue leaves: the transfers in order, then the bounce copies.\<close>

definition flushed :: "'f wire \<Rightarrow> qspi_descriptor list \<Rightarrow> memory \<times> 'f \<Rightarrow> memory \<times> 'f" where
  "flushed W ps mf = (case fold (desc_effect W) ps mf of (m, f) \<Rightarrow> (fold bounce ps m, f))"

lemma flush_chain_effect:
  assumes C: "pio_controller hw W view lag" and cl: "chain_len s n" and ok: "\<forall>p\<in>set (queue s n). desc_ok p"
    and idle: "pio_idle (view (q_dev s))"
  shows "\<exists>s'. drv_qspi_flush_chain hw QSPI_PIO_MODE_E s = Some s' \<and> chain_len s' 0 \<and> q_free_ptr s' = qh_buf hw
    \<and> pio_idle (view (q_dev s')) \<and> (q_mem s', pv_chip (view (q_dev s'))) = flushed W (queue s n) (q_mem s, pv_chip (view (q_dev s)))"
proof -
  have l: "linked (q_descriptors s) n" and head: "q_transfer_chain s = (if 0 < n then Some 0 else None)"
    using cl by (auto simp: chain_len_def)
  have ok: "\<forall>i<n. desc_ok (q_descriptors s i)" using ok by (simp add: queue_def)
  let ?mf = "fold (desc_effect W) (queue s n) (q_mem s, pv_chip (view (q_dev s)))"
  obtain d where d: "drv_qspi_pio_transfer_chain hw (q_descriptors s) (q_transfer_chain s) (q_mem s) (q_dev s) = Some (fst ?mf, d)"
      "pio_idle (view d)" "pv_chip (view d) = snd ?mf"
    using transfer_chain_effect [OF C l ok, of 0 "q_dev s" "q_mem s"] idle unfolding head fold_queue by auto
  have b: "bounce_chain (q_descriptors s) (q_transfer_chain s) (fst ?mf) = Some (fold bounce (queue s n) (fst ?mf))"
    using bounce_chain_effect [OF l, of 0 "fst ?mf"] unfolding head fold_queue by simp
  show ?thesis using d(2,3)
    by (auto simp: drv_qspi_flush_chain_def d(1) b chain_len_def linked_def flushed_def split: prod.splits)
qed

section \<open>The transfer buffer\<close>

definition buf_ok :: "'d qspi_hw \<Rightarrow> bool" where
  "buf_ok hw \<longleftrightarrow> word_aligned (qh_buf hw) \<and> qh_buf hw \<noteq> 0 \<and> unat (qh_buf hw) + 128 < 2 ^ 32"

definition buf_at :: "'d qspi_hw \<Rightarrow> nat \<Rightarrow> addr" where
  "buf_at hw u = qh_buf hw + of_nat u"

definition round4 :: "nat \<Rightarrow> nat" where
  "round4 u = (u + 3) div 4 * 4"

lemma round4_bounds: "u \<le> round4 u" "round4 u \<le> u + 3" "4 dvd round4 u"
  by (simp_all add: round4_def)

lemma unat_buf_at: "buf_ok hw \<Longrightarrow> u \<le> 128 \<Longrightarrow> unat (buf_at hw u) = unat (qh_buf hw) + u"
  unfolding buf_at_def buf_ok_def by (rule unat_addr_offset) simp

lemma buf_at_neq_0: "buf_ok hw \<Longrightarrow> u \<le> 128 \<Longrightarrow> buf_at hw u \<noteq> 0"
  using unat_buf_at [of hw u] by (auto simp: buf_ok_def unat_eq_zero)

lemma buf_at_add: "buf_at hw u + of_nat k = buf_at hw (u + k)"
  by (simp add: buf_at_def)

lemma unat_align_up:
  assumes "unat p + 3 < 2 ^ 32"
  shows "unat (align_up 4 p) = round4 (unat p)"
proof -
  have m: "(3 :: u32) = mask 2" by (simp add: mask_eq_exp_minus_1)
  have "(p + 3) AND NOT 3 = push_bit 2 (drop_bit 2 (p + 3))"
  proof (rule bit_eqI)
    fix n
    show "bit ((p + 3) AND NOT 3) n = bit (push_bit 2 (drop_bit 2 (p + 3))) n"
      unfolding m by (cases "n < 2") (auto simp: bit_simps not_less le_iff_add bit_imp_le_length)
  qed
  then have "align_up 4 p = of_nat (unat (drop_bit 2 (p + 3)) * 4)"
    by (simp add: align_up_def push_bit_eq_mult algebra_simps)
  moreover have "unat (drop_bit 2 (p + 3)) = (unat p + 3) div 4"
    using unat_addr_offset [OF assms] by (simp only: unat_drop_2) simp
  moreover have "round4 (unat p) < 2 ^ 32"
  proof -
    have "round4 (unat p) \<le> unat p + 3" by (rule round4_bounds(2))
    with assms show ?thesis by linarith
  qed
  ultimately have "align_up 4 p = of_nat (round4 (unat p))" "round4 (unat p) < 2 ^ 32" by (simp_all only: round4_def)
  then show ?thesis by (simp add: unat_of_nat)
qed

lemma align_up_buf:
  assumes "buf_ok hw" and "u \<le> 125"
  shows "align_up 4 (buf_at hw u) = buf_at hw (round4 u)"
proof -
  let ?b = "unat (qh_buf hw)"
  have al: "?b mod 4 = 0" and lim: "?b + 128 < 2 ^ 32" using assms(1) by (auto simp: buf_ok_def word_aligned_unat)
  have u: "unat (buf_at hw u) = ?b + u" by (rule unat_buf_at) (use assms in simp_all)
  have "unat (align_up 4 (buf_at hw u)) = round4 (?b + u)"
    unfolding u [symmetric] by (rule unat_align_up) (use u lim assms(2) in linarith)
  also have "\<dots> = ?b + round4 u"
  proof -
    obtain q where "?b = q * 4" using al by (metis mod_0_imp_dvd dvdE mult.commute)
    then show ?thesis by (simp add: round4_def add.assoc distrib_right)
  qed
  also have "\<dots> = unat (buf_at hw (round4 u))"
    using round4_bounds(2) [of u] assms by (intro unat_buf_at [symmetric]) simp_all
  finally show ?thesis by (simp only: word_unat_eq_iff)
qed

lemma word_aligned_buf: "buf_ok hw \<Longrightarrow> 4 dvd u \<Longrightarrow> word_aligned (buf_at hw u)"
  unfolding buf_ok_def buf_at_def by (simp add: word_aligned_add)

section \<open>Allocating a descriptor\<close>

definition fresh :: "addr \<Rightarrow> qspi_descriptor" where
  "fresh a = zero_descriptor\<lparr>qd_data_address := a, qd_direction := QSPI_MASTER_READ_E, qd_fragment := True\<rparr>"

text \<open>The descriptor that \<open>drv_qspi_alloc_descriptor\<close> appends when it need not flush.\<close>

definition appended :: "nat \<Rightarrow> addr \<Rightarrow> 'd qspi \<Rightarrow> 'd qspi" where
  "appended n a s =
     (let s' = upd_desc n (\<lambda>_. fresh a) s
      in if n = 0 then s'\<lparr>q_transfer_chain := Some 0\<rparr>
         else upd_desc (n - 1) (\<lambda>p. p\<lparr>qd_next_descriptor := Some n\<rparr>) s')"

lemma appended_simps [simp]:
  "q_mem (appended n a s) = q_mem s" "q_dev (appended n a s) = q_dev s" "q_free_ptr (appended n a s) = q_free_ptr s"
  "q_descriptors (appended n a s) n = fresh a"
  by (auto simp: appended_def upd_desc_def Let_def)

lemma queue_appended [simp]: "queue (appended n a s) n = queue s n"
  by (auto simp: appended_def upd_desc_def Let_def queue_def unlink_def)

lemma chain_len_appended:
  assumes "chain_len s n" and "n < QSPI_NUM_DESCRIPTORS"
  shows "chain_len (appended n a s) (Suc n)"
  using assms by (auto simp: chain_len_def appended_def upd_desc_def Let_def linked_def fresh_def zero_descriptor_def)

lemma chain_len_upd [simp]:
  "(\<And>p. qd_next_descriptor (f p) = qd_next_descriptor p) \<Longrightarrow> chain_len (upd_desc i f s) n = chain_len s n"
  by (auto simp: chain_len_def upd_desc_def linked_def)

lemma chain_len_fields [simp]:
  "chain_len (s\<lparr>q_mem := m\<rparr>) n = chain_len s n" "chain_len (s\<lparr>q_free_ptr := a\<rparr>) n = chain_len s n"
  by (simp_all add: chain_len_def)

lemma alloc_appended:
  assumes B: "buf_ok hw" and cl: "chain_len s n" and n: "n < QSPI_NUM_DESCRIPTORS"
    and free: "q_free_ptr s = buf_at hw u" "u \<le> 125" and room: "round4 u + unat needed \<le> 128"
  shows "drv_qspi_alloc_descriptor hw needed QSPI_PIO_MODE_E s =
    Some (n, appended n (if needed \<noteq> 0 then buf_at hw (round4 u) else 0) s)"
proof -
  have al: "align_up (alignment_of QSPI_PIO_MODE_E) (q_free_ptr s) = buf_at hw (round4 u)"
    unfolding alignment_of_def using align_up_buf [OF B free(2)] by (simp add: free(1))
  have r: "round4 u \<le> 128" using room by simp
  have "qh_buf hw + QSPI_BUFFER_SIZE - buf_at hw (round4 u) = of_nat (128 - round4 u)"
    using r by (simp add: buf_at_def QSPI_BUFFER_SIZE_def of_nat_diff)
  then have "unat (qh_buf hw + QSPI_BUFFER_SIZE - buf_at hw (round4 u)) = 128 - round4 u"
    by (simp add: unat_of_nat)
  then have nf: "\<not> qh_buf hw + QSPI_BUFFER_SIZE - buf_at hw (round4 u) < needed"
    using room by (simp add: word_less_nat_alt)
  show ?thesis
    using n nf
    by (simp add: drv_qspi_alloc_descriptor_def al get_last_descriptor [OF cl] appended_def fresh_def not_le)
qed

end
