(* ===== verification/Qspi_Queue.thy ===== *)
theory Qspi_Queue
  imports Qspi_Chain
begin

text \<open>
  Queueing the parts of a command. While opcode, address and dummy bytes are queued every
  descriptor writes from the transfer buffer, and what the chip will see is the concatenation
  of the parts; client data then adds descriptors that point into the client's buffer, with a
  flush whenever the eight descriptors are used up.
\<close>

section \<open>Bytes in the transfer buffer\<close>

definition in_buf :: "'d qspi_hw \<Rightarrow> addr \<Rightarrow> bool" where
  "in_buf hw p \<longleftrightarrow> (\<exists>x<128. p = buf_at hw x)"

definition same_outside :: "'d qspi_hw \<Rightarrow> memory \<Rightarrow> memory \<Rightarrow> bool" where
  "same_outside hw m m' \<longleftrightarrow> (\<forall>p. \<not> in_buf hw p \<longrightarrow> m' p = m p)"

lemma same_outside_refl [simp]: "same_outside hw m m"
  by (simp add: same_outside_def)

lemma same_outside_trans: "same_outside hw a b \<Longrightarrow> same_outside hw b c \<Longrightarrow> same_outside hw a c"
  by (simp add: same_outside_def)

lemma same_outside_write: "o' + length bs \<le> 128 \<Longrightarrow> same_outside hw m (mem_write m (buf_at hw o') bs)"
  unfolding same_outside_def in_buf_def
proof (intro allI impI)
  fix p assume "o' + length bs \<le> 128" and p: "\<not> (\<exists>x<128. p = buf_at hw x)"
  then have "p \<noteq> buf_at hw o' + of_nat i" if "i < length bs" for i
    using that unfolding buf_at_add by auto
  then show "mem_write m (buf_at hw o') bs p = m p" by (rule mem_write_other)
qed

lemma mem_read_below:
  assumes "buf_ok hw" and "o1 + k \<le> o2" and "o2 + length bs \<le> 128"
  shows "mem_read (mem_write m (buf_at hw o2) bs) (buf_at hw o1) k = mem_read m (buf_at hw o1) k"
  using assms by (intro mem_read_write_apart) (auto simp: apart_def unat_buf_at buf_ok_def)

section \<open>The queue of a command before its data\<close>

definition plain_out :: "'d qspi_hw \<Rightarrow> nat \<Rightarrow> qspi_descriptor \<Rightarrow> bool" where
  "plain_out hw u p \<longleftrightarrow> qd_direction p = QSPI_MASTER_WRITE_E \<and> qd_fragment p \<and> qd_bounce_length p = 0
     \<and> 0 < unat (qd_length p) \<and> (\<exists>b. qd_data_address p = buf_at hw b \<and> 4 dvd b \<and> b + unat (qd_length p) \<le> u)"

lemma plain_out_mono: "plain_out hw u p \<Longrightarrow> u \<le> v \<Longrightarrow> plain_out hw v p"
  unfolding plain_out_def by (meson le_trans)

definition desc_out :: "'f wire \<Rightarrow> memory \<Rightarrow> qspi_descriptor \<Rightarrow> 'f \<Rightarrow> 'f" where
  "desc_out W m p f = outs W (qd_multi_io_mode p) (mem_read m (qd_data_address p) (unat (qd_length p))) f"

definition outq ::
    "'d qspi_hw \<Rightarrow> 'f wire \<Rightarrow> ('d \<Rightarrow> 'f pio_view) \<Rightarrow> 'd qspi \<Rightarrow> nat \<Rightarrow> nat \<Rightarrow> 3 word \<Rightarrow> 'f \<Rightarrow> bool" where
  "outq hw W view s n u io F \<longleftrightarrow> chain_len s n \<and> q_free_ptr s = buf_at hw u \<and> u \<le> 128 \<and> pio_idle (view (q_dev s))
     \<and> (\<forall>p\<in>set (queue s n). plain_out hw u p)
     \<and> (0 < n \<longrightarrow> qd_multi_io_mode (q_descriptors s (n - 1)) = io
          \<and> (\<exists>b. qd_data_address (q_descriptors s (n - 1)) = buf_at hw b \<and> 4 dvd b \<and> b + unat (qd_length (q_descriptors s (n - 1))) = u))
     \<and> fold (desc_out W (q_mem s)) (queue s n) (pv_chip (view (q_dev s))) = F"

text \<open>Bytes added at the end of the last descriptor.\<close>

definition put :: "nat \<Rightarrow> addr \<Rightarrow> bytes \<Rightarrow> 'd qspi \<Rightarrow> 'd qspi" where
  "put k ptr bs s =
     (let s = upd_desc k (\<lambda>p. p\<lparr>qd_length := ucast ((ucast (qd_length p) :: u32) + of_nat (length bs))\<rparr>)
                (s\<lparr>q_mem := mem_write (q_mem s) ptr bs\<rparr>)
      in s\<lparr>q_free_ptr := qd_data_address (q_descriptors s k) + ucast (qd_length (q_descriptors s k))\<rparr>)"

lemma put_simps [simp]:
  "q_mem (put k ptr bs s) = mem_write (q_mem s) ptr bs" "q_dev (put k ptr bs s) = q_dev s"
  "chain_len (put k ptr bs s) n = chain_len s n" "n \<le> k \<Longrightarrow> queue (put k ptr bs s) n = queue s n"
  by (simp_all add: put_def Let_def) (simp_all add: upd_desc_def)

lemma desc_out_below:
  assumes "buf_ok hw" and "plain_out hw u p" and "u \<le> o2" and "o2 + length bs \<le> 128"
  shows "desc_out W (mem_write m (buf_at hw o2) bs) p f = desc_out W m p f"
proof -
  obtain b where b: "qd_data_address p = buf_at hw b" "b + unat (qd_length p) \<le> u" using assms(2) by (auto simp: plain_out_def)
  have "b + unat (qd_length p) \<le> o2" using b(2) assms(3) by simp
  from mem_read_below [OF assms(1) this assms(4)] show ?thesis by (simp add: desc_out_def b(1))
qed

lemma fold_desc_out_below:
  assumes "buf_ok hw" and "\<forall>p\<in>set ps. plain_out hw u p" and "u \<le> o2" and "o2 + length bs \<le> 128"
  shows "fold (desc_out W (mem_write m (buf_at hw o2) bs)) ps f = fold (desc_out W m) ps f"
  using assms(2) by (intro fold_cong) (simp_all add: fun_eq_iff desc_out_below [OF assms(1) _ assms(3,4)])

lemma outq_put:
  assumes B: "buf_ok hw" and cl: "chain_len s (Suc k)" and idle: "pio_idle (view (q_dev s))"
    and old: "\<forall>p\<in>set (queue s k). plain_out hw u p" and u: "u \<le> b + unat (qd_length (q_descriptors s k))"
    and p: "qd_direction (q_descriptors s k) = QSPI_MASTER_WRITE_E" "qd_fragment (q_descriptors s k)"
      "qd_bounce_length (q_descriptors s k) = 0" "qd_data_address (q_descriptors s k) = buf_at hw b" "4 dvd b"
    and F: "fold (desc_out W (q_mem s)) (queue s (Suc k)) (pv_chip (view (q_dev s))) = F"
    and bs: "bs \<noteq> []" "v = b + unat (qd_length (q_descriptors s k)) + length bs" "v \<le> 128"
    and ptr: "ptr = buf_at hw (b + unat (qd_length (q_descriptors s k)))"
  shows "outq hw W view (put k ptr bs s) (Suc k) v (qd_multi_io_mode (q_descriptors s k))
    (outs W (qd_multi_io_mode (q_descriptors s k)) bs F)" and "same_outside hw (q_mem s) (q_mem (put k ptr bs s))"
proof -
  let ?p = "q_descriptors s k" and ?s = "put k ptr bs s" and ?l = "unat (qd_length (q_descriptors s k))"
  have fits: "b + ?l + length bs \<le> 128" using bs(2,3) by simp
  have len: "unat (ucast ((ucast (qd_length ?p) :: u32) + of_nat (length bs)) :: u16) = ?l + length bs"
  proof -
    have "unat ((ucast (qd_length ?p) :: u32) + of_nat (length bs)) = ?l + length bs"
      using unat_addr_offset [of "ucast (qd_length ?p)" "length bs"] bs(2,3) by simp
    then show ?thesis using fits by (simp add: unat_narrow_u16)
  qed
  have q: "q_descriptors ?s k = ?p\<lparr>qd_length := ucast ((ucast (qd_length ?p) :: u32) + of_nat (length bs))\<rparr>"
    by (simp add: put_def Let_def upd_desc_def)
  have free: "q_free_ptr ?s = buf_at hw v"
  proof -
    have "q_free_ptr ?s = qd_data_address (q_descriptors ?s k) + ucast (qd_length (q_descriptors ?s k))"
      by (simp add: put_def Let_def upd_desc_def)
    also have "\<dots> = buf_at hw b + of_nat (?l + length bs)"
      unfolding q using p(4) by (simp add: len [symmetric])
    finally show ?thesis unfolding buf_at_add bs(2) by (simp add: add.assoc)
  qed
  have "plain_out hw v (unlink (q_descriptors ?s k))"
    using p bs by (auto simp: plain_out_def unlink_def q len)
  moreover have "\<forall>p\<in>set (queue s k). plain_out hw v p" using old u bs(2) by (auto intro: plain_out_mono)
  ultimately have plain: "\<forall>p\<in>set (queue ?s (Suc k)). plain_out hw v p" by (auto simp: queue_Suc)
  have "mem_read (q_mem ?s) (buf_at hw b) (?l + length bs) = mem_read (q_mem s) (buf_at hw b) ?l @ bs"
  proof -
    have "mem_read (mem_write (q_mem s) ptr bs) ptr (length bs) = bs" using fits by (intro mem_read_write_same) simp
    then show ?thesis
      unfolding mem_read_add buf_at_add ptr [symmetric] put_simps
      using mem_read_below [OF B, of b ?l "b + ?l" bs "q_mem s"] fits ptr by simp
  qed
  then have last: "desc_out W (q_mem ?s) (unlink (q_descriptors ?s k)) f = outs W (qd_multi_io_mode ?p) bs (desc_out W (q_mem s) (unlink ?p) f)" for f
    by (simp add: desc_out_def unlink_def q len p(4))
  have "fold (desc_out W (q_mem ?s)) (queue ?s k) f = fold (desc_out W (q_mem s)) (queue s k) f" for f
    using fold_desc_out_below [OF B old u fits, of W "q_mem s" f] by (simp add: ptr)
  then have chip: "fold (desc_out W (q_mem ?s)) (queue ?s (Suc k)) (pv_chip (view (q_dev ?s))) = outs W (qd_multi_io_mode ?p) bs F"
    using F last by (simp add: queue_Suc)
  show "outq hw W view ?s (Suc k) v (qd_multi_io_mode ?p) (outs W (qd_multi_io_mode ?p) bs F)"
    unfolding outq_def using cl idle free plain chip bs p(4,5) by (auto simp: q len)
  show "same_outside hw (q_mem s) (q_mem ?s)"
    using same_outside_write [of "b + ?l" bs hw "q_mem s"] fits by (simp add: ptr)
qed

lemma ucast_io_u8 [simp]: "ucast (ucast (io :: 3 word) :: u8) = io"
  by (rule bit_eqI) (auto simp: bit_simps)

lemma ucast_io_inj: "(ucast (io :: 3 word) :: u8) = ucast io2 \<longleftrightarrow> io = io2"
  by (metis ucast_io_u8)

lemma available_room_last:
  assumes B: "buf_ok hw" and Q: "outq hw W view s n u io F" and "0 < n"
  shows "unat (drv_qspi_get_available_room hw (q_descriptors s (n - 1))) = 128 - u"
proof -
  let ?p = "q_descriptors s (n - 1)"
  obtain b where b: "qd_data_address ?p = buf_at hw b" "b + unat (qd_length ?p) = u" and u: "u \<le> 128"
    using Q \<open>0 < n\<close> by (auto simp: outq_def)
  have "unlink ?p \<in> set (queue s n)" using \<open>0 < n\<close> by (auto simp: queue_def)
  then have "0 < unat (qd_length ?p)" using Q by (auto simp: outq_def plain_out_def unlink_def)
  then have b128: "b < 128" using b(2) u by simp
  have e: "qh_buf hw + QSPI_BUFFER_SIZE = buf_at hw 128" by (simp add: buf_at_def QSPI_BUFFER_SIZE_def)
  have "\<not> (qd_data_address ?p < qh_buf hw \<or> qd_data_address ?p \<ge> buf_at hw 128)"
    using b128 unat_buf_at [OF B, of b] unat_buf_at [OF B, of 128] unfolding b(1) by (auto simp: word_less_nat_alt word_le_nat_alt)
  moreover have "qd_data_address ?p + ucast (qd_length ?p) = buf_at hw u"
  proof -
    have "(ucast (qd_length ?p) :: u32) = of_nat (unat (qd_length ?p))" by simp
    then show ?thesis unfolding b(1) by (simp only: buf_at_add b(2))
  qed
  moreover have "buf_at hw 128 - buf_at hw u = of_nat (128 - u)" using u by (simp add: buf_at_def of_nat_diff)
  ultimately have "drv_qspi_get_available_room hw ?p = of_nat (128 - u)" by (simp add: drv_qspi_get_available_room_def e Let_def)
  then show ?thesis by (simp only: unat_of_nat) simp
qed

text \<open>A new descriptor behind the queue, with nothing in it yet, changes nothing.\<close>

definition started_desc :: "nat \<Rightarrow> addr \<Rightarrow> qspi_transfer_dir \<Rightarrow> 3 word \<Rightarrow> 'd qspi \<Rightarrow> 'd qspi" where
  "started_desc n a dir io s = upd_desc n (\<lambda>p. p\<lparr>qd_direction := dir, qd_multi_io_mode := io\<rparr>) (appended n a s)"

lemma started_desc_simps [simp]:
  "q_mem (started_desc n a dir io s) = q_mem s" "q_dev (started_desc n a dir io s) = q_dev s"
  "q_free_ptr (started_desc n a dir io s) = q_free_ptr s"
  "q_descriptors (started_desc n a dir io s) n = (fresh a)\<lparr>qd_direction := dir, qd_multi_io_mode := io\<rparr>"
  "queue (started_desc n a dir io s) n = queue s n"
proof -
  show "q_mem (started_desc n a dir io s) = q_mem s" "q_dev (started_desc n a dir io s) = q_dev s"
    "q_free_ptr (started_desc n a dir io s) = q_free_ptr s"
    "q_descriptors (started_desc n a dir io s) n = (fresh a)\<lparr>qd_direction := dir, qd_multi_io_mode := io\<rparr>"
    by (simp_all add: started_desc_def upd_desc_def)
  show "queue (started_desc n a dir io s) n = queue s n" by (simp add: started_desc_def)
qed

lemma chain_len_started_desc:
  "chain_len s n \<Longrightarrow> n < QSPI_NUM_DESCRIPTORS \<Longrightarrow> chain_len (started_desc n a dir io s) (Suc n)"
  by (simp add: started_desc_def chain_len_appended)

lemma outq_put_new:
  fixes io' :: "3 word"
  assumes B: "buf_ok hw" and Q: "outq hw W view s n u io F" and n: "n < QSPI_NUM_DESCRIPTORS"
    and bs: "bs \<noteq> []" "round4 u + length bs \<le> 128"
  defines "s1 \<equiv> started_desc n (buf_at hw (round4 u)) QSPI_MASTER_WRITE_E io' s"
  shows "outq hw W view (put n (buf_at hw (round4 u)) bs s1) (Suc n) (round4 u + length bs) io' (outs W io' bs F)"
    and "same_outside hw (q_mem s) (q_mem (put n (buf_at hw (round4 u)) bs s1))"
proof -
  have q: "q_descriptors s1 n = (fresh (buf_at hw (round4 u)))\<lparr>qd_direction := QSPI_MASTER_WRITE_E, qd_multi_io_mode := io'\<rparr>"
    by (simp add: s1_def)
  have zero: "qd_length (q_descriptors s1 n) = 0" by (simp add: q fresh_def zero_descriptor_def)
  have cl: "chain_len s1 (Suc n)" using Q n by (auto simp: s1_def outq_def chain_len_started_desc)
  have old: "\<forall>p\<in>set (queue s1 n). plain_out hw u p" "pio_idle (view (q_dev s1))" using Q by (auto simp: s1_def outq_def)
  have F: "fold (desc_out W (q_mem s1)) (queue s1 (Suc n)) (pv_chip (view (q_dev s1))) = F"
    using Q zero by (simp add: queue_Suc desc_out_def unlink_def) (simp add: s1_def outq_def desc_out_def)
  have p: "qd_direction (q_descriptors s1 n) = QSPI_MASTER_WRITE_E" "qd_fragment (q_descriptors s1 n)"
      "qd_bounce_length (q_descriptors s1 n) = 0" "qd_data_address (q_descriptors s1 n) = buf_at hw (round4 u)"
      "qd_multi_io_mode (q_descriptors s1 n) = io'"
    by (simp_all add: q fresh_def zero_descriptor_def)
  have at: "u \<le> round4 u + unat (qd_length (q_descriptors s1 n))"
      "round4 u + length bs = round4 u + unat (qd_length (q_descriptors s1 n)) + length bs"
      "buf_at hw (round4 u) = buf_at hw (round4 u + unat (qd_length (q_descriptors s1 n)))"
    using round4_bounds(1) [of u] by (simp_all add: zero)
  note put = outq_put [where view = view and s = s1 and k = n,
    OF B cl old(2) old(1) at(1) p(1-4) round4_bounds(3) F bs(1) at(2) bs(2) at(3)]
  show "outq hw W view (put n (buf_at hw (round4 u)) bs s1) (Suc n) (round4 u + length bs) io' (outs W io' bs F)"
    using put(1) unfolding p(5) .
  show "same_outside hw (q_mem s) (q_mem (put n (buf_at hw (round4 u)) bs s1))"
    using same_outside_write [OF bs(2)] by (simp add: s1_def)
qed

lemma outq_put_last:
  assumes B: "buf_ok hw" and Q: "outq hw W view s n u io F" and n: "0 < n" and bs: "bs \<noteq> []" "u + length bs \<le> 128"
  shows "outq hw W view (put (n - 1) (buf_at hw u) bs s) n (u + length bs) io (outs W io bs F)"
    and "same_outside hw (q_mem s) (q_mem (put (n - 1) (buf_at hw u) bs s))"
proof -
  let ?p = "q_descriptors s (n - 1)"
  have Suc: "Suc (n - 1) = n" using n by simp
  obtain b where b: "qd_data_address ?p = buf_at hw b" "4 dvd b" "b + unat (qd_length ?p) = u" and io: "qd_multi_io_mode ?p = io"
    using Q n by (auto simp: outq_def)
  have "unlink ?p \<in> set (queue s n)" using n by (auto simp: queue_def)
  then have p: "qd_direction ?p = QSPI_MASTER_WRITE_E" "qd_fragment ?p" "qd_bounce_length ?p = 0"
    using Q by (auto simp: outq_def plain_out_def unlink_def)
  have old: "chain_len s (Suc (n - 1))" "pio_idle (view (q_dev s))" "\<forall>p\<in>set (queue s (n - 1)). plain_out hw u p"
      "fold (desc_out W (q_mem s)) (queue s (Suc (n - 1))) (pv_chip (view (q_dev s))) = F"
    using Q unfolding Suc outq_def by (auto simp: queue_def)
  have ptr: "buf_at hw u = buf_at hw (b + unat (qd_length ?p))" "u + length bs = b + unat (qd_length ?p) + length bs"
    using b(3) by simp_all
  have le: "u \<le> b + unat (qd_length ?p)" using b(3) by simp
  note put = outq_put [where view = view and s = s, OF B old(1-3) le p b(1,2) old(4) bs(1) ptr(2) bs(2) ptr(1)]
  show "outq hw W view (put (n - 1) (buf_at hw u) bs s) n (u + length bs) io (outs W io bs F)"
    using put(1) unfolding Suc io .
  show "same_outside hw (q_mem s) (q_mem (put (n - 1) (buf_at hw u) bs s))" by (rule put(2))
qed

section \<open>Opcode, address and dummy bytes\<close>

text \<open>A source that a copy into the transfer buffer turns into \<open>bs\<close>.\<close>

definition provides :: "'d qspi_hw \<Rightarrow> source \<Rightarrow> memory \<Rightarrow> bytes \<Rightarrow> bool" where
  "provides hw src m bs \<longleftrightarrow> src \<noteq> Src_mem 0 \<and>
     (\<forall>x. x + length bs \<le> 128 \<longrightarrow> copy_in (length bs) (buf_at hw x) src m = mem_write m (buf_at hw x) bs)"

lemma provides_buf [simp]: "provides hw (Src_buf bs) m bs"
  by (simp add: provides_def copy_in_def)

lemma alloc_started:
  assumes "buf_ok hw" and Q: "outq hw W view s n u io F" and "n < QSPI_NUM_DESCRIPTORS" and "u \<le> 125"
    and "round4 u + unat needed \<le> 128" and "needed \<noteq> 0"
  shows "drv_qspi_alloc_descriptor hw needed QSPI_PIO_MODE_E s = Some (n, appended n (buf_at hw (round4 u)) s)"
proof -
  have "chain_len s n" "q_free_ptr s = buf_at hw u" using Q by (auto simp: outq_def)
  from alloc_appended [OF assms(1) this(1) assms(3) this(2) assms(4,5)] assms(6) show ?thesis by simp
qed

lemma set_descriptor_out:
  assumes B: "buf_ok hw" and Q: "outq hw W view s n u io F" and n: "n < QSPI_NUM_DESCRIPTORS" and u: "u \<le> 125"
    and bs: "bs \<noteq> []" "round4 u + length bs \<le> 128" and src: "provides hw src (q_mem s) bs"
  shows "\<exists>s' n' v. drv_qspi_set_descriptor hw src (of_nat (length bs)) (ucast (io' :: 3 word)) QSPI_MASTER_WRITE_E QSPI_PIO_MODE_E s = Some s'
    \<and> outq hw W view s' n' v io' (outs W io' bs F) \<and> 0 < n' \<and> n' \<le> Suc n \<and> v \<le> u + 3 + length bs
    \<and> same_outside hw (q_mem s) (q_mem s') \<and> q_dev s' = q_dev s"
proof -
  have cl: "chain_len s n" using Q by (simp add: outq_def)
  have len: "unat (of_nat (length bs) :: u32) = length bs" using bs(2) by (simp add: unat_of_nat)
  then have nz: "(of_nat (length bs) :: u32) \<noteq> 0" using bs(1) by (metis length_0_conv unat_0)
  have ub: "u + length bs \<le> 128" using bs(2) round4_bounds(1) [of u] by simp
  have src0: "src \<noteq> Src_mem 0" using src by (simp add: provides_def)
  have copy: "copy_in (length bs) (buf_at hw x) src (q_mem s) = mem_write (q_mem s) (buf_at hw x) bs" if "x + length bs \<le> 128" for x
    using src that by (simp add: provides_def)
  let ?fits = "0 < n \<and> io = io'"
  let ?new = "put n (buf_at hw (round4 u)) bs (started_desc n (buf_at hw (round4 u)) QSPI_MASTER_WRITE_E io' s)"
  show ?thesis
  proof (cases ?fits)
    case True
    let ?p = "q_descriptors s (n - 1)"
    have "unlink ?p \<in> set (queue s n)" using True by (auto simp: queue_def)
    then have dir: "qd_direction ?p = QSPI_MASTER_WRITE_E" using Q by (auto simp: outq_def plain_out_def unlink_def)
    obtain b where b: "qd_data_address ?p = buf_at hw b" "b + unat (qd_length ?p) = u" and io: "qd_multi_io_mode ?p = io"
      using Q True by (auto simp: outq_def)
    have ptr: "qd_data_address ?p + ucast (qd_length ?p) = buf_at hw u"
      using buf_at_add [of hw b "unat (qd_length ?p)"] b by simp
    have room: "\<not> drv_qspi_get_available_room hw ?p < of_nat (length bs)"
      using available_room_last [OF B Q] True ub len by (simp add: word_less_nat_alt)
    have "drv_qspi_set_descriptor hw src (of_nat (length bs)) (ucast io') QSPI_MASTER_WRITE_E QSPI_PIO_MODE_E s
        = Some (put (n - 1) (buf_at hw u) bs s)"
      using nz src0 True dir io room ptr copy [OF ub]
      by (simp add: drv_qspi_set_descriptor_def get_last_descriptor [OF cl] len put_def Let_def del: One_nat_def)
    then show ?thesis using outq_put_last [OF B Q _ bs(1) ub] True u by fastforce
  next
    case False
    have alloc: "drv_qspi_alloc_descriptor hw (of_nat (length bs)) QSPI_PIO_MODE_E s = Some (n, appended n (buf_at hw (round4 u)) s)"
      using alloc_started [OF B Q n u _ nz] bs(2) len by simp
    have new: "0 < n \<Longrightarrow> ucast (qd_multi_io_mode (q_descriptors s (n - 1))) \<noteq> (ucast io' :: u8)"
      using False Q by (auto simp: outq_def ucast_io_inj)
    have "drv_qspi_set_descriptor hw src (of_nat (length bs)) (ucast io') QSPI_MASTER_WRITE_E QSPI_PIO_MODE_E s = Some ?new"
      using nz src0 new copy [OF bs(2)]
      by (auto simp: drv_qspi_set_descriptor_def get_last_descriptor [OF cl] len alloc put_def Let_def started_desc_def upd_desc_def fresh_def zero_descriptor_def)
    moreover have "round4 u + length bs \<le> u + 3 + length bs" using round4_bounds(2) [of u] by simp
    ultimately show ?thesis using outq_put_new [OF B Q n bs] by fastforce
  qed
qed

lemma queue_opcode_out:
  assumes "buf_ok hw" and "outq hw W view s n u io F" and "n < QSPI_NUM_DESCRIPTORS" and "u \<le> 120"
  shows "\<exists>s' n' v. drv_qspi_queue_opcode hw opcode (ucast (io' :: 3 word)) QSPI_PIO_MODE_E s = Some s'
    \<and> outq hw W view s' n' v io' (outs W io' [opcode] F) \<and> 0 < n' \<and> n' \<le> Suc n \<and> v \<le> u + 4
    \<and> same_outside hw (q_mem s) (q_mem s') \<and> q_dev s' = q_dev s"
  using set_descriptor_out [OF assms(1-3), of "[opcode]" "Src_buf [opcode]" io'] assms(4) round4_bounds(2) [of u]
  by (fastforce simp: drv_qspi_queue_opcode_def)

lemma length_write_addr [simp]: "length (write_addr a n) = n"
  by (simp add: write_addr_def)

lemma write_addr_0 [simp]: "write_addr a 0 = []"
  by (simp add: write_addr_def)

lemma queue_addr_out:
  assumes "buf_ok hw" and Q: "outq hw W view s n u io F" and "0 < n" and "n < QSPI_NUM_DESCRIPTORS" and u: "u \<le> 115"
    and ab: "unat addr_bytes \<le> 4"
  shows "\<exists>s' n' v. drv_qspi_queue_addr hw address addr_bytes (ucast (io' :: 3 word)) QSPI_PIO_MODE_E s = Some s'
    \<and> outq hw W view s' n' v (if addr_bytes = 0 then io else io') (outs W io' (write_addr address (unat addr_bytes)) F) \<and> 0 < n' \<and> n' \<le> Suc n
    \<and> v \<le> u + 7 \<and> same_outside hw (q_mem s) (q_mem s') \<and> q_dev s' = q_dev s"
proof (cases "addr_bytes = 0")
  case True
  then have "drv_qspi_queue_addr hw address addr_bytes (ucast io') QSPI_PIO_MODE_E s = Some s" by (simp add: drv_qspi_queue_addr_def)
  then show ?thesis using True Q \<open>0 < n\<close> le_SucI [of n n] by (fastforce intro: trans_le_add1)
next
  case False
  let ?bs = "write_addr address (unat addr_bytes)"
  have "(ucast addr_bytes :: u32) = of_nat (length ?bs)" by simp
  moreover have "?bs \<noteq> []" using False by (metis length_0_conv length_write_addr unat_eq_zero)
  moreover have "round4 u + length ?bs \<le> 128" "u \<le> 125" using u ab round4_bounds(2) [of u] by simp_all
  ultimately show ?thesis
    using set_descriptor_out [OF assms(1,2,4), of ?bs "Src_buf ?bs" io'] ab False
    by (fastforce simp: drv_qspi_queue_addr_def)
qed

text \<open>The dummy phase: in the mode of the last part when the clocks are whole bytes there, in
  quad mode otherwise.\<close>

definition dummy_phase :: "3 word \<Rightarrow> u8 \<Rightarrow> 3 word \<times> nat" where
  "dummy_phase io clocks =
     (case clocks_per_bytes (ucast io) of
        None \<Rightarrow> (io, 0)
      | Some c \<Rightarrow>
          if unat clocks mod unat c = 0 then (io, unat clocks div unat c)
          else (ucast QSPI_SDR_4BIT_E, unat clocks div 2))"

lemma fill_dummy_put:
  "fill_dummy i ptr k s = put i ptr (replicate (unat k) 0xFF) s"
  by (simp add: fill_dummy_def put_def Let_def)

lemma alloc_dummy_out:
  assumes B: "buf_ok hw" and Q: "outq hw W view s n u io F" and n: "n < QSPI_NUM_DESCRIPTORS" and u: "u \<le> 100"
    and clk: "2 \<le> unat clocks" "unat clocks \<le> 16"
  shows "\<exists>s' v. alloc_dummy hw clocks QSPI_PIO_MODE_E s = Some s'
    \<and> outq hw W view s' (Suc n) v (ucast QSPI_SDR_4BIT_E) (outs W (ucast QSPI_SDR_4BIT_E) (replicate (unat clocks div 2) 0xFF) F)
    \<and> v \<le> u + 19 \<and> same_outside hw (q_mem s) (q_mem s') \<and> q_dev s' = q_dev s"
proof -
  let ?k = "ucast clocks div 2 :: u32" and ?io = "ucast QSPI_SDR_4BIT_E :: 3 word" and ?a = "buf_at hw (round4 u)"
  have k: "unat ?k = unat clocks div 2" by (simp add: unat_div_distrib)
  have k0: "?k \<noteq> 0" "replicate (unat ?k) (0xFF :: u8) \<noteq> []" using k clk(1) by (auto simp del: unat_eq_zero simp: unat_eq_zero [symmetric])
  have fit: "round4 u + unat ?k \<le> 128" using k clk(2) u round4_bounds(2) [of u] by linarith
  have alloc: "drv_qspi_alloc_descriptor hw ?k QSPI_PIO_MODE_E s = Some (n, appended n ?a s)"
    using alloc_started [OF B Q n _ fit k0(1)] u by simp
  let ?s1 = "started_desc n ?a QSPI_MASTER_WRITE_E ?io s"
  have addr: "qd_data_address (q_descriptors ?s1 n) = ?a" by (simp add: fresh_def)
  have "alloc_dummy hw clocks QSPI_PIO_MODE_E s = Some (fill_dummy n (qd_data_address (q_descriptors ?s1 n)) ?k ?s1)"
    by (simp add: alloc_dummy_def alloc started_desc_def Let_def)
  also have "\<dots> = Some (put n ?a (replicate (unat ?k) 0xFF) ?s1)"
    unfolding addr by (simp only: fill_dummy_put)
  finally have "alloc_dummy hw clocks QSPI_PIO_MODE_E s = Some (put n ?a (replicate (unat clocks div 2) 0xFF) ?s1)"
    unfolding k .
  moreover have "round4 u + length (replicate (unat ?k) (0xFF :: u8)) \<le> 128" using fit by simp
  note new = outq_put_new [OF B Q n k0(2) this, of ?io]
  moreover have "round4 u + unat ?k \<le> u + 19" using k clk(2) round4_bounds(2) [of u] by linarith
  ultimately show ?thesis unfolding k by (auto simp: k)
qed

lemma clocks_per_bytes_cases: "clocks_per_bytes io = Some c \<Longrightarrow> unat c \<in> {1, 2, 4, 8}"
  by (auto simp: clocks_per_bytes_def split: if_splits)

lemma queue_dummy_out:
  assumes B: "buf_ok hw" and Q: "outq hw W view s n u io F" and n: "0 < n" "n < QSPI_NUM_DESCRIPTORS" and u: "u \<le> 100"
    and c: "clocks_per_bytes (ucast io) = Some c" and clk: "unat clocks \<le> 16"
    and ph: "dummy_phase io clocks = (io', k)" "clocks = 0 \<or> 0 < k"
  shows "\<exists>s' n' v io2. drv_qspi_queue_dummy hw clocks QSPI_PIO_MODE_E s = Some s'
    \<and> outq hw W view s' n' v io2 (outs W io' (replicate k 0xFF) F) \<and> 0 < n' \<and> n' \<le> Suc n
    \<and> v \<le> u + 19 \<and> same_outside hw (q_mem s) (q_mem s') \<and> q_dev s' = q_dev s"
proof (cases "clocks = 0")
  case True
  then have "k = 0" using ph(1) c by (simp add: dummy_phase_def)
  moreover have "drv_qspi_queue_dummy hw clocks QSPI_PIO_MODE_E s = Some s" using True by (simp add: drv_qspi_queue_dummy_def)
  ultimately show ?thesis using Q n(1) le_SucI [of n n] by (fastforce intro: trans_le_add1)
next
  case False
  let ?p = "q_descriptors s (n - 1)" and ?db = "ucast clocks div c :: u32"
  have cl: "chain_len s n" using Q by (simp add: outq_def)
  have "unlink ?p \<in> set (queue s n)" using n by (auto simp: queue_def)
  then have dir: "qd_direction ?p = QSPI_MASTER_WRITE_E" using Q by (auto simp: outq_def plain_out_def unlink_def)
  obtain b where b: "qd_data_address ?p = buf_at hw b" "b + unat (qd_length ?p) = u" and io: "qd_multi_io_mode ?p = io"
    using Q n by (auto simp: outq_def)
  have ptr: "qd_data_address ?p + ucast (qd_length ?p) = buf_at hw u"
    using buf_at_add [of hw b "unat (qd_length ?p)"] b by simp
  have ptr0: "buf_at hw u \<noteq> 0" using buf_at_neq_0 [OF B] u by simp
  have db: "unat ?db = unat clocks div unat c" by (simp add: unat_div_distrib)
  have rem: "(ucast clocks mod c :: u32) = 0 \<longleftrightarrow> unat clocks mod unat c = 0"
    by (simp add: unat_eq_zero [symmetric] unat_mod_distrib del: unat_eq_zero)
  have "unat ?db \<le> 16" using clk unfolding db by (meson div_le_dividend le_trans)
  then have fit: "unat ?db \<le> 128 - u" using u by simp
  have room: "?db \<le> drv_qspi_get_available_room hw ?p"
    unfolding word_le_nat_alt available_room_last [OF B Q n(1)] by (rule fit)
  show ?thesis
  proof (cases "unat clocks mod unat c = 0")
    case True
    then have k: "io' = io" "k = unat ?db" using ph(1) c by (simp_all add: dummy_phase_def db)
    have ne: "replicate k (0xFF :: u8) \<noteq> []" using ph(2) False by simp
    have len: "u + length (replicate k (0xFF :: u8)) \<le> 128" using fit u by (simp add: k)
    have "drv_qspi_queue_dummy hw clocks QSPI_PIO_MODE_E s = Some (put (n - 1) (buf_at hw u) (replicate k 0xFF) s)"
      using False n(1) True room ptr ptr0
      by (simp add: drv_qspi_queue_dummy_def get_last_descriptor [OF cl] dir io c Let_def rem fill_dummy_put k(2) del: One_nat_def)
    moreover have "u + length (replicate k (0xFF :: u8)) \<le> u + 19" using \<open>unat ?db \<le> 16\<close> by (simp add: k)
    ultimately show ?thesis using outq_put_last [OF B Q n(1) ne len] k(1) n(1) le_SucI [of n n] by fastforce
  next
    case ndiv: False
    then have k: "io' = ucast QSPI_SDR_4BIT_E" "k = unat clocks div 2" using ph(1) c by (simp_all add: dummy_phase_def)
    then have "2 \<le> unat clocks" using ph(2) False by auto
    note alloc = alloc_dummy_out [OF B Q n(2) u this clk]
    have "drv_qspi_queue_dummy hw clocks QSPI_PIO_MODE_E s = alloc_dummy hw clocks QSPI_PIO_MODE_E s"
      using False n(1) ndiv
      by (simp add: drv_qspi_queue_dummy_def get_last_descriptor [OF cl] dir io c Let_def rem del: One_nat_def)
    then show ?thesis using alloc k by fastforce
  qed
qed

end
