(* ===== verification/Qspi_Data.thy ===== *)
theory Qspi_Data
  imports Qspi_Queue
begin

text \<open>
  The data phase of a QSPI command. The client's buffer is described by how many of its bytes
  lie before the first word boundary (they go through the transfer buffer) and the aligned
  rest, which the descriptors address in place, in chunks of at most \<open>0xFFE0\<close> bytes; a long
  transfer flushes the chain on the way.
\<close>

section \<open>Copies and separate ranges\<close>

lemma mem_write_commute:
  assumes "apart a (length xs) b (length ys)"
  shows "mem_write (mem_write m a xs) b ys = mem_write (mem_write m b ys) a xs"
proof
  fix p
  have lx: "length xs \<le> 2 ^ 32" and ly: "length ys \<le> 2 ^ 32" using assms by (auto simp: apart_def)
  consider (x) i where "i < length xs" "p = a + of_nat i" | (y) j where "j < length ys" "p = b + of_nat j"
    | (no) "\<forall>i<length xs. p \<noteq> a + of_nat i" "\<forall>j<length ys. p \<noteq> b + of_nat j" by blast
  then show "mem_write (mem_write m a xs) b ys p = mem_write (mem_write m b ys) a xs p"
  proof cases
    case x
    have "mem_write (mem_write m a xs) b ys p = mem_write m a xs p"
      using apart_offset_neq [OF assms x(1)] unfolding x(2) by (intro mem_write_other) auto
    then show ?thesis unfolding x(2) using x(1) lx by (simp add: mem_write_nth)
  next
    case y
    have "mem_write (mem_write m b ys) a xs p = mem_write m b ys p"
      using apart_offset_neq [OF assms _ y(1)] unfolding y(2) by (intro mem_write_other) metis
    then show ?thesis unfolding y(2) using y(1) ly by (simp add: mem_write_nth)
  next
    case no
    then show ?thesis by (simp add: mem_write_other)
  qed
qed

lemma copy_bytes_apart:
  "apart dst n src n \<Longrightarrow> copy_bytes n dst src m = mem_write m dst (mem_read m src n)"
proof (induction n arbitrary: dst src m)
  case 0
  then show ?case by simp
next
  case (Suc n)
  have neq: "dst \<noteq> src + of_nat i" if "i < Suc n" for i
    using apart_offset_neq [OF Suc.prems, of 0 i] that by simp
  have rd: "mem_read (m(dst := m src)) (src + 1) n = mem_read m (src + 1) n"
  proof (rule nth_equalityI)
    fix i assume "i < length (mem_read (m(dst := m src)) (src + 1) n)"
    then have "i < n" by simp
    then show "mem_read (m(dst := m src)) (src + 1) n ! i = mem_read m (src + 1) n ! i"
      using neq [of "Suc i"] by (auto simp: algebra_simps)
  qed simp
  have all: "mem_read m src (Suc n) = m src # mem_read m (src + 1) n"
    using mem_read_add [of m src 1 n] by (simp add: mem_read_def)
  show ?case
  proof (cases "n = 0")
    case True
    then show ?thesis by (simp add: mem_read_def)
  next
    case False
    have "unat (dst + 1) = unat dst + 1" "unat (src + 1) = unat src + 1"
      using unat_addr_offset [of dst 1] unat_addr_offset [of src 1] Suc.prems False by (auto simp: apart_def)
    then have "apart (dst + 1) n (src + 1) n" using Suc.prems by (auto simp: apart_def)
    from Suc.IH [OF this, of "m(dst := m src)"] show ?thesis by (simp only: copy_bytes.simps all mem_write.simps rd)
  qed
qed

lemma same_outside_mem_write:
  assumes "same_outside hw m m'"
  shows "same_outside hw (mem_write m a bs) (mem_write m' a bs)"
  using assms
proof (induction bs arbitrary: m m' a)
  case (Cons b bs)
  have "same_outside hw (m(a := b)) (m'(a := b))" using Cons.prems by (simp add: same_outside_def)
  from Cons.IH [OF this, of "a + 1"] show ?case by (simp only: mem_write.simps)
qed simp

text \<open>A range of client memory, away from the transfer buffer.\<close>

definition client :: "'d qspi_hw \<Rightarrow> addr \<Rightarrow> nat \<Rightarrow> bool" where
  "client hw a n \<longleftrightarrow> apart a n (qh_buf hw) 128"

lemma client_sub:
  assumes "client hw a n" and "k + j \<le> n" and "0 < j"
  shows "client hw (a + of_nat k) j" and "unat (a + of_nat k) = unat a + k"
proof -
  show u: "unat (a + of_nat k) = unat a + k"
    using assms by (intro unat_addr_offset) (auto simp: client_def apart_def)
  show "client hw (a + of_nat k) j"
    unfolding client_def by (rule apart_sub [OF assms(1) [unfolded client_def]]) (use u assms(2) in simp_all)
qed

lemma client_buf_apart:
  assumes "buf_ok hw" and "client hw a n" and "x + k \<le> 128"
  shows "apart (buf_at hw x) k a n"
  using assms unat_buf_at [of hw x] by (auto simp: client_def apart_def buf_ok_def)

section \<open>Writing data\<close>

definition wq :: "'f wire \<Rightarrow> ('d \<Rightarrow> 'f pio_view) \<Rightarrow> 'd qspi \<Rightarrow> nat \<Rightarrow> 'f \<Rightarrow> bool" where
  "wq W view s n F \<longleftrightarrow> chain_len s n \<and> pio_idle (view (q_dev s))
     \<and> (\<forall>p\<in>set (queue s n). desc_ok p \<and> qd_direction p = QSPI_MASTER_WRITE_E \<and> qd_fragment p \<and> qd_bounce_length p = 0)
     \<and> fold (desc_out W (q_mem s)) (queue s n) (pv_chip (view (q_dev s))) = F"

lemma outq_wq:
  assumes "buf_ok hw" and "outq hw W view s n u io F"
  shows "wq W view s n F"
  using assms by (fastforce simp: outq_def wq_def plain_out_def desc_ok_def word_aligned_buf)

lemma fold_effect_out:
  "\<forall>p\<in>set ps. qd_direction p = QSPI_MASTER_WRITE_E \<and> qd_fragment p \<Longrightarrow>
    fold (desc_effect W) ps (m, f) = (m, fold (desc_out W m) ps f)"
  by (induction ps arbitrary: f) (simp_all add: desc_effect_def desc_out_def release_def)

lemma fold_bounce_none: "\<forall>p\<in>set ps. qd_bounce_length p = 0 \<Longrightarrow> fold bounce ps m = m"
  by (induction ps arbitrary: m) (simp_all add: bounce_def)

lemma wq_flushed:
  assumes "wq W view s n F"
  shows "flushed W (queue s n) (q_mem s, pv_chip (view (q_dev s))) = (q_mem s, F)"
  using assms by (simp add: flushed_def wq_def fold_effect_out fold_bounce_none)

lemma alloc_direct:
  assumes "chain_len s n" and "n < QSPI_NUM_DESCRIPTORS"
  shows "drv_qspi_alloc_descriptor hw 0 QSPI_PIO_MODE_E s = Some (n, appended n 0 s)"
  using assms(2)
  by (simp add: drv_qspi_alloc_descriptor_def get_last_descriptor [OF assms(1)] appended_def fresh_def not_le Let_def)

lemma alloc_direct_flush:
  assumes "chain_len s QSPI_NUM_DESCRIPTORS" and "drv_qspi_flush_chain hw QSPI_PIO_MODE_E s = Some s1"
  shows "drv_qspi_alloc_descriptor hw 0 QSPI_PIO_MODE_E s = Some (0, appended 0 0 s1)"
  using assms(2)
  by (simp add: drv_qspi_alloc_descriptor_def get_last_descriptor [OF assms(1)] appended_def fresh_def QSPI_NUM_DESCRIPTORS_def Let_def)

text \<open>The descriptor of a chunk in place.\<close>

definition direct_desc :: "nat \<Rightarrow> addr \<Rightarrow> u32 \<Rightarrow> 3 word \<Rightarrow> bool \<Rightarrow> 'd qspi \<Rightarrow> 'd qspi" where
  "direct_desc n a c io wr s =
     upd_desc n (\<lambda>p. p\<lparr>qd_direction := dir_of wr, qd_multi_io_mode := io, qd_data_address := a, qd_length := ucast c\<rparr>)
       (appended n 0 s)"

lemma direct_desc_simps [simp]:
  "q_mem (direct_desc n a c io wr s) = q_mem s" "q_dev (direct_desc n a c io wr s) = q_dev s"
  "queue (direct_desc n a c io wr s) n = queue s n"
  "q_descriptors (direct_desc n a c io wr s) n =
     (fresh a)\<lparr>qd_direction := dir_of wr, qd_multi_io_mode := io, qd_length := ucast c\<rparr>"
proof -
  show "q_mem (direct_desc n a c io wr s) = q_mem s" "q_dev (direct_desc n a c io wr s) = q_dev s"
    "q_descriptors (direct_desc n a c io wr s) n =
       (fresh a)\<lparr>qd_direction := dir_of wr, qd_multi_io_mode := io, qd_length := ucast c\<rparr>"
    by (simp_all add: direct_desc_def upd_desc_def fresh_def)
  show "queue (direct_desc n a c io wr s) n = queue s n" by (simp add: direct_desc_def)
qed

lemma chain_len_direct_desc:
  "chain_len s n \<Longrightarrow> n < QSPI_NUM_DESCRIPTORS \<Longrightarrow> chain_len (direct_desc n a c io wr s) (Suc n)"
  by (simp add: direct_desc_def chain_len_appended)

lemma wq_direct_desc:
  assumes Q: "wq W view s n F" and n: "n < QSPI_NUM_DESCRIPTORS" and a: "word_aligned a" and c: "0 < unat c" "unat c < 2 ^ 16"
  shows "wq W view (direct_desc n a c io True s) (Suc n) (outs W io (mem_read (q_mem s) a (unat c)) F)"
  using Q n a c chain_len_direct_desc [of s n a c io True]
  by (simp add: wq_def queue_Suc desc_ok_def unlink_def dir_of_def fresh_def zero_descriptor_def unat_narrow_u16 desc_out_def)

lemma wq_flush:
  assumes "pio_controller hw W view lag" and Q: "wq W view s n F"
  shows "\<exists>s'. drv_qspi_flush_chain hw QSPI_PIO_MODE_E s = Some s' \<and> wq W view s' 0 F \<and> q_mem s' = q_mem s"
proof -
  have "chain_len s n" "\<forall>p\<in>set (queue s n). desc_ok p" "pio_idle (view (q_dev s))" using Q by (auto simp: wq_def)
  from flush_chain_effect [OF assms(1) this] show ?thesis
    unfolding wq_flushed [OF Q] by (auto simp: wq_def)
qed

text \<open>One chunk: its descriptor is appended, after a flush if the array is full.\<close>

lemma wq_chunk:
  assumes C: "pio_controller hw W view lag" and Q: "wq W view s n F" and a: "word_aligned a"
    and c: "0 < unat c" "unat c < 2 ^ 16"
  shows "\<exists>i s1. drv_qspi_alloc_descriptor hw 0 QSPI_PIO_MODE_E s = Some (i, appended i 0 s1)
    \<and> wq W view (direct_desc i a c io True s1) (Suc i) (outs W io (mem_read (q_mem s) a (unat c)) F) \<and> q_mem s1 = q_mem s"
proof (cases "n < QSPI_NUM_DESCRIPTORS")
  case True
  have "chain_len s n" using Q by (simp add: wq_def)
  from alloc_direct [OF this True] wq_direct_desc [OF Q True a c] show ?thesis by blast
next
  case False
  then have "chain_len s QSPI_NUM_DESCRIPTORS" using Q by (auto simp: wq_def chain_len_def)
  moreover obtain s1 where s1: "drv_qspi_flush_chain hw QSPI_PIO_MODE_E s = Some s1" "wq W view s1 0 F" "q_mem s1 = q_mem s"
    using wq_flush [OF C Q] by blast
  ultimately have "drv_qspi_alloc_descriptor hw 0 QSPI_PIO_MODE_E s = Some (0, appended 0 0 s1)" by (blast intro: alloc_direct_flush)
  moreover have "wq W view (direct_desc 0 a c io True s1) (Suc 0) (outs W io (mem_read (q_mem s1) a (unat c)) F)"
    by (rule wq_direct_desc [OF s1(2) _ a c]) (simp add: QSPI_NUM_DESCRIPTORS_def)
  ultimately show ?thesis using s1(3) by auto
qed

text \<open>The size of the next chunk.\<close>

lemma chunk_size:
  assumes "len \<noteq> (0 :: u32)"
  defines "c \<equiv> (if len > 0xFFE0 then 0xFFE0 else len)"
  shows "0 < unat c" "unat c < 2 ^ 16" "c \<le> len" "unat (len - c) = unat len - unat c" "len \<noteq> c \<longrightarrow> 4 dvd unat c"
proof -
  show le: "c \<le> len" by (auto simp: c_def)
  show "0 < unat c" using assms(1) by (auto simp: c_def unat_gt_0)
  show "unat c < 2 ^ 16" by (auto simp: c_def word_less_nat_alt not_less word_le_nat_alt)
  show "unat (len - c) = unat len - unat c" using le by (simp add: unat_sub word_le_nat_alt)
  show "len \<noteq> c \<longrightarrow> 4 dvd unat c" by (auto simp: c_def)
qed

lemma queue_data_direct_out:
  assumes C: "pio_controller hw W view lag"
  shows "wq W view s n F \<Longrightarrow> word_aligned a \<Longrightarrow>
    \<exists>s' n'. drv_qspi_queue_data_direct hw a len (ucast (io :: 3 word)) True QSPI_PIO_MODE_E s = Some s'
      \<and> wq W view s' n' (outs W io (mem_read (q_mem s) a (unat len)) F) \<and> q_mem s' = q_mem s \<and> (0 < n \<or> len \<noteq> 0 \<longrightarrow> 0 < n')"
proof (induction "unat len" arbitrary: s n F a len rule: less_induct)
  case less
  show ?case
  proof (cases "len = 0")
    case True
    then show ?thesis using less.prems(1) by (auto simp: drv_qspi_queue_data_direct.simps)
  next
    case False
    define c where "c = (if len > 0xFFE0 then 0xFFE0 else len)"
    note c = chunk_size [OF False, folded c_def]
    obtain i s1 where s1: "drv_qspi_alloc_descriptor hw 0 QSPI_PIO_MODE_E s = Some (i, appended i 0 s1)"
        "wq W view (direct_desc i a c io True s1) (Suc i) (outs W io (mem_read (q_mem s) a (unat c)) F)" "q_mem s1 = q_mem s"
      using wq_chunk [OF C less.prems c(1,2)] by blast
    have step: "drv_qspi_queue_data_direct hw a len (ucast io) True QSPI_PIO_MODE_E s =
        drv_qspi_queue_data_direct hw (a + c) (len - c) (ucast io) True QSPI_PIO_MODE_E (direct_desc i a c io True s1)"
      using False by (simp add: drv_qspi_queue_data_direct.simps [of hw a len] s1(1) Let_def c_def [symmetric] direct_desc_def)
    have rd: "mem_read (q_mem s) a (unat len) = mem_read (q_mem s) a (unat c) @ mem_read (q_mem s) (a + c) (unat (len - c))"
      using mem_read_add [of "q_mem s" a "unat c" "unat (len - c)"] c(3,4) by (simp add: word_le_nat_alt)
    show ?thesis
    proof (cases "len = c")
      case True
      then have "drv_qspi_queue_data_direct hw a len (ucast io) True QSPI_PIO_MODE_E s = Some (direct_desc i a c io True s1)"
        unfolding step by (simp add: drv_qspi_queue_data_direct.simps)
      then show ?thesis using s1(2,3) True by auto
    next
      case False
      then have al: "word_aligned (a + c)" using word_aligned_add [OF less.prems(2), of "unat c"] c(5) by simp
      have "unat (len - c) < unat len" using c(1,3,4) by (simp add: word_le_nat_alt)
      from less.hyps [OF this s1(2) al] show ?thesis unfolding step rd using s1(3) by auto
    qed
  qed
qed

section \<open>Reading data\<close>

text \<open>Bounce copies go from the transfer buffer to the first \<open>k\<close> bytes of the client's buffer.\<close>

definition bounce_ok :: "'d qspi_hw \<Rightarrow> addr \<Rightarrow> nat \<Rightarrow> qspi_descriptor \<Rightarrow> bool" where
  "bounce_ok hw dst k p \<longleftrightarrow> qd_bounce_length p = 0 \<or>
     (qd_bounce_dst p = dst \<and> unat (qd_bounce_length p) = k \<and> (\<exists>b. qd_bounce_src p = buf_at hw b \<and> b + k \<le> 128))"

definition rq ::
    "'d qspi_hw \<Rightarrow> 'f wire \<Rightarrow> ('d \<Rightarrow> 'f pio_view) \<Rightarrow> addr \<Rightarrow> nat \<Rightarrow> 'd qspi \<Rightarrow> nat \<Rightarrow> memory \<Rightarrow> 'f \<Rightarrow> bool" where
  "rq hw W view dst k s n M F \<longleftrightarrow> chain_len s n \<and> pio_idle (view (q_dev s))
     \<and> (\<forall>p\<in>set (queue s n). desc_ok p \<and> qd_fragment p \<and> bounce_ok hw dst k p)
     \<and> same_outside hw M (fst (flushed W (queue s n) (q_mem s, pv_chip (view (q_dev s)))))
     \<and> snd (flushed W (queue s n) (q_mem s, pv_chip (view (q_dev s)))) = F"

lemma wq_rq: "wq W view s n F \<Longrightarrow> rq hw W view dst k s n (q_mem s) F"
  using wq_flushed [of W view s n F] by (simp add: wq_def rq_def bounce_ok_def)

lemma bounce_write_commute:
  assumes B: "buf_ok hw" and p: "bounce_ok hw dst k p" and dst: "client hw dst k" and a: "client hw a (length bs)"
    and ap: "apart dst k a (length bs)"
  shows "bounce p (mem_write m a bs) = mem_write (bounce p m) a bs"
proof (cases "qd_bounce_length p = 0")
  case True
  then show ?thesis by (simp add: bounce_def)
next
  case False
  then obtain b where b: "qd_bounce_src p = buf_at hw b" "b + k \<le> 128" "qd_bounce_dst p = dst" "unat (qd_bounce_length p) = k"
    using p by (auto simp: bounce_ok_def)
  have copy: "bounce p m' = mem_write m' dst (mem_read m' (buf_at hw b) k)" for m'
    using copy_bytes_apart [OF apart_sym [OF client_buf_apart [OF B dst b(2)]]] by (simp add: bounce_def b)
  have "mem_read (mem_write m a bs) (buf_at hw b) k = mem_read m (buf_at hw b) k"
    by (rule mem_read_write_apart [OF client_buf_apart [OF B a b(2)]])
  then show ?thesis unfolding copy using mem_write_commute [OF apart_sym, of dst "mem_read m (buf_at hw b) k" a bs m] ap by simp
qed

lemma fold_bounce_write_commute:
  assumes "buf_ok hw" and "client hw dst k" and "client hw a (length bs)" and "apart dst k a (length bs)"
  shows "\<forall>p\<in>set ps. bounce_ok hw dst k p \<Longrightarrow> fold bounce ps (mem_write m a bs) = mem_write (fold bounce ps m) a bs"
  by (induction ps arbitrary: m) (simp_all add: bounce_write_commute [OF assms(1) _ assms(2-4)])

lemma flushed_snoc_read:
  assumes "buf_ok hw" and "client hw dst k" and "client hw a (unat (qd_length p))" and "apart dst k a (unat (qd_length p))"
    and ps: "\<forall>p\<in>set ps. bounce_ok hw dst k p"
    and p: "qd_direction p = QSPI_MASTER_READ_E" "qd_fragment p" "qd_bounce_length p = 0" "qd_data_address p = a"
    and D: "flushed W ps mf = (D, F)" and r: "ins W (qd_multi_io_mode p) (unat (qd_length p)) F = (bs, F')"
  shows "flushed W (ps @ [p]) mf = (mem_write D a bs, F')"
proof -
  obtain m f where mf: "fold (desc_effect W) ps mf = (m, f)" by fastforce
  then have D': "D = fold bounce ps m" "F = f" using D by (simp_all add: flushed_def)
  have len: "length bs = unat (qd_length p)" using length_ins [of W "qd_multi_io_mode p" "unat (qd_length p)" F] r by simp
  have "desc_effect W p (m, f) = (mem_write m a bs, F')" using p r D'(2) by (simp add: desc_effect_def release_def)
  moreover have "fold bounce ps (mem_write m a bs) = mem_write D a bs"
    unfolding D' using fold_bounce_write_commute [of hw dst k a bs ps m] assms(1-4) ps len by simp
  ultimately show ?thesis using p(3) by (simp add: flushed_def mf bounce_def)
qed

lemma rq_direct_desc:
  assumes B: "buf_ok hw" and Q: "rq hw W view dst k s n M F" and n: "n < QSPI_NUM_DESCRIPTORS" and a: "word_aligned a"
    and c: "0 < unat c" "unat c < 2 ^ 16" and cl: "client hw dst k" "client hw a (unat c)" "apart dst k a (unat c)"
    and r: "ins W io (unat c) F = (bs, F')"
  shows "rq hw W view dst k (direct_desc n a c io False s) (Suc n) (mem_write M a bs) F'"
proof -
  let ?s = "direct_desc n a c io False s" and ?mf = "(q_mem s, pv_chip (view (q_dev s)))"
  define p where "p = unlink (q_descriptors ?s n)"
  have q: "queue ?s (Suc n) = queue s n @ [p]" by (simp add: queue_Suc p_def)
  have p: "qd_direction p = QSPI_MASTER_READ_E" "qd_fragment p" "qd_bounce_length p = 0" "qd_data_address p = a"
      "qd_multi_io_mode p = io" "unat (qd_length p) = unat c"
    using c(2) by (simp_all add: p_def unlink_def fresh_def zero_descriptor_def dir_of_def unat_narrow_u16)
  obtain D where D: "flushed W (queue s n) ?mf = (D, F)" "same_outside hw M D" using Q by (cases "flushed W (queue s n) ?mf") (auto simp: rq_def)
  have ok: "\<forall>p\<in>set (queue s n). bounce_ok hw dst k p" using Q by (simp add: rq_def)
  have fl: "flushed W (queue ?s (Suc n)) ?mf = (mem_write D a bs, F')"
    unfolding q by (rule flushed_snoc_read [OF B cl(1) _ _ ok p(1-4) D(1)]) (use cl r p in simp_all)
  have "desc_ok p" "bounce_ok hw dst k p" using a c(1) p by (simp_all add: desc_ok_def bounce_ok_def)
  then show ?thesis
    using Q fl p(2) chain_len_direct_desc [of s n a c io False] n same_outside_mem_write [OF D(2)] by (simp add: rq_def q)
qed

lemma rq_flush:
  assumes "pio_controller hw W view lag" and Q: "rq hw W view dst k s n M F"
  shows "\<exists>s'. drv_qspi_flush_chain hw QSPI_PIO_MODE_E s = Some s' \<and> rq hw W view dst k s' 0 M F"
proof -
  have "chain_len s n" "\<forall>p\<in>set (queue s n). desc_ok p" "pio_idle (view (q_dev s))" using Q by (auto simp: rq_def)
  from flush_chain_effect [OF assms(1) this]
  obtain s' where s': "drv_qspi_flush_chain hw QSPI_PIO_MODE_E s = Some s'" "chain_len s' 0" "pio_idle (view (q_dev s'))"
      "(q_mem s', pv_chip (view (q_dev s'))) = flushed W (queue s n) (q_mem s, pv_chip (view (q_dev s)))" by blast
  have "rq hw W view dst k s' 0 M F"
    using s'(2,3) Q unfolding rq_def s'(4) by (simp add: flushed_def split: prod.splits)
  then show ?thesis using s'(1) by blast
qed

lemma rq_chunk:
  assumes C: "pio_controller hw W view lag" and B: "buf_ok hw" and Q: "rq hw W view dst k s n M F" and a: "word_aligned a"
    and c: "0 < unat c" "unat c < 2 ^ 16" and cl: "client hw dst k" "client hw a (unat c)" "apart dst k a (unat c)"
    and r: "ins W io (unat c) F = (bs, F')"
  shows "\<exists>i s1. drv_qspi_alloc_descriptor hw 0 QSPI_PIO_MODE_E s = Some (i, appended i 0 s1)
    \<and> rq hw W view dst k (direct_desc i a c io False s1) (Suc i) (mem_write M a bs) F'"
proof (cases "n < QSPI_NUM_DESCRIPTORS")
  case True
  have "chain_len s n" using Q by (simp add: rq_def)
  from alloc_direct [OF this True] rq_direct_desc [OF B Q True a c cl r] show ?thesis by blast
next
  case False
  then have "chain_len s QSPI_NUM_DESCRIPTORS" using Q by (auto simp: rq_def chain_len_def)
  moreover obtain s1 where s1: "drv_qspi_flush_chain hw QSPI_PIO_MODE_E s = Some s1" "rq hw W view dst k s1 0 M F"
    using rq_flush [OF C Q] by blast
  ultimately have "drv_qspi_alloc_descriptor hw 0 QSPI_PIO_MODE_E s = Some (0, appended 0 0 s1)" by (blast intro: alloc_direct_flush)
  moreover have "rq hw W view dst k (direct_desc 0 a c io False s1) (Suc 0) (mem_write M a bs) F'"
    by (rule rq_direct_desc [OF B s1(2) _ a c cl r]) (simp add: QSPI_NUM_DESCRIPTORS_def)
  ultimately show ?thesis by auto
qed

lemma queue_data_direct_in:
  assumes C: "pio_controller hw W view lag" and B: "buf_ok hw" and dst: "client hw dst k"
  shows "rq hw W view dst k s n M F \<Longrightarrow> word_aligned a \<Longrightarrow> client hw a (unat len) \<Longrightarrow> apart dst k a (unat len) \<Longrightarrow>
    ins W io (unat len) F = (bs, F') \<Longrightarrow>
    \<exists>s' n'. drv_qspi_queue_data_direct hw a len (ucast (io :: 3 word)) False QSPI_PIO_MODE_E s = Some s'
      \<and> rq hw W view dst k s' n' (mem_write M a bs) F' \<and> (0 < n \<or> len \<noteq> 0 \<longrightarrow> 0 < n')"
proof (induction "unat len" arbitrary: s n M F a len bs rule: less_induct)
  case less
  show ?case
  proof (cases "len = 0")
    case True
    then show ?thesis using less.prems(1,5) by (auto simp: drv_qspi_queue_data_direct.simps)
  next
    case False
    define c where "c = (if len > 0xFFE0 then 0xFFE0 else len)"
    note c = chunk_size [OF False, folded c_def]
    have cle: "unat c \<le> unat len" using c(3) by (simp add: word_le_nat_alt)
    have cl: "client hw a (unat c)" "apart dst k a (unat c)"
      using less.prems(3,4) cle by (auto simp: client_def apart_def)
    obtain b1 F1 where r1: "ins W io (unat c) F = (b1, F1)" by fastforce
    then have b1: "length b1 = unat c" using length_ins [of W io "unat c" F] by simp
    obtain b2 where r2: "ins W io (unat (len - c)) F1 = (b2, F')" "bs = b1 @ b2"
      using less.prems(5) ins_add [of W io "unat c" "unat (len - c)" F] c(4) cle r1
      by (cases "ins W io (unat (len - c)) F1") auto
    obtain i s1 where s1: "drv_qspi_alloc_descriptor hw 0 QSPI_PIO_MODE_E s = Some (i, appended i 0 s1)"
        "rq hw W view dst k (direct_desc i a c io False s1) (Suc i) (mem_write M a b1) F1"
      using rq_chunk [OF C B less.prems(1,2) c(1,2) dst cl r1] by blast
    have step: "drv_qspi_queue_data_direct hw a len (ucast io) False QSPI_PIO_MODE_E s =
        drv_qspi_queue_data_direct hw (a + c) (len - c) (ucast io) False QSPI_PIO_MODE_E (direct_desc i a c io False s1)"
      using False by (simp add: drv_qspi_queue_data_direct.simps [of hw a len] s1(1) Let_def c_def [symmetric] direct_desc_def)
    have mw: "mem_write (mem_write M a b1) (a + c) b2 = mem_write M a bs"
      unfolding r2(2) mem_write_append b1 by simp
    show ?thesis
    proof (cases "len = c")
      case True
      then have "b2 = []" "F1 = F'" using r2(1) by simp_all
      moreover have "drv_qspi_queue_data_direct hw a len (ucast io) False QSPI_PIO_MODE_E s = Some (direct_desc i a c io False s1)"
        using True unfolding step by (simp add: drv_qspi_queue_data_direct.simps)
      ultimately show ?thesis using s1(2) r2(2) by auto
    next
      case False
      then have al: "word_aligned (a + c)" using word_aligned_add [OF less.prems(2), of "unat c"] c(5) by simp
      have lt: "unat (len - c) < unat len" using c(1,4) cle by simp
      have pos: "0 < unat (len - c)" using False by (simp add: unat_gt_0)
      have sub: "client hw (a + c) (unat (len - c))" "unat (a + c) = unat a + unat c"
        using client_sub [OF less.prems(3), of "unat c" "unat (len - c)"] c(4) cle pos by simp_all
      have ap: "apart dst k (a + c) (unat (len - c))"
        using less.prems(4) sub(2) c(4) cle by (auto simp: apart_def)
      from less.hyps [OF lt s1(2) al sub(1) ap r2(1)] show ?thesis unfolding step mw by auto
    qed
  qed
qed

section \<open>The unaligned start\<close>

lemma provides_client:
  assumes "buf_ok hw" and "client hw a n" and "a \<noteq> 0"
  shows "provides hw (Src_mem a) m (mem_read m a n)"
  using assms client_buf_apart [OF assms(1,2)]
  by (simp add: provides_def copy_in_def copy_bytes_apart)

lemma set_descriptor_in:
  assumes B: "buf_ok hw" and Q: "outq hw W view s n u io F" and n: "0 < n" "n < QSPI_NUM_DESCRIPTORS" and u: "u \<le> 100"
    and k: "0 < unat k" "unat k \<le> 4" and a: "a \<noteq> 0" "client hw a (unat k)" and r: "ins W io' (unat k) F = (bs, F')"
  shows "\<exists>s'. drv_qspi_set_descriptor hw (Src_mem a) k (ucast (io' :: 3 word)) QSPI_MASTER_READ_E QSPI_PIO_MODE_E s = Some s'
    \<and> rq hw W view a (unat k) s' (Suc n) (mem_write (q_mem s) a bs) F'"
proof -
  let ?b = "round4 u" and ?mf = "(q_mem s, pv_chip (view (q_dev s)))"
  have cl: "chain_len s n" using Q by (simp add: outq_def)
  have fit: "?b + unat k \<le> 128" using k(2) u round4_bounds(2) [of u] by linarith
  have k0: "k \<noteq> 0" using k(1) by auto
  have alloc: "drv_qspi_alloc_descriptor hw k QSPI_PIO_MODE_E s = Some (n, appended n (buf_at hw ?b) s)"
    using alloc_started [OF B Q n(2) _ fit k0] u by simp
  have "unlink (q_descriptors s (n - 1)) \<in> set (queue s n)" using n by (auto simp: queue_def)
  then have dir: "qd_direction (q_descriptors s (n - 1)) = QSPI_MASTER_WRITE_E" using Q by (auto simp: outq_def plain_out_def unlink_def)
  let ?s1 = "started_desc n (buf_at hw ?b) QSPI_MASTER_READ_E io' s"
  define s2 where "s2 = upd_desc n (\<lambda>p. p\<lparr>qd_bounce_src := buf_at hw ?b, qd_bounce_dst := a, qd_bounce_length := k, qd_length := ucast k\<rparr>) ?s1"
  obtain x where run: "drv_qspi_set_descriptor hw (Src_mem a) k (ucast io') QSPI_MASTER_READ_E QSPI_PIO_MODE_E s = Some (s2\<lparr>q_free_ptr := x\<rparr>)"
    using k0 a(1) dir n(1)
    by (simp add: drv_qspi_set_descriptor_def get_last_descriptor [OF cl] alloc Let_def started_desc_def s2_def upd_desc_def
        fresh_def zero_descriptor_def source_addr_def del: One_nat_def)
  define p where "p = unlink (q_descriptors s2 n)"
  have q: "queue s2 (Suc n) = queue s n @ [p]" by (simp add: queue_Suc p_def) (simp add: s2_def)
  have p: "qd_direction p = QSPI_MASTER_READ_E" "qd_fragment p" "qd_data_address p = buf_at hw ?b" "qd_multi_io_mode p = io'"
      "unat (qd_length p) = unat k" "qd_bounce_src p = buf_at hw ?b" "qd_bounce_dst p = a" "qd_bounce_length p = k"
    using k(2) by (simp_all add: p_def unlink_def s2_def upd_desc_def unat_narrow_u16) (simp_all add: started_desc_def upd_desc_def fresh_def)
  have mem: "q_mem s2 = q_mem s" "q_dev s2 = q_dev s" by (simp_all add: s2_def upd_desc_def)
  have W: "wq W view s n F" by (rule outq_wq [OF B Q])
  then have fold: "fold (desc_effect W) (queue s n) ?mf = (q_mem s, F)" and none: "\<forall>p\<in>set (queue s n). qd_bounce_length p = 0"
    by (simp_all add: wq_def fold_effect_out)
  have len: "length bs = unat k" using length_ins [of W io' "unat k" F] r by simp
  let ?m1 = "mem_write (q_mem s) (buf_at hw ?b) bs"
  have "bounce p ?m1 = mem_write ?m1 a bs"
  proof -
    have "mem_read ?m1 (buf_at hw ?b) (unat k) = bs" using mem_read_write_same [of bs "q_mem s" "buf_at hw ?b"] len k(2) by simp
    then show ?thesis
      using copy_bytes_apart [OF apart_sym [OF client_buf_apart [OF B a(2) fit]], of ?m1] p by (simp add: bounce_def)
  qed
  then have fl: "flushed W (queue s2 (Suc n)) ?mf = (mem_write ?m1 a bs, F')"
    using r p by (simp add: flushed_def q fold fold_bounce_none [OF none] desc_effect_def release_def)
  have "desc_ok p" "bounce_ok hw a (unat k) p"
    using word_aligned_buf [OF B round4_bounds(3)] k(1) p fit by (auto simp: desc_ok_def bounce_ok_def)
  moreover have "chain_len s2 (Suc n)" using chain_len_started_desc [OF cl n(2)] by (simp add: s2_def)
  moreover have "same_outside hw (mem_write (q_mem s) a bs) (mem_write ?m1 a bs)"
    using same_outside_write [of ?b bs hw "q_mem s"] fit len by (intro same_outside_mem_write) simp
  ultimately have "rq hw W view a (unat k) (s2\<lparr>q_free_ptr := x\<rparr>) (Suc n) (mem_write (q_mem s) a bs) F'"
    using W fl p(2) none by (simp add: rq_def mem q wq_def bounce_ok_def)
  then show ?thesis using run by blast
qed

section \<open>The whole data phase\<close>

text \<open>How many bytes of a buffer at \<open>a\<close> lie before its first word boundary.\<close>

definition prolog :: "addr \<Rightarrow> nat \<Rightarrow> nat" where
  "prolog a n = min (round4 (unat a) - unat a) n"

lemma prolog_bounds: "prolog a n \<le> n" "prolog a n \<le> 3"
  using round4_bounds(2) [of "unat a"] by (auto simp: prolog_def)

lemma prolog_aligned:
  assumes "prolog a n < n" and "unat a + n < 2 ^ 32"
  shows "word_aligned (a + of_nat (prolog a n))"
proof -
  have "prolog a n = round4 (unat a) - unat a" using assms(1) by (auto simp: prolog_def)
  then have "unat a + prolog a n = round4 (unat a)" using round4_bounds(1) [of "unat a"] by simp
  moreover have "unat (a + of_nat (prolog a n)) = unat a + prolog a n" using assms by (intro unat_addr_offset) simp
  ultimately show ?thesis using round4_bounds(3) [of "unat a"] by (simp add: word_aligned_unat)
qed

lemma prolog_nonzero: "0 < prolog a n \<Longrightarrow> a \<noteq> 0"
  by (auto simp: prolog_def round4_def)

lemma queue_data_parts:
  assumes n: "n \<noteq> 0" and lim: "unat a + unat n + 3 < 2 ^ 32"
  defines "k \<equiv> of_nat (prolog a (unat n)) :: u32"
  shows "drv_qspi_queue_data hw a n io wr QSPI_PIO_MODE_E s =
    do {
      s \<leftarrow> (if k \<noteq> 0 then drv_qspi_set_descriptor hw (Src_mem a) k io (dir_of wr) QSPI_PIO_MODE_E s else Some s);
      if n - k \<noteq> 0 then drv_qspi_queue_data_direct hw (a + k) (n - k) io wr QSPI_PIO_MODE_E s else Some s
    }"
    and "unat k = prolog a (unat n)" "unat (n - k) = unat n - prolog a (unat n)"
proof -
  let ?al = "align_up 4 a"
  have le: "prolog a (unat n) \<le> unat n" by (rule prolog_bounds)
  show uk: "unat k = prolog a (unat n)" using prolog_bounds(2) [of a "unat n"] by (simp add: k_def unat_of_nat)
  show "unat (n - k) = unat n - prolog a (unat n)" using uk le by (simp add: unat_sub word_le_nat_alt)
  have ual: "unat ?al = round4 (unat a)" using lim by (intro unat_align_up) simp
  have diff: "unat (?al - a) = round4 (unat a) - unat a"
    using ual round4_bounds(1) [of "unat a"] by (simp add: unat_sub word_le_nat_alt)
  have pk: "(if ?al - a > n then n else ?al - a) = k"
    unfolding word_unat_eq_iff uk using diff by (auto simp: prolog_def word_less_nat_alt)
  have next_a: "?al = a + k" if "n - k \<noteq> 0"
  proof -
    have "k \<noteq> n" using that by auto
    then have "k = ?al - a" using pk by (auto split: if_splits)
    then show ?thesis by simp
  qed
  show "drv_qspi_queue_data hw a n io wr QSPI_PIO_MODE_E s =
    do {
      s \<leftarrow> (if k \<noteq> 0 then drv_qspi_set_descriptor hw (Src_mem a) k io (dir_of wr) QSPI_PIO_MODE_E s else Some s);
      if n - k \<noteq> 0 then drv_qspi_queue_data_direct hw (a + k) (n - k) io wr QSPI_PIO_MODE_E s else Some s
    }"
  proof -
    have al: "alignment_of QSPI_PIO_MODE_E = 4" by (simp add: alignment_of_def)
    have ep: "(if QSPI_PIO_MODE_E \<noteq> QSPI_PIO_MODE_E \<and> \<not> wr then (n - k) AND 3 else 0) = 0" by simp
    show ?thesis
      unfolding drv_qspi_queue_data_def Let_def al pk ep using n next_a
      by (cases "n - k = 0") (simp_all add: next_a del: right_minus_eq)
  qed
qed

lemma same_outside_client:
  assumes B: "buf_ok hw" and "same_outside hw m m'" and cl: "client hw a n"
  shows "mem_read m' a n = mem_read m a n"
proof (rule nth_equalityI)
  fix i assume "i < length (mem_read m' a n)"
  then have i: "i < n" by simp
  have "\<not> in_buf hw (a + of_nat i)"
    using apart_offset_neq [OF cl [unfolded client_def] i] by (auto simp: in_buf_def buf_at_def)
  then show "mem_read m' a n ! i = mem_read m a n ! i" using assms(2) i by (simp add: same_outside_def)
qed simp

lemma queue_data_out:
  assumes C: "pio_controller hw W view lag" and B: "buf_ok hw" and Q: "outq hw W view s n u io F"
    and n: "0 < n" "n < QSPI_NUM_DESCRIPTORS" and u: "u \<le> 100"
    and len: "len = 0 \<or> unat a + unat len + 3 < 2 ^ 32 \<and> client hw a (unat len)"
  shows "\<exists>s' n'. drv_qspi_queue_data hw a len (ucast (io' :: 3 word)) True QSPI_PIO_MODE_E s = Some s' \<and> 0 < n'
    \<and> wq W view s' n' (outs W io' (mem_read (q_mem s) a (unat len)) F) \<and> same_outside hw (q_mem s) (q_mem s')"
proof (cases "len = 0")
  case True
  then show ?thesis using outq_wq [OF B Q] n by (auto simp: drv_qspi_queue_data_def)
next
  case False
  then have lim: "unat a + unat len + 3 < 2 ^ 32" and cl: "client hw a (unat len)" using len by auto
  define k where "k = (of_nat (prolog a (unat len)) :: u32)"
  note parts = queue_data_parts [OF False lim, folded k_def]
  have kle: "unat k \<le> unat len" "unat k \<le> 3" unfolding parts(2) by (rule prolog_bounds)+
  have clk: "client hw a (unat k)" using cl kle(1) by (auto simp: client_def apart_def)
  let ?b1 = "mem_read (q_mem s) a (unat k)"
  obtain s1 n1 where s1: "(if k \<noteq> 0 then drv_qspi_set_descriptor hw (Src_mem a) k (ucast io') QSPI_MASTER_WRITE_E QSPI_PIO_MODE_E s else Some s) = Some s1"
      "wq W view s1 n1 (outs W io' ?b1 F)" "0 < n1" "same_outside hw (q_mem s) (q_mem s1)"
  proof (cases "k = 0")
    case True
    with that [of s n] outq_wq [OF B Q] n show ?thesis by simp
  next
    case False
    then have pos: "0 < unat k" by (simp add: unat_gt_0)
    then have a0: "a \<noteq> 0" unfolding parts(2) by (rule prolog_nonzero)
    have ne: "?b1 \<noteq> []" using pos by (simp add: mem_read_def)
    have fit: "round4 u + length ?b1 \<le> 128" "u \<le> 125" using u kle(2) round4_bounds(2) [of u] by simp_all
    obtain s' n' v where s': "drv_qspi_set_descriptor hw (Src_mem a) (of_nat (length ?b1)) (ucast io') QSPI_MASTER_WRITE_E QSPI_PIO_MODE_E s = Some s'"
        "outq hw W view s' n' v io' (outs W io' ?b1 F)" "0 < n'" "same_outside hw (q_mem s) (q_mem s')"
      using set_descriptor_out [OF B Q n(2) fit(2) ne fit(1) provides_client [OF B clk a0]] by blast
    with that [of s' n'] outq_wq [OF B s'(2)] False show ?thesis by simp
  qed
  have rd: "mem_read (q_mem s) a (unat len) = ?b1 @ mem_read (q_mem s) (a + k) (unat (len - k))"
  proof -
    have "unat len = unat k + unat (len - k)" using kle(1) parts(2,3) by simp
    moreover have "mem_read (q_mem s) a (unat k + unat (len - k)) = ?b1 @ mem_read (q_mem s) (a + k) (unat (len - k))"
      using mem_read_add [of "q_mem s" a "unat k" "unat (len - k)"] by simp
    ultimately show ?thesis by (simp only:)
  qed
  show ?thesis
  proof (cases "len - k = 0")
    case True
    then have "drv_qspi_queue_data hw a len (ucast io') True QSPI_PIO_MODE_E s = Some s1"
      unfolding parts(1) using s1(1) by (auto simp: dir_of_def split: if_splits)
    moreover have "mem_read (q_mem s) a (unat len) = ?b1" unfolding rd using True by simp
    ultimately show ?thesis using s1(2-4) by auto
  next
    case False
    then have pos: "0 < unat (len - k)" by (simp add: unat_gt_0)
    have al: "word_aligned (a + k)"
      using prolog_aligned [of a "unat len"] pos lim unfolding parts(3) by (simp add: k_def)
    have sum: "unat k + unat (len - k) \<le> unat len" using kle(1) unfolding parts(2,3) by simp
    have "client hw (a + k) (unat (len - k))" using client_sub(1) [OF cl sum pos] by simp
    then have keep: "mem_read (q_mem s1) (a + k) (unat (len - k)) = mem_read (q_mem s) (a + k) (unat (len - k))"
      by (rule same_outside_client [OF B s1(4)])
    obtain s2 n2 where s2: "drv_qspi_queue_data_direct hw (a + k) (len - k) (ucast io') True QSPI_PIO_MODE_E s1 = Some s2"
        "wq W view s2 n2 (outs W io' (mem_read (q_mem s1) (a + k) (unat (len - k))) (outs W io' ?b1 F))" "q_mem s2 = q_mem s1" "0 < n2"
      using queue_data_direct_out [OF C s1(2) al, of "len - k" io'] s1(3) by blast
    have dir: "dir_of True = QSPI_MASTER_WRITE_E" by (simp add: dir_of_def)
    have run: "drv_qspi_queue_data hw a len (ucast io') True QSPI_PIO_MODE_E s = Some s2"
      unfolding parts(1) dir s1(1) using False s2(1) by simp
    have chip: "outs W io' (mem_read (q_mem s) a (unat len)) F =
        outs W io' (mem_read (q_mem s1) (a + k) (unat (len - k))) (outs W io' ?b1 F)"
      unfolding rd keep by (rule outs_append)
    have same: "same_outside hw (q_mem s) (q_mem s2)" unfolding s2(3) by (rule s1(4))
    show ?thesis unfolding chip using run s2(2,4) same by blast
  qed
qed

lemma queue_data_in:
  assumes C: "pio_controller hw W view lag" and B: "buf_ok hw" and Q: "outq hw W view s n u io F"
    and n: "0 < n" "n < QSPI_NUM_DESCRIPTORS" and u: "u \<le> 100"
    and len: "unat a + unat len + 3 < 2 ^ 32" "client hw a (unat len)" "len \<noteq> 0" and r: "ins W io' (unat len) F = (bs, F')"
  shows "\<exists>s' n' k. drv_qspi_queue_data hw a len (ucast (io' :: 3 word)) False QSPI_PIO_MODE_E s = Some s' \<and> 0 < n'
    \<and> rq hw W view a k s' n' (mem_write (q_mem s) a bs) F'"
proof -
  define k where "k = (of_nat (prolog a (unat len)) :: u32)"
  note parts = queue_data_parts [OF len(3,1), folded k_def]
  have kle: "unat k \<le> unat len" "unat k \<le> 3" unfolding parts(2) by (rule prolog_bounds)+
  have clk: "client hw a (unat k)" using len(2) kle(1) by (auto simp: client_def apart_def)
  obtain b1 F1 where r1: "ins W io' (unat k) F = (b1, F1)" by fastforce
  then have b1: "length b1 = unat k" using length_ins [of W io' "unat k" F] by simp
  obtain b2 where r2: "ins W io' (unat (len - k)) F1 = (b2, F')" "bs = b1 @ b2"
    using r ins_add [of W io' "unat k" "unat (len - k)" F] parts(2,3) kle(1) r1
    by (cases "ins W io' (unat (len - k)) F1") auto
  obtain s1 n1 where s1: "(if k \<noteq> 0 then drv_qspi_set_descriptor hw (Src_mem a) k (ucast io') QSPI_MASTER_READ_E QSPI_PIO_MODE_E s else Some s) = Some s1"
      "rq hw W view a (unat k) s1 n1 (mem_write (q_mem s) a b1) F1" "0 < n1"
  proof (cases "k = 0")
    case True
    with that [of s n] wq_rq [OF outq_wq [OF B Q], of hw a 0] n r1 show ?thesis by simp
  next
    case False
    then have pos: "0 < unat k" by (simp add: unat_gt_0)
    then have a0: "a \<noteq> 0" unfolding parts(2) by (rule prolog_nonzero)
    obtain s' where "drv_qspi_set_descriptor hw (Src_mem a) k (ucast io') QSPI_MASTER_READ_E QSPI_PIO_MODE_E s = Some s'"
        "rq hw W view a (unat k) s' (Suc n) (mem_write (q_mem s) a b1) F1"
      using set_descriptor_in [OF B Q n u pos _ a0 clk r1] kle(2) by auto
    with that [of s' "Suc n"] False show ?thesis by simp
  qed
  have mw: "mem_write (q_mem s) a bs = mem_write (mem_write (q_mem s) a b1) (a + k) b2"
    unfolding r2(2) mem_write_append b1 by simp
  show ?thesis
  proof (cases "len - k = 0")
    case True
    then have "b2 = []" "F1 = F'" using r2(1) by simp_all
    moreover have "drv_qspi_queue_data hw a len (ucast io') False QSPI_PIO_MODE_E s = Some s1"
      unfolding parts(1) using s1(1) True by (auto simp: dir_of_def split: if_splits)
    ultimately show ?thesis using s1(2,3) unfolding mw by auto
  next
    case False
    then have pos: "0 < unat (len - k)" by (simp add: unat_gt_0)
    have al: "word_aligned (a + k)"
      using prolog_aligned [of a "unat len"] pos len(1) unfolding parts(3) by (simp add: k_def)
    have sum: "unat k + unat (len - k) \<le> unat len" using kle(1) unfolding parts(2,3) by simp
    have sub: "client hw (a + k) (unat (len - k))" "unat (a + k) = unat a + unat k"
      using client_sub [OF len(2) sum pos] by simp_all
    have ap: "apart a (unat k) (a + k) (unat (len - k))"
      using sub(2) len(1) parts(2,3) kle(1) by (auto simp: apart_def)
    obtain s2 n2 where s2: "drv_qspi_queue_data_direct hw (a + k) (len - k) (ucast io') False QSPI_PIO_MODE_E s1 = Some s2"
        "rq hw W view a (unat k) s2 n2 (mem_write (mem_write (q_mem s) a b1) (a + k) b2) F'" "0 < n2"
      using queue_data_direct_in [OF C B clk s1(2) al sub(1) ap r2(1)] s1(3) by blast
    have dir: "dir_of False = QSPI_MASTER_READ_E" by (simp add: dir_of_def)
    have run: "drv_qspi_queue_data hw a len (ucast io') False QSPI_PIO_MODE_E s = Some s2"
      unfolding parts(1) dir s1(1) using False s2(1) by simp
    show ?thesis unfolding mw using run s2(2,3) by blast
  qed
qed

end
