(* ===== verification/Qspi_Stuck.thy ===== *)
theory Qspi_Stuck
  imports Qspi_Data
begin

text \<open>
  The QSPI driver in front of a controller whose receiver is dead: it takes what is written and
  never delivers a byte. Every transfer of the driver still ends, with the memory as it was, and
  so does the queueing of a read of any length, with its flushes on the way.
\<close>

section \<open>The transfers\<close>

text \<open>The read FIFO never holds a byte; the write FIFO always has room for a word.\<close>

definition rx_dead :: "'d qspi_hw \<Rightarrow> bool" where
  "rx_dead hw \<longleftrightarrow> (\<forall>d. fst (hal_qspi_get_pio_rd_fifo_wrcnts hw d) = 0)
     \<and> (\<forall>d. 4 \<le> unat (fst (hal_qspi_get_pio_transfer_wr_fifo_bytes hw d)))"

lemma rx_poll_stuck:
  assumes "\<forall>d. fst (hal_qspi_get_pio_rd_fifo_wrcnts hw d) = 0" and "num \<noteq> 0" and "retry \<le> MAX_READ_WAIT"
  shows "\<exists>d'. rx_poll hw ptr num retry m d = Some (num, MAX_READ_WAIT + 1, m, d')"
  using assms(3)
proof (induction "MAX_READ_WAIT - retry" arbitrary: retry d)
  case 0
  then show ?case using assms(2) by (simp add: rx_poll.simps [of hw ptr num])
next
  case (Suc k)
  obtain d1 where get: "hal_qspi_get_pio_rd_fifo_wrcnts hw d = (0, d1)" using assms(1) by (metis prod.collapse)
  have "drv_qspi_service_rxfifo hw ptr num m d = Some (0, m, d1)"
    using assms(2) by (cases "drop_bit 2 num = 0") (simp_all add: drv_qspi_service_rxfifo_def get Let_def word_neq_0_conv)
  moreover have "retry < MAX_READ_WAIT" using Suc.hyps(2) by simp
  ultimately have "rx_poll hw ptr num retry m d = rx_poll hw ptr num (retry + 1) m d1"
    using assms(2) by (simp add: rx_poll.simps [of hw ptr num retry])
  moreover have "k = MAX_READ_WAIT - (retry + 1)" "retry + 1 \<le> MAX_READ_WAIT" using Suc.hyps(2) by simp_all
  from Suc.hyps(1) [OF this] have "\<exists>d'. rx_poll hw ptr num (retry + 1) m d1 = Some (num, MAX_READ_WAIT + 1, m, d')" .
  ultimately show ?case by simp
qed

lemma pio_read_stuck:
  assumes "\<forall>d. fst (hal_qspi_get_pio_rd_fifo_wrcnts hw d) = 0" and "num \<noteq> 0"
  shows "\<exists>d'. drv_qspi_pio_read hw ptr num wr io fr m d = Some (False, m, d')"
proof -
  let ?d = "hal_qspi_set_pio_transfer_control_request_count hw (ucast num) (hal_qspi_set_pio_config hw wr io fr d)"
  obtain d' where "rx_poll hw ptr num 0 m ?d = Some (num, MAX_READ_WAIT + 1, m, d')"
    using rx_poll_stuck [OF assms, of 0 ptr m ?d] by auto
  then show ?thesis by (auto simp: drv_qspi_pio_read_def)
qed

lemma tx_words_return: "word_aligned ptr \<Longrightarrow> \<exists>d'. tx_words hw n ptr m d = Some d'"
proof (induction n arbitrary: ptr d)
  case (Suc n)
  have "word_aligned (ptr + 4)" using word_aligned_add [OF Suc.prems, of 4] by simp
  from Suc.IH [OF this] Suc.prems show ?case by simp
qed simp

lemma service_txfifo_room:
  assumes "rx_dead hw" and al: "word_aligned ptr" and "num \<noteq> 0"
  shows "\<exists>k d'. drv_qspi_service_txfifo hw ptr num m d = Some (of_nat k, d') \<and> 0 < k \<and> k \<le> unat num
    \<and> (k < unat num \<longrightarrow> 4 dvd k)"
proof -
  obtain room d1 where get: "hal_qspi_get_pio_transfer_wr_fifo_bytes hw d = (room, d1)" by fastforce
  have room: "4 \<le> unat room" using assms(1) get unfolding rx_dead_def by (metis fst_conv)
  define w where "w = (if drop_bit 2 num > drop_bit 2 room then drop_bit 2 room else drop_bit 2 num)"
  define b where "b = (if num > room then 0 else num AND 3)"
  let ?k = "fifo_chunk (unat room) (unat num)"
  note wb = fifo_words [of room num, folded w_def b_def]
  obtain d2 where d2: "tx_words hw (unat w) ptr m d1 = Some d2" using tx_words_return [OF al, of hw "unat w" m d1] by blast
  have run: "drv_qspi_service_txfifo hw ptr num m d = Some (of_nat ?k, tx_bytes hw (unat b) (ptr + w * 4) m d2)"
    unfolding drv_qspi_service_txfifo_def Let_def get prod.case w_def [symmetric] b_def [symmetric] d2 wb(4) by simp
  have "0 < ?k" using fifo_chunk_0 [of "unat room" "unat num"] room \<open>num \<noteq> 0\<close> by (cases "?k = 0") (auto simp: unat_gt_0)
  then show ?thesis using run fifo_chunk_le(1) fifo_chunk_dvd by blast
qed

lemma tx_poll_returns:
  assumes dead: "rx_dead hw"
  shows "word_aligned ptr \<Longrightarrow> \<exists>d'. tx_poll hw ptr num m d = Some d'"
proof (induction "unat num" arbitrary: ptr num d rule: less_induct)
  case less
  show ?case
  proof (cases "num = 0")
    case True
    then show ?thesis by (simp add: tx_poll.simps)
  next
    case False
    obtain k d1 where s: "drv_qspi_service_txfifo hw ptr num m d = Some (of_nat k, d1)" "0 < k" "k \<le> unat num"
        "k < unat num \<longrightarrow> 4 dvd k"
      using service_txfifo_room [OF dead less.prems False] by blast
    have step: "tx_poll hw ptr num m d = tx_poll hw (ptr + of_nat k) (num - of_nat k) m d1"
      using False by (simp add: tx_poll.simps [of hw ptr num] s(1))
    show ?thesis
    proof (cases "k = unat num")
      case True
      then show ?thesis unfolding step by (simp add: tx_poll.simps)
    next
      case False
      then have "word_aligned (ptr + of_nat k)" using s(3,4) by (intro word_aligned_add [OF less.prems]) simp
      moreover have "unat (num - of_nat k) < unat num" using left_after [OF s(3)] s(2,3) by simp
      ultimately show ?thesis unfolding step by (intro less.hyps)
    qed
  qed
qed

lemma run_descriptor_stuck:
  assumes "rx_dead hw" and p: "desc_ok p"
  shows "\<exists>d'. run_descriptor hw p m d = Some (m, d')"
proof -
  have al: "word_aligned (qd_data_address p)" and n: "(ucast (qd_length p) :: u32) \<noteq> 0"
    using p by (auto simp: desc_ok_def unat_eq_zero [symmetric] simp del: unat_eq_zero)
  show ?thesis
  proof (cases "qd_direction p = QSPI_MASTER_WRITE_E")
    case True
    have "\<exists>d'. drv_qspi_pio_write hw (qd_data_address p) (ucast (qd_length p)) 1 io fr m d = Some d'" for io fr
      using tx_poll_returns [OF assms(1) al] by (fastforce simp: drv_qspi_pio_write_def Let_def)
    with True show ?thesis by (fastforce simp: run_descriptor_def)
  next
    case False
    have rd: "\<forall>d. fst (hal_qspi_get_pio_rd_fifo_wrcnts hw d) = 0" using assms(1) by (simp add: rx_dead_def)
    show ?thesis using False pio_read_stuck [OF rd n] by (fastforce simp: run_descriptor_def)
  qed
qed

section \<open>The chain\<close>

text \<open>Queued descriptors that can be run and that copy nothing afterwards.\<close>

definition dq :: "'d qspi \<Rightarrow> nat \<Rightarrow> bool" where
  "dq s n \<longleftrightarrow> chain_len s n \<and> (\<forall>p\<in>set (queue s n). desc_ok p \<and> qd_bounce_length p = 0)"

lemma transfer_chain_stuck:
  assumes dead: "rx_dead hw" and l: "linked descs n" and ok: "\<forall>i<n. desc_ok (descs i)"
  shows "i \<le> n \<Longrightarrow> \<exists>d'. drv_qspi_pio_transfer_chain hw descs (if i < n then Some i else None) m d = Some (m, d')"
proof (induction "n - i" arbitrary: i d)
  case 0
  then show ?case by (simp add: drv_qspi_pio_transfer_chain.simps [of hw descs None])
next
  case (Suc k)
  then have i: "i < n" by simp
  obtain d1 where d1: "run_descriptor hw (descs i) m d = Some (m, d1)"
    using run_descriptor_stuck [OF dead] ok i by blast
  have nx: "qd_next_descriptor (descs i) = (if Suc i < n then Some (Suc i) else None)"
    using l i by (simp add: linked_def)
  have "k = n - Suc i" "Suc i \<le> n" using Suc.hyps(2) i by simp_all
  from Suc.hyps(1) [OF this, of d1] show ?case
    using i by (simp add: drv_qspi_pio_transfer_chain.simps [of hw descs "Some i"] d1 nx)
qed

lemma flush_stuck:
  assumes dead: "rx_dead hw" and Q: "dq s n"
  shows "\<exists>s'. drv_qspi_flush_chain hw QSPI_PIO_MODE_E s = Some s' \<and> dq s' 0 \<and> q_free_ptr s' = qh_buf hw \<and> q_mem s' = q_mem s"
proof -
  have l: "linked (q_descriptors s) n" and head: "q_transfer_chain s = (if 0 < n then Some 0 else None)"
    using Q by (auto simp: dq_def chain_len_def)
  have ok: "\<forall>i<n. desc_ok (q_descriptors s i)" using Q by (simp add: dq_def queue_def)
  obtain d where d: "drv_qspi_pio_transfer_chain hw (q_descriptors s) (q_transfer_chain s) (q_mem s) (q_dev s) = Some (q_mem s, d)"
    using transfer_chain_stuck [OF dead l ok, of 0 "q_mem s" "q_dev s"] unfolding head by auto
  have "fold bounce (queue s n) (q_mem s) = q_mem s" using Q by (intro fold_bounce_none) (simp add: dq_def)
  then have b: "bounce_chain (q_descriptors s) (q_transfer_chain s) (q_mem s) = Some (q_mem s)"
    using bounce_chain_effect [OF l, of 0 "q_mem s"] unfolding head fold_queue by simp
  show ?thesis by (simp add: drv_qspi_flush_chain_def d b dq_def chain_len_def linked_def)
qed

lemma dq_direct_desc:
  assumes "dq s n" and "n < QSPI_NUM_DESCRIPTORS" and "word_aligned a" and "0 < unat c" "unat c < 2 ^ 16"
  shows "dq (direct_desc n a c io wr s) (Suc n)"
  using assms chain_len_direct_desc [of s n a c io wr]
  by (simp add: dq_def queue_Suc desc_ok_def unlink_def fresh_def zero_descriptor_def unat_narrow_u16)

lemma dq_chunk:
  assumes dead: "rx_dead hw" and Q: "dq s n" and a: "word_aligned a" and c: "0 < unat c" "unat c < 2 ^ 16"
  shows "\<exists>i s1. drv_qspi_alloc_descriptor hw 0 QSPI_PIO_MODE_E s = Some (i, appended i 0 s1)
    \<and> dq (direct_desc i a c io wr s1) (Suc i) \<and> q_mem s1 = q_mem s"
proof (cases "n < QSPI_NUM_DESCRIPTORS")
  case True
  have "chain_len s n" using Q by (simp add: dq_def)
  from alloc_direct [OF this True] dq_direct_desc [OF Q True a c] show ?thesis by blast
next
  case False
  then have "chain_len s QSPI_NUM_DESCRIPTORS" using Q by (auto simp: dq_def chain_len_def)
  moreover obtain s1 where s1: "drv_qspi_flush_chain hw QSPI_PIO_MODE_E s = Some s1" "dq s1 0" "q_mem s1 = q_mem s"
    using flush_stuck [OF dead Q] by blast
  ultimately have "drv_qspi_alloc_descriptor hw 0 QSPI_PIO_MODE_E s = Some (0, appended 0 0 s1)" by (blast intro: alloc_direct_flush)
  moreover have "dq (direct_desc 0 a c io wr s1) (Suc 0)"
    by (rule dq_direct_desc [OF s1(2) _ a c]) (simp add: QSPI_NUM_DESCRIPTORS_def)
  ultimately show ?thesis using s1(3) by auto
qed

lemma queue_data_direct_stuck:
  assumes dead: "rx_dead hw"
  shows "dq s n \<Longrightarrow> word_aligned a \<Longrightarrow>
    \<exists>s' n'. drv_qspi_queue_data_direct hw a len (ucast (io :: 3 word)) wr QSPI_PIO_MODE_E s = Some s'
      \<and> dq s' n' \<and> q_mem s' = q_mem s \<and> (0 < n \<or> len \<noteq> 0 \<longrightarrow> 0 < n')"
proof (induction "unat len" arbitrary: s n a len rule: less_induct)
  case less
  show ?case
  proof (cases "len = 0")
    case True
    then show ?thesis using less.prems(1) by (auto simp: drv_qspi_queue_data_direct.simps)
  next
    case False
    define c where "c = (if len > 0xFFE0 then 0xFFE0 else len)"
    note c = chunk_size [OF False, folded c_def]
    obtain i s1 where s1: "drv_qspi_alloc_descriptor hw 0 QSPI_PIO_MODE_E s = Some (i, appended i 0 s1)"
        "dq (direct_desc i a c io wr s1) (Suc i)" "q_mem s1 = q_mem s"
      using dq_chunk [OF dead less.prems c(1,2)] by blast
    have step: "drv_qspi_queue_data_direct hw a len (ucast io) wr QSPI_PIO_MODE_E s =
        drv_qspi_queue_data_direct hw (a + c) (len - c) (ucast io) wr QSPI_PIO_MODE_E (direct_desc i a c io wr s1)"
      using False by (simp add: drv_qspi_queue_data_direct.simps [of hw a len] s1(1) Let_def c_def [symmetric] direct_desc_def)
    show ?thesis
    proof (cases "len = c")
      case True
      then have "drv_qspi_queue_data_direct hw a len (ucast io) wr QSPI_PIO_MODE_E s = Some (direct_desc i a c io wr s1)"
        unfolding step by (simp add: drv_qspi_queue_data_direct.simps)
      then show ?thesis using s1(2,3) by auto
    next
      case False
      then have al: "word_aligned (a + c)" using word_aligned_add [OF less.prems(2), of "unat c"] c(5) by simp
      have "unat (len - c) < unat len" using c(1,3,4) by (simp add: word_le_nat_alt)
      from less.hyps [OF this s1(2) al] show ?thesis unfolding step using s1(3) by auto
    qed
  qed
qed

text \<open>A client buffer that starts at a word boundary needs no bytes through the transfer buffer.\<close>

lemma queue_data_aligned_stuck:
  assumes dead: "rx_dead hw" and Q: "dq s n" and al: "word_aligned a" and len: "len \<noteq> 0" "unat a + unat len + 3 < 2 ^ 32"
  shows "\<exists>s' n'. drv_qspi_queue_data hw a len (ucast (io :: 3 word)) wr QSPI_PIO_MODE_E s = Some s'
    \<and> dq s' n' \<and> q_mem s' = q_mem s \<and> 0 < n'"
proof -
  have "prolog a (unat len) = 0"
    using al by (auto simp: prolog_def round4_def word_aligned_unat)
  then have "drv_qspi_queue_data hw a len (ucast io) wr QSPI_PIO_MODE_E s
      = drv_qspi_queue_data_direct hw a len (ucast io) wr QSPI_PIO_MODE_E s"
    using queue_data_parts(1) [OF len, where io = "ucast io" and wr = wr and s = s and hw = hw] len(1) by simp
  then show ?thesis using queue_data_direct_stuck [OF dead Q al, of len io wr] len(1) by auto
qed

end
