(* ===== verification/Qspi_Props.thy ===== *)
theory Qspi_Props
  imports Qspi_Stuck
begin

text \<open>
  The properties of the QSPI driver. A command that is run in PIO mode from an idle driver puts
  exactly its opcode, address, dummy bytes and data on the wire, reads exactly the bytes that
  come in, releases the chip and leaves the driver idle again; so the driver is the bus that the
  flash driver is written against.
\<close>

section \<open>What a command means on the wire\<close>

definition io_of :: "u8 \<Rightarrow> 3 word" where
  "io_of m = ucast m"

definition head_mode :: "qspi_cmd \<Rightarrow> u8" where
  "head_mode cmd = (if qc_addr_bytes cmd = 0 then qc_cmd_mode cmd else qc_addr_mode cmd)"

definition cmd_head :: "'f wire \<Rightarrow> qspi_cmd \<Rightarrow> u32 \<Rightarrow> 'f \<Rightarrow> 'f" where
  "cmd_head W cmd address f =
     (let f = outs W (io_of (qc_cmd_mode cmd)) [qc_opcode cmd] f;
          f = outs W (io_of (qc_addr_mode cmd)) (write_addr address (unat (qc_addr_bytes cmd))) f;
          (io, k) = dummy_phase (io_of (head_mode cmd)) (qc_dummy_clocks cmd)
      in outs W io (replicate k 0xFF) f)"

definition data_effect :: "'f wire \<Rightarrow> 3 word \<Rightarrow> xfer \<Rightarrow> 'f \<Rightarrow> bytes \<times> 'f" where
  "data_effect W io x f =
     (case x of Xfer_none \<Rightarrow> ([], f) | Xfer_out bs \<Rightarrow> ([], outs W io bs f) | Xfer_in n \<Rightarrow> ins W io n f)"

definition wire_transact :: "'f wire \<Rightarrow> qspi_cmd \<Rightarrow> u32 \<Rightarrow> xfer \<Rightarrow> 'f \<Rightarrow> bytes \<times> 'f" where
  "wire_transact W cmd address x f =
     (case data_effect W (io_of (qc_data_mode cmd)) x (cmd_head W cmd address f) of (bs, f) \<Rightarrow> (bs, w_end W f))"

definition xfer_of :: "qspi_cmd \<Rightarrow> addr \<Rightarrow> u32 \<Rightarrow> memory \<Rightarrow> xfer" where
  "xfer_of cmd data n m =
     (if n = 0 then Xfer_none else if qc_write cmd then Xfer_out (mem_read m data (unat n)) else Xfer_in (unat n))"

text \<open>Commands the driver can express: defined modes, and dummy clocks that amount to a byte.\<close>

definition cmd_ok :: "qspi_cmd \<Rightarrow> bool" where
  "cmd_ok cmd \<longleftrightarrow> qc_addr_bytes cmd \<le> 4 \<and> qc_dummy_clocks cmd \<le> 16
     \<and> clocks_per_bytes (qc_cmd_mode cmd) \<noteq> None \<and> clocks_per_bytes (qc_addr_mode cmd) \<noteq> None
     \<and> clocks_per_bytes (qc_data_mode cmd) \<noteq> None
     \<and> (qc_dummy_clocks cmd = 0 \<or> 0 < snd (dummy_phase (io_of (head_mode cmd)) (qc_dummy_clocks cmd)))"

definition qspi_idle :: "'d qspi_hw \<Rightarrow> ('d \<Rightarrow> 'f pio_view) \<Rightarrow> 'd qspi \<Rightarrow> bool" where
  "qspi_idle hw view s \<longleftrightarrow> q_transfer_chain s = None \<and> q_free_ptr s = qh_buf hw \<and> pio_idle (view (q_dev s))"

section \<open>Running a command\<close>

lemma io_of_mode: "clocks_per_bytes m \<noteq> None \<Longrightarrow> ucast (io_of m) = m"
  by (auto simp: clocks_per_bytes_def io_of_def qspi_mode_defs split: if_splits)

lemma qspi_idle_outq:
  "qspi_idle hw view s \<Longrightarrow> outq hw W view s 0 0 io (pv_chip (view (q_dev s)))"
  by (simp add: qspi_idle_def outq_def chain_len_def linked_def buf_at_def)

lemma queue_head:
  assumes B: "buf_ok hw" and idle: "qspi_idle hw view s" and ok: "cmd_ok cmd"
  shows "\<exists>s1 s2 s3 n u io. drv_qspi_queue_opcode hw (qc_opcode cmd) (qc_cmd_mode cmd) QSPI_PIO_MODE_E s = Some s1
    \<and> drv_qspi_queue_addr hw address (qc_addr_bytes cmd) (qc_addr_mode cmd) QSPI_PIO_MODE_E s1 = Some s2
    \<and> drv_qspi_queue_dummy hw (qc_dummy_clocks cmd) QSPI_PIO_MODE_E s2 = Some s3
    \<and> outq hw W view s3 n u io (cmd_head W cmd address (pv_chip (view (q_dev s)))) \<and> 0 < n \<and> n < QSPI_NUM_DESCRIPTORS \<and> u \<le> 100
    \<and> same_outside hw (q_mem s) (q_mem s3) \<and> q_dev s3 = q_dev s"
proof -
  let ?f = "pv_chip (view (q_dev s))" and ?c = "io_of (qc_cmd_mode cmd)" and ?a = "io_of (qc_addr_mode cmd)"
  have modes: "ucast ?c = qc_cmd_mode cmd" "ucast ?a = qc_addr_mode cmd" using ok by (auto simp: cmd_ok_def io_of_mode)
  obtain s1 n1 u1 where s1: "drv_qspi_queue_opcode hw (qc_opcode cmd) (qc_cmd_mode cmd) QSPI_PIO_MODE_E s = Some s1"
      "outq hw W view s1 n1 u1 ?c (outs W ?c [qc_opcode cmd] ?f)" "0 < n1" "n1 \<le> 1" "u1 \<le> 4"
      "same_outside hw (q_mem s) (q_mem s1)" "q_dev s1 = q_dev s"
    using queue_opcode_out [OF B qspi_idle_outq [OF idle, of W ?c], of "qc_opcode cmd" ?c] by (auto simp: modes QSPI_NUM_DESCRIPTORS_def)
  have ab: "unat (qc_addr_bytes cmd) \<le> 4" using ok by (simp add: cmd_ok_def word_le_nat_alt)
  let ?h = "if qc_addr_bytes cmd = 0 then ?c else ?a"
  let ?f2 = "outs W ?a (write_addr address (unat (qc_addr_bytes cmd))) (outs W ?c [qc_opcode cmd] ?f)"
  obtain s2 n2 u2 where s2: "drv_qspi_queue_addr hw address (qc_addr_bytes cmd) (qc_addr_mode cmd) QSPI_PIO_MODE_E s1 = Some s2"
      "outq hw W view s2 n2 u2 ?h ?f2" "0 < n2" "n2 \<le> Suc n1" "u2 \<le> u1 + 7"
      "same_outside hw (q_mem s1) (q_mem s2)" "q_dev s2 = q_dev s1"
    using queue_addr_out [OF B s1(2,3) _ _ ab, of address ?a] s1(4,5) by (auto simp: modes QSPI_NUM_DESCRIPTORS_def)
  have h: "?h = io_of (head_mode cmd)" by (simp add: head_mode_def)
  have "clocks_per_bytes (head_mode cmd) \<noteq> None" using ok by (simp add: cmd_ok_def head_mode_def)
  then obtain c where c: "clocks_per_bytes (ucast ?h) = Some c" unfolding h using io_of_mode [of "head_mode cmd"] by auto
  obtain io' k where ph: "dummy_phase ?h (qc_dummy_clocks cmd) = (io', k)" by fastforce
  have dk: "qc_dummy_clocks cmd = 0 \<or> 0 < k" and clk: "unat (qc_dummy_clocks cmd) \<le> 16"
    using ok ph unfolding h by (auto simp: cmd_ok_def word_le_nat_alt)
  obtain s3 n3 u3 io where s3: "drv_qspi_queue_dummy hw (qc_dummy_clocks cmd) QSPI_PIO_MODE_E s2 = Some s3"
      "outq hw W view s3 n3 u3 io (outs W io' (replicate k 0xFF) ?f2)" "0 < n3" "n3 \<le> Suc n2" "u3 \<le> u2 + 19"
      "same_outside hw (q_mem s2) (q_mem s3)" "q_dev s3 = q_dev s2"
    using queue_dummy_out [OF B s2(2,3) _ _ c clk ph dk] s1(4,5) s2(4,5) by (auto simp: QSPI_NUM_DESCRIPTORS_def)
  have "cmd_head W cmd address ?f = outs W io' (replicate k 0xFF) ?f2"
    using ph unfolding h by (simp add: cmd_head_def)
  moreover have "n3 < QSPI_NUM_DESCRIPTORS" "u3 \<le> 100"
    using s1(4,5) s2(4,5) s3(4,5) by (simp_all add: QSPI_NUM_DESCRIPTORS_def)
  moreover have "same_outside hw (q_mem s) (q_mem s3)"
    using s1(6) s2(6) s3(6) by (blast intro: same_outside_trans)
  ultimately show ?thesis using s1(1,7) s2(1,7) s3(1,2,3,7) by fastforce
qed

lemma flushed_last:
  assumes "qd_fragment p"
  shows "flushed W (ps @ [p\<lparr>qd_fragment := False\<rparr>]) mf = map_prod id (w_end W) (flushed W (ps @ [p]) mf)"
proof -
  obtain m f where "fold (desc_effect W) ps mf = (m, f)" by fastforce
  moreover have "desc_effect W (p\<lparr>qd_fragment := False\<rparr>) (m, f) = map_prod id (w_end W) (desc_effect W p (m, f))"
    using assms by (simp add: desc_effect_def release_def split: prod.splits)
  moreover have "bounce (p\<lparr>qd_fragment := False\<rparr>) = bounce p" by (simp add: bounce_def fun_eq_iff)
  ultimately show ?thesis by (simp add: flushed_def split: prod.splits)
qed

lemma finish_command:
  assumes C: "pio_controller hw W view lag" and Q: "rq hw W view dst k s n M F" and n: "0 < n"
  shows "\<exists>s'. drv_qspi_flush_chain hw QSPI_PIO_MODE_E (upd_desc (n - 1) (\<lambda>p. p\<lparr>qd_fragment := False\<rparr>) s) = Some s'
    \<and> qspi_idle hw view s' \<and> pv_chip (view (q_dev s')) = w_end W F \<and> same_outside hw M (q_mem s')"
proof -
  let ?s = "upd_desc (n - 1) (\<lambda>p. p\<lparr>qd_fragment := False\<rparr>) s" and ?p = "unlink (q_descriptors s (n - 1))"
  let ?mf = "(q_mem s, pv_chip (view (q_dev s)))"
  have Suc: "Suc (n - 1) = n" using n by simp
  have q: "queue s n = queue s (n - 1) @ [?p]" "queue ?s n = queue s (n - 1) @ [?p\<lparr>qd_fragment := False\<rparr>]"
    using queue_Suc [of s "n - 1"] queue_Suc [of ?s "n - 1"] unfolding Suc by (simp_all add: unlink_def) (simp add: upd_desc_def)
  have fr: "qd_fragment ?p" and ok: "\<forall>p\<in>set (queue s n). desc_ok p" using Q n by (auto simp: rq_def q(1))
  have "\<forall>p\<in>set (queue ?s n). desc_ok p" using ok unfolding q by (auto simp: desc_ok_def)
  moreover have "chain_len ?s n" "pio_idle (view (q_dev ?s))" using Q by (simp_all add: rq_def) (simp add: upd_desc_def)
  ultimately obtain s' where s': "drv_qspi_flush_chain hw QSPI_PIO_MODE_E ?s = Some s'" "chain_len s' 0" "q_free_ptr s' = qh_buf hw"
      "pio_idle (view (q_dev s'))" "(q_mem s', pv_chip (view (q_dev s'))) = flushed W (queue ?s n) (q_mem ?s, pv_chip (view (q_dev ?s)))"
    using flush_chain_effect [OF C, of ?s n] by blast
  have "(q_mem s', pv_chip (view (q_dev s'))) = map_prod id (w_end W) (flushed W (queue s n) ?mf)"
    unfolding s'(5) q flushed_last [OF fr] by (simp add: upd_desc_def)
  then have "q_mem s' = fst (flushed W (queue s n) ?mf)" "pv_chip (view (q_dev s')) = w_end W F"
    using Q by (auto simp: rq_def prod_eq_iff)
  then show ?thesis using s'(1-4) Q by (simp add: qspi_idle_def chain_len_def rq_def)
qed

lemma data_phase:
  assumes C: "pio_controller hw W view lag" and B: "buf_ok hw"
    and Q: "outq hw W view s3 m u io f" "0 < m" "m < QSPI_NUM_DESCRIPTORS" "u \<le> 100" and same: "same_outside hw m0 (q_mem s3)"
    and buf: "n = 0 \<or> unat data + unat n + 3 < 2 ^ 32 \<and> client hw data (unat n)"
    and eff: "data_effect W io' (xfer_of cmd data n m0) f = (bs, F)"
  shows "\<exists>s4 k n4 M. drv_qspi_queue_data hw data n (ucast io') (qc_write cmd) QSPI_PIO_MODE_E s3 = Some s4 \<and> 0 < n4
    \<and> rq hw W view data k s4 n4 M F \<and> same_outside hw (mem_write m0 data bs) M"
proof (cases "n = 0 \<or> qc_write cmd")
  case True
  have rd: "mem_read (q_mem s3) data (unat n) = mem_read m0 data (unat n)"
    using buf same_outside_client [OF B same] by (cases "n = 0") auto
  have run: "drv_qspi_queue_data hw data n x (qc_write cmd) QSPI_PIO_MODE_E s3 = drv_qspi_queue_data hw data n x True QSPI_PIO_MODE_E s3" for x
    using True by (cases "qc_write cmd") (simp_all add: drv_qspi_queue_data_def)
  obtain s4 n4 where s4: "drv_qspi_queue_data hw data n (ucast io') True QSPI_PIO_MODE_E s3 = Some s4" "0 < n4"
      "wq W view s4 n4 (outs W io' (mem_read m0 data (unat n)) f)" "same_outside hw (q_mem s3) (q_mem s4)"
    using queue_data_out [OF C B Q buf] unfolding rd by blast
  have "bs = []" "F = outs W io' (mem_read m0 data (unat n)) f"
    using eff True by (auto simp: data_effect_def xfer_of_def split: if_splits)
  then have "rq hw W view data 0 s4 n4 (q_mem s4) F" "same_outside hw (mem_write m0 data bs) (q_mem s4)"
    using wq_rq [OF s4(3)] same_outside_trans [OF same s4(4)] by simp_all
  then show ?thesis unfolding run using s4(1,2) by blast
next
  case False
  then have r: "ins W io' (unat n) f = (bs, F)" using eff by (simp add: data_effect_def xfer_of_def)
  obtain s4 n4 k where s4: "drv_qspi_queue_data hw data n (ucast io') False QSPI_PIO_MODE_E s3 = Some s4" "0 < n4"
      "rq hw W view data k s4 n4 (mem_write (q_mem s3) data bs) F"
    using queue_data_in [OF C B Q _ _ _ r] buf False by blast
  have "qc_write cmd = False" using False by simp
  then show ?thesis using s4 same_outside_mem_write [OF same, of data bs] by metis
qed

lemma run_cmd_wire:
  assumes C: "pio_controller hw W view lag" and B: "buf_ok hw" and idle: "qspi_idle hw view s" and ok: "cmd_ok cmd"
    and buf: "n = 0 \<or> unat data + unat n + 3 < 2 ^ 32 \<and> client hw data (unat n)"
    and w: "wire_transact W cmd address (xfer_of cmd data n (q_mem s)) (pv_chip (view (q_dev s))) = (bs, f)"
  shows "\<exists>s'. qspi_run_cmd hw (Some cmd) address data n QSPI_PIO_MODE_E s = Some (True, s') \<and> qspi_idle hw view s'
    \<and> pv_chip (view (q_dev s')) = f \<and> same_outside hw (mem_write (q_mem s) data bs) (q_mem s')"
proof -
  let ?f = "cmd_head W cmd address (pv_chip (view (q_dev s)))" and ?io = "io_of (qc_data_mode cmd)"
  have guard: "\<not> (qc_addr_bytes cmd > 4 \<or> qc_dummy_clocks cmd > 16)" using ok by (auto simp: cmd_ok_def)
  have dm: "ucast ?io = qc_data_mode cmd" using ok by (auto simp: cmd_ok_def io_of_mode)
  obtain s1 s2 s3 m u io where h: "drv_qspi_queue_opcode hw (qc_opcode cmd) (qc_cmd_mode cmd) QSPI_PIO_MODE_E s = Some s1"
      "drv_qspi_queue_addr hw address (qc_addr_bytes cmd) (qc_addr_mode cmd) QSPI_PIO_MODE_E s1 = Some s2"
      "drv_qspi_queue_dummy hw (qc_dummy_clocks cmd) QSPI_PIO_MODE_E s2 = Some s3"
      "outq hw W view s3 m u io ?f" "0 < m" "m < QSPI_NUM_DESCRIPTORS" "u \<le> 100" "same_outside hw (q_mem s) (q_mem s3)"
    using queue_head [OF B idle ok, where W = W and address = address] by blast
  obtain F where eff: "data_effect W ?io (xfer_of cmd data n (q_mem s)) ?f = (bs, F)" "f = w_end W F"
    using w by (auto simp: wire_transact_def split: prod.splits)
  obtain s4 k n4 M where d: "drv_qspi_queue_data hw data n (qc_data_mode cmd) (qc_write cmd) QSPI_PIO_MODE_E s3 = Some s4" "0 < n4"
      "rq hw W view data k s4 n4 M F" "same_outside hw (mem_write (q_mem s) data bs) M"
    using data_phase [OF C B h(4-8) buf eff(1)] unfolding dm by blast
  have last: "drv_qspi_get_last_descriptor s4 = Some (Some (n4 - 1))"
    using get_last_descriptor [of s4 n4] d(2,3) by (simp add: rq_def)
  obtain s5 where s5: "drv_qspi_flush_chain hw QSPI_PIO_MODE_E (upd_desc (n4 - 1) (\<lambda>p. p\<lparr>qd_fragment := False\<rparr>) s4) = Some s5"
      "qspi_idle hw view s5" "pv_chip (view (q_dev s5)) = w_end W F" "same_outside hw M (q_mem s5)"
    using finish_command [OF C d(3,2)] by blast
  have "qspi_run_cmd hw (Some cmd) address data n QSPI_PIO_MODE_E s = Some (True, s5)"
    using guard by (simp add: qspi_run_cmd_def h d(1) last s5(1) del: One_nat_def)
  then show ?thesis using s5(2-4) eff(2) same_outside_trans [OF d(4)] by blast
qed

section \<open>A controller that keeps the contract\<close>

text \<open>A simulated controller: it makes the driver wait twice after a transfer has started, takes
  sixteen bytes at a time and delivers at most thirty-two.\<close>

record 'f sim =
  sim_view :: "'f pio_view"
  sim_stall :: nat

definition sim_rd :: "qspi_reg \<Rightarrow> 'f sim \<Rightarrow> u32 \<times> 'f sim" where
  "sim_rd r d =
     (let a = sim_view d
      in case r of
        QSPI_PIO_TRANSFER_STATUS \<Rightarrow>
          if 0 < sim_stall d then (0, d\<lparr>sim_view := a\<lparr>pv_room := 0\<rparr>, sim_stall := sim_stall d - 1\<rparr>)
          else (0x100000, d\<lparr>sim_view := a\<lparr>pv_room := 16\<rparr>\<rparr>)
      | QSPI_RD_FIFO_STATUS \<Rightarrow>
          if 0 < sim_stall d then (0, d\<lparr>sim_view := a\<lparr>pv_avail := 0\<rparr>, sim_stall := sim_stall d - 1\<rparr>)
          else (let c = min 32 (length (pv_pending a)) in (push_bit 4 (of_nat c), d\<lparr>sim_view := a\<lparr>pv_avail := c\<rparr>\<rparr>))
      | QSPI_RD_FIFO i \<Rightarrow>
          (let n = min 4 (length (pv_pending a))
           in (le32 (take 4 (pv_pending a @ [0, 0, 0, 0])),
               d\<lparr>sim_view := a\<lparr>pv_pending := drop n (pv_pending a), pv_avail := pv_avail a - n\<rparr>\<rparr>))
      | _ \<Rightarrow> (0, d))"

definition sim_wr :: "'f wire \<Rightarrow> qspi_reg \<Rightarrow> u32 \<Rightarrow> 'f sim \<Rightarrow> 'f sim" where
  "sim_wr W r v d =
     (let a = sim_view d
      in case r of
        QSPI_PIO_TRANSFER_CONFIG \<Rightarrow> d\<lparr>sim_view := configured v a\<rparr>
      | QSPI_PIO_TRANSFER_CONTROL \<Rightarrow> d\<lparr>sim_view := started W (unat (v AND 0xFFFF)) a, sim_stall := 2\<rparr>
      | QSPI_PIO_DATAOUT_4BYTE \<Rightarrow> d\<lparr>sim_view := push W (le_bytes32 v) a\<rparr>
      | QSPI_PIO_DATAOUT_1BYTE \<Rightarrow> d\<lparr>sim_view := push W [ucast v] a\<rparr>
      | _ \<Rightarrow> d)"

definition sim_hw :: "'f wire \<Rightarrow> addr \<Rightarrow> 'f sim qspi_hw" where
  "sim_hw W b = \<lparr>qh_rd = sim_rd, qh_wr = sim_wr W, qh_buf = b\<rparr>"

lemma sim_count: "n \<le> 32 \<Longrightarrow> rd_count (push_bit 4 (of_nat n)) = n"
proof -
  assume n: "n \<le> 32"
  have m: "(0x7F0 :: u32) = push_bit 4 (mask 7)" by (simp add: mask_eq_exp_minus_1)
  have "drop_bit 4 (push_bit 4 (of_nat n :: u32) AND 0x7F0) = take_bit 7 (of_nat n)"
    unfolding m by (rule bit_eqI) (auto simp: bit_simps)
  also have "\<dots> = of_nat (take_bit 7 n)" by (simp add: take_bit_of_nat)
  also have "\<dots> = of_nat n" using n by (simp add: take_bit_nat_eq_self)
  finally show ?thesis using n by (simp add: rd_count_def unat_of_nat)
qed

lemma sim_controller:
  fixes W :: "'f wire"
  shows "pio_controller (sim_hw W b) W sim_view sim_stall"
proof -
  have "rd_law r (fst (sim_rd r d)) (sim_view d) (sim_stall d) (sim_view (snd (sim_rd r d))) (sim_stall (snd (sim_rd r d)))"
    for r and d :: "'f sim"
  proof (cases r)
    case (QSPI_RD_FIFO i)
    let ?p = "pv_pending (sim_view d)"
    have "le_bytes32 (le32 (take 4 (?p @ [0, 0, 0, 0]))) = take 4 (?p @ [0, 0, 0, 0])" by (rule le_bytes32_le32) simp
    then show ?thesis by (simp add: QSPI_RD_FIFO rd_law_def sim_rd_def Let_def min_def)
  next
    case QSPI_RD_FIFO_STATUS
    have "rd_count 0 = 0" by (simp add: rd_count_def)
    then show ?thesis by (simp add: QSPI_RD_FIFO_STATUS rd_law_def sim_rd_def Let_def sim_count)
  next
    case QSPI_PIO_TRANSFER_STATUS
    have "wr_room 0 = 0" "wr_room 0x100000 = 16" by (simp_all add: wr_room_def)
    then show ?thesis by (simp add: QSPI_PIO_TRANSFER_STATUS rd_law_def sim_rd_def Let_def)
  qed (simp_all add: rd_law_def sim_rd_def Let_def)
  moreover have "wr_law W r v (sim_view d) (sim_stall d) (sim_view (sim_wr W r v d)) (sim_stall (sim_wr W r v d))" for r v d
    by (cases r) (simp_all add: wr_law_def sim_wr_def Let_def QSPI_MAX_STALLS_def)
  ultimately show ?thesis by (simp add: pio_controller_def sim_hw_def)
qed

text \<open>A chip that records what is clocked out and answers with how much it has seen.\<close>

definition trace_wire :: "(3 word \<times> u8) list wire" where
  "trace_wire = \<lparr>w_out = \<lambda>io b f. f @ [(io, b)], w_in = \<lambda>io f. (of_nat (length f), f @ [(io, 0)]), w_end = \<lambda>f. f @ [(0, 0)]\<rparr>"

section \<open>The bus of the flash driver\<close>

text \<open>C11: The QSPI driver implements the bus that the flash driver is written against. For any
  controller that keeps the contract, any chip behind it, and a client buffer away from the
  transfer buffer: running a command in PIO mode from the idle driver returns what the flash
  driver's command step returns; the chip has seen exactly opcode, address (most significant
  byte first), dummy bytes and data and has been released, the bytes read are in the client's
  buffer at any alignment and any length, nothing else changed outside the transfer buffer,
  and the driver is idle again. Commands with more than four address bytes or sixteen dummy
  clocks are refused by both.\<close>

theorem qspi_run_cmd_refines:
  assumes "pio_controller hw W view lag" and "buf_ok hw" and "qspi_idle hw view s"
    and "cmd_ok cmd \<or> qc_addr_bytes cmd > 4 \<or> qc_dummy_clocks cmd > 16"
    and "n = 0 \<or> unat data + unat n + 3 < 2 ^ 32 \<and> client hw data (unat n)"
    and "fl_dev fl = pv_chip (view (q_dev s))"
    and "drv_qspi_run_cmd (bus\<lparr>qb_transact := wire_transact W\<rparr>) cmd address (xfer_of cmd data n (q_mem s)) fl = (res, bs, fl')"
  shows "\<exists>s'. qspi_run_cmd hw (Some cmd) address data n QSPI_PIO_MODE_E s = Some (res, s') \<and> qspi_idle hw view s'
    \<and> pv_chip (view (q_dev s')) = fl_dev fl' \<and> same_outside hw (mem_write (q_mem s) data bs) (q_mem s')"
proof (cases "qc_addr_bytes cmd > 4 \<or> qc_dummy_clocks cmd > 16")
  case True
  then have "res = False" "bs = []" "fl' = fl" using assms(7) by (auto simp: drv_qspi_run_cmd_def)
  then show ?thesis using True assms(3,6) by (auto simp: qspi_run_cmd_def)
next
  case False
  then have ok: "cmd_ok cmd" using assms(4) by simp
  obtain f where w: "wire_transact W cmd address (xfer_of cmd data n (q_mem s)) (pv_chip (view (q_dev s))) = (bs, f)"
      "res = True" "fl_dev fl' = f"
    using False assms(6,7) by (auto simp: drv_qspi_run_cmd_def split: prod.splits)
  then show ?thesis using run_cmd_wire [OF assms(1-3) ok assms(5) w(1)] by simp
qed

definition read_03 :: qspi_cmd where
  "read_03 = drv_qspi_prepare_cmd 0x03 3 0 QSPI_SDR_1BIT_E QSPI_SDR_1BIT_E QSPI_SDR_1BIT_E False"

definition sim_start :: "(3 word \<times> u8) list sim qspi" where
  "sim_start =
     \<lparr>q_mem = \<lambda>_. 0, q_descriptors = \<lambda>_. zero_descriptor, q_transfer_chain = None, q_free_ptr = 0x20008000,
      q_transfer_mode = QSPI_PIO_MODE_E, q_xip_init_done = False,
      q_dev = \<lparr>sim_view = \<lparr>pv_write = False, pv_mode = 0, pv_fragment = False, pv_left = 0, pv_room = 0,
                 pv_pending = [], pv_avail = 0, pv_chip = []\<rparr>, sim_stall = 0\<rparr>\<rparr>"

theorem qspi_run_cmd_refines_witness:
  "\<exists>s'. qspi_run_cmd (sim_hw trace_wire 0x20008000) (Some read_03) 0x123456 0x20001001 5 QSPI_PIO_MODE_E sim_start = Some (True, s')
    \<and> pv_chip (sim_view (q_dev s')) =
        [(1, 0x03), (1, 0x12), (1, 0x34), (1, 0x56), (1, 0), (1, 0), (1, 0), (1, 0), (1, 0), (0, 0)]
    \<and> mem_read (q_mem s') 0x20001001 5 = [4, 5, 6, 7, 8]"
proof -
  let ?hw = "sim_hw trace_wire 0x20008000"
  let ?bus = "\<lparr>qb_transact = \<lambda>_ _ _ f. ([], f), qb_init = \<lambda>_ f. f, qb_delay = \<lambda>_ f. f, qb_quad_support = False, qb_quad_table = False\<rparr>"
  let ?fl = "\<lparr>fl_init_done = True, fl_state = 0, fl_config = None, fl_clock = 0, fl_dev = [] :: (3 word \<times> u8) list\<rparr>"
  let ?seen = "[(1, 0x03), (1, 0x12), (1, 0x34), (1, 0x56), (1, 0), (1, 0), (1, 0), (1, 0), (1, 0), (0, 0)]"
  have buf: "buf_ok ?hw" by (simp add: buf_ok_def sim_hw_def word_aligned_def)
  have cl: "client ?hw 0x20001001 5" by (simp add: client_def apart_def sim_hw_def)
  have mode: "io_of 1 = 1" by (simp add: io_of_def)
  have wa: "write_addr 0x123456 3 = [0x12, 0x34, 0x56]" by (simp add: write_addr_def upt_rec)
  have rd: "ins trace_wire 1 5 [(1, 0x03), (1, 0x12), (1, 0x34), (1, 0x56)] =
      ([4, 5, 6, 7, 8], [(1, 0x03), (1, 0x12), (1, 0x34), (1, 0x56), (1, 0), (1, 0), (1, 0), (1, 0), (1, 0)])"
    by (simp add: eval_nat_numeral trace_wire_def)
  have "cmd_ok read_03"
    by (simp add: cmd_ok_def read_03_def drv_qspi_prepare_cmd_def clocks_per_bytes_def qspi_mode_defs)
  moreover have "qspi_idle ?hw sim_view sim_start" by (simp add: qspi_idle_def sim_start_def sim_hw_def pio_idle_def)
  moreover have "drv_qspi_run_cmd (?bus\<lparr>qb_transact := wire_transact trace_wire\<rparr>) read_03 0x123456 (xfer_of read_03 0x20001001 5 (q_mem sim_start)) ?fl
      = (True, [4, 5, 6, 7, 8], ?fl\<lparr>fl_dev := ?seen\<rparr>)"
  proof -
    have "cmd_head trace_wire read_03 0x123456 [] = [(1, 0x03), (1, 0x12), (1, 0x34), (1, 0x56)]"
      by (simp add: read_03_def drv_qspi_prepare_cmd_def qspi_mode_defs cmd_head_def head_mode_def mode wa dummy_phase_def
          clocks_per_bytes_def trace_wire_def)
    then show ?thesis
      by (simp add: drv_qspi_run_cmd_def xfer_of_def wire_transact_def data_effect_def)
        (simp add: read_03_def drv_qspi_prepare_cmd_def qspi_mode_defs mode rd trace_wire_def [THEN arg_cong, of w_end])
  qed
  ultimately obtain s' where s': "qspi_run_cmd ?hw (Some read_03) 0x123456 0x20001001 5 QSPI_PIO_MODE_E sim_start = Some (True, s')"
      "pv_chip (sim_view (q_dev s')) = ?seen" "same_outside ?hw (mem_write (q_mem sim_start) 0x20001001 [4, 5, 6, 7, 8]) (q_mem s')"
    using qspi_run_cmd_refines [OF sim_controller buf, of sim_start read_03 5 "0x20001001" ?fl ?bus "0x123456" True "[4, 5, 6, 7, 8]" "?fl\<lparr>fl_dev := ?seen\<rparr>"] cl
    by (auto simp: sim_start_def)
  have len: "length [4, 5, 6, 7, 8 :: u8] = 5" by simp
  have "mem_read (q_mem s') 0x20001001 5 = [4, 5, 6, 7, 8]"
    using same_outside_client [OF buf s'(3) cl] mem_read_write_same [of "[4, 5, 6, 7, 8]" "q_mem sim_start" "0x20001001", unfolded len]
    by (simp del: mem_write.simps)
  then show ?thesis using s'(1,2) by blast
qed

text \<open>The commands the flash driver runs are commands the theorem covers: register accesses,
  erases, and reads and page writes with every entry of the device table.\<close>

lemma reg_cmd_ok: "cmd_ok (reg_cmd opcode wr)"
  by (simp add: cmd_ok_def reg_cmd_def drv_qspi_prepare_cmd_def clocks_per_bytes_def qspi_mode_defs)

lemma erase_cmd_ok: "addr_bytes \<le> 4 \<Longrightarrow> cmd_ok (erase_cmd opcode addr_bytes)"
  by (simp add: cmd_ok_def erase_cmd_def drv_qspi_prepare_cmd_def clocks_per_bytes_def qspi_mode_defs)

definition read_cmd :: "flash_config_data \<Rightarrow> qspi_cmd" where
  "read_cmd c = drv_qspi_prepare_cmd (fc_read_opcode c) (fc_addr_bytes c) (fc_read_wait_state c)
     (fc_read_cmd_mode c) (fc_read_addr_mode c) (fc_read_data_mode c) False"

lemma table_cmds_ok: "list_all (\<lambda>c. cmd_ok (read_cmd c) \<and> cmd_ok (page_write_cmd c)) (flash_device_config quad)"
proof -
  have "list_all (\<lambda>c. cmd_ok (read_cmd c) \<and> cmd_ok (page_write_cmd c)) (flash_device_config True)" by code_simp
  moreover have "list_all (\<lambda>c. cmd_ok (read_cmd c) \<and> cmd_ok (page_write_cmd c)) (flash_device_config False)" by code_simp
  ultimately show ?thesis by (cases quad) (simp_all only:)
qed

section \<open>The chain stays inside its array\<close>

lemma flush_chain_len:
  assumes "drv_qspi_flush_chain hw mode s = Some s'" and "mode \<noteq> QSPI_DMA_INT_MODE_E"
  shows "chain_len s' 0"
  using assms by (auto simp: drv_qspi_flush_chain_def chain_len_def linked_def bind_eq_Some_conv split: if_splits)

lemma alloc_flush:
  assumes "chain_len s n"
    and "qh_buf hw + QSPI_BUFFER_SIZE - align_up (alignment_of mode) (q_free_ptr s) < needed \<or> n \<ge> QSPI_NUM_DESCRIPTORS"
  shows "drv_qspi_alloc_descriptor hw needed mode s =
    map_option (\<lambda>s1. (0, appended 0 (if needed \<noteq> 0 then qh_buf hw else 0) s1))
      (drv_qspi_flush_chain hw (if mode \<noteq> QSPI_DMA_INT_MODE_E then mode else QSPI_DMA_POLL_MODE_E) s)"
proof -
  have nx: "(case (if n = 0 then None else Some (n - 1)) of None \<Rightarrow> 0 | Some i \<Rightarrow> i + 1) = n" by simp
  show ?thesis
    unfolding drv_qspi_alloc_descriptor_def get_last_descriptor [OF assms(1)] Let_def Option.bind.simps nx if_P [OF assms(2)]
    by (cases "drv_qspi_flush_chain hw (if mode \<noteq> QSPI_DMA_INT_MODE_E then mode else QSPI_DMA_POLL_MODE_E) s")
      (simp_all only: option.map Option.bind.simps prod.case option.case appended_def fresh_def Let_def, simp)
qed

text \<open>C39: In every transfer mode, allocating a descriptor on a chain that links the array in order
  yields an entry of the array and again such a chain, ending in that entry: the pointer never
  leaves the eight descriptors and the chain never becomes cyclic, also when the chain had to
  be flushed because the array or the transfer buffer was full. The new entry is zeroed except
  for its buffer address and the fragment flag.\<close>

theorem qspi_alloc_keeps_chain:
  assumes "chain_len s n" and "drv_qspi_alloc_descriptor hw needed mode s = Some (i, s')"
  shows "i < QSPI_NUM_DESCRIPTORS \<and> chain_len s' (Suc i) \<and> drv_qspi_get_last_descriptor s' = Some (Some i)
    \<and> q_descriptors s' i = fresh (qd_data_address (q_descriptors s' i)) \<and> (needed = 0 \<longrightarrow> qd_data_address (q_descriptors s' i) = 0)"
proof -
  obtain a s1 where s1: "s' = appended i a s1" "chain_len s1 i" "i < QSPI_NUM_DESCRIPTORS" "needed = 0 \<longrightarrow> a = 0"
  proof (cases "qh_buf hw + QSPI_BUFFER_SIZE - align_up (alignment_of mode) (q_free_ptr s) < needed \<or> n \<ge> QSPI_NUM_DESCRIPTORS")
    case True
    then have "drv_qspi_alloc_descriptor hw needed mode s =
        map_option (\<lambda>s1. (0, appended 0 (if needed \<noteq> 0 then qh_buf hw else 0) s1))
          (drv_qspi_flush_chain hw (if mode \<noteq> QSPI_DMA_INT_MODE_E then mode else QSPI_DMA_POLL_MODE_E) s)"
      by (rule alloc_flush [OF assms(1)])
    from this [symmetric, unfolded assms(2)] obtain s1 where "drv_qspi_flush_chain hw (if mode \<noteq> QSPI_DMA_INT_MODE_E then mode else QSPI_DMA_POLL_MODE_E) s = Some s1"
        "i = 0" "s' = appended 0 (if needed \<noteq> 0 then qh_buf hw else 0) s1"
      unfolding map_option_eq_Some by blast
    moreover have "chain_len s1 0" using calculation(1) by (rule flush_chain_len) simp
    ultimately show ?thesis using that by (auto simp: QSPI_NUM_DESCRIPTORS_def)
  next
    case False
    then have "i = n" "s' = appended n (if needed \<noteq> 0 then align_up (alignment_of mode) (q_free_ptr s) else 0) s"
      using assms(2) by (auto simp: drv_qspi_alloc_descriptor_def get_last_descriptor [OF assms(1)] Let_def appended_def fresh_def
          split: if_splits)
    then show ?thesis using that assms(1) False by auto
  qed
  have "chain_len s' (Suc i)" unfolding s1(1) by (rule chain_len_appended [OF s1(2,3)])
  then show ?thesis using s1 get_last_descriptor [of s' "Suc i"] by (simp add: fresh_def)
qed

theorem qspi_alloc_keeps_chain_witness:
  "0 < QSPI_NUM_DESCRIPTORS \<and> chain_len (appended 0 0x20008000 sim_start) (Suc 0)"
proof -
  have "chain_len sim_start 0" by (simp add: chain_len_def sim_start_def linked_def)
  moreover from this have "drv_qspi_alloc_descriptor (sim_hw trace_wire 0x20008000) 8 QSPI_PIO_MODE_E sim_start
      = Some (0, appended 0 0x20008000 sim_start)"
    by (simp add: drv_qspi_alloc_descriptor_def get_last_descriptor Let_def appended_def fresh_def sim_hw_def QSPI_NUM_DESCRIPTORS_def)
      (simp add: sim_start_def align_up_def alignment_of_def QSPI_BUFFER_SIZE_def)
  ultimately show ?thesis using qspi_alloc_keeps_chain [of sim_start 0] by blast
qed

section \<open>Failures the driver does not report\<close>

text \<open>A view without content, for a controller of which nothing is known.\<close>

definition no_view :: "'d \<Rightarrow> unit pio_view" where
  "no_view d = \<lparr>pv_write = False, pv_mode = 0, pv_fragment = False, pv_left = 0, pv_room = 0,
     pv_pending = [], pv_avail = 0, pv_chip = ()\<rparr>"

definition no_wire :: "unit wire" where
  "no_wire = \<lparr>w_out = \<lambda>_ _ f. f, w_in = \<lambda>_ f. (0, f), w_end = \<lambda>f. f\<rparr>"

lemma dq_upd_fragment: "dq s n \<Longrightarrow> dq (upd_desc i (\<lambda>p. p\<lparr>qd_fragment := b\<rparr>) s) n"
  by (auto simp: dq_def) (auto simp: queue_def upd_desc_def desc_ok_def unlink_def)

lemma run_cmd_stuck:
  assumes dead: "rx_dead hw" and B: "buf_ok hw" and idle: "q_transfer_chain s = None" "q_free_ptr s = qh_buf hw"
    and ok: "cmd_ok cmd" and al: "word_aligned data" and n: "n \<noteq> 0" "unat data + unat n + 3 < 2 ^ 32"
  shows "\<exists>s'. qspi_run_cmd hw (Some cmd) address data n QSPI_PIO_MODE_E s = Some (True, s')
    \<and> same_outside hw (q_mem s) (q_mem s') \<and> q_transfer_chain s' = None \<and> q_free_ptr s' = qh_buf hw"
proof -
  have guard: "\<not> (qc_addr_bytes cmd > 4 \<or> qc_dummy_clocks cmd > 16)" using ok by (auto simp: cmd_ok_def)
  have dm: "ucast (io_of (qc_data_mode cmd)) = qc_data_mode cmd" using ok by (auto simp: cmd_ok_def io_of_mode)
  have "qspi_idle hw no_view s" using idle by (simp add: qspi_idle_def pio_idle_def no_view_def)
  then obtain s1 s2 s3 m u io f where h: "drv_qspi_queue_opcode hw (qc_opcode cmd) (qc_cmd_mode cmd) QSPI_PIO_MODE_E s = Some s1"
      "drv_qspi_queue_addr hw address (qc_addr_bytes cmd) (qc_addr_mode cmd) QSPI_PIO_MODE_E s1 = Some s2"
      "drv_qspi_queue_dummy hw (qc_dummy_clocks cmd) QSPI_PIO_MODE_E s2 = Some s3"
      "outq hw no_wire no_view s3 m u io f" "same_outside hw (q_mem s) (q_mem s3)"
    using queue_head [OF B _ ok, where view = no_view and W = no_wire and s = s and address = address] by blast
  have "dq s3 m" using outq_wq [OF B h(4)] by (auto simp: wq_def dq_def)
  then obtain s4 n4 where d: "drv_qspi_queue_data hw data n (qc_data_mode cmd) (qc_write cmd) QSPI_PIO_MODE_E s3 = Some s4"
      "dq s4 n4" "q_mem s4 = q_mem s3" "0 < n4"
    using queue_data_aligned_stuck [OF dead _ al n, of s3 m "io_of (qc_data_mode cmd)" "qc_write cmd"] unfolding dm by blast
  have last: "drv_qspi_get_last_descriptor s4 = Some (Some (n4 - 1))"
    using get_last_descriptor [of s4 n4] d(2,4) by (simp add: dq_def)
  obtain s5 where s5: "drv_qspi_flush_chain hw QSPI_PIO_MODE_E (upd_desc (n4 - 1) (\<lambda>p. p\<lparr>qd_fragment := False\<rparr>) s4) = Some s5"
      "dq s5 0" "q_free_ptr s5 = qh_buf hw" "q_mem s5 = q_mem s4"
    using flush_stuck [OF dead dq_upd_fragment [OF d(2)]] by (auto simp: upd_desc_def)
  have "qspi_run_cmd hw (Some cmd) address data n QSPI_PIO_MODE_E s = Some (True, s5)"
    using guard by (simp add: qspi_run_cmd_def h d(1) last s5(1) del: One_nat_def)
  then show ?thesis using s5(2-4) d(3) h(5) by (simp add: dq_def chain_len_def)
qed

text \<open>C40: A controller that never delivers a byte goes unnoticed. Let it take what is written
  (the write FIFO always has room for a word) and never report a byte in the read FIFO. Then a
  command with data, a read in particular, of any length and with a buffer that starts at a word
  boundary, given to an idle driver in PIO mode, returns and reports success although no byte
  came in: outside the driver's own transfer buffer the memory is as before. Each read transfer
  in it gives up after its limit of polls with the counter one past the value that the timeout
  message tests for, so that the message is not printed either.\<close>

theorem pio_read_timeout_silent:
  assumes "rx_dead hw" and "buf_ok hw" and "q_transfer_chain s = None" and "q_free_ptr s = qh_buf hw"
    and "cmd_ok cmd" and "word_aligned data" and "n \<noteq> 0" and "unat data + unat n + 3 < 2 ^ 32"
  shows "(\<exists>s'. qspi_run_cmd hw (Some cmd) address data n QSPI_PIO_MODE_E s = Some (True, s')
      \<and> same_outside hw (q_mem s) (q_mem s'))
    \<and> (num \<noteq> 0 \<longrightarrow> (\<exists>d'. drv_qspi_pio_read hw ptr num wr io fr m d = Some (False, m, d')))"
  using run_cmd_stuck [OF assms, of address] pio_read_stuck [of hw num ptr wr io fr m d] assms(1)
  by (auto simp: rx_dead_def)

text \<open>A controller without a receiver, and the read of eight bytes with it.\<close>

definition deaf_hw :: "unit qspi_hw" where
  "deaf_hw = \<lparr>qh_rd = \<lambda>r d. (if r = QSPI_PIO_TRANSFER_STATUS then 0x100000 else 0, d), qh_wr = \<lambda>_ _ d. d, qh_buf = 0x20008000\<rparr>"

definition deaf_start :: "unit qspi" where
  "deaf_start =
     \<lparr>q_mem = \<lambda>_. 7, q_descriptors = \<lambda>_. zero_descriptor, q_transfer_chain = None, q_free_ptr = 0x20008000,
      q_transfer_mode = QSPI_PIO_MODE_E, q_xip_init_done = False, q_dev = ()\<rparr>"

theorem pio_read_timeout_silent_witness:
  "(\<exists>s'. qspi_run_cmd deaf_hw (Some read_03) 0 0x1000 8 QSPI_PIO_MODE_E deaf_start = Some (True, s') \<and> q_mem s' 0x1000 = 7)
    \<and> (\<exists>d'. drv_qspi_pio_read deaf_hw 0x1000 8 0 1 0 (\<lambda>_. 7) () = Some (False, \<lambda>_. 7, d'))"
proof -
  have dead: "rx_dead deaf_hw"
    by (simp add: rx_dead_def hal_qspi_get_pio_rd_fifo_wrcnts_def hal_qspi_get_pio_transfer_wr_fifo_bytes_def field_get_def deaf_hw_def)
  have buf: "buf_ok deaf_hw" by (simp add: buf_ok_def deaf_hw_def word_aligned_def)
  have cmd: "cmd_ok read_03"
    by (simp add: cmd_ok_def read_03_def drv_qspi_prepare_cmd_def clocks_per_bytes_def qspi_mode_defs)
  have idle: "q_transfer_chain deaf_start = None" "q_free_ptr deaf_start = qh_buf deaf_hw" by (simp_all add: deaf_start_def deaf_hw_def)
  have data: "word_aligned 0x1000" "(8 :: u32) \<noteq> 0" "unat (0x1000 :: u32) + unat (8 :: u32) + 3 < 2 ^ 32"
    by (simp_all add: word_aligned_def)
  have out: "client deaf_hw 0x1000 1" by (simp add: client_def apart_def deaf_hw_def)
  have "q_mem s' 0x1000 = 7" if "same_outside deaf_hw (q_mem deaf_start) (q_mem s')" for s' :: "unit qspi"
    using same_outside_client [OF buf that out] by (simp add: mem_read_def deaf_start_def)
  then show ?thesis
    using pio_read_timeout_silent [OF dead buf idle cmd data, of 0 8 "0x1000" 0 1 0 "\<lambda>_. 7" "()"] by auto
qed

text \<open>The modes other than PIO queue the descriptors and drop them: the controller is never told.\<close>

lemma flush_dev: "drv_qspi_flush_chain hw mode s = Some s' \<Longrightarrow> mode \<noteq> QSPI_PIO_MODE_E \<Longrightarrow> q_dev s' = q_dev s"
  by (auto simp: drv_qspi_flush_chain_def bind_eq_Some_conv split: if_splits)

lemma upd_desc_dev [simp]: "q_dev (upd_desc i f s) = q_dev s"
  by (simp add: upd_desc_def)

lemma alloc_dev:
  assumes "drv_qspi_alloc_descriptor hw needed mode s = Some (i, s')" and "mode \<noteq> QSPI_PIO_MODE_E"
  shows "q_dev s' = q_dev s"
  using assms flush_dev
  by (fastforce simp: drv_qspi_alloc_descriptor_def bind_eq_Some_conv Let_def split: if_splits option.splits)

lemma set_descriptor_dev:
  assumes "drv_qspi_set_descriptor hw src n io dir mode s = Some s'" and "mode \<noteq> QSPI_PIO_MODE_E"
  shows "q_dev s' = q_dev s"
  using assms alloc_dev
  by (fastforce simp: drv_qspi_set_descriptor_def bind_eq_Some_conv Let_def split: if_splits option.splits)

lemma alloc_dummy_dev:
  "alloc_dummy hw clocks mode s = Some s' \<Longrightarrow> mode \<noteq> QSPI_PIO_MODE_E \<Longrightarrow> q_dev s' = q_dev s"
  using alloc_dev by (fastforce simp: alloc_dummy_def bind_eq_Some_conv Let_def fill_dummy_def)

lemma queue_dummy_dev:
  assumes run: "drv_qspi_queue_dummy hw clocks mode s = Some s'" and mode: "mode \<noteq> QSPI_PIO_MODE_E"
  shows "q_dev s' = q_dev s"
proof (cases "clocks = 0")
  case True
  then show ?thesis using run by (simp add: drv_qspi_queue_dummy_def)
next
  case False
  note alloc = alloc_dummy_dev [OF _ mode]
  have fill: "q_dev (fill_dummy i ptr k s) = q_dev s" for i ptr k by (simp add: fill_dummy_put)
  obtain pd where pd: "drv_qspi_get_last_descriptor s = Some pd"
    using run False by (auto simp: drv_qspi_queue_dummy_def bind_eq_Some_conv)
  show ?thesis
  proof (cases pd)
    case None
    then show ?thesis using run False pd alloc by (simp add: drv_qspi_queue_dummy_def)
  next
    case (Some i)
    show ?thesis
    proof (cases "clocks_per_bytes (ucast (qd_multi_io_mode (q_descriptors s i)))")
      case None
      then show ?thesis using run False pd Some alloc by (auto simp: drv_qspi_queue_dummy_def Let_def split: if_splits)
    next
      case (Some c)
      then show ?thesis using run False pd \<open>pd = Some i\<close> alloc fill
        by (auto simp: drv_qspi_queue_dummy_def Let_def split: if_splits)
    qed
  qed
qed

lemma queue_data_direct_dev:
  "drv_qspi_queue_data_direct hw a n io wr mode s = Some s' \<Longrightarrow> mode \<noteq> QSPI_PIO_MODE_E \<Longrightarrow> q_dev s' = q_dev s"
proof (induction hw a n io wr mode s rule: drv_qspi_queue_data_direct.induct)
  case (1 hw a n io wr mode s)
  show ?case
  proof (cases "n = 0")
    case True
    then show ?thesis using "1.prems"(1) by (simp add: drv_qspi_queue_data_direct.simps)
  next
    case False
    then obtain i s1 where s1: "drv_qspi_alloc_descriptor hw 0 mode s = Some (i, s1)"
      using "1.prems"(1) by (auto simp: drv_qspi_queue_data_direct.simps [of hw a n] Let_def split: option.splits)
    from "1.IH" [OF False refl s1 refl] "1.prems" False s1 alloc_dev [OF s1] show ?thesis
      by (simp add: drv_qspi_queue_data_direct.simps [of hw a n] Let_def)
  qed
qed

lemma dma_mode_moves_nothing:
  assumes "qspi_run_cmd hw pcmd address data n mode s = Some (b, s')" and "mode \<noteq> QSPI_PIO_MODE_E"
  shows "q_dev s' = q_dev s"
proof (cases pcmd)
  case None
  then show ?thesis using assms(1) by (simp add: qspi_run_cmd_def)
next
  case (Some cmd)
  note dev = set_descriptor_dev [OF _ assms(2)] queue_data_direct_dev [OF _ assms(2)] queue_dummy_dev [OF _ assms(2)]
    flush_dev [OF _ assms(2)]
  have data: "q_dev t' = q_dev t" if "drv_qspi_queue_data hw data n io wr mode t = Some t'" for io wr t t'
    using that by (auto simp: drv_qspi_queue_data_def bind_eq_Some_conv Let_def split: if_splits dest!: dev)
  show ?thesis
    using assms(1) Some
    by (auto simp: qspi_run_cmd_def bind_eq_Some_conv drv_qspi_queue_opcode_def drv_qspi_queue_addr_def split: if_splits
        dest!: dev data)
qed

text \<open>When the clocks are not whole bytes in the mode of the address, an odd number of them loses
  one: the quad-mode replacement clocks two per byte.\<close>

lemma dummy_clock_lost:
  assumes "clocks_per_bytes (ucast io) = Some c" and "unat clocks mod unat c \<noteq> 0" and "odd (unat clocks)"
  shows "dummy_phase io clocks = (ucast QSPI_SDR_4BIT_E, k) \<Longrightarrow> k * 2 = unat clocks - 1"
  using assms by (auto simp: dummy_phase_def elim: oddE)

text \<open>Configuring suspend and resume writes both opcodes to the resume register: the value of the
  suspend register only ever changes in its delay and enable fields.\<close>

lemma suspend_opcode_not_set:
  assumes "\<And>r v d. qh_wr hw r v d = d(r := v)" and "\<And>r d. qh_rd hw r d = (d r, d)"
    and "drv_qspi_xip_config_suspend_resume hw sd so rd ro s = (b, s')"
  shows "q_dev s' QSPI_XIP_SUSPEND_PH_CONFIG AND 0xFF000000 = q_dev s QSPI_XIP_SUSPEND_PH_CONFIG AND 0xFF000000"
proof -
  let ?v = "q_dev s QSPI_XIP_SUSPEND_PH_CONFIG"
  have "q_dev s' QSPI_XIP_SUSPEND_PH_CONFIG =
      ((?v AND NOT 0x3FF00) OR (push_bit 8 (ucast sd) AND 0x3FF00)) AND NOT 1 OR (push_bit 0 (ucast (1 :: u8)) AND 1)"
    using assms(3) unfolding drv_qspi_xip_config_suspend_resume_def Let_def
    by (auto simp: assms(1,2) field_set_def hal_qspi_xip_set_suspend_delay_def hal_qspi_xip_set_resume_opcode_def
        hal_qspi_xip_enable_suspend_def hal_qspi_xip_set_resume_delay_def hal_qspi_xip_resume_suspend_def)
  moreover have "((((x :: u32) AND NOT 0x3FF00) OR (y AND 0x3FF00)) AND NOT 1 OR (z AND 1)) AND 0xFF000000 = x AND 0xFF000000" for x y z
  proof -
    have m: "(0xFF000000 :: u32) = push_bit 24 (mask 8)" "(0x3FF00 :: u32) = push_bit 8 (mask 10)" by (simp_all add: mask_eq_exp_minus_1)
    show ?thesis unfolding m by (rule bit_eqI) (auto simp: bit_simps bit_1_iff)
  qed
  ultimately show ?thesis by (simp only:)
qed

end
