(* ===== verification/Bl_Otp.thy ===== *)
theory Bl_Otp
  imports Bl_Rram_Correct
begin

text \<open>
  The operations of \<^verbatim>\<open>qboot/system/nt_bl_mem.c\<close> that change the OTP area: locking a region, the
  serial number of the device, and the flags next to them. The addresses are those of the
  structure \<open>otp_nt_region\<close> of \<^verbatim>\<open>qboot/include/nt_bl_mem.h\<close>. The random number generator is
  outside the repository: \<open>rng_init\<close> is what its initialisation returns and \<open>rng k\<close> the \<open>k\<close>-th
  number drawn after it. \<open>blk\<close> is the uninitialised block buffer of the writer.
\<close>

section \<open>Constants\<close>

definition ENODEV :: int where "ENODEV = 19"
definition ENODATA :: int where "ENODATA = 61"
definition SERIAL_MARKER :: u8 where "SERIAL_MARKER = 0x53"
definition IMAGE_UPDATE_STATUS_MODE_ADD :: addr where "IMAGE_UPDATE_STATUS_MODE_ADD = 0x2043FC"
definition PTE_REGION :: nat where "PTE_REGION = 0"
definition FIRMWARE_REGION :: nat where "FIRMWARE_REGION = 11"
definition MAX_UPD_MODE :: nat where "MAX_UPD_MODE = 3"

definition serial_num_addr :: addr where "serial_num_addr = OTP_region_st_addr + 4"
definition serial_updated_addr :: addr where "serial_updated_addr = OTP_region_st_addr + 28"
definition firmware_reserved_addr :: addr where "firmware_reserved_addr = OTP_region_st_addr + 462"

section \<open>Locks\<close>

abbreviation region_locked :: "memory \<Rightarrow> nat \<Rightarrow> otp_lock \<Rightarrow> int option" where
  "region_locked m \<equiv> nt_otp_region_locked (rram_address_range_check (Suc 0) m) m"

definition nt_otp_region_lock :: "rram_dev \<Rightarrow> bytes \<Rightarrow> nat \<Rightarrow> otp_lock \<Rightarrow> bl_hw \<Rightarrow> (int \<times> bl_hw) option" where
  "nt_otp_region_lock dev blk region_num rd_wr_lock h =
     (if region_num \<ge> MAX_REGION then Some (- EINVAL, h)
      else do {
        l \<leftarrow> region_locked (bh_mem h) RW_PERMISSION_REGION WRITE_LOCKED;
        if l \<noteq> 0 then Some (- EPERM, h)
        else case bl_read_byte (lock_addr region_num rd_wr_lock) 0 (bh_mem h) of
          (st, lock_byte) \<Rightarrow>
            if st \<noteq> 0 then Some (- EIO, h)
            else if drop_bit (region_num mod 8) lock_byte AND 1 \<noteq> 0 then Some (0, h)
            else do {
              (st, h) \<leftarrow> nt_bl_rram_write dev blk (lock_addr region_num rd_wr_lock)
                          (Src_buf [lock_byte OR push_bit (region_num mod 8) 1]) 1 h;
              Some (if st \<noteq> 0 then - EIO else 0, h)
            }
      })"

text \<open>The result of \<open>CHECK_BIT_SET\<close> is the masked byte, and it is compared with \<open>true\<close>.\<close>

definition nt_otp_firware_reg_status :: "nat \<Rightarrow> memory \<Rightarrow> bool option" where
  "nt_otp_firware_reg_status fw_res_flag m =
     do {
       l \<leftarrow> region_locked m FIRMWARE_REGION READ_LOCKED;
       Some (l = 0 \<and> snd (bl_read_byte firmware_reserved_addr 0 m) AND push_bit fw_res_flag 1 = 1)
     }"

section \<open>The serial number\<close>

text \<open>Three draws of two numbers; the bytes of the first pair that is not zero in its 48 bits.\<close>

definition draw_serial :: "(nat \<Rightarrow> u32) \<Rightarrow> bytes option" where
  "draw_serial rng =
     map_option (\<lambda>i. le_bytes32 (rng (2 * i)) @ take 2 (le_bytes32 (rng (2 * i + 1))))
       (find (\<lambda>i. rng (2 * i) \<noteq> 0 \<or> rng (2 * i + 1) AND 0xFFFF \<noteq> 0) [0, 1, 2])"

text \<open>The results of the two writes and of the lock are not looked at.\<close>

definition nt_serial_number_write ::
    "rram_dev \<Rightarrow> bytes \<Rightarrow> int \<Rightarrow> (nat \<Rightarrow> u32) \<Rightarrow> bl_hw \<Rightarrow> (int \<times> bl_hw) option" where
  "nt_serial_number_write dev blk rng_init rng h =
     (if rng_init \<noteq> 0 then Some (- ENODEV, h)
      else case draw_serial rng of
        None \<Rightarrow> Some (- ENODATA, h)
      | Some serial_num \<Rightarrow> do {
          (_, h) \<leftarrow> nt_bl_rram_write dev blk serial_num_addr (Src_buf serial_num) 6 h;
          (_, h) \<leftarrow> nt_bl_rram_write dev blk serial_updated_addr (Src_buf [SERIAL_MARKER]) 1 h;
          (_, h) \<leftarrow> nt_otp_region_lock dev blk PTE_REGION WRITE_LOCKED h;
          Some (0, h)
        })"

definition nt_serial_number_check ::
    "rram_dev \<Rightarrow> bytes \<Rightarrow> int \<Rightarrow> (nat \<Rightarrow> u32) \<Rightarrow> bl_hw \<Rightarrow> (int \<times> bl_hw) option" where
  "nt_serial_number_check dev blk rng_init rng h =
     (let serialmarker = snd (bl_read_byte serial_updated_addr 0 (bh_mem h))
      in if SERIAL_MARKER \<noteq> serialmarker then do {
           l \<leftarrow> region_locked (bh_mem h) PTE_REGION WRITE_LOCKED;
           if l \<noteq> 0 then Some (0, h)
           else do {
             (st, h) \<leftarrow> nt_serial_number_write dev blk rng_init rng h;
             Some (if st \<noteq> 0 then 0 else EPERM, h)
           }
         }
         else do {
           l \<leftarrow> region_locked (bh_mem h) PTE_REGION WRITE_LOCKED;
           if l \<noteq> 0 then Some (0, h)
           else
             let serial_num = (case bl_read serial_num_addr 6 (bh_mem h) of (st, bs) \<Rightarrow> if st \<noteq> 0 then replicate 6 0 else bs)
             in if list_all (\<lambda>b. b = 0) serial_num then do {
                  (st, h) \<leftarrow> nt_serial_number_write dev blk rng_init rng h;
                  Some (if st \<noteq> 0 then 0 else EPERM, h)
                }
                else do {
                  (_, h) \<leftarrow> nt_otp_region_lock dev blk PTE_REGION WRITE_LOCKED h;
                  Some (EPERM, h)
                }
         })"

section \<open>The image update flag\<close>

definition nt_img_mode_update_flag :: "rram_dev \<Rightarrow> bytes \<Rightarrow> nat \<Rightarrow> bl_hw \<Rightarrow> (int \<times> bl_hw) option" where
  "nt_img_mode_update_flag dev blk im_upd_flag h =
     (if im_upd_flag \<ge> MAX_UPD_MODE then Some (- EINVAL, h)
      else
        let img_dw_status = snd (bl_read_byte IMAGE_UPDATE_STATUS_MODE_ADD 0 (bh_mem h)) OR push_bit im_upd_flag 1
        in do {
          (_, h) \<leftarrow> nt_bl_rram_write dev blk IMAGE_UPDATE_STATUS_MODE_ADD (Src_buf [img_dw_status]) 1 h;
          Some (0, h)
        })"

end
