(* ===== verification/Bl_Otp_Props.thy ===== *)
theory Bl_Otp_Props
  imports Bl_Otp
begin

text \<open>
  Properties of the locks of the OTP area and of the serial number.
\<close>

section \<open>Locking\<close>

lemma read_byte_main:
  assumes "range_ok m a 1 READ_LOCKED"
  shows "bl_read_byte a v m = (0, m a)"
  using assms by (simp add: bl_read_byte_def bl_read_def mem_read_def)

lemma lock_byte_readable: "n < MAX_REGION \<Longrightarrow> bl_read_byte (lock_addr n lk) v m = (0, m (lock_addr n lk))"
  by (rule read_byte_main) (simp add: range_ok_def lock_byte_check del: rram_address_range_check.simps)

lemma unat_lock_addr:
  assumes "n < MAX_REGION"
  shows "unat (lock_addr n lk) = 0x1A0000 + (case lk of READ_LOCKED \<Rightarrow> 48 | WRITE_LOCKED \<Rightarrow> 51) + n div 8"
proof -
  have "n div 8 < 3" using assms by (simp add: MAX_REGION_def)
  then show ?thesis
    using unat_addr_offset [of "0x1A0030" "n div 8"] unat_addr_offset [of "0x1A0033" "n div 8"]
    by (cases lk) (simp_all add: lock_addr_def OTP_region_st_addr_def)
qed

text \<open>The lock bytes can be written unless the permission region is write-locked.\<close>

lemma lock_byte_writable:
  assumes "n < MAX_REGION"
  shows "range_ok m (lock_addr n lk) 1 WRITE_LOCKED \<longleftrightarrow> \<not> bit (m (lock_addr RW_PERMISSION_REGION WRITE_LOCKED)) RW_PERMISSION_REGION"
proof -
  have n: "n div 8 < 3" using assms by (simp add: MAX_REGION_def)
  have u: "unat (lock_addr n lk) = 0x1A0000 + (case lk of READ_LOCKED \<Rightarrow> 48 | WRITE_LOCKED \<Rightarrow> 51) + n div 8"
    by (rule unat_lock_addr [OF assms])
  then have u1: "unat (lock_addr n lk + 1) = unat (lock_addr n lk) + 1"
    using unat_addr_offset [of "lock_addr n lk" 1] n by (simp split: otp_lock.splits)
  have reg: "address_to_region_num_map (lock_addr n lk) = 2" "address_to_region_num_map (lock_addr n lk + 1) = 2"
    using u u1 n by (auto intro!: permission_region simp: word_le_nat_alt word_less_nat_alt split: otp_lock.splits)
  have otp: "RRAM_OTP_ADD_CHECK (lock_addr n lk)" "RRAM_OTP_ADD_CHECK (lock_addr n lk + 1)"
    using u u1 n by (auto simp: RRAM_OTP_ADD_CHECK_def OTP_region_st_addr_def OTP_region_end_addr_def word_le_nat_alt split: otp_lock.splits)
  have g: "snd (g_otp_region_lock_map ! 2) = 2" "length g_otp_region_lock_map = 20" by (simp_all add: g_otp_region_lock_map_def)
  show ?thesis
    unfolding range_ok_def rram_address_range_check.simps(2) [of "Suc 0"] check_otp_region_rw_permission_def
    using otp reg g by (simp add: Let_def locked_returns regions_unlocked_total [OF refl] RW_PERMISSION_REGION_def EINVAL_def MAX_REGION_def
        del: rram_address_range_check.simps)
qed

lemma write_byte:
  assumes "range_ok (bh_mem h) a 1 WRITE_LOCKED" and "length blk = 16" and "unat a + 1 < 2 ^ 32"
  shows "\<exists>st h'. nt_bl_rram_write dev blk a (Src_buf [b]) 1 h = Some (st, h') \<and> (st = 0 \<or> st = - EBADE)
    \<and> (recovers dev (unat a div 16 * 16) (unat a div 16 * 16 + 16) \<longrightarrow> st = 0) \<and> (st = 0 \<longrightarrow> bh_mem h' = (bh_mem h)(a := b))"
  using rram_write_mem [of a 1 "Src_buf [b]" blk h dev] assms by auto

text \<open>The whole behaviour of a lock, whatever the controller does.\<close>

lemma region_lock_mem:
  assumes "n < MAX_REGION" and "length blk = 16" and "a = lock_addr n lk"
  shows "\<exists>st h'. nt_otp_region_lock dev blk n lk h = Some (st, h')
    \<and> (if bit (bh_mem h (lock_addr RW_PERMISSION_REGION WRITE_LOCKED)) RW_PERMISSION_REGION then st = - EPERM \<and> h' = h
       else (st = 0 \<or> st = - EIO) \<and> (recovers dev 0x1A0030 0x1A0040 \<longrightarrow> st = 0)
         \<and> (st = 0 \<longrightarrow> bh_mem h' = (bh_mem h)(a := bh_mem h a OR push_bit (n mod 8) 1)))"
proof (cases "bit (bh_mem h (lock_addr RW_PERMISSION_REGION WRITE_LOCKED)) RW_PERMISSION_REGION")
  case True
  then show ?thesis
    using assms(1) by (simp add: nt_otp_region_lock_def locked_returns RW_PERMISSION_REGION_def MAX_REGION_def del: rram_address_range_check.simps)
next
  case perm: False
  let ?b = "bh_mem h a"
  have u: "unat a \<ge> 0x1A0030" "unat a < 0x1A0040"
    using assms(1) unat_lock_addr [OF assms(1), of lk] by (auto simp: assms(3) MAX_REGION_def split: otp_lock.splits)
  then have blk16: "unat a div 16 * 16 = 0x1A0030" by presburger
  have w: "range_ok (bh_mem h) a 1 WRITE_LOCKED" unfolding assms(3) lock_byte_writable [OF assms(1)] by (fact perm)
  have rd: "bl_read_byte a 0 (bh_mem h) = (0, ?b)" unfolding assms(3) by (rule lock_byte_readable [OF assms(1)])
  have l: "region_locked (bh_mem h) RW_PERMISSION_REGION WRITE_LOCKED = Some 0"
    using perm by (simp add: locked_returns RW_PERMISSION_REGION_def MAX_REGION_def del: rram_address_range_check.simps)
  have already: "drop_bit (n mod 8) ?b AND 1 \<noteq> 0 \<longleftrightarrow> bit ?b (n mod 8)"
    by (simp add: bit_iff_odd_drop_bit odd_iff_mod_2_eq_one and_one_eq)
  have step: "nt_otp_region_lock dev blk n lk h =
      (if bit ?b (n mod 8) then Some (0, h)
       else do {
         (st, h) \<leftarrow> nt_bl_rram_write dev blk a (Src_buf [?b OR push_bit (n mod 8) 1]) 1 h;
         Some (if st \<noteq> 0 then - EIO else 0, h)
       })"
    using assms(1) unfolding nt_otp_region_lock_def assms(3) [symmetric] l rd by (simp only: Option.bind.simps prod.case already) simp
  show ?thesis
  proof (cases "bit ?b (n mod 8)")
    case True
    then have "?b OR push_bit (n mod 8) 1 = ?b" by (auto intro!: bit_eqI simp: bit_simps)
    then show ?thesis using step True perm by simp
  next
    case False
    obtain st h' where "nt_bl_rram_write dev blk a (Src_buf [?b OR push_bit (n mod 8) 1]) 1 h = Some (st, h')"
      "st = 0 \<or> st = - EBADE" "recovers dev 0x1A0030 0x1A0040 \<longrightarrow> st = 0" "st = 0 \<longrightarrow> bh_mem h' = (bh_mem h)(a := ?b OR push_bit (n mod 8) 1)"
      using write_byte [OF w assms(2), of dev "?b OR push_bit (n mod 8) 1"] u by (auto simp: blk16)
    then show ?thesis using step False perm by (auto simp: EIO_def)
  qed
qed

text \<open>Setting one lock bit leaves the other locks alone.\<close>

lemma locked_after:
  assumes "n < MAX_REGION" and "k < MAX_REGION" and "a = lock_addr n lk"
  shows "region_locked (m(a := m a OR push_bit (n mod 8) 1)) k lk' =
    (if k = n \<and> lk' = lk then Some 1 else region_locked m k lk')"
proof -
  have inj: "lock_addr k lk' = a \<longleftrightarrow> lk' = lk \<and> k div 8 = n div 8"
    unfolding word_unat_eq_iff assms(3) unat_lock_addr [OF assms(1)] unat_lock_addr [OF assms(2)]
    using assms(1,2) by (cases lk; cases lk') (auto simp: MAX_REGION_def)
  have same: "k = n" if "k div 8 = n div 8" "k mod 8 = n mod 8" using that by (metis div_mult_mod_eq)
  have "bit (push_bit (n mod 8) 1 :: u8) (k mod 8) \<longleftrightarrow> k mod 8 = n mod 8" by (auto simp: bit_simps)
  then show ?thesis
    using assms(1,2) inj same by (auto simp: locked_returns bit_or_iff simp del: rram_address_range_check.simps)
qed

text \<open>C26: Locking a region of the OTP area, with any controller: when the permission region is
  itself write-locked the call is refused and nothing changes; otherwise it succeeds or
  reports an I/O error; and after a success the region is locked in the requested direction
  while the lock of every other region and of the other direction is as before.\<close>

theorem otp_region_lock_roundtrip:
  assumes "n < MAX_REGION" and "length blk = 16"
  shows "\<exists>st h'. nt_otp_region_lock dev blk n lk h = Some (st, h')
    \<and> (if region_locked (bh_mem h) RW_PERMISSION_REGION WRITE_LOCKED = Some 1 then st = - EPERM \<and> h' = h else st = 0 \<or> st = - EIO)
    \<and> (st = 0 \<longrightarrow> (\<forall>k < MAX_REGION. \<forall>lk'.
         region_locked (bh_mem h') k lk' = (if k = n \<and> lk' = lk then Some 1 else region_locked (bh_mem h) k lk')))"
proof -
  have "region_locked (bh_mem h) RW_PERMISSION_REGION WRITE_LOCKED = Some 1 \<longleftrightarrow>
      bit (bh_mem h (lock_addr RW_PERMISSION_REGION WRITE_LOCKED)) RW_PERMISSION_REGION"
    by (simp add: locked_returns RW_PERMISSION_REGION_def MAX_REGION_def del: rram_address_range_check.simps)
  with region_lock_mem [OF assms refl, of dev lk h] show ?thesis
    using locked_after [OF assms(1)] by (auto simp: EPERM_def split: if_splits simp del: rram_address_range_check.simps)
qed

theorem otp_region_lock_roundtrip_witness:
  "\<exists>h'. nt_otp_region_lock flaky_dev (replicate 16 0) 9 READ_LOCKED (calm_hw (\<lambda>_. 0)) = Some (0, h')
    \<and> region_locked (bh_mem h') 9 READ_LOCKED = Some 1 \<and> region_locked (bh_mem h') 9 WRITE_LOCKED = Some 0"
proof -
  let ?h = "calm_hw (\<lambda>_. 0)"
  have n: "9 < MAX_REGION" "length (replicate 16 (0 :: u8)) = 16" by (simp_all add: MAX_REGION_def)
  obtain h' where l: "nt_otp_region_lock flaky_dev (replicate 16 0) 9 READ_LOCKED ?h = Some (0, h')"
    using region_lock_mem [OF n refl, of flaky_dev READ_LOCKED ?h] flaky_recovers by (auto simp: calm_hw_def)
  then have r: "region_locked (bh_mem h') 9 lk = (if lk = READ_LOCKED then Some 1 else region_locked (bh_mem ?h) 9 lk)" for lk
    using otp_region_lock_roundtrip [OF n, of flaky_dev READ_LOCKED ?h] n(1) by auto
  have "region_locked (bh_mem ?h) 9 WRITE_LOCKED = Some 0"
    using n(1) by (simp add: locked_returns calm_hw_def del: rram_address_range_check.simps)
  then show ?thesis using l r [of READ_LOCKED] r [of WRITE_LOCKED] by (simp del: rram_address_range_check.simps)
qed

section \<open>The serial number\<close>

lemma pte_region: "0x1A0000 \<le> a \<Longrightarrow> a < 0x1A0020 \<Longrightarrow> address_to_region_num_map a = 0"
  by (simp add: address_to_region_num_map_def g_otp_region_lock_map_def OTP_region_st_addr_def Let_def)

lemma pte_range:
  assumes "0x1A0000 \<le> unat a" and "unat a + unat n < 0x1A0020"
  shows "range_ok m a n lk \<longleftrightarrow> \<not> bit (m (lock_addr 0 lk)) 0"
proof -
  have an: "unat (a + n) = unat a + unat n" using assms(2) by (simp add: unat_word_ariths)
  have "unat (ucast (ucast n :: u16) :: u32) = unat n" using assms by (simp add: unat_narrow_u16)
  then have cast: "ucast (ucast n :: u16) = n" by (simp only: word_unat_eq_iff)
  have reg: "address_to_region_num_map a = 0" "address_to_region_num_map (a + n) = 0"
    using assms an by (auto intro!: pte_region simp: word_le_nat_alt word_less_nat_alt)
  have otp: "RRAM_OTP_ADD_CHECK a" "RRAM_OTP_ADD_CHECK (a + n)"
    using assms an by (auto simp: RRAM_OTP_ADD_CHECK_def OTP_region_st_addr_def OTP_region_end_addr_def word_le_nat_alt)
  have g: "snd (g_otp_region_lock_map ! 0) = 0" "length g_otp_region_lock_map = 20" by (simp_all add: g_otp_region_lock_map_def)
  show ?thesis
    unfolding range_ok_def rram_address_range_check.simps(2) [of "Suc 0"] check_otp_region_rw_permission_def cast
    using otp reg g by (simp add: Let_def locked_returns regions_unlocked_total [OF refl] RW_PERMISSION_REGION_def EINVAL_def MAX_REGION_def
        del: rram_address_range_check.simps)
qed

text \<open>Once the region is write-locked the check does nothing any more.\<close>

lemma serial_check_locked:
  assumes "region_locked (bh_mem h) PTE_REGION WRITE_LOCKED = Some 1"
  shows "nt_serial_number_check dev blk rng_init rng h = Some (0, h)"
  using assms by (simp add: nt_serial_number_check_def Let_def del: rram_address_range_check.simps)

lemma pte_locked_iff: "region_locked m PTE_REGION lk = Some (if bit (m (lock_addr 0 lk)) 0 then 1 else 0)"
  by (simp add: locked_returns PTE_REGION_def MAX_REGION_def del: rram_address_range_check.simps)

lemma draw_serial_length: "draw_serial rng = Some sn \<Longrightarrow> length sn = 6"
  by (auto simp: draw_serial_def le_bytes32_def)

lemmas otp_addr_defs = serial_num_addr_def serial_updated_addr_def OTP_region_st_addr_def

lemma lock_addrs:
  "lock_addr 0 READ_LOCKED = 0x1A0030" "lock_addr 0 WRITE_LOCKED = 0x1A0033" "lock_addr RW_PERMISSION_REGION WRITE_LOCKED = 0x1A0033"
  by (simp_all add: lock_addr_def OTP_region_st_addr_def RW_PERMISSION_REGION_def)

text \<open>The marker and the lock, after the serial number was written or not.\<close>

lemma serial_seal:
  assumes "length blk = 16" and "recovers dev 0x1A0010 0x1A0040" and "\<not> bit (bh_mem h 0x1A0033) 0" and "\<not> bit (bh_mem h 0x1A0033) 2"
  shows "\<exists>h1 h'. nt_bl_rram_write dev blk serial_updated_addr (Src_buf [SERIAL_MARKER]) 1 h = Some (0, h1)
    \<and> nt_otp_region_lock dev blk PTE_REGION WRITE_LOCKED h1 = Some (0, h')
    \<and> bh_mem h' = (bh_mem h)(serial_updated_addr := SERIAL_MARKER, 0x1A0033 := bh_mem h 0x1A0033 OR 1)"
proof -
  have "range_ok (bh_mem h) serial_updated_addr 1 WRITE_LOCKED"
    using pte_range [of serial_updated_addr 1 "bh_mem h" WRITE_LOCKED] assms(3) by (simp add: otp_addr_defs lock_addrs)
  moreover have "recovers dev 0x1A0010 0x1A0020" "recovers dev 0x1A0030 0x1A0040" using assms(2) by (auto elim: recovers_sub)
  ultimately obtain h1 where h1: "nt_bl_rram_write dev blk serial_updated_addr (Src_buf [SERIAL_MARKER]) 1 h = Some (0, h1)"
    "bh_mem h1 = (bh_mem h)(serial_updated_addr := SERIAL_MARKER)"
    using write_byte [of h serial_updated_addr blk dev SERIAL_MARKER] assms(1) by (auto simp: otp_addr_defs)
  have "bh_mem h1 0x1A0033 = bh_mem h 0x1A0033" by (simp add: h1(2) otp_addr_defs)
  then have "\<exists>h'. nt_otp_region_lock dev blk PTE_REGION WRITE_LOCKED h1 = Some (0, h') \<and> bh_mem h' = (bh_mem h1)(0x1A0033 := bh_mem h1 0x1A0033 OR 1)"
    using region_lock_mem [of PTE_REGION blk "0x1A0033" WRITE_LOCKED dev h1] assms(1,4) \<open>recovers dev 0x1A0030 0x1A0040\<close>
    by (auto simp: lock_addrs PTE_REGION_def MAX_REGION_def RW_PERMISSION_REGION_def lock_addr_def OTP_region_st_addr_def)
  then show ?thesis using h1 \<open>bh_mem h1 0x1A0033 = bh_mem h 0x1A0033\<close> by auto
qed

text \<open>Writing the serial number with a controller that works in the end.\<close>

lemma serial_write_mem:
  assumes "length blk = 16" and "recovers dev 0x1A0000 0x1A0040" and "draw_serial rng = Some sn"
    and "\<not> bit (bh_mem h 0x1A0033) 0" and "\<not> bit (bh_mem h 0x1A0033) 2"
  shows "\<exists>h'. nt_serial_number_write dev blk 0 rng h = Some (0, h')
    \<and> bh_mem h' = (mem_write (bh_mem h) serial_num_addr sn)(serial_updated_addr := SERIAL_MARKER, 0x1A0033 := bh_mem h 0x1A0033 OR 1)"
proof -
  have sn: "length sn = 6" by (rule draw_serial_length [OF assms(3)])
  have "range_ok (bh_mem h) serial_num_addr 6 WRITE_LOCKED"
    using pte_range [of serial_num_addr 6 "bh_mem h" WRITE_LOCKED] assms(4) by (simp add: otp_addr_defs lock_addrs)
  moreover have "recovers dev 0x1A0000 0x1A0010" "recovers dev 0x1A0010 0x1A0040" using assms(2) by (auto elim: recovers_sub)
  ultimately obtain h1 where h1: "nt_bl_rram_write dev blk serial_num_addr (Src_buf sn) 6 h = Some (0, h1)"
    "bh_mem h1 = mem_write (bh_mem h) serial_num_addr sn"
    using rram_write_mem [of serial_num_addr 6 "Src_buf sn" blk h dev] assms(1) sn by (auto simp: otp_addr_defs)
  have same: "bh_mem h1 0x1A0033 = bh_mem h 0x1A0033"
    unfolding h1(2) by (rule mem_write_frame) (simp_all add: sn otp_addr_defs)
  have "\<exists>h2 h'. nt_bl_rram_write dev blk serial_updated_addr (Src_buf [SERIAL_MARKER]) 1 h1 = Some (0, h2)
    \<and> nt_otp_region_lock dev blk PTE_REGION WRITE_LOCKED h2 = Some (0, h')
    \<and> bh_mem h' = (bh_mem h1)(serial_updated_addr := SERIAL_MARKER, 0x1A0033 := bh_mem h1 0x1A0033 OR 1)"
    using \<open>recovers dev 0x1A0010 0x1A0040\<close> assms(1,4,5) same by (intro serial_seal) simp_all
  then show ?thesis using assms(3) h1 same by (auto simp: nt_serial_number_write_def)
qed

text \<open>C27: A device without a serial number gets one: with the region readable and writable, no
  marker, a random generator that yields a number within three draws and a controller that
  recovers within the retries, the check stores exactly the drawn number, the marker and the
  write lock, and asks for a reset. From then on the check, with any generator and any
  controller, does nothing, and every write into the region is refused.\<close>

theorem serial_number_provisioned:
  assumes "length blk = 16" and "recovers dev 0x1A0000 0x1A0040" and "draw_serial rng = Some sn"
    and "\<not> bit (bh_mem h 0x1A0033) 0" and "\<not> bit (bh_mem h 0x1A0033) 2" and "\<not> bit (bh_mem h 0x1A0030) 0"
    and "bh_mem h serial_updated_addr \<noteq> SERIAL_MARKER"
  shows "\<exists>h'. nt_serial_number_check dev blk 0 rng h = Some (EPERM, h')
    \<and> bh_mem h' = (mem_write (bh_mem h) serial_num_addr sn)(serial_updated_addr := SERIAL_MARKER, 0x1A0033 := bh_mem h 0x1A0033 OR 1)
    \<and> (\<forall>dev' blk' init' rng'. nt_serial_number_check dev' blk' init' rng' h' = Some (0, h'))
    \<and> (\<forall>a n. 0x1A0000 \<le> unat a \<longrightarrow> unat a + unat n < 0x1A0020 \<longrightarrow> \<not> range_ok (bh_mem h') a n WRITE_LOCKED)"
proof -
  obtain h' where h': "nt_serial_number_write dev blk 0 rng h = Some (0, h')"
    "bh_mem h' = (mem_write (bh_mem h) serial_num_addr sn)(serial_updated_addr := SERIAL_MARKER, 0x1A0033 := bh_mem h 0x1A0033 OR 1)"
    using serial_write_mem [OF assms(1-5)] by blast
  have "range_ok (bh_mem h) serial_updated_addr 1 READ_LOCKED"
    using pte_range [of serial_updated_addr 1 "bh_mem h" READ_LOCKED] assms(6) by (simp add: otp_addr_defs lock_addrs)
  then have "snd (bl_read_byte serial_updated_addr 0 (bh_mem h)) \<noteq> SERIAL_MARKER" using assms(7) by (simp add: read_byte_main)
  then have "nt_serial_number_check dev blk 0 rng h = Some (EPERM, h')"
    using assms(4) h'(1) by (simp add: nt_serial_number_check_def Let_def pte_locked_iff lock_addrs del: rram_address_range_check.simps)
  moreover have lock: "bit (bh_mem h' (lock_addr 0 WRITE_LOCKED)) 0" by (simp add: h'(2) lock_addrs bit_simps)
  moreover have "nt_serial_number_check dev' blk' init' rng' h' = Some (0, h')" for dev' blk' init' rng'
    by (rule serial_check_locked) (simp add: pte_locked_iff lock del: rram_address_range_check.simps)
  ultimately show ?thesis using h'(2) by (auto simp: pte_range)
qed

theorem serial_number_provisioned_witness:
  "\<exists>h'. nt_serial_number_check flaky_dev (replicate 16 0) 0 (\<lambda>k. if k < 2 then 0 else 0xABCD) (calm_hw (\<lambda>_. 0)) = Some (EPERM, h')
    \<and> mem_read (bh_mem h') serial_num_addr 6 = [0xCD, 0xAB, 0, 0, 0xCD, 0xAB]"
proof -
  have sn: "draw_serial (\<lambda>k. if k < 2 then 0 else 0xABCD) = Some [0xCD, 0xAB, 0, 0, 0xCD, 0xAB]"
    by (simp add: draw_serial_def le_bytes32_def)
  show ?thesis
    using serial_number_provisioned [OF _ flaky_recovers sn, of "replicate 16 0" "calm_hw (\<lambda>_. 0)"]
    by (auto simp: calm_hw_def SERIAL_MARKER_def mem_read_def upt_rec otp_addr_defs)
qed

section \<open>A serial number that is lost\<close>

text \<open>A word whose cells keep their content, whatever the controller does.\<close>

definition word_stuck :: "rram_dev \<Rightarrow> addr \<Rightarrow> bool" where
  "word_stuck dev a \<longleftrightarrow> (\<forall>t old v. rv_wr dev t a old v = old)"

lemma stuck_attempt:
  assumes "word_stuck dev a" and "b = a \<or> apart a 4 b 4" and "rram_attempt dev b v h = (ok, h')"
  shows "word_at (bh_mem h') a = word_at (bh_mem h) a"
proof (cases "b = a")
  case True
  have "mem_write m a (le_bytes32 (word_at m a)) = m" for m
    by (simp add: word_at_def le_bytes32_le32 mem_write_same)
  then have w: "bh_mem (word_wr dev a v g) = bh_mem g" for g using assms(1) by (simp add: word_wr_def word_stuck_def)
  have "bh_mem h' = bh_mem h"
    using assms(3) w bh_mem_xip bh_mem_unreliable unfolding True
    by (fastforce simp: rram_attempt_def Let_def split: prod.splits if_splits)
  then show ?thesis by simp
next
  case False
  obtain w where "bh_mem h' = mem_write (bh_mem h) b (le_bytes32 w)" using attempt_mem [OF assms(3)] by blast
  moreover have "apart a 4 b (length (le_bytes32 w))" using assms(2) False by (simp add: le_bytes32_def eval_nat_numeral)
  ultimately show ?thesis by (simp only: word_at_def mem_read_write_apart)
qed

lemma stuck_word:
  assumes "word_stuck dev a" and "b = a \<or> apart a 4 b 4" and "rram_write_status dev b v h = (st, h')"
  shows "word_at (bh_mem h') a = word_at (bh_mem h) a"
proof -
  have "word_at (bh_mem (snd (rram_retry dev n b v h))) a = word_at (bh_mem h) a" for n
  proof (induction n arbitrary: h)
    case (Suc n)
    obtain ok g where g: "rram_attempt dev b v h = (ok, g)" by (cases "rram_attempt dev b v h")
    show ?case using Suc.IH [of g] stuck_attempt [OF assms(1,2) g] by (simp add: g)
  qed simp
  from this [of NT_RRAM_NRETRIES] show ?thesis using assms(3) by (simp add: rram_write_status_def)
qed

lemma stuck_words:
  assumes "word_stuck dev a" and "\<forall>w \<in> set ws. c + of_nat (4 * w) = a \<or> apart a 4 (c + of_nat (4 * w)) 4"
    and "write_words dev c blk ws h = (st, h')"
  shows "word_at (bh_mem h') a = word_at (bh_mem h) a"
  using assms(2,3)
proof (induction ws arbitrary: h)
  case (Cons w ws)
  obtain st1 g where g: "rram_write_status dev (c + of_nat (4 * w)) (le32 (drop (4 * w) blk)) h = (st1, g)"
    by (cases "rram_write_status dev (c + of_nat (4 * w)) (le32 (drop (4 * w) blk)) h")
  have "word_at (bh_mem g) a = word_at (bh_mem h) a" using stuck_word [OF assms(1) _ g] Cons.prems(1) by simp
  then show ?case using Cons.IH [of g] Cons.prems g by (auto split: if_splits)
qed simp

text \<open>The serial number lies in the first block of the region, in its second and third word.\<close>

lemma stuck_serial_write:
  assumes "word_stuck dev a" and "a = 0x1A0004 \<or> a = 0x1A0008"
    and "nt_bl_rram_write dev blk serial_num_addr src 6 h = Some (st, h')"
  shows "word_at (bh_mem h') a = word_at (bh_mem h) a"
proof (cases "range_ok (bh_mem h) serial_num_addr 6 WRITE_LOCKED")
  case True
  have "write_range dev 0x1A0000 0x1A0000 4 src 6 blk h = Some (st, h')"
    using assms(3) True by (simp add: nt_bl_rram_write_def RRAM_BLOCK_LEN_def otp_addr_defs)
  then obtain blk' where "write_words dev 0x1A0000 blk' [0, 1, 2, 3] h = (st, h')"
    by (subst (asm) write_range.simps) (auto simp: RRAM_BLOCK_LEN_def write_range.simps [of _ "0x1A0010"] simp del: write_words.simps
        split: prod.splits if_splits)
  then show ?thesis
    by (rule stuck_words [OF assms(1), rotated]) (use assms(2) in \<open>auto simp: apart_def\<close>)
next
  case False
  then show ?thesis using assms(3) by (simp add: nt_bl_rram_write_def)
qed

lemma serial_needs_word:
  assumes "length sn = 6" and "a = 0x1A0004 \<or> a = 0x1A0008" and "word_at m' a = word_at m a" and "mem_read m' serial_num_addr 6 = sn"
  shows "word_at (mem_write m serial_num_addr sn) a = word_at m a"
proof -
  have "mem_read m' a 4 = mem_read m a 4"
    using arg_cong [OF assms(3), of le_bytes32] unfolding word_at_def by (simp only: le_bytes32_le32 length_mem_read)
  moreover obtain b0 b1 b2 b3 b4 b5 where s: "sn = [b0, b1, b2, b3, b4, b5]"
    using assms(1) by (auto simp: length_Suc_conv eval_nat_numeral)
  ultimately have "mem_read (mem_write m serial_num_addr sn) a 4 = mem_read m a 4"
    using assms(2,4) unfolding s otp_addr_defs by (elim disjE) (simp_all add: mem_read_def upt_rec)
  then show ?thesis by (simp add: word_at_def)
qed

text \<open>C28: The result of writing the serial number is not checked. On a device of which one word of
  the serial number is defective and keeps its content, whatever the drawn number and the
  contents of the OTP area (region writable, the number needs the word to change, the other
  blocks work in the end): the write fails and the device does not hold the number, and yet
  the marker is set, the region is write-locked for good and the call reports success. From
  then on the check, with any controller, reports success and changes nothing.\<close>

theorem serial_number_lost:
  assumes "length blk = 16" and "recovers dev 0x1A0010 0x1A0040" and "draw_serial rng = Some sn"
    and "\<not> bit (bh_mem h 0x1A0033) 0" and "\<not> bit (bh_mem h 0x1A0033) 2"
    and "word_stuck dev a" and "a = 0x1A0004 \<or> a = 0x1A0008"
    and "word_at (mem_write (bh_mem h) serial_num_addr sn) a \<noteq> word_at (bh_mem h) a"
  shows "\<exists>h1 h'. nt_bl_rram_write dev blk serial_num_addr (Src_buf sn) 6 h = Some (- EBADE, h1)
    \<and> nt_serial_number_write dev blk 0 rng h = Some (0, h')
    \<and> mem_read (bh_mem h') serial_num_addr 6 \<noteq> sn
    \<and> bh_mem h' serial_updated_addr = SERIAL_MARKER
    \<and> region_locked (bh_mem h') PTE_REGION WRITE_LOCKED = Some 1
    \<and> (\<forall>dev blk init rng. nt_serial_number_check dev blk init rng h' = Some (0, h'))"
proof -
  have sn: "length sn = 6" by (rule draw_serial_length [OF assms(3)])
  have r: "range_ok (bh_mem h) serial_num_addr 6 WRITE_LOCKED"
    using pte_range [of serial_num_addr 6 "bh_mem h" WRITE_LOCKED] assms(4) by (simp add: otp_addr_defs lock_addrs)
  obtain st h1 where h1: "nt_bl_rram_write dev blk serial_num_addr (Src_buf sn) 6 h = Some (st, h1)" "st = 0 \<or> st = - EBADE"
    "st = 0 \<Longrightarrow> bh_mem h1 = mem_write (bh_mem h) serial_num_addr sn"
    "\<forall>p. unat p < 0x1A0000 \<or> 0x1A0010 \<le> unat p \<longrightarrow> bh_mem h1 p = bh_mem h p"
    using rram_write_mem [of serial_num_addr 6 "Src_buf sn" blk h dev] assms(1) sn r by (auto simp: otp_addr_defs)
  note keep = stuck_serial_write [OF assms(6,7) h1(1)]
  then have st: "st = - EBADE" using h1(2,3) assms(8) by auto
  have same: "bh_mem h1 0x1A0033 = bh_mem h 0x1A0033" using h1(4) by simp
  obtain h2 h' where seal: "nt_bl_rram_write dev blk serial_updated_addr (Src_buf [SERIAL_MARKER]) 1 h1 = Some (0, h2)"
    "nt_otp_region_lock dev blk PTE_REGION WRITE_LOCKED h2 = Some (0, h')"
    "bh_mem h' = (bh_mem h1)(serial_updated_addr := SERIAL_MARKER, 0x1A0033 := bh_mem h1 0x1A0033 OR 1)"
    using serial_seal [OF assms(1,2), of h1] assms(4,5) same by auto
  have "word_at (bh_mem h') a = word_at (bh_mem h1) a"
    using assms(7) by (auto simp: seal(3) word_at_def mem_read_def upt_rec otp_addr_defs)
  then have "mem_read (bh_mem h') serial_num_addr 6 \<noteq> sn"
    using serial_needs_word [OF sn assms(7), of "bh_mem h'" "bh_mem h"] keep assms(8) by auto
  moreover have "nt_serial_number_write dev blk 0 rng h = Some (0, h')"
    by (simp add: nt_serial_number_write_def assms(3) h1(1) seal(1,2))
  moreover have l: "region_locked (bh_mem h') PTE_REGION WRITE_LOCKED = Some 1"
    by (simp add: pte_locked_iff seal(3) lock_addrs bit_simps del: rram_address_range_check.simps)
  moreover have "bh_mem h' serial_updated_addr = SERIAL_MARKER" by (simp add: seal(3) otp_addr_defs)
  ultimately show ?thesis using serial_check_locked [OF l] h1(1) st by blast
qed

text \<open>A controller with one such word, that of the first four bytes of the number.\<close>

definition stuck_dev :: rram_dev where
  "stuck_dev = \<lparr>rv_reg = \<lambda>t r v. if r = QWLAN_RRAM_CTRL_RRAM_ERROR_CNT_REG then v else 0,
                rv_wr = \<lambda>t a old v. if a = 0x1A0004 then old else v\<rparr>"

lemma stuck_recovers: "0x1A0004 < lo \<Longrightarrow> recovers stuck_dev lo hi"
proof -
  have ok: "a \<noteq> 0x1A0004 \<Longrightarrow> fst (rram_attempt stuck_dev a v h)" for a v h
    by (simp add: attempt_defs stuck_dev_def Let_def)
  show "0x1A0004 < lo \<Longrightarrow> recovers stuck_dev lo hi"
    unfolding recovers_def recovers_at_def by (auto intro!: exI [of _ 0] ok simp: NT_RRAM_NRETRIES_def)
qed

theorem serial_number_lost_witness:
  "\<exists>h'. nt_serial_number_write stuck_dev (replicate 16 0) 0 (\<lambda>_. 1) (calm_hw (\<lambda>_. 0)) = Some (0, h')
    \<and> mem_read (bh_mem h') serial_num_addr 6 \<noteq> [1, 0, 0, 0, 1, 0] \<and> bh_mem h' serial_updated_addr = SERIAL_MARKER"
proof -
  have sn: "draw_serial (\<lambda>_. 1) = Some [1, 0, 0, 0, 1, 0]" by (simp add: draw_serial_def le_bytes32_def)
  have "word_at (mem_write (\<lambda>_. 0) serial_num_addr [1, 0, 0, 0, 1, 0]) 0x1A0004 \<noteq> word_at (\<lambda>_. 0) 0x1A0004"
    by (simp add: word_at_def mem_read_def upt_rec otp_addr_defs)
  then show ?thesis
    using serial_number_lost [OF _ stuck_recovers sn, of "replicate 16 0" "calm_hw (\<lambda>_. 0)" "0x1A0004"]
    by (auto simp: calm_hw_def word_stuck_def stuck_dev_def)
qed

section \<open>Flags\<close>

text \<open>The boot method is never reported: the masked byte is compared with \<open>true\<close>, and only the
  flag in bit 0 can equal it.\<close>

lemma firmware_flag_lost:
  assumes "0 < flag" and "flag < 8"
  shows "nt_otp_firware_reg_status flag m = Some False"
proof -
  have "b AND push_bit flag 1 \<noteq> 1" for b :: u8
  proof
    assume "b AND push_bit flag 1 = 1"
    then have "bit (b AND push_bit flag 1) 0" by simp
    then show False using assms by (simp add: bit_simps)
  qed
  then show ?thesis
    by (simp add: nt_otp_firware_reg_status_def locked_returns FIRMWARE_REGION_def MAX_REGION_def del: rram_address_range_check.simps)
qed

lemma img_mode_update_mem:
  assumes "flag < MAX_UPD_MODE" and "length blk = 16" and "recovers dev 0x2043F0 0x204400"
  shows "\<exists>h'. nt_img_mode_update_flag dev blk flag h = Some (0, h')
    \<and> bh_mem h' = (bh_mem h)(IMAGE_UPDATE_STATUS_MODE_ADD := bh_mem h IMAGE_UPDATE_STATUS_MODE_ADD OR push_bit flag 1)"
proof -
  have r: "range_ok (bh_mem h) IMAGE_UPDATE_STATUS_MODE_ADD 1 lk" for lk
    by (rule write_ok_main) (simp_all add: IMAGE_UPDATE_STATUS_MODE_ADD_def)
  then obtain h' where "nt_bl_rram_write dev blk IMAGE_UPDATE_STATUS_MODE_ADD (Src_buf [bh_mem h IMAGE_UPDATE_STATUS_MODE_ADD OR push_bit flag 1]) 1 h = Some (0, h')"
    "bh_mem h' = (bh_mem h)(IMAGE_UPDATE_STATUS_MODE_ADD := bh_mem h IMAGE_UPDATE_STATUS_MODE_ADD OR push_bit flag 1)"
    using write_byte [OF r assms(2), of dev "bh_mem h IMAGE_UPDATE_STATUS_MODE_ADD OR push_bit flag 1"] assms(3)
    by (auto simp: IMAGE_UPDATE_STATUS_MODE_ADD_def)
  then show ?thesis using assms(1) by (simp add: nt_img_mode_update_flag_def read_byte_main [OF r] Let_def)
qed

end
