(* ===== verification/Nvm_Rram_Correct.thy ===== *)
theory Nvm_Rram_Correct
  imports Nvm_Rram
begin

text \<open>
  The programmer's RRAM writer refines the boot loader's: whenever the boot loader's block
  routines succeed on a memory, the programmer's do the same to it, with the registers of
  the engine programmed so that the transfer is a copy. The exactness of writes and of the
  erase follow.
\<close>

section \<open>The engine\<close>

text \<open>The documented behaviour of the engine: started with the 32-bit legacy mode off, 128-bit
  writes not disabled, the engine enabled, the chunk size of the channel set, the upper half
  of the descriptor address zero and the channel's control word for such writes, a valid
  descriptor for whole aligned blocks copies its source to its destination; every transfer is
  reported done at some time.\<close>

definition engine_ready :: "reg_file \<Rightarrow> bool" where
  "engine_ready r \<longleftrightarrow> r QWLAN_PMU_DIG_TOP_CFG_REG AND RRAM_32_BIT_LEGACY_WR_MODE_MASK = 0
     \<and> r QWLAN_DXE_0_DMA_CSR_REG AND DIS_RRAM_128BIT_MASK = 0 \<and> r QWLAN_DXE_0_DMA_CSR_REG AND 1 = 1
     \<and> r (DxeChannel_BaseAddr + (QWLAN_DXE_0_CH0_SZ_REG - QWLAN_DXE_0_CH0_CTRL_REG)) AND push_bit CH0_SZ_CHK_SZ_OFFSET 4
         = push_bit CH0_SZ_CHK_SZ_OFFSET 4
     \<and> r (DxeChannel_BaseAddr + NT_DXE_CH_DESCH_REG) = 0 \<and> r DxeChannel_BaseAddr = 0xF80709"

definition dxe_copies :: "dxe \<Rightarrow> bool" where
  "dxe_copies dx \<longleftrightarrow> (\<forall>d r m. engine_ready r \<longrightarrow> dd_ctrl d AND NT_DXE_DESC_CTRL_VALID \<noteq> 0 \<longrightarrow> dd_phyNextL d = 0 \<longrightarrow>
     unat (dd_dstMemAddrL d) mod 16 = 0 \<longrightarrow> unat (dd_xfrSize d) mod 16 = 0 \<longrightarrow>
     dx_transfer dx d r m = mem_write m (dd_dstMemAddrL d) (src_bytes m (dd_srcMemAddrL d) (unat (dd_xfrSize d))))"

definition dxe_completes :: "dxe \<Rightarrow> bool" where
  "dxe_completes dx \<longleftrightarrow> (\<forall>d. \<exists>k. dx_status dx d k AND CH0_STATUS_DONE_MASK = CH0_STATUS_DONE_MASK)"

lemma wait_done_returns:
  assumes "dx_status dx d k AND CH0_STATUS_DONE_MASK = CH0_STATUS_DONE_MASK" and "j \<le> k" and "hw_xfer h = Some (d, regs)"
  shows "wait_done dx j h = Some (h\<lparr>hw_mem := dx_transfer dx d regs (hw_mem h), hw_xfer := None\<rparr>)"
  using assms(2)
proof (induction "k - j" arbitrary: j)
  case 0
  then have "j = k" by simp
  then show ?case using assms(1,3) by (subst wait_done.simps) (simp add: HW_STATUS_RD_def)
next
  case (Suc n)
  then have "wait_done dx (j + 1) h = Some (h\<lparr>hw_mem := dx_transfer dx d regs (hw_mem h), hw_xfer := None\<rparr>)" by simp
  then show ?case using assms(3) by (subst wait_done.simps) (simp add: HW_STATUS_RD_def)
qed

lemma reg_wr_mem [simp]: "hw_mem (HW_REG_WR r v h) = hw_mem h"
  by (simp add: HW_REG_WR_def Let_def)

lemma dxe_init_mem [simp]: "hw_mem (Nvm_Rram.rram_dxe_init h) = hw_mem h"
  by (simp add: Nvm_Rram.rram_dxe_init_def Let_def)

lemmas channel_regs = DxeChannel_BaseAddr_def QWLAN_PMU_DIG_TOP_CFG_REG_def QWLAN_DXE_0_DMA_CSR_REG_def QWLAN_DXE_0_CH0_CTRL_REG_def
  QWLAN_DXE_0_CH0_SZ_REG_def NT_DXE_CH_REG_SIZE_def DXE_CH_RRAM_WRITE_VIA_DXE_def NT_DXE_CH_DESCH_REG_def NT_DXE_CH_DESCL_REG_def

text \<open>Programming the channel makes the engine ready and starts it on the descriptor.\<close>

lemma engine_programmed: "engine_ready (hw_reg (program_channel a h))"
proof -
  have "(v AND NOT b OR c) AND b = c AND b" "(v OR b) AND b = b" for v b c :: u32
    by (rule bit_eqI, auto simp: bit_simps)+
  moreover have "RRAM_PD_MODE_DEFAULT AND RRAM_32_BIT_LEGACY_WR_MODE_MASK = 0"
    by (simp add: RRAM_32_BIT_LEGACY_WR_MODE_MASK_def RRAM_PD_MODE_DEFAULT_def)
  ultimately show ?thesis
    by (simp add: engine_ready_def program_channel_def Let_def HW_REG_WR_def HW_REG_RD_def channel_regs DIS_RRAM_128BIT_MASK_def)
qed

lemma program_channel_starts:
  "hw_xfer (program_channel a h) = Some (hw_desc h a, hw_reg (program_channel a h))" "hw_mem (program_channel a h) = hw_mem h"
  by (simp_all add: program_channel_def Let_def HW_REG_WR_def HW_REG_RD_def channel_regs)

section \<open>Refinement of the boot loader's writer\<close>

abbreviation copy :: dma where "copy \<equiv> (\<lambda>a bs m. mem_write m a bs)"

lemma copy_copies [simp]: "dma_copies copy"
  by (simp add: dma_copies_def)

text \<open>The call returns status 0 and leaves the memory \<open>m\<close>.\<close>

definition done_with :: "(int \<times> nvm_hw) option \<Rightarrow> memory \<Rightarrow> bool" where
  "done_with r m \<longleftrightarrow> (\<exists>h'. r = Some (0, h') \<and> hw_mem h' = m)"

lemma done_with_bind:
  assumes "done_with r m" and "\<And>h'. hw_mem h' = m \<Longrightarrow> done_with (f (0, h')) m'"
  shows "done_with (r \<bind> f) m'"
  using assms by (auto simp: done_with_def)

lemma block_write_refines:
  assumes "dxe_copies dx" and "dxe_completes dx" and "rram_block_write_dxe copy dst src n (hw_mem h) = (BL_ERR_NONE, m)"
  shows "done_with (rram_block_write dx dst src n h) m"
proof -
  have al: "unat dst mod 16 = 0" "unat n mod 16 = 0" and m: "m = mem_write (hw_mem h) dst (src_bytes (hw_mem h) src (unat n))"
    using assms(3) by (auto simp: rram_block_write_dxe_def low_bits_zero split: if_splits)
  let ?d = "write_desc dst src n"
  obtain k where "dx_status dx ?d k AND CH0_STATUS_DONE_MASK = CH0_STATUS_DONE_MASK"
    using assms(2) by (auto simp: dxe_completes_def)
  note k = this
  have d: "dd_ctrl ?d AND NT_DXE_DESC_CTRL_VALID \<noteq> 0" "dd_phyNextL ?d = 0" "dd_dstMemAddrL ?d = dst" "dd_xfrSize ?d = n" "dd_srcMemAddrL ?d = src"
    by (simp_all add: write_desc_def NT_DXE_DESC_CTRL_INT_def NT_DXE_DESC_CTRL_EOP_def NT_DXE_DESC_CTRL_XTYPE_H2H_def
        NT_DXE_DESC_CTRL_XTYPE_MASK_def NT_DXE_DESC_CTRL_VALID_def)
  define h1 where "h1 = program_channel (dx_desc_addr dx) (h\<lparr>hw_desc := (hw_desc h)(dx_desc_addr dx := ?d)\<rparr>)"
  have h1: "hw_xfer h1 = Some (?d, hw_reg h1)" "hw_mem h1 = hw_mem h" "engine_ready (hw_reg h1)"
    by (simp_all add: h1_def program_channel_starts engine_programmed)
  then have "dx_transfer dx ?d (hw_reg h1) (hw_mem h) = m"
    using assms(1) d al unfolding dxe_copies_def m by simp
  then show ?thesis
    using al wait_done_returns [OF k le0 h1(1)] h1(2) by (simp add: rram_block_write_def low_bits_zero Let_def done_with_def flip: h1_def)
qed

lemma unaligned_refines:
  assumes "dxe_copies dx" and "dxe_completes dx" and "rram_write_unaligned_dxe copy dst src n (hw_mem h) = (BL_ERR_NONE, k, m)"
  obtains h' where "rram_write_unaligned dx dst src n h = Some (0, k, h')" and "hw_mem h' = m"
proof -
  let ?o = "dst AND (RRAM_WRITE_ADR_BYTE_ALIGN - 1)"
  obtain b w where f: "fill_block (hw_mem h) (unat ?o) n src (mem_read (hw_mem h) (dst - ?o) (unat RRAM_WRITE_ADR_BYTE_ALIGN)) 0 = (b, w)"
    by fastforce
  have "rram_block_write_dxe copy (dst - ?o) (Src_buf b) RRAM_WRITE_ADR_BYTE_ALIGN (hw_mem h) = (BL_ERR_NONE, m)" and k: "k = of_nat w"
    using assms(3) f by (auto simp: rram_write_unaligned_dxe_def Let_def split: prod.splits)
  from block_write_refines [OF assms(1,2) this(1)] show thesis
    using that f k by (auto simp: rram_write_unaligned_def Let_def done_with_def)
qed

lemma full_refines:
  assumes "dxe_copies dx" and "dxe_completes dx" and "write_full_blocks copy n dst src (hw_mem h) = (BL_ERR_NONE, m)"
  shows "done_with (rram_write_full dx n dst src 0 h) m"
  using assms(3)
proof (induction n arbitrary: dst src h)
  case (Suc n)
  obtain m1 where 1: "rram_block_write_dxe copy dst src RRAM_WRITE_BLOCK_MAX_SIZE (hw_mem h) = (BL_ERR_NONE, m1)"
    and 2: "write_full_blocks copy n (dst + RRAM_WRITE_BLOCK_MAX_SIZE) (advance src (unat RRAM_WRITE_BLOCK_MAX_SIZE)) m1 = (BL_ERR_NONE, m)"
    using Suc.prems by (auto split: prod.splits if_splits)
  show ?case unfolding rram_write_full.simps
    by (rule done_with_bind [OF block_write_refines [OF assms(1,2) 1]]) (use Suc.IH 2 in simp)
qed (simp add: done_with_def)

lemma partial_refines:
  assumes "dxe_copies dx" and "dxe_completes dx" and "write_partial_block copy dst src n (hw_mem h) = (BL_ERR_NONE, m)"
  shows "done_with (rram_write_partial dx dst src n h) m"
proof -
  let ?u = "n AND (RRAM_WRITE_ADR_BYTE_ALIGN - 1)"
  obtain m1 where 1: "rram_block_write_dxe copy dst src (n - ?u) (hw_mem h) = (BL_ERR_NONE, m1)"
    using assms(3) by (auto simp: write_partial_block_def Let_def split: prod.splits if_splits)
  show ?thesis unfolding rram_write_partial_def Let_def
    by (rule done_with_bind [OF block_write_refines [OF assms(1,2) 1]])
      (use assms(3) 1 in \<open>auto simp: write_partial_block_def Let_def done_with_def intro!: block_write_refines [OF assms(1,2), unfolded done_with_def] split: if_splits\<close>)
qed

lemma write_from_refines:
  assumes "dxe_copies dx" and "dxe_completes dx" and "write_blocks copy dst src n (hw_mem h) = (BL_ERR_NONE, m)"
  shows "done_with (rram_write_from dx dst src n 0 h) m"
proof -
  let ?q = "unat (n div RRAM_WRITE_BLOCK_MAX_SIZE)"
  obtain m1 where 1: "write_full_blocks copy ?q dst src (hw_mem h) = (BL_ERR_NONE, m1)"
    using assms(3) by (auto simp: write_blocks_def Let_def split: prod.splits if_splits)
  show ?thesis unfolding rram_write_from_def Let_def
    by (rule done_with_bind [OF full_refines [OF assms(1,2) 1]])
      (use assms(3) 1 in \<open>auto simp: write_blocks_def Let_def intro!: partial_refines [OF assms(1,2)] simp: done_with_def [of "Some _"] split: if_splits\<close>)
qed

section \<open>Writing and erasing a range\<close>

lemma write_exact:
  assumes "dxe_copies dx" and "dxe_completes dx" and src: "src_ok src dst (unat n)" and top: "unat dst + unat n + 16 \<le> 2 ^ 32"
  shows "done_with (rram_write dx dst src n h) (mem_write (hw_mem h) dst (src_bytes (hw_mem h) src (unat n)))"
proof (cases "unat dst mod 16 = 0")
  case True
  from blocks_write [OF copy_copies True src top] show ?thesis
    using True by (simp add: rram_write_def low_bits_zero QAPI_OK_def write_from_refines [OF assms(1,2)])
next
  case False
  define k where "k = min (16 - unat dst mod 16) (unat n)"
  have k: "k \<le> unat n" "k < 2 ^ 32" by (auto simp: k_def)
  then have uk: "unat (of_nat k :: u32) = k" by (simp add: unat_of_nat)
  have top': "unat dst + unat n \<le> 2 ^ 32" using top by simp
  let ?m = "mem_write (hw_mem h) dst (src_bytes (hw_mem h) src k)"
  have "src_has src k" using src k(1) by (cases src) auto
  then have "rram_write_unaligned_dxe copy dst src n (hw_mem h) = (BL_ERR_NONE, of_nat k, ?m)"
    unfolding k_def by (rule unaligned_write [OF copy_copies])
  from unaligned_refines [OF assms(1,2) this] obtain h1 where
    h1: "rram_write_unaligned dx dst src n h = Some (0, of_nat k, h1)" and m1: "hw_mem h1 = ?m" .
  let ?d = "dst + of_nat k"
  have d: "unat ?d = unat dst + k" by (rule unat_addr_offset) (use top k in linarith)
  have sub: "unat (n - of_nat k) = unat n - k" using k uk by (simp add: unat_sub word_le_nat_alt)
  have "write_blocks copy ?d (advance src k) (n - of_nat k) (hw_mem h1)
      = (BL_ERR_NONE, mem_write (hw_mem h) dst (src_bytes (hw_mem h) src (unat n)))"
  proof (cases "k = unat n")
    case True
    then have "n - of_nat k = 0" using sub by (simp add: unat_eq_zero)
    then show ?thesis using m1 True by (simp add: write_blocks_def)
  next
    case lt: False
    then have "k = 16 - unat dst mod 16" unfolding k_def by linarith
    then have "unat dst + k = (unat dst div 16 + 1) * 16" by (simp only: round_up16)
    then have d16: "unat ?d mod 16 = 0" unfolding d by (metis mod_mult_self2_is_0)
    have "src_ok (advance src k) ?d (unat (n - of_nat k))" using src_ok_advance [OF src k(1) top'] sub by simp
    moreover have "unat ?d + unat (n - of_nat k) + 16 \<le> 2 ^ 32" using d sub top k(1) by simp
    ultimately show ?thesis
      using blocks_write [OF copy_copies d16] src_write_split [OF src k(1) top', of "hw_mem h"] m1 sub by simp
  qed
  from write_from_refines [OF assms(1,2) this] show ?thesis
    using False h1 uk by (simp add: rram_write_def low_bits_zero)
qed

lemma unat_limit:
  "unat a \<le> unat e \<Longrightarrow> unat e < 2 ^ 32 - 1 \<Longrightarrow> unat ((e - a :: u32) + 1) = unat e + 1 - unat a"
proof -
  assume le: "unat a \<le> unat e" and e: "unat e < 2 ^ 32 - 1"
  have "unat (e - a) = unat e - unat a" using le by (simp add: unat_sub word_le_nat_alt)
  then show ?thesis using le e by (simp add: unat_word_ariths)
qed

lemma mod4_iff: "(a :: u32) mod 4 = 0 \<longleftrightarrow> unat a mod 4 = 0"
  by (simp add: unat_eq_zero [symmetric] unat_mod_distrib)

lemma nvm_verify_iff:
  "nvm_rram_verify_address a n \<longleftrightarrow> 0x200000 \<le> unat a \<and> unat a \<le> 0x37FFFF \<and> unat a mod 4 = 0 \<and> unat a + unat n \<le> 0x380000"
  using unat_limit [of a RRAM_END]
  by (auto simp: nvm_rram_verify_address_def word_le_nat_alt RRAM_START_def RRAM_END_def mod4_iff)

lemma otp_verify_iff:
  "otp_rram_verify_address a n \<longleftrightarrow> 0x1A0000 \<le> unat a \<and> unat a \<le> 0x1A0FFF \<and> unat a mod 4 = 0 \<and> unat a + unat n \<le> 0x1A1000"
  using unat_limit [of a OTP_END]
  by (auto simp: otp_rram_verify_address_def word_le_nat_alt OTP_START_def OTP_END_def mod4_iff)

lemma erase_verify_iff:
  "rram_verify_erase_address a n \<longleftrightarrow> 0x208000 \<le> unat a \<and> unat a \<le> 0x37FFFF \<and> unat a mod 4 = 0 \<and> unat a + unat n \<le> 0x380000"
  using unat_limit [of a RRAM_END]
  by (auto simp: rram_verify_erase_address_def word_le_nat_alt RRAM_ERASE_START_def RRAM_END_def mod4_iff)

lemma erase_loop_exact:
  assumes "dxe_copies dx" and "dxe_completes dx" and "unat a + unat n + 16 \<le> 2 ^ 32"
  shows "done_with (rram_erase_loop dx a n 0 h) (mem_write (hw_mem h) a (replicate (unat n) 0xFF))"
  using assms(3)
proof (induction "unat n" arbitrary: a n h rule: less_induct)
  case less
  show ?case
  proof (cases "n = 0")
    case True
    then show ?thesis by (simp add: rram_erase_loop.simps done_with_def)
  next
    case False
    define k where "k = (if RRAM_ERASE_BUFFER_SIZE \<le> n then RRAM_ERASE_BUFFER_SIZE else n)"
    have k: "unat k \<le> unat n" "unat k \<le> 4096" "0 < unat k"
      using False by (auto simp: k_def RRAM_ERASE_BUFFER_SIZE_def word_le_nat_alt unat_gt_0)
    have sub: "unat (n - k) = unat n - unat k" using k(1) by (simp add: unat_sub word_le_nat_alt)
    have ak: "unat (a + k) = unat a + unat k" using less.prems k(1) by (simp add: unat_word_ariths)
    have sb: "src_bytes m (Src_buf erase_buffer) (unat k) = replicate (unat k) 0xFF" for m
      using k(2) by (simp add: erase_buffer_def RRAM_ERASE_BUFFER_SIZE_def)
    have w: "done_with (rram_write dx a (Src_buf erase_buffer) k h) (mem_write (hw_mem h) a (replicate (unat k) 0xFF))"
      using write_exact [OF assms(1,2), of "Src_buf erase_buffer" a k h] less.prems k sb
      by (simp add: erase_buffer_def RRAM_ERASE_BUFFER_SIZE_def)
    have join: "mem_write (mem_write (hw_mem h) a (replicate (unat k) 0xFF)) (a + k) (replicate (unat (n - k)) 0xFF)
        = mem_write (hw_mem h) a (replicate (unat n) 0xFF)"
      using mem_write_append [of "hw_mem h" a "replicate (unat k) 0xFF" "replicate (unat n - unat k) 0xFF"] k(1) sub
      by (simp add: replicate_add [symmetric])
    have rest: "done_with (rram_erase_loop dx (a + k) (n - k) 0 h') (mem_write (hw_mem h) a (replicate (unat n) 0xFF))"
      if "hw_mem h' = mem_write (hw_mem h) a (replicate (unat k) 0xFF)" for h'
      using less.hyps [of "n - k" "a + k" h'] k sub ak less.prems that join by simp
    have "done_with (rram_write dx a (Src_buf erase_buffer) k h \<bind>
        (\<lambda>(status, h). if status \<noteq> 0 then Some (- 1, h) else rram_erase_loop dx (a + k) (n - k) status h))
        (mem_write (hw_mem h) a (replicate (unat n) 0xFF))"
      by (rule done_with_bind [OF w]) (use rest in simp)
    then show ?thesis using False by (subst rram_erase_loop.simps) (simp add: QAPI_OK_def Let_def k_def [symmetric])
  qed
qed

lemma erase_exact:
  assumes "dxe_copies dx" and "dxe_completes dx" and v: "rram_verify_erase_address a n"
  shows "done_with (rram_erase dx a n h) (mem_write (hw_mem h) a (replicate (unat n) 0xFF))"
proof (cases "unat a mod 16 = 0")
  case True
  then show ?thesis using erase_loop_exact [OF assms(1,2), of a n h] v
    by (simp add: rram_erase_def low_bits_zero QAPI_OK_def erase_verify_iff)
next
  case False
  define l where "l = (if RRAM_WRITE_ADR_BYTE_ALIGN \<le> n then RRAM_WRITE_ADR_BYTE_ALIGN else n)"
  define k where "k = min (16 - unat a mod 16) (unat l)"
  have l: "unat l = min 16 (unat n)"
    by (auto simp: l_def RRAM_WRITE_ADR_BYTE_ALIGN_def word_le_nat_alt)
  have k: "k \<le> unat n" "k \<le> 4096" by (auto simp: k_def l)
  then have uk: "unat (of_nat k :: u32) = k" by (simp add: unat_of_nat)
  have h: "src_has (Src_buf erase_buffer) k" using k(2) by (simp add: erase_buffer_def RRAM_ERASE_BUFFER_SIZE_def)
  have sb: "src_bytes m (Src_buf erase_buffer) k = replicate k 0xFF" for m
    using k(2) by (simp add: erase_buffer_def RRAM_ERASE_BUFFER_SIZE_def min_absorb1)
  have "rram_write_unaligned_dxe copy a (Src_buf erase_buffer) l (hw_mem h) =
      (BL_ERR_NONE, of_nat k, mem_write (hw_mem h) a (src_bytes (hw_mem h) (Src_buf erase_buffer) k))"
    using h unfolding k_def by (rule unaligned_write [OF copy_copies])
  from unaligned_refines [OF assms(1,2) this] obtain h1 where
    h1: "rram_write_unaligned dx a (Src_buf erase_buffer) l h = Some (0, of_nat k, h1)"
    and m1: "hw_mem h1 = mem_write (hw_mem h) a (replicate k 0xFF)" unfolding sb .
  have ak: "unat (a + of_nat k) = unat a + k" by (rule unat_addr_offset) (use v k in \<open>simp add: erase_verify_iff\<close>)
  have sub: "unat (n - of_nat k) = unat n - k" using k uk by (simp add: unat_sub word_le_nat_alt)
  have "done_with (rram_erase_loop dx (a + of_nat k) (n - of_nat k) 0 h1) (mem_write (hw_mem h) a (replicate (unat n) 0xFF))"
    using erase_loop_exact [OF assms(1,2), of "a + of_nat k" "n - of_nat k" h1] v k ak sub m1
      mem_write_append [of "hw_mem h" a "replicate k 0xFF" "replicate (unat n - k) 0xFF"]
    by (simp add: erase_verify_iff replicate_add [symmetric])
  then show ?thesis unfolding rram_erase_def Let_def l_def [symmetric]
    using False v h1 by (simp add: low_bits_zero)
qed

lemma nvm_write_exact:
  assumes "dxe_copies dx" and "dxe_completes dx" and "nvm_rram_verify_address a n" and "unat n \<le> length src"
  shows "done_with (nvm_rram_write dx a src n h) (mem_write (hw_mem h) a (take (unat n) src))"
  using write_exact [OF assms(1,2), of "Src_buf src" a n h] assms(3,4) by (simp add: nvm_verify_iff nvm_rram_write_def)

text \<open>What an OTP write takes from the buffer: at the permission word one bit is cleared.\<close>

definition otp_source :: "u32 \<Rightarrow> bytes \<Rightarrow> bytes" where
  "otp_source a src = (if READ_PERMISSION_READ_WRITE_PERMISIONS_ADDRESS = a
     then src[0 := src ! 0 AND NOT READ_PERMISSION_READ_WRITE_PERMISIONS_OFFSET] else src)"

lemma length_otp_source [simp]: "length (otp_source a src) = length src"
  by (simp add: otp_source_def)

lemma otp_write_exact:
  assumes "dxe_copies dx" and "dxe_completes dx" and v: "otp_rram_verify_address a n" and "unat n \<le> length src" and "src \<noteq> []"
  shows "\<exists>h'. otp_rram_write dx a src n h = Some (0, otp_source a src, h')
     \<and> hw_mem h' = mem_write (hw_mem h) a (take (unat n) (otp_source a src))"
proof -
  have "done_with (rram_write dx a (Src_buf (otp_source a src)) n h) (mem_write (hw_mem h) a (take (unat n) (otp_source a src)))"
    using write_exact [OF assms(1,2), of "Src_buf (otp_source a src)" a n h] v assms(4) by (simp add: otp_verify_iff)
  then obtain h' where "rram_write dx a (Src_buf (otp_source a src)) n h = Some (0, h')"
    "hw_mem h' = mem_write (hw_mem h) a (take (unat n) (otp_source a src))" unfolding done_with_def by blast
  then show ?thesis using v assms(4,5)
    unfolding otp_rram_write_def Let_def otp_source_def [symmetric] by simp
qed

end
