(* ===== verification/Rram_Channel.thy ===== *)
theory Rram_Channel
  imports Nvm_Rram_Correct
begin

text \<open>
  The registers behind the boot loader's RRAM writer: the initialisation of the DXE engine and
  the block write of \<^verbatim>\<open>qboot/system/nt_bl_rram_dxe.c\<close> down to each register access, over the same
  hardware state and engine as the JTAG programmer. The block write implements the abstract
  one of \<open>Rram_Dxe\<close>, on which the exactness of the writer rests; and it drives the engine as
  the programmer's copy of the code does.
\<close>

definition bl_rram_dxe_init :: "nvm_hw \<Rightarrow> nvm_hw" where
  "bl_rram_dxe_init h =
     (let get_val = HW_REG_RD QWLAN_PMU_DIG_TOP_CFG_REG h AND NOT RRAM_32_BIT_LEGACY_WR_MODE_MASK;
          h = HW_REG_WR QWLAN_PMU_DIG_TOP_CFG_REG get_val h;
          regVal = HW_REG_RD QWLAN_CCU_R_CCU_SOFT_RESET_REG h;
          h = HW_REG_WR QWLAN_CCU_R_CCU_SOFT_RESET_REG (regVal OR DXE_SOFT_RESET_MASK) h;
          regVal = HW_REG_RD QWLAN_CCU_R_CCU_SOFT_RESET_REG h;
          h = HW_REG_WR QWLAN_CCU_R_CCU_SOFT_RESET_REG (regVal AND NOT DXE_SOFT_RESET_MASK) h;
          h = HW_REG_WR QWLAN_DXE_0_DMA_CSR_REG 0 h;
          h = HW_REG_WR QWLAN_DXE_0_INT_MSK_REG 0xFFF h;
          h = HW_REG_WR QWLAN_DXE_0_DMA_CSR_REG DMA_CSR_INIT h;
          h = HW_REG_WR QWLAN_DXE_0_CTR_CLR_REG 0x7F h;
          cache_ctrl = HW_REG_RD QWLAN_CACHE_REGS_R_CACHECTRL_REG h;
          h = HW_REG_WR QWLAN_CACHE_REGS_R_CACHECTRL_REG (cache_ctrl OR CACHECTRL_FLUSH_MASK) h
      in HW_REG_WR QWLAN_CACHE_REGS_R_CACHECTRL_REG cache_ctrl h)"

text \<open>The block write with its registers. A transfer that is never reported done is \<open>None\<close>.\<close>

definition rram_block_write_hw :: "dxe \<Rightarrow> u32 \<Rightarrow> source \<Rightarrow> u32 \<Rightarrow> nvm_hw \<Rightarrow> (bl_error_type \<times> nvm_hw) option" where
  "rram_block_write_hw dx destination src len h =
     (if destination AND (RRAM_WRITE_ADR_BYTE_ALIGN - 1) \<noteq> 0 then Some (BL_ERR_RRAM_DXE_INVALID_BLOCK_ADDR, h)
      else if len AND (RRAM_WRITE_ADR_BYTE_ALIGN - 1) \<noteq> 0 then Some (BL_ERR_RRAM_DXE_INVALID_BLOCK_ADDR, h)
      else
        let regVal = HW_REG_RD QWLAN_PMU_DIG_TOP_CFG_REG h;
            regVal = regVal AND NOT RRAM_32_BIT_LEGACY_WR_MODE_MASK;
            regVal = regVal OR RRAM_PD_MODE_DEFAULT;
            h = HW_REG_WR QWLAN_PMU_DIG_TOP_CFG_REG regVal h;
            regVal = HW_REG_RD QWLAN_DXE_0_DMA_CSR_REG h;
            regVal = regVal AND NOT DIS_RRAM_128BIT_MASK;
            h = HW_REG_WR QWLAN_DXE_0_DMA_CSR_REG regVal h;
            dxe_hw_desc =
              \<lparr>dd_ctrl = NT_DXE_DESC_CTRL_INT OR NT_DXE_DESC_CTRL_EOP
                 OR (push_bit 1 NT_DXE_DESC_CTRL_XTYPE_H2H AND NT_DXE_DESC_CTRL_XTYPE_MASK) OR NT_DXE_DESC_CTRL_VALID,
               dd_xfrSize = len, dd_srcMemAddrL = src, dd_dstMemAddrL = destination, dd_phyNextL = 0\<rparr>;
            h = h\<lparr>hw_desc := (hw_desc h)(dx_desc_addr dx := dxe_hw_desc)\<rparr>;
            h = HW_REG_WR QWLAN_DXE_0_DMA_CSR_REG 0x2000A001 h;
            base = QWLAN_DXE_0_CH0_CTRL_REG + NT_DXE_CH_REG_SIZE * DXE_CH_RRAM_WRITE_VIA_DXE;
            ch_sz = HW_REG_RD (base + (QWLAN_DXE_0_CH0_SZ_REG - QWLAN_DXE_0_CH0_CTRL_REG)) h;
            h = HW_REG_WR (base + (QWLAN_DXE_0_CH0_SZ_REG - QWLAN_DXE_0_CH0_CTRL_REG)) (ch_sz OR push_bit CH0_SZ_CHK_SZ_OFFSET 4) h;
            h = HW_REG_WR (base + NT_DXE_CH_DESCH_REG) 0 h;
            h = HW_REG_WR (base + NT_DXE_CH_DESCL_REG) (dx_desc_addr dx) h;
            h = HW_REG_WR base 0xF80709 h
        in do {
          h \<leftarrow> wait_done dx 0 h;
          Some (BL_ERR_NONE, h\<lparr>hw_block_number := hw_block_number h + 1\<rparr>)
        })"

section \<open>The two copies agree\<close>

lemma dxe_init_same: "bl_rram_dxe_init h = Nvm_Rram.rram_dxe_init h"
  by (simp add: bl_rram_dxe_init_def Nvm_Rram.rram_dxe_init_def Let_def)

text \<open>Registers other than the control register of the channel do not look at the descriptors.\<close>

lemma reg_wr_desc:
  "r \<noteq> DxeChannel_BaseAddr \<Longrightarrow> HW_REG_WR r v (h\<lparr>hw_desc := ds\<rparr>) = (HW_REG_WR r v h)\<lparr>hw_desc := ds\<rparr>"
  "HW_REG_RD r (h\<lparr>hw_desc := ds\<rparr>) = HW_REG_RD r h" "hw_desc (HW_REG_WR r v h) = hw_desc h"
  by (simp_all add: HW_REG_WR_def HW_REG_RD_def Let_def)

lemma block_write_hw_fold:
  assumes "destination AND (RRAM_WRITE_ADR_BYTE_ALIGN - 1) = 0" and "len AND (RRAM_WRITE_ADR_BYTE_ALIGN - 1) = 0"
  shows "rram_block_write_hw dx destination src len h = map_option (\<lambda>(st, h'). (BL_ERR_NONE, h')) (rram_block_write dx destination src len h)"
proof -
  define g where "g = program_channel (dx_desc_addr dx) (h\<lparr>hw_desc := (hw_desc h)(dx_desc_addr dx := write_desc destination src len)\<rparr>)"
  have ne: "QWLAN_PMU_DIG_TOP_CFG_REG \<noteq> DxeChannel_BaseAddr" "QWLAN_DXE_0_DMA_CSR_REG \<noteq> DxeChannel_BaseAddr"
    by (simp_all add: channel_regs)
  have "rram_block_write dx destination src len h = map_option (\<lambda>h. (0, h\<lparr>hw_block_number := hw_block_number h + 1\<rparr>)) (wait_done dx 0 g)"
    using assms by (cases "wait_done dx 0 g") (simp_all add: rram_block_write_def Let_def g_def)
  moreover have "rram_block_write_hw dx destination src len h
      = map_option (\<lambda>h. (BL_ERR_NONE, h\<lparr>hw_block_number := hw_block_number h + 1\<rparr>)) (wait_done dx 0 g)"
    using assms unfolding rram_block_write_hw_def Let_def DxeChannel_BaseAddr_def [symmetric] write_desc_def [symmetric]
    by (cases "wait_done dx 0 g") (simp_all add: g_def program_channel_def Let_def reg_wr_desc ne)
  ultimately show ?thesis by (simp add: option.map_comp comp_def)
qed

text \<open>C29: The boot loader and the JTAG programmer have separate copies of the code that writes a
  block of RRAM. They start the engine on the same descriptor with the same registers, wait for
  it in the same way and leave the same state (memory, registers, block count), for every
  engine; they differ in a request that is not aligned to 16 bytes, which the boot
  loader refuses with a status and the programmer's assertion stops.\<close>

theorem block_write_copies_agree:
  "rram_block_write dx dst src n h =
    (case rram_block_write_hw dx dst src n h of
       Some (BL_ERR_NONE, h') \<Rightarrow> Some (0, h')
     | _ \<Rightarrow> None)"
proof (cases "dst AND (RRAM_WRITE_ADR_BYTE_ALIGN - 1) = 0 \<and> n AND (RRAM_WRITE_ADR_BYTE_ALIGN - 1) = 0")
  case True
  have "st = 0" if "rram_block_write dx dst src n h = Some (st, h')" for st h'
    using that True by (auto simp: rram_block_write_def Let_def split: Option.bind_splits)
  then show ?thesis
    using True block_write_hw_fold [of dst n dx src h] by (cases "rram_block_write dx dst src n h") auto
next
  case False
  then show ?thesis by (auto simp: rram_block_write_def rram_block_write_hw_def)
qed

section \<open>Refinement of the abstract block write\<close>

text \<open>C30: The register sequence of a block write implements the abstract block write on which
  the exactness of the RRAM writer rests: with an engine that works as documented it always
  returns, with the same status and the same memory, and a refused request touches nothing.
  The engine is started by the write of the channel's control register, reads the
  descriptor its descriptor register points to, copies only when modes, chunk size and control
  word are as documented at that moment, and has copied when the status register shows that
  the transfer is done; so the memory is right because each of these registers is
  programmed before the start and the end is waited for.\<close>

theorem block_write_hw_refines:
  assumes "dxe_copies dx" and "dxe_completes dx"
  shows "\<exists>st h'. rram_block_write_hw dx dst src n h = Some (st, h')
    \<and> rram_block_write_dxe copy dst src n (hw_mem h) = (st, hw_mem h') \<and> (st \<noteq> BL_ERR_NONE \<longrightarrow> h' = h)"
proof (cases "dst AND (RRAM_WRITE_ADR_BYTE_ALIGN - 1) = 0 \<and> n AND (RRAM_WRITE_ADR_BYTE_ALIGN - 1) = 0")
  case True
  then obtain m where m: "rram_block_write_dxe copy dst src n (hw_mem h) = (BL_ERR_NONE, m)"
    by (simp add: rram_block_write_dxe_def)
  from block_write_refines [OF assms this] obtain h' where "rram_block_write dx dst src n h = Some (0, h')" "hw_mem h' = m"
    by (auto simp: done_with_def)
  then show ?thesis using True m by (auto simp: block_write_hw_fold)
next
  case False
  then show ?thesis by (auto simp: rram_block_write_hw_def rram_block_write_dxe_def)
qed

text \<open>An engine that does nothing unless it is set up as documented, and is done at the fifth look.\<close>

definition careful_dxe :: dxe where
  "careful_dxe = \<lparr>dx_transfer = (\<lambda>d r m. if engine_ready r \<and> dd_ctrl d AND NT_DXE_DESC_CTRL_VALID \<noteq> 0
       then mem_write m (dd_dstMemAddrL d) (src_bytes m (dd_srcMemAddrL d) (unat (dd_xfrSize d))) else m),
     dx_status = (\<lambda>d k. of_nat k), dx_desc_addr = 0x10000\<rparr>"

theorem block_write_hw_refines_witness:
  "\<exists>h'. rram_block_write_hw careful_dxe 0x20A400 (Src_mem 0x1000) 32
      \<lparr>hw_mem = \<lambda>_. 5, hw_reg = \<lambda>_. 0xFFFFFFFF, hw_block_number = 0, hw_desc = \<lambda>_. write_desc 0 (Src_mem 0) 0, hw_xfer = None\<rparr>
      = Some (BL_ERR_NONE, h')
    \<and> rram_block_write_dxe copy 0x20A400 (Src_mem 0x1000) 32 (\<lambda>_. 5) = (BL_ERR_NONE, hw_mem h')"
proof -
  have "dxe_copies careful_dxe" by (simp add: dxe_copies_def careful_dxe_def)
  moreover have "dxe_completes careful_dxe"
    by (auto simp: dxe_completes_def careful_dxe_def CH0_STATUS_DONE_MASK_def intro!: exI [of _ 4])
  ultimately show ?thesis
    using block_write_hw_refines [of careful_dxe "0x20A400" "Src_mem 0x1000" 32 "\<lparr>hw_mem = \<lambda>_. 5, hw_reg = \<lambda>_. 0xFFFFFFFF,
        hw_block_number = 0, hw_desc = \<lambda>_. write_desc 0 (Src_mem 0) 0, hw_xfer = None\<rparr>"]
    by (auto simp: rram_block_write_dxe_def RRAM_WRITE_ADR_BYTE_ALIGN_def)
qed

end
