(* ===== verification/Unpa.thy ===== *)
theory Unpa
  imports Prelude
begin

text \<open>
  The micro node power architecture (uNPA) of \<^verbatim>\<open>qsystem/src/unpa*.c\<close>: resources that
  aggregate the votes of their clients. A pointer is a 32-bit address with \<open>0\<close> for
  NULL; the heap is a pair of partial maps from addresses to resources and clients; a
  linked list is the list of its nodes' addresses, head first. \<open>CORE_VERIFY\<close> expands to
  an empty statement in \<^verbatim>\<open>qsystem/inc/CoreVerify.h\<close>, so the checks it names change
  nothing and have no counterpart here.
\<close>

section \<open>Constants\<close>

definition UNPA_MAX_NAME_LEN :: nat where "UNPA_MAX_NAME_LEN = 16"
definition UNPA_MAX_STUBS :: nat where "UNPA_MAX_STUBS = 5"

definition UNPA_CLIENT_INITIALIZE :: u8 where "UNPA_CLIENT_INITIALIZE = 0"
definition UNPA_CLIENT_REQUIRED :: u8 where "UNPA_CLIENT_REQUIRED = 1"
definition UNPA_CLIENT_SUPPRESSIBLE :: u8 where "UNPA_CLIENT_SUPPRESSIBLE = 2"
definition UNPA_CLIENT_SLEEP :: u8 where "UNPA_CLIENT_SLEEP = 4"

definition UNPA_REQUEST_DEFAULT :: "24 word" where "UNPA_REQUEST_DEFAULT = 0"
definition UNPA_REQUEST_ADD_CLIENT :: "24 word" where "UNPA_REQUEST_ADD_CLIENT = 1"
definition UNPA_REQUEST_REMOVE_CLIENT :: "24 word" where "UNPA_REQUEST_REMOVE_CLIENT = 2"
definition UNPA_REQUEST_DROP_VOTE :: "24 word" where "UNPA_REQUEST_DROP_VOTE = 4"

definition UNPA_UPDATE_CLIENT_TYPES :: u32 where "UNPA_UPDATE_CLIENT_TYPES = 0"
definition UNPA_RESOURCE_DRIVER_UNCONDITIONAL :: u32 where
  "UNPA_RESOURCE_DRIVER_UNCONDITIONAL = 1"
definition UNPA_RESOURCE_CLIENT_CHANGE_NOTIFY :: u32 where
  "UNPA_RESOURCE_CLIENT_CHANGE_NOTIFY = 2"

definition UNPA_REQUIRED_INDEX :: nat where "UNPA_REQUIRED_INDEX = 0"
definition UNPA_SUPPRESSIBLE_INDEX :: nat where "UNPA_SUPPRESSIBLE_INDEX = 1"
definition UNPA_SLEEP_INDEX :: nat where "UNPA_SLEEP_INDEX = 2"

lemmas unpa_index_defs = UNPA_REQUIRED_INDEX_def UNPA_SUPPRESSIBLE_INDEX_def UNPA_SLEEP_INDEX_def
lemmas unpa_type_defs = UNPA_CLIENT_REQUIRED_def UNPA_CLIENT_SUPPRESSIBLE_def UNPA_CLIENT_SLEEP_def

section \<open>Data\<close>

text \<open>
  Function pointers: the three update functions the framework provides, and any other
  by its address. Driver functions and foreign update functions are code of the
  resource authors; they are parameters (\<open>unpa_env\<close>) that see the structures their C
  arguments point to. A driver's returned state is its value, its call is logged.
\<close>

datatype update_fcn =
    Unpa_min_update_fcn
  | Unpa_max_update_fcn
  | Unpa_binary_update_fcn
  | Other_update_fcn addr

record unpa_resource_definition =
  df_name :: string
  df_update_fcn :: update_fcn
  df_driver_fcn :: addr
  df_max :: u32
  df_client_types :: u32
  df_attributes :: u32

record unpa_client =
  cl_name :: string
  cl_type :: u8
  cl_request_attr :: "24 word"
  cl_active_request :: u32
  cl_pending_request :: u32
  cl_resource :: addr

record unpa_resource =
  rs_definition :: unpa_resource_definition
  rs_clients :: "addr list"
  rs_active_state :: u32
  rs_sleep_state :: u32
  rs_agg_state :: "u32 list"
  rs_active_max :: u32
  rs_lock :: nat

type_synonym client_heap = "addr \<rightharpoonup> unpa_client"

record driver_call =
  dc_resource :: addr
  dc_client :: unpa_client
  dc_state :: u32

record unpa_struct =
  un_resources :: "addr list"
  un_stubs :: "string option list"
  un_lock :: nat
  un_res :: "addr \<rightharpoonup> unpa_resource"
  un_cli :: client_heap
  un_log :: "driver_call list"

record unpa_env =
  env_driver :: "addr \<Rightarrow> unpa_resource \<Rightarrow> unpa_client \<Rightarrow> u32 \<Rightarrow> u32"
  env_update :: "addr \<Rightarrow> unpa_resource \<Rightarrow> unpa_client \<Rightarrow> u32 list \<times> u32 \<times> u32"

section \<open>Update functions\<close>

definition unpa_resource_has_attribute :: "unpa_resource \<Rightarrow> u32 \<Rightarrow> bool" where
  "unpa_resource_has_attribute r a \<longleftrightarrow> df_attributes (rs_definition r) AND a \<noteq> 0"

text \<open>The \<open>default\<close> branch runs \<open>CORE_VERIFY(0)\<close>, which is empty, and returns 0.\<close>

definition unpa_get_agg_index :: "unpa_client \<Rightarrow> nat" where
  "unpa_get_agg_index c =
     (if cl_type c = UNPA_CLIENT_REQUIRED then UNPA_REQUIRED_INDEX
      else if cl_type c = UNPA_CLIENT_SUPPRESSIBLE then UNPA_SUPPRESSIBLE_INDEX
      else if cl_type c = UNPA_CLIENT_SLEEP then UNPA_SLEEP_INDEX
      else 0)"

definition unpa_get_supported_client_types :: "update_fcn \<Rightarrow> u32" where
  "unpa_get_supported_client_types f =
     (if f = Unpa_min_update_fcn \<or> f = Unpa_max_update_fcn \<or> f = Unpa_binary_update_fcn
      then ucast UNPA_CLIENT_REQUIRED OR ucast UNPA_CLIENT_SUPPRESSIBLE OR ucast UNPA_CLIENT_SLEEP
      else 0)"

text \<open>The client types the \<open>switch\<close> of every update function aggregates.\<close>

definition aggregated_type :: "u8 \<Rightarrow> bool" where
  "aggregated_type t \<longleftrightarrow> t \<in> {UNPA_CLIENT_REQUIRED, UNPA_CLIENT_SUPPRESSIBLE, UNPA_CLIENT_SLEEP}"

text \<open>
  The walks over the client list. Each visits the nodes in order, skips the requesting
  client (by address) and clients of another type, and folds their active requests.
  \<open>None\<close>: a node that is not in the heap. The source walks with \<open>do ... while (c)\<close>, so an
  empty list is a NULL dereference too.
\<close>

fun walk_clients ::
    "(u32 \<Rightarrow> u32 \<Rightarrow> u32) \<Rightarrow> client_heap \<Rightarrow> addr \<Rightarrow> unpa_client \<Rightarrow> addr list \<Rightarrow> u32 \<Rightarrow> u32 option" where
  "walk_clients pick cs p self [] acc = Some acc"
| "walk_clients pick cs p self (c # rest) acc =
     (case cs c of
        None \<Rightarrow> None
      | Some cl \<Rightarrow>
          walk_clients pick cs p self rest
            (if c \<noteq> p \<and> cl_type cl = cl_type self then pick (cl_active_request cl) acc else acc))"

definition pick_min :: "u32 \<Rightarrow> u32 \<Rightarrow> u32" where
  "pick_min request pending =
     (if request \<noteq> 0 \<and> (pending = 0 \<or> request < pending) then request else pending)"

definition pick_max :: "u32 \<Rightarrow> u32 \<Rightarrow> u32" where
  "pick_max request pending = (if request > pending then request else pending)"

definition unpa_min_update_fcn ::
    "client_heap \<Rightarrow> unpa_resource \<Rightarrow> addr \<Rightarrow> unpa_client \<Rightarrow> (u32 list \<times> u32 \<times> u32) option" where
  "unpa_min_update_fcn cs r p c = do {
     agg \<leftarrow>
       (if aggregated_type (cl_type c) then do {
          let index = unpa_get_agg_index c;
          let active_min = rs_agg_state r ! index;
          let request = cl_pending_request c;
          pending_min \<leftarrow>
            (if request \<noteq> 0 \<and> (active_min = 0 \<or> request < active_min) then Some request
             else if active_min = cl_active_request c then
               (if rs_clients r = [] then None else walk_clients pick_min cs p c (rs_clients r) request)
             else Some active_min);
          Some ((rs_agg_state r)[index := pending_min])
        } else Some (rs_agg_state r));
     let sleep_state =
       (if agg ! UNPA_SLEEP_INDEX = 0 then agg ! UNPA_REQUIRED_INDEX
        else if agg ! UNPA_REQUIRED_INDEX = 0 then agg ! UNPA_SLEEP_INDEX
        else min (agg ! UNPA_REQUIRED_INDEX) (agg ! UNPA_SLEEP_INDEX));
     let active_agg =
       (if agg ! UNPA_SUPPRESSIBLE_INDEX = 0 then agg ! UNPA_REQUIRED_INDEX
        else if agg ! UNPA_REQUIRED_INDEX = 0 then agg ! UNPA_SUPPRESSIBLE_INDEX
        else min (agg ! UNPA_REQUIRED_INDEX) (agg ! UNPA_SUPPRESSIBLE_INDEX));
     Some (agg, sleep_state, active_agg)
   }"

definition unpa_max_update_fcn ::
    "client_heap \<Rightarrow> unpa_resource \<Rightarrow> addr \<Rightarrow> unpa_client \<Rightarrow> (u32 list \<times> u32 \<times> u32) option" where
  "unpa_max_update_fcn cs r p c = do {
     agg \<leftarrow>
       (if aggregated_type (cl_type c) then do {
          let index = unpa_get_agg_index c;
          let active_max = rs_agg_state r ! index;
          let request = cl_pending_request c;
          pending_max \<leftarrow>
            (if request > active_max then Some request
             else if active_max = cl_active_request c then
               (if rs_clients r = [] then None else walk_clients pick_max cs p c (rs_clients r) request)
             else Some active_max);
          Some ((rs_agg_state r)[index := pending_max])
        } else Some (rs_agg_state r));
     Some (agg,
           max (agg ! UNPA_REQUIRED_INDEX) (agg ! UNPA_SLEEP_INDEX),
           max (agg ! UNPA_REQUIRED_INDEX) (agg ! UNPA_SUPPRESSIBLE_INDEX))
   }"

text \<open>The binary function keeps a count of the non-zero votes, in wrapping arithmetic.\<close>

definition vote_bit :: "u32 \<Rightarrow> u32" where
  "vote_bit v = (if v = 0 then 0 else 1)"

definition unpa_binary_update_fcn ::
    "unpa_resource \<Rightarrow> unpa_client \<Rightarrow> u32 list \<times> u32 \<times> u32" where
  "unpa_binary_update_fcn r c =
     (let agg =
        (if aggregated_type (cl_type c) then
           let index = unpa_get_agg_index c
           in (rs_agg_state r)
                [index := rs_agg_state r ! index - vote_bit (cl_active_request c)
                            + vote_bit (cl_pending_request c)]
         else rs_agg_state r)
      in (agg,
          of_bool (max (agg ! UNPA_REQUIRED_INDEX) (agg ! UNPA_SLEEP_INDEX) > 0),
          of_bool (max (agg ! UNPA_REQUIRED_INDEX) (agg ! UNPA_SUPPRESSIBLE_INDEX) > 0)))"

text \<open>The indirect call \<open>resource->definition->update_fcn (resource, client)\<close>.\<close>

definition call_update_fcn ::
    "unpa_env \<Rightarrow> client_heap \<Rightarrow> unpa_resource \<Rightarrow> addr \<Rightarrow> unpa_client \<Rightarrow> (u32 list \<times> u32 \<times> u32) option" where
  "call_update_fcn env cs r p c =
     (case df_update_fcn (rs_definition r) of
        Unpa_min_update_fcn \<Rightarrow> unpa_min_update_fcn cs r p c
      | Unpa_max_update_fcn \<Rightarrow> unpa_max_update_fcn cs r p c
      | Unpa_binary_update_fcn \<Rightarrow> Some (unpa_binary_update_fcn r c)
      | Other_update_fcn f \<Rightarrow> Some (env_update env f r c))"

section \<open>Heap access and locks\<close>

definition set_res :: "addr \<Rightarrow> unpa_resource \<Rightarrow> unpa_struct \<Rightarrow> unpa_struct" where
  "set_res a r s = s\<lparr>un_res := (un_res s)(a \<mapsto> r)\<rparr>"

definition set_cli :: "addr \<Rightarrow> unpa_client \<Rightarrow> unpa_struct \<Rightarrow> unpa_struct" where
  "set_cli p c s = s\<lparr>un_cli := (un_cli s)(p \<mapsto> c)\<rparr>"

text \<open>
  The resource lock is a recursive mutex, modelled by its lock count in the running
  thread: \<open>qurt_mutex_lock\<close> adds one, \<open>qurt_mutex_unlock\<close> takes one away (a count of 0
  stays 0: the kernel call fails and its result is ignored).
\<close>

definition lock_res :: "unpa_resource \<Rightarrow> unpa_resource" where
  "lock_res r = r\<lparr>rs_lock := Suc (rs_lock r)\<rparr>"

definition unlock_res :: "unpa_resource \<Rightarrow> unpa_resource" where
  "unlock_res r = r\<lparr>rs_lock := rs_lock r - 1\<rparr>"

definition call_driver_fcn ::
    "unpa_env \<Rightarrow> addr \<Rightarrow> unpa_resource \<Rightarrow> unpa_client \<Rightarrow> u32 \<Rightarrow> unpa_struct \<Rightarrow> u32 \<times> unpa_struct" where
  "call_driver_fcn env a r c state s =
     (env_driver env (df_driver_fcn (rs_definition r)) r c state,
      s\<lparr>un_log := un_log s @ [\<lparr>dc_resource = a, dc_client = c, dc_state = state\<rparr>]\<rparr>)"

section \<open>Resources\<close>

text \<open>Without the \<open>unpa_stub\<close> build flag the stub table is not searched.\<close>

fun find_resource :: "(addr \<rightharpoonup> unpa_resource) \<Rightarrow> string \<Rightarrow> addr list \<Rightarrow> addr option" where
  "find_resource rs n [] = Some NULL"
| "find_resource rs n (a # as) =
     (case rs a of
        None \<Rightarrow> None
      | Some r \<Rightarrow>
          (if strncmp_eq (UNPA_MAX_NAME_LEN + 1) n (df_name (rs_definition r)) then Some a
           else find_resource rs n as))"

definition unpa_get_resource :: "string \<Rightarrow> unpa_struct \<Rightarrow> addr option" where
  "unpa_get_resource n s = find_resource (un_res s) n (un_resources s)"

definition unpa_init :: "unpa_struct \<Rightarrow> unpa_struct" where
  "unpa_init s = s\<lparr>un_lock := 0, un_resources := []\<rparr>"

text \<open>
  \<open>alloc\<close> is the pointer \<open>nt_osal_calloc\<close> returns (NULL when out of memory). The search
  for an existing resource of that name has no effect: its check is an empty statement.
\<close>

definition unpa_create_resource ::
    "unpa_env \<Rightarrow> addr \<Rightarrow> unpa_resource_definition \<Rightarrow> u32 \<Rightarrow> unpa_struct \<Rightarrow> (addr \<times> unpa_struct) option" where
  "unpa_create_resource env alloc d initial_state s = do {
     let s = s\<lparr>un_lock := Suc (un_lock s)\<rparr>;
     _ \<leftarrow> unpa_get_resource (df_name d) s;
     if alloc = NULL then Some (NULL, s\<lparr>un_lock := un_lock s - 1\<rparr>)
     else do {
       let r = \<lparr>rs_definition = d, rs_clients = [], rs_active_state = 0, rs_sleep_state = 0,
                rs_agg_state = [0, 0, 0], rs_active_max = df_max d, rs_lock = 0\<rparr>;
       let c = \<lparr>cl_name = [], cl_type = UNPA_CLIENT_INITIALIZE, cl_request_attr = 0,
                cl_active_request = 0, cl_pending_request = initial_state, cl_resource = NULL\<rparr>;
       let (v, s) = call_driver_fcn env alloc r c initial_state s;
       let s = set_res alloc (r\<lparr>rs_active_state := v\<rparr>) s;
       let s = s\<lparr>un_resources := alloc # un_resources s\<rparr>;
       Some (alloc, s\<lparr>un_lock := un_lock s - 1\<rparr>)
     }
   }"

fun fill_stub :: "string \<Rightarrow> string option list \<Rightarrow> string option list" where
  "fill_stub n [] = []"
| "fill_stub n (None # rest) = Some n # rest"
| "fill_stub n (Some m # rest) = Some m # fill_stub n rest"

definition unpa_stub_resource :: "string \<Rightarrow> unpa_struct \<Rightarrow> unpa_struct option" where
  "unpa_stub_resource n s = do {
     _ \<leftarrow> unpa_get_resource n s;
     Some (s\<lparr>un_stubs := fill_stub n (un_stubs s)\<rparr>)
   }"

section \<open>The request pipeline\<close>

definition driver_needed :: "unpa_resource \<Rightarrow> u32 \<Rightarrow> u32 \<Rightarrow> bool" where
  "driver_needed r active_agg old_sleep_state \<longleftrightarrow>
     unpa_resource_has_attribute r UNPA_RESOURCE_DRIVER_UNCONDITIONAL
     \<or> active_agg \<noteq> rs_active_state r \<or> old_sleep_state \<noteq> rs_sleep_state r"

definition unpa_update_resource :: "unpa_env \<Rightarrow> addr \<Rightarrow> unpa_struct \<Rightarrow> unpa_struct option" where
  "unpa_update_resource env p s = do {
     c \<leftarrow> un_cli s p;
     let a = cl_resource c;
     r \<leftarrow> un_res s a;
     let old_sleep_state = rs_sleep_state r;
     (agg, sleep, active_agg) \<leftarrow> call_update_fcn env (un_cli s) r p c;
     let r = r\<lparr>rs_agg_state := agg, rs_sleep_state := sleep\<rparr>;
     let active_agg = (if active_agg > rs_active_max r then rs_active_max r else active_agg);
     let r = (if rs_sleep_state r > rs_active_max r
              then r\<lparr>rs_sleep_state := rs_active_max r\<rparr> else r);
     let (r, s) =
       (if driver_needed r active_agg old_sleep_state
        then (let (v, s) = call_driver_fcn env a r c active_agg s in (r\<lparr>rs_active_state := v\<rparr>, s))
        else (r, s));
     let s = set_cli p (c\<lparr>cl_active_request := cl_pending_request c\<rparr>) s;
     Some (set_res a (unlock_res r) s)
   }"

definition unpa_issue_request :: "unpa_env \<Rightarrow> addr \<Rightarrow> u32 \<Rightarrow> unpa_struct \<Rightarrow> unpa_struct option" where
  "unpa_issue_request env p request s = do {
     c \<leftarrow> un_cli s p;
     s \<leftarrow>
       (if request \<noteq> cl_active_request c then do {
          r \<leftarrow> un_res s (cl_resource c);
          let s = set_res (cl_resource c) (lock_res r) s;
          let s = set_cli p (c\<lparr>cl_pending_request := request\<rparr>) s;
          unpa_update_resource env p s
        } else Some s);
     c \<leftarrow> un_cli s p;
     Some (set_cli p (c\<lparr>cl_request_attr := UNPA_REQUEST_DEFAULT\<rparr>) s)
   }"

definition unpa_cancel_request :: "unpa_env \<Rightarrow> addr \<Rightarrow> unpa_struct \<Rightarrow> unpa_struct option" where
  "unpa_cancel_request env p s = do {
     c \<leftarrow> un_cli s p;
     unpa_issue_request env p 0
       (set_cli p (c\<lparr>cl_request_attr := cl_request_attr c OR UNPA_REQUEST_DROP_VOTE\<rparr>) s)
   }"

text \<open>
  \<open>err\<close> is the result of \<open>qurt_mutex_try_lock\<close>: 0 when the lock was taken. Note that the
  source stores the pending request before it tries the lock.
\<close>

definition unpa_try_issue_request ::
    "unpa_env \<Rightarrow> int \<Rightarrow> addr \<Rightarrow> u32 \<Rightarrow> unpa_struct \<Rightarrow> (int \<times> unpa_struct) option" where
  "unpa_try_issue_request env err p request s = do {
     c \<leftarrow> un_cli s p;
     (e, s) \<leftarrow>
       (if request \<noteq> cl_active_request c then do {
          r \<leftarrow> un_res s (cl_resource c);
          let s = set_cli p (c\<lparr>cl_pending_request := request\<rparr>) s;
          if err = 0 then do {
            s \<leftarrow> unpa_update_resource env p (set_res (cl_resource c) (lock_res r) s);
            Some (err, s)
          } else Some (err, s)
        } else Some (0, s));
     c \<leftarrow> un_cli s p;
     Some (e, set_cli p (c\<lparr>cl_request_attr := UNPA_REQUEST_DEFAULT\<rparr>) s)
   }"

definition unpa_try_cancel_request ::
    "unpa_env \<Rightarrow> int \<Rightarrow> addr \<Rightarrow> unpa_struct \<Rightarrow> (int \<times> unpa_struct) option" where
  "unpa_try_cancel_request env err p s = do {
     c \<leftarrow> un_cli s p;
     unpa_try_issue_request env err p 0
       (set_cli p (c\<lparr>cl_request_attr := cl_request_attr c OR UNPA_REQUEST_DROP_VOTE\<rparr>) s)
   }"

section \<open>Clients\<close>

text \<open>
  The notification both client operations end with: with the attribute
  \<open>UNPA_RESOURCE_CLIENT_CHANGE_NOTIFY\<close> the client gets the request flag and the driver
  is called with state 0, its result ignored.
\<close>

definition notify_client ::
    "unpa_env \<Rightarrow> 24 word \<Rightarrow> addr \<Rightarrow> unpa_resource \<Rightarrow> unpa_client \<Rightarrow> unpa_struct \<Rightarrow> unpa_client \<times> unpa_struct" where
  "notify_client env attr a r c s =
     (if unpa_resource_has_attribute r UNPA_RESOURCE_CLIENT_CHANGE_NOTIFY
      then (let c = c\<lparr>cl_request_attr := attr\<rparr> in (c, snd (call_driver_fcn env a r c 0 s)))
      else (c, s))"

definition unpa_create_client ::
    "unpa_env \<Rightarrow> addr \<Rightarrow> string \<Rightarrow> u32 \<Rightarrow> string \<Rightarrow> unpa_struct \<Rightarrow> (addr \<times> unpa_struct) option" where
  "unpa_create_client env alloc client_name client_type resource_name s = do {
     a \<leftarrow> unpa_get_resource resource_name s;
     if a = NULL then Some (NULL, s)
     else do {
       r \<leftarrow> un_res s a;
       let supported_types =
         (if df_client_types (rs_definition r) = UNPA_UPDATE_CLIENT_TYPES
          then unpa_get_supported_client_types (df_update_fcn (rs_definition r))
          else df_client_types (rs_definition r));
       if supported_types AND client_type = 0 then Some (NULL, s)
       else if alloc = NULL then Some (NULL, s)
       else do {
         let c = \<lparr>cl_name = client_name, cl_type = ucast client_type,
                  cl_request_attr = UNPA_REQUEST_DEFAULT, cl_active_request = 0,
                  cl_pending_request = 0, cl_resource = a\<rparr>;
         let r = (lock_res r)\<lparr>rs_clients := alloc # rs_clients r\<rparr>;
         let (c, s) = notify_client env UNPA_REQUEST_ADD_CLIENT a r c s;
         Some (alloc, set_res a (unlock_res r) (set_cli alloc c s))
       }
     }
   }"

text \<open>
  The unlink loop removes the first list node at the client's address; a client that is
  not on the list is freed all the same (\<open>CORE_VERIFY (c != NULL)\<close> is empty).
\<close>

definition unpa_destroy_client :: "unpa_env \<Rightarrow> addr \<Rightarrow> unpa_struct \<Rightarrow> unpa_struct option" where
  "unpa_destroy_client env p s = do {
     c \<leftarrow> un_cli s p;
     let a = cl_resource c;
     s \<leftarrow> unpa_cancel_request env p s;
     r \<leftarrow> un_res s a;
     c \<leftarrow> un_cli s p;
     let r = (lock_res r)\<lparr>rs_clients := remove1 p (rs_clients r)\<rparr>;
     let (c, s) = notify_client env UNPA_REQUEST_REMOVE_CLIENT a r c s;
     let s = set_res a (unlock_res r) s;
     Some (s\<lparr>un_cli := (un_cli s)(p := None)\<rparr>)
   }"

section \<open>Queries\<close>

fun find_client :: "client_heap \<Rightarrow> string \<Rightarrow> addr list \<Rightarrow> addr option" where
  "find_client cs n [] = Some NULL"
| "find_client cs n (p # ps) =
     (case cs p of
        None \<Rightarrow> None
      | Some c \<Rightarrow> (if strncmp_eq (UNPA_MAX_NAME_LEN + 1) n (cl_name c) then Some p
                   else find_client cs n ps))"

definition unpa_get_query_handle :: "string \<Rightarrow> unpa_struct \<Rightarrow> addr option" where
  "unpa_get_query_handle n s = unpa_get_resource n s"

definition unpa_get_client_query_handle :: "string \<Rightarrow> string \<Rightarrow> unpa_struct \<Rightarrow> addr option" where
  "unpa_get_client_query_handle client_name resource_name s = do {
     a \<leftarrow> unpa_get_resource resource_name s;
     if a \<noteq> NULL then do {
       r \<leftarrow> un_res s a;
       find_client (un_cli s) client_name (rs_clients r)
     } else Some NULL
   }"

datatype unpa_query_status = UNPA_QUERY_SUCCESS | UNPA_QUERY_UNSUPPORTED

text \<open>The query ids are the enumerators 0 to 3; the handle is cast by the id alone.\<close>

definition unpa_query ::
    "addr \<Rightarrow> nat \<Rightarrow> u32 \<Rightarrow> unpa_struct \<Rightarrow> (unpa_query_status \<times> u32) option" where
  "unpa_query handle qid result s =
     (if qid = 0 then map_option (\<lambda>r. (UNPA_QUERY_SUCCESS, rs_active_state r)) (un_res s handle)
      else if qid = 1 then map_option (\<lambda>r. (UNPA_QUERY_SUCCESS, rs_sleep_state r)) (un_res s handle)
      else if qid = 2 then map_option (\<lambda>r. (UNPA_QUERY_SUCCESS, rs_active_max r)) (un_res s handle)
      else if qid = 3 then map_option (\<lambda>c. (UNPA_QUERY_SUCCESS, cl_active_request c)) (un_cli s handle)
      else Some (UNPA_QUERY_UNSUPPORTED, result))"

section \<open>What the aggregates mean\<close>

text \<open>
  The votes of one client type: the active requests of the clients of that type. The
  specification of a resource says what \<open>agg_state\<close> is of those votes, whatever the
  order of the requests that led there.
\<close>

definition votes :: "client_heap \<Rightarrow> unpa_resource \<Rightarrow> u8 \<Rightarrow> u32 multiset" where
  "votes cs r t =
     {# cl_active_request (the (cs c)). c \<in># mset (filter (\<lambda>c. cl_type (the (cs c)) = t) (rs_clients r)) #}"

definition spec_max :: "u32 multiset \<Rightarrow> u32" where
  "spec_max M = Max (insert 0 (set_mset M))"

definition min_nonzero :: "u32 set \<Rightarrow> u32" where
  "min_nonzero S = (if S - {0} = {} then 0 else Min (S - {0}))"

definition spec_min :: "u32 multiset \<Rightarrow> u32" where
  "spec_min M = min_nonzero (set_mset M)"

definition spec_count :: "u32 multiset \<Rightarrow> u32" where
  "spec_count M = of_nat (size (filter_mset (\<lambda>v. v \<noteq> 0) M))"

definition type_index :: "u8 \<Rightarrow> nat" where
  "type_index t = (if t = UNPA_CLIENT_SUPPRESSIBLE then 1 else if t = UNPA_CLIENT_SLEEP then 2 else 0)"

definition clients_ok :: "client_heap \<Rightarrow> addr \<Rightarrow> unpa_resource \<Rightarrow> bool" where
  "clients_ok cs a r \<longleftrightarrow>
     distinct (rs_clients r) \<and> (\<forall>p \<in> set (rs_clients r). p \<noteq> NULL \<and> (\<exists>c. cs p = Some c \<and> cl_resource c = a))"

definition agg_ok :: "(u32 multiset \<Rightarrow> u32) \<Rightarrow> client_heap \<Rightarrow> unpa_resource \<Rightarrow> bool" where
  "agg_ok spec cs r \<longleftrightarrow>
     length (rs_agg_state r) = 3
     \<and> (\<forall>t. aggregated_type t \<longrightarrow> rs_agg_state r ! type_index t = spec (votes cs r t))"

fun spec_of :: "update_fcn \<Rightarrow> (u32 multiset \<Rightarrow> u32) option" where
  "spec_of Unpa_min_update_fcn = Some spec_min"
| "spec_of Unpa_max_update_fcn = Some spec_max"
| "spec_of Unpa_binary_update_fcn = Some spec_count"
| "spec_of (Other_update_fcn f) = None"

definition res_ok :: "client_heap \<Rightarrow> addr \<Rightarrow> unpa_resource \<Rightarrow> bool" where
  "res_ok cs a r \<longleftrightarrow>
     clients_ok cs a r
     \<and> (\<forall>spec. spec_of (df_update_fcn (rs_definition r)) = Some spec \<longrightarrow> agg_ok spec cs r)"

text \<open>
  The invariant of the framework: the resource list is well formed, every resource's
  client list holds its live clients once each, every live client is on the list of its
  resource, the aggregates are what the votes say, and no lock is held.
\<close>

definition heap_ok :: "unpa_struct \<Rightarrow> bool" where
  "heap_ok s \<longleftrightarrow>
     distinct (un_resources s) \<and> NULL \<notin> set (un_resources s) \<and> set (un_resources s) \<subseteq> dom (un_res s)
     \<and> (\<forall>a r. un_res s a = Some r \<longrightarrow> res_ok (un_cli s) a r)
     \<and> (\<forall>p c. un_cli s p = Some c \<longrightarrow>
           (\<exists>r. un_res s (cl_resource c) = Some r \<and> p \<in> set (rs_clients r)))"

definition unlocked :: "unpa_struct \<Rightarrow> bool" where
  "unlocked s \<longleftrightarrow> un_lock s = 0 \<and> (\<forall>a r. un_res s a = Some r \<longrightarrow> rs_lock r = 0)"

definition unpa_inv :: "unpa_struct \<Rightarrow> bool" where
  "unpa_inv s \<longleftrightarrow> heap_ok s \<and> unlocked s"

subsection \<open>Votes\<close>

lemma unpa_get_agg_index_eq: "aggregated_type (cl_type c) \<Longrightarrow> unpa_get_agg_index c = type_index (cl_type c)"
  by (auto simp: aggregated_type_def unpa_get_agg_index_def type_index_def unpa_index_defs unpa_type_defs)

lemma type_index_less [simp]: "type_index t < 3"
  by (simp add: type_index_def)

lemma type_index_inj:
  "aggregated_type t \<Longrightarrow> aggregated_type u \<Longrightarrow> type_index t = type_index u \<longleftrightarrow> t = u"
  by (auto simp: aggregated_type_def type_index_def unpa_type_defs)

text \<open>The votes without those of one client, and how one client's vote is put back.\<close>

definition other_votes :: "client_heap \<Rightarrow> addr \<Rightarrow> unpa_resource \<Rightarrow> u8 \<Rightarrow> u32 multiset" where
  "other_votes cs p r t = votes cs (r\<lparr>rs_clients := remove1 p (rs_clients r)\<rparr>) t"

lemma votes_split:
  assumes "p \<in> set (rs_clients r)" and "cs p = Some c"
  shows "votes cs r t =
    (if cl_type c = t then add_mset (cl_active_request c) (other_votes cs p r t) else other_votes cs p r t)"
proof -
  have m: "mset (rs_clients r) = add_mset p (mset (remove1 p (rs_clients r)))"
    using assms(1) by simp
  show ?thesis
    unfolding votes_def other_votes_def mset_filter m using assms(2) by simp
qed

lemma votes_cong:
  assumes "rs_clients r = rs_clients r'"
    and "\<And>p. p \<in> set (rs_clients r) \<Longrightarrow> cl_type (the (cs p)) = cl_type (the (cs' p))"
    and "\<And>p. p \<in> set (rs_clients r) \<Longrightarrow> cl_active_request (the (cs p)) = cl_active_request (the (cs' p))"
  shows "votes cs r t = votes cs' r' t"
  unfolding votes_def assms(1) [symmetric]
  using assms(2,3) by (auto intro!: image_mset_cong cong: filter_cong)

lemma other_votes_upd [simp]:
  assumes "distinct (rs_clients r)"
  shows "other_votes (cs(p \<mapsto> c)) p r t = other_votes cs p r t"
  unfolding other_votes_def using assms by (intro votes_cong) auto

lemma set_votes:
  "set_mset (votes cs r t) =
     {cl_active_request (the (cs q)) | q. q \<in> set (rs_clients r) \<and> cl_type (the (cs q)) = t}"
  by (auto simp: votes_def)

lemma set_other_votes:
  assumes "distinct (rs_clients r)"
  shows "set_mset (other_votes cs p r t) =
    {cl_active_request (the (cs q)) | q. q \<in> set (rs_clients r) \<and> q \<noteq> p \<and> cl_type (the (cs q)) = t}"
  using assms by (simp add: other_votes_def set_votes set_remove1_eq conj_assoc)

subsection \<open>The walks\<close>

lemma walk_clients_Some:
  assumes "\<forall>q \<in> set ps. cs q \<noteq> None"
  shows "walk_clients pick cs p self ps acc =
    Some (fold (\<lambda>q. pick (cl_active_request (the (cs q))))
            (filter (\<lambda>q. q \<noteq> p \<and> cl_type (the (cs q)) = cl_type self) ps) acc)"
  using assms by (induction ps arbitrary: acc) (auto split: option.splits)

lemma fold_pick_max: "fold (\<lambda>q. pick_max (g q)) qs acc = Max (insert acc (g ` set qs))"
proof (induction qs arbitrary: acc)
  case (Cons q qs)
  have "pick_max (g q) acc = max (g q) acc"
    by (auto simp: pick_max_def max_def)
  with Cons show ?case
    by (cases "qs = []") (simp_all add: max.commute max.left_commute max.assoc)
qed simp

lemma Min_insert_min:
  assumes "finite T"
  shows "Min (insert (min x y) T) = Min (insert y (insert x T))"
  using assms by (cases "T = {}") (simp_all add: min.commute min.left_commute min.assoc)

lemma min_nonzero_pick_min:
  assumes "finite S"
  shows "min_nonzero (insert (pick_min x y) S) = min_nonzero (insert y (insert x S))"
proof (cases "x = 0 \<or> y = 0")
  case True
  then show ?thesis by (auto simp: min_nonzero_def pick_min_def insert_Diff_if)
next
  case False
  let ?T = "S - {0}"
  have "pick_min x y = min x y" and "min x y \<noteq> 0"
    using False by (auto simp: pick_min_def min_def)
  moreover have "Min (insert (min x y) ?T) = Min (insert y (insert x ?T))"
    using assms by (intro Min_insert_min) simp
  ultimately show ?thesis
    using False by (simp add: min_nonzero_def insert_Diff_if)
qed

lemma fold_pick_min: "fold (\<lambda>q. pick_min (g q)) qs acc = min_nonzero (insert acc (g ` set qs))"
proof (induction qs arbitrary: acc)
  case Nil
  then show ?case by (simp add: min_nonzero_def insert_Diff_if)
next
  case (Cons q qs)
  then show ?case
    by (simp add: min_nonzero_pick_min)
qed

lemma walk_votes:
  assumes "clients_ok cs a r"
  shows "\<exists>qs. walk_clients pick cs p c (rs_clients r) acc =
      Some (fold (\<lambda>q. pick (cl_active_request (the (cs q)))) qs acc)
    \<and> (\<lambda>q. cl_active_request (the (cs q))) ` set qs = set_mset (other_votes cs p r (cl_type c))"
proof (intro exI conjI)
  have "\<forall>q \<in> set (rs_clients r). cs q \<noteq> None" and d: "distinct (rs_clients r)"
    using assms by (auto simp: clients_ok_def)
  then show "walk_clients pick cs p c (rs_clients r) acc =
      Some (fold (\<lambda>q. pick (cl_active_request (the (cs q))))
            (filter (\<lambda>q. q \<noteq> p \<and> cl_type (the (cs q)) = cl_type c) (rs_clients r)) acc)"
    by (intro walk_clients_Some)
  show "(\<lambda>q. cl_active_request (the (cs q))) `
      set (filter (\<lambda>q. q \<noteq> p \<and> cl_type (the (cs q)) = cl_type c) (rs_clients r))
    = set_mset (other_votes cs p r (cl_type c))"
    unfolding set_other_votes [OF d] by auto
qed

lemma walk_max:
  assumes "clients_ok cs a r"
  shows "walk_clients pick_max cs p c (rs_clients r) acc =
    Some (Max (insert acc (set_mset (other_votes cs p r (cl_type c)))))"
  using walk_votes [OF assms, of pick_max p c acc] by (auto simp: fold_pick_max)

lemma walk_min:
  assumes "clients_ok cs a r"
  shows "walk_clients pick_min cs p c (rs_clients r) acc =
    Some (min_nonzero (insert acc (set_mset (other_votes cs p r (cl_type c)))))"
  using walk_votes [OF assms, of pick_min p c acc] by (auto simp: fold_pick_min)

subsection \<open>The contract of an update function\<close>

text \<open>
  What the request pipeline relies on: an update function, called for a client whose
  pending request differs from its active one, leaves every aggregate equal to its
  specification over the votes as they are once the request is active, and reports the
  sleep and active aggregates as a combination of them.
\<close>

locale unpa_aggregator =
  fixes f :: update_fcn
    and spec :: "u32 multiset \<Rightarrow> u32"
    and comb :: "u32 \<Rightarrow> u32 \<Rightarrow> u32"
  assumes spec_zero: "spec (add_mset 0 M) = spec M"
    and spec_empty: "spec {#} = 0"
    and update_aggregated:
      "df_update_fcn (rs_definition r) = f \<Longrightarrow> clients_ok cs a r \<Longrightarrow> p \<in> set (rs_clients r) \<Longrightarrow>
       cs p = Some c \<Longrightarrow> aggregated_type (cl_type c) \<Longrightarrow> length (rs_agg_state r) = 3 \<Longrightarrow>
       rs_agg_state r ! type_index (cl_type c) =
         spec (add_mset (cl_active_request c) (other_votes cs p r (cl_type c))) \<Longrightarrow>
       agg = (rs_agg_state r)[type_index (cl_type c) :=
         spec (add_mset (cl_pending_request c) (other_votes cs p r (cl_type c)))] \<Longrightarrow>
       call_update_fcn env cs r p c = Some (agg, comb (agg ! 0) (agg ! 2), comb (agg ! 0) (agg ! 1))"
    and update_ignored:
      "df_update_fcn (rs_definition r) = f \<Longrightarrow> \<not> aggregated_type (cl_type c) \<Longrightarrow> agg = rs_agg_state r \<Longrightarrow>
       call_update_fcn env cs r p c = Some (agg, comb (agg ! 0) (agg ! 2), comb (agg ! 0) (agg ! 1))"
begin

lemma call_update_fcn_agg_ok:
  assumes f: "df_update_fcn (rs_definition r) = f" and ok: "clients_ok cs a r"
    and p: "p \<in> set (rs_clients r)" and c: "cs p = Some c" and agg: "agg_ok spec cs r"
  shows "\<exists>agg. call_update_fcn env cs r p c = Some (agg, comb (agg ! 0) (agg ! 2), comb (agg ! 0) (agg ! 1))
    \<and> agg_ok spec (cs(p \<mapsto> c\<lparr>cl_active_request := cl_pending_request c\<rparr>)) (r\<lparr>rs_agg_state := agg\<rparr>)"
proof -
  let ?c = "c\<lparr>cl_active_request := cl_pending_request c\<rparr>"
  let ?cs = "cs(p \<mapsto> ?c)"
  have d: "distinct (rs_clients r)" and l: "length (rs_agg_state r) = 3"
    using ok agg by (auto simp: clients_ok_def agg_ok_def)
  have v: "votes cs r t = (if cl_type c = t then add_mset (cl_active_request c) (other_votes cs p r t)
      else other_votes cs p r t)" for t
    using p c by (rule votes_split)
  have v': "votes ?cs (r\<lparr>rs_agg_state := x\<rparr>) t =
      (if cl_type c = t then add_mset (cl_pending_request c) (other_votes cs p r t) else other_votes cs p r t)" for x t
  proof -
    have "votes ?cs (r\<lparr>rs_agg_state := x\<rparr>) t = votes ?cs r t"
      by (rule votes_cong) auto
    also have "\<dots> = (if cl_type ?c = t then add_mset (cl_active_request ?c) (other_votes ?cs p r t)
        else other_votes ?cs p r t)"
      using p by (rule votes_split) simp
    finally show ?thesis using d by simp
  qed
  show ?thesis
  proof (cases "aggregated_type (cl_type c)")
    case True
    have "rs_agg_state r ! type_index (cl_type c) =
        spec (add_mset (cl_active_request c) (other_votes cs p r (cl_type c)))"
      using agg True by (simp add: agg_ok_def v)
    from update_aggregated [OF f ok p c True l this refl] show ?thesis
      using agg True l
      by (intro exI conjI) (assumption, auto simp: agg_ok_def v v' nth_list_update type_index_inj)
  next
    case False
    from update_ignored [OF f False refl] show ?thesis
      using agg False v' [of "rs_agg_state r"]
      by (intro exI conjI) (assumption, auto simp: agg_ok_def v)
  qed
qed

end

subsection \<open>The three update functions meet the contract\<close>

definition comb_min :: "u32 \<Rightarrow> u32 \<Rightarrow> u32" where
  "comb_min req x = (if x = 0 then req else if req = 0 then x else min req x)"

definition comb_any :: "u32 \<Rightarrow> u32 \<Rightarrow> u32" where
  "comb_any req x = of_bool (max req x > 0)"

lemma Max_insert_0: "finite S \<Longrightarrow> Max (insert 0 (insert x S)) = max x (Max (insert 0 S))" for x :: u32
  by (cases "S = {}") (simp_all add: max.left_commute)

lemma Max_insert_no_0: "finite S \<Longrightarrow> Max (insert x S) = max x (Max (insert 0 S))" for x :: u32
  by (cases "S = {}") (simp_all add: max.left_commute)

lemma min_nonzero_insert:
  assumes "finite S"
  shows "min_nonzero (insert x S) = pick_min x (min_nonzero S)"
proof -
  consider (zero) "x = 0" | (only) "x \<noteq> 0" "S - {0} = {}" | (both) "x \<noteq> 0" "S - {0} \<noteq> {}" by blast
  then show ?thesis
  proof cases
    case zero
    then show ?thesis by (simp add: min_nonzero_def pick_min_def)
  next
    case only
    then have "insert x S - {0} = {x}" by auto
    with only show ?thesis by (simp add: min_nonzero_def pick_min_def)
  next
    case both
    define m where "m = Min (S - {0})"
    have "m \<in> S - {0}"
      unfolding m_def using both assms by (intro Min_in) auto
    then have "m \<noteq> 0" by simp
    have "Min (insert x (S - {0})) = min x m"
      unfolding m_def using both assms by (intro Min_insert) auto
    then have "min_nonzero (insert x S) = min x m"
      using both by (simp add: min_nonzero_def insert_Diff_if)
    moreover have "min_nonzero S = m"
      using both by (simp add: min_nonzero_def m_def)
    ultimately show ?thesis
      using both \<open>m \<noteq> 0\<close> by (auto simp: pick_min_def min_def)
  qed
qed

lemma spec_max_add: "spec_max (add_mset v M) = max v (spec_max M)"
  by (simp only: spec_max_def set_mset_add_mset_insert Max_insert_0 finite_set_mset)

lemma spec_min_add: "spec_min (add_mset v M) = pick_min v (spec_min M)"
  by (simp add: spec_min_def min_nonzero_insert)

lemma spec_count_add: "spec_count (add_mset v M) = spec_count M + vote_bit v"
  by (simp add: spec_count_def vote_bit_def)

lemma max_update_agg:
  assumes r: "df_update_fcn (rs_definition r) = Unpa_max_update_fcn" and ok: "clients_ok cs a r"
    and p: "p \<in> set (rs_clients r)" and t: "aggregated_type (cl_type c)"
    and old: "rs_agg_state r ! type_index (cl_type c) =
      spec_max (add_mset (cl_active_request c) (other_votes cs p r (cl_type c)))"
    and agg: "agg = (rs_agg_state r)[type_index (cl_type c) :=
      spec_max (add_mset (cl_pending_request c) (other_votes cs p r (cl_type c)))]"
  shows "call_update_fcn env cs r p c = Some (agg, max (agg ! 0) (agg ! 2), max (agg ! 0) (agg ! 1))"
proof -
  let ?O = "other_votes cs p r (cl_type c)"
  have ne: "rs_clients r \<noteq> []" using p by auto
  have w: "walk_clients pick_max cs p c (rs_clients r) x = Some (max x (spec_max ?O))" for x
    unfolding walk_max [OF ok] spec_max_def by (subst Max_insert_no_0) simp_all
  have core: "(if cl_pending_request c > max (cl_active_request c) (spec_max ?O) then Some (cl_pending_request c)
      else if max (cl_active_request c) (spec_max ?O) = cl_active_request c
        then Some (max (cl_pending_request c) (spec_max ?O))
        else Some (max (cl_active_request c) (spec_max ?O)))
    = Some (max (cl_pending_request c) (spec_max ?O))"
    by (auto simp: max_def)
  show ?thesis
    unfolding call_update_fcn_def r update_fcn.case unpa_max_update_fcn_def Let_def
      unpa_get_agg_index_eq [OF t] old spec_max_add agg unpa_index_defs
    using t ne by (simp only: w core if_True if_False Option.bind.bind_lunit)
qed

lemma min_update_agg:
  assumes r: "df_update_fcn (rs_definition r) = Unpa_min_update_fcn" and ok: "clients_ok cs a r"
    and p: "p \<in> set (rs_clients r)" and t: "aggregated_type (cl_type c)"
    and old: "rs_agg_state r ! type_index (cl_type c) =
      spec_min (add_mset (cl_active_request c) (other_votes cs p r (cl_type c)))"
    and agg: "agg = (rs_agg_state r)[type_index (cl_type c) :=
      spec_min (add_mset (cl_pending_request c) (other_votes cs p r (cl_type c)))]"
  shows "call_update_fcn env cs r p c = Some (agg, comb_min (agg ! 0) (agg ! 2), comb_min (agg ! 0) (agg ! 1))"
proof -
  let ?O = "other_votes cs p r (cl_type c)" and ?a = "cl_active_request c" and ?b = "cl_pending_request c"
  have ne: "rs_clients r \<noteq> []" using p by auto
  have w: "walk_clients pick_min cs p c (rs_clients r) x = Some (pick_min x (spec_min ?O))" for x
    by (simp add: walk_min [OF ok] min_nonzero_insert spec_min_def)
  have core: "(if ?b \<noteq> 0 \<and> (pick_min ?a (spec_min ?O) = 0 \<or> ?b < pick_min ?a (spec_min ?O)) then Some ?b
      else if pick_min ?a (spec_min ?O) = ?a then Some (pick_min ?b (spec_min ?O))
        else Some (pick_min ?a (spec_min ?O)))
    = Some (pick_min ?b (spec_min ?O))"
    by (auto simp: pick_min_def)
  show ?thesis
    unfolding call_update_fcn_def r update_fcn.case unpa_min_update_fcn_def Let_def
      unpa_get_agg_index_eq [OF t] old spec_min_add agg unpa_index_defs comb_min_def
    using t ne by (simp only: w core if_True if_False Option.bind.bind_lunit)
qed

interpretation agg_max: unpa_aggregator Unpa_max_update_fcn spec_max max
proof (unfold_locales, goal_cases)
  case (3 r cs a p c agg env)
  then show ?case by (intro max_update_agg)
qed (simp_all add: spec_max_add spec_max_def call_update_fcn_def unpa_max_update_fcn_def unpa_index_defs)

interpretation agg_min: unpa_aggregator Unpa_min_update_fcn spec_min comb_min
proof (unfold_locales, goal_cases)
  case (3 r cs a p c agg env)
  then show ?case by (intro min_update_agg)
qed (simp_all add: spec_min_add pick_min_def spec_min_def min_nonzero_def call_update_fcn_def
    unpa_min_update_fcn_def unpa_index_defs comb_min_def)

interpretation agg_count: unpa_aggregator Unpa_binary_update_fcn spec_count comb_any
proof (unfold_locales, goal_cases)
  case (3 r cs a p c agg env)
  then show ?case
    by (simp add: call_update_fcn_def unpa_binary_update_fcn_def unpa_get_agg_index_eq unpa_index_defs
        comb_any_def spec_count_add)
qed (simp_all add: spec_count_add vote_bit_def spec_count_def call_update_fcn_def
    unpa_binary_update_fcn_def unpa_index_defs comb_any_def)

end
