(* ===== verification/Unpa_Correct.thy ===== *)
theory Unpa_Correct
  imports Unpa
begin

text \<open>
  Correctness of the uNPA framework: every operation keeps \<open>unpa_inv\<close> (the aggregates
  are exactly the specified function of the votes and no lock stays held), what a
  request does to the active state and which driver calls it makes, and the sequences
  of operations as a step relation.
\<close>

section \<open>Small changes of the heap\<close>

lemma call_driver_simps [simp]:
  "fst (call_driver_fcn env a r c v s) = env_driver env (df_driver_fcn (rs_definition r)) r c v"
  "un_cli (snd (call_driver_fcn env a r c v s)) = un_cli s"
  "un_res (snd (call_driver_fcn env a r c v s)) = un_res s"
  "un_resources (snd (call_driver_fcn env a r c v s)) = un_resources s"
  "un_lock (snd (call_driver_fcn env a r c v s)) = un_lock s"
  "un_log (snd (call_driver_fcn env a r c v s)) =
     un_log s @ [\<lparr>dc_resource = a, dc_client = c, dc_state = v\<rparr>]"
  by (simp_all add: call_driver_fcn_def)

lemma set_res_simps [simp]:
  "un_cli (set_res a r s) = un_cli s" "un_res (set_res a r s) = (un_res s)(a \<mapsto> r)"
  "un_resources (set_res a r s) = un_resources s" "un_lock (set_res a r s) = un_lock s"
  "un_log (set_res a r s) = un_log s"
  by (simp_all add: set_res_def)

lemma set_cli_simps [simp]:
  "un_cli (set_cli p c s) = (un_cli s)(p \<mapsto> c)" "un_res (set_cli p c s) = un_res s"
  "un_resources (set_cli p c s) = un_resources s" "un_lock (set_cli p c s) = un_lock s"
  "un_log (set_cli p c s) = un_log s"
  by (simp_all add: set_cli_def)

lemma lock_simps [simp]:
  "rs_lock (lock_res r) = Suc (rs_lock r)" "rs_lock (unlock_res r) = rs_lock r - 1"
  "rs_clients (lock_res r) = rs_clients r" "rs_clients (unlock_res r) = rs_clients r"
  "rs_agg_state (lock_res r) = rs_agg_state r" "rs_agg_state (unlock_res r) = rs_agg_state r"
  "rs_definition (lock_res r) = rs_definition r" "rs_definition (unlock_res r) = rs_definition r"
  "rs_active_state (lock_res r) = rs_active_state r" "rs_active_state (unlock_res r) = rs_active_state r"
  "rs_sleep_state (lock_res r) = rs_sleep_state r" "rs_sleep_state (unlock_res r) = rs_sleep_state r"
  "rs_active_max (lock_res r) = rs_active_max r" "rs_active_max (unlock_res r) = rs_active_max r"
  by (simp_all add: lock_res_def unlock_res_def)

text \<open>What an invariant about one resource reads of it and of its clients.\<close>

definition vote_view :: "unpa_client \<Rightarrow> u8 \<times> addr \<times> u32" where
  "vote_view c = (cl_type c, cl_resource c, cl_active_request c)"

lemma vote_view_eq:
  assumes "map_option vote_view x = map_option vote_view y"
  shows "(\<exists>c. x = Some c \<and> cl_resource c = a) \<longleftrightarrow> (\<exists>c. y = Some c \<and> cl_resource c = a)"
    and "x = Some c \<Longrightarrow> cl_type c = cl_type (the y) \<and> cl_active_request c = cl_active_request (the y)"
  using assms by (cases x; cases y; auto simp: vote_view_def)+

lemma res_ok_cong:
  assumes "rs_definition r = rs_definition r'" "rs_clients r = rs_clients r'" "rs_agg_state r = rs_agg_state r'"
    and cs: "\<And>p. p \<in> set (rs_clients r) \<Longrightarrow> map_option vote_view (cs p) = map_option vote_view (cs' p)"
  shows "res_ok cs a r \<longleftrightarrow> res_ok cs' a r'"
proof -
  have ok: "clients_ok cs a r \<longleftrightarrow> clients_ok cs' a r'"
    unfolding clients_ok_def assms(2) [symmetric] using vote_view_eq(1) [OF cs] by blast
  have "votes cs r t = votes cs' r' t" if "clients_ok cs a r" for t
  proof (rule votes_cong [OF assms(2)])
    fix p assume p: "p \<in> set (rs_clients r)"
    with that obtain c where "cs p = Some c" by (auto simp: clients_ok_def)
    with vote_view_eq(2) [OF cs [OF p]] show "cl_type (the (cs p)) = cl_type (the (cs' p))"
      and "cl_active_request (the (cs p)) = cl_active_request (the (cs' p))"
      by auto
  qed
  then show ?thesis
    using ok assms(1,3) by (auto simp: res_ok_def agg_ok_def)
qed

lemma heap_ok_res: "heap_ok s \<Longrightarrow> un_res s a = Some r \<Longrightarrow> res_ok (un_cli s) a r"
  by (simp add: heap_ok_def)

lemma heap_ok_cli:
  "heap_ok s \<Longrightarrow> un_cli s p = Some c \<Longrightarrow> \<exists>r. un_res s (cl_resource c) = Some r \<and> p \<in> set (rs_clients r)"
  by (simp add: heap_ok_def)

lemma res_ok_clients: "res_ok cs a r \<Longrightarrow> clients_ok cs a r"
  by (simp add: res_ok_def)

lemma heap_ok_member:
  assumes "heap_ok s" and "un_res s a = Some r" and "p \<in> set (rs_clients r)"
  obtains c where "un_cli s p = Some c" "cl_resource c = a" "p \<noteq> NULL"
  using res_ok_clients [OF heap_ok_res [OF assms(1,2)]] assms(3) by (auto simp: clients_ok_def)

lemma heap_ok_other_clients:
  assumes "heap_ok s" and "un_cli s p = Some c" and "un_res s b = Some r" and "b \<noteq> cl_resource c"
  shows "p \<notin> set (rs_clients r)"
  using assms by (metis heap_ok_member option.inject)

lemma heap_ok_update:
  assumes ok: "heap_ok s" and c: "un_cli s p = Some c" and r: "un_res s (cl_resource c) = Some r"
    and c': "cl_resource c' = cl_resource c" and r': "rs_clients r' = rs_clients r"
    and res: "res_ok ((un_cli s)(p \<mapsto> c')) (cl_resource c) r'"
    and t: "un_resources t = un_resources s" "un_cli t = (un_cli s)(p \<mapsto> c')"
      "un_res t = (un_res s)(cl_resource c \<mapsto> r')"
  shows "heap_ok t"
  unfolding heap_ok_def t
proof (intro conjI allI impI)
  fix b q assume b: "((un_res s)(cl_resource c \<mapsto> r')) b = Some q"
  show "res_ok ((un_cli s)(p \<mapsto> c')) b q"
  proof (cases "b = cl_resource c")
    case False
    then have "un_res s b = Some q" using b by simp
    then have "res_ok (un_cli s) b q" and "p \<notin> set (rs_clients q)"
      using ok c False heap_ok_other_clients heap_ok_res by blast+
    then show ?thesis by (subst res_ok_cong [where cs' = "un_cli s" and r' = q]) auto
  qed (use b res in simp)
next
  fix q d assume d: "((un_cli s)(p \<mapsto> c')) q = Some d"
  show "\<exists>x. ((un_res s)(cl_resource c \<mapsto> r')) (cl_resource d) = Some x \<and> q \<in> set (rs_clients x)"
  proof (cases "q = p")
    case True
    with d c' r' r show ?thesis using heap_ok_cli [OF ok c] by auto
  next
    case False
    with d obtain x where "un_res s (cl_resource d) = Some x" "q \<in> set (rs_clients x)"
      using heap_ok_cli [OF ok, of q d] by auto
    then show ?thesis using r r' by auto
  qed
qed (use ok in \<open>auto simp: heap_ok_def\<close>)

lemma heap_ok_same_votes:
  assumes "heap_ok s" and "un_cli s p = Some c" and "un_res s (cl_resource c) = Some r"
    and "cl_resource c' = cl_resource c" "cl_type c' = cl_type c" "cl_active_request c' = cl_active_request c"
    and "rs_clients r' = rs_clients r" "rs_agg_state r' = rs_agg_state r" "rs_definition r' = rs_definition r"
    and "un_resources t = un_resources s" "un_cli t = (un_cli s)(p \<mapsto> c')"
      "un_res t = (un_res s)(cl_resource c \<mapsto> r')"
  shows "heap_ok t"
proof (rule heap_ok_update [OF assms(1-3), of c' r'])
  have "res_ok (un_cli s) (cl_resource c) r"
    using assms(1,3) by (auto simp: heap_ok_def)
  then show "res_ok ((un_cli s)(p \<mapsto> c')) (cl_resource c) r'"
    using assms(2,4-9)
    by (subst res_ok_cong [where cs' = "un_cli s" and r' = r]) (auto simp: vote_view_def)
qed (use assms in simp_all)

section \<open>The request pipeline\<close>

fun comb_of :: "update_fcn \<Rightarrow> (u32 \<Rightarrow> u32 \<Rightarrow> u32) option" where
  "comb_of Unpa_min_update_fcn = Some comb_min"
| "comb_of Unpa_max_update_fcn = Some max"
| "comb_of Unpa_binary_update_fcn = Some comb_any"
| "comb_of (Other_update_fcn f) = None"

lemma call_update_total:
  assumes "res_ok cs a r" and "p \<in> set (rs_clients r)" and "cs p = Some c"
  obtains agg sl act where "call_update_fcn env cs r p c = Some (agg, sl, act)"
    and "\<forall>spec. spec_of (df_update_fcn (rs_definition r)) = Some spec \<longrightarrow>
      agg_ok spec (cs(p \<mapsto> c\<lparr>cl_active_request := cl_pending_request c\<rparr>)) (r\<lparr>rs_agg_state := agg\<rparr>)"
    and "\<forall>comb. comb_of (df_update_fcn (rs_definition r)) = Some comb \<longrightarrow>
      sl = comb (agg ! 0) (agg ! 2) \<and> act = comb (agg ! 0) (agg ! 1)"
proof (cases "df_update_fcn (rs_definition r)")
  case Unpa_min_update_fcn
  with assms show ?thesis
    using agg_min.call_update_fcn_agg_ok [of r cs a p c env] that by (auto simp: res_ok_def)
next
  case Unpa_max_update_fcn
  with assms show ?thesis
    using agg_max.call_update_fcn_agg_ok [of r cs a p c env] that by (auto simp: res_ok_def)
next
  case Unpa_binary_update_fcn
  with assms show ?thesis
    using agg_count.call_update_fcn_agg_ok [of r cs a p c env] that by (auto simp: res_ok_def)
next
  case (Other_update_fcn f)
  with that show ?thesis
    by (cases "env_update env f r c") (auto simp: call_update_fcn_def)
qed

text \<open>The pipeline in one equation, once the update function has answered.\<close>

definition driver_wanted :: "unpa_resource \<Rightarrow> u32 \<Rightarrow> u32 \<Rightarrow> bool" where
  "driver_wanted r target sleep \<longleftrightarrow>
     unpa_resource_has_attribute r UNPA_RESOURCE_DRIVER_UNCONDITIONAL
     \<or> target \<noteq> rs_active_state r \<or> sleep \<noteq> rs_sleep_state r"

definition apply_aggregate ::
    "unpa_env \<Rightarrow> addr \<Rightarrow> unpa_client \<Rightarrow> unpa_resource \<Rightarrow> u32 list \<Rightarrow> u32 \<Rightarrow> u32 \<Rightarrow> unpa_struct
      \<Rightarrow> unpa_resource \<times> unpa_struct" where
  "apply_aggregate env a c r agg sleep target s =
     (let rd = r\<lparr>rs_agg_state := agg, rs_sleep_state := sleep\<rparr>
      in if driver_wanted r target sleep
         then (rd\<lparr>rs_active_state := fst (call_driver_fcn env a rd c target s)\<rparr>,
               snd (call_driver_fcn env a rd c target s))
         else (rd, s))"

lemma unpa_update_resource_eq:
  assumes "un_cli s p = Some c" and "un_res s (cl_resource c) = Some r"
    and "call_update_fcn env (un_cli s) r p c = Some (agg, sl, act)"
    and "apply_aggregate env (cl_resource c) c r agg (min sl (rs_active_max r)) (min act (rs_active_max r)) s = (r', s')"
  shows "unpa_update_resource env p s =
    Some (set_res (cl_resource c) (unlock_res r')
           (set_cli p (c\<lparr>cl_active_request := cl_pending_request c\<rparr>) s'))"
proof -
  have m: "(if x > y then y else x) = min x y" for x y :: u32
    by (auto simp: min_def)
  have mn: "rs_active_max r < sl \<Longrightarrow> min sl (rs_active_max r) = rs_active_max r"
      "\<not> rs_active_max r < sl \<Longrightarrow> min sl (rs_active_max r) = sl"
    by (auto simp: min_def)
  have dw: "driver_needed (r\<lparr>rs_agg_state := agg, rs_sleep_state := x\<rparr>) y (rs_sleep_state r)
    = driver_wanted r y x" for x y
    by (auto simp: driver_needed_def driver_wanted_def unpa_resource_has_attribute_def)
  have "r' = fst (apply_aggregate env (cl_resource c) c r agg (min sl (rs_active_max r)) (min act (rs_active_max r)) s)"
    and "s' = snd (apply_aggregate env (cl_resource c) c r agg (min sl (rs_active_max r)) (min act (rs_active_max r)) s)"
    using assms(4) by simp_all
  then show ?thesis
    using assms(1-3)
    by (cases "rs_active_max r < sl";
        cases "driver_wanted r (min act (rs_active_max r)) (min sl (rs_active_max r))")
      (simp_all add: unpa_update_resource_def apply_aggregate_def m mn dw Let_def case_prod_beta)
qed

lemma apply_aggregate_simps [simp]:
  "rs_definition (fst (apply_aggregate env a c r agg sl act s)) = rs_definition r"
  "rs_clients (fst (apply_aggregate env a c r agg sl act s)) = rs_clients r"
  "rs_agg_state (fst (apply_aggregate env a c r agg sl act s)) = agg"
  "rs_sleep_state (fst (apply_aggregate env a c r agg sl act s)) = sl"
  "rs_active_max (fst (apply_aggregate env a c r agg sl act s)) = rs_active_max r"
  "rs_lock (fst (apply_aggregate env a c r agg sl act s)) = rs_lock r"
  "un_cli (snd (apply_aggregate env a c r agg sl act s)) = un_cli s"
  "un_res (snd (apply_aggregate env a c r agg sl act s)) = un_res s"
  "un_resources (snd (apply_aggregate env a c r agg sl act s)) = un_resources s"
  "un_lock (snd (apply_aggregate env a c r agg sl act s)) = un_lock s"
  by (simp_all add: apply_aggregate_def Let_def)

lemma apply_aggregateD:
  assumes "apply_aggregate env a c r agg sl act s = (r1, s1)"
  shows "rs_definition r1 = rs_definition r" "rs_clients r1 = rs_clients r" "rs_agg_state r1 = agg"
    "rs_sleep_state r1 = sl" "rs_active_max r1 = rs_active_max r" "rs_lock r1 = rs_lock r"
    "un_cli s1 = un_cli s" "un_res s1 = un_res s" "un_resources s1 = un_resources s" "un_lock s1 = un_lock s"
  using apply_aggregate_simps [of env a c r agg sl act s] unfolding assms by simp_all

lemma apply_aggregate_driver:
  assumes "apply_aggregate env a c r agg sl act s = (r1, s1)"
  shows "if driver_wanted r act sl
    then (\<exists>rd. rs_lock rd = rs_lock r
           \<and> rs_active_state r1 = env_driver env (df_driver_fcn (rs_definition r)) rd c act)
         \<and> un_log s1 = un_log s @ [\<lparr>dc_resource = a, dc_client = c, dc_state = act\<rparr>]
    else rs_active_state r1 = rs_active_state r \<and> un_log s1 = un_log s"
  using assms
  by (auto simp: apply_aggregate_def Let_def split: if_splits
      intro: exI [of _ "r\<lparr>rs_agg_state := agg, rs_sleep_state := sl\<rparr>"])

text \<open>
  One request through the pipeline from a state that satisfies the heap invariant: it
  returns, keeps the invariant and gives the lock back once.
\<close>

lemma unpa_update_resource_ok:
  assumes ok: "heap_ok s" and c: "un_cli s p = Some c" and r: "un_res s (cl_resource c) = Some r"
  obtains s' agg sl act r1 s1 where
    "apply_aggregate env (cl_resource c) c r agg (min sl (rs_active_max r)) (min act (rs_active_max r)) s = (r1, s1)"
    and "unpa_update_resource env p s = Some s'"
    and "s' = set_res (cl_resource c) (unlock_res r1)
           (set_cli p (c\<lparr>cl_active_request := cl_pending_request c\<rparr>) s1)"
    and "heap_ok s'"
    and "\<forall>comb. comb_of (df_update_fcn (rs_definition r)) = Some comb \<longrightarrow>
      sl = comb (agg ! 0) (agg ! 2) \<and> act = comb (agg ! 0) (agg ! 1)"
proof -
  let ?c = "c\<lparr>cl_active_request := cl_pending_request c\<rparr>"
  have p: "p \<in> set (rs_clients r)" and res: "res_ok (un_cli s) (cl_resource c) r"
    using heap_ok_cli [OF ok c] heap_ok_res [OF ok r] r by auto
  from res p c obtain agg sl act where call: "call_update_fcn env (un_cli s) r p c = Some (agg, sl, act)"
    and agg: "\<forall>spec. spec_of (df_update_fcn (rs_definition r)) = Some spec \<longrightarrow>
      agg_ok spec ((un_cli s)(p \<mapsto> ?c)) (r\<lparr>rs_agg_state := agg\<rparr>)"
    and comb: "\<forall>comb. comb_of (df_update_fcn (rs_definition r)) = Some comb \<longrightarrow>
      sl = comb (agg ! 0) (agg ! 2) \<and> act = comb (agg ! 0) (agg ! 1)"
    by (rule call_update_total [of _ _ _ _ _ env])
  obtain r1 s1 where ap: "apply_aggregate env (cl_resource c) c r agg
      (min sl (rs_active_max r)) (min act (rs_active_max r)) s = (r1, s1)"
    by (cases "apply_aggregate env (cl_resource c) c r agg
      (min sl (rs_active_max r)) (min act (rs_active_max r)) s")
  let ?t = "set_res (cl_resource c) (unlock_res r1) (set_cli p ?c s1)"
  note r1 = apply_aggregateD [OF ap]
  have "clients_ok ((un_cli s)(p \<mapsto> ?c)) (cl_resource c) r"
    using res c by (auto simp: res_ok_def clients_ok_def)
  then have "res_ok ((un_cli s)(p \<mapsto> ?c)) (cl_resource c) (r\<lparr>rs_agg_state := agg\<rparr>)"
    using agg by (auto simp: res_ok_def clients_ok_def)
  then have "res_ok ((un_cli s)(p \<mapsto> ?c)) (cl_resource c) (unlock_res r1)"
    by (subst res_ok_cong [where r' = "r\<lparr>rs_agg_state := agg\<rparr>"]) (auto simp: r1)
  then have "heap_ok ?t"
    by (intro heap_ok_update [OF ok c r, of ?c "unlock_res r1"]) (auto simp: r1)
  with ap comb unpa_update_resource_eq [OF c r call ap] show ?thesis
    using that by blast
qed

section \<open>Every operation keeps the invariant\<close>

text \<open>What a request leaves alone: the other clients, and which clients a resource has.\<close>

definition request_frame :: "addr \<Rightarrow> unpa_struct \<Rightarrow> unpa_struct \<Rightarrow> bool" where
  "request_frame p s s' \<longleftrightarrow>
     (\<forall>q. q \<noteq> p \<longrightarrow> un_cli s' q = un_cli s q)
     \<and> (\<forall>c. un_cli s p = Some c \<longrightarrow> (\<exists>c'. un_cli s' p = Some c' \<and> cl_type c' = cl_type c
           \<and> cl_name c' = cl_name c \<and> cl_resource c' = cl_resource c))
     \<and> (\<forall>a. map_option rs_clients (un_res s' a) = map_option rs_clients (un_res s a))
     \<and> (\<forall>a. map_option rs_definition (un_res s' a) = map_option rs_definition (un_res s a))
     \<and> un_resources s' = un_resources s"

lemma unpa_inv_client:
  "unpa_inv s \<Longrightarrow> un_cli s p = Some c \<Longrightarrow> \<exists>r. un_res s (cl_resource c) = Some r \<and> p \<in> set (rs_clients r)"
  by (simp add: unpa_inv_def heap_ok_cli)

text \<open>A client's flags and pending request are no part of the invariant.\<close>

lemma unpa_inv_set_cli:
  assumes "unpa_inv s" and "un_cli s p = Some c"
    and "cl_resource c' = cl_resource c" "cl_type c' = cl_type c" "cl_active_request c' = cl_active_request c"
  shows "unpa_inv (set_cli p c' s)"
proof -
  obtain r where r: "un_res s (cl_resource c) = Some r"
    using unpa_inv_client [OF assms(1,2)] by blast
  have "heap_ok (set_cli p c' s)"
    by (rule heap_ok_same_votes [of s p c r c' r])
      (use assms r in \<open>simp_all add: unpa_inv_def fun_upd_idem\<close>)
  with assms(1) show ?thesis by (simp add: unpa_inv_def unlocked_def)
qed

lemma locked_update_ok:
  assumes inv: "unpa_inv s" and c: "un_cli s p = Some c"
  obtains s' c' where
    "unpa_update_resource env p (set_cli p (c\<lparr>cl_pending_request := v\<rparr>)
       (set_res (cl_resource c) (lock_res (the (un_res s (cl_resource c)))) s)) = Some s'"
    and "unpa_inv s'" and "un_cli s' p = Some c'" and "cl_active_request c' = v"
    and "request_frame p s s'"
proof -
  obtain r where r: "un_res s (cl_resource c) = Some r"
    using unpa_inv_client [OF inv c] by blast
  let ?c = "c\<lparr>cl_pending_request := v\<rparr>"
  let ?s = "set_cli p ?c (set_res (cl_resource c) (lock_res r) s)"
  have "heap_ok ?s"
    by (rule heap_ok_same_votes [of s p c r ?c "lock_res r"])
      (use inv c r in \<open>simp_all add: unpa_inv_def\<close>)
  moreover have "un_cli ?s p = Some ?c" and "un_res ?s (cl_resource ?c) = Some (lock_res r)"
    by simp_all
  ultimately obtain s' agg sl act r1 s1 where
      ap: "apply_aggregate env (cl_resource ?c) ?c (lock_res r) agg
        (min sl (rs_active_max (lock_res r))) (min act (rs_active_max (lock_res r))) ?s = (r1, s1)"
    and up: "unpa_update_resource env p ?s = Some s'"
    and s': "s' = set_res (cl_resource ?c) (unlock_res r1)
      (set_cli p (?c\<lparr>cl_active_request := cl_pending_request ?c\<rparr>) s1)"
    and ok: "heap_ok s'"
    by (rule unpa_update_resource_ok)
  note r1 = apply_aggregateD [OF ap]
  have "unpa_inv s'"
    using ok inv r by (auto simp: unpa_inv_def unlocked_def s' r1)
  moreover have "request_frame p s s'"
    using c r by (auto simp: request_frame_def s' r1)
  ultimately show ?thesis
    using up r that by (auto simp: s')
qed

lemma request_frame_set_cli:
  assumes "request_frame p s s'" and "un_cli s p = Some c" and "un_cli s' p = Some c'"
  shows "request_frame p s (set_cli p (c'\<lparr>cl_request_attr := x\<rparr>) s')"
  using assms by (auto simp: request_frame_def)

lemma set_cli_set_res: "set_cli p c (set_res a r s) = set_res a r (set_cli p c s)"
  by (simp add: set_cli_def set_res_def)

lemma issue_request_ok:
  assumes inv: "unpa_inv s" and c: "un_cli s p = Some c"
  obtains s' c' where "unpa_issue_request env p v s = Some s'" and "unpa_inv s'"
    and "un_cli s' p = Some c'" and "cl_active_request c' = v" and "request_frame p s s'"
proof (cases "v = cl_active_request c")
  case True
  let ?c = "c\<lparr>cl_request_attr := UNPA_REQUEST_DEFAULT\<rparr>"
  have "unpa_inv (set_cli p ?c s)"
    by (rule unpa_inv_set_cli [OF inv c]) simp_all
  moreover have "request_frame p s (set_cli p ?c s)"
    using c by (auto simp: request_frame_def)
  ultimately show ?thesis
    using True c that [of "set_cli p ?c s"] by (simp add: unpa_issue_request_def)
next
  case False
  obtain r where r: "un_res s (cl_resource c) = Some r"
    using unpa_inv_client [OF inv c] by blast
  obtain s1 c1 where up: "unpa_update_resource env p (set_cli p (c\<lparr>cl_pending_request := v\<rparr>)
       (set_res (cl_resource c) (lock_res (the (un_res s (cl_resource c)))) s)) = Some s1"
    and s1: "unpa_inv s1" "un_cli s1 p = Some c1" "cl_active_request c1 = v" "request_frame p s s1"
    using locked_update_ok [OF inv c] by blast
  let ?c = "c1\<lparr>cl_request_attr := UNPA_REQUEST_DEFAULT\<rparr>"
  have "unpa_issue_request env p v s = Some (set_cli p ?c s1)"
    using c r False up s1 by (simp add: unpa_issue_request_def)
  moreover have "unpa_inv (set_cli p ?c s1)"
    by (rule unpa_inv_set_cli [OF s1(1,2)]) simp_all
  moreover have "request_frame p s (set_cli p ?c s1)"
    using s1 c by (intro request_frame_set_cli)
  ultimately show ?thesis
    using s1 that by simp
qed

lemma request_frame_attr:
  assumes "un_cli s p = Some c"
  shows "request_frame p (set_cli p (c\<lparr>cl_request_attr := x\<rparr>) s) s' \<longleftrightarrow> request_frame p s s'"
  using assms by (simp add: request_frame_def)

lemma cancel_request_ok:
  assumes inv: "unpa_inv s" and c: "un_cli s p = Some c"
  obtains s' c' where "unpa_cancel_request env p s = Some s'" and "unpa_inv s'"
    and "un_cli s' p = Some c'" and "cl_active_request c' = 0" and "request_frame p s s'"
proof -
  let ?c = "c\<lparr>cl_request_attr := cl_request_attr c OR UNPA_REQUEST_DROP_VOTE\<rparr>"
  have "unpa_inv (set_cli p ?c s)"
    by (rule unpa_inv_set_cli [OF inv c]) simp_all
  moreover have "un_cli (set_cli p ?c s) p = Some ?c" by simp
  ultimately obtain s' c' where "unpa_issue_request env p 0 (set_cli p ?c s) = Some s'" and "unpa_inv s'"
    and "un_cli s' p = Some c'" and "cl_active_request c' = 0" and "request_frame p (set_cli p ?c s) s'"
    by (rule issue_request_ok)
  with c that show ?thesis
    by (simp add: unpa_cancel_request_def request_frame_attr)
qed

lemma try_issue_request_ok:
  assumes inv: "unpa_inv s" and c: "un_cli s p = Some c"
  obtains e s' c' where "unpa_try_issue_request env err p v s = Some (e, s')" and "unpa_inv s'"
    and "un_cli s' p = Some c'" and "request_frame p s s'"
    and "cl_active_request c' = (if err = 0 then v else cl_active_request c)"
    and "e = (if v = cl_active_request c then 0 else err)"
proof (cases "v = cl_active_request c")
  case True
  let ?c = "c\<lparr>cl_request_attr := UNPA_REQUEST_DEFAULT\<rparr>"
  have "unpa_inv (set_cli p ?c s)"
    by (rule unpa_inv_set_cli [OF inv c]) simp_all
  moreover have "request_frame p s (set_cli p ?c s)"
    using c by (auto simp: request_frame_def)
  ultimately show ?thesis
    using True c that [of 0 "set_cli p ?c s"] by (simp add: unpa_try_issue_request_def)
next
  case False
  obtain r where r: "un_res s (cl_resource c) = Some r"
    using unpa_inv_client [OF inv c] by blast
  show ?thesis
  proof (cases "err = 0")
    case True
    obtain s1 c1 where up: "unpa_update_resource env p (set_cli p (c\<lparr>cl_pending_request := v\<rparr>)
         (set_res (cl_resource c) (lock_res (the (un_res s (cl_resource c)))) s)) = Some s1"
      and s1: "unpa_inv s1" "un_cli s1 p = Some c1" "cl_active_request c1 = v" "request_frame p s s1"
      using locked_update_ok [OF inv c] by blast
    let ?c = "c1\<lparr>cl_request_attr := UNPA_REQUEST_DEFAULT\<rparr>"
    have "unpa_inv (set_cli p ?c s1)"
      by (rule unpa_inv_set_cli [OF s1(1,2)]) simp_all
    moreover have "request_frame p s (set_cli p ?c s1)"
      using s1 c by (intro request_frame_set_cli)
    ultimately show ?thesis
      using True False c r s1 up that [of 0 "set_cli p ?c s1" ?c]
      by (simp add: unpa_try_issue_request_def set_cli_set_res)
  next
    case err: False
    let ?c = "c\<lparr>cl_pending_request := v, cl_request_attr := UNPA_REQUEST_DEFAULT\<rparr>"
    have "unpa_inv (set_cli p ?c s)"
      by (rule unpa_inv_set_cli [OF inv c]) simp_all
    moreover have "request_frame p s (set_cli p ?c s)"
      using c by (auto simp: request_frame_def)
    moreover have "unpa_try_issue_request env err p v s = Some (err, set_cli p ?c s)"
      using err False c r by (simp add: unpa_try_issue_request_def set_cli_def)
    ultimately show ?thesis
      using err False that [of err "set_cli p ?c s" ?c] by simp
  qed
qed

section \<open>Creating and destroying\<close>

lemma spec_of_zero: "spec_of f = Some spec \<Longrightarrow> spec (add_mset 0 M) = spec M"
  by (cases f) (auto simp: agg_max.spec_zero agg_min.spec_zero agg_count.spec_zero)

lemma spec_of_empty: "spec_of f = Some spec \<Longrightarrow> spec {#} = 0"
  by (cases f) (auto simp: agg_max.spec_empty agg_min.spec_empty agg_count.spec_empty)

text \<open>A client whose request is 0 does not count: its list node may come and go.\<close>

lemma res_ok_unlink:
  assumes ok: "res_ok cs a r" and p: "p \<in> set (rs_clients r)" and c: "cs p = Some c"
    and zero: "cl_active_request c = 0"
    and r': "rs_definition r' = rs_definition r" "rs_agg_state r' = rs_agg_state r"
      "rs_clients r' = remove1 p (rs_clients r)"
    and cs': "\<And>q. q \<noteq> p \<Longrightarrow> cs' q = cs q"
  shows "res_ok cs' a r'"
proof -
  have d: "distinct (rs_clients r)"
    using ok by (simp add: res_ok_def clients_ok_def)
  have "votes cs' r' t = other_votes cs p r t" for t
    unfolding other_votes_def using d cs' by (intro votes_cong) (auto simp: r' set_remove1_eq)
  then have v: "spec_of (df_update_fcn (rs_definition r)) = Some spec \<Longrightarrow> spec (votes cs' r' t) = spec (votes cs r t)"
    for spec t
    using votes_split [OF p, of cs c t] c zero by (simp add: spec_of_zero)
  have "clients_ok cs' a r'"
    using ok d cs' by (auto simp: res_ok_def clients_ok_def r' set_remove1_eq)
  then show ?thesis
    using ok by (auto simp: res_ok_def agg_ok_def r' v)
qed

lemma res_ok_link:
  assumes ok: "res_ok cs a r" and p: "p \<notin> set (rs_clients r)" "p \<noteq> NULL"
    and c: "cl_active_request c = 0" "cl_resource c = a"
    and r': "rs_definition r' = rs_definition r" "rs_agg_state r' = rs_agg_state r"
      "rs_clients r' = p # rs_clients r"
  shows "res_ok (cs(p \<mapsto> c)) a r'"
proof -
  have "votes (cs(p \<mapsto> c)) r' t = (if cl_type c = t then add_mset 0 (votes cs r t) else votes cs r t)" for t
  proof -
    have "votes (cs(p \<mapsto> c)) r' t = (if cl_type c = t then add_mset (cl_active_request c)
        (other_votes (cs(p \<mapsto> c)) p r' t) else other_votes (cs(p \<mapsto> c)) p r' t)"
      by (rule votes_split) (simp_all add: r')
    moreover have "other_votes (cs(p \<mapsto> c)) p r' t = votes cs r t"
      unfolding other_votes_def using p by (intro votes_cong) (auto simp: r')
    ultimately show ?thesis using c by simp
  qed
  then have v: "spec_of (df_update_fcn (rs_definition r)) = Some spec \<Longrightarrow>
      spec (votes (cs(p \<mapsto> c)) r' t) = spec (votes cs r t)" for spec t
    by (simp add: spec_of_zero)
  have "clients_ok (cs(p \<mapsto> c)) a r'"
    using ok p c by (auto simp: res_ok_def clients_ok_def r')
  then show ?thesis
    using ok by (auto simp: res_ok_def agg_ok_def r' v)
qed

lemma heap_ok_fresh:
  assumes "heap_ok s" and "un_cli s p = None" and "un_res s a = Some r"
  shows "p \<notin> set (rs_clients r)"
  using assms by (metis heap_ok_member option.distinct(1))

lemma heap_ok_add_client:
  assumes ok: "heap_ok s" and r: "un_res s a = Some r" and p: "un_cli s p = None" "p \<noteq> NULL"
    and c: "cl_active_request c = 0" "cl_resource c = a"
    and r': "rs_definition r' = rs_definition r" "rs_agg_state r' = rs_agg_state r" "rs_clients r' = p # rs_clients r"
    and t: "un_resources t = un_resources s" "un_cli t = (un_cli s)(p \<mapsto> c)" "un_res t = (un_res s)(a \<mapsto> r')"
  shows "heap_ok t"
  unfolding heap_ok_def t
proof (intro conjI allI impI)
  fix b q assume b: "((un_res s)(a \<mapsto> r')) b = Some q"
  show "res_ok ((un_cli s)(p \<mapsto> c)) b q"
  proof (cases "b = a")
    case True
    with b have "q = r'" by simp
    with True show ?thesis
      using res_ok_link [OF heap_ok_res [OF ok r] heap_ok_fresh [OF ok p(1) r] p(2) c r'] by simp
  next
    case False
    with b have q: "un_res s b = Some q" by simp
    then have "p \<notin> set (rs_clients q)"
      by (rule heap_ok_fresh [OF ok p(1)])
    then show ?thesis
      using heap_ok_res [OF ok q] by (subst res_ok_cong [where cs' = "un_cli s" and r' = q]) auto
  qed
next
  fix q d assume d: "((un_cli s)(p \<mapsto> c)) q = Some d"
  show "\<exists>x. ((un_res s)(a \<mapsto> r')) (cl_resource d) = Some x \<and> q \<in> set (rs_clients x)"
  proof (cases "q = p")
    case True
    with d c r' show ?thesis by simp
  next
    case False
    with d have "un_cli s q = Some d" by simp
    from heap_ok_cli [OF ok this] r r' show ?thesis by auto
  qed
qed (use ok in \<open>auto simp: heap_ok_def\<close>)

lemma heap_ok_remove_client:
  assumes ok: "heap_ok s" and c: "un_cli s p = Some c" "cl_active_request c = 0"
    and r: "un_res s (cl_resource c) = Some r"
    and r': "rs_definition r' = rs_definition r" "rs_agg_state r' = rs_agg_state r"
      "rs_clients r' = remove1 p (rs_clients r)"
    and t: "un_resources t = un_resources s" "un_cli t = (un_cli s)(p := None)"
      "un_res t = (un_res s)(cl_resource c \<mapsto> r')"
  shows "heap_ok t"
  unfolding heap_ok_def t
proof (intro conjI allI impI)
  have p: "p \<in> set (rs_clients r)"
    using heap_ok_cli [OF ok c(1)] r by simp
  fix b q assume b: "((un_res s)(cl_resource c \<mapsto> r')) b = Some q"
  show "res_ok ((un_cli s)(p := None)) b q"
  proof (cases "b = cl_resource c")
    case True
    have "res_ok ((un_cli s)(p := None)) (cl_resource c) r'"
      by (rule res_ok_unlink [OF heap_ok_res [OF ok r] p c r']) simp
    with b True show ?thesis by simp
  next
    case False
    with b have q: "un_res s b = Some q" by simp
    then have "p \<notin> set (rs_clients q)"
      using ok c(1) False by (intro heap_ok_other_clients)
    then show ?thesis
      using heap_ok_res [OF ok q] by (subst res_ok_cong [where cs' = "un_cli s" and r' = q]) auto
  qed
next
  fix q d assume d: "((un_cli s)(p := None)) q = Some d"
  then have "q \<noteq> p" and "un_cli s q = Some d" by (auto split: if_splits)
  then show "\<exists>x. ((un_res s)(cl_resource c \<mapsto> r')) (cl_resource d) = Some x \<and> q \<in> set (rs_clients x)"
    using heap_ok_cli [OF ok, of q d] r r' by auto
qed (use ok in \<open>auto simp: heap_ok_def\<close>)

lemma notify_client_simps [simp]:
  "cl_active_request (fst (notify_client env x a r c s)) = cl_active_request c"
  "cl_resource (fst (notify_client env x a r c s)) = cl_resource c"
  "un_cli (snd (notify_client env x a r c s)) = un_cli s"
  "un_res (snd (notify_client env x a r c s)) = un_res s"
  "un_resources (snd (notify_client env x a r c s)) = un_resources s"
  "un_lock (snd (notify_client env x a r c s)) = un_lock s"
  by (simp_all add: notify_client_def Let_def)

lemma create_client_ok:
  assumes inv: "unpa_inv s" and get: "unpa_get_resource rname s = Some a"
    and alloc: "un_cli s alloc = None"
  obtains p s' where "unpa_create_client env alloc cname t rname s = Some (p, s')" and "unpa_inv s'"
proof (cases "a = NULL")
  case True
  with get inv that show ?thesis by (simp add: unpa_create_client_def)
next
  case False
  have "a \<in> set (un_resources s)"
    if "find_resource (un_res s) rname xs = Some a" and "set xs \<subseteq> set (un_resources s)" for xs
    using that False by (induction xs) (auto split: option.splits if_splits)
  with get have "a \<in> set (un_resources s)" by (simp add: unpa_get_resource_def)
  then obtain r where r: "un_res s a = Some r"
    using inv by (auto simp: unpa_inv_def heap_ok_def)
  let ?sup = "if df_client_types (rs_definition r) = UNPA_UPDATE_CLIENT_TYPES
     then unpa_get_supported_client_types (df_update_fcn (rs_definition r)) else df_client_types (rs_definition r)"
  show ?thesis
  proof (cases "?sup AND t = 0 \<or> alloc = NULL")
    case True
    with get r False inv that show ?thesis by (auto simp: unpa_create_client_def)
  next
    case new: False
    let ?r = "unlock_res ((lock_res r)\<lparr>rs_clients := alloc # rs_clients r\<rparr>)"
    obtain s1 c where "(c, s1) = notify_client env UNPA_REQUEST_ADD_CLIENT a
        ((lock_res r)\<lparr>rs_clients := alloc # rs_clients r\<rparr>)
        \<lparr>cl_name = cname, cl_type = ucast t, cl_request_attr = UNPA_REQUEST_DEFAULT,
         cl_active_request = 0, cl_pending_request = 0, cl_resource = a\<rparr> s"
      by (metis surj_pair)
    then have c: "cl_active_request c = 0" "cl_resource c = a"
      and s1: "un_cli s1 = un_cli s" "un_res s1 = un_res s" "un_resources s1 = un_resources s" "un_lock s1 = un_lock s"
      and run: "unpa_create_client env alloc cname t rname s = Some (alloc, set_res a ?r (set_cli alloc c s1))"
      using get r False new
      by (simp_all add: unpa_create_client_def Let_def case_prod_beta prod_eq_iff split: if_splits)
    have "heap_ok (set_res a ?r (set_cli alloc c s1))"
      by (rule heap_ok_add_client [of s a r alloc c ?r])
        (use inv r alloc new c s1 in \<open>simp_all add: unpa_inv_def\<close>)
    then have "unpa_inv (set_res a ?r (set_cli alloc c s1))"
      using inv r by (auto simp: unpa_inv_def unlocked_def s1)
    with run that show ?thesis by blast
  qed
qed

lemma destroy_client_ok:
  assumes inv: "unpa_inv s" and c: "un_cli s p = Some c"
  obtains s' where "unpa_destroy_client env p s = Some s'" and "unpa_inv s'" and "un_cli s' p = None"
proof -
  obtain s1 c1 where can: "unpa_cancel_request env p s = Some s1" and inv1: "unpa_inv s1"
    and c1: "un_cli s1 p = Some c1" "cl_active_request c1 = 0" and fr: "request_frame p s s1"
    by (rule cancel_request_ok [OF inv c])
  have a: "cl_resource c1 = cl_resource c"
    using fr c c1 by (auto simp: request_frame_def)
  obtain r where r: "un_res s1 (cl_resource c1) = Some r"
    using unpa_inv_client [OF inv1 c1(1)] by blast
  let ?r = "unlock_res ((lock_res r)\<lparr>rs_clients := remove1 p (rs_clients r)\<rparr>)"
  define s2 where "s2 = snd (notify_client env UNPA_REQUEST_REMOVE_CLIENT (cl_resource c)
    ((lock_res r)\<lparr>rs_clients := remove1 p (rs_clients r)\<rparr>) c1 s1)"
  have run: "unpa_destroy_client env p s =
      Some (let t = set_res (cl_resource c) ?r s2 in t\<lparr>un_cli := (un_cli t)(p := None)\<rparr>)"
    and s2: "un_cli s2 = un_cli s1" "un_res s2 = un_res s1" "un_resources s2 = un_resources s1" "un_lock s2 = un_lock s1"
    using c can c1 r a by (simp_all add: unpa_destroy_client_def Let_def case_prod_beta s2_def)
  let ?t = "let t = set_res (cl_resource c) ?r s2 in t\<lparr>un_cli := (un_cli t)(p := None)\<rparr>"
  have "heap_ok ?t"
    by (rule heap_ok_remove_client [OF _ c1 r, of ?r])
      (use inv1 s2 a in \<open>simp_all add: unpa_inv_def Let_def\<close>)
  then have "unpa_inv ?t"
    using inv1 r by (auto simp: unpa_inv_def unlocked_def s2 a Let_def)
  with run that show ?thesis by (simp add: Let_def)
qed

lemma find_resource_total:
  assumes "set xs \<subseteq> dom rs"
  shows "\<exists>a. find_resource rs n xs = Some a"
  using assms by (induction xs) (auto split: option.splits)

lemma get_resource_total:
  assumes "unpa_inv s"
  shows "\<exists>a. unpa_get_resource n s = Some a"
  using assms by (simp add: unpa_get_resource_def unpa_inv_def heap_ok_def find_resource_total)

lemma res_ok_new:
  assumes "rs_clients r = []" and "rs_agg_state r = [0, 0, 0]"
  shows "res_ok cs a r"
proof -
  have "[0, 0, 0] ! type_index t = (0::u32)" for t
    by (simp add: type_index_def)
  then show ?thesis
    using assms by (auto simp: res_ok_def clients_ok_def agg_ok_def votes_def spec_of_empty)
qed

lemma create_resource_ok:
  assumes inv: "unpa_inv s" and alloc: "un_res s alloc = None"
  obtains a s' where "unpa_create_resource env alloc d v s = Some (a, s')" and "unpa_inv s'" and "a = alloc"
proof -
  have "\<exists>x. unpa_get_resource (df_name d) (s\<lparr>un_lock := Suc (un_lock s)\<rparr>) = Some x"
    using get_resource_total [OF inv] by (simp add: unpa_get_resource_def)
  then obtain x where x: "unpa_get_resource (df_name d) (s\<lparr>un_lock := Suc (un_lock s)\<rparr>) = Some x" ..
  show ?thesis
  proof (cases "alloc = NULL")
    case True
    have "s\<lparr>un_lock := un_lock s\<rparr> = s" by simp
    with True x inv that show ?thesis
      by (simp add: unpa_create_resource_def)
  next
    case False
    let ?r = "\<lparr>rs_definition = d, rs_clients = [], rs_active_state = 0, rs_sleep_state = 0,
      rs_agg_state = [0, 0, 0], rs_active_max = df_max d, rs_lock = 0\<rparr>"
    obtain y s' where run: "unpa_create_resource env alloc d v s = Some (alloc, s')"
      and s': "un_res s' = (un_res s)(alloc \<mapsto> ?r\<lparr>rs_active_state := y\<rparr>)" "un_cli s' = un_cli s"
        "un_resources s' = alloc # un_resources s" "un_lock s' = un_lock s"
      using x False by (auto simp: unpa_create_resource_def Let_def case_prod_beta)
    have "res_ok (un_cli s) alloc (?r\<lparr>rs_active_state := y\<rparr>)"
      by (rule res_ok_new) simp_all
    moreover have "cl_resource c \<noteq> alloc" if "un_cli s p = Some c" for p c
      using unpa_inv_client [OF inv that] alloc by auto
    ultimately have "heap_ok s'"
      using inv alloc False by (auto simp: unpa_inv_def heap_ok_def s')
    then have "unpa_inv s'"
      using inv by (auto simp: unpa_inv_def unlocked_def s')
    with run that show ?thesis by blast
  qed
qed

section \<open>Runs of the framework\<close>

text \<open>
  Any interleaving of operations, one after the other, as the locks serialise them. A
  client pointer an operation gets is a live client; \<open>calloc\<close> returns NULL or an address
  not in use.
\<close>

inductive unpa_step :: "unpa_env \<Rightarrow> unpa_struct \<Rightarrow> unpa_struct \<Rightarrow> bool" for env where
  create_resource: "un_res s alloc = None \<Longrightarrow> unpa_create_resource env alloc d v s = Some (a, s') \<Longrightarrow> unpa_step env s s'"
| stub_resource: "unpa_stub_resource n s = Some s' \<Longrightarrow> unpa_step env s s'"
| create_client: "un_cli s alloc = None \<Longrightarrow> unpa_create_client env alloc cn t rn s = Some (p, s') \<Longrightarrow> unpa_step env s s'"
| destroy_client: "un_cli s p \<noteq> None \<Longrightarrow> unpa_destroy_client env p s = Some s' \<Longrightarrow> unpa_step env s s'"
| issue: "un_cli s p \<noteq> None \<Longrightarrow> unpa_issue_request env p v s = Some s' \<Longrightarrow> unpa_step env s s'"
| cancel: "un_cli s p \<noteq> None \<Longrightarrow> unpa_cancel_request env p s = Some s' \<Longrightarrow> unpa_step env s s'"
| try_issue: "un_cli s p \<noteq> None \<Longrightarrow> unpa_try_issue_request env err p v s = Some (e, s') \<Longrightarrow> unpa_step env s s'"
| try_cancel: "un_cli s p \<noteq> None \<Longrightarrow> unpa_try_cancel_request env err p s = Some (e, s') \<Longrightarrow> unpa_step env s s'"

inductive unpa_reachable :: "unpa_env \<Rightarrow> unpa_struct \<Rightarrow> bool" for env where
  start: "un_res s = Map.empty \<Longrightarrow> un_cli s = Map.empty \<Longrightarrow> unpa_reachable env (unpa_init s)"
| step: "unpa_reachable env s \<Longrightarrow> unpa_step env s s' \<Longrightarrow> unpa_reachable env s'"

lemma stub_resource_inv: "unpa_inv s \<Longrightarrow> unpa_stub_resource n s = Some s' \<Longrightarrow> unpa_inv s'"
  by (auto simp: unpa_stub_resource_def bind_eq_Some_conv unpa_inv_def heap_ok_def unlocked_def)

lemma try_cancel_inv:
  assumes inv: "unpa_inv s" and c: "un_cli s p = Some c"
    and run: "unpa_try_cancel_request env err p s = Some (e, s')"
  shows "unpa_inv s'"
proof -
  let ?c = "c\<lparr>cl_request_attr := cl_request_attr c OR UNPA_REQUEST_DROP_VOTE\<rparr>"
  have "unpa_inv (set_cli p ?c s)"
    by (rule unpa_inv_set_cli [OF inv c]) simp_all
  moreover have "un_cli (set_cli p ?c s) p = Some ?c" by simp
  ultimately obtain e2 s2 where "unpa_try_issue_request env err p 0 (set_cli p ?c s) = Some (e2, s2)"
    and "unpa_inv s2"
    by (rule try_issue_request_ok)
  with run c show ?thesis by (simp add: unpa_try_cancel_request_def)
qed

lemma unpa_step_inv:
  assumes "unpa_step env s s'" and inv: "unpa_inv s"
  shows "unpa_inv s'"
  using assms(1)
proof cases
  case (create_client alloc cn t rn p)
  then show ?thesis
    using get_resource_total [OF inv, of rn] create_client_ok [OF inv, of rn _ alloc env cn t]
    by (metis option.inject prod.inject)
next
  case (create_resource alloc d v a)
  then show ?thesis
    using create_resource_ok [OF inv, of alloc env d v] by (metis option.inject prod.inject)
next
  case (destroy_client p)
  then show ?thesis
    using destroy_client_ok [OF inv, of p] by (metis not_None_eq option.inject)
next
  case (issue p v)
  then show ?thesis
    using issue_request_ok [OF inv, of p] by (metis not_None_eq option.inject)
next
  case (cancel p)
  then show ?thesis
    using cancel_request_ok [OF inv, of p] by (metis not_None_eq option.inject)
next
  case (try_issue p err v e)
  then show ?thesis
    using try_issue_request_ok [OF inv, of p] by (metis not_None_eq option.inject prod.inject)
qed (use inv stub_resource_inv try_cancel_inv in blast)+

lemma unpa_reachable_inv: "unpa_reachable env s \<Longrightarrow> unpa_inv s"
proof (induction rule: unpa_reachable.induct)
  case (start s)
  then show ?case
    by (simp add: unpa_init_def unpa_inv_def heap_ok_def unlocked_def)
qed (rule unpa_step_inv)

section \<open>A concrete run\<close>

text \<open>One max-aggregated resource with two clients, used by the witnesses below.\<close>

definition w_env :: unpa_env where
  "w_env = \<lparr>env_driver = (\<lambda>f r c v. v), env_update = (\<lambda>f r c. ([0, 0, 0], 0, 0))\<rparr>"

definition w_def :: unpa_resource_definition where
  "w_def = \<lparr>df_name = ''cpu'', df_update_fcn = Unpa_max_update_fcn, df_driver_fcn = 8, df_max = 6,
            df_client_types = 0, df_attributes = 0\<rparr>"

definition w_s0 :: unpa_struct where
  "w_s0 = unpa_init \<lparr>un_resources = [], un_stubs = replicate 5 None, un_lock = 0,
            un_res = Map.empty, un_cli = Map.empty, un_log = []\<rparr>"

definition w_res :: "addr list \<Rightarrow> u32 list \<Rightarrow> u32 \<Rightarrow> u32 \<Rightarrow> unpa_resource" where
  "w_res ps agg act sl = \<lparr>rs_definition = w_def, rs_clients = ps, rs_active_state = act, rs_sleep_state = sl,
            rs_agg_state = agg, rs_active_max = 6, rs_lock = 0\<rparr>"

definition w_cli :: "string \<Rightarrow> u8 \<Rightarrow> u32 \<Rightarrow> unpa_client" where
  "w_cli n t v = \<lparr>cl_name = n, cl_type = t, cl_request_attr = 0, cl_active_request = v,
            cl_pending_request = v, cl_resource = 16\<rparr>"

definition w_call :: "u8 \<Rightarrow> string \<Rightarrow> u32 \<Rightarrow> addr \<Rightarrow> u32 \<Rightarrow> driver_call" where
  "w_call t n v a state = \<lparr>dc_resource = 16, dc_client = \<lparr>cl_name = n, cl_type = t, cl_request_attr = 0,
      cl_active_request = 0, cl_pending_request = v, cl_resource = a\<rparr>, dc_state = state\<rparr>"

definition w_state :: "unpa_resource \<Rightarrow> client_heap \<Rightarrow> driver_call list \<Rightarrow> unpa_struct" where
  "w_state r cs log = \<lparr>un_resources = [16], un_stubs = replicate 5 None, un_lock = 0,
            un_res = [16 \<mapsto> r], un_cli = cs, un_log = log\<rparr>"

definition w_s1 :: unpa_struct where
  "w_s1 = w_state (w_res [] [0, 0, 0] 0 0) Map.empty [w_call 0 [] 0 0 0]"

definition w_s2 :: unpa_struct where
  "w_s2 = w_state (w_res [32] [0, 0, 0] 0 0) [32 \<mapsto> w_cli ''c1'' 1 0] [w_call 0 [] 0 0 0]"

definition w_s3 :: unpa_struct where
  "w_s3 = w_state (w_res [48, 32] [0, 0, 0] 0 0) [32 \<mapsto> w_cli ''c1'' 1 0, 48 \<mapsto> w_cli ''c2'' 1 0]
     [w_call 0 [] 0 0 0]"

definition w_s4 :: unpa_struct where
  "w_s4 = w_state (w_res [48, 32] [7, 0, 0] 6 6) [32 \<mapsto> w_cli ''c1'' 1 7, 48 \<mapsto> w_cli ''c2'' 1 0]
     [w_call 0 [] 0 0 0, w_call 1 ''c1'' 7 16 6]"

lemmas w_defs = w_s0_def w_s1_def w_s2_def w_s3_def w_s4_def w_state_def w_res_def w_cli_def w_call_def
  w_env_def w_def_def

lemma w_run1: "unpa_create_resource w_env 16 w_def 0 w_s0 = Some (16, w_s1)"
  by (simp add: w_defs unpa_init_def unpa_create_resource_def unpa_get_resource_def call_driver_fcn_def
      set_res_def UNPA_CLIENT_INITIALIZE_def)

lemma w_run2: "unpa_create_client w_env 32 ''c1'' 1 ''cpu'' w_s1 = Some (32, w_s2)"
  by (simp add: w_defs unpa_create_client_def unpa_get_resource_def strncmp_eq_def UNPA_MAX_NAME_LEN_def
      UNPA_UPDATE_CLIENT_TYPES_def unpa_get_supported_client_types_def unpa_type_defs notify_client_def
      unpa_resource_has_attribute_def set_res_def set_cli_def lock_res_def unlock_res_def UNPA_REQUEST_DEFAULT_def)

lemma w_run3: "unpa_create_client w_env 48 ''c2'' 1 ''cpu'' w_s2 = Some (48, w_s3)"
  by (simp add: w_defs unpa_create_client_def unpa_get_resource_def strncmp_eq_def UNPA_MAX_NAME_LEN_def
      UNPA_UPDATE_CLIENT_TYPES_def unpa_get_supported_client_types_def unpa_type_defs notify_client_def
      unpa_resource_has_attribute_def set_res_def set_cli_def lock_res_def unlock_res_def UNPA_REQUEST_DEFAULT_def)

lemma w_run4: "unpa_issue_request w_env 32 7 w_s3 = Some w_s4"
  by (simp add: w_defs unpa_issue_request_def unpa_update_resource_def call_update_fcn_def unpa_max_update_fcn_def
      aggregated_type_def unpa_get_agg_index_def unpa_type_defs unpa_index_defs driver_needed_def
      unpa_resource_has_attribute_def call_driver_fcn_def set_res_def set_cli_def lock_res_def unlock_res_def
      UNPA_REQUEST_DEFAULT_def fun_upd_twist)

lemma w_reachable: "unpa_reachable w_env w_s3" "unpa_reachable w_env w_s4"
proof -
  have "unpa_reachable w_env w_s0"
    unfolding w_s0_def by (rule unpa_reachable.start) simp_all
  then have "unpa_reachable w_env w_s1"
    by (rule unpa_reachable.step) (rule unpa_step.create_resource [OF _ w_run1], simp add: w_defs unpa_init_def)
  then have "unpa_reachable w_env w_s2"
    by (rule unpa_reachable.step) (rule unpa_step.create_client [OF _ w_run2], simp add: w_defs)
  then show s3: "unpa_reachable w_env w_s3"
    by (rule unpa_reachable.step) (rule unpa_step.create_client [OF _ w_run3], simp add: w_defs)
  then show "unpa_reachable w_env w_s4"
    by (rule unpa_reachable.step) (rule unpa_step.issue [OF _ w_run4], simp add: w_defs)
qed

section \<open>Properties\<close>

text \<open>C1: whatever sequence of operations led to a state, the aggregate of every client type
  of a resource with a framework update function is exactly the specified function of the
  active requests of the clients of that type (maximum, minimum of the non-zero ones, or
  number of non-zero ones), and no lock is held between operations.\<close>

theorem unpa_aggregates_exact:
  assumes "unpa_reachable env s" and "un_res s a = Some r"
    and "spec_of (df_update_fcn (rs_definition r)) = Some spec" and "aggregated_type t"
  shows "rs_agg_state r ! type_index t = spec (votes (un_cli s) r t) \<and> rs_lock r = 0 \<and> un_lock s = 0"
  using unpa_reachable_inv [OF assms(1)] assms(2-)
  by (auto simp: unpa_inv_def unlocked_def agg_ok_def res_ok_def dest!: heap_ok_res)

theorem unpa_aggregates_exact_witness:
  "rs_agg_state (w_res [48, 32] [7, 0, 0] 6 6) ! type_index 1
     = spec_max (votes (un_cli w_s4) (w_res [48, 32] [7, 0, 0] 6 6) 1)"
  using unpa_aggregates_exact [OF w_reachable(2), of 16 "w_res [48, 32] [7, 0, 0] 6 6" spec_max 1]
  by (simp add: w_s4_def w_state_def w_res_def w_def_def aggregated_type_def unpa_type_defs)

text \<open>C16: a request that changes a client's vote makes the active request the new value, sets
  the sleep state to the sleep aggregate and calls the driver at most once, under the
  resource lock, with the active aggregate, both clipped to \<open>active_max\<close>; the call is made
  exactly when the aggregate, the sleep state or the unconditional attribute asks for it,
  and its result is the new active state.\<close>

theorem unpa_issue_request_effect:
  assumes "unpa_reachable env s" and "un_cli s p = Some c" and "un_res s (cl_resource c) = Some r"
    and "comb_of (df_update_fcn (rs_definition r)) = Some comb" and "v \<noteq> cl_active_request c"
  shows "\<exists>s' c' r' agg target sleep.
    unpa_issue_request env p v s = Some s'
    \<and> un_cli s' p = Some c' \<and> cl_active_request c' = v
    \<and> un_res s' (cl_resource c) = Some r' \<and> rs_agg_state r' = agg \<and> rs_sleep_state r' = sleep
    \<and> target = min (comb (agg ! 0) (agg ! 1)) (rs_active_max r)
    \<and> sleep = min (comb (agg ! 0) (agg ! 2)) (rs_active_max r)
    \<and> (if driver_wanted r target sleep
        then (\<exists>rd cd. rs_lock rd = 1 \<and> cl_pending_request cd = v
               \<and> rs_active_state r' = env_driver env (df_driver_fcn (rs_definition r)) rd cd target
               \<and> un_log s' = un_log s @ [\<lparr>dc_resource = cl_resource c, dc_client = cd, dc_state = target\<rparr>])
        else rs_active_state r' = rs_active_state r \<and> un_log s' = un_log s)"
proof -
  have inv: "unpa_inv s" by (rule unpa_reachable_inv [OF assms(1)])
  note c = assms(2) and r = assms(3)
  let ?c = "c\<lparr>cl_pending_request := v\<rparr>" and ?l = "lock_res r"
  let ?s = "set_cli p ?c (set_res (cl_resource c) ?l s)"
  have "heap_ok ?s"
    by (rule heap_ok_same_votes [of s p c r ?c ?l]) (use inv c r in \<open>simp_all add: unpa_inv_def\<close>)
  moreover have "un_cli ?s p = Some ?c" and "un_res ?s (cl_resource ?c) = Some ?l"
    by simp_all
  ultimately obtain s' agg sl act r1 s1 where
      ap: "apply_aggregate env (cl_resource ?c) ?c ?l agg (min sl (rs_active_max ?l)) (min act (rs_active_max ?l)) ?s
        = (r1, s1)"
    and up: "unpa_update_resource env p ?s = Some s'"
    and s': "s' = set_res (cl_resource ?c) (unlock_res r1) (set_cli p (?c\<lparr>cl_active_request := cl_pending_request ?c\<rparr>) s1)"
    and all: "\<forall>comb. comb_of (df_update_fcn (rs_definition ?l)) = Some comb \<longrightarrow>
      sl = comb (agg ! 0) (agg ! 2) \<and> act = comb (agg ! 0) (agg ! 1)"
    by (rule unpa_update_resource_ok)
  have cb: "sl = comb (agg ! 0) (agg ! 2) \<and> act = comb (agg ! 0) (agg ! 1)"
    using all assms(4) by simp
  let ?c' = "?c\<lparr>cl_active_request := v, cl_request_attr := UNPA_REQUEST_DEFAULT\<rparr>"
  have run: "unpa_issue_request env p v s = Some (set_cli p ?c' s')"
    using c r assms(5) up by (simp add: unpa_issue_request_def s')
  have dw: "driver_wanted ?l x y = driver_wanted r x y" for x y
    by (simp add: driver_wanted_def unpa_resource_has_attribute_def)
  have lk: "rs_lock r = 0"
    using inv r by (simp add: unpa_inv_def unlocked_def)
  show ?thesis
    using cb run lk apply_aggregateD [OF ap] apply_aggregate_driver [OF ap]
    by (intro exI [of _ "set_cli p ?c' s'"] exI [of _ ?c'] exI [of _ "unlock_res r1"])
      (auto simp: s' dw split: if_splits intro: exI [of _ ?c])
qed

theorem unpa_issue_request_effect_witness:
  "\<exists>s' c' r'. unpa_issue_request w_env 32 7 w_s3 = Some s' \<and> un_cli s' 32 = Some c'
     \<and> cl_active_request c' = 7 \<and> un_res s' 16 = Some r'"
  using unpa_issue_request_effect [OF w_reachable(1), of 32 "w_cli ''c1'' 1 0" "w_res [48, 32] [0, 0, 0] 0 0" max 7]
  by (auto simp: w_s3_def w_state_def w_res_def w_cli_def w_def_def)

text \<open>C17: from every reachable state every request operation on a live client, and its
  destruction, runs to its end: no NULL or dangling pointer is followed, in particular by
  the list walks of the minimum and maximum update functions.\<close>

theorem unpa_operations_total:
  assumes "unpa_reachable env s" and "un_cli s p = Some c"
  shows "(\<exists>s'. unpa_issue_request env p v s = Some s') \<and> (\<exists>s'. unpa_cancel_request env p s = Some s')
    \<and> (\<exists>e s'. unpa_try_issue_request env err p v s = Some (e, s'))
    \<and> (\<exists>s'. unpa_destroy_client env p s = Some s' \<and> un_cli s' p = None)"
  using unpa_reachable_inv [OF assms(1)] assms(2)
  by (meson cancel_request_ok destroy_client_ok issue_request_ok try_issue_request_ok)

theorem unpa_operations_total_witness:
  "\<exists>s'. unpa_destroy_client w_env 32 w_s4 = Some s' \<and> un_cli s' 32 = None"
  using unpa_operations_total [OF w_reachable(2), of 32 "w_cli ''c1'' 1 7" 0 0]
  by (simp add: w_s4_def w_state_def)

text \<open>a try-request whose lock attempt fails returns that error and changes neither an
  aggregate nor an active request nor makes a driver call; the resource heap is untouched.\<close>

theorem unpa_try_issue_request_busy:
  assumes "unpa_reachable env s" and "un_cli s p = Some c" and "v \<noteq> cl_active_request c" and "err \<noteq> 0"
  shows "\<exists>s' c'. unpa_try_issue_request env err p v s = Some (err, s')
    \<and> un_res s' = un_res s \<and> un_log s' = un_log s
    \<and> un_cli s' = (un_cli s)(p \<mapsto> c') \<and> cl_active_request c' = cl_active_request c"
proof -
  obtain r where "un_res s (cl_resource c) = Some r"
    using unpa_inv_client [OF unpa_reachable_inv [OF assms(1)] assms(2)] by blast
  then show ?thesis
    using assms(2-) by (auto simp: unpa_try_issue_request_def)
qed

theorem unpa_try_issue_request_busy_witness:
  "\<exists>s'. unpa_try_issue_request w_env (-1) 48 3 w_s4 = Some (-1, s') \<and> un_res s' = un_res w_s4"
  using unpa_try_issue_request_busy [OF w_reachable(2), of 48 "w_cli ''c2'' 1 0" 3 "-1"]
  by (auto simp: w_s4_def w_state_def w_cli_def)

text \<open>creating a resource makes a lookup by its name return the new resource, also when a
  resource of that name exists already: the check the comment announces is an empty
  statement, and the new resource shadows the old one.\<close>

theorem unpa_create_resource_shadows:
  assumes "unpa_reachable env s" and "un_res s alloc = None" and "alloc \<noteq> NULL"
  shows "\<exists>s'. unpa_create_resource env alloc d v s = Some (alloc, s')
    \<and> unpa_get_resource (df_name d) s' = Some alloc \<and> un_resources s' = alloc # un_resources s"
proof -
  obtain x where "unpa_get_resource (df_name d) (s\<lparr>un_lock := Suc (un_lock s)\<rparr>) = Some x"
    using get_resource_total [OF unpa_reachable_inv [OF assms(1)], of "df_name d"]
    by (auto simp: unpa_get_resource_def)
  with assms(3) show ?thesis
    by (simp add: unpa_create_resource_def unpa_get_resource_def case_prod_beta Let_def)
qed

theorem unpa_create_resource_shadows_witness:
  "\<exists>s'. unpa_create_resource w_env 64 w_def 0 w_s3 = Some (64, s')
     \<and> unpa_get_resource ''cpu'' w_s3 = Some 16 \<and> unpa_get_resource ''cpu'' s' = Some 64"
proof -
  have "un_res w_s3 64 = None" and "unpa_get_resource ''cpu'' w_s3 = Some 16" and "df_name w_def = ''cpu''"
    by (simp_all add: w_defs unpa_get_resource_def)
  then show ?thesis
    using unpa_create_resource_shadows [OF w_reachable(1), of 64 w_def 0] by auto
qed

end
