(* ===== verification/Ring_Index.thy ===== *)
theory Ring_Index
  imports Prelude
begin

text \<open>
  Index arithmetic of a circular buffer with one slot kept free, as the ring service and
  the descriptor rings use it: the number of used slots between a read and a write index,
  the list of slots in queue order, and what advancing either index does to them.
\<close>

definition used :: "nat \<Rightarrow> nat \<Rightarrow> nat \<Rightarrow> nat" where
  "used n rd wr = (if rd \<le> wr then wr - rd else n - (rd - wr))"

definition ring_list :: "(nat \<Rightarrow> 'a) \<Rightarrow> nat \<Rightarrow> nat \<Rightarrow> nat \<Rightarrow> 'a list" where
  "ring_list f n rd wr = map (\<lambda>k. f ((rd + k) mod n)) [0..<used n rd wr]"

lemma length_ring_list [simp]: "length (ring_list f n rd wr) = used n rd wr"
  by (simp add: ring_list_def)

lemma used_less: "rd < n \<Longrightarrow> wr < n \<Longrightarrow> used n rd wr < n"
  by (auto simp: used_def)

lemma used_self [simp]: "used n i i = 0"
  by (simp add: used_def)

lemma used_0_iff: "rd < n \<Longrightarrow> wr < n \<Longrightarrow> used n rd wr = 0 \<longleftrightarrow> rd = wr"
  by (auto simp: used_def)

lemma write_slot: "rd < n \<Longrightarrow> wr < n \<Longrightarrow> (rd + used n rd wr) mod n = wr"
  by (auto simp: used_def le_mod_geq)

lemma used_Suc_wr:
  assumes "rd < n" and "wr < n" and "used n rd wr < n - 1"
  shows "used n rd (Suc wr mod n) = Suc (used n rd wr)"
proof (cases "Suc wr = n")
  case True
  with assms show ?thesis by (auto simp: used_def)
next
  case False
  with assms show ?thesis by (auto simp: used_def split: if_splits)
qed

lemma used_Suc_rd:
  assumes "rd < n" and "wr < n" and "used n rd wr \<noteq> 0"
  shows "used n (Suc rd mod n) wr = used n rd wr - 1"
proof (cases "Suc rd = n")
  case True
  with assms show ?thesis by (auto simp: used_def split: if_splits)
next
  case False
  with assms show ?thesis by (auto simp: used_def split: if_splits)
qed

lemma slot_not_write:
  assumes "rd < n" and "wr < n" and "k < used n rd wr"
  shows "(rd + k) mod n \<noteq> wr"
proof
  assume eq: "(rd + k) mod n = wr"
  have "(rd + k) mod n = (rd + used n rd wr) mod n"
    using eq write_slot [OF assms(1,2)] by simp
  moreover have "k < n" and "used n rd wr < n"
    using assms used_less [OF assms(1,2)] by auto
  ultimately have "k = used n rd wr"
    using assms(1) by (auto simp: mod_if split: if_splits)
  with assms(3) show False by simp
qed

lemma slot_less: "(rd :: nat) < n \<Longrightarrow> (rd + k) mod n < n"
  by simp

lemma slot_inj:
  assumes "(k :: nat) < n" and "l < n" and "(rd + k) mod n = (rd + l) mod n" and "rd < n"
  shows "k = l"
  using assms by (auto simp: mod_if split: if_splits)

lemma ring_list_cong:
  assumes "\<And>k. k < used n rd wr \<Longrightarrow> f ((rd + k) mod n) = g ((rd + k) mod n)"
  shows "ring_list f n rd wr = ring_list g n rd wr"
  using assms by (simp add: ring_list_def)

lemma ring_list_enq:
  assumes "rd < n" and "wr < n" and "used n rd wr < n - 1"
    and "\<And>k. k < used n rd wr \<Longrightarrow> g ((rd + k) mod n) = f ((rd + k) mod n)"
  shows "ring_list g n rd (Suc wr mod n) = ring_list f n rd wr @ [g wr]"
proof -
  have "ring_list g n rd (Suc wr mod n) = ring_list g n rd wr @ [g wr]"
    using assms(1-3) by (simp add: ring_list_def used_Suc_wr write_slot)
  then show ?thesis
    using ring_list_cong [of n rd wr g f] assms(4) by simp
qed

lemma slot_after_read:
  assumes "rd < n"
  shows "(Suc rd mod n + k) mod n = (rd + Suc k) mod n"
  by (simp add: mod_add_left_eq)

lemma slot_not_read:
  assumes "rd < n" and "wr < n" and "Suc k < used n rd wr"
  shows "(rd + Suc k) mod n \<noteq> rd"
  using slot_inj [of "Suc k" n 0 rd] used_less [OF assms(1,2)] assms by auto

lemma ring_list_deq:
  assumes "rd < n" and "wr < n" and "used n rd wr \<noteq> 0"
  shows "ring_list f n rd wr = f rd # ring_list f n (Suc rd mod n) wr"
proof -
  obtain m where m: "used n rd wr = Suc m"
    using assms(3) by (cases "used n rd wr") auto
  have "[0..<Suc m] = 0 # map Suc [0..<m]"
    by (simp add: upt_conv_Cons map_Suc_upt del: upt_Suc)
  moreover have "used n (Suc rd mod n) wr = m"
    using used_Suc_rd [OF assms] m by simp
  ultimately show ?thesis
    using m assms(1) by (simp add: ring_list_def mod_add_left_eq del: upt_Suc)
qed

end
