(* ===== verification/Ring_Service.thy ===== *)
theory Ring_Service
  imports Ring_Index
begin

text \<open>
  The host/slave ring service of \<^verbatim>\<open>qring/src/ring_service_qcc730.c\<close>. The control block is the
  structure shared with the host; its arrays of \<open>MAX_RINGS\<close> entries are functions of the
  ring id (every access is behind a check of the id). The heap is the list of live \<open>malloc\<close>
  blocks (address and size), newest first; descriptor arrays live in a typed store keyed by the descriptor's address,
  packet buffers in byte memory. Results of kernel and GPIO calls are parameters.
\<close>

section \<open>Data\<close>

definition MAX_RINGS :: nat where "MAX_RINGS = 8"
definition RING_STATUS_VALID :: u8 where "RING_STATUS_VALID = 1"
definition RING_DESC_FLAG_VALID :: u16 where "RING_DESC_FLAG_VALID = 1"
definition RING_MAGIC_NUMBER :: u32 where "RING_MAGIC_NUMBER = 0x52494E47"
definition RING_VERSION :: u32 where "RING_VERSION = 0x00020000"
definition RING_STATUS_INITIALIZED :: u32 where "RING_STATUS_INITIALIZED = 1"
definition DESC_SIZE :: u32 where "DESC_SIZE = 8"

record ring_descriptor =
  rd_buffer_addr :: u32
  rd_length :: u16
  rd_flags :: u16

record ring_config =
  rc_ring_id :: u8
  rc_desc_count :: u32
  rc_buf_size :: u32

type_synonym 'a ring_array = "u8 \<Rightarrow> 'a"

record ring_control_block =
  cb_magic :: u32
  cb_version :: u32
  cb_num_rings :: u32
  cb_tx_desc_base :: "addr ring_array"
  cb_tx_desc_count :: "u32 ring_array"
  cb_tx_wr_idx :: "u32 ring_array"
  cb_tx_rd_idx :: "u32 ring_array"
  cb_tx_buf_size :: "u32 ring_array"
  cb_tx_buf_base :: "addr ring_array"
  cb_rx_desc_base :: "addr ring_array"
  cb_rx_desc_count :: "u32 ring_array"
  cb_rx_wr_idx :: "u32 ring_array"
  cb_rx_rd_idx :: "u32 ring_array"
  cb_rx_buf_size :: "u32 ring_array"
  cb_rx_buf_base :: "addr ring_array"
  cb_ring_status :: "u8 ring_array"
  cb_status :: u32

record ring_stats =
  st_tx_count :: u32
  st_rx_count :: u32
  st_tx_errors :: u32
  st_rx_errors :: u32
  st_tx_overflows :: u32
  st_rx_overflows :: u32

text \<open>A kernel semaphore: its count and its limit.\<close>

record ksem =
  sem_count :: nat
  sem_limit :: nat

record ring_instance =
  ri_tx_lock :: nat
  ri_rx_lock :: nat
  ri_tx_sem :: ksem
  ri_rx_sem :: ksem
  ri_stats :: ring_stats

record ring_state =
  rg_ctrl :: ring_control_block
  rg_initialized :: bool
  rg_num_rings :: u32
  rg_rings :: "ring_instance ring_array"
  rg_callback :: addr
  rg_callback_data :: addr
  rg_blocks :: "(addr \<times> u32) list"
  rg_desc :: "addr \<Rightarrow> ring_descriptor"
  rg_mem :: memory
  rg_works :: "u8 list"
  rg_pulses :: nat

datatype errno = EALREADY | EINVAL | ENOMEM | ENODEV | EAGAIN | EMSGSIZE

text \<open>An \<open>int\<close> result: a negated error number, or a number as it is.\<close>

datatype rc = Neg errno | Rc int

record ring_env =
  re_malloc :: "(addr \<times> u32) list \<Rightarrow> u32 \<Rightarrow> addr"
  re_device_ready :: bool
  re_gpio_configure :: int
  re_tx_mutex_init :: "u8 \<Rightarrow> int"
  re_rx_mutex_init :: "u8 \<Rightarrow> int"
  re_tx_sem_init :: "u8 \<Rightarrow> int"
  re_rx_sem_init :: "u8 \<Rightarrow> int"

definition zero_ctrl :: ring_control_block where
  "zero_ctrl = \<lparr>cb_magic = 0, cb_version = 0, cb_num_rings = 0,
     cb_tx_desc_base = (\<lambda>_. 0), cb_tx_desc_count = (\<lambda>_. 0), cb_tx_wr_idx = (\<lambda>_. 0), cb_tx_rd_idx = (\<lambda>_. 0),
     cb_tx_buf_size = (\<lambda>_. 0), cb_tx_buf_base = (\<lambda>_. 0),
     cb_rx_desc_base = (\<lambda>_. 0), cb_rx_desc_count = (\<lambda>_. 0), cb_rx_wr_idx = (\<lambda>_. 0), cb_rx_rd_idx = (\<lambda>_. 0),
     cb_rx_buf_size = (\<lambda>_. 0), cb_rx_buf_base = (\<lambda>_. 0), cb_ring_status = (\<lambda>_. 0), cb_status = 0\<rparr>"

definition zero_stats :: ring_stats where
  "zero_stats = \<lparr>st_tx_count = 0, st_rx_count = 0, st_tx_errors = 0, st_rx_errors = 0,
     st_tx_overflows = 0, st_rx_overflows = 0\<rparr>"

abbreviation upd_ctrl :: "(ring_control_block \<Rightarrow> ring_control_block) \<Rightarrow> ring_state \<Rightarrow> ring_state" where
  "upd_ctrl f s \<equiv> s\<lparr>rg_ctrl := f (rg_ctrl s)\<rparr>"

definition upd_ring :: "u8 \<Rightarrow> (ring_instance \<Rightarrow> ring_instance) \<Rightarrow> ring_state \<Rightarrow> ring_state" where
  "upd_ring i f s = s\<lparr>rg_rings := (rg_rings s)(i := f (rg_rings s i))\<rparr>"

definition desc_at :: "addr \<Rightarrow> u32 \<Rightarrow> addr" where
  "desc_at base j = base + j * DESC_SIZE"

section \<open>Heap\<close>

definition malloc :: "ring_env \<Rightarrow> u32 \<Rightarrow> ring_state \<Rightarrow> addr \<times> ring_state" where
  "malloc env n s =
     (let p = re_malloc env (rg_blocks s) n
      in if p = NULL then (NULL, s) else (p, s\<lparr>rg_blocks := (p, n) # rg_blocks s\<rparr>))"

definition free :: "addr \<Rightarrow> ring_state \<Rightarrow> ring_state" where
  "free p s = s\<lparr>rg_blocks := filter (\<lambda>b. fst b \<noteq> p) (rg_blocks s)\<rparr>"

text \<open>Free what a base field points to and clear the field, if it is set.\<close>

definition release_base ::
    "(ring_control_block \<Rightarrow> addr) \<Rightarrow> (ring_control_block \<Rightarrow> ring_control_block) \<Rightarrow> ring_state \<Rightarrow> ring_state" where
  "release_base base clear s =
     (if base (rg_ctrl s) \<noteq> NULL then upd_ctrl clear (free (base (rg_ctrl s)) s) else s)"

definition free_ring_resources :: "u8 \<Rightarrow> ring_state \<Rightarrow> ring_state" where
  "free_ring_resources i s =
     (let s = release_base (\<lambda>c. cb_tx_desc_base c i)
                (\<lambda>c. c\<lparr>cb_tx_desc_base := (cb_tx_desc_base c)(i := 0)\<rparr>) s;
          s = release_base (\<lambda>c. cb_tx_buf_base c i)
                (\<lambda>c. c\<lparr>cb_tx_buf_base := (cb_tx_buf_base c)(i := 0)\<rparr>) s;
          s = release_base (\<lambda>c. cb_rx_desc_base c i)
                (\<lambda>c. c\<lparr>cb_rx_desc_base := (cb_rx_desc_base c)(i := 0)\<rparr>) s
      in release_base (\<lambda>c. cb_rx_buf_base c i)
           (\<lambda>c. c\<lparr>cb_rx_buf_base := (cb_rx_buf_base c)(i := 0)\<rparr>) s)"

section \<open>Initialisation\<close>

definition config_ok :: "ring_config \<Rightarrow> bool" where
  "config_ok c \<longleftrightarrow>
     \<not> unat (rc_ring_id c) \<ge> MAX_RINGS
     \<and> \<not> (rc_desc_count c = 0 \<or> rc_desc_count c > 256)
     \<and> \<not> (rc_buf_size c = 0 \<or> rc_buf_size c > 1500)"

text \<open>
  The descriptor loop of one ring: both arrays point at consecutive slices of their
  buffer pools, with length and flags cleared.
\<close>

definition fresh_desc :: "addr \<Rightarrow> u32 \<Rightarrow> nat \<Rightarrow> ring_descriptor" where
  "fresh_desc buf bsz j = \<lparr>rd_buffer_addr = buf + of_nat j * bsz, rd_length = 0, rd_flags = 0\<rparr>"

primrec init_descs :: "addr \<Rightarrow> addr \<Rightarrow> addr \<Rightarrow> addr \<Rightarrow> u32 \<Rightarrow> nat \<Rightarrow>
    (addr \<Rightarrow> ring_descriptor) \<Rightarrow> (addr \<Rightarrow> ring_descriptor)" where
  "init_descs tx_desc tx_buf rx_desc rx_buf bsz 0 m = m"
| "init_descs tx_desc tx_buf rx_desc rx_buf bsz (Suc j) m =
     (init_descs tx_desc tx_buf rx_desc rx_buf bsz j m)
       (desc_at tx_desc (of_nat j) := fresh_desc tx_buf bsz j,
        desc_at rx_desc (of_nat j) := fresh_desc rx_buf bsz j)"

text \<open>One \<open>malloc\<close> of the allocation loop and the fields that record it.\<close>

definition alloc_into ::
    "ring_env \<Rightarrow> u32 \<Rightarrow> (addr \<Rightarrow> ring_control_block \<Rightarrow> ring_control_block) \<Rightarrow> ring_state \<Rightarrow> ring_state + (addr \<times> ring_state)" where
  "alloc_into env n record s =
     (let (p, s) = malloc env n s in if p = NULL then Inl s else Inr (p, upd_ctrl (record p) s))"

text \<open>
  One turn of the allocation loop. \<open>Inl\<close>: an allocation failed, with the control block as
  it is at the \<open>goto cleanup\<close>; \<open>Inr\<close>: the ring is set up and marked valid.
\<close>

definition alloc_ring :: "ring_env \<Rightarrow> ring_config \<Rightarrow> ring_state \<Rightarrow> ring_state + ring_state" where
  "alloc_ring env c s =
     (let i = rc_ring_id c; n = rc_desc_count c; bsz = rc_buf_size c
      in case alloc_into env (n * DESC_SIZE)
                (\<lambda>p cb. cb\<lparr>cb_tx_desc_base := (cb_tx_desc_base cb)(i := p),
                           cb_tx_desc_count := (cb_tx_desc_count cb)(i := n)\<rparr>) s of
           Inl s \<Rightarrow> Inl s
         | Inr (tx_desc, s) \<Rightarrow>
      case alloc_into env (n * bsz)
             (\<lambda>p cb. cb\<lparr>cb_tx_buf_base := (cb_tx_buf_base cb)(i := p),
                        cb_tx_buf_size := (cb_tx_buf_size cb)(i := bsz)\<rparr>) s of
           Inl s \<Rightarrow> Inl s
         | Inr (tx_buf_pool, s) \<Rightarrow>
      case alloc_into env (n * DESC_SIZE)
             (\<lambda>p cb. cb\<lparr>cb_rx_desc_base := (cb_rx_desc_base cb)(i := p),
                        cb_rx_desc_count := (cb_rx_desc_count cb)(i := n)\<rparr>) s of
           Inl s \<Rightarrow> Inl s
         | Inr (rx_desc, s) \<Rightarrow>
      case alloc_into env (n * bsz)
             (\<lambda>p cb. cb\<lparr>cb_rx_buf_base := (cb_rx_buf_base cb)(i := p),
                        cb_rx_buf_size := (cb_rx_buf_size cb)(i := bsz)\<rparr>) s of
           Inl s \<Rightarrow> Inl s
         | Inr (rx_buf_pool, s) \<Rightarrow>
      let s = upd_ctrl (\<lambda>cb. cb\<lparr>cb_tx_wr_idx := (cb_tx_wr_idx cb)(i := 0),
                                cb_tx_rd_idx := (cb_tx_rd_idx cb)(i := 0),
                                cb_rx_wr_idx := (cb_rx_wr_idx cb)(i := 0),
                                cb_rx_rd_idx := (cb_rx_rd_idx cb)(i := 0)\<rparr>) s;
          s = s\<lparr>rg_desc := init_descs tx_desc (cb_tx_buf_base (rg_ctrl s) i)
                            rx_desc (cb_rx_buf_base (rg_ctrl s) i) bsz (unat n) (rg_desc s)\<rparr>
      in Inr (upd_ctrl (\<lambda>cb. cb\<lparr>cb_ring_status := (cb_ring_status cb)(i := RING_STATUS_VALID)\<rparr>) s))"

fun alloc_rings :: "ring_env \<Rightarrow> ring_config list \<Rightarrow> ring_state \<Rightarrow> ring_state + ring_state" where
  "alloc_rings env [] s = Inr s"
| "alloc_rings env (c # cs) s =
     (case alloc_ring env c s of Inl s \<Rightarrow> Inl s | Inr s \<Rightarrow> alloc_rings env cs s)"

text \<open>The synchronisation objects; \<open>Inl\<close> carries the failing result of the kernel call.\<close>

definition sync_ring :: "ring_env \<Rightarrow> ring_config \<Rightarrow> ring_state \<Rightarrow> (int \<times> ring_state) + ring_state" where
  "sync_ring env c s =
     (let i = rc_ring_id c; n = unat (rc_desc_count c)
      in if re_tx_mutex_init env i < 0 then Inl (re_tx_mutex_init env i, s) else
      let s = upd_ring i (\<lambda>r. r\<lparr>ri_tx_lock := 0\<rparr>) s
      in if re_rx_mutex_init env i < 0 then Inl (re_rx_mutex_init env i, s) else
      let s = upd_ring i (\<lambda>r. r\<lparr>ri_rx_lock := 0\<rparr>) s
      in if re_tx_sem_init env i < 0 then Inl (re_tx_sem_init env i, s) else
      let s = upd_ring i (\<lambda>r. r\<lparr>ri_tx_sem := \<lparr>sem_count = 0, sem_limit = n\<rparr>\<rparr>) s
      in if re_rx_sem_init env i < 0 then Inl (re_rx_sem_init env i, s) else
      let s = upd_ring i (\<lambda>r. r\<lparr>ri_rx_sem := \<lparr>sem_count = 0, sem_limit = n\<rparr>\<rparr>) s
      in Inr (upd_ring i (\<lambda>r. r\<lparr>ri_stats := zero_stats\<rparr>) s))"

fun sync_rings :: "ring_env \<Rightarrow> ring_config list \<Rightarrow> ring_state \<Rightarrow> (int \<times> ring_state) + ring_state" where
  "sync_rings env [] s = Inr s"
| "sync_rings env (c # cs) s =
     (case sync_ring env c s of Inl e \<Rightarrow> Inl e | Inr s \<Rightarrow> sync_rings env cs s)"

definition init_cleanup :: "ring_config list \<Rightarrow> ring_state \<Rightarrow> ring_state" where
  "init_cleanup cs s =
     (fold (\<lambda>c. free_ring_resources (rc_ring_id c)) cs s)\<lparr>rg_ctrl := zero_ctrl\<rparr>"

text \<open>
  \<open>configs\<close> is \<open>None\<close> for a NULL pointer; the array has at least \<open>num_rings\<close> entries, of
  which the function reads the first \<open>num_rings\<close>.
\<close>

definition ring_service_slave_init ::
    "ring_env \<Rightarrow> ring_config list option \<Rightarrow> u32 \<Rightarrow> ring_state \<Rightarrow> rc \<times> ring_state" where
  "ring_service_slave_init env configs num_rings s =
     (if rg_initialized s then (Neg EALREADY, s)
      else case configs of None \<Rightarrow> (Neg EINVAL, s) | Some cs \<Rightarrow>
      if num_rings = 0 \<or> unat num_rings > MAX_RINGS then (Neg EINVAL, s) else
      let cs = take (unat num_rings) cs
      in if \<not> list_all config_ok cs then (Neg EINVAL, s) else
      let s = s\<lparr>rg_ctrl := zero_ctrl\<lparr>cb_magic := RING_MAGIC_NUMBER, cb_version := RING_VERSION,
                  cb_num_rings := num_rings, cb_status := RING_STATUS_INITIALIZED\<rparr>\<rparr>
      in case alloc_rings env cs s of
           Inl s \<Rightarrow> (Neg ENOMEM, init_cleanup cs s)
         | Inr s \<Rightarrow>
      if \<not> re_device_ready env then (Neg ENODEV, init_cleanup cs s)
      else if re_gpio_configure env < 0 then (Rc (re_gpio_configure env), init_cleanup cs s)
      else case sync_rings env cs s of
           Inl (e, s) \<Rightarrow> (Rc e, init_cleanup cs s)
         | Inr s \<Rightarrow> (Rc 0, s\<lparr>rg_works := [], rg_num_rings := num_rings, rg_initialized := True\<rparr>))"

definition ring_ids :: "u8 list" where
  "ring_ids = map of_nat [0..<MAX_RINGS]"

definition ring_service_deinit :: "ring_state \<Rightarrow> ring_state" where
  "ring_service_deinit s =
     (if \<not> rg_initialized s then s
      else (fold (\<lambda>i s. if cb_ring_status (rg_ctrl s) i = RING_STATUS_VALID
                        then free_ring_resources i s else s) ring_ids s)
             \<lparr>rg_ctrl := zero_ctrl, rg_initialized := False\<rparr>)"

definition ring_configs :: "ring_config list" where
  "ring_configs =
     [\<lparr>rc_ring_id = 0, rc_desc_count = 8, rc_buf_size = 1500\<rparr>,
      \<lparr>rc_ring_id = 1, rc_desc_count = 8, rc_buf_size = 1500\<rparr>,
      \<lparr>rc_ring_id = 2, rc_desc_count = 8, rc_buf_size = 1500\<rparr>]"

definition init_qring :: "ring_env \<Rightarrow> ring_state \<Rightarrow> rc \<times> ring_state" where
  "init_qring env s =
     (case ring_service_slave_init env (Some ring_configs) (of_nat (length ring_configs)) s of
        (Neg e, s) \<Rightarrow> (Neg e, s)
      | (Rc r, s) \<Rightarrow> if r < 0 then (Rc r, s) else (Rc 0, s))"

section \<open>Callbacks and statistics\<close>

definition ring_register_callback :: "addr \<Rightarrow> addr \<Rightarrow> ring_state \<Rightarrow> rc \<times> ring_state" where
  "ring_register_callback callback user_data s =
     (if \<not> rg_initialized s then (Neg ENODEV, s)
      else (Rc 0, s\<lparr>rg_callback := callback, rg_callback_data := user_data\<rparr>))"

text \<open>The checks the data operations share, in their order.\<close>

definition check_ring :: "u8 \<Rightarrow> ring_state \<Rightarrow> errno option" where
  "check_ring i s =
     (if \<not> rg_initialized s then Some ENODEV
      else if unat i \<ge> MAX_RINGS then Some EINVAL
      else if cb_ring_status (rg_ctrl s) i \<noteq> RING_STATUS_VALID then Some EINVAL
      else None)"

text \<open>\<open>out\<close> is whether the caller's pointer is not NULL; the statistics are copied there.\<close>

definition ring_get_stats :: "u8 \<Rightarrow> bool \<Rightarrow> ring_state \<Rightarrow> errno + ring_stats" where
  "ring_get_stats i out s =
     (case check_ring i s of
        Some e \<Rightarrow> Inl e
      | None \<Rightarrow> if \<not> out then Inl EINVAL else Inr (ri_stats (rg_rings s i)))"

definition ring_get_num :: "ring_state \<Rightarrow> int" where
  "ring_get_num s = sint (rg_num_rings s)"

definition free_slots :: "u32 \<Rightarrow> u32 \<Rightarrow> u32 \<Rightarrow> u32" where
  "free_slots desc_count wr_idx rd_idx =
     (if rd_idx > wr_idx then rd_idx - wr_idx - 1 else desc_count - (wr_idx - rd_idx) - 1)"

definition used_slots :: "u32 \<Rightarrow> u32 \<Rightarrow> u32 \<Rightarrow> u32" where
  "used_slots desc_count wr_idx rd_idx =
     (if wr_idx \<ge> rd_idx then wr_idx - rd_idx else desc_count - (rd_idx - wr_idx))"

definition ring_get_tx_available :: "u8 \<Rightarrow> ring_state \<Rightarrow> rc" where
  "ring_get_tx_available i s =
     (case check_ring i s of
        Some e \<Rightarrow> Neg e
      | None \<Rightarrow> (let c = rg_ctrl s
                 in Rc (sint (free_slots (cb_rx_desc_count c i) (cb_rx_wr_idx c i) (cb_rx_rd_idx c i)))))"

definition ring_get_rx_available :: "u8 \<Rightarrow> ring_state \<Rightarrow> rc" where
  "ring_get_rx_available i s =
     (case check_ring i s of
        Some e \<Rightarrow> Neg e
      | None \<Rightarrow> (let c = rg_ctrl s
                 in Rc (sint (used_slots (cb_tx_desc_count c i) (cb_tx_wr_idx c i) (cb_tx_rd_idx c i)))))"

section \<open>Sending (slave to host)\<close>

text \<open>
  \<open>lock\<close> is the result of \<open>k_mutex_lock\<close>. The GPIO pulse after the unlock cannot fail the
  call; \<open>rg_pulses\<close> counts it. \<open>len\<close> is a 32-bit \<open>size_t\<close>, stored into a 16-bit field.
\<close>

definition send_locked :: "u8 \<Rightarrow> addr \<Rightarrow> u32 \<Rightarrow> ring_state \<Rightarrow> rc \<times> ring_state" where
  "send_locked i data len s =
     (let c = rg_ctrl s;
          wr_idx = cb_rx_wr_idx c i; rd_idx = cb_rx_rd_idx c i;
          avail = free_slots (cb_rx_desc_count c i) wr_idx rd_idx
      in if avail = 0 then (Neg EAGAIN, upd_ring i (\<lambda>r. r\<lparr>ri_tx_lock := ri_tx_lock r - 1\<rparr>) s)
      else
        let d = desc_at (cb_rx_desc_base c i) wr_idx;
            buf_addr = rd_buffer_addr (rg_desc s d);
            s = s\<lparr>rg_mem := mem_write (rg_mem s) buf_addr (mem_read (rg_mem s) data (unat len))\<rparr>;
            s = s\<lparr>rg_desc := (rg_desc s)(d := (rg_desc s d)\<lparr>rd_length := ucast len,
                                                             rd_flags := RING_DESC_FLAG_VALID\<rparr>)\<rparr>;
            next_wr_idx = (wr_idx + 1) mod cb_rx_desc_count c i;
            s = upd_ctrl (\<lambda>c. c\<lparr>cb_rx_wr_idx := (cb_rx_wr_idx c)(i := next_wr_idx)\<rparr>) s;
            s = upd_ring i (\<lambda>r. r\<lparr>ri_stats := (ri_stats r)\<lparr>st_tx_count := st_tx_count (ri_stats r) + 1\<rparr>\<rparr>) s;
            s = upd_ring i (\<lambda>r. r\<lparr>ri_tx_lock := ri_tx_lock r - 1\<rparr>) s
        in (Rc 0, s\<lparr>rg_pulses := Suc (rg_pulses s)\<rparr>))"

definition ring_send :: "int \<Rightarrow> u8 \<Rightarrow> addr \<Rightarrow> u32 \<Rightarrow> ring_state \<Rightarrow> rc \<times> ring_state" where
  "ring_send lock i data len s =
     (case check_ring i s of
        Some e \<Rightarrow> (Neg e, s)
      | None \<Rightarrow>
          if data = NULL \<or> len = 0 then (Neg EINVAL, s)
          else if len > cb_rx_buf_size (rg_ctrl s) i then (Neg EMSGSIZE, s)
          else if lock < 0 then (Rc lock, s)
          else send_locked i data len (upd_ring i (\<lambda>r. r\<lparr>ri_tx_lock := Suc (ri_tx_lock r)\<rparr>) s))"

section \<open>Receiving (host to slave)\<close>

datatype k_timeout = K_NO_WAIT | K_FOREVER | K_TICKS nat

text \<open>
  The kernel results a receive depends on, and what the rest of the system does to the
  state while the caller sleeps on the semaphore (the lock is not held then).
\<close>

record recv_env =
  rv_lock :: int
  rv_sem_take :: int
  rv_relock :: int
  rv_while_waiting :: "ring_state \<Rightarrow> ring_state"

definition unlock_rx :: "u8 \<Rightarrow> ring_state \<Rightarrow> ring_state" where
  "unlock_rx i = upd_ring i (\<lambda>r. r\<lparr>ri_rx_lock := ri_rx_lock r - 1\<rparr>)"

definition lock_rx :: "u8 \<Rightarrow> ring_state \<Rightarrow> ring_state" where
  "lock_rx i = upd_ring i (\<lambda>r. r\<lparr>ri_rx_lock := Suc (ri_rx_lock r)\<rparr>)"

definition count_rx_error :: "u8 \<Rightarrow> ring_state \<Rightarrow> ring_state" where
  "count_rx_error i = upd_ring i (\<lambda>r. r\<lparr>ri_stats := (ri_stats r)\<lparr>st_rx_errors := st_rx_errors (ri_stats r) + 1\<rparr>\<rparr>)"

text \<open>From the descriptor on, with the lock held and the read index in hand.\<close>

definition recv_locked :: "u8 \<Rightarrow> addr \<Rightarrow> u32 \<Rightarrow> ring_state \<Rightarrow> rc \<times> ring_state" where
  "recv_locked i data max_len s =
     (let c = rg_ctrl s;
          rd_idx = cb_tx_rd_idx c i;
          d = desc_at (cb_tx_desc_base c i) rd_idx
      in if rd_flags (rg_desc s d) AND RING_DESC_FLAG_VALID = 0
         then (Neg EINVAL, unlock_rx i (count_rx_error i s))
      else
        let data_len = rd_length (rg_desc s d)
        in if ucast data_len > max_len
           then (Neg EMSGSIZE, unlock_rx i (count_rx_error i s))
        else
          let buf_addr = rd_buffer_addr (rg_desc s d);
              s = s\<lparr>rg_mem := mem_write (rg_mem s) data (mem_read (rg_mem s) buf_addr (unat data_len))\<rparr>;
              s = s\<lparr>rg_desc := (rg_desc s)(d := (rg_desc s d)\<lparr>rd_flags := 0, rd_length := 0\<rparr>)\<rparr>;
              next_rd_idx = (rd_idx + 1) mod cb_tx_desc_count c i;
              s = upd_ctrl (\<lambda>c. c\<lparr>cb_tx_rd_idx := (cb_tx_rd_idx c)(i := next_rd_idx)\<rparr>) s;
              s = upd_ring i (\<lambda>r. r\<lparr>ri_stats := (ri_stats r)\<lparr>st_rx_count := st_rx_count (ri_stats r) + 1\<rparr>\<rparr>) s
          in (Rc (int (unat data_len)), unlock_rx i s))"

definition ring_recv :: "recv_env \<Rightarrow> u8 \<Rightarrow> addr \<Rightarrow> u32 \<Rightarrow> k_timeout \<Rightarrow> ring_state \<Rightarrow> rc \<times> ring_state" where
  "ring_recv env i data max_len timeout s =
     (case check_ring i s of
        Some e \<Rightarrow> (Neg e, s)
      | None \<Rightarrow>
          if data = NULL \<or> max_len = 0 then (Neg EINVAL, s)
          else if rv_lock env < 0 then (Rc (rv_lock env), s)
          else
            let s = lock_rx i s; c = rg_ctrl s;
                avail = used_slots (cb_tx_desc_count c i) (cb_tx_wr_idx c i) (cb_tx_rd_idx c i)
            in if avail = 0 then
                 (if timeout = K_NO_WAIT then (Rc 0, unlock_rx i s)
                  else
                    let s = rv_while_waiting env (unlock_rx i s)
                    in if rv_sem_take env < 0 then (Rc 0, s)
                       else
                         let s = upd_ring i (\<lambda>r. r\<lparr>ri_rx_sem := (ri_rx_sem r)
                                   \<lparr>sem_count := sem_count (ri_rx_sem r) - 1\<rparr>\<rparr>) s
                         in if rv_relock env < 0 then (Rc (rv_relock env), s)
                            else recv_locked i data max_len (lock_rx i s))
               else recv_locked i data max_len s)"

section \<open>Interrupt and work queue\<close>

definition k_sem_give :: "ksem \<Rightarrow> ksem" where
  "k_sem_give x = x\<lparr>sem_count := (if sem_count x < sem_limit x then Suc (sem_count x) else sem_count x)\<rparr>"

text \<open>A work item that is already queued is not queued twice.\<close>

definition submit_work :: "u8 \<Rightarrow> ring_state \<Rightarrow> ring_state" where
  "submit_work i s = (if i \<in> set (rg_works s) then s else s\<lparr>rg_works := rg_works s @ [i]\<rparr>)"

definition rx_handler_ring :: "u8 \<Rightarrow> ring_state \<Rightarrow> ring_state" where
  "rx_handler_ring i s =
     (if cb_ring_status (rg_ctrl s) i \<noteq> RING_STATUS_VALID then s
      else
        let s = upd_ring i (\<lambda>r. r\<lparr>ri_rx_sem := k_sem_give (ri_rx_sem r)\<rparr>) s
        in if rg_callback s \<noteq> NULL then submit_work i s else s)"

definition ring_rx_handler :: "ring_state \<Rightarrow> ring_state" where
  "ring_rx_handler s =
     (if \<not> rg_initialized s then s else fold rx_handler_ring ring_ids s)"

text \<open>The deferred work of one ring: the callback it makes, if any (function, ring, data).\<close>

definition rx_work_handler :: "u8 \<Rightarrow> ring_state \<Rightarrow> (addr \<times> u8 \<times> addr) option" where
  "rx_work_handler i s =
     (case ring_get_rx_available i s of
        Neg e \<Rightarrow> None
      | Rc avail \<Rightarrow>
          if avail \<le> 0 then None
          else if rg_callback s \<noteq> NULL then Some (rg_callback s, i, rg_callback_data s) else None)"

end
