(* ===== verification/Ring_Correct.thy ===== *)
theory Ring_Correct
  imports Ring_Service
begin

text \<open>
  Correctness of the ring service. Each direction of a ring is abstracted to the list of
  packets between its read and its write index; \<open>ring_send\<close> appends to one list and
  \<open>ring_recv\<close> takes the head of the other. The invariant ties indices, descriptors and
  buffer slices to the live heap blocks. Initialisation is all-or-nothing on the heap.
\<close>

section \<open>The two directions of a ring\<close>

datatype dir = Tx | Rx

lemma all_dir: "(\<forall>d. P d) \<longleftrightarrow> P Tx \<and> P Rx"
  by (metis dir.exhaust)

fun d_desc :: "dir \<Rightarrow> ring_control_block \<Rightarrow> u8 \<Rightarrow> addr" where
  "d_desc Tx c i = cb_tx_desc_base c i"
| "d_desc Rx c i = cb_rx_desc_base c i"

fun d_count :: "dir \<Rightarrow> ring_control_block \<Rightarrow> u8 \<Rightarrow> u32" where
  "d_count Tx c i = cb_tx_desc_count c i"
| "d_count Rx c i = cb_rx_desc_count c i"

fun d_wr :: "dir \<Rightarrow> ring_control_block \<Rightarrow> u8 \<Rightarrow> u32" where
  "d_wr Tx c i = cb_tx_wr_idx c i"
| "d_wr Rx c i = cb_rx_wr_idx c i"

fun d_rd :: "dir \<Rightarrow> ring_control_block \<Rightarrow> u8 \<Rightarrow> u32" where
  "d_rd Tx c i = cb_tx_rd_idx c i"
| "d_rd Rx c i = cb_rx_rd_idx c i"

fun d_bsz :: "dir \<Rightarrow> ring_control_block \<Rightarrow> u8 \<Rightarrow> u32" where
  "d_bsz Tx c i = cb_tx_buf_size c i"
| "d_bsz Rx c i = cb_rx_buf_size c i"

fun d_buf :: "dir \<Rightarrow> ring_control_block \<Rightarrow> u8 \<Rightarrow> addr" where
  "d_buf Tx c i = cb_tx_buf_base c i"
| "d_buf Rx c i = cb_rx_buf_base c i"

definition valid :: "ring_control_block \<Rightarrow> u8 \<Rightarrow> bool" where
  "valid c i \<longleftrightarrow> unat i < MAX_RINGS \<and> cb_ring_status c i = RING_STATUS_VALID"

definition slot_desc :: "dir \<Rightarrow> ring_state \<Rightarrow> u8 \<Rightarrow> nat \<Rightarrow> ring_descriptor" where
  "slot_desc d s i j = rg_desc s (desc_at (d_desc d (rg_ctrl s) i) (of_nat j))"

definition packet :: "dir \<Rightarrow> ring_state \<Rightarrow> u8 \<Rightarrow> nat \<Rightarrow> bytes" where
  "packet d s i j = mem_read (rg_mem s) (rd_buffer_addr (slot_desc d s i j)) (unat (rd_length (slot_desc d s i j)))"

text \<open>The packets waiting in one direction of a ring, oldest first.\<close>

definition queue :: "dir \<Rightarrow> u8 \<Rightarrow> ring_state \<Rightarrow> bytes list" where
  "queue d i s = ring_list (packet d s i) (unat (d_count d (rg_ctrl s) i))
                   (unat (d_rd d (rg_ctrl s) i)) (unat (d_wr d (rg_ctrl s) i))"

definition capacity :: "dir \<Rightarrow> u8 \<Rightarrow> ring_state \<Rightarrow> nat" where
  "capacity d i s = unat (d_count d (rg_ctrl s) i) - 1"

section \<open>Invariant\<close>

definition blocks_ok :: "(addr \<times> u32) list \<Rightarrow> bool" where
  "blocks_ok B \<longleftrightarrow> distinct (map fst B)
     \<and> (\<forall>(p, n) \<in> set B. p \<noteq> NULL \<and> unat p + unat n \<le> 2 ^ 32)
     \<and> (\<forall>(p, n) \<in> set B. \<forall>(q, k) \<in> set B. p \<noteq> q \<longrightarrow> apart p (unat n) q (unat k))"

definition indices_ok :: "dir \<Rightarrow> ring_control_block \<Rightarrow> u8 \<Rightarrow> bool" where
  "indices_ok d c i \<longleftrightarrow> 0 < d_count d c i \<and> d_count d c i \<le> 256 \<and> 0 < d_bsz d c i \<and> d_bsz d c i \<le> 1500
     \<and> d_rd d c i < d_count d c i \<and> d_wr d c i < d_count d c i"

definition dir_ok :: "dir \<Rightarrow> ring_state \<Rightarrow> u8 \<Rightarrow> bool" where
  "dir_ok d s i \<longleftrightarrow>
     (let c = rg_ctrl s; n = d_count d c i; bsz = d_bsz d c i
      in indices_ok d c i
       \<and> (d_desc d c i, n * DESC_SIZE) \<in> set (rg_blocks s)
       \<and> (d_buf d c i, n * bsz) \<in> set (rg_blocks s)
       \<and> (\<forall>j < unat n. rd_buffer_addr (slot_desc d s i j) = d_buf d c i + of_nat j * bsz)
       \<and> (\<forall>k < used (unat n) (unat (d_rd d c i)) (unat (d_wr d c i)).
            let sd = slot_desc d s i ((unat (d_rd d c i) + k) mod unat n)
            in rd_flags sd = RING_DESC_FLAG_VALID \<and> unat (rd_length sd) \<le> unat bsz))"

text \<open>The four blocks of all valid rings are different blocks.\<close>

definition base_of :: "ring_control_block \<Rightarrow> dir \<times> bool \<times> u8 \<Rightarrow> addr" where
  "base_of c x = (case x of (d, b, i) \<Rightarrow> if b then d_buf d c i else d_desc d c i)"

definition bases_distinct :: "ring_control_block \<Rightarrow> bool" where
  "bases_distinct c \<longleftrightarrow> inj_on (base_of c) {(d, b, i). valid c i}"

definition ring_inv :: "ring_state \<Rightarrow> bool" where
  "ring_inv s \<longleftrightarrow> rg_initialized s \<and> blocks_ok (rg_blocks s) \<and> bases_distinct (rg_ctrl s)
     \<and> (\<forall>i d. valid (rg_ctrl s) i \<longrightarrow> dir_ok d s i)"

lemma check_ring_None:
  "check_ring i s = None \<longleftrightarrow> rg_initialized s \<and> valid (rg_ctrl s) i"
  by (auto simp: check_ring_def valid_def)

section \<open>Slot arithmetic\<close>

lemma unat_pred_mod:
  assumes "(x :: u32) < n"
  shows "unat ((x + 1) mod n) = Suc (unat x) mod unat n"
proof -
  have "unat x < unat n" using assms by (simp add: word_less_nat_alt)
  then have "unat (x + 1) = Suc (unat x)"
    using unsigned_less [of n, where ?'a = nat] by (simp add: unat_word_ariths)
  then show ?thesis by (simp add: unat_mod_distrib)
qed

lemma free_slots_used:
  assumes "wr < n" and "rd < n"
  shows "unat (free_slots n wr rd) = unat n - 1 - used (unat n) (unat rd) (unat wr)"
proof (cases "rd > wr")
  case True
  then have le: "wr \<le> rd" and one: "1 \<le> rd - wr"
    by (simp_all add: word_le_nat_alt word_less_nat_alt unat_sub)
  have "unat (rd - wr - 1) = unat rd - unat wr - 1"
    using le one by (simp add: unat_sub)
  then show ?thesis
    using True assms by (simp add: free_slots_def used_def word_less_nat_alt)
next
  case False
  then have le: "rd \<le> wr" by simp
  have sub: "unat (wr - rd) = unat wr - unat rd" using le by (simp add: unat_sub)
  have lt: "wr - rd \<le> n" using sub assms by (simp add: word_le_nat_alt word_less_nat_alt)
  have sub2: "unat (n - (wr - rd)) = unat n - (unat wr - unat rd)" using lt sub by (simp add: unat_sub)
  have "1 \<le> n - (wr - rd)" using sub2 assms le by (simp add: word_le_nat_alt word_less_nat_alt)
  then have "unat (n - (wr - rd) - 1) = unat n - (unat wr - unat rd) - 1"
    using sub2 by (simp add: unat_sub)
  then show ?thesis
    using False le by (simp add: free_slots_def used_def word_le_nat_alt)
qed

lemma used_slots_used:
  assumes "wr < n" and "rd < n"
  shows "unat (used_slots n wr rd) = used (unat n) (unat rd) (unat wr)"
proof (cases "wr \<ge> rd")
  case True
  then show ?thesis by (simp add: used_slots_def used_def word_le_nat_alt unat_sub)
next
  case False
  then have le: "wr \<le> rd" by simp
  have sub: "unat (rd - wr) = unat rd - unat wr" using le by (simp add: unat_sub)
  have "rd - wr \<le> n" using sub assms by (simp add: word_le_nat_alt word_less_nat_alt)
  then show ?thesis using False sub
    by (simp add: used_slots_def used_def word_le_nat_alt unat_sub)
qed

lemma sint_small:
  assumes "unat (w :: u32) < 2 ^ 31"
  shows "sint w = int (unat w)"
proof -
  have "int (unat w) < 2 ^ 31" using assms by (simp only: of_nat_less_numeral_power_cancel_iff)
  moreover have "- (2 ^ 31) \<le> int (unat w)" by (rule order_trans [of _ 0]) simp_all
  ultimately have "signed_take_bit 31 (int (unat w)) = int (unat w)"
    by (intro signed_take_bit_int_eq_self)
  then show ?thesis by (simp add: sint_uint)
qed

lemma unat_mult_small:
  assumes "(n :: u32) \<le> 256" and "m \<le> 1500"
  shows "unat (n * m) = unat n * unat m"
proof -
  have "unat n * unat m \<le> 256 * 1500"
    using assms by (intro mult_mono) (simp_all add: word_le_nat_alt)
  then show ?thesis by (simp add: unat_word_ariths)
qed

text \<open>The slice of slot \<open>j\<close> of a buffer pool, and the address of its descriptor.\<close>

lemma slice_unat:
  assumes "unat buf + unat (n * bsz :: u32) \<le> 2 ^ 32" and "n \<le> 256" and "bsz \<le> 1500" and "0 < bsz" and "j < unat n"
  shows "unat (buf + of_nat j * bsz) = unat buf + j * unat bsz"
proof -
  have bz: "0 < unat bsz" using assms(4) by (simp add: word_less_nat_alt)
  have "j * unat bsz < unat n * unat bsz" using assms(5) bz by simp
  then have lt: "unat buf + j * unat bsz < 2 ^ 32"
    using assms(1) unfolding unat_mult_small [OF assms(2,3)] by linarith
  have "(of_nat j :: u32) * bsz = of_nat (j * unat bsz)" by simp
  then show ?thesis using unat_addr_offset [OF lt] by simp
qed

lemma slices_apart:
  assumes "unat buf + unat (n * bsz :: u32) \<le> 2 ^ 32" and "n \<le> 256" and "bsz \<le> 1500" and "0 < bsz"
    and "j < unat n" and "k < unat n" and "j \<noteq> k"
  shows "apart (buf + of_nat j * bsz) (unat bsz) (buf + of_nat k * bsz) (unat bsz)"
proof -
  have le: "a * unat bsz + unat bsz \<le> b * unat bsz" if "a < b" for a b
    using mult_le_mono1 [of "Suc a" b "unat bsz"] that by simp
  show ?thesis
    unfolding apart_def slice_unat [OF assms(1-4) assms(5)] slice_unat [OF assms(1-4) assms(6)]
    using assms(1,5-7) le [of j k] le [of k j] le [of j "unat n"] le [of k "unat n"]
      unat_mult_small [OF assms(2,3)] by (cases "j < k") auto
qed

lemma slice_in_block:
  assumes "unat buf + unat (n * bsz :: u32) \<le> 2 ^ 32" and "n \<le> 256" and "bsz \<le> 1500" and "0 < bsz" and "j < unat n"
    and "apart buf (unat (n * bsz)) q m"
  shows "apart (buf + of_nat j * bsz) (unat bsz) q m"
proof (rule apart_sub [OF assms(6)])
  have "j * unat bsz + unat bsz \<le> unat n * unat bsz"
    using mult_le_mono1 [of "Suc j" "unat n" "unat bsz"] assms(5) by simp
  then show "unat (buf + of_nat j * bsz) + unat bsz \<le> unat buf + unat (n * bsz)"
    unfolding slice_unat [OF assms(1-5)] unat_mult_small [OF assms(2,3)] by simp
  show "unat buf \<le> unat (buf + of_nat j * bsz)"
    unfolding slice_unat [OF assms(1-5)] by simp
qed

lemma desc_at_nat:
  assumes "unat p + unat (n * DESC_SIZE) \<le> 2 ^ 32" and "n \<le> 256" and "j < unat n"
  shows "unat (desc_at p (of_nat j)) = unat p + j * 8"
  using slice_unat [of p n DESC_SIZE j] assms by (simp add: desc_at_def DESC_SIZE_def)

lemma desc_at_inj:
  assumes "unat p + unat (n * DESC_SIZE) \<le> 2 ^ 32" and "n \<le> 256" and "j < unat n" and "k < unat n"
    and "desc_at p (of_nat j) = desc_at p (of_nat k)"
  shows "j = k"
proof -
  have "unat p + j * 8 = unat p + k * 8"
    by (simp only: desc_at_nat [OF assms(1-3), symmetric] desc_at_nat [OF assms(1,2,4), symmetric] assms(5))
  then show ?thesis by simp
qed

lemma desc_at_apart:
  assumes "apart p (unat (n * DESC_SIZE)) q (unat (m * DESC_SIZE))" and "n \<le> 256" and "m \<le> 256"
    and "j < unat n" and "k < unat m"
  shows "desc_at p (of_nat j) \<noteq> desc_at q (of_nat k)"
proof -
  have "unat (desc_at p (of_nat j)) = unat p + j * 8" "unat (desc_at q (of_nat k)) = unat q + k * 8"
    using assms desc_at_nat [of p n j] desc_at_nat [of q m k] by (auto simp: apart_def)
  moreover have "unat (n * DESC_SIZE) = unat n * 8" "unat (m * DESC_SIZE) = unat m * 8"
    using unat_mult_small [of n DESC_SIZE] unat_mult_small [of m DESC_SIZE] assms(2,3)
    by (simp_all add: DESC_SIZE_def)
  ultimately show ?thesis using assms(1,4,5) by (auto simp: apart_def)
qed

section \<open>Slots of different rings do not meet\<close>

definition size_of :: "ring_control_block \<Rightarrow> dir \<times> bool \<times> u8 \<Rightarrow> u32" where
  "size_of c x = (case x of (d, b, i) \<Rightarrow> if b then d_count d c i * d_bsz d c i else d_count d c i * DESC_SIZE)"

lemma block_of:
  "ring_inv s \<Longrightarrow> valid (rg_ctrl s) i \<Longrightarrow>
     (base_of (rg_ctrl s) (d, b, i), size_of (rg_ctrl s) (d, b, i)) \<in> set (rg_blocks s)"
  by (auto simp: ring_inv_def base_of_def size_of_def dir_ok_def Let_def)

lemma block_no_wrap:
  assumes "ring_inv s" and "valid (rg_ctrl s) i"
  shows "unat (base_of (rg_ctrl s) (d, b, i)) + unat (size_of (rg_ctrl s) (d, b, i)) \<le> 2 ^ 32"
  using block_of [OF assms, of d b] assms(1) by (auto simp: ring_inv_def blocks_ok_def)

lemma bases_apart:
  assumes "ring_inv s" and "valid (rg_ctrl s) i" and "valid (rg_ctrl s) i'" and "(d, b, i) \<noteq> (d', b', i')"
  shows "apart (base_of (rg_ctrl s) (d, b, i)) (unat (size_of (rg_ctrl s) (d, b, i)))
               (base_of (rg_ctrl s) (d', b', i')) (unat (size_of (rg_ctrl s) (d', b', i')))"
proof -
  have "base_of (rg_ctrl s) (d, b, i) \<noteq> base_of (rg_ctrl s) (d', b', i')"
    using assms inj_onD [of "base_of (rg_ctrl s)" "{(d, b, i). valid (rg_ctrl s) i}" "(d, b, i)" "(d', b', i')"]
    by (auto simp: ring_inv_def bases_distinct_def)
  then show ?thesis
    using block_of [OF assms(1,2), of d b] block_of [OF assms(1,3), of d' b'] assms(1)
    by (auto simp: ring_inv_def blocks_ok_def)
qed

definition slice :: "dir \<Rightarrow> ring_state \<Rightarrow> u8 \<Rightarrow> nat \<Rightarrow> addr" where
  "slice d s i j = d_buf d (rg_ctrl s) i + of_nat j * d_bsz d (rg_ctrl s) i"

definition slot_addr :: "dir \<Rightarrow> ring_state \<Rightarrow> u8 \<Rightarrow> nat \<Rightarrow> addr" where
  "slot_addr d s i j = desc_at (d_desc d (rg_ctrl s) i) (of_nat j)"

definition slots :: "dir \<Rightarrow> ring_state \<Rightarrow> u8 \<Rightarrow> nat" where
  "slots d s i = unat (d_count d (rg_ctrl s) i)"

definition bufsz :: "dir \<Rightarrow> ring_state \<Rightarrow> u8 \<Rightarrow> nat" where
  "bufsz d s i = unat (d_bsz d (rg_ctrl s) i)"

lemma inv_bounds:
  assumes "ring_inv s" and "valid (rg_ctrl s) i"
  shows "d_count d (rg_ctrl s) i \<le> 256" and "d_bsz d (rg_ctrl s) i \<le> 1500" and "0 < d_bsz d (rg_ctrl s) i"
    and "d_rd d (rg_ctrl s) i < d_count d (rg_ctrl s) i" and "d_wr d (rg_ctrl s) i < d_count d (rg_ctrl s) i"
  using assms by (simp_all add: ring_inv_def dir_ok_def indices_ok_def Let_def)

lemma slot_slices_apart:
  assumes "ring_inv s" and "valid (rg_ctrl s) i" and "valid (rg_ctrl s) i'"
    and "j < slots d s i" and "j' < slots d' s i'" and "(d, i, j) \<noteq> (d', i', j')"
  shows "apart (slice d s i j) (bufsz d s i) (slice d' s i' j') (bufsz d' s i')"
proof (cases "(d, i) = (d', i')")
  case True
  then have "j \<noteq> j'" using assms(6) by auto
  then show ?thesis
    using True assms slices_apart [OF _ inv_bounds(1-3) [OF assms(1,2)]] block_no_wrap [OF assms(1,2), of d True]
    by (simp add: slice_def bufsz_def slots_def base_of_def size_of_def)
next
  case False
  have a: "apart (d_buf d (rg_ctrl s) i) (unat (d_count d (rg_ctrl s) i * d_bsz d (rg_ctrl s) i))
                 (d_buf d' (rg_ctrl s) i') (unat (d_count d' (rg_ctrl s) i' * d_bsz d' (rg_ctrl s) i'))"
    using bases_apart [OF assms(1-3), of d True d' True] False by (auto simp: base_of_def size_of_def)
  have n: "unat (d_buf d (rg_ctrl s) i) + unat (d_count d (rg_ctrl s) i * d_bsz d (rg_ctrl s) i) \<le> 2 ^ 32"
          "unat (d_buf d' (rg_ctrl s) i') + unat (d_count d' (rg_ctrl s) i' * d_bsz d' (rg_ctrl s) i') \<le> 2 ^ 32"
    using a by (simp_all add: apart_def)
  have "apart (slice d s i j) (bufsz d s i) (d_buf d' (rg_ctrl s) i') (unat (d_count d' (rg_ctrl s) i' * d_bsz d' (rg_ctrl s) i'))"
    unfolding slice_def bufsz_def
    by (rule slice_in_block [OF n(1) inv_bounds(1-3) [OF assms(1,2)] _ a]) (use assms(4) in \<open>simp add: slots_def\<close>)
  then have "apart (slice d' s i' j') (bufsz d' s i') (slice d s i j) (bufsz d s i)"
    unfolding slice_def [of d'] bufsz_def [of d']
    by (intro slice_in_block [OF n(2) inv_bounds(1-3) [OF assms(1,3)] _ apart_sym])
       (use assms(5) in \<open>simp_all add: slots_def\<close>)
  then show ?thesis by (rule apart_sym)
qed

lemma slot_addr_neq:
  assumes "ring_inv s" and "valid (rg_ctrl s) i" and "valid (rg_ctrl s) i'"
    and "j < slots d s i" and "j' < slots d' s i'" and "(d, i, j) \<noteq> (d', i', j')"
  shows "slot_addr d s i j \<noteq> slot_addr d' s i' j'"
proof (cases "(d, i) = (d', i')")
  case True
  then show ?thesis
    using assms desc_at_inj [OF _ inv_bounds(1) [OF assms(1,2)]] block_no_wrap [OF assms(1,2), of d False]
    by (auto simp: slot_addr_def slots_def base_of_def size_of_def)
next
  case False
  then show ?thesis
    using bases_apart [OF assms(1-3), of d False d' False] assms(4,5)
      desc_at_apart [OF _ inv_bounds(1) [OF assms(1,2)] inv_bounds(1) [OF assms(1,3)]]
    by (auto simp: slot_addr_def slots_def base_of_def size_of_def)
qed

section \<open>Updates of one slot\<close>

text \<open>A step that only moves indices and rewrites descriptors and buffers.\<close>

definition same_layout :: "ring_state \<Rightarrow> ring_state \<Rightarrow> bool" where
  "same_layout s s' \<longleftrightarrow> rg_initialized s' = rg_initialized s \<and> rg_blocks s' = rg_blocks s
     \<and> cb_ring_status (rg_ctrl s') = cb_ring_status (rg_ctrl s)
     \<and> (\<forall>d i. d_desc d (rg_ctrl s') i = d_desc d (rg_ctrl s) i \<and> d_buf d (rg_ctrl s') i = d_buf d (rg_ctrl s) i
            \<and> d_bsz d (rg_ctrl s') i = d_bsz d (rg_ctrl s) i \<and> d_count d (rg_ctrl s') i = d_count d (rg_ctrl s) i)"

definition rd_of :: "dir \<Rightarrow> ring_state \<Rightarrow> u8 \<Rightarrow> nat" where
  "rd_of d s i = unat (d_rd d (rg_ctrl s) i)"

definition wr_of :: "dir \<Rightarrow> ring_state \<Rightarrow> u8 \<Rightarrow> nat" where
  "wr_of d s i = unat (d_wr d (rg_ctrl s) i)"

definition slot_full :: "dir \<Rightarrow> ring_state \<Rightarrow> u8 \<Rightarrow> nat \<Rightarrow> bool" where
  "slot_full d s i j \<longleftrightarrow> rd_flags (slot_desc d s i j) = RING_DESC_FLAG_VALID
     \<and> unat (rd_length (slot_desc d s i j)) \<le> bufsz d s i"

text \<open>The part of \<open>dir_ok\<close> that such a step has to re-establish.\<close>

definition dir_live :: "dir \<Rightarrow> ring_state \<Rightarrow> u8 \<Rightarrow> bool" where
  "dir_live d s i \<longleftrightarrow> rd_of d s i < slots d s i \<and> wr_of d s i < slots d s i
     \<and> (\<forall>j < slots d s i. rd_buffer_addr (slot_desc d s i j) = slice d s i j)
     \<and> (\<forall>k < used (slots d s i) (rd_of d s i) (wr_of d s i).
          slot_full d s i ((rd_of d s i + k) mod slots d s i))"

lemmas dir_view = rd_of_def wr_of_def slots_def bufsz_def slice_def slot_full_def

lemma dir_okD:
  assumes "ring_inv s" and "valid (rg_ctrl s) i"
  shows "dir_live d s i"
  using assms
  by (simp add: ring_inv_def dir_ok_def dir_live_def dir_view indices_ok_def Let_def word_less_nat_alt)

lemma same_layout_views:
  assumes "same_layout s s'"
  shows "slots d s' i = slots d s i" and "bufsz d s' i = bufsz d s i" and "slice d s' i j = slice d s i j"
    and "slot_addr d s' i j = slot_addr d s i j" and "valid (rg_ctrl s') i = valid (rg_ctrl s) i"
  using assms by (simp_all add: same_layout_def slots_def bufsz_def slice_def slot_addr_def valid_def)

lemma ring_inv_step:
  assumes inv: "ring_inv s" and lay: "same_layout s s'"
    and live: "\<And>d i. valid (rg_ctrl s) i \<Longrightarrow> dir_live d s' i"
  shows "ring_inv s'"
proof -
  have "base_of (rg_ctrl s') = base_of (rg_ctrl s)"
    using lay by (auto simp: fun_eq_iff base_of_def same_layout_def)
  then have "bases_distinct (rg_ctrl s')"
    using inv lay by (simp add: ring_inv_def bases_distinct_def same_layout_views)
  moreover have "dir_ok d s' i" if "valid (rg_ctrl s) i" for d i
  proof -
    have "dir_ok d s i" using inv that by (simp add: ring_inv_def)
    then show ?thesis
      using lay live [OF that, of d]
      by (simp add: dir_ok_def dir_live_def dir_view indices_ok_def Let_def word_less_nat_alt same_layout_def)
  qed
  ultimately show ?thesis
    using inv lay same_layout_views(5) [OF lay] by (simp add: ring_inv_def same_layout_def)
qed

lemma slot_desc_addr: "slot_desc d s i j = rg_desc s (slot_addr d s i j)"
  by (simp add: slot_desc_def slot_addr_def)

lemma queue_view:
  "queue d i s = ring_list (packet d s i) (slots d s i) (rd_of d s i) (wr_of d s i)"
  by (simp add: queue_def dir_view)

lemma length_queue: "length (queue d i s) = used (slots d s i) (rd_of d s i) (wr_of d s i)"
  by (simp add: queue_view)

lemma slot_desc_other:
  assumes "ring_inv s" and "valid (rg_ctrl s) i" and "valid (rg_ctrl s) i'" and "same_layout s s'"
    and "j < slots d s i" and "j' < slots d' s i'" and "(d, i, j) \<noteq> (d', i', j')"
    and "rg_desc s' = (rg_desc s)(slot_addr d s i j := x)"
  shows "slot_desc d' s' i' j' = slot_desc d' s i' j'"
  using slot_addr_neq [OF assms(1-3,5-7)] assms(8)
  by (simp add: slot_desc_addr same_layout_views [OF assms(4)])

lemma dir_live_other:
  assumes "dir_live d s i" and "same_layout s s'"
    and "rd_of d s' i = rd_of d s i" and "wr_of d s' i = wr_of d s i"
    and "\<And>j. j < slots d s i \<Longrightarrow> slot_desc d s' i j = slot_desc d s i j"
  shows "dir_live d s' i"
  using assms by (simp add: dir_live_def slot_full_def same_layout_views [OF assms(2)])

lemma queue_other:
  assumes live: "dir_live d s i" and "same_layout s s'"
    and "rd_of d s' i = rd_of d s i" and "wr_of d s' i = wr_of d s i"
    and desc: "\<And>j. j < slots d s i \<Longrightarrow> slot_desc d s' i j = slot_desc d s i j"
    and mem: "\<And>j k. j < slots d s i \<Longrightarrow> k \<le> bufsz d s i \<Longrightarrow>
                mem_read (rg_mem s') (slice d s i j) k = mem_read (rg_mem s) (slice d s i j) k"
  shows "queue d i s' = queue d i s"
  unfolding queue_view assms(3,4) same_layout_views [OF assms(2)]
proof (rule ring_list_cong)
  fix k assume k: "k < used (slots d s i) (rd_of d s i) (wr_of d s i)"
  let ?j = "(rd_of d s i + k) mod slots d s i"
  have j: "?j < slots d s i" using live slot_less by (auto simp: dir_live_def)
  moreover have "slot_full d s i ?j" using live k by (simp add: dir_live_def)
  ultimately show "packet d s' i ?j = packet d s i ?j"
    using live mem [OF j] desc [OF j] by (simp add: packet_def dir_live_def slot_full_def)
qed

section \<open>Enqueue and dequeue steps\<close>

definition same_indices :: "dir \<Rightarrow> u8 \<Rightarrow> ring_state \<Rightarrow> ring_state \<Rightarrow> bool" where
  "same_indices d i s s' \<longleftrightarrow> rd_of d s' i = rd_of d s i \<and> wr_of d s' i = wr_of d s i"

text \<open>
  What writing a packet \<open>bs\<close> into direction \<open>d\<close> of ring \<open>i\<close> amounts to: its bytes in the
  slice of the write slot, a valid descriptor, and the write index one further.
\<close>

definition enq_step :: "dir \<Rightarrow> u8 \<Rightarrow> bytes \<Rightarrow> ring_state \<Rightarrow> ring_state \<Rightarrow> bool" where
  "enq_step d i bs s s' \<longleftrightarrow> same_layout s s' \<and> length bs \<le> bufsz d s i
     \<and> rg_mem s' = mem_write (rg_mem s) (slice d s i (wr_of d s i)) bs
     \<and> (\<exists>x. rg_desc s' = (rg_desc s)(slot_addr d s i (wr_of d s i) := x)
            \<and> rd_buffer_addr x = slice d s i (wr_of d s i)
            \<and> unat (rd_length x) = length bs \<and> rd_flags x = RING_DESC_FLAG_VALID)
     \<and> rd_of d s' i = rd_of d s i \<and> wr_of d s' i = Suc (wr_of d s i) mod slots d s i
     \<and> (\<forall>d' i'. (d', i') \<noteq> (d, i) \<longrightarrow> same_indices d' i' s s')"

lemma enq_step_other:
  assumes "ring_inv s" and "valid (rg_ctrl s) i" and "valid (rg_ctrl s) i'"
    and "enq_step d i bs s s'" and "(d', i') \<noteq> (d, i)"
  shows "dir_live d' s' i'" and "queue d' i' s' = queue d' i' s"
proof -
  have lay: "same_layout s s'" and ix: "rd_of d' s' i' = rd_of d' s i'" "wr_of d' s' i' = wr_of d' s i'"
    using assms(4,5) by (simp_all add: enq_step_def same_indices_def)
  have wr: "wr_of d s i < slots d s i" using dir_okD [OF assms(1,2)] by (simp add: dir_live_def)
  obtain x where x: "rg_desc s' = (rg_desc s)(slot_addr d s i (wr_of d s i) := x)"
    using assms(4) by (auto simp: enq_step_def)
  have desc: "slot_desc d' s' i' j = slot_desc d' s i' j" if "j < slots d' s i'" for j
    using slot_desc_other [OF assms(1-3) lay wr that _ x] assms(5) by auto
  have mem: "mem_read (rg_mem s') (slice d' s i' j) k = mem_read (rg_mem s) (slice d' s i' j) k"
    if "j < slots d' s i'" and "k \<le> bufsz d' s i'" for j k
  proof -
    have "apart (slice d' s i' j) (bufsz d' s i') (slice d s i (wr_of d s i)) (bufsz d s i)"
      using slot_slices_apart [OF assms(1,3,2) that(1) wr] assms(5) by auto
    then have "apart (slice d' s i' j) k (slice d s i (wr_of d s i)) (length bs)"
      using that(2) assms(4) by (auto simp: apart_def enq_step_def)
    then show ?thesis using assms(4) by (simp add: enq_step_def mem_read_write_apart)
  qed
  show "dir_live d' s' i'"
    using dir_live_other [OF dir_okD [OF assms(1,3)] lay ix] desc by blast
  show "queue d' i' s' = queue d' i' s"
    using queue_other [OF dir_okD [OF assms(1,3)] lay ix] desc mem by blast
qed

lemma enq_step_same:
  assumes "ring_inv s" and "valid (rg_ctrl s) i" and "enq_step d i bs s s'"
    and room: "length (queue d i s) < capacity d i s"
  shows "dir_live d s' i" and "queue d i s' = queue d i s @ [bs]"
proof -
  let ?n = "slots d s i" and ?rd = "rd_of d s i" and ?wr = "wr_of d s i"
  have lay: "same_layout s s'" and wr': "wr_of d s' i = Suc ?wr mod ?n" and rd': "rd_of d s' i = ?rd"
    and len: "length bs \<le> bufsz d s i"
    using assms(3) by (simp_all add: enq_step_def)
  have live: "dir_live d s i" by (rule dir_okD [OF assms(1,2)])
  then have wr: "?wr < ?n" and rd: "?rd < ?n" by (simp_all add: dir_live_def)
  have u: "used ?n ?rd ?wr < ?n - 1" using room by (simp add: length_queue capacity_def dir_view)
  obtain x where x: "rg_desc s' = (rg_desc s)(slot_addr d s i ?wr := x)"
    and xb: "rd_buffer_addr x = slice d s i ?wr" "unat (rd_length x) = length bs" "rd_flags x = RING_DESC_FLAG_VALID"
    using assms(3) by (auto simp: enq_step_def)
  have new: "slot_desc d s' i ?wr = x"
    using x by (simp add: slot_desc_addr same_layout_views [OF lay])
  have old: "slot_desc d s' i j = slot_desc d s i j" if "j < ?n" "j \<noteq> ?wr" for j
    using slot_desc_other [OF assms(1,2,2) lay wr that(1) _ x] that(2) by auto
  have usedslot: "(?rd + k) mod ?n < ?n" "(?rd + k) mod ?n \<noteq> ?wr" if "k < used ?n ?rd ?wr" for k
    using slot_less [OF rd] slot_not_write [OF rd wr that] by auto
  have full: "slot_full d s' i ((?rd + k) mod ?n)" if "k < Suc (used ?n ?rd ?wr)" for k
  proof (cases "k = used ?n ?rd ?wr")
    case True
    then show ?thesis using new xb len write_slot [OF rd wr]
      by (simp add: slot_full_def same_layout_views [OF lay])
  next
    case False
    then have "k < used ?n ?rd ?wr" using that by simp
    with live show ?thesis using usedslot old
      by (simp add: slot_full_def dir_live_def same_layout_views [OF lay])
  qed
  have addr: "rd_buffer_addr (slot_desc d s' i j) = slice d s i j" if "j < ?n" for j
    using live new old xb that by (cases "j = ?wr") (simp_all add: dir_live_def)
  show "dir_live d s' i"
    using full addr rd wr used_Suc_wr [OF rd wr u]
    by (simp add: dir_live_def same_layout_views [OF lay] wr' rd')
  have "bufsz d s i \<le> 1500"
    using inv_bounds(2) [OF assms(1,2)] by (simp add: bufsz_def word_le_nat_alt)
  then have pkt: "packet d s' i ?wr = bs"
    using new xb len assms(3) mem_read_write_same [of bs]
    by (simp add: packet_def enq_step_def)
  have same: "packet d s' i j = packet d s i j" if k: "k < used ?n ?rd ?wr" and j: "j = (?rd + k) mod ?n" for k j
  proof -
    have "slot_full d s i j" and jl: "j < ?n" "j \<noteq> ?wr" using live k j usedslot by (simp_all add: dir_live_def)
    moreover have "apart (slice d s i j) (bufsz d s i) (slice d s i ?wr) (bufsz d s i)"
      using slot_slices_apart [OF assms(1,2,2) jl(1) wr] jl by auto
    ultimately have "apart (slice d s i j) (unat (rd_length (slot_desc d s i j))) (slice d s i ?wr) (length bs)"
      using len by (auto simp: apart_def slot_full_def)
    then show ?thesis
      using live old [OF jl] assms(3) jl
      by (simp add: packet_def enq_step_def dir_live_def mem_read_write_apart)
  qed
  show "queue d i s' = queue d i s @ [bs]"
    using ring_list_enq [OF rd wr u, of "packet d s' i" "packet d s i"] same pkt
    by (simp add: queue_view same_layout_views [OF lay] wr' rd')
qed

lemma enq_step_inv:
  assumes "ring_inv s" and "valid (rg_ctrl s) i" and "enq_step d i bs s s'"
    and "length (queue d i s) < capacity d i s"
  shows "ring_inv s'"
proof (rule ring_inv_step [OF assms(1)])
  show "same_layout s s'" using assms(3) by (simp add: enq_step_def)
  show "dir_live d' s' i'" if "valid (rg_ctrl s) i'" for d' i'
    using enq_step_same(1) [OF assms] enq_step_other(1) [OF assms(1,2) that assms(3)]
    by (cases "(d', i') = (d, i)") auto
qed

text \<open>Taking the head: a rewrite of its descriptor that keeps the buffer address, the
  read index one further, and buffers of the rings untouched.\<close>

definition deq_step :: "dir \<Rightarrow> u8 \<Rightarrow> ring_state \<Rightarrow> ring_state \<Rightarrow> bool" where
  "deq_step d i s s' \<longleftrightarrow> same_layout s s'
     \<and> (\<forall>d' i' j k. valid (rg_ctrl s) i' \<longrightarrow> j < slots d' s i' \<longrightarrow> k \<le> bufsz d' s i' \<longrightarrow>
          mem_read (rg_mem s') (slice d' s i' j) k = mem_read (rg_mem s) (slice d' s i' j) k)
     \<and> (\<exists>x. rg_desc s' = (rg_desc s)(slot_addr d s i (rd_of d s i) := x)
            \<and> rd_buffer_addr x = slice d s i (rd_of d s i))
     \<and> wr_of d s' i = wr_of d s i \<and> rd_of d s' i = Suc (rd_of d s i) mod slots d s i
     \<and> (\<forall>d' i'. (d', i') \<noteq> (d, i) \<longrightarrow> same_indices d' i' s s')"

lemma deq_step_other:
  assumes "ring_inv s" and "valid (rg_ctrl s) i" and "valid (rg_ctrl s) i'"
    and "deq_step d i s s'" and "(d', i') \<noteq> (d, i)"
  shows "dir_live d' s' i'" and "queue d' i' s' = queue d' i' s"
proof -
  have lay: "same_layout s s'" and ix: "rd_of d' s' i' = rd_of d' s i'" "wr_of d' s' i' = wr_of d' s i'"
    using assms(4,5) by (simp_all add: deq_step_def same_indices_def)
  have rd: "rd_of d s i < slots d s i" using dir_okD [OF assms(1,2)] by (simp add: dir_live_def)
  obtain x where x: "rg_desc s' = (rg_desc s)(slot_addr d s i (rd_of d s i) := x)"
    using assms(4) by (auto simp: deq_step_def)
  have desc: "slot_desc d' s' i' j = slot_desc d' s i' j" if "j < slots d' s i'" for j
    using slot_desc_other [OF assms(1-3) lay rd that _ x] assms(5) by auto
  show "dir_live d' s' i'"
    using dir_live_other [OF dir_okD [OF assms(1,3)] lay ix] desc by blast
  show "queue d' i' s' = queue d' i' s"
    using queue_other [OF dir_okD [OF assms(1,3)] lay ix] desc assms(3,4) by (auto simp: deq_step_def)
qed

lemma deq_step_same:
  assumes "ring_inv s" and "valid (rg_ctrl s) i" and "deq_step d i s s'" and ne: "queue d i s \<noteq> []"
  shows "dir_live d s' i" and "queue d i s = packet d s i (rd_of d s i) # queue d i s'"
proof -
  let ?n = "slots d s i" and ?rd = "rd_of d s i" and ?wr = "wr_of d s i"
  have lay: "same_layout s s'" and rd': "rd_of d s' i = Suc ?rd mod ?n" and wr': "wr_of d s' i = ?wr"
    using assms(3) by (simp_all add: deq_step_def)
  have live: "dir_live d s i" by (rule dir_okD [OF assms(1,2)])
  then have wr: "?wr < ?n" and rd: "?rd < ?n" by (simp_all add: dir_live_def)
  have u: "used ?n ?rd ?wr \<noteq> 0" using ne by (simp flip: length_queue)
  obtain x where x: "rg_desc s' = (rg_desc s)(slot_addr d s i ?rd := x)" and xb: "rd_buffer_addr x = slice d s i ?rd"
    using assms(3) by (auto simp: deq_step_def)
  have new: "slot_desc d s' i ?rd = x"
    using x by (simp add: slot_desc_addr same_layout_views [OF lay])
  have old: "slot_desc d s' i j = slot_desc d s i j" if "j < ?n" "j \<noteq> ?rd" for j
    using slot_desc_other [OF assms(1,2,2) lay rd that(1) _ x] that(2) by auto
  have u': "used ?n (Suc ?rd mod ?n) ?wr = used ?n ?rd ?wr - 1" by (rule used_Suc_rd [OF rd wr u])
  have full: "slot_full d s i ((?rd + k) mod ?n)" if "k < used ?n ?rd ?wr" for k
    using live that by (simp add: dir_live_def)
  have rest: "(Suc ?rd mod ?n + k) mod ?n = (?rd + Suc k) mod ?n" "(?rd + Suc k) mod ?n < ?n"
      "(?rd + Suc k) mod ?n \<noteq> ?rd" "slot_full d s i ((?rd + Suc k) mod ?n)"
    if "k < used ?n ?rd ?wr - 1" for k
    by (rule slot_after_read [OF rd], rule slot_less [OF rd], rule slot_not_read [OF rd wr], use that in simp,
        rule full, use that in simp)
  have addr: "rd_buffer_addr (slot_desc d s' i j) = slice d s i j" if "j < ?n" for j
    using live new old xb that by (cases "j = ?rd") (simp_all add: dir_live_def)
  show "dir_live d s' i"
    using rest old addr rd wr u'
    by (simp add: dir_live_def slot_full_def same_layout_views [OF lay] wr' rd')
  have "packet d s' i j = packet d s i j" if "j < ?n" "j \<noteq> ?rd" "slot_full d s i j" for j
    using old that live assms(2,3) by (simp add: packet_def deq_step_def dir_live_def slot_full_def)
  then have "queue d i s' = ring_list (packet d s i) ?n (Suc ?rd mod ?n) ?wr"
    unfolding queue_view same_layout_views [OF lay] wr' rd'
    by (intro ring_list_cong) (use rest u' in simp)
  then show "queue d i s = packet d s i ?rd # queue d i s'"
    using ring_list_deq [OF rd wr u] by (simp add: queue_view)
qed

lemma deq_step_inv:
  assumes "ring_inv s" and "valid (rg_ctrl s) i" and "deq_step d i s s'" and "queue d i s \<noteq> []"
  shows "ring_inv s'"
proof (rule ring_inv_step [OF assms(1)])
  show "same_layout s s'" using assms(3) by (simp add: deq_step_def)
  show "dir_live d' s' i'" if "valid (rg_ctrl s) i'" for d' i'
    using deq_step_same(1) [OF assms] deq_step_other(1) [OF assms(1,2) that assms(3)]
    by (cases "(d', i') = (d, i)") auto
qed

section \<open>Sending and receiving\<close>

lemma upd_ring_simps [simp]:
  "rg_ctrl (upd_ring i f s) = rg_ctrl s" "rg_desc (upd_ring i f s) = rg_desc s"
  "rg_mem (upd_ring i f s) = rg_mem s" "rg_blocks (upd_ring i f s) = rg_blocks s"
  "rg_initialized (upd_ring i f s) = rg_initialized s" "rg_callback (upd_ring i f s) = rg_callback s"
  "rg_callback_data (upd_ring i f s) = rg_callback_data s" "rg_works (upd_ring i f s) = rg_works s"
  "rg_pulses (upd_ring i f s) = rg_pulses s" "rg_num_rings (upd_ring i f s) = rg_num_rings s"
  by (simp_all add: upd_ring_def)

lemma rings_upd_ring: "rg_rings (upd_ring i f s) = (rg_rings s)(i := f (rg_rings s i))"
  by (simp add: upd_ring_def)

text \<open>States that differ only in locks, semaphores and statistics.\<close>

definition same_data :: "ring_state \<Rightarrow> ring_state \<Rightarrow> bool" where
  "same_data s s' \<longleftrightarrow> rg_ctrl s' = rg_ctrl s \<and> rg_desc s' = rg_desc s \<and> rg_mem s' = rg_mem s
     \<and> rg_blocks s' = rg_blocks s \<and> rg_initialized s' = rg_initialized s"

lemma same_data_views:
  assumes "same_data s s'"
  shows "queue d i s' = queue d i s" and "ring_inv s' = ring_inv s" and "capacity d i s' = capacity d i s"
proof -
  have q: "queue d i s' = queue d i s" for d i
    using assms by (simp add: same_data_def queue_def packet_def [abs_def] slot_desc_def)
  show "queue d i s' = queue d i s" by (rule q)
  show "ring_inv s' = ring_inv s"
    using assms by (simp add: same_data_def ring_inv_def dir_ok_def slot_desc_def)
  show "capacity d i s' = capacity d i s" using assms by (simp add: same_data_def capacity_def)
qed

lemma same_data_upd_ring [simp]: "same_data s (upd_ring i f s') = same_data s s'"
  by (simp add: same_data_def)

lemma same_data_refl [simp]: "same_data s s"
  by (simp add: same_data_def)

lemma queue_length_less:
  assumes "ring_inv s" and "valid (rg_ctrl s) i"
  shows "length (queue d i s) \<le> capacity d i s"
proof -
  have "rd_of d s i < slots d s i" "wr_of d s i < slots d s i"
    using dir_okD [OF assms, of d] by (simp_all add: dir_live_def)
  from used_less [OF this] show ?thesis by (simp add: length_queue capacity_def dir_view)
qed

lemma free_slots_capacity:
  assumes "ring_inv s" and "valid (rg_ctrl s) i"
  shows "unat (free_slots (d_count d (rg_ctrl s) i) (d_wr d (rg_ctrl s) i) (d_rd d (rg_ctrl s) i))
           = capacity d i s - length (queue d i s)"
  using free_slots_used [OF inv_bounds(5,4) [OF assms]]
  by (simp add: length_queue capacity_def dir_view)

lemma used_slots_queue:
  assumes "ring_inv s" and "valid (rg_ctrl s) i"
  shows "unat (used_slots (d_count d (rg_ctrl s) i) (d_wr d (rg_ctrl s) i) (d_rd d (rg_ctrl s) i))
           = length (queue d i s)"
  using used_slots_used [OF inv_bounds(5,4) [OF assms]]
  by (simp add: length_queue dir_view)

lemma word_0_unat: "(w :: u32) = 0 \<longleftrightarrow> unat w = 0"
  by (simp add: unat_eq_0)

lemma send_locked_full:
  assumes "ring_inv s" and "valid (rg_ctrl s) i" and "\<not> length (queue Rx i s) < capacity Rx i s"
  shows "fst (send_locked i data len s) = Neg EAGAIN" and "same_data s (snd (send_locked i data len s))"
  using free_slots_capacity [OF assms(1,2), of Rx] assms(3)
  by (simp_all add: send_locked_def Let_def word_0_unat)

lemma send_locked_room:
  assumes inv: "ring_inv s" and val: "valid (rg_ctrl s) i" and room: "length (queue Rx i s) < capacity Rx i s"
    and len: "len \<le> cb_rx_buf_size (rg_ctrl s) i"
  shows "fst (send_locked i data len s) = Rc 0"
    and "enq_step Rx i (mem_read (rg_mem s) data (unat len)) s (snd (send_locked i data len s))"
proof -
  have avail: "free_slots (cb_rx_desc_count (rg_ctrl s) i) (cb_rx_wr_idx (rg_ctrl s) i) (cb_rx_rd_idx (rg_ctrl s) i) \<noteq> 0"
    using free_slots_capacity [OF inv val, of Rx] room by (simp add: word_0_unat)
  then show "fst (send_locked i data len s) = Rc 0"
    by (simp add: send_locked_def Let_def)
  let ?s' = "snd (send_locked i data len s)"
  let ?a = "slot_addr Rx s i (wr_of Rx s i)"
  have a: "desc_at (cb_rx_desc_base (rg_ctrl s) i) (cb_rx_wr_idx (rg_ctrl s) i) = ?a"
    by (simp add: slot_addr_def wr_of_def)
  have live: "dir_live Rx s i" by (rule dir_okD [OF inv val])
  then have b: "rd_buffer_addr (rg_desc s ?a) = slice Rx s i (wr_of Rx s i)"
    by (simp add: dir_live_def flip: slot_desc_addr)
  have "unat len \<le> 1500"
    using len inv_bounds(2) [OF inv val, of Rx] by (simp add: word_le_nat_alt)
  then have ul: "unat (ucast len :: u16) = unat len" by (simp add: unat_narrow_u16)
  have nxt: "unat ((cb_rx_wr_idx (rg_ctrl s) i + 1) mod cb_rx_desc_count (rg_ctrl s) i)
               = Suc (wr_of Rx s i) mod slots Rx s i"
    using unat_pred_mod inv_bounds(5) [OF inv val, of Rx] by (simp add: wr_of_def slots_def)
  have "same_layout s ?s'"
    using avail by (simp add: same_layout_def send_locked_def Let_def all_dir)
  moreover have "rg_desc ?s' = (rg_desc s)(?a := (rg_desc s ?a)\<lparr>rd_length := ucast len, rd_flags := RING_DESC_FLAG_VALID\<rparr>)"
    using avail by (simp add: send_locked_def Let_def a)
  moreover have "rg_mem ?s' = mem_write (rg_mem s) (slice Rx s i (wr_of Rx s i)) (mem_read (rg_mem s) data (unat len))"
    using avail by (simp add: send_locked_def Let_def a b)
  moreover have "same_indices d' i' s ?s'" if "(d', i') \<noteq> (Rx, i)" for d' i'
    using avail that by (cases d') (auto simp: same_indices_def rd_of_def wr_of_def send_locked_def Let_def)
  moreover have "rd_of Rx ?s' i = rd_of Rx s i" "wr_of Rx ?s' i = Suc (wr_of Rx s i) mod slots Rx s i"
    using avail nxt by (simp_all add: rd_of_def wr_of_def send_locked_def Let_def)
  ultimately show "enq_step Rx i (mem_read (rg_mem s) data (unat len)) s ?s'"
    unfolding enq_step_def using b ul len by (auto simp: bufsz_def word_le_nat_alt)
qed

lemma recv_locked_invalid:
  assumes "rd_flags (slot_desc Tx s i (rd_of Tx s i)) AND RING_DESC_FLAG_VALID = 0"
  shows "recv_locked i data max_len s = (Neg EINVAL, unlock_rx i (count_rx_error i s))"
  using assms by (simp add: recv_locked_def Let_def slot_desc_def rd_of_def)

lemma unlock_lock_simps [simp]:
  "rg_ctrl (lock_rx i s) = rg_ctrl s" "rg_ctrl (unlock_rx i s) = rg_ctrl s"
  "same_data s (lock_rx i s') = same_data s s'" "same_data s (unlock_rx i s') = same_data s s'"
  "same_data s (count_rx_error i s') = same_data s s'"
  by (simp_all add: lock_rx_def unlock_rx_def count_rx_error_def)

lemma head_slot:
  assumes "ring_inv s" and "valid (rg_ctrl s) i" and "queue d i s = p # ps"
  shows "slot_full d s i (rd_of d s i)" and "packet d s i (rd_of d s i) = p"
    and "unat (rd_length (slot_desc d s i (rd_of d s i))) = length p"
    and "rd_buffer_addr (slot_desc d s i (rd_of d s i)) = slice d s i (rd_of d s i)"
proof -
  have live: "dir_live d s i" by (rule dir_okD [OF assms(1,2)])
  then have rw: "rd_of d s i < slots d s i" "wr_of d s i < slots d s i" by (simp_all add: dir_live_def)
  have u: "0 < used (slots d s i) (rd_of d s i) (wr_of d s i)"
    using assms(3) by (simp flip: length_queue)
  then have "slot_full d s i ((rd_of d s i + 0) mod slots d s i)"
    using live unfolding dir_live_def by blast
  then show "slot_full d s i (rd_of d s i)" using rw by simp
  show p: "packet d s i (rd_of d s i) = p"
    using ring_list_deq [OF rw, of "packet d s i"] u assms(3) by (simp add: queue_view)
  show "unat (rd_length (slot_desc d s i (rd_of d s i))) = length p"
    unfolding p [symmetric] packet_def by simp
  show "rd_buffer_addr (slot_desc d s i (rd_of d s i)) = slice d s i (rd_of d s i)"
    using live rw by (simp add: dir_live_def)
qed

text \<open>A caller's buffer that meets no live heap block.\<close>

definition outside :: "addr \<Rightarrow> nat \<Rightarrow> ring_state \<Rightarrow> bool" where
  "outside p n s \<longleftrightarrow> list_all (\<lambda>b. apart p n (fst b) (unat (snd b))) (rg_blocks s)"

lemma outside_slice:
  assumes "ring_inv s" and "valid (rg_ctrl s) i" and "j < slots d s i" and "outside p n s"
  shows "apart (slice d s i j) (bufsz d s i) p n"
  unfolding slice_def bufsz_def
proof (rule slice_in_block)
  show "unat (d_buf d (rg_ctrl s) i) + unat (d_count d (rg_ctrl s) i * d_bsz d (rg_ctrl s) i) \<le> 2 ^ 32"
    using block_no_wrap [OF assms(1,2), of d True] by (simp add: base_of_def size_of_def)
  show "apart (d_buf d (rg_ctrl s) i) (unat (d_count d (rg_ctrl s) i * d_bsz d (rg_ctrl s) i)) p n"
    using block_of [OF assms(1,2), of d True] assms(4) unfolding outside_def list_all_iff
    by (intro apart_sym [of p]) (force simp: base_of_def size_of_def)
qed (use inv_bounds [OF assms(1,2)] assms(3) in \<open>simp_all add: slots_def\<close>)

lemma recv_locked_toolong:
  assumes "ring_inv s" and "valid (rg_ctrl s) i" and "queue Tx i s = p # ps" and "unat max_len < length p"
  shows "recv_locked i data max_len s = (Neg EMSGSIZE, unlock_rx i (count_rx_error i s))"
  using head_slot [OF assms(1-3)] assms(4)
  by (simp add: recv_locked_def Let_def slot_desc_def rd_of_def slot_full_def RING_DESC_FLAG_VALID_def
      word_less_nat_alt)

lemma recv_locked_head:
  assumes inv: "ring_inv s" and val: "valid (rg_ctrl s) i" and q: "queue Tx i s = p # ps"
    and fit: "length p \<le> unat max_len" and out: "outside data (unat max_len) s"
  shows "fst (recv_locked i data max_len s) = Rc (int (length p))"
    and "deq_step Tx i s (snd (recv_locked i data max_len s))"
    and "mem_read (rg_mem (snd (recv_locked i data max_len s))) data (length p) = p"
proof -
  let ?s' = "snd (recv_locked i data max_len s)"
  let ?a = "slot_addr Tx s i (rd_of Tx s i)"
  have a: "desc_at (cb_tx_desc_base (rg_ctrl s) i) (cb_tx_rd_idx (rg_ctrl s) i) = ?a"
    by (simp add: slot_addr_def rd_of_def)
  note h = head_slot [OF inv val q]
  have f: "rd_flags (rg_desc s ?a) AND RING_DESC_FLAG_VALID \<noteq> 0"
    using h(1) by (simp add: slot_full_def RING_DESC_FLAG_VALID_def slot_desc_addr)
  have l: "\<not> ucast (rd_length (rg_desc s ?a)) > max_len" and lp: "unat (rd_length (rg_desc s ?a)) = length p"
    using h(3) fit by (simp_all add: slot_desc_addr word_less_nat_alt)
  have b: "mem_read (rg_mem s) (rd_buffer_addr (rg_desc s ?a)) (length p) = p"
    using h(2,3) by (simp add: packet_def slot_desc_addr)
  have lock: "rg_mem (unlock_rx i t) = rg_mem t" "rg_desc (unlock_rx i t) = rg_desc t"
    "rg_blocks (unlock_rx i t) = rg_blocks t" "rg_initialized (unlock_rx i t) = rg_initialized t" for t
    by (simp_all add: unlock_rx_def)
  note run = recv_locked_def Let_def a f l lp b lock
  show "fst (recv_locked i data max_len s) = Rc (int (length p))" by (simp add: run)
  have mem: "rg_mem ?s' = mem_write (rg_mem s) data p" by (simp add: run)
  have "length p \<le> 2 ^ 32" using fit unsigned_less [of max_len, where ?'a = nat] by simp
  then show "mem_read (rg_mem ?s') data (length p) = p"
    unfolding mem by (rule mem_read_write_same)
  have nxt: "unat ((cb_tx_rd_idx (rg_ctrl s) i + 1) mod cb_tx_desc_count (rg_ctrl s) i)
               = Suc (rd_of Tx s i) mod slots Tx s i"
    using unat_pred_mod inv_bounds(4) [OF inv val, of Tx] by (simp add: rd_of_def slots_def)
  have ctrl: "rg_ctrl ?s' = (rg_ctrl s)\<lparr>cb_tx_rd_idx := (cb_tx_rd_idx (rg_ctrl s))
      (i := (cb_tx_rd_idx (rg_ctrl s) i + 1) mod cb_tx_desc_count (rg_ctrl s) i)\<rparr>"
    by (simp add: run)
  have "same_layout s ?s'" by (simp add: same_layout_def run all_dir)
  moreover have "mem_read (rg_mem ?s') (slice d' s i' j) k = mem_read (rg_mem s) (slice d' s i' j) k"
    if "valid (rg_ctrl s) i'" "j < slots d' s i'" "k \<le> bufsz d' s i'" for d' i' j k
  proof -
    have "apart (slice d' s i' j) (bufsz d' s i') data (unat max_len)"
      by (rule outside_slice [OF inv that(1,2) out])
    then have "apart (slice d' s i' j) k data (length p)" using that(3) fit by (auto simp: apart_def)
    then show ?thesis unfolding mem by (rule mem_read_write_apart)
  qed
  moreover have "\<exists>x. rg_desc ?s' = (rg_desc s)(?a := x) \<and> rd_buffer_addr x = slice Tx s i (rd_of Tx s i)"
    using h(4) by (intro exI [of _ "(rg_desc s ?a)\<lparr>rd_flags := 0, rd_length := 0\<rparr>"]) (simp add: run slot_desc_addr)
  moreover have "same_indices d' i' s ?s'" if "(d', i') \<noteq> (Tx, i)" for d' i'
    using that by (cases d') (auto simp: same_indices_def rd_of_def wr_of_def ctrl)
  moreover have "wr_of Tx ?s' i = wr_of Tx s i" "rd_of Tx ?s' i = Suc (rd_of Tx s i) mod slots Tx s i"
    using nxt by (simp_all add: rd_of_def [of _ ?s'] wr_of_def ctrl)
  ultimately show "deq_step Tx i s ?s'" unfolding deq_step_def by auto
qed

end
