(* ===== verification/Ring_Init.thy ===== *)
theory Ring_Init
  imports Ring_Correct
begin

text \<open>
  Initialisation and shutdown of the ring service: what the allocation loop leaves on the
  heap and in the control block, that the cleanup path returns every block, and that a
  successful initialisation establishes the invariant of the data path.
\<close>

section \<open>The allocator\<close>

definition no_null :: "(addr \<times> u32) list \<Rightarrow> bool" where
  "no_null B \<longleftrightarrow> NULL \<notin> fst ` set B"


text \<open>What is required of \<open>malloc\<close>: a block it returns meets no live block.\<close>

definition malloc_ok :: "ring_env \<Rightarrow> bool" where
  "malloc_ok env \<longleftrightarrow> (\<forall>B n. blocks_ok B \<longrightarrow> re_malloc env B n \<noteq> NULL \<longrightarrow>
     blocks_ok ((re_malloc env B n, n) # B))"

lemma blocks_ok_ConsD:
  "blocks_ok ((p, n) # B) \<Longrightarrow> blocks_ok B \<and> p \<noteq> NULL \<and> p \<notin> fst ` set B"
  by (auto simp: blocks_ok_def)

lemma blocks_ok_no_NULL: "blocks_ok B \<Longrightarrow> no_null B"
  by (auto simp: blocks_ok_def no_null_def)

lemma blocks_ok_apart:
  "blocks_ok B \<Longrightarrow> (p, n) \<in> set B \<Longrightarrow> (q, k) \<in> set B \<Longrightarrow> p \<noteq> q \<Longrightarrow> apart p (unat n) q (unat k)"
  by (auto simp: blocks_ok_def)

lemma alloc_into_cases:
  assumes "malloc_ok env" and "blocks_ok (rg_blocks s)"
  shows "alloc_into env n f s = Inl s
    \<or> (\<exists>p. alloc_into env n f s = Inr (p, upd_ctrl (f p) (s\<lparr>rg_blocks := (p, n) # rg_blocks s\<rparr>))
          \<and> p \<noteq> NULL \<and> blocks_ok ((p, n) # rg_blocks s))"
  using assms by (auto simp: alloc_into_def malloc_def Let_def malloc_ok_def)

section \<open>Releasing a ring\<close>

definition owned :: "ring_control_block \<Rightarrow> u8 \<Rightarrow> addr set" where
  "owned c i = {cb_tx_desc_base c i, cb_tx_buf_base c i, cb_rx_desc_base c i, cb_rx_buf_base c i}"

lemma release_base_blocks:
  assumes "no_null (rg_blocks s)"
  shows "rg_blocks (release_base base clear s) = filter (\<lambda>b. fst b \<noteq> base (rg_ctrl s)) (rg_blocks s)"
proof (cases "base (rg_ctrl s) = NULL")
  case True
  then have "filter (\<lambda>b. fst b \<noteq> base (rg_ctrl s)) (rg_blocks s) = rg_blocks s"
    using assms by (auto simp: filter_id_conv no_null_def)
  with True show ?thesis by (simp add: release_base_def)
next
  case False
  then show ?thesis by (simp add: release_base_def free_def)
qed

lemma release_base_initialized [simp]:
  "rg_initialized (release_base base clear s) = rg_initialized s"
  by (simp add: release_base_def free_def)

lemma clear_idem:
  "cb_tx_desc_base c i = 0 \<Longrightarrow> c\<lparr>cb_tx_desc_base := (cb_tx_desc_base c)(i := 0)\<rparr> = c"
  "cb_tx_buf_base c i = 0 \<Longrightarrow> c\<lparr>cb_tx_buf_base := (cb_tx_buf_base c)(i := 0)\<rparr> = c"
  "cb_rx_desc_base c i = 0 \<Longrightarrow> c\<lparr>cb_rx_desc_base := (cb_rx_desc_base c)(i := 0)\<rparr> = c"
  "cb_rx_buf_base c i = 0 \<Longrightarrow> c\<lparr>cb_rx_buf_base := (cb_rx_buf_base c)(i := 0)\<rparr> = c"
  by (simp_all add: fun_upd_idem)

lemma release_base_ctrl:
  "rg_ctrl (release_base (\<lambda>c. cb_tx_desc_base c i) (\<lambda>c. c\<lparr>cb_tx_desc_base := (cb_tx_desc_base c)(i := 0)\<rparr>) s)
     = (rg_ctrl s)\<lparr>cb_tx_desc_base := (cb_tx_desc_base (rg_ctrl s))(i := 0)\<rparr>"
  "rg_ctrl (release_base (\<lambda>c. cb_tx_buf_base c i) (\<lambda>c. c\<lparr>cb_tx_buf_base := (cb_tx_buf_base c)(i := 0)\<rparr>) s)
     = (rg_ctrl s)\<lparr>cb_tx_buf_base := (cb_tx_buf_base (rg_ctrl s))(i := 0)\<rparr>"
  "rg_ctrl (release_base (\<lambda>c. cb_rx_desc_base c i) (\<lambda>c. c\<lparr>cb_rx_desc_base := (cb_rx_desc_base c)(i := 0)\<rparr>) s)
     = (rg_ctrl s)\<lparr>cb_rx_desc_base := (cb_rx_desc_base (rg_ctrl s))(i := 0)\<rparr>"
  "rg_ctrl (release_base (\<lambda>c. cb_rx_buf_base c i) (\<lambda>c. c\<lparr>cb_rx_buf_base := (cb_rx_buf_base c)(i := 0)\<rparr>) s)
     = (rg_ctrl s)\<lparr>cb_rx_buf_base := (cb_rx_buf_base (rg_ctrl s))(i := 0)\<rparr>"
  by (simp_all add: release_base_def free_def clear_idem)

lemma free_ring_resources_ctrl:
  "rg_ctrl (free_ring_resources i s) = (rg_ctrl s)\<lparr>
     cb_tx_desc_base := (cb_tx_desc_base (rg_ctrl s))(i := 0), cb_tx_buf_base := (cb_tx_buf_base (rg_ctrl s))(i := 0),
     cb_rx_desc_base := (cb_rx_desc_base (rg_ctrl s))(i := 0), cb_rx_buf_base := (cb_rx_buf_base (rg_ctrl s))(i := 0)\<rparr>"
  by (simp add: free_ring_resources_def Let_def release_base_ctrl)

lemma free_ring_resources_owned:
  "owned (rg_ctrl (free_ring_resources i s)) i' = (if i' = i then {NULL} else owned (rg_ctrl s) i')"
  by (simp add: owned_def free_ring_resources_ctrl)

lemma free_ring_resources_other [simp]:
  "cb_ring_status (rg_ctrl (free_ring_resources i s)) = cb_ring_status (rg_ctrl s)"
  "rg_initialized (free_ring_resources i s) = rg_initialized s"
  by (simp add: free_ring_resources_ctrl) (simp add: free_ring_resources_def)

lemma filter_no_NULL: "no_null B \<Longrightarrow> no_null (filter P B)"
  by (auto simp: no_null_def)

lemma free_ring_resources_blocks:
  assumes "no_null (rg_blocks s)"
  shows "rg_blocks (free_ring_resources i s) = filter (\<lambda>b. fst b \<notin> owned (rg_ctrl s) i) (rg_blocks s)"
  using assms
  by (simp add: free_ring_resources_def Let_def release_base_blocks filter_no_NULL release_base_ctrl
      owned_def conj_ac)

lemma free_ring_resources_no_NULL:
  assumes "no_null (rg_blocks s)"
  shows "no_null (rg_blocks (free_ring_resources i s))"
  unfolding free_ring_resources_blocks [OF assms] by (rule filter_no_NULL [OF assms])

lemma fold_free_blocks:
  assumes "no_null (rg_blocks s)"
  shows "rg_blocks (fold free_ring_resources is s)
           = filter (\<lambda>b. fst b \<notin> (\<Union>i \<in> set is. owned (rg_ctrl s) i)) (rg_blocks s)"
  using assms
proof (induction "is" arbitrary: s)
  case Nil
  then show ?case by simp
next
  case (Cons i "is")
  let ?s = "free_ring_resources i s"
  have "filter (\<lambda>b. fst b \<notin> (\<Union>i \<in> set is. owned (rg_ctrl ?s) i)) (rg_blocks ?s)
      = filter (\<lambda>b. fst b \<notin> (\<Union>i \<in> set (i # is). owned (rg_ctrl s) i)) (rg_blocks s)"
    unfolding free_ring_resources_blocks [OF Cons.prems] filter_filter
  proof (rule filter_cong [OF refl])
    fix b assume "b \<in> set (rg_blocks s)"
    then have "fst b \<noteq> NULL" using Cons.prems by (auto simp: no_null_def)
    then show "(fst b \<notin> owned (rg_ctrl s) i \<and> fst b \<notin> (\<Union>i \<in> set is. owned (rg_ctrl ?s) i))
        = (fst b \<notin> (\<Union>i \<in> set (i # is). owned (rg_ctrl s) i))"
      by (auto simp: free_ring_resources_owned)
  qed
  then show ?case
    using Cons.IH [OF free_ring_resources_no_NULL [OF Cons.prems]] by simp
qed

lemma fold_free_initialized [simp]:
  "rg_initialized (fold free_ring_resources is s) = rg_initialized s"
  by (induction "is" arbitrary: s) simp_all

section \<open>One allocation round\<close>

text \<open>What a round leaves behind, whether or not it came to its end.\<close>

definition round_effect :: "u8 \<Rightarrow> ring_state \<Rightarrow> ring_state \<Rightarrow> bool" where
  "round_effect i s s' \<longleftrightarrow> blocks_ok (rg_blocks s') \<and> rg_initialized s' = rg_initialized s
     \<and> (\<exists>new. rg_blocks s' = new @ rg_blocks s \<and> owned (rg_ctrl s') i - {NULL} = fst ` set new)
     \<and> (\<forall>i'. i' \<noteq> i \<longrightarrow> owned (rg_ctrl s') i' = owned (rg_ctrl s) i')"

definition alloc_done :: "ring_config \<Rightarrow> addr \<Rightarrow> addr \<Rightarrow> addr \<Rightarrow> addr \<Rightarrow> ring_state \<Rightarrow> ring_state" where
  "alloc_done c p1 p2 p3 p4 s =
     (let i = rc_ring_id c; n = rc_desc_count c; bsz = rc_buf_size c
      in s\<lparr>rg_blocks := (p4, n * bsz) # (p3, n * DESC_SIZE) # (p2, n * bsz) # (p1, n * DESC_SIZE) # rg_blocks s,
           rg_ctrl := (rg_ctrl s)\<lparr>
             cb_tx_desc_base := (cb_tx_desc_base (rg_ctrl s))(i := p1),
             cb_tx_desc_count := (cb_tx_desc_count (rg_ctrl s))(i := n),
             cb_tx_buf_base := (cb_tx_buf_base (rg_ctrl s))(i := p2),
             cb_tx_buf_size := (cb_tx_buf_size (rg_ctrl s))(i := bsz),
             cb_rx_desc_base := (cb_rx_desc_base (rg_ctrl s))(i := p3),
             cb_rx_desc_count := (cb_rx_desc_count (rg_ctrl s))(i := n),
             cb_rx_buf_base := (cb_rx_buf_base (rg_ctrl s))(i := p4),
             cb_rx_buf_size := (cb_rx_buf_size (rg_ctrl s))(i := bsz),
             cb_tx_wr_idx := (cb_tx_wr_idx (rg_ctrl s))(i := 0),
             cb_tx_rd_idx := (cb_tx_rd_idx (rg_ctrl s))(i := 0),
             cb_rx_wr_idx := (cb_rx_wr_idx (rg_ctrl s))(i := 0),
             cb_rx_rd_idx := (cb_rx_rd_idx (rg_ctrl s))(i := 0),
             cb_ring_status := (cb_ring_status (rg_ctrl s))(i := RING_STATUS_VALID)\<rparr>,
           rg_desc := init_descs p1 p2 p3 p4 bsz (unat n) (rg_desc s)\<rparr>)"

lemma round_effect_refl:
  "blocks_ok (rg_blocks s) \<Longrightarrow> owned (rg_ctrl s) i = {NULL} \<Longrightarrow> round_effect i s s"
  by (auto simp: round_effect_def)

text \<open>A further block, recorded in a base field of the ring that was still clear.\<close>

lemma round_effect_alloc:
  assumes "round_effect i s0 s" and "blocks_ok ((p, n) # rg_blocks s)"
    and rec: "owned (f (rg_ctrl s)) i - {NULL} = insert p (owned (rg_ctrl s) i - {NULL})"
    and oth: "\<And>i'. i' \<noteq> i \<Longrightarrow> owned (f (rg_ctrl s)) i' = owned (rg_ctrl s) i'"
  shows "round_effect i s0 (upd_ctrl f (s\<lparr>rg_blocks := (p, n) # rg_blocks s\<rparr>))"
proof -
  obtain new where "rg_blocks s = new @ rg_blocks s0" "owned (rg_ctrl s) i - {NULL} = fst ` set new"
    using assms(1) by (auto simp: round_effect_def)
  then have "rg_blocks (s\<lparr>rg_blocks := (p, n) # rg_blocks s\<rparr>) = ((p, n) # new) @ rg_blocks s0"
    and "owned (f (rg_ctrl s)) i - {NULL} = fst ` set ((p, n) # new)"
    using rec by simp_all
  then show ?thesis using assms(1,2) oth unfolding round_effect_def by simp
qed

text \<open>A round fails at one of its four allocations or does all of its work.\<close>

lemma alloc_ring_cases:
  assumes m: "malloc_ok env" and b: "blocks_ok (rg_blocks s)" and o: "owned (rg_ctrl s) (rc_ring_id c) = {NULL}"
  shows "(\<exists>s'. alloc_ring env c s = Inl s' \<and> round_effect (rc_ring_id c) s s')
    \<or> (\<exists>p1 p2 p3 p4. alloc_ring env c s = Inr (alloc_done c p1 p2 p3 p4 s)
          \<and> round_effect (rc_ring_id c) s (alloc_done c p1 p2 p3 p4 s))"
    (is "?fail \<or> ?all")
proof -
  let ?i = "rc_ring_id c" and ?n = "rc_desc_count c" and ?z = "rc_buf_size c"
  let ?f1 = "\<lambda>p cb. cb\<lparr>cb_tx_desc_base := (cb_tx_desc_base cb)(?i := p), cb_tx_desc_count := (cb_tx_desc_count cb)(?i := ?n)\<rparr>"
  let ?f2 = "\<lambda>p cb. cb\<lparr>cb_tx_buf_base := (cb_tx_buf_base cb)(?i := p), cb_tx_buf_size := (cb_tx_buf_size cb)(?i := ?z)\<rparr>"
  let ?f3 = "\<lambda>p cb. cb\<lparr>cb_rx_desc_base := (cb_rx_desc_base cb)(?i := p), cb_rx_desc_count := (cb_rx_desc_count cb)(?i := ?n)\<rparr>"
  let ?f4 = "\<lambda>p cb. cb\<lparr>cb_rx_buf_base := (cb_rx_buf_base cb)(?i := p), cb_rx_buf_size := (cb_rx_buf_size cb)(?i := ?z)\<rparr>"
  have z: "cb_tx_desc_base (rg_ctrl s) ?i = 0" "cb_tx_buf_base (rg_ctrl s) ?i = 0"
      "cb_rx_desc_base (rg_ctrl s) ?i = 0" "cb_rx_buf_base (rg_ctrl s) ?i = 0"
    using o by (auto simp: owned_def)
  have step: "alloc_into env n f t = Inl t
      \<or> (\<exists>p t'. alloc_into env n f t = Inr (p, t') \<and> p \<noteq> NULL \<and> round_effect ?i s t'
            \<and> t' = upd_ctrl (f p) (t\<lparr>rg_blocks := (p, n) # rg_blocks t\<rparr>))"
    if "round_effect ?i s t"
      and "\<And>p. p \<noteq> NULL \<Longrightarrow> owned (f p (rg_ctrl t)) ?i - {NULL} = insert p (owned (rg_ctrl t) ?i - {NULL})"
      and "\<And>p i'. i' \<noteq> ?i \<Longrightarrow> owned (f p (rg_ctrl t)) i' = owned (rg_ctrl t) i'" for n f t
    using alloc_into_cases [OF m, of t n f] that round_effect_alloc [of ?i s t _ n "f _"]
    by (auto simp: round_effect_def [of _ _ t])
  have e0: "round_effect ?i s s" by (rule round_effect_refl [OF b o])
  have r1: "\<And>p. p \<noteq> NULL \<Longrightarrow> owned (?f1 p (rg_ctrl s)) ?i - {NULL} = insert p (owned (rg_ctrl s) ?i - {NULL})"
    "\<And>p i'. i' \<noteq> ?i \<Longrightarrow> owned (?f1 p (rg_ctrl s)) i' = owned (rg_ctrl s) i'"
    by (auto simp: owned_def z)
  consider "alloc_into env (?n * DESC_SIZE) ?f1 s = Inl s"
    | p1 s1 where "alloc_into env (?n * DESC_SIZE) ?f1 s = Inr (p1, s1)" "p1 \<noteq> NULL" "round_effect ?i s s1"
        "s1 = upd_ctrl (?f1 p1) (s\<lparr>rg_blocks := (p1, ?n * DESC_SIZE) # rg_blocks s\<rparr>)"
    using step [of _ ?f1 "?n * DESC_SIZE", OF e0 r1] by blast
  then show ?thesis
  proof cases
    case 1
    then have "alloc_ring env c s = Inl s" by (simp add: alloc_ring_def Let_def)
    with e0 show ?thesis by blast
  next
    case (2 p1 s1)
    note s1 = 2
    have r2: "\<And>p. p \<noteq> NULL \<Longrightarrow> owned (?f2 p (rg_ctrl s1)) ?i - {NULL} = insert p (owned (rg_ctrl s1) ?i - {NULL})"
      "\<And>p i'. i' \<noteq> ?i \<Longrightarrow> owned (?f2 p (rg_ctrl s1)) i' = owned (rg_ctrl s1) i'"
      by (auto simp: owned_def z s1(2,4))
    consider "alloc_into env (?n * ?z) ?f2 s1 = Inl s1"
      | p2 s2 where "alloc_into env (?n * ?z) ?f2 s1 = Inr (p2, s2)" "p2 \<noteq> NULL" "round_effect ?i s s2"
          "s2 = upd_ctrl (?f2 p2) (s1\<lparr>rg_blocks := (p2, ?n * ?z) # rg_blocks s1\<rparr>)"
      using step [of _ ?f2 "?n * ?z", OF s1(3) r2] by blast
    then show ?thesis
    proof cases
      case 1
      then have "alloc_ring env c s = Inl s1" using s1(1) by (simp add: alloc_ring_def Let_def)
      with s1(3) show ?thesis by blast
    next
      case (2 p2 s2)
      note s2 = 2
      have r3: "\<And>p. p \<noteq> NULL \<Longrightarrow> owned (?f3 p (rg_ctrl s2)) ?i - {NULL} = insert p (owned (rg_ctrl s2) ?i - {NULL})"
        "\<And>p i'. i' \<noteq> ?i \<Longrightarrow> owned (?f3 p (rg_ctrl s2)) i' = owned (rg_ctrl s2) i'"
        by (auto simp: owned_def z s1(2,4) s2(2,4))
      consider "alloc_into env (?n * DESC_SIZE) ?f3 s2 = Inl s2"
        | p3 s3 where "alloc_into env (?n * DESC_SIZE) ?f3 s2 = Inr (p3, s3)" "p3 \<noteq> NULL" "round_effect ?i s s3"
            "s3 = upd_ctrl (?f3 p3) (s2\<lparr>rg_blocks := (p3, ?n * DESC_SIZE) # rg_blocks s2\<rparr>)"
        using step [of _ ?f3 "?n * DESC_SIZE", OF s2(3) r3] by blast
      then show ?thesis
      proof cases
        case 1
        then have "alloc_ring env c s = Inl s2" using s1(1) s2(1) by (simp add: alloc_ring_def Let_def)
        with s2(3) show ?thesis by blast
      next
        case (2 p3 s3)
        note s3 = 2
        have r4: "\<And>p. p \<noteq> NULL \<Longrightarrow> owned (?f4 p (rg_ctrl s3)) ?i - {NULL} = insert p (owned (rg_ctrl s3) ?i - {NULL})"
          "\<And>p i'. i' \<noteq> ?i \<Longrightarrow> owned (?f4 p (rg_ctrl s3)) i' = owned (rg_ctrl s3) i'"
          by (auto simp: owned_def z s1(2,4) s2(2,4) s3(2,4))
        consider "alloc_into env (?n * ?z) ?f4 s3 = Inl s3"
          | p4 s4 where "alloc_into env (?n * ?z) ?f4 s3 = Inr (p4, s4)" "p4 \<noteq> NULL" "round_effect ?i s s4"
              "s4 = upd_ctrl (?f4 p4) (s3\<lparr>rg_blocks := (p4, ?n * ?z) # rg_blocks s3\<rparr>)"
          using step [of _ ?f4 "?n * ?z", OF s3(3) r4] by blast
        then show ?thesis
        proof cases
          case 1
          then have "alloc_ring env c s = Inl s3" using s1(1) s2(1) s3(1) by (simp add: alloc_ring_def Let_def)
          with s3(3) show ?thesis by blast
        next
          case (2 p4 s4)
          have "alloc_ring env c s = Inr (alloc_done c p1 p2 p3 p4 s)"
            using s1(1) s2(1) s3(1) 2(1) unfolding alloc_ring_def alloc_done_def Let_def
            by (simp add: s1(4) s2(4) s3(4) 2(4))
          moreover have "round_effect ?i s (alloc_done c p1 p2 p3 p4 s)"
            using 2(3) by (simp add: alloc_done_def Let_def s1(4) s2(4) s3(4) 2(4) round_effect_def owned_def)
          ultimately show ?thesis by blast
        qed
      qed
    qed
  qed
qed

section \<open>The allocation loop\<close>

definition rounds_effect :: "u8 set \<Rightarrow> ring_state \<Rightarrow> ring_state \<Rightarrow> bool" where
  "rounds_effect I s s' \<longleftrightarrow> blocks_ok (rg_blocks s') \<and> rg_initialized s' = rg_initialized s
     \<and> (\<exists>new. rg_blocks s' = new @ rg_blocks s \<and> (\<Union>i \<in> I. owned (rg_ctrl s') i) - {NULL} = fst ` set new)
     \<and> (\<forall>i'. i' \<notin> I \<longrightarrow> owned (rg_ctrl s') i' = owned (rg_ctrl s) i')"

definition result_state :: "ring_state + ring_state \<Rightarrow> ring_state" where
  "result_state r = (case r of Inl s \<Rightarrow> s | Inr s \<Rightarrow> s)"

lemma rounds_effect_single:
  assumes "round_effect i s s'" and "i \<in> I" and "\<And>i'. i' \<in> I \<Longrightarrow> i' \<noteq> i \<Longrightarrow> owned (rg_ctrl s) i' = {NULL}"
  shows "rounds_effect I s s'"
proof -
  have "(\<Union>i \<in> I. owned (rg_ctrl s') i) - {NULL} = owned (rg_ctrl s') i - {NULL}"
    using assms by (fastforce simp: round_effect_def)
  then show ?thesis using assms(1,2) by (auto simp: rounds_effect_def round_effect_def)
qed

lemma rounds_effect_trans:
  assumes 1: "round_effect i s s1" and 2: "rounds_effect I s1 s2" and "i \<notin> I"
  shows "rounds_effect (insert i I) s s2"
proof -
  obtain new1 new2 where n: "rg_blocks s1 = new1 @ rg_blocks s" "owned (rg_ctrl s1) i - {NULL} = fst ` set new1"
      "rg_blocks s2 = new2 @ rg_blocks s1" "(\<Union>i \<in> I. owned (rg_ctrl s2) i) - {NULL} = fst ` set new2"
    using 1 2 unfolding round_effect_def rounds_effect_def by auto
  have i: "owned (rg_ctrl s2) i = owned (rg_ctrl s1) i"
    using 2 assms(3) by (simp add: rounds_effect_def)
  have "(\<Union>i \<in> insert i I. owned (rg_ctrl s2) i) - {NULL} = fst ` set (new2 @ new1)"
    unfolding UN_insert Un_Diff i n(2) n(4) by (simp add: Un_commute image_Un)
  then have "\<exists>new. rg_blocks s2 = new @ rg_blocks s \<and> (\<Union>i \<in> insert i I. owned (rg_ctrl s2) i) - {NULL} = fst ` set new"
    using n(1,3) by (intro exI [of _ "new2 @ new1"]) simp
  then show ?thesis using 1 2 unfolding round_effect_def rounds_effect_def by simp
qed

lemma alloc_rings_effect:
  assumes "malloc_ok env" and "blocks_ok (rg_blocks s)" and "distinct (map rc_ring_id cs)"
    and "\<forall>c \<in> set cs. owned (rg_ctrl s) (rc_ring_id c) = {NULL}"
  shows "rounds_effect (rc_ring_id ` set cs) s (result_state (alloc_rings env cs s))"
  using assms(2-)
proof (induction cs arbitrary: s)
  case Nil
  then show ?case by (simp add: rounds_effect_def result_state_def)
next
  case (Cons c cs)
  have own: "owned (rg_ctrl s) i' = {NULL}" if "i' \<in> rc_ring_id ` set (c # cs)" for i'
    using Cons.prems(3) that by auto
  from alloc_ring_cases [OF assms(1) Cons.prems(1) own [of "rc_ring_id c"]]
  consider s1 where "alloc_ring env c s = Inl s1" "round_effect (rc_ring_id c) s s1"
    | s1 where "alloc_ring env c s = Inr s1" "round_effect (rc_ring_id c) s s1"
    by auto
  then show ?case
  proof cases
    case (1 s1)
    then show ?thesis using own
      by (simp add: result_state_def) (rule rounds_effect_single [of "rc_ring_id c"], auto)
  next
    case (2 s1)
    have b1: "blocks_ok (rg_blocks s1)" using 2 by (simp add: round_effect_def)
    have "owned (rg_ctrl s1) i' = {NULL}" if "i' \<in> rc_ring_id ` set cs" for i'
      using 2(2) Cons.prems(2) that own [of i'] unfolding round_effect_def by (cases "i' = rc_ring_id c") simp_all
    then have "\<forall>c' \<in> set cs. owned (rg_ctrl s1) (rc_ring_id c') = {NULL}" by blast
    then have "rounds_effect (rc_ring_id ` set cs) s1 (result_state (alloc_rings env cs s1))"
      using Cons.IH [OF b1] Cons.prems(2) by simp
    from rounds_effect_trans [OF 2(2) this] show ?thesis
      using 2(1) Cons.prems(2) by simp
  qed
qed

section \<open>The cleanup path\<close>

lemma rounds_effect_filter:
  assumes "rounds_effect I s s'"
  shows "filter (\<lambda>b. fst b \<notin> (\<Union>i \<in> I. owned (rg_ctrl s') i)) (rg_blocks s') = rg_blocks s"
proof -
  let ?O = "\<Union>i \<in> I. owned (rg_ctrl s') i"
  obtain new where n: "rg_blocks s' = new @ rg_blocks s" "?O - {NULL} = fst ` set new" and b: "blocks_ok (rg_blocks s')"
    using assms by (auto simp: rounds_effect_def)
  have d: "fst ` set new \<inter> fst ` set (rg_blocks s) = {}" and nn: "NULL \<notin> fst ` set (rg_blocks s')"
    using b n(1) blocks_ok_no_NULL [OF b] by (auto simp: blocks_ok_def no_null_def)
  have "filter (\<lambda>b. fst b \<notin> ?O) new = []"
    using n(2) by (auto simp: filter_empty_conv)
  moreover have "filter (\<lambda>b. fst b \<notin> ?O) (rg_blocks s) = rg_blocks s"
  proof (rule filter_True, intro ballI notI)
    fix x assume x: "x \<in> set (rg_blocks s)" "fst x \<in> ?O"
    then have "fst x \<noteq> NULL" using nn n(1) by auto
    with x(2) n(2) have "fst x \<in> fst ` set new" by blast
    with x(1) d show False by blast
  qed
  ultimately show ?thesis by (simp add: n(1))
qed

lemma init_cleanup_blocks:
  assumes "rounds_effect (rc_ring_id ` set cs) s s'"
  shows "rg_blocks (init_cleanup cs s') = rg_blocks s"
proof -
  have "blocks_ok (rg_blocks s')" using assms by (simp add: rounds_effect_def)
  moreover have "init_cleanup cs s' = (fold free_ring_resources (map rc_ring_id cs) s')\<lparr>rg_ctrl := zero_ctrl\<rparr>"
    by (simp add: init_cleanup_def fold_map comp_def)
  ultimately show ?thesis
    using fold_free_blocks [OF blocks_ok_no_NULL, of s' "map rc_ring_id cs"] rounds_effect_filter [OF assms] by simp
qed

lemma init_cleanup_ctrl [simp]:
  "rg_ctrl (init_cleanup cs s) = zero_ctrl" "rg_initialized (init_cleanup cs s) = rg_initialized s"
proof -
  have "rg_initialized (fold (\<lambda>c. free_ring_resources (rc_ring_id c)) cs s) = rg_initialized s"
    by (induction cs arbitrary: s) simp_all
  then show "rg_initialized (init_cleanup cs s) = rg_initialized s" by (simp add: init_cleanup_def)
qed (simp add: init_cleanup_def)

text \<open>The synchronisation objects are apart from everything else.\<close>

definition core :: "ring_state \<Rightarrow> ring_control_block \<times> (addr \<times> u32) list \<times> bool \<times> (addr \<Rightarrow> ring_descriptor) \<times> memory \<times> addr" where
  "core s = (rg_ctrl s, rg_blocks s, rg_initialized s, rg_desc s, rg_mem s, rg_callback s)"

lemma core_upd_ring [simp]: "core (upd_ring i f s) = core s"
  by (simp add: core_def)

lemma sync_ring_frame:
  "case sync_ring env c s of Inl (e, s') \<Rightarrow> core s' = core s | Inr s' \<Rightarrow> core s' = core s"
  by (simp add: sync_ring_def Let_def)

lemma sync_rings_frame:
  "case sync_rings env cs s of Inl (e, s') \<Rightarrow> core s' = core s | Inr s' \<Rightarrow> core s' = core s"
proof (induction cs arbitrary: s)
  case Nil
  then show ?case by simp
next
  case (Cons c cs)
  show ?case
  proof (cases "sync_ring env c s")
    case (Inl x)
    then show ?thesis using sync_ring_frame [where env = env and c = c and s = s] by simp
  next
    case (Inr s1)
    then show ?thesis
      using Cons.IH [of s1] sync_ring_frame [where env = env and c = c and s = s]
      by (auto split: sum.splits)
  qed
qed

lemma sync_rings_negative: "sync_rings env cs s = Inl (e, s') \<Longrightarrow> e < 0"
proof (induction cs arbitrary: s)
  case (Cons c cs)
  then show ?case
    by (cases "sync_ring env c s") (auto simp: sync_ring_def Let_def split: if_splits)
qed simp

section \<open>A successful round\<close>

lemma config_bounds:
  assumes "config_ok c"
  shows "rc_desc_count c \<le> 256" and "0 < rc_desc_count c" and "rc_buf_size c \<le> 1500" and "0 < rc_buf_size c"
  using assms by (simp_all add: config_ok_def not_less word_neq_0_conv)

lemma init_descs_other:
  "(\<And>j. j < n \<Longrightarrow> a \<noteq> desc_at t (of_nat j) \<and> a \<noteq> desc_at r (of_nat j)) \<Longrightarrow> init_descs t tb r rb z n m a = m a"
  by (induction n) auto

lemma init_descs_nth:
  assumes "\<And>j k. j < N \<Longrightarrow> k < N \<Longrightarrow> j \<noteq> k \<Longrightarrow> desc_at t (of_nat j) \<noteq> desc_at t (of_nat k)"
    and "\<And>j k. j < N \<Longrightarrow> k < N \<Longrightarrow> j \<noteq> k \<Longrightarrow> desc_at r (of_nat j) \<noteq> desc_at r (of_nat k)"
    and "\<And>j k. j < N \<Longrightarrow> k < N \<Longrightarrow> desc_at t (of_nat j) \<noteq> desc_at r (of_nat k)"
    and "n \<le> N" and "j < n"
  shows "init_descs t tb r rb z n m (desc_at t (of_nat j)) = fresh_desc tb z j
       \<and> init_descs t tb r rb z n m (desc_at r (of_nat j)) = fresh_desc rb z j"
  using assms(4,5)
proof (induction n)
  case (Suc n)
  show ?case
  proof (cases "j = n")
    case True
    then show ?thesis using assms(3) [of n n] Suc.prems by simp
  next
    case False
    then have "desc_at t (of_nat j) \<noteq> desc_at t (of_nat n)" "desc_at r (of_nat j) \<noteq> desc_at r (of_nat n)"
      "desc_at t (of_nat j) \<noteq> desc_at r (of_nat n)" "desc_at r (of_nat j) \<noteq> desc_at t (of_nat n)"
      using assms(1-2) [of j n] assms(3) [of j n] assms(3) [of n j] Suc.prems by auto
    then show ?thesis using Suc False by simp
  qed
qed simp

definition ring_inv0 :: "ring_state \<Rightarrow> bool" where
  "ring_inv0 s \<longleftrightarrow> ring_inv (s\<lparr>rg_initialized := True\<rparr>)"

lemma ring_inv0_iff:
  "ring_inv0 s \<longleftrightarrow> blocks_ok (rg_blocks s) \<and> bases_distinct (rg_ctrl s)
     \<and> (\<forall>i d. valid (rg_ctrl s) i \<longrightarrow> dir_ok d s i)"
  by (simp add: ring_inv0_def ring_inv_def dir_ok_def slot_desc_def)

lemma old_block:
  "ring_inv0 s \<Longrightarrow> valid (rg_ctrl s) i \<Longrightarrow>
     (base_of (rg_ctrl s) (d, b, i), size_of (rg_ctrl s) (d, b, i)) \<in> set (rg_blocks s)"
  using block_of [of "s\<lparr>rg_initialized := True\<rparr>"] by (simp add: ring_inv0_def)

lemma old_count: "ring_inv0 s \<Longrightarrow> valid (rg_ctrl s) i \<Longrightarrow> d_count d (rg_ctrl s) i \<le> 256"
  using inv_bounds(1) [of "s\<lparr>rg_initialized := True\<rparr>"] by (simp add: ring_inv0_def)

lemma alloc_done_blocks:
  "rg_blocks (alloc_done c p1 p2 p3 p4 s) =
     (p4, rc_desc_count c * rc_buf_size c) # (p3, rc_desc_count c * DESC_SIZE) #
     (p2, rc_desc_count c * rc_buf_size c) # (p1, rc_desc_count c * DESC_SIZE) # rg_blocks s"
  by (simp add: alloc_done_def Let_def)

lemma alloc_done_desc:
  "rg_desc (alloc_done c p1 p2 p3 p4 s) =
     init_descs p1 p2 p3 p4 (rc_buf_size c) (unat (rc_desc_count c)) (rg_desc s)"
  by (simp add: alloc_done_def Let_def)

lemma alloc_done_other:
  assumes "i \<noteq> rc_ring_id c"
  shows "d_desc d (rg_ctrl (alloc_done c p1 p2 p3 p4 s)) i = d_desc d (rg_ctrl s) i"
    and "d_buf d (rg_ctrl (alloc_done c p1 p2 p3 p4 s)) i = d_buf d (rg_ctrl s) i"
    and "d_count d (rg_ctrl (alloc_done c p1 p2 p3 p4 s)) i = d_count d (rg_ctrl s) i"
    and "d_bsz d (rg_ctrl (alloc_done c p1 p2 p3 p4 s)) i = d_bsz d (rg_ctrl s) i"
    and "d_rd d (rg_ctrl (alloc_done c p1 p2 p3 p4 s)) i = d_rd d (rg_ctrl s) i"
    and "d_wr d (rg_ctrl (alloc_done c p1 p2 p3 p4 s)) i = d_wr d (rg_ctrl s) i"
    and "cb_ring_status (rg_ctrl (alloc_done c p1 p2 p3 p4 s)) i = cb_ring_status (rg_ctrl s) i"
  using assms by (cases d; simp add: alloc_done_def Let_def)+

lemma alloc_done_same:
  "d_desc d (rg_ctrl (alloc_done c p1 p2 p3 p4 s)) (rc_ring_id c) = (if d = Tx then p1 else p3)"
  "d_buf d (rg_ctrl (alloc_done c p1 p2 p3 p4 s)) (rc_ring_id c) = (if d = Tx then p2 else p4)"
  "d_count d (rg_ctrl (alloc_done c p1 p2 p3 p4 s)) (rc_ring_id c) = rc_desc_count c"
  "d_bsz d (rg_ctrl (alloc_done c p1 p2 p3 p4 s)) (rc_ring_id c) = rc_buf_size c"
  "d_rd d (rg_ctrl (alloc_done c p1 p2 p3 p4 s)) (rc_ring_id c) = 0"
  "d_wr d (rg_ctrl (alloc_done c p1 p2 p3 p4 s)) (rc_ring_id c) = 0"
  "cb_ring_status (rg_ctrl (alloc_done c p1 p2 p3 p4 s)) (rc_ring_id c) = RING_STATUS_VALID"
  by (cases d; simp add: alloc_done_def Let_def)+

lemma alloc_done_valid:
  assumes "config_ok c"
  shows "valid (rg_ctrl (alloc_done c p1 p2 p3 p4 s)) i \<longleftrightarrow> i = rc_ring_id c \<or> valid (rg_ctrl s) i"
  using assms by (cases "i = rc_ring_id c") (auto simp: valid_def alloc_done_other alloc_done_same config_ok_def)

lemma alloc_done_keys:
  assumes "blocks_ok (rg_blocks (alloc_done c p1 p2 p3 p4 s))"
  shows "distinct [p1, p2, p3, p4]" and "set [p1, p2, p3, p4] \<inter> fst ` set (rg_blocks s) = {}"
  using assms by (auto simp: alloc_done_blocks blocks_ok_def)

lemma alloc_done_bases:
  assumes "ring_inv0 s" and "\<not> valid (rg_ctrl s) (rc_ring_id c)" and "config_ok c"
    and "blocks_ok (rg_blocks (alloc_done c p1 p2 p3 p4 s))"
  shows "bases_distinct (rg_ctrl (alloc_done c p1 p2 p3 p4 s))"
  unfolding bases_distinct_def
proof (rule inj_onI)
  let ?c = "rg_ctrl (alloc_done c p1 p2 p3 p4 s)" and ?i = "rc_ring_id c"
  note keys = alloc_done_keys [OF assms(4)]
  have new: "base_of ?c (d, b, ?i) \<in> set [p1, p2, p3, p4]" for d b
    by (simp add: base_of_def alloc_done_same)
  have old: "base_of ?c (d, b, i) = base_of (rg_ctrl s) (d, b, i)" if "i \<noteq> ?i" for d b i
    using that by (simp add: base_of_def alloc_done_other)
  have oldk: "base_of ?c (d, b, i) \<in> fst ` set (rg_blocks s)" if "i \<noteq> ?i" "valid ?c i" for d b i
    using old_block [OF assms(1), of i d b] that old [OF that(1)] alloc_done_valid [OF assms(3)] by force
  fix x y assume xy: "x \<in> {(d, b, i). valid ?c i}" "y \<in> {(d, b, i). valid ?c i}" "base_of ?c x = base_of ?c y"
  obtain d b i d' b' i' where t: "x = (d, b, i)" "y = (d', b', i')" by (cases x, cases y) auto
  have v: "valid ?c i" "valid ?c i'" and eq: "base_of ?c (d, b, i) = base_of ?c (d', b', i')"
    using xy by (simp_all add: t)
  consider "i = ?i" "i' = ?i" | "i = ?i" "i' \<noteq> ?i" | "i \<noteq> ?i" "i' = ?i" | "i \<noteq> ?i" "i' \<noteq> ?i" by blast
  then have "d = d' \<and> b = b' \<and> i = i'"
  proof cases
    case 1
    then show ?thesis using eq keys(1) unfolding 1 base_of_def prod.case alloc_done_same
      by (cases d; cases d'; cases b; cases b'; simp)
  next
    case 2
    then show ?thesis using new [of d b] oldk [of i' d' b'] v eq keys(2) by (metis disjoint_iff)
  next
    case 3
    then show ?thesis using new [of d' b'] oldk [of i d b] v eq keys(2) by (metis disjoint_iff)
  next
    case 4
    then have "valid (rg_ctrl s) i" "valid (rg_ctrl s) i'" using v alloc_done_valid [OF assms(3)] by auto
    then show ?thesis
      using 4 eq old assms(1) inj_onD [of "base_of (rg_ctrl s)" "{(d, b, i). valid (rg_ctrl s) i}" "(d, b, i)" "(d', b', i')"]
      by (auto simp: ring_inv0_iff bases_distinct_def)
  qed
  then show "x = y" by (simp add: t)
qed

lemma alloc_done_old_slot:
  assumes "ring_inv0 s" and "valid (rg_ctrl s) i" and "i \<noteq> rc_ring_id c" and "config_ok c"
    and "blocks_ok (rg_blocks (alloc_done c p1 p2 p3 p4 s))" and "j < slots d s i"
  shows "slot_desc d (alloc_done c p1 p2 p3 p4 s) i j = slot_desc d s i j"
proof -
  let ?t = "alloc_done c p1 p2 p3 p4 s" and ?n = "rc_desc_count c"
  note keys = alloc_done_keys [OF assms(5)]
  have n: "?n \<le> 256" by (rule config_bounds [OF assms(4)])
  have old: "(d_desc d (rg_ctrl s) i, d_count d (rg_ctrl s) i * DESC_SIZE) \<in> set (rg_blocks s)"
    using old_block [OF assms(1,2), of d False] by (simp add: base_of_def size_of_def)
  have "desc_at (d_desc d (rg_ctrl s) i) (of_nat j) \<noteq> desc_at p (of_nat k)"
    if "k < unat ?n" "p \<in> {p1, p3}" for k p
  proof (rule desc_at_apart [OF _ old_count [OF assms(1,2)] n])
    have "d_desc d (rg_ctrl s) i \<noteq> p" using keys(2) old that(2) by force
    then show "apart (d_desc d (rg_ctrl s) i) (unat (d_count d (rg_ctrl s) i * DESC_SIZE)) p (unat (?n * DESC_SIZE))"
      using blocks_ok_apart [OF assms(5)] old that(2) by (auto simp: alloc_done_blocks)
  qed (use assms(6) that in \<open>simp_all add: slots_def\<close>)
  then show ?thesis
    using init_descs_other [of "unat ?n" "desc_at (d_desc d (rg_ctrl s) i) (of_nat j)" p1 p3]
    by (simp add: slot_desc_def alloc_done_desc alloc_done_other(1) [OF assms(3)])
qed

lemma alloc_done_new_slot:
  assumes "config_ok c" and "blocks_ok (rg_blocks (alloc_done c p1 p2 p3 p4 s))" and "j < unat (rc_desc_count c)"
  shows "slot_desc d (alloc_done c p1 p2 p3 p4 s) (rc_ring_id c) j = fresh_desc (if d = Tx then p2 else p4) (rc_buf_size c) j"
proof -
  let ?n = "rc_desc_count c"
  note keys = alloc_done_keys [OF assms(2)]
  have n: "?n \<le> 256" by (rule config_bounds [OF assms(1)])
  have nw: "unat p + unat (?n * DESC_SIZE) \<le> 2 ^ 32" if "p \<in> {p1, p3}" for p
    using assms(2) that by (auto simp: alloc_done_blocks blocks_ok_def)
  have a: "apart p1 (unat (?n * DESC_SIZE)) p3 (unat (?n * DESC_SIZE))"
    using blocks_ok_apart [OF assms(2)] keys(1) by (simp add: alloc_done_blocks)
  have "init_descs p1 p2 p3 p4 (rc_buf_size c) (unat ?n) (rg_desc s) (desc_at p1 (of_nat j)) = fresh_desc p2 (rc_buf_size c) j
      \<and> init_descs p1 p2 p3 p4 (rc_buf_size c) (unat ?n) (rg_desc s) (desc_at p3 (of_nat j)) = fresh_desc p4 (rc_buf_size c) j"
    by (rule init_descs_nth [OF _ _ _ order_refl assms(3)])
       (use desc_at_inj [OF nw n] desc_at_apart [OF a n n] in blast)+
  then show ?thesis
    by (simp add: slot_desc_def alloc_done_desc alloc_done_same(1))
qed

lemma alloc_done_inv:
  assumes "ring_inv0 s" and "\<not> valid (rg_ctrl s) (rc_ring_id c)" and "config_ok c"
    and "blocks_ok (rg_blocks (alloc_done c p1 p2 p3 p4 s))"
  shows "ring_inv0 (alloc_done c p1 p2 p3 p4 s)"
  unfolding ring_inv0_iff
proof (intro conjI allI impI)
  let ?t = "alloc_done c p1 p2 p3 p4 s" and ?i = "rc_ring_id c"
  show "blocks_ok (rg_blocks ?t)" by (rule assms(4))
  show "bases_distinct (rg_ctrl ?t)" by (rule alloc_done_bases [OF assms])
  fix i d assume v: "valid (rg_ctrl ?t) i"
  show "dir_ok d ?t i"
  proof (cases "i = ?i")
    case True
    then show ?thesis
      using config_bounds [OF assms(3)] alloc_done_new_slot [OF assms(3,4), of _ d]
      by (simp add: dir_ok_def Let_def alloc_done_same indices_ok_def fresh_desc_def alloc_done_blocks)
  next
    case False
    then have o: "valid (rg_ctrl s) i" using v alloc_done_valid [OF assms(3)] by auto
    then have d: "dir_ok d s i" using assms(1) by (simp add: ring_inv0_iff)
    have pos: "unat (d_count d (rg_ctrl s) i) > 0"
      using d by (simp add: dir_ok_def indices_ok_def Let_def word_less_nat_alt)
    note slot = alloc_done_old_slot [OF assms(1) o False assms(3,4), of _ d]
    show ?thesis
      using d slot pos slot [of "_ mod unat (d_count d (rg_ctrl s) i)"]
      by (simp add: dir_ok_def Let_def alloc_done_other [OF False] alloc_done_blocks indices_ok_def slots_def)
  qed
qed

end
