(* ===== verification/Queue_Interface.thy ===== *)
theory Queue_Interface
  imports Prelude
begin

text \<open>
  The contracts of a bounded FIFO as its clients see it: a producer that appends while
  there is room and refuses otherwise, and a consumer that takes the oldest element.
  What a client gets from a whole series of calls is proved once here.
\<close>

primrec run_ops :: "('op \<Rightarrow> 's \<Rightarrow> 'r \<times> 's) \<Rightarrow> 'op list \<Rightarrow> 's \<Rightarrow> 'r list \<times> 's" where
  "run_ops f [] s = ([], s)"
| "run_ops f (x # xs) s =
     (let (r, s1) = f x s; (rs, s2) = run_ops f xs s1 in (r # rs, s2))"

lemma run_ops_Cons:
  "fst (run_ops f (x # xs) s) = fst (f x s) # fst (run_ops f xs (snd (f x s)))"
  "snd (run_ops f (x # xs) s) = snd (run_ops f xs (snd (f x s)))"
  by (simp_all add: Let_def split: prod.split)

declare run_ops.simps(2) [simp del]

locale bounded_producer =
  fixes inv :: "'s \<Rightarrow> bool"
    and abs :: "'s \<Rightarrow> 'a list"
    and cap :: "'s \<Rightarrow> nat"
    and ok :: "'op \<Rightarrow> 's \<Rightarrow> bool"
    and payload :: "'op \<Rightarrow> 's \<Rightarrow> 'a"
    and put :: "'op \<Rightarrow> 's \<Rightarrow> bool \<times> 's"
  assumes put_room: "inv s \<Longrightarrow> ok op s \<Longrightarrow> length (abs s) < cap s \<Longrightarrow>
      fst (put op s) \<and> abs (snd (put op s)) = abs s @ [payload op s]"
    and put_full: "inv s \<Longrightarrow> ok op s \<Longrightarrow> \<not> length (abs s) < cap s \<Longrightarrow>
      \<not> fst (put op s) \<and> abs (snd (put op s)) = abs s"
    and put_keeps: "inv s \<Longrightarrow> ok op s \<Longrightarrow> inv (snd (put op s)) \<and> cap (snd (put op s)) = cap s"
    and put_source: "inv s \<Longrightarrow> ok op s \<Longrightarrow> ok op' s \<Longrightarrow>
      ok op' (snd (put op s)) \<and> payload op' (snd (put op s)) = payload op' s"
begin

lemma put_all:
  assumes "inv s" and "\<forall>op \<in> set ops. ok op s"
  shows "inv (snd (run_ops put ops s))
       \<and> abs (snd (run_ops put ops s)) = abs s @ take (cap s - length (abs s)) (map (\<lambda>op. payload op s) ops)
       \<and> fst (run_ops put ops s) = map (\<lambda>k. length (abs s) + k < cap s) [0..<length ops]"
  using assms
proof (induction ops arbitrary: s)
  case Nil
  then show ?case by simp
next
  case (Cons op ops)
  let ?s = "snd (put op s)"
  have op: "ok op s" using Cons.prems by simp
  have keep: "inv ?s" "cap ?s = cap s" using put_keeps [OF Cons.prems(1) op] by simp_all
  have src: "\<forall>x \<in> set ops. ok x ?s" "map (\<lambda>x. payload x ?s) ops = map (\<lambda>x. payload x s) ops"
    using put_source [OF Cons.prems(1) op] Cons.prems(2) by simp_all
  note IH = Cons.IH [OF keep(1) src(1)]
  have upt: "[0..<Suc (length ops)] = 0 # map Suc [0..<length ops]"
    by (simp add: upt_conv_Cons map_Suc_upt del: upt_Suc)
  show ?case
  proof (cases "length (abs s) < cap s")
    case True
    then obtain m where "cap s - length (abs s) = Suc m" "cap s - Suc (length (abs s)) = m"
      by (metis Suc_diff_Suc)
    with IH put_room [OF Cons.prems(1) op True] True show ?thesis
      by (simp add: run_ops_Cons keep(2) src(2) upt comp_def del: upt_Suc)
  next
    case False
    with IH put_full [OF Cons.prems(1) op False] show ?thesis
      by (simp add: run_ops_Cons keep(2) src(2) upt comp_def del: upt_Suc)
  qed
qed

end

locale fifo_consumer =
  fixes inv :: "'s \<Rightarrow> bool"
    and abs :: "'s \<Rightarrow> 'a list"
    and ok :: "'op \<Rightarrow> 's \<Rightarrow> bool"
    and fits :: "'op \<Rightarrow> 'a \<Rightarrow> bool"
    and get :: "'op \<Rightarrow> 's \<Rightarrow> 'a option \<times> 's"
  assumes get_head: "inv s \<Longrightarrow> ok op s \<Longrightarrow> abs s = x # xs \<Longrightarrow> fits op x \<Longrightarrow>
      fst (get op s) = Some x \<and> abs (snd (get op s)) = xs"
    and get_empty: "inv s \<Longrightarrow> ok op s \<Longrightarrow> abs s = [] \<Longrightarrow>
      fst (get op s) = None \<and> abs (snd (get op s)) = []"
    and get_unfit: "inv s \<Longrightarrow> ok op s \<Longrightarrow> abs s = x # xs \<Longrightarrow> \<not> fits op x \<Longrightarrow> fst (get op s) = None"
    and get_keeps: "inv s \<Longrightarrow> ok op s \<Longrightarrow> inv (snd (get op s)) \<and> (ok op' s \<longrightarrow> ok op' (snd (get op s)))"
begin

lemma get_all:
  assumes "inv s" and "\<forall>op \<in> set ops. ok op s" and "\<forall>op \<in> set ops. \<forall>x \<in> set (abs s). fits op x"
  shows "inv (snd (run_ops get ops s))
       \<and> abs (snd (run_ops get ops s)) = drop (length ops) (abs s)
       \<and> fst (run_ops get ops s)
           = map Some (take (length ops) (abs s)) @ replicate (length ops - length (abs s)) None"
  using assms
proof (induction ops arbitrary: s)
  case Nil
  then show ?case by simp
next
  case (Cons op ops)
  let ?s = "snd (get op s)"
  have op: "ok op s" using Cons.prems by simp
  have keep: "inv ?s" "\<forall>x \<in> set ops. ok x ?s"
    using get_keeps [OF Cons.prems(1) op] Cons.prems(2) by simp_all
  show ?case
  proof (cases "abs s")
    case Nil
    note e = get_empty [OF Cons.prems(1) op Nil]
    with Cons.IH [OF keep] show ?thesis by (simp add: run_ops_Cons Nil)
  next
    case (Cons x xs)
    note h = get_head [OF Cons.prems(1) op Cons]
    from h Cons.IH [OF keep] Cons.prems(3) show ?thesis by (simp add: run_ops_Cons Cons)
  qed
qed

end

end
