(* ===== verification/Ring_Props.thy ===== *)
theory Ring_Props
  imports Ring_Init Queue_Interface
begin

text \<open>
  The properties of the ring service: initialisation and shutdown, the queue contract of
  \<open>ring_send\<close> and \<open>ring_recv\<close> (through the interfaces of \<^verbatim>\<open>Queue_Interface\<close>), the
  counters, the interrupt path, and first-in first-out delivery over whole runs in which
  the slave and the host take turns.
\<close>

section \<open>Initialisation\<close>

definition fresh_ring :: "ring_config \<Rightarrow> ring_state \<Rightarrow> bool" where
  "fresh_ring c s \<longleftrightarrow> (\<forall>d. d_count d (rg_ctrl s) (rc_ring_id c) = rc_desc_count c
     \<and> d_bsz d (rg_ctrl s) (rc_ring_id c) = rc_buf_size c
     \<and> d_rd d (rg_ctrl s) (rc_ring_id c) = 0 \<and> d_wr d (rg_ctrl s) (rc_ring_id c) = 0)"

lemma fresh_ring_other:
  "rc_ring_id c \<noteq> rc_ring_id c' \<Longrightarrow> fresh_ring c (alloc_done c' p1 p2 p3 p4 s) = fresh_ring c s"
  by (simp add: fresh_ring_def alloc_done_other)

lemma alloc_rings_fresh_other:
  assumes "malloc_ok env" and "blocks_ok (rg_blocks s)" and "distinct (map rc_ring_id cs)"
    and "\<forall>c \<in> set cs. owned (rg_ctrl s) (rc_ring_id c) = {NULL}"
    and "alloc_rings env cs s = Inr t" and "rc_ring_id c \<notin> rc_ring_id ` set cs"
  shows "fresh_ring c t = fresh_ring c s"
  using assms(2-)
proof (induction cs arbitrary: s)
  case (Cons c' cs)
  obtain s1 p1 p2 p3 p4 where s1: "alloc_ring env c' s = Inr s1" "s1 = alloc_done c' p1 p2 p3 p4 s"
      "round_effect (rc_ring_id c') s s1"
    using alloc_ring_cases [OF assms(1) Cons.prems(1), of c'] Cons.prems(3,4) by auto
  have "\<forall>c \<in> set cs. owned (rg_ctrl s1) (rc_ring_id c) = {NULL}"
    using s1(3) Cons.prems(2,3) unfolding round_effect_def by (metis distinct.simps(2) image_eqI list.set_intros(2) list.set_map list.simps(9))
  then have "fresh_ring c t = fresh_ring c s1"
    using Cons.IH [of s1] Cons.prems s1 by (simp add: round_effect_def)
  then show ?case using s1(2) Cons.prems(5) by (simp add: fresh_ring_other)
qed simp

lemma alloc_rings_inv:
  assumes "malloc_ok env" and "ring_inv0 s" and "list_all config_ok cs" and "distinct (map rc_ring_id cs)"
    and "\<forall>c \<in> set cs. owned (rg_ctrl s) (rc_ring_id c) = {NULL} \<and> \<not> valid (rg_ctrl s) (rc_ring_id c)"
    and "alloc_rings env cs s = Inr t"
  shows "ring_inv0 t \<and> (\<forall>i. valid (rg_ctrl t) i \<longleftrightarrow> valid (rg_ctrl s) i \<or> i \<in> rc_ring_id ` set cs)
       \<and> (\<forall>c \<in> set cs. fresh_ring c t)"
  using assms(2-)
proof (induction cs arbitrary: s)
  case (Cons c cs)
  have b: "blocks_ok (rg_blocks s)" using Cons.prems(1) by (simp add: ring_inv0_iff)
  obtain s1 p1 p2 p3 p4 where s1: "alloc_ring env c s = Inr s1" "s1 = alloc_done c p1 p2 p3 p4 s"
      "round_effect (rc_ring_id c) s s1"
    using alloc_ring_cases [OF assms(1) b, of c] Cons.prems(4,5) by auto
  have inv1: "ring_inv0 s1"
    using alloc_done_inv [OF Cons.prems(1)] s1(2,3) Cons.prems(2,4) by (simp add: round_effect_def)
  have v1: "valid (rg_ctrl s1) i \<longleftrightarrow> i = rc_ring_id c \<or> valid (rg_ctrl s) i" for i
    using alloc_done_valid s1(2) Cons.prems(2) by simp
  have rest: "owned (rg_ctrl s1) (rc_ring_id c') = {NULL} \<and> \<not> valid (rg_ctrl s1) (rc_ring_id c')"
    if "c' \<in> set cs" for c'
  proof -
    have "rc_ring_id c' \<noteq> rc_ring_id c" using that Cons.prems(3) by simp (metis image_eqI)
    then show ?thesis using that s1(3) v1 Cons.prems(4) by (simp add: round_effect_def)
  qed
  have IH: "ring_inv0 t \<and> (\<forall>i. valid (rg_ctrl t) i \<longleftrightarrow> valid (rg_ctrl s1) i \<or> i \<in> rc_ring_id ` set cs)
       \<and> (\<forall>c \<in> set cs. fresh_ring c t)"
    using Cons.IH [OF inv1] Cons.prems rest s1(1) by simp
  have "fresh_ring c s1" by (simp add: fresh_ring_def s1(2) alloc_done_same)
  moreover have "fresh_ring c t = fresh_ring c s1"
    using alloc_rings_fresh_other [OF assms(1) _ _ _, of s1 cs t c] s1(1,3) Cons.prems(3,5) rest
    by (simp add: round_effect_def)
  ultimately show ?case using IH v1 by auto
qed simp

text \<open>The control block and heap at the start of the allocation loop.\<close>

definition init_start :: "u32 \<Rightarrow> ring_state \<Rightarrow> ring_state" where
  "init_start n s = s\<lparr>rg_ctrl := zero_ctrl\<lparr>cb_magic := RING_MAGIC_NUMBER, cb_version := RING_VERSION,
     cb_num_rings := n, cb_status := RING_STATUS_INITIALIZED\<rparr>\<rparr>"

lemma init_start_simps [simp]:
  "owned (rg_ctrl (init_start n s)) i = {NULL}" "\<not> valid (rg_ctrl (init_start n s)) i"
  "rg_blocks (init_start n s) = rg_blocks s" "rg_initialized (init_start n s) = rg_initialized s"
  by (simp_all add: init_start_def owned_def zero_ctrl_def valid_def RING_STATUS_VALID_def)

lemma init_start_inv: "blocks_ok (rg_blocks s) \<Longrightarrow> ring_inv0 (init_start n s)"
  by (simp add: ring_inv0_iff bases_distinct_def inj_on_def)

lemma init_unfold:
  "ring_service_slave_init env (Some cs) n s =
     (if rg_initialized s then (Neg EALREADY, s)
      else if n = 0 \<or> unat n > MAX_RINGS then (Neg EINVAL, s)
      else if \<not> list_all config_ok (take (unat n) cs) then (Neg EINVAL, s)
      else case alloc_rings env (take (unat n) cs) (init_start n s) of
           Inl s \<Rightarrow> (Neg ENOMEM, init_cleanup (take (unat n) cs) s)
         | Inr s \<Rightarrow>
      if \<not> re_device_ready env then (Neg ENODEV, init_cleanup (take (unat n) cs) s)
      else if re_gpio_configure env < 0 then (Rc (re_gpio_configure env), init_cleanup (take (unat n) cs) s)
      else case sync_rings env (take (unat n) cs) s of
           Inl (e, s) \<Rightarrow> (Rc e, init_cleanup (take (unat n) cs) s)
         | Inr s \<Rightarrow> (Rc 0, s\<lparr>rg_works := [], rg_num_rings := n, rg_initialized := True\<rparr>))"
  by (simp add: ring_service_slave_init_def init_start_def Let_def)

text \<open>C21: A failed \<open>ring_service_slave_init\<close>, wherever it stops (bad parameters, any of the
  allocations of any ring, the GPIO device, a mutex or a semaphore), leaves the heap with
  exactly the blocks it had before and the service not initialised, provided the
  configured ring ids are different.
\<close>

theorem ring_init_failure_restores:
  assumes "malloc_ok env" and "blocks_ok (rg_blocks s)" and "\<not> rg_initialized s"
    and "distinct (map rc_ring_id (take (unat n) cs))"
    and "ring_service_slave_init env (Some cs) n s = (r, s')" and "r \<noteq> Rc 0"
  shows "rg_blocks s' = rg_blocks s \<and> \<not> rg_initialized s'"
proof -
  let ?cs = "take (unat n) cs" and ?s = "init_start n s"
  let ?a = "alloc_rings env ?cs ?s"
  have eff: "rounds_effect (rc_ring_id ` set ?cs) ?s (result_state ?a)"
    using alloc_rings_effect [OF assms(1), of ?s ?cs] assms(2,4) by simp
  have clean: "rg_blocks (init_cleanup ?cs t) = rg_blocks s \<and> \<not> rg_initialized (init_cleanup ?cs t)"
    if "rounds_effect (rc_ring_id ` set ?cs) ?s t" for t
    using init_cleanup_blocks [OF that] that assms(3) by (simp add: rounds_effect_def)
  show ?thesis
  proof (cases ?a)
    case (Inl t)
    then show ?thesis using assms(3,5) clean [of t] eff by (auto simp: init_unfold result_state_def split: if_splits)
  next
    case (Inr t)
    then have t: "rounds_effect (rc_ring_id ` set ?cs) ?s t" using eff by (simp add: result_state_def)
    show ?thesis
    proof (cases "sync_rings env ?cs t")
      case (Inl x)
      obtain e u where x: "x = (e, u)" by (cases x)
      then have "rounds_effect (rc_ring_id ` set ?cs) ?s u"
        using t sync_rings_frame [where env = env and cs = ?cs and s = t] Inl
        by (simp add: core_def rounds_effect_def)
      then show ?thesis using assms(3,5) clean [OF t] clean [of u] Inr Inl x
        by (auto simp: init_unfold split: if_splits)
    next
      case (Inr u)
      then show ?thesis using assms(3,5,6) clean [OF t] \<open>?a = Inr t\<close>
        by (auto simp: init_unfold split: if_splits)
    qed
  qed
qed

lemma init_success_cases:
  assumes "ring_service_slave_init env (Some cs) n s = (Rc 0, s')"
  obtains t u where "\<not> rg_initialized s" and "n \<noteq> 0" and "list_all config_ok (take (unat n) cs)"
    and "alloc_rings env (take (unat n) cs) (init_start n s) = Inr t"
    and "sync_rings env (take (unat n) cs) t = Inr u"
    and "s' = u\<lparr>rg_works := [], rg_num_rings := n, rg_initialized := True\<rparr>"
  using assms sync_rings_negative [of env "take (unat n) cs"]
  by (auto simp: init_unfold split: if_splits sum.splits prod.splits)

lemma ring_inv_cong:
  assumes "rg_ctrl s' = rg_ctrl s" and "rg_blocks s' = rg_blocks s" and "rg_desc s' = rg_desc s"
    and "rg_initialized s'" and "ring_inv0 s"
  shows "ring_inv s'"
  using assms by (simp add: ring_inv_def ring_inv0_iff dir_ok_def slot_desc_def)

text \<open>The header of the control block, which the host looks for.\<close>

definition ctrl_header :: "ring_control_block \<Rightarrow> u32 \<times> u32 \<times> u32 \<times> u32" where
  "ctrl_header c = (cb_magic c, cb_version c, cb_num_rings c, cb_status c)"

lemma alloc_into_header: "alloc_into env n f s = Inr (p, t) \<Longrightarrow> (\<And>q c. ctrl_header (f q c) = ctrl_header c) \<Longrightarrow>
    ctrl_header (rg_ctrl t) = ctrl_header (rg_ctrl s)"
  by (auto simp: alloc_into_def malloc_def Let_def split: if_splits)

lemma alloc_ring_header: "alloc_ring env c s = Inr t \<Longrightarrow> ctrl_header (rg_ctrl t) = ctrl_header (rg_ctrl s)"
  by (auto simp: alloc_ring_def Let_def ctrl_header_def split: sum.splits
      dest!: alloc_into_header [unfolded ctrl_header_def])

lemma alloc_rings_header: "alloc_rings env cs s = Inr t \<Longrightarrow> ctrl_header (rg_ctrl t) = ctrl_header (rg_ctrl s)"
  by (induction cs arbitrary: s) (auto simp: alloc_ring_header split: sum.splits)

lemma slave_init_ok:
  assumes "malloc_ok env" and "blocks_ok (rg_blocks s)"
    and "distinct (map rc_ring_id (take (unat n) cs))"
    and "ring_service_slave_init env (Some cs) n s = (Rc 0, s')"
  shows "ring_inv s' \<and> (\<forall>i. valid (rg_ctrl s') i \<longleftrightarrow> i \<in> rc_ring_id ` set (take (unat n) cs))
       \<and> (\<forall>c \<in> set (take (unat n) cs). \<forall>d. queue d (rc_ring_id c) s' = []
            \<and> capacity d (rc_ring_id c) s' = unat (rc_desc_count c) - 1
            \<and> d_bsz d (rg_ctrl s') (rc_ring_id c) = rc_buf_size c)
       \<and> ctrl_header (rg_ctrl s') = (RING_MAGIC_NUMBER, RING_VERSION, n, RING_STATUS_INITIALIZED)"
proof -
  let ?cs = "take (unat n) cs"
  obtain t u where tu: "list_all config_ok ?cs" "alloc_rings env ?cs (init_start n s) = Inr t"
      "sync_rings env ?cs t = Inr u" "s' = u\<lparr>rg_works := [], rg_num_rings := n, rg_initialized := True\<rparr>"
    using init_success_cases [OF assms(4)] by metis
  have inv: "ring_inv0 t \<and> (\<forall>i. valid (rg_ctrl t) i \<longleftrightarrow> i \<in> rc_ring_id ` set ?cs) \<and> (\<forall>c \<in> set ?cs. fresh_ring c t)"
    using alloc_rings_inv [OF assms(1) init_start_inv [OF assms(2)] tu(1) assms(3) _ tu(2)] by simp
  have core: "rg_ctrl s' = rg_ctrl t" "rg_blocks s' = rg_blocks t" "rg_desc s' = rg_desc t" "rg_initialized s'"
    using sync_rings_frame [where env = env and cs = ?cs and s = t] tu(3,4) by (simp_all add: core_def)
  have "ring_inv s'" using ring_inv_cong [OF core] inv by simp
  moreover have "queue d (rc_ring_id c) s' = [] \<and> capacity d (rc_ring_id c) s' = unat (rc_desc_count c) - 1
            \<and> d_bsz d (rg_ctrl s') (rc_ring_id c) = rc_buf_size c" if "c \<in> set ?cs" for c d
    using inv that core by (simp add: queue_def capacity_def fresh_ring_def ring_list_def)
  moreover have "ctrl_header (rg_ctrl s') = (RING_MAGIC_NUMBER, RING_VERSION, n, RING_STATUS_INITIALIZED)"
    using alloc_rings_header [OF tu(2)] core by (simp add: init_start_def ctrl_header_def)
  ultimately show ?thesis using inv core by simp
qed

text \<open>C20: A successful \<open>ring_service_slave_init\<close> with different ring ids establishes the invariant
  of the data path: exactly the configured rings are valid, both directions of each are
  empty, hold one packet less than their descriptor count, and take packets up to the
  configured size; and the header of the control block carries magic, version, number of
  rings and status for the host.
\<close>

theorem ring_init_establishes:
  assumes "malloc_ok env" and "blocks_ok (rg_blocks s)"
    and "distinct (map rc_ring_id (take (unat n) cs))"
    and "ring_service_slave_init env (Some cs) n s = (Rc 0, s')"
  shows "ring_inv s' \<and> (\<forall>i. valid (rg_ctrl s') i \<longleftrightarrow> i \<in> rc_ring_id ` set (take (unat n) cs))
       \<and> (\<forall>c \<in> set (take (unat n) cs). \<forall>d. queue d (rc_ring_id c) s' = []
            \<and> capacity d (rc_ring_id c) s' = unat (rc_desc_count c) - 1
            \<and> d_bsz d (rg_ctrl s') (rc_ring_id c) = rc_buf_size c)
       \<and> cb_magic (rg_ctrl s') = 0x52494E47 \<and> cb_version (rg_ctrl s') = 0x20000
       \<and> cb_num_rings (rg_ctrl s') = n \<and> cb_status (rg_ctrl s') = RING_STATUS_INITIALIZED"
  using slave_init_ok [OF assms] by (simp add: ctrl_header_def RING_MAGIC_NUMBER_def RING_VERSION_def)

section \<open>Shutdown\<close>

lemma deinit_fold:
  "fold (\<lambda>i s. if cb_ring_status (rg_ctrl s) i = RING_STATUS_VALID then free_ring_resources i s else s) is s
     = fold free_ring_resources (filter (\<lambda>i. cb_ring_status (rg_ctrl s) i = RING_STATUS_VALID) is) s"
  by (induction "is" arbitrary: s) simp_all

lemma set_ring_ids: "set ring_ids = {i. unat i < MAX_RINGS}"
proof -
  have "i \<in> set ring_ids" if "unat i < MAX_RINGS" for i :: u8
    using that by (auto simp: ring_ids_def image_iff intro!: bexI [of _ "unat i"])
  moreover have "unat i < MAX_RINGS" if "i \<in> set ring_ids" for i :: u8
    using that by (auto simp: ring_ids_def MAX_RINGS_def unat_of_nat)
  ultimately show ?thesis by blast
qed

lemma deinit_blocks:
  assumes "blocks_ok (rg_blocks s)" and "rg_initialized s"
  shows "rg_blocks (ring_service_deinit s) =
           filter (\<lambda>b. fst b \<notin> (\<Union>i \<in> {i. valid (rg_ctrl s) i}. owned (rg_ctrl s) i)) (rg_blocks s)"
proof -
  have "set (filter (\<lambda>i. cb_ring_status (rg_ctrl s) i = RING_STATUS_VALID) ring_ids) = {i. valid (rg_ctrl s) i}"
    by (auto simp: set_ring_ids valid_def)
  then show ?thesis
    using assms fold_free_blocks [OF blocks_ok_no_NULL [OF assms(1)]]
    by (simp add: ring_service_deinit_def deinit_fold)
qed

lemma same_layout_owned:
  "same_layout s s' \<Longrightarrow> owned (rg_ctrl s') i = owned (rg_ctrl s) i"
  by (simp add: same_layout_def all_dir owned_def)

text \<open>\<open>ring_service_deinit\<close> gives back exactly what \<open>ring_service_slave_init\<close> took: after
  a successful initialisation and any activity that keeps the layout of the rings, the
  heap is the one before the initialisation and the service is not initialised.
\<close>

theorem ring_deinit_restores:
  assumes "malloc_ok env" and "blocks_ok (rg_blocks s)"
    and "distinct (map rc_ring_id (take (unat n) cs))"
    and "ring_service_slave_init env (Some cs) n s = (Rc 0, s1)" and "same_layout s1 s2"
  shows "rg_blocks (ring_service_deinit s2) = rg_blocks s \<and> \<not> rg_initialized (ring_service_deinit s2)
       \<and> rg_ctrl (ring_service_deinit s2) = zero_ctrl"
proof -
  let ?cs = "take (unat n) cs"
  obtain t u where tu: "list_all config_ok ?cs" "alloc_rings env ?cs (init_start n s) = Inr t"
      "sync_rings env ?cs t = Inr u" "s1 = u\<lparr>rg_works := [], rg_num_rings := n, rg_initialized := True\<rparr>"
    using init_success_cases [OF assms(4)] by metis
  have core: "rg_ctrl s1 = rg_ctrl t" "rg_blocks s1 = rg_blocks t" "rg_initialized s1"
    using sync_rings_frame [where env = env and cs = ?cs and s = t] tu(3,4) by (simp_all add: core_def)
  have eff: "rounds_effect (rc_ring_id ` set ?cs) (init_start n s) t"
    using alloc_rings_effect [OF assms(1), of "init_start n s" ?cs] assms(2,3) tu(2) by (simp add: result_state_def)
  have "{i. valid (rg_ctrl t) i} = rc_ring_id ` set ?cs"
    using alloc_rings_inv [OF assms(1) init_start_inv [OF assms(2)] tu(1) assms(3) _ tu(2)] by auto
  then have "filter (\<lambda>b. fst b \<notin> (\<Union>i \<in> {i. valid (rg_ctrl t) i}. owned (rg_ctrl t) i)) (rg_blocks t) = rg_blocks s"
    using rounds_effect_filter [OF eff] by simp
  moreover have "blocks_ok (rg_blocks s2)" "rg_initialized s2"
    using eff assms(5) core by (simp_all add: rounds_effect_def same_layout_def)
  ultimately have "rg_blocks (ring_service_deinit s2) = rg_blocks s"
    using assms(5) core same_layout_owned [OF assms(5)] same_layout_views(5) [OF assms(5)]
    by (simp add: deinit_blocks same_layout_def)
  then show ?thesis using \<open>rg_initialized s2\<close> by (simp add: ring_service_deinit_def)
qed

section \<open>Sending\<close>

lemma ring_send_queue:
  assumes "ring_inv s" and "valid (rg_ctrl s) i" and "data \<noteq> NULL" and "len \<noteq> 0"
    and "len \<le> cb_rx_buf_size (rg_ctrl s) i" and "0 \<le> lock"
  shows "ring_inv (snd (ring_send lock i data len s))"
    and "if length (queue Rx i s) < capacity Rx i s
         then fst (ring_send lock i data len s) = Rc 0
              \<and> queue Rx i (snd (ring_send lock i data len s)) = queue Rx i s @ [mem_read (rg_mem s) data (unat len)]
         else fst (ring_send lock i data len s) = Neg EAGAIN
              \<and> queue Rx i (snd (ring_send lock i data len s)) = queue Rx i s"
    and "valid (rg_ctrl s) i' \<Longrightarrow> (d', i') \<noteq> (Rx, i) \<Longrightarrow>
           queue d' i' (snd (ring_send lock i data len s)) = queue d' i' s"
proof -
  let ?s = "upd_ring i (\<lambda>r. r\<lparr>ri_tx_lock := Suc (ri_tx_lock r)\<rparr>) s"
  have sd: "same_data s ?s" by simp
  note v = same_data_views [OF sd]
  have inv: "ring_inv ?s" and val: "valid (rg_ctrl ?s) i" using assms v by simp_all
  have run: "ring_send lock i data len s = send_locked i data len ?s"
    using assms leD [OF assms(5)] by (simp add: ring_send_def check_ring_None ring_inv_def option.case_eq_if)
  have room: "enq_step Rx i (mem_read (rg_mem s) data (unat len)) ?s (snd (send_locked i data len ?s))"
      "fst (send_locked i data len ?s) = Rc 0" if "length (queue Rx i s) < capacity Rx i s"
    using send_locked_room [OF inv val] that v assms(5) by simp_all
  have full: "same_data ?s (snd (send_locked i data len ?s))" "fst (send_locked i data len ?s) = Neg EAGAIN"
    if "\<not> length (queue Rx i s) < capacity Rx i s"
    using send_locked_full [OF inv val] that v by simp_all
  show "ring_inv (snd (ring_send lock i data len s))"
    using enq_step_inv [OF inv val room(1)] same_data_views(2) [OF full(1)] inv v run
    by (cases "length (queue Rx i s) < capacity Rx i s") simp_all
  show "if length (queue Rx i s) < capacity Rx i s
        then fst (ring_send lock i data len s) = Rc 0
             \<and> queue Rx i (snd (ring_send lock i data len s)) = queue Rx i s @ [mem_read (rg_mem s) data (unat len)]
        else fst (ring_send lock i data len s) = Neg EAGAIN
             \<and> queue Rx i (snd (ring_send lock i data len s)) = queue Rx i s"
    using enq_step_same(2) [OF inv val room(1)] room(2) full(2) same_data_views(1) [OF full(1)] v run by simp
  show "queue d' i' (snd (ring_send lock i data len s)) = queue d' i' s"
    if "valid (rg_ctrl s) i'" "(d', i') \<noteq> (Rx, i)"
    using enq_step_other(2) [OF inv val _ room(1)] same_data_views(1) [OF full(1)] that v run
    by (cases "length (queue Rx i s) < capacity Rx i s") simp_all
qed

text \<open>C18: \<open>ring_send\<close> is a bounded enqueue. With the mutex taken and a non-empty packet
  that fits a buffer, it either appends exactly that packet to the slave-to-host queue and
  returns 0, or, precisely when the queue already holds \<open>desc_count - 1\<close> packets, returns
  \<open>-EAGAIN\<close> and changes no queue. No other queue of any ring changes and the invariant is kept.
\<close>

theorem ring_send_enqueues:
  assumes "ring_inv s" and "valid (rg_ctrl s) i" and "data \<noteq> NULL" and "len \<noteq> 0"
    and "len \<le> cb_rx_buf_size (rg_ctrl s) i" and "0 \<le> lock"
    and "ring_send lock i data len s = (r, s')"
  shows "ring_inv s'
       \<and> (if length (queue Rx i s) < capacity Rx i s
          then r = Rc 0 \<and> queue Rx i s' = queue Rx i s @ [mem_read (rg_mem s) data (unat len)]
          else r = Neg EAGAIN \<and> queue Rx i s' = queue Rx i s)
       \<and> (\<forall>d' i'. valid (rg_ctrl s) i' \<longrightarrow> (d', i') \<noteq> (Rx, i) \<longrightarrow> queue d' i' s' = queue d' i' s)"
  using ring_send_queue [OF assms(1-6)] assms(7) by (simp split: if_splits)

section \<open>Receiving\<close>

lemma ring_recv_ready:
  assumes "ring_inv s" and "valid (rg_ctrl s) i" and "data \<noteq> NULL" and "max_len \<noteq> 0" and "0 \<le> rv_lock env"
    and "queue Tx i s \<noteq> []"
  shows "ring_recv env i data max_len timeout s = recv_locked i data max_len (lock_rx i s)"
proof -
  have "used_slots (cb_tx_desc_count (rg_ctrl s) i) (cb_tx_wr_idx (rg_ctrl s) i) (cb_tx_rd_idx (rg_ctrl s) i) \<noteq> 0"
    using used_slots_queue [OF assms(1,2), of Tx] assms(6) by (simp add: word_0_unat)
  then show ?thesis
    using assms by (simp add: ring_recv_def check_ring_None ring_inv_def option.case_eq_if not_less Let_def)
qed

lemma ring_recv_empty:
  assumes "ring_inv s" and "valid (rg_ctrl s) i" and "data \<noteq> NULL" and "max_len \<noteq> 0" and "0 \<le> rv_lock env"
    and "queue Tx i s = []" and "timeout = K_NO_WAIT \<or> rv_sem_take env < 0 \<and> rv_while_waiting env = id"
  shows "ring_recv env i data max_len timeout s = (Rc 0, unlock_rx i (lock_rx i s))"
proof -
  have "used_slots (cb_tx_desc_count (rg_ctrl s) i) (cb_tx_wr_idx (rg_ctrl s) i) (cb_tx_rd_idx (rg_ctrl s) i) = 0"
    using used_slots_queue [OF assms(1,2), of Tx] assms(6) by (simp add: word_0_unat)
  then show ?thesis
    using assms by (auto simp: ring_recv_def check_ring_None ring_inv_def option.case_eq_if not_less Let_def)
qed

lemma lock_rx_same [simp]: "same_data s (lock_rx i s)"
  by simp

lemma ring_recv_queue:
  assumes "ring_inv s" and "valid (rg_ctrl s) i" and "data \<noteq> NULL" and "max_len \<noteq> 0" and "0 \<le> rv_lock env"
    and "queue Tx i s = p # ps" and "length p \<le> unat max_len" and "outside data (unat max_len) s"
  shows "ring_inv (snd (ring_recv env i data max_len timeout s))"
    and "fst (ring_recv env i data max_len timeout s) = Rc (int (length p))
         \<and> mem_read (rg_mem (snd (ring_recv env i data max_len timeout s))) data (length p) = p
         \<and> queue Tx i (snd (ring_recv env i data max_len timeout s)) = ps"
    and "valid (rg_ctrl s) i' \<Longrightarrow> (d', i') \<noteq> (Tx, i) \<Longrightarrow>
           queue d' i' (snd (ring_recv env i data max_len timeout s)) = queue d' i' s"
proof -
  let ?s = "lock_rx i s"
  note v = same_data_views [OF lock_rx_same [of s i]]
  have run: "ring_recv env i data max_len timeout s = recv_locked i data max_len ?s"
    using ring_recv_ready [OF assms(1-5)] assms(6) by simp
  have inv: "ring_inv ?s" and val: "valid (rg_ctrl ?s) i" and q: "queue Tx i ?s = p # ps"
    using assms v by simp_all
  have out: "outside data (unat max_len) ?s" using assms(8) by (simp add: outside_def lock_rx_def)
  note h = recv_locked_head [OF inv val q assms(7) out]
  show "ring_inv (snd (ring_recv env i data max_len timeout s))"
    unfolding run by (rule deq_step_inv [OF inv val h(2)]) (simp add: q)
  show "fst (ring_recv env i data max_len timeout s) = Rc (int (length p))
         \<and> mem_read (rg_mem (snd (ring_recv env i data max_len timeout s))) data (length p) = p
         \<and> queue Tx i (snd (ring_recv env i data max_len timeout s)) = ps"
    using h deq_step_same(2) [OF inv val h(2)] q run by simp
  show "queue d' i' (snd (ring_recv env i data max_len timeout s)) = queue d' i' s"
    if "valid (rg_ctrl s) i'" "(d', i') \<noteq> (Tx, i)"
    using deq_step_other(2) [OF inv val _ h(2) that(2)] that(1) v run by simp
qed

text \<open>C19: \<open>ring_recv\<close> on a ring with data is a dequeue, whatever the timeout. If the oldest
  packet fits the caller's buffer (which lies outside every heap block), the call returns
  its length, the buffer starts with exactly its bytes, the packet leaves the
  host-to-slave queue, and no other queue changes; the invariant is kept.
\<close>

theorem ring_recv_dequeues:
  assumes "ring_inv s" and "valid (rg_ctrl s) i" and "data \<noteq> NULL" and "max_len \<noteq> 0" and "0 \<le> rv_lock env"
    and "queue Tx i s = p # ps" and "length p \<le> unat max_len" and "outside data (unat max_len) s"
    and "ring_recv env i data max_len timeout s = (r, s')"
  shows "ring_inv s' \<and> r = Rc (int (length p)) \<and> mem_read (rg_mem s') data (length p) = p \<and> queue Tx i s' = ps
       \<and> (\<forall>d' i'. valid (rg_ctrl s) i' \<longrightarrow> (d', i') \<noteq> (Tx, i) \<longrightarrow> queue d' i' s' = queue d' i' s)"
  using ring_recv_queue [OF assms(1-8), where timeout = timeout] assms(9) by simp

section \<open>The queue interfaces\<close>

lemma same_layout_refl [simp]: "same_layout s s"
  by (simp add: same_layout_def)

lemma same_layout_trans: "same_layout s t \<Longrightarrow> same_layout t u \<Longrightarrow> same_layout s u"
  by (simp add: same_layout_def)

lemma same_layout_upd_ring [simp]: "same_layout s (upd_ring i f s') = same_layout s s'"
  by (simp add: same_layout_def)

lemma same_layout_locks [simp]:
  "same_layout s (lock_rx i s') = same_layout s s'" "same_layout s (unlock_rx i s') = same_layout s s'"
  "same_layout s (count_rx_error i s') = same_layout s s'"
  by (simp_all add: lock_rx_def unlock_rx_def count_rx_error_def)

lemma send_locked_layout: "same_layout s (snd (send_locked i data len s))"
  by (simp add: send_locked_def Let_def) (simp add: same_layout_def all_dir)

lemma recv_locked_layout: "same_layout s (snd (recv_locked i data len s))"
  by (simp add: recv_locked_def Let_def) (simp add: same_layout_def all_dir upd_ring_def)

lemma ring_send_layout: "same_layout s (snd (ring_send lock i data len s))"
  using same_layout_trans [OF _ send_locked_layout] by (simp add: ring_send_def split: option.split)

lemma ring_recv_layout:
  assumes "\<And>t. same_layout t (rv_while_waiting env t)"
  shows "same_layout s (snd (ring_recv env i data len timeout s))"
proof -
  have w: "same_layout s (rv_while_waiting env (unlock_rx i (lock_rx i s)))"
    using same_layout_trans [OF _ assms, of s "unlock_rx i (lock_rx i s)"] by simp
  have r: "same_layout s (snd (recv_locked i data len t))" if "same_layout s t" for t
    by (rule same_layout_trans [OF that recv_locked_layout])
  show ?thesis using w r by (simp add: ring_recv_def Let_def split: option.split)
qed

type_synonym buffer = "addr \<times> u32"

definition put_packet :: "u8 \<Rightarrow> buffer \<Rightarrow> ring_state \<Rightarrow> bool \<times> ring_state" where
  "put_packet i b s = (case ring_send 0 i (fst b) (snd b) s of (r, s') \<Rightarrow> (r = Rc 0, s'))"

definition put_ok :: "u8 \<Rightarrow> buffer \<Rightarrow> ring_state \<Rightarrow> bool" where
  "put_ok i b s \<longleftrightarrow> fst b \<noteq> NULL \<and> snd b \<noteq> 0 \<and> snd b \<le> cb_rx_buf_size (rg_ctrl s) i \<and> outside (fst b) (unat (snd b)) s"

definition buffer_bytes :: "buffer \<Rightarrow> ring_state \<Rightarrow> bytes" where
  "buffer_bytes b s = mem_read (rg_mem s) (fst b) (unat (snd b))"

definition ring_ready :: "u8 \<Rightarrow> ring_state \<Rightarrow> bool" where
  "ring_ready i s \<longleftrightarrow> ring_inv s \<and> valid (rg_ctrl s) i"

lemma layout_ok:
  assumes "same_layout s s'"
  shows "put_ok i b s' = put_ok i b s" and "outside p n s' = outside p n s" and "valid (rg_ctrl s') i = valid (rg_ctrl s) i"
    and "capacity d i s' = capacity d i s"
proof -
  have "d_bsz Rx (rg_ctrl s') i = d_bsz Rx (rg_ctrl s) i" using assms unfolding same_layout_def by blast
  then show "put_ok i b s' = put_ok i b s"
    using assms by (simp add: put_ok_def outside_def same_layout_def)
qed (use assms in \<open>simp_all add: same_layout_def outside_def valid_def capacity_def\<close>)

text \<open>Sending does not touch memory outside the heap blocks.\<close>

lemma ring_send_outside:
  assumes "ring_ready i s" and "0 < snd b" and "put_ok i b s" and "outside p n s"
  shows "mem_read (rg_mem (snd (ring_send 0 i (fst b) (snd b) s))) p n = mem_read (rg_mem s) p n"
proof -
  let ?s = "upd_ring i (\<lambda>r. r\<lparr>ri_tx_lock := Suc (ri_tx_lock r)\<rparr>) s"
  have v: "ring_inv ?s" "valid (rg_ctrl ?s) i" "queue Rx i ?s = queue Rx i s" "capacity Rx i ?s = capacity Rx i s"
    using assms(1) same_data_views [of s ?s] by (simp_all add: ring_ready_def)
  have len: "snd b \<le> cb_rx_buf_size (rg_ctrl ?s) i" using assms(3) by (simp add: put_ok_def)
  have run: "ring_send 0 i (fst b) (snd b) s = send_locked i (fst b) (snd b) ?s"
    using assms leD [OF len] by (simp add: ring_send_def check_ring_None ring_ready_def ring_inv_def put_ok_def option.case_eq_if)
  show ?thesis
  proof (cases "length (queue Rx i ?s) < capacity Rx i ?s")
    case True
    note e = send_locked_room(2) [OF v(1,2) True len, of "fst b"]
    have w: "wr_of Rx ?s i < slots Rx ?s i" using dir_okD [OF v(1,2), of Rx] by (simp add: dir_live_def)
    have "outside p n ?s" using assms(4) by (simp add: outside_def)
    then have "apart (slice Rx ?s i (wr_of Rx ?s i)) (bufsz Rx ?s i) p n"
      by (rule outside_slice [OF v(1,2) w])
    then have "apart p n (slice Rx ?s i (wr_of Rx ?s i)) (length (mem_read (rg_mem ?s) (fst b) (unat (snd b))))"
      using e by (auto simp: apart_def enq_step_def)
    from mem_read_write_apart [OF this] show ?thesis using e run by (simp add: enq_step_def)
  next
    case False
    show ?thesis using send_locked_full(2) [OF v(1,2) False] run by (simp add: same_data_def)
  qed
qed

interpretation tx: bounded_producer "ring_ready i" "queue Rx i" "capacity Rx i" "put_ok i" buffer_bytes "put_packet i"
  for i
proof
  fix s b b' assume r: "ring_ready i s" and ok: "put_ok i b s"
  have pos: "0 < snd b" using ok by (simp add: put_ok_def word_neq_0_conv)
  have sq: "ring_inv s" "valid (rg_ctrl s) i" "fst b \<noteq> NULL" "snd b \<noteq> 0" "snd b \<le> cb_rx_buf_size (rg_ctrl s) i" "(0 :: int) \<le> 0"
    using r ok by (simp_all add: ring_ready_def put_ok_def)
  note q = ring_send_queue [OF sq]
  have snd: "snd (put_packet i b s) = snd (ring_send 0 i (fst b) (snd b) s)"
    and fst: "fst (put_packet i b s) = (fst (ring_send 0 i (fst b) (snd b) s) = Rc 0)"
    by (simp_all add: put_packet_def split: prod.split)
  show "fst (put_packet i b s) \<and> queue Rx i (snd (put_packet i b s)) = queue Rx i s @ [buffer_bytes b s]"
    if "length (queue Rx i s) < capacity Rx i s"
    using q(2) that by (simp add: snd fst buffer_bytes_def)
  show "\<not> fst (put_packet i b s) \<and> queue Rx i (snd (put_packet i b s)) = queue Rx i s"
    if "\<not> length (queue Rx i s) < capacity Rx i s"
    using q(2) that by (simp add: snd fst)
  have lay: "same_layout s (snd (put_packet i b s))" unfolding snd by (rule ring_send_layout)
  show "ring_ready i (snd (put_packet i b s)) \<and> capacity Rx i (snd (put_packet i b s)) = capacity Rx i s"
    using q(1) layout_ok [OF lay] r by (simp add: ring_ready_def snd)
  show "put_ok i b' (snd (put_packet i b s)) \<and> buffer_bytes b' (snd (put_packet i b s)) = buffer_bytes b' s"
    if ok': "put_ok i b' s"
  proof -
    have "outside (fst b') (unat (snd b')) s" using ok' by (simp add: put_ok_def)
    from ring_send_outside [OF r pos ok this] show ?thesis
      using ok' layout_ok(1) [OF lay] by (simp add: buffer_bytes_def snd)
  qed
qed

definition poll_env :: recv_env where
  "poll_env = \<lparr>rv_lock = 0, rv_sem_take = 0, rv_relock = 0, rv_while_waiting = id\<rparr>"

text \<open>The packet a receive hands over: the bytes it returns, when it has moved the read index.
  The return value alone does not tell, since 0 is the answer to an empty ring as well as to
  a packet of length 0.\<close>

definition handed :: "u8 \<Rightarrow> buffer \<Rightarrow> ring_state \<Rightarrow> rc \<times> ring_state \<Rightarrow> bytes option" where
  "handed i b s x =
     (case x of
        (Rc n, s') \<Rightarrow> if cb_tx_rd_idx (rg_ctrl s') i \<noteq> cb_tx_rd_idx (rg_ctrl s) i
                     then Some (mem_read (rg_mem s') (fst b) (nat n)) else None
      | (Neg e, s') \<Rightarrow> None)"

definition get_packet :: "u8 \<Rightarrow> buffer \<Rightarrow> ring_state \<Rightarrow> bytes option \<times> ring_state" where
  "get_packet i b s = (let x = ring_recv poll_env i (fst b) (snd b) K_NO_WAIT s in (handed i b s x, snd x))"

definition get_ok :: "buffer \<Rightarrow> ring_state \<Rightarrow> bool" where
  "get_ok b s \<longleftrightarrow> fst b \<noteq> NULL \<and> snd b \<noteq> 0 \<and> outside (fst b) (unat (snd b)) s"

definition fits_buffer :: "buffer \<Rightarrow> bytes \<Rightarrow> bool" where
  "fits_buffer b p \<longleftrightarrow> length p \<le> unat (snd b)"

lemma same_data_trans: "same_data s t \<Longrightarrow> same_data t u \<Longrightarrow> same_data s u"
  by (simp add: same_data_def)

lemma same_data_layout: "same_data s s' \<Longrightarrow> same_layout s s'"
  by (simp add: same_data_def same_layout_def)

lemma handed_none: "same_data s (snd x) \<Longrightarrow> handed i b s x = None"
  by (auto simp: handed_def same_data_def split: prod.split rc.split)

lemma deq_step_moves:
  assumes "ring_inv s" and "valid (rg_ctrl s) i" and "deq_step d i s s'" and "queue d i s \<noteq> []"
  shows "rd_of d s' i \<noteq> rd_of d s i"
proof
  assume same: "rd_of d s' i = rd_of d s i"
  have "slots d s' i = slots d s i" "wr_of d s' i = wr_of d s i"
    using assms(3) same_layout_views [of s s'] by (simp_all add: deq_step_def)
  then have "length (queue d i s') = length (queue d i s)" by (simp add: length_queue same)
  then show False using deq_step_same(2) [OF assms] by (metis impossible_Cons order_refl)
qed

text \<open>The part of a receive that holds the lock, on a state that differs from \<open>s\<close> only in locks,
  semaphores and counters.\<close>

lemma locked_takes:
  assumes "ring_ready i s" and "get_ok b s" and "same_data s t" and "queue Tx i s = p # ps" and "length p \<le> unat (snd b)"
    and "x = recv_locked i (fst b) (snd b) t"
  shows "handed i b s x = Some p" and "queue Tx i (snd x) = ps" and "ring_inv (snd x)" and "same_layout s (snd x)"
    and "valid (rg_ctrl s) i' \<Longrightarrow> (d', i') \<noteq> (Tx, i) \<Longrightarrow> queue d' i' (snd x) = queue d' i' s"
proof -
  note v = same_data_views [OF assms(3)] and ctrl = assms(3) [unfolded same_data_def]
  have inv: "ring_inv t" and val: "valid (rg_ctrl t) i" and q: "queue Tx i t = p # ps"
    using assms(1,4) v ctrl by (simp_all add: ring_ready_def)
  have "outside (fst b) (unat (snd b)) t" using assms(2) ctrl by (simp add: get_ok_def outside_def)
  note h = recv_locked_head [OF inv val q assms(5) this]
  have ne: "queue Tx i t \<noteq> []" using q by simp
  have "rd_of Tx (snd x) i \<noteq> rd_of Tx t i" using deq_step_moves [OF inv val h(2) ne] assms(6) by simp
  then have "cb_tx_rd_idx (rg_ctrl (snd x)) i \<noteq> cb_tx_rd_idx (rg_ctrl s) i" using ctrl by (auto simp: rd_of_def)
  then show "handed i b s x = Some p" using h(1,3) assms(6) by (simp add: handed_def prod.case_eq_if)
  show "queue Tx i (snd x) = ps" using deq_step_same(2) [OF inv val h(2) ne] q assms(6) by simp
  show "ring_inv (snd x)" using deq_step_inv [OF inv val h(2) ne] assms(6) by simp
  show "same_layout s (snd x)"
    using same_layout_trans [OF same_data_layout [OF assms(3)] recv_locked_layout] assms(6) by simp
  show "queue d' i' (snd x) = queue d' i' s" if "valid (rg_ctrl s) i'" "(d', i') \<noteq> (Tx, i)"
    using deq_step_other(2) [OF inv val _ h(2) that(2)] that(1) ctrl v assms(6) by simp
qed

lemma locked_too_long:
  assumes "ring_ready i s" and "same_data s t" and "queue Tx i s = p # ps" and "unat (snd b) < length p"
  shows "same_data s (snd (recv_locked i (fst b) (snd b) t))"
proof -
  note v = same_data_views [OF assms(2)] and ctrl = assms(2) [unfolded same_data_def]
  have "ring_inv t" "valid (rg_ctrl t) i" "queue Tx i t = p # ps" using assms(1,3) v ctrl by (simp_all add: ring_ready_def)
  from recv_locked_toolong [OF this assms(4)] show ?thesis using assms(2) by (simp add: unlock_rx_def count_rx_error_def)
qed

lemma get_packet_cases:
  assumes "ring_ready i s" and "get_ok b s"
  shows "queue Tx i s = [] \<Longrightarrow> fst (get_packet i b s) = None \<and> same_data s (snd (get_packet i b s))"
    and "queue Tx i s = p # ps \<Longrightarrow> length p \<le> unat (snd b) \<Longrightarrow>
      fst (get_packet i b s) = Some p \<and> queue Tx i (snd (get_packet i b s)) = ps \<and> ring_inv (snd (get_packet i b s))"
    and "queue Tx i s = p # ps \<Longrightarrow> unat (snd b) < length p \<Longrightarrow>
      fst (get_packet i b s) = None \<and> same_data s (snd (get_packet i b s))"
proof -
  have a: "ring_inv s" "valid (rg_ctrl s) i" "fst b \<noteq> NULL" "snd b \<noteq> 0" "0 \<le> rv_lock poll_env"
    using assms by (simp_all add: ring_ready_def get_ok_def poll_env_def)
  show "fst (get_packet i b s) = None \<and> same_data s (snd (get_packet i b s))" if "queue Tx i s = []"
    using ring_recv_empty [OF a that, of K_NO_WAIT] handed_none by (simp add: get_packet_def unlock_rx_def)
  note run = ring_recv_ready [OF a, of K_NO_WAIT]
  show "fst (get_packet i b s) = None \<and> same_data s (snd (get_packet i b s))"
    if "queue Tx i s = p # ps" "unat (snd b) < length p"
    using run locked_too_long [OF assms(1) lock_rx_same that] handed_none that by (simp add: get_packet_def)
  show "fst (get_packet i b s) = Some p \<and> queue Tx i (snd (get_packet i b s)) = ps \<and> ring_inv (snd (get_packet i b s))"
    if "queue Tx i s = p # ps" "length p \<le> unat (snd b)"
    using run locked_takes(1-3) [OF assms lock_rx_same that refl] that(1) by (simp add: get_packet_def)
qed

lemma get_packet_layout: "same_layout s (snd (get_packet i b s))"
  unfolding get_packet_def Let_def snd_conv by (rule ring_recv_layout) (simp add: poll_env_def)

interpretation rx: fifo_consumer "ring_ready i" "queue Tx i" get_ok fits_buffer "get_packet i"
  for i
proof
  fix s b b' p ps assume r: "ring_ready i s" and ok: "get_ok b s"
  note c = get_packet_cases [OF r ok]
  show "fst (get_packet i b s) = Some p \<and> queue Tx i (snd (get_packet i b s)) = ps"
    if "queue Tx i s = p # ps" "fits_buffer b p"
    using c(2) [OF that(1)] that(2) by (simp add: fits_buffer_def)
  show "fst (get_packet i b s) = None \<and> queue Tx i (snd (get_packet i b s)) = []" if "queue Tx i s = []"
    using c(1) [OF that] same_data_views(1) [of s "snd (get_packet i b s)"] that by simp
  show "fst (get_packet i b s) = None" if "queue Tx i s = p # ps" "\<not> fits_buffer b p"
    using c(3) [OF that(1)] that(2) by (simp add: fits_buffer_def)
  have "ring_inv (snd (get_packet i b s))"
  proof (cases "queue Tx i s")
    case Nil
    then show ?thesis using c(1) same_data_views(2) [of s "snd (get_packet i b s)"] r by (simp add: ring_ready_def)
  next
    case (Cons q qs)
    then show ?thesis using c(2,3) [OF Cons] same_data_views(2) [of s "snd (get_packet i b s)"] r
      by (cases "length q \<le> unat (snd b)") (simp_all add: ring_ready_def)
  qed
  then show "ring_ready i (snd (get_packet i b s)) \<and> (get_ok b' s \<longrightarrow> get_ok b' (snd (get_packet i b s)))"
    using layout_ok [OF get_packet_layout [of s i b]] r by (simp add: ring_ready_def get_ok_def)
qed

text \<open>A series of \<open>ring_send\<close> calls is all-in-order until the ring is full: the queue
  gains the first packets of the series up to its free capacity, call \<open>k\<close> succeeds exactly
  while there is room, and every later call is refused.
\<close>

theorem ring_send_series:
  assumes "ring_ready i s" and "\<forall>b \<in> set bs. put_ok i b s"
  shows "queue Rx i (snd (run_ops (put_packet i) bs s))
           = queue Rx i s @ take (capacity Rx i s - length (queue Rx i s)) (map (\<lambda>b. buffer_bytes b s) bs)
       \<and> fst (run_ops (put_packet i) bs s) = map (\<lambda>k. length (queue Rx i s) + k < capacity Rx i s) [0..<length bs]"
  using tx.put_all [OF assms] by blast

text \<open>Polling \<open>ring_recv\<close> repeatedly drains the host-to-slave queue in order: the calls
  deliver the waiting packets one by one, oldest first, then report that there is none.
\<close>

theorem ring_recv_drains:
  assumes "ring_ready i s" and "\<forall>b \<in> set bs. get_ok b s" and "\<forall>b \<in> set bs. \<forall>p \<in> set (queue Tx i s). fits_buffer b p"
  shows "fst (run_ops (get_packet i) bs s)
           = map Some (take (length bs) (queue Tx i s)) @ replicate (length bs - length (queue Tx i s)) None
       \<and> queue Tx i (snd (run_ops (get_packet i) bs s)) = drop (length bs) (queue Tx i s)"
  using rx.get_all [OF assms] by blast

section \<open>Counters and errors\<close>

text \<open>The availability queries report the queues exactly: free places for sending are
  the capacity minus the waiting packets, and receivable packets their number, for every
  position of the wrapping indices.
\<close>

theorem ring_available_exact:
  assumes "ring_inv s" and "valid (rg_ctrl s) i"
  shows "ring_get_tx_available i s = Rc (int (capacity Rx i s - length (queue Rx i s)))
       \<and> ring_get_rx_available i s = Rc (int (length (queue Tx i s)))"
proof -
  have c: "capacity d i s < 2 ^ 31" for d
    using inv_bounds(1) [OF assms, of d] by (simp add: capacity_def word_le_nat_alt)
  have "check_ring i s = None" using assms by (simp add: check_ring_None ring_inv_def)
  moreover have "capacity Rx i s - length (queue Rx i s) < 2 ^ 31" using c [of Rx] by linarith
  moreover have "length (queue Tx i s) < 2 ^ 31"
    using queue_length_less [OF assms, of Tx] c [of Tx] by linarith
  ultimately show ?thesis
    using free_slots_capacity [OF assms, of Rx] used_slots_queue [OF assms, of Tx]
    by (simp add: ring_get_tx_available_def ring_get_rx_available_def Let_def sint_small)
qed

text \<open>A blocking \<open>ring_recv\<close> that is woken although no packet arrived (the interrupt
  handler gives the semaphore of every valid ring) does not wait again: it reads the
  cleared descriptor at the read index, counts a receive error and returns \<open>-EINVAL\<close>.
\<close>

theorem ring_recv_spurious_wakeup:
  assumes "ring_inv s" and "valid (rg_ctrl s) i" and "data \<noteq> NULL" and "max_len \<noteq> 0"
    and "queue Tx i s = []" and "timeout \<noteq> K_NO_WAIT"
    and "rd_flags (slot_desc Tx s i (rd_of Tx s i)) = 0"
    and "0 \<le> rv_lock env" and "0 \<le> rv_sem_take env" and "0 \<le> rv_relock env" and "rv_while_waiting env = id"
    and "ring_recv env i data max_len timeout s = (r, s')"
  shows "r = Neg EINVAL \<and> st_rx_errors (ri_stats (rg_rings s' i)) = st_rx_errors (ri_stats (rg_rings s i)) + 1"
proof -
  have "used_slots (cb_tx_desc_count (rg_ctrl s) i) (cb_tx_wr_idx (rg_ctrl s) i) (cb_tx_rd_idx (rg_ctrl s) i) = 0"
    using used_slots_queue [OF assms(1,2), of Tx] assms(5) by (simp add: word_0_unat)
  moreover have "rd_flags (rg_desc s (desc_at (cb_tx_desc_base (rg_ctrl s) i) (cb_tx_rd_idx (rg_ctrl s) i))) = 0"
    using assms(7) by (simp add: slot_desc_def rd_of_def)
  ultimately show ?thesis
    using assms by (auto simp: ring_recv_def check_ring_None ring_inv_def option.case_eq_if Let_def recv_locked_def
        lock_rx_def unlock_rx_def count_rx_error_def rings_upd_ring)
qed

section \<open>Whole runs\<close>

text \<open>
  What can happen between initialisation and shutdown: calls of the slave, the interrupt,
  and the two moves the protocol gives the host, which writes a packet of any length up to
  the buffer size, 0 included, into a free slot of the host-to-slave direction or takes the
  oldest one of the other. A receive may poll or have a timeout. One that finds the ring empty
  holds no lock while it sleeps, so what happens meanwhile are moves of their own: either it
  times out, or it is woken with a packet waiting and goes on from there. (Woken with
  none it returns \<open>-EINVAL\<close>, see \<open>ring_recv_spurious_wakeup\<close>.) Each move is labelled with the
  packets that change hands.
\<close>

datatype event = Sent u8 bytes | Delivered u8 bytes | Host_put u8 bytes | Host_got u8 bytes

definition recv_plain :: "recv_env \<Rightarrow> k_timeout \<Rightarrow> bool" where
  "recv_plain env timeout \<longleftrightarrow> 0 \<le> rv_lock env \<and> rv_while_waiting env = id \<and> (timeout = K_NO_WAIT \<or> rv_sem_take env < 0)"

text \<open>The caller after \<open>k_sem_take\<close> and the second lock.\<close>

definition woken :: "u8 \<Rightarrow> ring_state \<Rightarrow> ring_state" where
  "woken i s = lock_rx i (upd_ring i (\<lambda>r. r\<lparr>ri_rx_sem := (ri_rx_sem r)\<lparr>sem_count := sem_count (ri_rx_sem r) - 1\<rparr>\<rparr>) s)"

definition delivery :: "u8 \<Rightarrow> bytes option \<Rightarrow> event list" where
  "delivery i r = (case r of Some p \<Rightarrow> [Delivered i p] | None \<Rightarrow> [])"

inductive ring_move :: "ring_state \<Rightarrow> event list \<Rightarrow> ring_state \<Rightarrow> bool" where
  send: "put_ok i b s \<Longrightarrow> ring_ready i s \<Longrightarrow> put_packet i b s = (ok, s') \<Longrightarrow>
     ring_move s (if ok then [Sent i (buffer_bytes b s)] else []) s'"
| recv: "get_ok b s \<Longrightarrow> ring_ready i s \<Longrightarrow> recv_plain env timeout \<Longrightarrow> x = ring_recv env i (fst b) (snd b) timeout s \<Longrightarrow>
     ring_move s (delivery i (handed i b s x)) (snd x)"
| wake: "get_ok b s \<Longrightarrow> ring_ready i s \<Longrightarrow> queue Tx i s \<noteq> [] \<Longrightarrow> x = recv_locked i (fst b) (snd b) (woken i s) \<Longrightarrow>
     ring_move s (delivery i (handed i b s x)) (snd x)"
| interrupt: "ring_inv s \<Longrightarrow> ring_move s [] (ring_rx_handler s)"
| host_put: "ring_ready i s \<Longrightarrow> enq_step Tx i p s s' \<Longrightarrow>
     length (queue Tx i s) < capacity Tx i s \<Longrightarrow> ring_move s [Host_put i p] s'"
| host_get: "ring_ready i s \<Longrightarrow> deq_step Rx i s s' \<Longrightarrow> queue Rx i s = p # ps \<Longrightarrow>
     ring_move s [Host_got i p] s'"

text \<open>The moves \<open>recv\<close> and \<open>wake\<close> are the two halves of \<open>ring_recv\<close>: a call that sleeps and is
  woken is the second half on the state the others leave.\<close>

lemma ring_recv_woken:
  assumes "ring_inv s" and "valid (rg_ctrl s) i" and "data \<noteq> NULL" and "max_len \<noteq> 0" and "queue Tx i s = []" and "timeout \<noteq> K_NO_WAIT"
    and "0 \<le> rv_lock env" and "0 \<le> rv_sem_take env" and "0 \<le> rv_relock env"
  shows "ring_recv env i data max_len timeout s = recv_locked i data max_len (woken i (rv_while_waiting env (unlock_rx i (lock_rx i s))))"
proof -
  have "used_slots (cb_tx_desc_count (rg_ctrl s) i) (cb_tx_wr_idx (rg_ctrl s) i) (cb_tx_rd_idx (rg_ctrl s) i) = 0"
    using used_slots_queue [OF assms(1,2), of Tx] assms(5) by (simp add: word_0_unat)
  then show ?thesis
    using assms by (simp add: ring_recv_def check_ring_None ring_inv_def option.case_eq_if not_less Let_def woken_def)
qed

inductive ring_run :: "ring_state \<Rightarrow> event list \<Rightarrow> ring_state \<Rightarrow> bool" where
  stop: "ring_run s [] s"
| move: "ring_run s evs t \<Longrightarrow> ring_move t e u \<Longrightarrow> ring_run s (evs @ e) u"

definition sent :: "u8 \<Rightarrow> event list \<Rightarrow> bytes list" where
  "sent i evs = concat (map (\<lambda>e. case e of Sent j p \<Rightarrow> if j = i then [p] else [] | _ \<Rightarrow> []) evs)"

definition delivered :: "u8 \<Rightarrow> event list \<Rightarrow> bytes list" where
  "delivered i evs = concat (map (\<lambda>e. case e of Delivered j p \<Rightarrow> if j = i then [p] else [] | _ \<Rightarrow> []) evs)"

definition host_put :: "u8 \<Rightarrow> event list \<Rightarrow> bytes list" where
  "host_put i evs = concat (map (\<lambda>e. case e of Host_put j p \<Rightarrow> if j = i then [p] else [] | _ \<Rightarrow> []) evs)"

definition host_got :: "u8 \<Rightarrow> event list \<Rightarrow> bytes list" where
  "host_got i evs = concat (map (\<lambda>e. case e of Host_got j p \<Rightarrow> if j = i then [p] else [] | _ \<Rightarrow> []) evs)"

lemmas event_lists = sent_def delivered_def host_put_def host_got_def

text \<open>The queue account of a run: what was in, plus what came, is what left plus what is in.\<close>

definition accounts :: "ring_state \<Rightarrow> event list \<Rightarrow> ring_state \<Rightarrow> bool" where
  "accounts s evs s' \<longleftrightarrow> (\<forall>i. valid (rg_ctrl s) i \<longrightarrow>
     queue Rx i s @ sent i evs = host_got i evs @ queue Rx i s'
     \<and> queue Tx i s @ host_put i evs = delivered i evs @ queue Tx i s')"

lemma rx_handler_same: "same_data s (ring_rx_handler s)"
proof -
  have step: "same_data s (rx_handler_ring i t)" if "same_data s t" for i t
    using that by (simp add: rx_handler_ring_def Let_def submit_work_def same_data_def)
  have "same_data s (fold rx_handler_ring is t)" if "same_data s t" for "is" t
    using that by (induction "is" arbitrary: t) (simp_all add: step)
  then show ?thesis by (simp add: ring_rx_handler_def)
qed

text \<open>Every move keeps the invariant, the layout and the account.\<close>

definition good_move :: "ring_state \<Rightarrow> event list \<Rightarrow> ring_state \<Rightarrow> bool" where
  "good_move s e s' \<longleftrightarrow> ring_inv s' \<and> same_layout s s' \<and> accounts s e s'"

lemma good_move_silent:
  assumes "ring_inv s" and "same_data s s'"
  shows "good_move s [] s'"
  using assms same_data_views [OF assms(2)] same_data_layout [OF assms(2)]
  by (simp add: good_move_def accounts_def event_lists)

lemma good_move_one:
  assumes "ring_inv s'" and "same_layout s s'"
    and "\<And>d' i'. valid (rg_ctrl s) i' \<Longrightarrow> (d', i') \<noteq> (d, i) \<Longrightarrow> queue d' i' s' = queue d' i' s"
    and "\<And>i'. i' \<noteq> i \<Longrightarrow> sent i' e = [] \<and> host_got i' e = [] \<and> host_put i' e = [] \<and> delivered i' e = []"
    and "queue Rx i s @ sent i e = host_got i e @ queue Rx i s'"
    and "queue Tx i s @ host_put i e = delivered i e @ queue Tx i s'"
  shows "good_move s e s'"
proof -
  have "queue Rx k s @ sent k e = host_got k e @ queue Rx k s' \<and> queue Tx k s @ host_put k e = delivered k e @ queue Tx k s'"
    if "valid (rg_ctrl s) k" for k
    using assms(3) [OF that] assms(4) [of k] assms(5,6) by (cases "k = i") simp_all
  then show ?thesis using assms(1,2) by (simp add: good_move_def accounts_def)
qed

lemma good_move_send:
  assumes "ring_ready i s" and "put_ok i b s" and "put_packet i b s = (ok, s')"
  shows "good_move s (if ok then [Sent i (buffer_bytes b s)] else []) s'"
proof -
  have sq: "ring_inv s" "valid (rg_ctrl s) i" "fst b \<noteq> NULL" "snd b \<noteq> 0" "snd b \<le> cb_rx_buf_size (rg_ctrl s) i" "(0 :: int) \<le> 0"
    using assms by (simp_all add: ring_ready_def put_ok_def)
  have s': "s' = snd (ring_send 0 i (fst b) (snd b) s)" and ok: "ok = (fst (ring_send 0 i (fst b) (snd b) s) = Rc 0)"
    using assms(3) by (auto simp: put_packet_def split: prod.splits)
  note q = ring_send_queue [OF sq]
  show ?thesis
  proof (rule good_move_one [where d = Rx and i = i])
    show "ring_inv s'" unfolding s' by (rule q(1))
    show "same_layout s s'" unfolding s' by (rule ring_send_layout)
    show "queue d' i' s' = queue d' i' s" if "valid (rg_ctrl s) i'" "(d', i') \<noteq> (Rx, i)" for d' i'
      unfolding s' by (rule q(3) [OF that])
    show "queue Rx i s @ sent i (if ok then [Sent i (buffer_bytes b s)] else [])
        = host_got i (if ok then [Sent i (buffer_bytes b s)] else []) @ queue Rx i s'"
      using q(2) unfolding ok s' by (simp add: event_lists buffer_bytes_def split: if_splits)
    show "queue Tx i s @ host_put i (if ok then [Sent i (buffer_bytes b s)] else [])
        = delivered i (if ok then [Sent i (buffer_bytes b s)] else []) @ queue Tx i s'"
      using q(3) [OF sq(2), of Tx] unfolding s' by (simp add: event_lists)
  qed (simp_all add: event_lists)
qed

lemma good_move_locked:
  assumes "ring_ready i s" and "get_ok b s" and "same_data s t" and ne: "queue Tx i s \<noteq> []" and x: "x = recv_locked i (fst b) (snd b) t"
  shows "good_move s (delivery i (handed i b s x)) (snd x)"
proof -
  have inv: "ring_inv s" and val: "valid (rg_ctrl s) i" using assms(1) by (simp_all add: ring_ready_def)
  obtain p ps where q: "queue Tx i s = p # ps" using ne by (cases "queue Tx i s") auto
  show ?thesis
  proof (cases "length p \<le> unat (snd b)")
    case True
    note l = locked_takes [OF assms(1-3) q True x]
    have d: "delivery i (handed i b s x) = [Delivered i p]" using l(1) by (simp add: delivery_def)
    show ?thesis unfolding d
      by (rule good_move_one [where d = Tx and i = i, OF l(3,4,5)]) (use q l(2) l(5) [OF val, of Rx] in \<open>simp_all add: event_lists\<close>)
  next
    case False
    then have sd: "same_data s (snd x)" using locked_too_long [OF assms(1,3) q, of b] x by simp
    then show ?thesis using good_move_silent [OF inv sd] handed_none [OF sd] by (simp add: delivery_def)
  qed
qed

lemma good_move_recv:
  assumes "ring_ready i s" and "get_ok b s" and "recv_plain env timeout" and x: "x = ring_recv env i (fst b) (snd b) timeout s"
  shows "good_move s (delivery i (handed i b s x)) (snd x)"
proof -
  have a: "ring_inv s" "valid (rg_ctrl s) i" "fst b \<noteq> NULL" "snd b \<noteq> 0" "0 \<le> rv_lock env"
    and quiet: "timeout = K_NO_WAIT \<or> rv_sem_take env < 0 \<and> rv_while_waiting env = id"
    using assms(1-3) by (auto simp: ring_ready_def get_ok_def recv_plain_def)
  show ?thesis
  proof (cases "queue Tx i s = []")
    case True
    have sd: "same_data s (snd x)" unfolding x ring_recv_empty [OF a True quiet] by (simp add: unlock_rx_def)
    then show ?thesis using good_move_silent [OF a(1) sd] handed_none [OF sd] by (simp add: delivery_def)
  next
    case False
    then show ?thesis
      using good_move_locked [OF assms(1,2) lock_rx_same False] ring_recv_ready [OF a False] x by simp
  qed
qed

lemma ring_move_good: "ring_move s e s' \<Longrightarrow> good_move s e s'"
proof (induction rule: ring_move.induct)
  case (send i b s ok s')
  then show ?case by (intro good_move_send)
next
  case (recv b s i env timeout x)
  then show ?case by (intro good_move_recv)
next
  case (wake b s i x)
  have "same_data s (woken i s)" by (simp add: woken_def)
  with wake show ?case by (intro good_move_locked)
next
  case (interrupt s)
  then show ?case by (intro good_move_silent rx_handler_same)
next
  case (host_put i s p s')
  then have v: "ring_inv s" "valid (rg_ctrl s) i" by (simp_all add: ring_ready_def)
  note q = enq_step_same(2) [OF v host_put(2,3)] and inv = enq_step_inv [OF v host_put(2,3)]
  note other = enq_step_other(2) [OF v _ host_put(2)]
  have lay: "same_layout s s'" using host_put(2) by (simp add: enq_step_def)
  show ?case
    by (rule good_move_one [where d = Tx and i = i, OF inv lay other])
       (use q other [OF v(2), of Rx] in \<open>simp_all add: event_lists\<close>)
next
  case (host_get i s s' p ps)
  then have v: "ring_inv s" "valid (rg_ctrl s) i" and ne: "queue Rx i s \<noteq> []" by (simp_all add: ring_ready_def)
  note q = deq_step_same(2) [OF v host_get(2) ne] and inv = deq_step_inv [OF v host_get(2) ne]
  note other = deq_step_other(2) [OF v _ host_get(2)]
  have lay: "same_layout s s'" using host_get(2) by (simp add: deq_step_def)
  show ?case
    by (rule good_move_one [where d = Rx and i = i, OF inv lay other])
       (use q host_get(3) other [OF v(2), of Tx] in \<open>simp_all add: event_lists\<close>)
qed

lemma accounts_trans:
  assumes "accounts s e t" and "accounts t f u" and "same_layout s t"
  shows "accounts s (e @ f) u"
  unfolding accounts_def
proof (intro allI impI)
  fix i assume v: "valid (rg_ctrl s) i"
  then have "valid (rg_ctrl t) i" using layout_ok(3) [OF assms(3)] by simp
  then have "queue Rx i t @ sent i f = host_got i f @ queue Rx i u" "queue Tx i t @ host_put i f = delivered i f @ queue Tx i u"
    using assms(2) by (simp_all add: accounts_def)
  moreover have "queue Rx i s @ sent i e = host_got i e @ queue Rx i t" "queue Tx i s @ host_put i e = delivered i e @ queue Tx i t"
    using assms(1) v by (simp_all add: accounts_def)
  moreover have "sent i (e @ f) = sent i e @ sent i f" "host_got i (e @ f) = host_got i e @ host_got i f"
    "host_put i (e @ f) = host_put i e @ host_put i f" "delivered i (e @ f) = delivered i e @ delivered i f"
    by (simp_all add: event_lists)
  ultimately show "queue Rx i s @ sent i (e @ f) = host_got i (e @ f) @ queue Rx i u
      \<and> queue Tx i s @ host_put i (e @ f) = delivered i (e @ f) @ queue Tx i u"
    by (metis append_assoc)
qed

text \<open>C2: End to end, both directions of every ring are first-in first-out and lose nothing.
  Over any interleaving of slave sends, receives (polling, timed out, or woken with a packet
  waiting), interrupts and host moves from a state with the invariant, packets of length 0
  included, the packets sent (after those already waiting) are the packets the host
  got followed by those still queued, in the same order, and likewise from the host to
  the slave; the invariant and the layout of the rings survive the run. The slave passes
  buffers outside the heap blocks, its mutexes are granted, and the host follows the protocol.
\<close>

theorem ring_run_fifo:
  assumes "ring_run s evs s'" and "ring_inv s"
  shows "ring_inv s' \<and> same_layout s s'
       \<and> (\<forall>i. valid (rg_ctrl s) i \<longrightarrow>
            queue Rx i s @ sent i evs = host_got i evs @ queue Rx i s'
            \<and> queue Tx i s @ host_put i evs = delivered i evs @ queue Tx i s')"
proof -
  have "good_move s evs s'"
    using assms
  proof (induction rule: ring_run.induct)
    case (stop s)
    then show ?case by (simp add: good_move_silent)
  next
    case (move s evs t e u)
    then have 1: "good_move s evs t" and 2: "good_move t e u" using ring_move_good by simp_all
    show ?case
      using 1 2 accounts_trans [of s evs t e u] same_layout_trans [of s t u] by (simp add: good_move_def)
  qed
  then show ?thesis unfolding good_move_def accounts_def by blast
qed

text \<open>What the caller cannot see: a receive answers 0 to an empty ring and to a packet of
  length 0 alike, but only the second takes a packet off the ring.\<close>

theorem ring_recv_zero_ambiguous:
  assumes "ring_ready i s" and "get_ok b s" and "ring_recv poll_env i (fst b) (snd b) K_NO_WAIT s = (r, s')"
  shows "(queue Tx i s = [] \<longrightarrow> r = Rc 0 \<and> queue Tx i s' = []) \<and> (queue Tx i s = [] # ps \<longrightarrow> r = Rc 0 \<and> queue Tx i s' = ps)"
proof -
  have a: "ring_inv s" "valid (rg_ctrl s) i" "fst b \<noteq> NULL" "snd b \<noteq> 0" "0 \<le> rv_lock poll_env"
    and o: "outside (fst b) (unat (snd b)) s"
    using assms(1,2) by (simp_all add: ring_ready_def get_ok_def poll_env_def)
  have "r = Rc 0 \<and> queue Tx i s' = []" if "queue Tx i s = []"
    using ring_recv_empty [OF a that, of K_NO_WAIT] assms(3) that same_data_views(1) [of s s'] by (auto simp: unlock_rx_def)
  moreover have "r = Rc 0 \<and> queue Tx i s' = ps" if "queue Tx i s = [] # ps"
    using ring_recv_queue(2) [OF a that _ o, of K_NO_WAIT] assms(3) by simp
  ultimately show ?thesis by blast
qed

section \<open>A concrete service\<close>

text \<open>
  An allocator that places each block after all live ones, a kernel whose calls succeed,
  and the service initialised with one ring of three descriptors.
\<close>

definition heap_top :: "(addr \<times> u32) list \<Rightarrow> nat" where
  "heap_top B = foldr (\<lambda>(p, n) m. max (unat p + unat n) m) B 0xFF8"

definition bump_malloc :: "(addr \<times> u32) list \<Rightarrow> u32 \<Rightarrow> addr" where
  "bump_malloc B n = (if heap_top B + 8 + unat n < 2 ^ 32 then of_nat (heap_top B + 8) else NULL)"

definition demo_env :: ring_env where
  "demo_env = \<lparr>re_malloc = bump_malloc, re_device_ready = True, re_gpio_configure = 0,
     re_tx_mutex_init = (\<lambda>_. 0), re_rx_mutex_init = (\<lambda>_. 0), re_tx_sem_init = (\<lambda>_. 0), re_rx_sem_init = (\<lambda>_. 0)\<rparr>"

definition demo_configs :: "ring_config list" where
  "demo_configs = [\<lparr>rc_ring_id = 1, rc_desc_count = 3, rc_buf_size = 16\<rparr>]"

definition demo_reset :: ring_state where
  "demo_reset = \<lparr>rg_ctrl = zero_ctrl, rg_initialized = False, rg_num_rings = 0,
     rg_rings = (\<lambda>_. \<lparr>ri_tx_lock = 0, ri_rx_lock = 0, ri_tx_sem = \<lparr>sem_count = 0, sem_limit = 0\<rparr>,
                        ri_rx_sem = \<lparr>sem_count = 0, sem_limit = 0\<rparr>, ri_stats = zero_stats\<rparr>),
     rg_callback = 0, rg_callback_data = 0, rg_blocks = [], rg_desc = (\<lambda>_. \<lparr>rd_buffer_addr = 0, rd_length = 0, rd_flags = 0\<rparr>),
     rg_mem = (\<lambda>a. if a = 0x100 then 7 else 0), rg_works = [], rg_pulses = 0\<rparr>"

definition demo :: ring_state where
  "demo = snd (ring_service_slave_init demo_env (Some demo_configs) 1 demo_reset)"

lemma heap_top_ge: "(p, n) \<in> set B \<Longrightarrow> unat p + unat n \<le> heap_top B"
  by (induction B) (auto simp: heap_top_def)

lemma demo_malloc_ok: "malloc_ok demo_env"
  unfolding malloc_ok_def
proof (intro allI impI)
  fix B n assume B: "blocks_ok B" and nz: "re_malloc demo_env B n \<noteq> NULL"
  define p where "p = re_malloc demo_env B n"
  have top: "heap_top B + 8 + unat n < 2 ^ 32" using nz by (simp add: demo_env_def bump_malloc_def split: if_splits)
  then have "p = of_nat (heap_top B + 8)" by (simp add: p_def demo_env_def bump_malloc_def)
  then have up: "unat p = heap_top B + 8" using top by (simp only: unat_of_nat) simp
  have new: "apart p (unat n) q (unat k) \<and> p \<noteq> q" if "(q, k) \<in> set B" for q k
  proof -
    have "unat q + unat k \<le> heap_top B" by (rule heap_top_ge [OF that])
    then show ?thesis using top up by (auto simp: apart_def)
  qed
  have "p \<notin> fst ` set B" using new [of p] by auto
  then show "blocks_ok ((re_malloc demo_env B n, n) # B)"
    using B new nz apart_sym top up unfolding blocks_ok_def p_def [symmetric] by auto
qed

lemmas demo_run = ring_service_slave_init_def demo_reset_def demo_configs_def config_ok_def MAX_RINGS_def
  alloc_ring_def alloc_into_def malloc_def Let_def demo_env_def bump_malloc_def heap_top_def DESC_SIZE_def sync_ring_def

lemma demo_init: "ring_service_slave_init demo_env (Some demo_configs) 1 demo_reset = (Rc 0, demo)"
proof -
  have "fst (ring_service_slave_init demo_env (Some demo_configs) 1 demo_reset) = Rc 0"
    by (simp add: demo_run)
  then show ?thesis by (simp add: demo_def prod_eq_iff)
qed

lemma demo_blocks: "rg_blocks demo = [(0x1078, 48), (0x1058, 24), (0x1020, 48), (0x1000, 24)]"
  by (simp add: demo_def demo_run)

lemma demo_mem: "rg_mem demo = (\<lambda>a. if a = 0x100 then 7 else 0)"
  by (simp add: demo_def demo_run)

theorem ring_init_establishes_witness:
  "malloc_ok demo_env \<and> ring_inv demo \<and> (\<forall>i. valid (rg_ctrl demo) i \<longleftrightarrow> i = 1) \<and> capacity Rx 1 demo = 2
   \<and> cb_magic (rg_ctrl demo) = 0x52494E47"
  using ring_init_establishes [OF demo_malloc_ok _ _ demo_init] demo_malloc_ok
  by (auto simp: demo_reset_def demo_configs_def blocks_ok_def)

lemma demo_facts:
  "ring_inv demo" "valid (rg_ctrl demo) i \<longleftrightarrow> i = 1" "queue d 1 demo = []" "capacity d 1 demo = 2"
  "d_bsz d (rg_ctrl demo) 1 = 16"
  using slave_init_ok [OF demo_malloc_ok _ _ demo_init]
  by (simp_all add: demo_reset_def demo_configs_def blocks_ok_def)

lemma demo_ready: "ring_ready 1 demo"
  by (simp add: ring_ready_def demo_facts)

lemma demo_rx_size: "cb_rx_buf_size (rg_ctrl demo) 1 = 16"
  using demo_facts(5) [of Rx] by simp

lemma demo_reset_ok:
  "blocks_ok (rg_blocks demo_reset)" "\<not> rg_initialized demo_reset"
  "distinct (map rc_ring_id (take k demo_configs))" "rg_blocks demo_reset = []"
  by (simp_all add: demo_reset_def demo_configs_def blocks_ok_def take_Cons split: nat.split)

theorem ring_init_failure_restores_witness:
  "rg_blocks (snd (ring_service_slave_init (demo_env\<lparr>re_device_ready := False\<rparr>) (Some demo_configs) 1 demo_reset)) = []
   \<and> fst (ring_service_slave_init (demo_env\<lparr>re_device_ready := False\<rparr>) (Some demo_configs) 1 demo_reset) = Neg ENODEV"
proof -
  let ?r = "ring_service_slave_init (demo_env\<lparr>re_device_ready := False\<rparr>) (Some demo_configs) 1 demo_reset"
  have "malloc_ok (demo_env\<lparr>re_device_ready := False\<rparr>)" using demo_malloc_ok by (simp add: malloc_ok_def)
  moreover have f: "fst ?r = Neg ENODEV" by (simp add: demo_run)
  moreover have "?r = (fst ?r, snd ?r)" by simp
  ultimately show ?thesis
    using ring_init_failure_restores [OF _ demo_reset_ok(1,2) demo_reset_ok(3) [of "unat 1"]] demo_reset_ok(4)
    by (metis rc.distinct(1))
qed

theorem ring_deinit_restores_witness:
  "rg_blocks (ring_service_deinit demo) = [] \<and> \<not> rg_initialized (ring_service_deinit demo)"
  using ring_deinit_restores [OF demo_malloc_ok _ _ demo_init same_layout_refl]
  by (simp add: demo_reset_def demo_configs_def blocks_ok_def)

theorem ring_send_enqueues_witness:
  "queue Rx 1 (snd (ring_send 0 1 0x100 2 demo)) = [[7, 0]]"
  using ring_send_enqueues [OF demo_facts(1), of 1 "0x100" 2 0 "fst (ring_send 0 1 0x100 2 demo)" "snd (ring_send 0 1 0x100 2 demo)"]
  by (simp add: demo_facts demo_rx_size demo_mem mem_read_def upt_rec)

theorem ring_send_series_witness:
  "fst (run_ops (put_packet 1) [(0x100, 2), (0x100, 1), (0x100, 3)] demo) = [True, True, False]"
  using ring_send_series [OF demo_ready, of "[(0x100, 2), (0x100, 1), (0x100, 3)]"]
  by (simp add: put_ok_def outside_def demo_blocks apart_def demo_rx_size demo_facts upt_rec)

section \<open>The host side of the demonstration\<close>

text \<open>The host's write as the protocol of the control block prescribes it.\<close>

definition host_write :: "u8 \<Rightarrow> bytes \<Rightarrow> ring_state \<Rightarrow> ring_state" where
  "host_write i bs s =
     (let a = slot_addr Tx s i (wr_of Tx s i)
      in s\<lparr>rg_mem := mem_write (rg_mem s) (slice Tx s i (wr_of Tx s i)) bs,
           rg_desc := (rg_desc s)(a := (rg_desc s a)\<lparr>rd_length := of_nat (length bs), rd_flags := RING_DESC_FLAG_VALID\<rparr>),
           rg_ctrl := (rg_ctrl s)\<lparr>cb_tx_wr_idx := (cb_tx_wr_idx (rg_ctrl s))
             (i := (cb_tx_wr_idx (rg_ctrl s) i + 1) mod cb_tx_desc_count (rg_ctrl s) i)\<rparr>\<rparr>)"

lemma host_write_step:
  assumes "ring_ready i s" and "length bs \<le> bufsz Tx s i"
  shows "enq_step Tx i bs s (host_write i bs s)"
proof -
  have inv: "ring_inv s" "valid (rg_ctrl s) i" using assms(1) by (simp_all add: ring_ready_def)
  have "length bs \<le> 1500"
    using assms(2) inv_bounds(2) [OF inv, of Tx] by (simp add: bufsz_def word_le_nat_alt)
  then have len: "unat (of_nat (length bs) :: u16) = length bs" by (simp add: unat_of_nat)
  have b: "rd_buffer_addr (rg_desc s (slot_addr Tx s i (wr_of Tx s i))) = slice Tx s i (wr_of Tx s i)"
    using dir_okD [OF inv, of Tx] by (simp add: dir_live_def flip: slot_desc_addr)
  have nxt: "unat ((cb_tx_wr_idx (rg_ctrl s) i + 1) mod cb_tx_desc_count (rg_ctrl s) i)
      = Suc (wr_of Tx s i) mod slots Tx s i"
    using unat_pred_mod inv_bounds(5) [OF inv, of Tx] by (simp add: wr_of_def slots_def)
  have ctrl: "rg_ctrl (host_write i bs s) = (rg_ctrl s)\<lparr>cb_tx_wr_idx := (cb_tx_wr_idx (rg_ctrl s))
      (i := (cb_tx_wr_idx (rg_ctrl s) i + 1) mod cb_tx_desc_count (rg_ctrl s) i)\<rparr>"
    by (simp add: host_write_def Let_def)
  have "same_layout s (host_write i bs s)" by (simp add: same_layout_def host_write_def Let_def all_dir)
  moreover have "same_indices d' i' s (host_write i bs s)" if "(d', i') \<noteq> (Tx, i)" for d' i'
    using that by (cases d') (auto simp: same_indices_def host_write_def Let_def rd_of_def wr_of_def)
  moreover have "wr_of Tx (host_write i bs s) i = Suc (wr_of Tx s i) mod slots Tx s i" "rd_of Tx (host_write i bs s) i = rd_of Tx s i"
    using nxt by (simp_all add: ctrl wr_of_def [of _ "host_write i bs s"] rd_of_def)
  ultimately show ?thesis
    unfolding enq_step_def using assms(2) b len by (auto simp: host_write_def Let_def)
qed

definition demo_put :: ring_state where
  "demo_put = host_write 1 [5, 6] demo"

lemma demo_put_step: "enq_step Tx 1 [5, 6] demo demo_put"
  unfolding demo_put_def by (rule host_write_step [OF demo_ready]) (simp add: bufsz_def demo_facts)

lemma demo_put_facts:
  "ring_inv demo_put" "queue Tx 1 demo_put = [[5, 6]]" "valid (rg_ctrl demo_put) i \<longleftrightarrow> i = 1" "same_layout demo demo_put"
proof -
  have room: "length (queue Tx 1 demo) < capacity Tx 1 demo" by (simp add: demo_facts)
  have v: "valid (rg_ctrl demo) 1" by (simp add: demo_facts)
  show "ring_inv demo_put" by (rule enq_step_inv [OF demo_facts(1) v demo_put_step room])
  show "queue Tx 1 demo_put = [[5, 6]]"
    using enq_step_same(2) [OF demo_facts(1) v demo_put_step room] by (simp add: demo_facts)
  show l: "same_layout demo demo_put" using demo_put_step by (simp add: enq_step_def)
  show "valid (rg_ctrl demo_put) i \<longleftrightarrow> i = 1" using layout_ok(3) [OF l] by (simp add: demo_facts)
qed

lemma demo_outside: "outside 0x200 16 demo_put"
  unfolding layout_ok(2) [OF demo_put_facts(4)] by (simp add: outside_def demo_blocks apart_def)

lemma demo_put_ready: "ring_ready 1 demo_put"
  by (simp add: ring_ready_def demo_put_facts)

theorem ring_recv_dequeues_witness:
  "fst (ring_recv poll_env 1 0x200 16 K_FOREVER demo_put) = Rc 2
   \<and> mem_read (rg_mem (snd (ring_recv poll_env 1 0x200 16 K_FOREVER demo_put))) 0x200 (Suc (Suc 0)) = [5, 6]"
  using ring_recv_dequeues [OF demo_put_facts(1), of 1 "0x200" 16 poll_env "[5, 6]" "[]" K_FOREVER
      "fst (ring_recv poll_env 1 0x200 16 K_FOREVER demo_put)" "snd (ring_recv poll_env 1 0x200 16 K_FOREVER demo_put)"]
  by (simp add: demo_put_facts demo_outside poll_env_def)

theorem ring_recv_drains_witness:
  "fst (run_ops (get_packet 1) [(0x200, 16), (0x200, 16)] demo_put) = [Some [5, 6], None]"
  using ring_recv_drains [OF demo_put_ready, of "[(0x200, 16), (0x200, 16)]"]
  by (simp add: get_ok_def demo_outside fits_buffer_def demo_put_facts)

theorem ring_available_exact_witness:
  "ring_get_tx_available 1 demo_put = Rc 2 \<and> ring_get_rx_available 1 demo_put = Rc 1"
proof -
  have "queue Rx 1 demo_put = []"
    using enq_step_other(2) [OF demo_facts(1) _ _ demo_put_step, of 1 Rx] by (simp add: demo_facts)
  moreover have "capacity Rx 1 demo_put = 2" using layout_ok(4) [OF demo_put_facts(4)] by (simp add: demo_facts)
  ultimately show ?thesis
    using ring_available_exact [OF demo_put_facts(1), of 1] by (simp add: demo_put_facts)
qed

lemma init_descs_3: "init_descs a b c d z 3 m = init_descs a b c d z (Suc (Suc (Suc 0))) m"
  by (simp only: numeral_3_eq_3)

definition woken_env :: recv_env where
  "woken_env = \<lparr>rv_lock = 0, rv_sem_take = 0, rv_relock = 0, rv_while_waiting = id\<rparr>"

theorem ring_recv_spurious_wakeup_witness:
  "fst (ring_recv woken_env 1 0x200 16 K_FOREVER demo) = Neg EINVAL"
proof -
  have "rd_flags (slot_desc Tx demo 1 (rd_of Tx demo 1)) = 0"
    by (simp add: slot_desc_def rd_of_def demo_def demo_run desc_at_def fresh_desc_def init_descs_3)
  then show ?thesis
    using ring_recv_spurious_wakeup [OF demo_facts(1), of 1 "0x200" 16 K_FOREVER woken_env
        "fst (ring_recv woken_env 1 0x200 16 K_FOREVER demo)" "snd (ring_recv woken_env 1 0x200 16 K_FOREVER demo)"]
    by (simp add: demo_facts woken_env_def)
qed

theorem ring_run_fifo_witness:
  "\<exists>s'. ring_run demo [Host_put 1 [5, 6], Delivered 1 [5, 6]] s' \<and> queue Tx 1 s' = []"
proof -
  have m1: "ring_move demo [Host_put 1 [5, 6]] demo_put"
    by (rule ring_move.host_put [OF demo_ready demo_put_step]) (simp_all add: demo_facts)
  have ok: "get_ok (0x200, 16) demo_put" by (simp add: get_ok_def demo_outside)
  let ?x = "ring_recv poll_env 1 0x200 16 K_NO_WAIT demo_put"
  have "handed 1 (0x200, 16) demo_put ?x = Some [5, 6]"
    using get_packet_cases(2) [OF demo_put_ready ok demo_put_facts(2)] by (simp add: get_packet_def Let_def)
  moreover have "recv_plain poll_env K_NO_WAIT" by (simp add: recv_plain_def poll_env_def)
  ultimately have "ring_move demo_put [Delivered 1 [5, 6]] (snd ?x)"
    using ring_move.recv [OF ok demo_put_ready _ refl, of poll_env K_NO_WAIT] by (simp add: delivery_def)
  then have "ring_run demo ([Host_put 1 [5, 6]] @ [Delivered 1 [5, 6]]) (snd ?x)"
    using ring_run.move [OF ring_run.stop m1] by (intro ring_run.move) simp_all
  then have run: "ring_run demo [Host_put 1 [5, 6], Delivered 1 [5, 6]] (snd ?x)"
    by simp
  from ring_run_fifo [OF run demo_facts(1)] run show ?thesis
    by (auto simp: demo_facts event_lists)
qed

end
