(* ===== verification/Flash_Correct.thy ===== *)
theory Flash_Correct
  imports Flash
begin

text \<open>
  The flash driver returns: the polling loop ends, and with it every operation, whatever
  the chip answers. The lemmas carry a property \<open>Q\<close> of the chip through an operation that
  only polls, for the functional theorems.
\<close>

declare write_loop.simps [simp del]

section \<open>The polling loop returns\<close>

text \<open>The driver's own variables, apart from the chip.\<close>

definition same_drv :: "'d flash \<Rightarrow> 'd flash \<Rightarrow> bool" where
  "same_drv s s' \<longleftrightarrow> fl_config s' = fl_config s \<and> fl_init_done s' = fl_init_done s
     \<and> fl_state s' = fl_state s \<and> fl_clock s' = fl_clock s"

lemma same_drv_refl [simp]: "same_drv s s"
  by (simp add: same_drv_def)

lemma same_drv_trans: "same_drv s t \<Longrightarrow> same_drv t u \<Longrightarrow> same_drv s u"
  by (simp add: same_drv_def)

lemma same_drv_dev [simp]: "same_drv s (t\<lparr>fl_dev := d\<rparr>) = same_drv s t"
  by (simp add: same_drv_def)

lemma same_drv_config: "same_drv s s' \<Longrightarrow> fl_config s' = fl_config s"
  by (simp add: same_drv_def)

abbreviation reg_read :: "'d qspi_bus \<Rightarrow> u8 \<Rightarrow> nat \<Rightarrow> 'd \<Rightarrow> bytes \<times> 'd" where
  "reg_read bus opcode n d \<equiv> qb_transact bus (reg_cmd opcode False) 0 (Xfer_in n) d"

lemma run_reg_cmd:
  "drv_qspi_run_cmd bus (reg_cmd opcode w) addr x s =
     (True, fst (qb_transact bus (reg_cmd opcode w) addr x (fl_dev s)),
      s\<lparr>fl_dev := snd (qb_transact bus (reg_cmd opcode w) addr x (fl_dev s))\<rparr>)"
  by (simp add: drv_qspi_run_cmd_def reg_cmd_def drv_qspi_prepare_cmd_def split: prod.split)

lemma read_reg1_eq:
  "read_reg1 bus opcode old s =
     (FLASH_DEVICE_DONE, case fst (reg_read bus opcode 1 (fl_dev s)) of [] \<Rightarrow> old | b # _ \<Rightarrow> b,
      s\<lparr>fl_dev := snd (reg_read bus opcode 1 (fl_dev s))\<rparr>)"
  by (simp add: read_reg1_def drv_flash_read_reg_internal_def run_reg_cmd)

text \<open>Operations whose error check has a configuration to look at.\<close>

definition op_ok :: "flash_operation \<Rightarrow> 'd flash \<Rightarrow> bool" where
  "op_ok operation s \<longleftrightarrow> operation = OTHER_OPERATION \<or> fl_config s \<noteq> None"

lemma op_ok_same: "same_drv s s' \<Longrightarrow> op_ok operation s' = op_ok operation s"
  by (simp add: op_ok_def same_drv_def)

text \<open>A property of the chip that polling does not disturb.\<close>

definition poll_stable :: "'d qspi_bus \<Rightarrow> flash_config_data option \<Rightarrow> ('d \<Rightarrow> bool) \<Rightarrow> bool" where
  "poll_stable bus cfg Q \<longleftrightarrow>
     (\<forall>d. Q d \<longrightarrow> Q (snd (reg_read bus READ_STATUS_CMD 1 d)))
     \<and> (\<forall>d t. Q d \<longrightarrow> Q (qb_delay bus t d))
     \<and> (\<forall>d c. cfg = Some c \<longrightarrow> Q d \<longrightarrow> Q (snd (reg_read bus (fc_write_err_status_reg c) 1 d))
                                   \<and> Q (snd (reg_read bus (fc_erase_err_status_reg c) 1 d)))"

lemma poll_stable_True: "poll_stable bus cfg (\<lambda>d. True)"
  by (simp add: poll_stable_def)

lemma check_error_returns:
  assumes "op_ok operation s" and "poll_stable bus (fl_config s) Q" and "Q (fl_dev s)"
  obtains st s' where "drv_flash_check_error bus operation s = Some (st, s')" and "same_drv s s'" and "Q (fl_dev s')"
proof -
  have *: "\<exists>st s'. (if r = 0 then Some (FLASH_DEVICE_DONE, s)
           else case read_reg1 bus r 0 s of (status, qspi_status, s) \<Rightarrow>
             Some (if status = FLASH_DEVICE_DONE \<and> qspi_status AND m \<noteq> 0 then FLASH_DEVICE_FAIL else status, s))
           = Some (st, s') \<and> same_drv s s' \<and> Q (fl_dev s')"
    if "Q (snd (reg_read bus r 1 (fl_dev s)))" for r m
    using that assms(3) by (cases "r = 0") (auto simp: read_reg1_eq)
  have "\<exists>st s'. drv_flash_check_error bus operation s = Some (st, s') \<and> same_drv s s' \<and> Q (fl_dev s')"
  proof (cases operation)
    case OTHER_OPERATION
    then show ?thesis using assms(3) by (simp add: drv_flash_check_error_def)
  next
    case WRITE_OPERATION
    then obtain c where c: "fl_config s = Some c" using assms(1) by (auto simp: op_ok_def)
    then have "Q (snd (reg_read bus (fc_write_err_status_reg c) 1 (fl_dev s)))"
      using assms(2,3) unfolding poll_stable_def by blast
    from * [OF this] show ?thesis by (simp add: drv_flash_check_error_def WRITE_OPERATION c)
  next
    case ERASE_OPERATION
    then obtain c where c: "fl_config s = Some c" using assms(1) by (auto simp: op_ok_def)
    then have "Q (snd (reg_read bus (fc_erase_err_status_reg c) 1 (fl_dev s)))"
      using assms(2,3) unfolding poll_stable_def by blast
    from * [OF this] show ?thesis by (simp add: drv_flash_check_error_def ERASE_OPERATION c)
  qed
  then show thesis using that by blast
qed

lemma check_error_other: "drv_flash_check_error bus OTHER_OPERATION s = Some (FLASH_DEVICE_DONE, s)"
  by (simp add: drv_flash_check_error_def)

lemma wait_loop_returns:
  assumes "unat timeout = n * unat polling" and "polling \<noteq> 0"
    and "op_ok operation s" and "poll_stable bus (fl_config s) Q" and "Q (fl_dev s)"
  shows "\<exists>st s'. wait_loop bus operation bmask value polling timeout result s = Some (st, s')
           \<and> same_drv s s' \<and> Q (fl_dev s')"
  using assms
proof (induction n arbitrary: timeout result s)
  case 0
  then show ?case by (subst wait_loop.simps) (simp add: unat_eq_0)
next
  case (Suc n)
  have p: "0 < unat polling" using Suc.prems(2) by (simp add: unat_gt_0)
  then have t: "timeout \<noteq> 0" "unat (timeout - polling) = n * unat polling"
    using Suc.prems(1) by (auto simp: unat_sub word_le_nat_alt)
  let ?s = "s\<lparr>fl_dev := snd (reg_read bus READ_STATUS_CMD 1 (fl_dev s))\<rparr>"
  let ?r = "case fst (reg_read bus READ_STATUS_CMD 1 (fl_dev s)) of [] \<Rightarrow> result | b # _ \<Rightarrow> b"
  have q: "Q (fl_dev ?s)" "same_drv s ?s" using Suc.prems(4,5) by (simp_all add: poll_stable_def)
  show ?case
  proof (cases "?r AND bmask = value")
    case True
    have "op_ok operation ?s" "poll_stable bus (fl_config ?s) Q" using Suc.prems by (simp_all add: op_ok_def)
    from check_error_returns [OF this q(1)] obtain st s' where
      "drv_flash_check_error bus operation ?s = Some (st, s')" "same_drv ?s s'" "Q (fl_dev s')" .
    with True t(1) show ?thesis
      by (subst wait_loop.simps) (auto simp: read_reg1_eq intro: same_drv_trans [OF q(2)])
  next
    case False
    let ?u = "delay bus polling ?s"
    have u: "op_ok operation ?u" "poll_stable bus (fl_config ?u) Q" "Q (fl_dev ?u)" "same_drv s ?u"
      using Suc.prems q by (simp_all add: op_ok_def delay_def poll_stable_def same_drv_def)
    from Suc.IH [OF t(2) Suc.prems(2) u(1-3), of ?r] obtain st s' where
      "wait_loop bus operation bmask value polling (timeout - polling) ?r ?u = Some (st, s')" "same_drv ?u s'" "Q (fl_dev s')"
      by blast
    with False t(1) show ?thesis
      by (subst wait_loop.simps) (auto simp: read_reg1_eq intro: same_drv_trans [OF u(4)])
  qed
qed

text \<open>When the loop ends with success, its last status read had the expected bits, and the
  error check that may follow it has not disturbed what they show.\<close>

lemma check_error_stable:
  assumes "drv_flash_check_error bus operation s = Some (st, s')"
    and "operation = OTHER_OPERATION \<or> poll_stable bus (fl_config s) R" and "R (fl_dev s)"
  shows "R (fl_dev s')"
proof (cases "operation = OTHER_OPERATION")
  case True
  then show ?thesis using assms(1,3) by (simp add: check_error_other)
next
  case False
  then have "poll_stable bus (fl_config s) R" using assms(2) by simp
  moreover have "op_ok operation s" using assms(1) False by (cases "fl_config s") (auto simp: op_ok_def drv_flash_check_error_def split: flash_operation.splits)
  ultimately show ?thesis using check_error_returns [of operation s bus R] assms(1,3) by auto
qed

lemma wait_loop_hit:
  assumes "unat timeout = n * unat polling" and "polling \<noteq> 0"
    and "wait_loop bus operation bmask value polling timeout result s = Some (FLASH_DEVICE_DONE, s')"
    and "operation = OTHER_OPERATION \<or> poll_stable bus (fl_config s) R"
    and "\<And>d b bs d'. reg_read bus READ_STATUS_CMD 1 d = (b # bs, d') \<Longrightarrow> b AND bmask = value \<Longrightarrow> R d'"
    and "\<And>d. fst (reg_read bus READ_STATUS_CMD 1 d) \<noteq> []"
  shows "R (fl_dev s')"
  using assms(1-4)
proof (induction n arbitrary: timeout result s)
  case 0
  then have "wait_loop bus operation bmask value polling timeout result s = Some (FLASH_DEVICE_FAIL, s)"
    by (subst wait_loop.simps) (simp add: unat_eq_0)
  then show ?case using 0 by simp
next
  case (Suc n)
  have "0 < unat polling" using Suc.prems(2) by (simp add: unat_gt_0)
  then have t: "timeout \<noteq> 0" "unat (timeout - polling) = n * unat polling"
    using Suc.prems(1) by (auto simp: unat_sub word_le_nat_alt)
  obtain b bs d' where r: "reg_read bus READ_STATUS_CMD 1 (fl_dev s) = (b # bs, d')"
    using assms(6) [of "fl_dev s"] by (metis list.exhaust prod.collapse)
  let ?s = "s\<lparr>fl_dev := d'\<rparr>"
  show ?case
  proof (cases "b AND bmask = value")
    case True
    with Suc.prems(3) t(1) r have "drv_flash_check_error bus operation ?s = Some (FLASH_DEVICE_DONE, s')"
      by (subst (asm) wait_loop.simps) (simp add: read_reg1_eq)
    from check_error_stable [OF this, of R] show ?thesis using Suc.prems(4) assms(5) [OF r True] by simp
  next
    case False
    have "wait_loop bus operation bmask value polling (timeout - polling) b (delay bus polling ?s) = Some (FLASH_DEVICE_DONE, s')"
      using Suc.prems(3) t(1) r False by (subst (asm) wait_loop.simps) (simp add: read_reg1_eq)
    from Suc.IH [OF t(2) Suc.prems(2) this] show ?thesis using Suc.prems(4) by (simp add: delay_def)
  qed
qed

lemma wait_done_hit:
  assumes "polling \<noteq> 0 \<and> unat timeout mod unat polling = 0"
    and "drv_flash_wait_operation_done bus timeout polling operation bmask value s = Some (FLASH_DEVICE_DONE, s')"
    and "operation = OTHER_OPERATION \<or> poll_stable bus (fl_config s) R"
    and "\<And>d b bs d'. reg_read bus READ_STATUS_CMD 1 d = (b # bs, d') \<Longrightarrow> b AND bmask = value \<Longrightarrow> R d'"
    and "\<And>d. fst (reg_read bus READ_STATUS_CMD 1 d) \<noteq> []"
  shows "R (fl_dev s')"
proof -
  have "unat timeout = (unat timeout div unat polling) * unat polling" using assms(1) by (simp add: mod_eq_0_iff_dvd)
  then show ?thesis
    by (rule wait_loop_hit [OF _ _ assms(2) [unfolded drv_flash_wait_operation_done_def] assms(3)])
      (use assms(1,4,5) in blast)+
qed

section \<open>Operations that return\<close>

text \<open>The call returns, keeps the driver's variables and leaves the chip in \<open>Q\<close>.\<close>

definition returns :: "'d flash \<Rightarrow> 'd flash_result \<Rightarrow> ('d \<Rightarrow> bool) \<Rightarrow> bool" where
  "returns s r Q \<longleftrightarrow> (\<exists>st s'. r = Some (st, s') \<and> same_drv s s' \<and> Q (fl_dev s'))"

lemma returns_Some [simp]: "returns s (Some (st, s')) Q \<longleftrightarrow> same_drv s s' \<and> Q (fl_dev s')"
  by (simp add: returns_def)

lemma returns_bind:
  assumes "returns s m Q" and "\<And>st t. m = Some (st, t) \<Longrightarrow> same_drv s t \<Longrightarrow> Q (fl_dev t) \<Longrightarrow> returns t (f (st, t)) R"
  shows "returns s (m \<bind> f) R"
proof -
  obtain st t where t: "m = Some (st, t)" "same_drv s t" "Q (fl_dev t)" using assms(1) by (auto simp: returns_def)
  from assms(2) [OF t] show ?thesis by (auto simp: returns_def t(1) intro: same_drv_trans [OF t(2)])
qed

lemma returns_from:
  assumes "returns t r Q" and "same_drv s t"
  shows "returns s r Q"
  using assms by (auto simp: returns_def intro: same_drv_trans)

definition timing_ok :: "u32 \<Rightarrow> u32 \<Rightarrow> bool" where
  "timing_ok timeout polling \<longleftrightarrow> polling \<noteq> 0 \<and> unat timeout mod unat polling = 0"

lemma timings:
  "timing_ok READ_STATUS_TIMEOUT READ_STATUS_POLLING_USEC"
  "timing_ok WRITE_TIMEOUT WRITE_STATUS_POLLING_USEC"
  "timing_ok ERASE_TIMEOUT (ERASE_STATUS_POLLING_MSEC * 1000)"
  "timing_ok CHIP_ERASE_TIMEOUT (CHIP_ERASE_STATUS_POLLING_MSEC * 1000)"
  by (simp_all add: timing_ok_def READ_STATUS_TIMEOUT_def READ_STATUS_POLLING_USEC_def WRITE_TIMEOUT_def
      WRITE_STATUS_POLLING_USEC_def ERASE_TIMEOUT_def ERASE_STATUS_POLLING_MSEC_def CHIP_ERASE_TIMEOUT_def
      CHIP_ERASE_STATUS_POLLING_MSEC_def)

lemma wait_returns:
  assumes "timing_ok timeout polling" and "op_ok operation s" and "poll_stable bus (fl_config s) Q" and "Q (fl_dev s)"
  shows "returns s (drv_flash_wait_operation_done bus timeout polling operation bmask value s) Q"
proof -
  have "unat timeout = (unat timeout div unat polling) * unat polling"
    using assms(1) by (simp add: timing_ok_def mod_eq_0_iff_dvd)
  from wait_loop_returns [OF this _ assms(2-4)] show ?thesis
    using assms(1) by (simp add: returns_def drv_flash_wait_operation_done_def timing_ok_def)
qed

lemma wait_not_busy_returns:
  "poll_stable bus (fl_config s) Q \<Longrightarrow> Q (fl_dev s) \<Longrightarrow> returns s (wait_not_busy bus s) Q"
  unfolding wait_not_busy_def by (rule wait_returns [OF timings(1)]) (simp_all add: op_ok_def)

lemma run_plain_dev: "run_plain bus opcode s = s\<lparr>fl_dev := snd (qb_transact bus (reg_cmd opcode False) 0 Xfer_none (fl_dev s))\<rparr>"
  by (simp add: run_plain_def run_reg_cmd)

lemma write_enable_returns:
  assumes "poll_stable bus (fl_config s) Q"
    and "Q (snd (qb_transact bus (reg_cmd WRITE_ENABLE_CMD False) 0 Xfer_none (fl_dev s)))"
  shows "returns s (drv_flash_write_enable bus s) Q"
  unfolding drv_flash_write_enable_def
  by (rule returns_from [OF wait_returns [OF timings(1)]]) (use assms in \<open>simp_all add: op_ok_def run_plain_dev\<close>)

lemma write_reg_returns: "returns s (drv_flash_write_reg_internal bus opcode len v s) (\<lambda>d. True)"
proof -
  have "returns s (drv_flash_write_enable bus s \<bind> (\<lambda>(status, s).
        if status \<noteq> FLASH_DEVICE_DONE then Some (status, s)
        else case drv_qspi_run_cmd bus (reg_cmd opcode True) 0
                    (case v of Some bs \<Rightarrow> if len = 0 then Xfer_none else Xfer_out (take (unat len) bs)
                                     | None \<Rightarrow> Xfer_none) s of
          (ok, _, s) \<Rightarrow> Some (if ok then FLASH_DEVICE_DONE else FLASH_DEVICE_FAIL, s))) (\<lambda>d. True)"
    by (rule returns_bind [OF write_enable_returns [OF poll_stable_True]]) (simp_all add: run_reg_cmd)
  then show ?thesis by (simp add: drv_flash_write_reg_internal_def)
qed

lemma write_reg_wait_returns:
  "returns s (drv_flash_write_reg_internal bus opcode len v s \<bind> (\<lambda>(status, s).
       if status \<noteq> FLASH_DEVICE_DONE then Some (status, s) else wait_not_busy bus s)) (\<lambda>d. True)"
  by (rule returns_bind [OF write_reg_returns]) (simp add: wait_not_busy_returns poll_stable_True)

lemma quad_mode_returns: "returns s (drv_flash_enable_quad_mode bus m s) (\<lambda>d. True)"
proof -
  have w: "returns s (drv_flash_write_reg_internal bus opcode len v (s\<lparr>fl_dev := d\<rparr>) \<bind> (\<lambda>(status, s).
       if status \<noteq> FLASH_DEVICE_DONE then Some (status, s) else wait_not_busy bus s)) (\<lambda>d. True)" for opcode len v d
    by (rule returns_from [OF write_reg_wait_returns]) simp
  show ?thesis
    using w by (simp add: drv_flash_enable_quad_mode_def drv_flash_enable_quad_mode145_def drv_flash_enable_quad_mode2_def
        drv_flash_enable_quad_mode3_def read_reg1_eq)
qed

lemma clear_bits_returns: "returns s (drv_flash_clear_spi_bits bus r w m s) (\<lambda>d. True)"
proof -
  let ?cont = "\<lambda>(status, s). if status \<noteq> FLASH_DEVICE_DONE then Some (status, s)
        else do {
          (status, s) \<leftarrow> wait_not_busy bus s;
          if status \<noteq> FLASH_DEVICE_DONE then Some (status, s)
          else case read_reg1 bus r 0 s of (status, read_back, s) \<Rightarrow>
            if read_back AND m \<noteq> 0 \<or> status \<noteq> FLASH_DEVICE_DONE then Some (FLASH_DEVICE_FAIL, s)
            else Some (status, s)
        }"
  have "returns t (?cont (st, t)) (\<lambda>d. True)" for st t
    by (auto intro!: returns_bind [OF wait_not_busy_returns [OF poll_stable_True]] simp: read_reg1_eq)
  then have w: "returns t (drv_flash_write_reg_internal bus w 1 v t \<bind> ?cont) (\<lambda>d. True)" for v t
    by (intro returns_bind [OF write_reg_returns])
  show ?thesis
    using returns_from [OF w] by (simp add: drv_flash_clear_spi_bits_def read_reg1_eq)
qed

lemma clear_bits_list_returns: "returns s (drv_flash_clear_spi_bits_list bus xs s) (\<lambda>d. True)"
proof (induction xs arbitrary: s)
  case (Cons x xs)
  obtain r w m where x: "x = (r, w, m)" by (cases x)
  show ?case unfolding x drv_flash_clear_spi_bits_list.simps
    by (rule returns_bind [OF clear_bits_returns]) (simp add: Cons.IH)
qed simp

lemma clear_protection_returns:
  "fl_config s = Some c \<Longrightarrow> returns s (drv_flash_clear_write_protection bus s) (\<lambda>d. True)"
  by (simp add: drv_flash_clear_write_protection_def Let_def clear_bits_list_returns clear_bits_returns
      del: drv_flash_clear_spi_bits_list.simps)

lemma high_performance_returns:
  "fl_config s = Some c \<Longrightarrow> returns s (drv_flash_set_high_performance bus s) (\<lambda>d. True)"
  by (simp add: returns_from [OF write_reg_wait_returns] drv_flash_set_high_performance_def read_reg1_eq drv_flash_read_reg_internal_def run_reg_cmd Let_def)

lemma init_device_returns:
  assumes "fl_config s = Some c"
  shows "\<exists>st s'. init_device bus s = Some (st, s') \<and> fl_config s' = Some c \<and> fl_state s' = fl_state s
       \<and> (if st = FLASH_DEVICE_DONE then fl_init_done s' \<and> list_all VALID_RW_MODE (rw_modes_of c)
          else fl_init_done s' = fl_init_done s)"
proof -
  obtain st1 s1 where 1: "drv_flash_clear_write_protection bus s = Some (st1, s1)" "same_drv s s1"
    using clear_protection_returns [OF assms, of bus] by (auto simp: returns_def)
  have c1: "fl_config s1 = Some c" using 1(2) assms by (simp add: same_drv_def)
  obtain st2 s2 where 2: "(if fc_high_performance_mode_bmask c \<noteq> 0 then drv_flash_set_high_performance bus s1
      else Some (FLASH_DEVICE_DONE, s1)) = Some (st2, s2)" "same_drv s1 s2"
    using high_performance_returns [OF c1, of bus] by (cases "fc_high_performance_mode_bmask c = 0") (auto simp: returns_def)
  obtain st3 s3 where 3: "(if qb_quad_support bus \<and> list_ex IS_QUAD_MODE (rw_modes_of c)
      then drv_flash_enable_quad_mode bus (fc_quad_enable_mode c) s2 else Some (FLASH_DEVICE_DONE, s2)) = Some (st3, s3)"
      "same_drv s2 s3"
    using quad_mode_returns [of s2 bus "fc_quad_enable_mode c"]
    by (cases "qb_quad_support bus \<and> list_ex IS_QUAD_MODE (rw_modes_of c)") (auto simp: returns_def)
  obtain st4 s4 where 4: "(if fc_addr_bytes c = 4 \<and> fc_density_in_blocks c * BLOCK_SIZE_IN_BYTES > FLASH_16MB_IN_BYTES
      then drv_flash_write_reg_internal bus ENTER_4B_ADDR_CMD 0 None s3 else Some (FLASH_DEVICE_DONE, s3)) = Some (st4, s4)"
      "same_drv s3 s4"
    using write_reg_returns [of s3 bus ENTER_4B_ADDR_CMD 0 None]
    by (cases "fc_addr_bytes c = 4 \<and> fc_density_in_blocks c * BLOCK_SIZE_IN_BYTES > FLASH_16MB_IN_BYTES") (auto simp: returns_def)
  have e: "same_drv s s1" "same_drv s s2" "same_drv s s3" "same_drv s s4"
    using 1(2) 2(2) 3(2) 4(2) by (auto intro: same_drv_trans)
  show ?thesis
    unfolding init_device_def 1(1) bind.bind_lunit c1 2(1) using e assms
    by (auto simp: same_drv_def 3(1) 4(1) c1 2(1) simp del: split_paired_Ex)
qed

lemma write_page_returns:
  assumes "fl_config s = Some c'"
  shows "returns s (write_page bus c cb a bs s) (\<lambda>d. True)"
  unfolding write_page_def
proof (rule returns_bind [OF write_enable_returns [OF poll_stable_True]])
  fix st t assume t: "same_drv s t"
  have d: "same_drv t (if cb then t else snd (snd (drv_qspi_run_cmd bus (page_write_cmd c) a (Xfer_out bs) t)))"
    by (simp add: drv_qspi_run_cmd_def split: prod.split)
  show "returns t (case (st, t) of (status, s) \<Rightarrow> if status \<noteq> FLASH_DEVICE_DONE then Some (status, s)
      else let s = if cb then s else snd (snd (drv_qspi_run_cmd bus (page_write_cmd c) a (Xfer_out bs) s))
           in drv_flash_wait_operation_done bus WRITE_TIMEOUT WRITE_STATUS_POLLING_USEC WRITE_OPERATION
                PROG_ERASE_WRITE_BUSY_BMSK 0 s) (\<lambda>d. True)"
    using returns_from [OF wait_returns [OF timings(2) _ poll_stable_True] d] t assms same_drv_config [OF d]
    by (auto simp: Let_def op_ok_def same_drv_def)
qed simp

lemma write_loop_returns:
  assumes "fl_config s = Some c'"
  shows "returns s (write_loop bus c cb a n buf s) (\<lambda>d. True)"
  using assms
proof (induction bus c cb a n buf s rule: write_loop.induct)
  case (1 bus c cb a n buf s)
  show ?case
  proof (cases "n = 0")
    case True
    then show ?thesis by (subst write_loop.simps) simp
  next
    case False
    show ?thesis
      unfolding write_loop.simps [of bus c cb a n] Let_def if_not_P [OF False]
    proof (rule returns_bind [OF write_page_returns [OF 1(2)]])
      fix st t assume m: "write_page bus c cb a (take (unat (transfer_size a n)) buf) s = Some (st, t)"
        and t: "same_drv s t"
      have "fl_config t = Some c'" using same_drv_config [OF t] 1(2) by simp
      then show "returns t (case (st, t) of (status, s) \<Rightarrow> if status \<noteq> FLASH_DEVICE_DONE then Some (status, s)
          else write_loop bus c cb (a + transfer_size a n) (n - transfer_size a n) (drop (unat (transfer_size a n)) buf) s) (\<lambda>d. True)"
        using 1(1) [OF False refl, of "(st, t)" st t] m by simp
    qed
  qed
qed

lemma erase_one_returns:
  assumes "fl_config s = Some c'" and "timing_ok timeout (polling * 1000)"
  shows "returns s (erase_one bus cmd timeout polling a s) (\<lambda>d. True)"
  unfolding erase_one_def
proof (rule returns_bind [OF write_enable_returns [OF poll_stable_True]])
  fix st t assume t: "same_drv s t"
  have d: "same_drv t (snd (snd (drv_qspi_run_cmd bus cmd a Xfer_none t)))"
    by (simp add: drv_qspi_run_cmd_def split: prod.split)
  show "returns t (case (st, t) of (status, s) \<Rightarrow> if status \<noteq> FLASH_DEVICE_DONE then Some (status, s)
      else let s = snd (snd (drv_qspi_run_cmd bus cmd a Xfer_none s))
           in drv_flash_wait_operation_done bus timeout (polling * 1000) ERASE_OPERATION PROG_ERASE_WRITE_BUSY_BMSK 0 s) (\<lambda>d. True)"
    using returns_from [OF wait_returns [OF assms(2) _ poll_stable_True] d] t assms(1) same_drv_config [OF d]
    by (auto simp: Let_def op_ok_def same_drv_def)
qed simp

lemma erase_loop_returns:
  assumes "fl_config s = Some c'" and "timing_ok timeout (polling * 1000)"
  shows "returns s (erase_loop bus cmd timeout polling sz n a s) (\<lambda>d. True)"
  using assms(1)
proof (induction n arbitrary: a s)
  case (Suc n)
  show ?case unfolding erase_loop.simps
  proof (rule returns_bind [OF erase_one_returns [OF Suc.prems assms(2)]])
    fix st t assume "same_drv s t"
    then have "fl_config t = Some c'" using same_drv_config Suc.prems by metis
    then show "returns t (case (st, t) of (status, s) \<Rightarrow> if status \<noteq> FLASH_DEVICE_DONE then Some (status, s)
        else erase_loop bus cmd timeout polling sz n (a + sz) s) (\<lambda>d. True)"
      using Suc.IH by simp
  qed
qed simp

lemma erase_params_timing:
  "erase_params c ty = Some (sz, opcode, ab, timeout, polling) \<Longrightarrow> timing_ok timeout (polling * 1000)"
  using timings(3,4) by (auto simp: erase_params_def split: flash_erase_type.splits if_splits)

lemma drv_flash_init_returns: "\<exists>st s'. drv_flash_init bus s = Some (st, s')"
proof -
  have "\<exists>st s'. init_device bus t = Some (st, s')" if "fl_config t = Some c" for t c
    using init_device_returns [OF that, of bus] by blast
  then show ?thesis
    by (auto simp: drv_flash_init_def drv_flash_controller_init_def drv_flash_info_init_def Let_def
        drv_flash_read_reg_internal_def run_reg_cmd split: option.split)
qed

end
