(* ===== verification/Flash_Props.thy ===== *)
theory Flash_Props
  imports Flash_Correct
begin

text \<open>
  The properties of the flash driver: its operations return; on a NOR chip writes and
  erases change exactly the requested range and a read gives back what was written; the
  range checks; the outcome of the initialisation and the table of devices.
\<close>

section \<open>The chip\<close>

text \<open>What programming and erasing do to the contents of a NOR array.\<close>

definition program :: "(u32 \<Rightarrow> u8) \<Rightarrow> u32 \<Rightarrow> bytes \<Rightarrow> u32 \<Rightarrow> u8" where
  "program m a bs x = (if unat (x - a) < length bs then m x AND bs ! unat (x - a) else m x)"

definition erased :: "(u32 \<Rightarrow> u8) \<Rightarrow> u32 \<Rightarrow> nat \<Rightarrow> u32 \<Rightarrow> u8" where
  "erased m a n x = (if unat (x - a) < n then 0xFF else m x)"

abbreviation page_read_cmd :: "flash_config_data \<Rightarrow> qspi_cmd" where
  "page_read_cmd c \<equiv> drv_qspi_prepare_cmd (fc_read_opcode c) (fc_addr_bytes c) (fc_read_wait_state c)
     (fc_read_cmd_mode c) (fc_read_addr_mode c) (fc_read_data_mode c) False"

text \<open>
  The documented behaviour of the commands. \<open>content\<close> is the array as it stands once a
  running cycle has ended, \<open>wel\<close> the write-enable latch and \<open>busy\<close> the write-in-progress
  bit. A program inside one page and an aligned erase are accepted only by an idle chip with
  the latch set; they clear bits, or set the block to ones, and may leave the chip busy for
  any time. A busy chip promises nothing about write-enable, program, erase and array reads:
  it answers register reads, which leave the array alone, show the latch and the
  write-in-progress bit in the status register, and, like waiting, never make an idle chip busy.
  An idle chip takes the write-enable and returns the array when read, and stays idle.
\<close>

definition nor_chip ::
    "'d qspi_bus \<Rightarrow> flash_config_data \<Rightarrow> ('d \<Rightarrow> u32 \<Rightarrow> u8) \<Rightarrow> ('d \<Rightarrow> bool) \<Rightarrow> ('d \<Rightarrow> bool) \<Rightarrow> bool" where
  "nor_chip bus c content wel busy \<longleftrightarrow>
     (\<forall>r \<in> {READ_STATUS_CMD, fc_write_err_status_reg c, fc_erase_err_status_reg c}. \<forall>d.
        content (snd (reg_read bus r 1 d)) = content d \<and> (busy (snd (reg_read bus r 1 d)) \<longrightarrow> busy d))
     \<and> (\<forall>d. \<exists>b bs d'. reg_read bus READ_STATUS_CMD 1 d = (b # bs, d') \<and> wel d' = (b AND STATUS_WR_EN_MASK = STATUS_WR_EN_MASK)
          \<and> busy d' = (b AND PROG_ERASE_WRITE_BUSY_BMSK \<noteq> 0))
     \<and> (\<forall>t d. content (qb_delay bus t d) = content d \<and> (busy (qb_delay bus t d) \<longrightarrow> busy d))
     \<and> (\<forall>d. \<not> busy d \<longrightarrow> content (snd (qb_transact bus (reg_cmd WRITE_ENABLE_CMD False) 0 Xfer_none d)) = content d
          \<and> \<not> busy (snd (qb_transact bus (reg_cmd WRITE_ENABLE_CMD False) 0 Xfer_none d)))
     \<and> (\<forall>d a bs. wel d \<longrightarrow> \<not> busy d \<longrightarrow> unat a mod 256 + length bs \<le> 256 \<longrightarrow>
          content (snd (qb_transact bus (page_write_cmd c) a (Xfer_out bs) d)) = program (content d) a bs)
     \<and> (\<forall>d ty a sz op ab tm pl. wel d \<longrightarrow> \<not> busy d \<longrightarrow> erase_params c ty = Some (sz, op, ab, tm, pl) \<longrightarrow> unat a mod unat sz = 0 \<longrightarrow>
          content (snd (qb_transact bus (erase_cmd op ab) a Xfer_none d)) = erased (content d) a (unat sz))
     \<and> (\<forall>d a n. \<not> busy d \<longrightarrow> fst (qb_transact bus (page_read_cmd c) a (Xfer_in n) d) = mem_read (content d) a n
          \<and> content (snd (qb_transact bus (page_read_cmd c) a (Xfer_in n) d)) = content d
          \<and> \<not> busy (snd (qb_transact bus (page_read_cmd c) a (Xfer_in n) d)))"

lemmas nor_laws = nor_chip_def [THEN iffD1]
lemmas nor_regs = nor_laws [THEN conjunct1, rule_format]
lemmas nor_status = nor_laws [THEN conjunct2, THEN conjunct1, rule_format]
lemmas nor_delay = nor_laws [THEN conjunct2, THEN conjunct2, THEN conjunct1, rule_format]
lemmas nor_enable = nor_laws [THEN conjunct2, THEN conjunct2, THEN conjunct2, THEN conjunct1, rule_format]
lemmas nor_program = nor_laws [THEN conjunct2, THEN conjunct2, THEN conjunct2, THEN conjunct2, THEN conjunct1, rule_format]
lemmas nor_erase = nor_laws [THEN conjunct2, THEN conjunct2, THEN conjunct2, THEN conjunct2, THEN conjunct2, THEN conjunct1, rule_format]
lemmas nor_read = nor_laws [THEN conjunct2, THEN conjunct2, THEN conjunct2, THEN conjunct2, THEN conjunct2, THEN conjunct2, rule_format]

lemma nor_poll_stable:
  assumes "nor_chip bus c content wel busy"
  shows "poll_stable bus (Some c) (\<lambda>d. content d = m)" and "poll_stable bus (Some c) (\<lambda>d. \<not> busy d)"
    and "poll_stable bus (Some c) (\<lambda>d. content d = m \<and> \<not> busy d)"
proof -
  note r = nor_regs [OF assms] and d = nor_delay [OF assms]
  have "content (snd (reg_read bus x 1 d)) = content d" "busy (snd (reg_read bus x 1 d)) \<Longrightarrow> busy d"
    if "x = READ_STATUS_CMD \<or> x = fc_write_err_status_reg c \<or> x = fc_erase_err_status_reg c" for x d
    using r [of x d] that by auto
  then show "poll_stable bus (Some c) (\<lambda>d. content d = m)" "poll_stable bus (Some c) (\<lambda>d. \<not> busy d)"
    "poll_stable bus (Some c) (\<lambda>d. content d = m \<and> \<not> busy d)"
    unfolding poll_stable_def using d by auto
qed

lemma nor_status_shows:
  assumes "nor_chip bus c content wel busy"
  shows "reg_read bus READ_STATUS_CMD 1 d = (b # bs, d') \<Longrightarrow> b AND STATUS_WR_EN_MASK = STATUS_WR_EN_MASK \<Longrightarrow> wel d'"
    and "reg_read bus READ_STATUS_CMD 1 d = (b # bs, d') \<Longrightarrow> b AND PROG_ERASE_WRITE_BUSY_BMSK = 0 \<Longrightarrow> \<not> busy d'"
    and "fst (reg_read bus READ_STATUS_CMD 1 d) \<noteq> []"
proof -
  obtain b' bs' e where e: "reg_read bus READ_STATUS_CMD 1 d = (b' # bs', e)"
    "wel e = (b' AND STATUS_WR_EN_MASK = STATUS_WR_EN_MASK)" "busy e = (b' AND PROG_ERASE_WRITE_BUSY_BMSK \<noteq> 0)"
    using nor_status [OF assms, of d] by blast
  show "fst (reg_read bus READ_STATUS_CMD 1 d) \<noteq> []" unfolding e(1) by simp
  assume "reg_read bus READ_STATUS_CMD 1 d = (b # bs, d')"
  then have "b' = b" "e = d'" using e(1) by simp_all
  then show "b AND STATUS_WR_EN_MASK = STATUS_WR_EN_MASK \<Longrightarrow> wel d'" "b AND PROG_ERASE_WRITE_BUSY_BMSK = 0 \<Longrightarrow> \<not> busy d'"
    using e(2,3) by simp_all
qed

lemma nor_write_enable:
  assumes "nor_chip bus c content wel busy" and "fl_config s = Some c" and "\<not> busy (fl_dev s)"
    and "drv_flash_write_enable bus s = Some (st, s')"
  shows "content (fl_dev s') = content (fl_dev s)" and "st = FLASH_DEVICE_DONE \<Longrightarrow> wel (fl_dev s')"
    and "\<not> busy (fl_dev s')" and "same_drv s s'"
proof -
  have "returns s (drv_flash_write_enable bus s) (\<lambda>d. content d = content (fl_dev s) \<and> \<not> busy d)"
    by (rule write_enable_returns) (use nor_poll_stable(3) [OF assms(1)] nor_enable [OF assms(1,3)] assms(2) in simp_all)
  then show "content (fl_dev s') = content (fl_dev s)" "\<not> busy (fl_dev s')" "same_drv s s'"
    using assms(4) by (simp_all add: returns_def)
  assume "st = FLASH_DEVICE_DONE"
  then have w: "drv_flash_wait_operation_done bus READ_STATUS_TIMEOUT READ_STATUS_POLLING_USEC OTHER_OPERATION STATUS_WR_EN_MASK
      STATUS_WR_EN_MASK (run_plain bus WRITE_ENABLE_CMD s) = Some (FLASH_DEVICE_DONE, s')"
    using assms(4) by (simp add: drv_flash_write_enable_def)
  show "wel (fl_dev s')"
    by (rule wait_done_hit [OF timings(1) [unfolded timing_ok_def] w])
      (use nor_status_shows(1,3) [OF assms(1)] in \<open>simp_all\<close>)
qed

text \<open>A wait keeps the array; when it reports success on the write-in-progress bit, the chip is idle.\<close>

lemma nor_wait:
  assumes "nor_chip bus c content wel busy" and "fl_config s = Some c" and "timing_ok timeout polling"
    and "drv_flash_wait_operation_done bus timeout polling operation PROG_ERASE_WRITE_BUSY_BMSK 0 s = Some (st, s')"
  shows "content (fl_dev s') = content (fl_dev s)" and "same_drv s s'"
    and "st = FLASH_DEVICE_DONE \<Longrightarrow> \<not> busy (fl_dev s')"
proof -
  have "returns s (drv_flash_wait_operation_done bus timeout polling operation PROG_ERASE_WRITE_BUSY_BMSK 0 s) (\<lambda>d. content d = content (fl_dev s))"
    by (rule wait_returns [OF assms(3)]) (use assms(2) nor_poll_stable(1) [OF assms(1)] in \<open>simp_all add: op_ok_def\<close>)
  then show "content (fl_dev s') = content (fl_dev s)" "same_drv s s'" using assms(4) by (simp_all add: returns_def)
  assume "st = FLASH_DEVICE_DONE"
  note w = assms(4) [unfolded this]
  show "\<not> busy (fl_dev s')"
    by (rule wait_done_hit [OF assms(3) [unfolded timing_ok_def] w])
      (use nor_status_shows(2,3) [OF assms(1)] nor_poll_stable(2) [OF assms(1)] assms(2) in \<open>simp_all\<close>)
qed

lemma write_page_done:
  assumes nor: "nor_chip bus c content wel busy" and cfg: "fl_config s = Some c" and ab: "fc_addr_bytes c \<le> 4"
    and idle: "\<not> busy (fl_dev s)" and page: "unat a mod 256 + length bs \<le> 256"
    and run: "write_page bus c False a bs s = Some (FLASH_DEVICE_DONE, s')"
  shows "content (fl_dev s') = program (content (fl_dev s)) a bs" and "same_drv s s'" and "\<not> busy (fl_dev s')"
proof -
  obtain st1 s1 where 1: "drv_flash_write_enable bus s = Some (st1, s1)"
    using run by (cases "drv_flash_write_enable bus s") (auto simp: write_page_def)
  then have st1: "st1 = FLASH_DEVICE_DONE" using run by (auto simp: write_page_def split: if_splits)
  note we = nor_write_enable [OF nor cfg idle 1]
  let ?s2 = "snd (snd (drv_qspi_run_cmd bus (page_write_cmd c) a (Xfer_out bs) s1))"
  have "\<not> fc_addr_bytes c > 4" using ab by simp
  then have s2: "?s2 = s1\<lparr>fl_dev := snd (qb_transact bus (page_write_cmd c) a (Xfer_out bs) (fl_dev s1))\<rparr>"
    by (simp add: drv_qspi_run_cmd_def page_write_cmd_def drv_qspi_prepare_cmd_def split: prod.split)
  have "content (snd (qb_transact bus (page_write_cmd c) a (Xfer_out bs) (fl_dev s1))) = program (content (fl_dev s1)) a bs"
    by (rule nor_program [OF nor we(2) [OF st1] we(3) page])
  then have c2: "content (fl_dev ?s2) = program (content (fl_dev s)) a bs" using we(1) s2 by simp
  have cfg2: "fl_config ?s2 = Some c" using s2 we(4) cfg by (simp add: same_drv_def)
  have w: "drv_flash_wait_operation_done bus WRITE_TIMEOUT WRITE_STATUS_POLLING_USEC WRITE_OPERATION PROG_ERASE_WRITE_BUSY_BMSK 0 ?s2
      = Some (FLASH_DEVICE_DONE, s')"
    using run st1 by (simp add: write_page_def 1)
  note nw = nor_wait [OF nor cfg2 timings(2) w]
  show "content (fl_dev s') = program (content (fl_dev s)) a bs" using nw(1) c2 by simp
  show "\<not> busy (fl_dev s')" by (rule nw(3) [OF refl])
  have "same_drv s1 ?s2" by (simp add: s2)
  then show "same_drv s s'" using nw(2) we(4) same_drv_trans by blast
qed

section \<open>Writing and erasing a NOR chip\<close>

lemma transfer_in_page: "unat a mod 256 + unat (transfer_size a n) \<le> 256"
proof -
  have m: "unat (a mod PAGE_SIZE_IN_BYTES) = unat a mod 256"
    by (simp add: PAGE_SIZE_IN_BYTES_def unat_mod_distrib)
  have p: "unat (PAGE_SIZE_IN_BYTES - a mod PAGE_SIZE_IN_BYTES) = 256 - unat a mod 256"
    by (subst unat_sub) (simp_all add: m [unfolded PAGE_SIZE_IN_BYTES_def] word_le_nat_alt PAGE_SIZE_IN_BYTES_def less_imp_le)
  show ?thesis
  proof (cases "a mod PAGE_SIZE_IN_BYTES = 0")
    case True
    then have "unat a mod 256 = 0" using m by simp
    then show ?thesis using True by (simp add: transfer_size_def word_less_nat_alt PAGE_SIZE_IN_BYTES_def)
  next
    case False
    then have "unat (transfer_size a n) \<le> 256 - unat a mod 256"
      by (auto simp: transfer_size_def Let_def p word_less_nat_alt)
    moreover have "unat a mod 256 < 256" by simp
    ultimately show ?thesis by linarith
  qed
qed

lemma unat_diff_offset:
  assumes "n < 2 ^ 32"
  shows "unat (x - (a + of_nat n) :: u32) =
    (if n \<le> unat (x - a) then unat (x - a) - n else unat (x - a) + 2 ^ 32 - n)"
proof -
  have e: "x - (a + of_nat n) = (x - a) - of_nat n" by simp
  have "unat (of_nat n :: u32) = n" using assms by (simp add: unat_of_nat)
  then have "unat (d - of_nat n :: u32) = (if n \<le> unat d then unat d - n else unat d + 2 ^ 32 - n)" for d
    by (simp add: unat_sub_if')
  then show ?thesis unfolding e .
qed

lemma program_append:
  assumes "length xs + length ys < 2 ^ 32"
  shows "program (program m a xs) (a + of_nat (length xs)) ys = program m a (xs @ ys)"
proof
  fix x show "program (program m a xs) (a + of_nat (length xs)) ys x = program m a (xs @ ys) x"
    using assms unat_diff_offset [of "length xs" x a] by (auto simp: program_def nth_append)
qed

lemma program_Nil [simp]: "program m a [] = m"
  by (rule ext) (simp add: program_def)

lemma and_ones [simp]: "255 AND (b :: u8) = b"
proof -
  have "(255 :: u8) = - 1" by simp
  then show ?thesis by (metis and.left_neutral)
qed

lemma erased_add:
  assumes "n + k \<le> 2 ^ 32" and "n < 2 ^ 32"
  shows "erased (erased m a n) (a + of_nat n) k = erased m a (n + k)"
proof
  fix x show "erased (erased m a n) (a + of_nat n) k x = erased m a (n + k) x"
    using assms unat_diff_offset [OF assms(2), of x a] by (auto simp: erased_def)
qed

lemma write_loop_done:
  assumes nor: "nor_chip bus c content wel busy" and ab: "fc_addr_bytes c \<le> 4"
    and "fl_config s = Some c" and "unat n \<le> length bs" and "\<not> busy (fl_dev s)"
    and "write_loop bus c False a n bs s = Some (FLASH_DEVICE_DONE, s')"
  shows "content (fl_dev s') = program (content (fl_dev s)) a (take (unat n) bs) \<and> same_drv s s' \<and> \<not> busy (fl_dev s')"
  using assms(3-6)
proof (induction "unat n" arbitrary: a n bs s rule: less_induct)
  case less
  show ?case
  proof (cases "n = 0")
    case True
    then show ?thesis using less.prems(3,4) by (subst (asm) write_loop.simps) simp
  next
    case False
    let ?t = "transfer_size a n"
    let ?p = "take (unat ?t) bs"
    have t: "0 < unat ?t" "unat ?t \<le> unat n"
      using transfer_size_bounds [OF False, of a] by (simp_all add: word_less_nat_alt word_le_nat_alt)
    then have lp: "length ?p = unat ?t" and sub: "unat (n - ?t) = unat n - unat ?t"
      using less.prems(2) by (simp_all add: unat_sub word_le_nat_alt)
    obtain st u where u: "write_page bus c False a ?p s = Some (st, u)"
      using write_page_returns [OF less.prems(1), of bus c False a ?p] by (auto simp: returns_def)
    have "st = FLASH_DEVICE_DONE" and rest: "write_loop bus c False (a + ?t) (n - ?t) (drop (unat ?t) bs) u = Some (FLASH_DEVICE_DONE, s')"
      using less.prems(4) False u by (subst (asm) write_loop.simps; simp add: Let_def split: if_splits)+
    then have pg: "content (fl_dev u) = program (content (fl_dev s)) a ?p" "same_drv s u" "\<not> busy (fl_dev u)"
      using write_page_done [OF nor less.prems(1) ab less.prems(3) _ u [unfolded \<open>st = FLASH_DEVICE_DONE\<close>]] lp transfer_in_page [of a n] by simp_all
    have cu: "fl_config u = Some c" using same_drv_config [OF pg(2)] less.prems(1) by simp
    have "content (fl_dev s') = program (content (fl_dev u)) (a + ?t) (take (unat (n - ?t)) (drop (unat ?t) bs)) \<and> same_drv u s' \<and> \<not> busy (fl_dev s')"
      by (rule less.hyps [OF _ cu _ pg(3) rest]) (use t sub less.prems(2) in simp_all)
    moreover have "program (program m a ?p) (a + ?t) (take (unat (n - ?t)) (drop (unat ?t) bs)) = program m a (take (unat n) bs)" for m
    proof -
      have "length ?p + length (take (unat (n - ?t)) (drop (unat ?t) bs)) < 2 ^ 32"
        using less.prems(2) t sub unsigned_less [of n, where ?'a = nat] by simp
      from program_append [OF this, of m a] show ?thesis
        unfolding lp sub take_add [symmetric] using t(2) by simp
    qed
    ultimately show ?thesis using pg by (simp add: same_drv_trans [OF pg(2)])
  qed
qed

lemma erase_one_done:
  assumes nor: "nor_chip bus c content wel busy" and cfg: "fl_config s = Some c" and ab: "ab \<le> 4" and idle: "\<not> busy (fl_dev s)"
    and par: "erase_params c ty = Some (sz, op, ab, tm, pl)" and al: "unat a mod unat sz = 0"
    and run: "erase_one bus (erase_cmd op ab) tm pl a s = Some (FLASH_DEVICE_DONE, s')"
  shows "content (fl_dev s') = erased (content (fl_dev s)) a (unat sz)" and "same_drv s s'" and "\<not> busy (fl_dev s')"
proof -
  obtain st1 s1 where 1: "drv_flash_write_enable bus s = Some (st1, s1)"
    using run by (cases "drv_flash_write_enable bus s") (auto simp: erase_one_def)
  then have st1: "st1 = FLASH_DEVICE_DONE" using run by (auto simp: erase_one_def split: if_splits)
  note we = nor_write_enable [OF nor cfg idle 1]
  let ?s2 = "snd (snd (drv_qspi_run_cmd bus (erase_cmd op ab) a Xfer_none s1))"
  have s2: "?s2 = s1\<lparr>fl_dev := snd (qb_transact bus (erase_cmd op ab) a Xfer_none (fl_dev s1))\<rparr>"
    using ab by (simp add: drv_qspi_run_cmd_def erase_cmd_def drv_qspi_prepare_cmd_def linorder_not_less split: prod.split)
  have "content (snd (qb_transact bus (erase_cmd op ab) a Xfer_none (fl_dev s1))) = erased (content (fl_dev s1)) a (unat sz)"
    by (rule nor_erase [OF nor we(2) [OF st1] we(3) par al])
  then have c2: "content (fl_dev ?s2) = erased (content (fl_dev s)) a (unat sz)" using we(1) s2 by simp
  have cfg2: "fl_config ?s2 = Some c" using s2 we(4) cfg by (simp add: same_drv_def)
  have w: "drv_flash_wait_operation_done bus tm (pl * 1000) ERASE_OPERATION PROG_ERASE_WRITE_BUSY_BMSK 0 ?s2 = Some (FLASH_DEVICE_DONE, s')"
    using run st1 by (simp add: erase_one_def 1)
  note nw = nor_wait [OF nor cfg2 erase_params_timing [OF par] w]
  show "content (fl_dev s') = erased (content (fl_dev s)) a (unat sz)" using nw(1) c2 by simp
  show "\<not> busy (fl_dev s')" by (rule nw(3) [OF refl])
  have "same_drv s1 ?s2" by (simp add: s2)
  then show "same_drv s s'" using nw(2) we(4) same_drv_trans by blast
qed

lemma erased_0 [simp]: "erased m a 0 = m"
  by (rule ext) (simp add: erased_def)

lemma erase_loop_done:
  assumes nor: "nor_chip bus c content wel busy" and ab: "ab \<le> 4"
    and par: "erase_params c ty = Some (sz, op, ab, tm, pl)" and sz: "0 < unat sz"
    and "fl_config s = Some c" and "unat a mod unat sz = 0" and "unat a + k * unat sz < 2 ^ 32"
    and "\<not> busy (fl_dev s)"
    and "erase_loop bus (erase_cmd op ab) tm pl sz k a s = Some (FLASH_DEVICE_DONE, s')"
  shows "content (fl_dev s') = erased (content (fl_dev s)) a (k * unat sz) \<and> same_drv s s' \<and> \<not> busy (fl_dev s')"
  using assms(5-)
proof (induction k arbitrary: a s)
  case (Suc k)
  obtain st u where u: "erase_one bus (erase_cmd op ab) tm pl a s = Some (st, u)"
    using erase_one_returns [OF Suc.prems(1) erase_params_timing [OF par]] by (fastforce simp: returns_def)
  then have st: "st = FLASH_DEVICE_DONE" and rest: "erase_loop bus (erase_cmd op ab) tm pl sz k (a + sz) u = Some (FLASH_DEVICE_DONE, s')"
    using Suc.prems(5) by (auto split: if_splits)
  have one: "content (fl_dev u) = erased (content (fl_dev s)) a (unat sz)" "same_drv s u" "\<not> busy (fl_dev u)"
    using erase_one_done [OF nor Suc.prems(1) ab Suc.prems(4) par Suc.prems(2)] u st by simp_all
  have a: "unat (a + sz) = unat a + unat sz"
    using Suc.prems(3) by (simp add: unat_word_ariths)
  have "content (fl_dev s') = erased (content (fl_dev u)) (a + sz) (k * unat sz) \<and> same_drv u s' \<and> \<not> busy (fl_dev s')"
    by (rule Suc.IH [OF _ _ _ one(3) rest]) (use a Suc.prems same_drv_config [OF one(2)] in simp_all)
  moreover have "erased (erased m a (unat sz)) (a + sz) (k * unat sz) = erased m a (Suc k * unat sz)" for m
    using erased_add [of "unat sz" "k * unat sz" m a] Suc.prems(3) by simp
  ultimately show ?case using one by (simp add: same_drv_trans [OF one(2)])
qed simp

lemma range_ok_iff:
  assumes "unat density * 4096 < 2 ^ 32"
  shows "\<not> range_bad density a n \<longleftrightarrow> n \<noteq> 0 \<and> unat a + unat n \<le> unat density * 4096"
proof -
  have d: "unat (density * BLOCK_SIZE_IN_BYTES) = unat density * 4096"
    using assms by (simp add: BLOCK_SIZE_IN_BYTES_def unat_word_ariths)
  have "unat (a + n) = (if unat a + unat n < 2 ^ 32 then unat a + unat n else unat a + unat n - 2 ^ 32)"
    using unat_plus_if' [of a n] by simp
  then show ?thesis
    using assms unsigned_less [of a, where ?'a = nat] unsigned_less [of n, where ?'a = nat]
    by (auto simp: range_bad_def word_less_nat_alt d split: if_splits)
qed

lemma drv_flash_write_done:
  assumes "drv_flash_write bus a n (Some bs) cb s = Some (FLASH_DEVICE_DONE, s')" and "fl_config s = Some c"
  obtains t where "write_loop bus c cb a n bs (s\<lparr>fl_state := FLASH_STATE_WRITE\<rparr>) = Some (FLASH_DEVICE_DONE, t)"
    and "s' = t\<lparr>fl_state := 0\<rparr>" and "\<not> range_bad (fc_density_in_blocks c) a n" and "fl_init_done s" and "fl_state s = 0"
  using assms by (auto simp: drv_flash_write_def Let_def split: if_splits option.splits bind_splits)

lemma write_programs:
  assumes nor: "nor_chip bus c content wel busy" and cfg: "fl_config s = Some c" and ab: "fc_addr_bytes c \<le> 4"
    and len: "unat n \<le> length bs" and idle: "\<not> busy (fl_dev s)"
    and run: "drv_flash_write bus a n (Some bs) False s = Some (FLASH_DEVICE_DONE, s')"
  shows "content (fl_dev s') = program (content (fl_dev s)) a (take (unat n) bs)"
    and "same_drv s s'" and "\<not> busy (fl_dev s')" and "\<not> range_bad (fc_density_in_blocks c) a n"
proof -
  obtain t where t: "write_loop bus c False a n bs (s\<lparr>fl_state := FLASH_STATE_WRITE\<rparr>) = Some (FLASH_DEVICE_DONE, t)"
      "s' = t\<lparr>fl_state := 0\<rparr>" "\<not> range_bad (fc_density_in_blocks c) a n" "fl_state s = 0"
    using drv_flash_write_done [OF run cfg] by blast
  have "content (fl_dev t) = program (content (fl_dev (s\<lparr>fl_state := FLASH_STATE_WRITE\<rparr>))) a (take (unat n) bs)
      \<and> same_drv (s\<lparr>fl_state := FLASH_STATE_WRITE\<rparr>) t \<and> \<not> busy (fl_dev t)"
    by (rule write_loop_done [OF nor ab _ len _ t(1)]) (simp_all add: cfg idle)
  then show "content (fl_dev s') = program (content (fl_dev s)) a (take (unat n) bs)" "same_drv s s'" "\<not> busy (fl_dev s')"
    using t by (simp_all add: same_drv_def)
  show "\<not> range_bad (fc_density_in_blocks c) a n" by (rule t(3))
qed

lemma drv_flash_erase_done:
  assumes "drv_flash_erase bus ty start k s = Some (FLASH_DEVICE_DONE, s')" and "fl_config s = Some c"
  obtains sz op ab tm pl t where "erase_params c ty = Some (sz, op, ab, tm, pl)"
    and "erase_loop bus (erase_cmd op ab) tm pl sz (unat k) (start * sz) (s\<lparr>fl_state := FLASH_STATE_ERASE\<rparr>) = Some (FLASH_DEVICE_DONE, t)"
    and "s' = t\<lparr>fl_state := 0\<rparr>" and "\<not> erase_range_bad (fc_density_in_blocks c) sz start k" and "fl_init_done s" and "fl_state s = 0"
  using assms by (auto simp: drv_flash_erase_def Let_def split: if_splits option.splits bind_splits)

lemma erase_erases:
  assumes nor: "nor_chip bus c content wel busy" and cfg: "fl_config s = Some c" and ab: "fc_addr_bytes c \<le> 4"
    and par: "erase_params c ty = Some (sz, op, ab, tm, pl)" and sz: "0 < unat sz"
    and fits: "(unat start + unat k) * unat sz < 2 ^ 32"
    and idle: "\<not> busy (fl_dev s)"
    and run: "drv_flash_erase bus ty start k s = Some (FLASH_DEVICE_DONE, s')"
  shows "content (fl_dev s') = erased (content (fl_dev s)) (start * sz) (unat k * unat sz)" and "same_drv s s'" and "\<not> busy (fl_dev s')"
proof -
  obtain t where t: "erase_loop bus (erase_cmd op ab) tm pl sz (unat k) (start * sz) (s\<lparr>fl_state := FLASH_STATE_ERASE\<rparr>) = Some (FLASH_DEVICE_DONE, t)"
      "s' = t\<lparr>fl_state := 0\<rparr>" "fl_state s = 0"
    by (rule drv_flash_erase_done [OF run cfg]) (simp add: par)
  have "unat start * unat sz < 2 ^ 32" by (rule le_less_trans [OF _ fits]) simp
  then have a: "unat (start * sz) = unat start * unat sz" by (simp add: unat_word_ariths)
  have ab4: "ab \<le> 4" using par ab by (auto simp: erase_params_def split: flash_erase_type.splits if_splits)
  have "content (fl_dev t) = erased (content (fl_dev (s\<lparr>fl_state := FLASH_STATE_ERASE\<rparr>))) (start * sz) (unat k * unat sz)
      \<and> same_drv (s\<lparr>fl_state := FLASH_STATE_ERASE\<rparr>) t \<and> \<not> busy (fl_dev t)"
    by (rule erase_loop_done [OF nor ab4 par sz _ _ _ _ t(1)]) (use cfg a fits idle in \<open>simp_all add: distrib_right\<close>)
  then show "content (fl_dev s') = erased (content (fl_dev s)) (start * sz) (unat k * unat sz)" "same_drv s s'" "\<not> busy (fl_dev s')"
    using t by (simp_all add: same_drv_def)
qed

lemma read_returns_array:
  assumes nor: "nor_chip bus c content wel busy" and cfg: "fl_config s = Some c" and ab: "fc_addr_bytes c \<le> 4"
    and ws: "fc_read_wait_state c \<le> 16" and init: "fl_init_done s" "fl_state s = 0" and quiet: "\<not> busy (fl_dev s)"
    and rng: "\<not> range_bad (fc_density_in_blocks c) a n"
  shows "\<exists>d. drv_flash_read bus a n True False s = Some (FLASH_DEVICE_DONE, mem_read (content (fl_dev s)) a (unat n), s\<lparr>fl_dev := d\<rparr>)
       \<and> content d = content (fl_dev s) \<and> \<not> busy d"
proof -
  have r: "fst (qb_transact bus (page_read_cmd c) a (Xfer_in (unat n)) d) = mem_read (content d) a (unat n)"
    "content (snd (qb_transact bus (page_read_cmd c) a (Xfer_in (unat n)) d)) = content d"
    "\<not> busy (snd (qb_transact bus (page_read_cmd c) a (Xfer_in (unat n)) d))" if "\<not> busy d" for d
    using nor_read [OF nor that] by simp_all
  have idle: "s\<lparr>fl_dev := d, fl_state := 0\<rparr> = s\<lparr>fl_dev := d\<rparr>" for d using init(2) by (cases s) simp
  show ?thesis using assms r [OF quiet]
    by (auto simp: drv_flash_read_def drv_qspi_run_cmd_def drv_qspi_prepare_cmd_def linorder_not_less Let_def idle
        split: prod.split)
qed

text \<open>The entry points return and keep the driver's variables.\<close>

lemma drv_flash_write_returns:
  assumes "fl_config s = Some c" and "fl_state s = 0"
  shows "\<exists>st s'. drv_flash_write bus a n buf cb s = Some (st, s') \<and> same_drv s s'"
proof (cases "fl_init_done s \<and> buf \<noteq> None \<and> \<not> range_bad (fc_density_in_blocks c) a n")
  case True
  let ?w = "s\<lparr>fl_state := FLASH_STATE_WRITE\<rparr>"
  have cw: "fl_config ?w = Some c" using assms(1) by simp
  obtain bs where bs: "buf = Some bs" using True by auto
  obtain st s' where "write_loop bus c cb a n bs ?w = Some (st, s')" "same_drv ?w s'"
    using write_loop_returns [OF cw, of bus c cb a n bs] by (auto simp: returns_def)
  then show ?thesis using True assms bs by (simp add: drv_flash_write_def same_drv_def)
next
  case False
  then show ?thesis using assms by (cases buf) (auto simp: drv_flash_write_def same_drv_def)
qed

lemma drv_flash_erase_returns:
  assumes "fl_config s = Some c" and "fl_state s = 0"
  shows "\<exists>st s'. drv_flash_erase bus ty start cnt s = Some (st, s') \<and> same_drv s s'"
proof (cases "fl_init_done s \<and> erase_params c ty \<noteq> None")
  case True
  let ?e = "s\<lparr>fl_state := FLASH_STATE_ERASE\<rparr>"
  have cw: "fl_config ?e = Some c" using assms(1) by simp
  obtain sz opcode ab timeout polling where p: "erase_params c ty = Some (sz, opcode, ab, timeout, polling)"
    using True by (metis not_None_eq prod_cases5)
  obtain st s' where "erase_loop bus (erase_cmd opcode ab) timeout polling sz (unat cnt) (start * sz) ?e = Some (st, s')" "same_drv ?e s'"
    using erase_loop_returns [OF cw erase_params_timing [OF p]] by (fastforce simp: returns_def)
  then show ?thesis using True assms p
    by (cases "erase_range_bad (fc_density_in_blocks c) sz start cnt") (simp_all add: drv_flash_erase_def Let_def same_drv_def)
next
  case False
  then show ?thesis using assms by (cases "erase_params c ty") (auto simp: drv_flash_erase_def Let_def same_drv_def)
qed

lemma drv_flash_read_returns:
  assumes "fl_config s = Some c \<or> \<not> fl_init_done s" and "fl_state s = 0"
  shows "\<exists>st bs s'. drv_flash_read bus a n b cb s = Some (st, bs, s') \<and> same_drv s s'"
  using assms by (auto simp: drv_flash_read_def Let_def same_drv_def drv_qspi_run_cmd_def split: prod.split)

lemma drv_flash_write_reg_returns:
  assumes "fl_state s = 0"
  shows "\<exists>st s'. drv_flash_write_reg bus op len v cb s = Some (st, s') \<and> same_drv s s'"
proof -
  let ?w = "s\<lparr>fl_state := FLASH_STATE_WRITE_REG\<rparr>"
  obtain st t where t: "drv_flash_write_reg_internal bus op len v ?w = Some (st, t)" "same_drv ?w t"
    using write_reg_returns [of ?w bus op len v] by (auto simp: returns_def)
  obtain st' u where "wait_not_busy bus t = Some (st', u)" "same_drv t u"
    using wait_not_busy_returns [OF poll_stable_True, of t bus] by (auto simp: returns_def)
  with t assms show ?thesis by (simp add: drv_flash_write_reg_def same_drv_def)
qed

section \<open>A simulated chip\<close>

text \<open>A GD25WQ32E as its data sheet describes it, for the concrete instances below: the
  array, the write-enable latch and the write-in-progress bit. A program or erase leaves the
  chip busy until the driver next waits; meanwhile every command but the status read is ignored.\<close>

type_synonym demo_chip = "(u32 \<Rightarrow> u8) \<times> bool \<times> bool"

abbreviation demo_wel :: "demo_chip \<Rightarrow> bool" where "demo_wel d \<equiv> fst (snd d)"

abbreviation demo_busy :: "demo_chip \<Rightarrow> bool" where "demo_busy d \<equiv> snd (snd d)"

definition demo_transact :: "qspi_cmd \<Rightarrow> u32 \<Rightarrow> xfer \<Rightarrow> demo_chip \<Rightarrow> bytes \<times> demo_chip" where
  "demo_transact cmd a x d =
     (if qc_opcode cmd = 0x05 then ([if demo_busy d then (if demo_wel d then 3 else 1) else if demo_wel d then 2 else 0], d)
      else if demo_busy d then ([], d)
      else if qc_opcode cmd = 0x06 then ([], (fst d, True, False))
      else if qc_opcode cmd = 0x02 then (case x of Xfer_out bs \<Rightarrow> ([], if demo_wel d then (program (fst d) a bs, False, True) else d) | _ \<Rightarrow> ([], d))
      else if qc_opcode cmd = 0x20 then ([], if demo_wel d then (erased (fst d) a 4096, False, True) else d)
      else if qc_opcode cmd = 0xD8 then ([], if demo_wel d then (erased (fst d) a 65536, False, True) else d)
      else if qc_opcode cmd = 0x60 then ([], if demo_wel d then (erased (fst d) a 4194304, False, True) else d)
      else if qc_opcode cmd = 0xBB then (case x of Xfer_in n \<Rightarrow> (mem_read (fst d) a n, d) | _ \<Rightarrow> ([], d))
      else if qc_opcode cmd = 0x9F then ([0xC8, 0x65, 0x16], d)
      else ([0], d))"

definition demo_bus :: "demo_chip qspi_bus" where
  "demo_bus = \<lparr>qb_transact = demo_transact, qb_init = (\<lambda>_ d. d), qb_delay = (\<lambda>_ d. (fst d, demo_wel d, False)),
     qb_quad_support = False, qb_quad_table = False\<rparr>"

abbreviation demo_cfg :: flash_config_data where "demo_cfg \<equiv> cfg_GD25WQ32E False"

definition demo_flash :: "demo_chip flash" where
  "demo_flash = \<lparr>fl_init_done = True, fl_state = 0, fl_config = Some demo_cfg, fl_clock = 0, fl_dev = (\<lambda>_. 0, False, False)\<rparr>"

lemmas flash_consts = READ_STATUS_CMD_def WRITE_ENABLE_CMD_def STATUS_WR_EN_MASK_def PROG_ERASE_WRITE_BUSY_BMSK_def
  READ_STATUS_BUSY_MASK_def READ_STATUS_TIMEOUT_def READ_STATUS_POLLING_USEC_def WRITE_TIMEOUT_def
  WRITE_STATUS_POLLING_USEC_def ERASE_TIMEOUT_def ERASE_STATUS_POLLING_MSEC_def BLOCK_SIZE_IN_BYTES_def

lemmas flash_ops = drv_flash_write_enable_def drv_flash_wait_operation_done_def drv_flash_check_error_def
  run_plain_def drv_qspi_run_cmd_def reg_cmd_def drv_qspi_prepare_cmd_def read_reg1_def drv_flash_read_reg_internal_def

lemma demo_simps:
  "qb_transact demo_bus = demo_transact" "fc_addr_bytes demo_cfg = 3" "fc_write_opcode demo_cfg = 2"
  "fc_erase_4kb_opcode demo_cfg = 0x20" "fc_density_in_blocks demo_cfg = 1024"
  by (simp_all add: demo_bus_def cfg_GD25WQ32E_def)

lemma demo_nor_chip: "nor_chip demo_bus demo_cfg fst demo_wel demo_busy"
  by (auto simp: nor_chip_def demo_bus_def demo_transact_def flash_consts reg_cmd_def drv_qspi_prepare_cmd_def
      page_write_cmd_def erase_cmd_def erase_params_def cfg_GD25WQ32E_def CHIP_ERASE_TIMEOUT_def CHIP_ERASE_STATUS_POLLING_MSEC_def
      split: flash_erase_type.splits)

lemma demo_write_enable:
  "fl_config s = Some demo_cfg \<Longrightarrow> \<not> demo_busy (fl_dev s) \<Longrightarrow>
     drv_flash_write_enable demo_bus s = Some (FLASH_DEVICE_DONE, s\<lparr>fl_dev := (fst (fl_dev s), True, False)\<rparr>)"
  by (simp add: flash_ops wait_loop.simps [of _ _ _ _ _ "5000000"] flash_consts demo_bus_def demo_transact_def)

lemma demo_wait:
  assumes "fl_config s = Some demo_cfg" and "demo_busy (fl_dev s)" and "timeout \<noteq> 0" and "timeout - polling \<noteq> 0"
  shows "drv_flash_wait_operation_done demo_bus timeout polling operation PROG_ERASE_WRITE_BUSY_BMSK 0 s
    = Some (FLASH_DEVICE_DONE, s\<lparr>fl_dev := (fst (fl_dev s), demo_wel (fl_dev s), False)\<rparr>)"
proof -
  have "wait_loop demo_bus operation PROG_ERASE_WRITE_BUSY_BMSK 0 polling (timeout - polling) r (t\<lparr>fl_dev := (m, w, False)\<rparr>)
      = Some (FLASH_DEVICE_DONE, t\<lparr>fl_dev := (m, w, False)\<rparr>)" if "fl_config t = Some demo_cfg" for r t m w
    using that assms(4)
    by (subst wait_loop.simps)
      (auto simp: flash_ops flash_consts demo_bus_def demo_transact_def cfg_GD25WQ32E_def split: flash_operation.split)
  then show ?thesis unfolding drv_flash_wait_operation_done_def
    using assms
    by (subst wait_loop.simps) (simp add: read_reg1_eq demo_bus_def demo_transact_def flash_consts reg_cmd_def drv_qspi_prepare_cmd_def delay_def)
qed

lemma demo_write_page:
  "fl_config s = Some demo_cfg \<Longrightarrow> \<not> demo_busy (fl_dev s) \<Longrightarrow>
     write_page demo_bus demo_cfg False a bs s = Some (FLASH_DEVICE_DONE, s\<lparr>fl_dev := (program (fst (fl_dev s)) a bs, False, False)\<rparr>)"
  by (simp add: write_page_def demo_write_enable demo_wait WRITE_TIMEOUT_def WRITE_STATUS_POLLING_USEC_def demo_simps
      drv_qspi_run_cmd_def demo_transact_def page_write_cmd_def drv_qspi_prepare_cmd_def)

lemma demo_erase_one:
  "fl_config s = Some demo_cfg \<Longrightarrow> \<not> demo_busy (fl_dev s) \<Longrightarrow>
     erase_one demo_bus (erase_cmd 0x20 3) ERASE_TIMEOUT ERASE_STATUS_POLLING_MSEC a s
       = Some (FLASH_DEVICE_DONE, s\<lparr>fl_dev := (erased (fst (fl_dev s)) a 4096, False, False)\<rparr>)"
  by (simp add: erase_one_def demo_write_enable demo_wait ERASE_TIMEOUT_def ERASE_STATUS_POLLING_MSEC_def demo_simps
      drv_qspi_run_cmd_def demo_transact_def erase_cmd_def drv_qspi_prepare_cmd_def)

section \<open>Properties\<close>

text \<open>C22: On a NOR chip that is idle at the start, a blocking write that reports success programs
  exactly the bytes asked for at the address asked for, whatever the page boundaries in
  between and however long the chip is busy after each page; every other cell keeps its
  value, the range lies inside the device, and driver and chip are idle again.\<close>

theorem flash_write_programs:
  assumes "nor_chip bus c content wel busy" and "fl_config s = Some c" and "fc_addr_bytes c \<le> 4"
    and "unat (fc_density_in_blocks c) * 4096 < 2 ^ 32" and "unat n \<le> length bs" and "\<not> busy (fl_dev s)"
    and "drv_flash_write bus a n (Some bs) False s = Some (FLASH_DEVICE_DONE, s')"
  shows "content (fl_dev s') = program (content (fl_dev s)) a (take (unat n) bs) \<and> \<not> busy (fl_dev s')
       \<and> unat a + unat n \<le> unat (fc_density_in_blocks c) * 4096 \<and> fl_state s' = 0"
proof -
  note w = write_programs [OF assms(1-3,5-7)]
  have "fl_state s' = 0" by (rule drv_flash_write_done [OF assms(7,2)]) simp
  then show ?thesis using w(1,3,4) range_ok_iff [OF assms(4)] by blast
qed

lemma demo_write:
  assumes "fl_config s = Some demo_cfg" and "fl_init_done s" and "fl_state s = 0" and "\<not> demo_busy (fl_dev s)"
  shows "drv_flash_write demo_bus 254 4 (Some [1, 2, 3, 4]) False s = Some (FLASH_DEVICE_DONE,
     s\<lparr>fl_dev := (program (program (fst (fl_dev s)) 254 [1, 2]) 256 [3, 4], False, False)\<rparr>)"
proof -
  have "write_loop demo_bus demo_cfg False 254 4 [1, 2, 3, 4] (s\<lparr>fl_state := FLASH_STATE_WRITE\<rparr>) = Some (FLASH_DEVICE_DONE,
     s\<lparr>fl_state := FLASH_STATE_WRITE, fl_dev := (program (program (fst (fl_dev s)) 254 [1, 2]) 256 [3, 4], False, False)\<rparr>)"
    by (simp add: write_loop.simps transfer_size_def PAGE_SIZE_IN_BYTES_def demo_write_page assms)
  then show ?thesis
    using assms by (simp add: drv_flash_write_def range_bad_def demo_simps BLOCK_SIZE_IN_BYTES_def)
qed

theorem flash_write_programs_witness:
  "\<exists>s'. drv_flash_write demo_bus 254 4 (Some [1, 2, 3, 4]) False demo_flash = Some (FLASH_DEVICE_DONE, s')
     \<and> fst (fl_dev s') = program (\<lambda>_. 0) 254 [1, 2, 3, 4]"
proof -
  have w: "drv_flash_write demo_bus 254 4 (Some [1, 2, 3, 4]) False demo_flash = Some (FLASH_DEVICE_DONE,
     demo_flash\<lparr>fl_dev := (program (program (\<lambda>_. 0) 254 [1, 2]) 256 [3, 4], False, False)\<rparr>)"
    using demo_write [of demo_flash] by (simp add: demo_flash_def)
  have "fl_config demo_flash = Some demo_cfg" "fl_dev demo_flash = (\<lambda>_. 0, False, False)" by (simp_all add: demo_flash_def)
  with flash_write_programs [OF demo_nor_chip _ _ _ _ _ w] show ?thesis by (simp add: w demo_simps)
qed

text \<open>C23: On a NOR chip that is idle at the start, an erase that reports success sets the requested
  blocks to ones and touches nothing else, for each of the three erase sizes and any number
  of blocks, however long the chip is busy after each command, as long as the byte range
  fits the 32-bit address space; driver and chip are idle again.\<close>

theorem flash_erase_erases:
  assumes "nor_chip bus c content wel busy" and "fl_config s = Some c" and "fc_addr_bytes c \<le> 4"
    and "erase_params c ty = Some (sz, op, ab, tm, pl)" and "0 < unat sz" and "(unat start + unat k) * unat sz < 2 ^ 32"
    and "\<not> busy (fl_dev s)" and "drv_flash_erase bus ty start k s = Some (FLASH_DEVICE_DONE, s')"
  shows "content (fl_dev s') = erased (content (fl_dev s)) (start * sz) (unat k * unat sz)
       \<and> \<not> busy (fl_dev s') \<and> fl_state s' = 0"
proof -
  have "fl_state s' = 0" by (rule drv_flash_erase_done [OF assms(8,2)]) simp
  then show ?thesis using erase_erases(1,3) [OF assms] by simp
qed

lemma demo_erase:
  assumes "fl_config s = Some demo_cfg" and "fl_init_done s" and "fl_state s = 0" and "\<not> demo_busy (fl_dev s)"
  shows "drv_flash_erase demo_bus FLASH_BLOCK_ERASE_E 0 1 s
    = Some (FLASH_DEVICE_DONE, s\<lparr>fl_dev := (erased (fst (fl_dev s)) 0 4096, False, False)\<rparr>)"
  using assms by (simp add: drv_flash_erase_def erase_params_def erase_range_bad_def demo_simps demo_erase_one BLOCK_SIZE_IN_BYTES_def)

theorem flash_erase_erases_witness:
  "\<exists>s'. drv_flash_erase demo_bus FLASH_BLOCK_ERASE_E 0 1 demo_flash = Some (FLASH_DEVICE_DONE, s')
     \<and> fst (fl_dev s') = erased (\<lambda>_. 0) 0 4096"
proof -
  have w: "drv_flash_erase demo_bus FLASH_BLOCK_ERASE_E 0 1 demo_flash
      = Some (FLASH_DEVICE_DONE, demo_flash\<lparr>fl_dev := (erased (\<lambda>_. 0) 0 4096, False, False)\<rparr>)"
    using demo_erase [of demo_flash] by (simp add: demo_flash_def)
  have p: "erase_params demo_cfg FLASH_BLOCK_ERASE_E = Some (4096, 0x20, 3, ERASE_TIMEOUT, ERASE_STATUS_POLLING_MSEC)"
    by (simp add: erase_params_def demo_simps BLOCK_SIZE_IN_BYTES_def)
  have "fl_config demo_flash = Some demo_cfg" "fl_dev demo_flash = (\<lambda>_. 0, False, False)" by (simp_all add: demo_flash_def)
  with flash_erase_erases [OF demo_nor_chip _ _ p _ _ _ w] show ?thesis by (simp add: w demo_simps)
qed

text \<open>C10: What is written into an erased block is read back: on an idle NOR chip of the device
  table, erase a 4 KiB block, write inside it, read the same range. The array is only
  read, and the next command only accepted, when the chip has ended its cycle, so
  the driver's waits are needed for the data to arrive.\<close>

theorem flash_erase_write_read:
  assumes nor: "nor_chip bus c content wel busy" and cfg: "fl_config s = Some c" and tab: "c \<in> set (flash_device_config quad)"
    and blk: "unat start * 4096 \<le> unat a" "unat a + unat n \<le> (unat start + 1) * 4096" and len: "unat n = length bs"
    and quiet: "\<not> busy (fl_dev s)"
    and er: "drv_flash_erase bus FLASH_BLOCK_ERASE_E start 1 s = Some (FLASH_DEVICE_DONE, s1)"
    and wr: "drv_flash_write bus a n (Some bs) False s1 = Some (FLASH_DEVICE_DONE, s2)"
  shows "\<exists>s3. drv_flash_read bus a n True False s2 = Some (FLASH_DEVICE_DONE, bs, s3)"
proof -
  have c: "fc_addr_bytes c \<le> 4" "fc_read_wait_state c \<le> 16" "fc_erase_4kb_opcode c \<noteq> 0"
    using tab by (auto simp: flash_device_config_def cfg_defs)
  then have par: "erase_params c FLASH_BLOCK_ERASE_E = Some (BLOCK_SIZE_IN_BYTES, fc_erase_4kb_opcode c, fc_addr_bytes c, ERASE_TIMEOUT, ERASE_STATUS_POLLING_MSEC)"
    by (simp add: erase_params_def)
  have bsz: "unat BLOCK_SIZE_IN_BYTES = 4096" by (simp add: BLOCK_SIZE_IN_BYTES_def)
  have dens: "unat (fc_density_in_blocks c) \<le> 0x4000" using tab by (auto simp: flash_device_config_def cfg_defs)
  have "fl_state s = 0" by (rule drv_flash_erase_done [OF er cfg])
  then have sd: "same_drv s s1" using drv_flash_erase_returns [OF cfg, of bus FLASH_BLOCK_ERASE_E start 1] er by auto
  have cfg1: "fl_config s1 = Some c" using same_drv_config [OF sd] cfg by simp
  have rng: "\<not> range_bad (fc_density_in_blocks c) a n" by (rule drv_flash_write_done [OF wr cfg1])
  then have fits: "unat start < 1000000" using range_ok_iff [of "fc_density_in_blocks c" a n] dens blk by simp
  have sa: "unat (start * BLOCK_SIZE_IN_BYTES) = unat start * 4096"
    using fits by (simp add: unat_word_ariths bsz)
  note e = erase_erases [OF nor cfg c(1) par _ _ quiet er]
  have e1: "content (fl_dev s1) = erased (content (fl_dev s)) (start * BLOCK_SIZE_IN_BYTES) 4096" "\<not> busy (fl_dev s1)"
    using e fits by (simp_all add: bsz)
  note w = write_programs [OF nor cfg1 c(1) _ e1(2) wr]
  have w1: "content (fl_dev s2) = program (content (fl_dev s1)) a bs" "same_drv s1 s2" "\<not> busy (fl_dev s2)"
    using w len by simp_all
  have i1: "fl_init_done s1 \<and> fl_state s1 = 0" using drv_flash_write_done [OF wr cfg1] by blast
  then have i2: "fl_config s2 = Some c" "fl_init_done s2" "fl_state s2 = 0" using w1(2) cfg1 by (simp_all add: same_drv_def)
  have "mem_read (content (fl_dev s2)) a (unat n) = bs"
  proof (rule nth_equalityI)
    fix i assume "i < length (mem_read (content (fl_dev s2)) a (unat n))"
    then have i: "i < length bs" using len by simp
    have lt: "unat (of_nat i :: u32) = i" using i len unsigned_less [of n, where ?'a = nat] by (simp add: unat_of_nat)
    have ua: "unat (a + of_nat i) = unat a + i" using i len blk fits by (intro unat_addr_offset) simp
    have "unat (a + of_nat i - start * BLOCK_SIZE_IN_BYTES) = unat a + i - unat start * 4096"
      by (subst unat_sub) (use ua sa blk in \<open>simp_all add: word_le_nat_alt\<close>)
    then have "unat (a + of_nat i - start * BLOCK_SIZE_IN_BYTES) < 4096" using i blk len by simp
    then show "mem_read (content (fl_dev s2)) a (unat n) ! i = bs ! i"
      using i len lt by (simp add: w1(1) e1(1) program_def erased_def)
  qed (simp add: len)
  then show ?thesis using read_returns_array [OF nor i2(1) c(1,2) i2(2,3) w1(3) rng] by auto
qed

theorem flash_erase_write_read_witness:
  "\<exists>s1 s2 s3. drv_flash_erase demo_bus FLASH_BLOCK_ERASE_E 0 1 demo_flash = Some (FLASH_DEVICE_DONE, s1)
     \<and> drv_flash_write demo_bus 254 4 (Some [1, 2, 3, 4]) False s1 = Some (FLASH_DEVICE_DONE, s2)
     \<and> drv_flash_read demo_bus 254 4 True False s2 = Some (FLASH_DEVICE_DONE, [1, 2, 3, 4], s3)"
proof -
  define s1 where "s1 = demo_flash\<lparr>fl_dev := (erased (\<lambda>_. 0) 0 4096, False, False)\<rparr>"
  define s2 where "s2 = s1\<lparr>fl_dev := (program (program (fst (fl_dev s1)) 254 [1, 2]) 256 [3, 4], False, False)\<rparr>"
  have 1: "drv_flash_erase demo_bus FLASH_BLOCK_ERASE_E 0 1 demo_flash = Some (FLASH_DEVICE_DONE, s1)"
    using demo_erase [of demo_flash] by (simp add: demo_flash_def s1_def)
  have 2: "drv_flash_write demo_bus 254 4 (Some [1, 2, 3, 4]) False s1 = Some (FLASH_DEVICE_DONE, s2)"
    unfolding s2_def by (rule demo_write) (simp_all add: s1_def demo_flash_def)
  have "demo_cfg \<in> set (flash_device_config False)" by (simp add: flash_device_config_def)
  from flash_erase_write_read [OF demo_nor_chip _ this _ _ _ _ 1 2] show ?thesis
    using 1 2 by (simp add: demo_flash_def)
qed

text \<open>Reads and writes are accepted exactly when the range is not empty and lies inside
  the device, for every device of the table: the 32-bit sums of the check lose nothing.\<close>

theorem flash_range_check_exact:
  assumes "c \<in> set (flash_device_config quad)"
  shows "\<not> range_bad (fc_density_in_blocks c) a n \<longleftrightarrow> n \<noteq> 0 \<and> unat a + unat n \<le> unat (fc_density_in_blocks c) * 4096"
  by (rule range_ok_iff) (use assms in \<open>auto simp: flash_device_config_def cfg_defs\<close>)

theorem flash_range_check_exact_witness:
  "\<not> range_bad 1024 0x3FFFFF 1 \<and> range_bad 1024 0x3FFFFF 2"
proof -
  have "demo_cfg \<in> set (flash_device_config False)" by (simp add: flash_device_config_def)
  note r = flash_range_check_exact [OF this]
  show ?thesis using r [of "0x3FFFFF" 1] r [of "0x3FFFFF" 2] by (simp add: demo_simps)
qed

text \<open>The check of an erase multiplies before it compares, so on every device of the
  table it accepts a count of 4 KiB blocks that wraps the 32-bit product: one block more
  than 4 GiB counts as one block, and the driver would send that many erase commands.\<close>

theorem flash_erase_check_wraps:
  assumes "c \<in> set (flash_device_config quad)"
  shows "\<not> erase_range_bad (fc_density_in_blocks c) BLOCK_SIZE_IN_BYTES 0 0x100001
     \<and> unat (0x100001 :: u32) * 4096 > unat (fc_density_in_blocks c) * 4096"
  using assms by (auto simp: erase_range_bad_def flash_device_config_def cfg_defs BLOCK_SIZE_IN_BYTES_def)

theorem flash_erase_check_wraps_witness:
  "\<not> erase_range_bad 1024 BLOCK_SIZE_IN_BYTES 0 0x100001"
  using flash_erase_check_wraps [of demo_cfg False] by (simp add: flash_device_config_def demo_simps)

text \<open>The two outcomes of an initialisation.\<close>

definition init_outcome :: "'d qspi_bus \<Rightarrow> 'd flash_result \<Rightarrow> bool" where
  "init_outcome bus r \<longleftrightarrow> (\<exists>st s'. r = Some (st, s') \<and>
    (if st = FLASH_DEVICE_DONE
     then fl_init_done s' \<and> (\<exists>c \<in> set (flash_device_config (qb_quad_table bus)). drv_flash_get_config s' = Some c
            \<and> list_all VALID_RW_MODE (rw_modes_of c))
     else \<not> fl_init_done s' \<and> drv_flash_get_config s' = None))"

lemma init_outcome_device:
  assumes "fl_config t = Some c" and "c \<in> set (flash_device_config (qb_quad_table bus))" and "\<not> fl_init_done t"
  shows "init_outcome bus (init_device bus t)"
  using init_device_returns [OF assms(1), of bus] assms(2,3)
  by (auto simp: init_outcome_def drv_flash_get_config_def split: if_splits)

lemma init_outcome_error: "st \<noteq> FLASH_DEVICE_DONE \<Longrightarrow> \<not> fl_init_done t \<Longrightarrow> init_outcome bus (Some (st, t))"
  by (simp add: init_outcome_def drv_flash_get_config_def)

lemma drv_flash_init_outcome: "\<not> fl_init_done s \<Longrightarrow> init_outcome bus (drv_flash_init bus s)"
  by (auto simp: drv_flash_init_def drv_flash_controller_init_def drv_flash_info_init_def Let_def
      drv_flash_read_reg_internal_def run_reg_cmd drv_flash_power_up_def run_plain_dev delay_def find_Some_iff
      intro!: init_outcome_device init_outcome_error split: option.split)

lemma drv_flash_init_state:
  assumes "drv_flash_init bus s = Some (st, s')" and "fl_state s = 0"
  shows "fl_state s' = 0"
proof -
  have "fl_state u = fl_state t" if "init_device bus t = Some (st, u)" "fl_config t = Some c" for t u c
    using init_device_returns [OF that(2), of bus] that(1) by auto
  then show ?thesis using assms
    by (auto simp: drv_flash_init_def drv_flash_controller_init_def drv_flash_info_init_def Let_def
        drv_flash_read_reg_internal_def run_reg_cmd drv_flash_power_up_def run_plain_dev delay_def
        split: option.splits if_splits)
qed

text \<open>The driver between two calls: no operation is marked as running, and a driver that is
  marked as initialised has a configuration. The variables at power-up satisfy it.\<close>

definition drv_idle :: "'d flash \<Rightarrow> bool" where
  "drv_idle s \<longleftrightarrow> fl_state s = 0 \<and> (fl_init_done s \<longrightarrow> fl_config s \<noteq> None)"

lemma drv_idle_same: "same_drv s s' \<Longrightarrow> drv_idle s \<Longrightarrow> drv_idle s'"
  by (simp add: same_drv_def drv_idle_def)

lemma drv_flash_init_idle:
  assumes "drv_idle s"
  shows "\<exists>st s'. drv_flash_init bus s = Some (st, s') \<and> drv_idle s' \<and> (st = FLASH_DEVICE_DONE \<longleftrightarrow> fl_init_done s')"
proof (cases "fl_init_done s")
  case True
  then show ?thesis using assms by (simp add: drv_flash_init_def)
next
  case False
  from drv_flash_init_outcome [OF this, of bus] show ?thesis
    using drv_flash_init_state [of bus s] assms
    by (auto simp: init_outcome_def drv_idle_def drv_flash_get_config_def split: if_splits)
qed

text \<open>C24: From power-up on, every entry point of the driver returns, whatever the chip answers
  and however long it stays busy, and leaves the driver idle: the polling periods divide
  their time-outs, so the 32-bit countdown reaches zero exactly and every loop is left. The
  initialisation succeeds exactly when the driver is marked as initialised afterwards.
  The one exception is an erase before an initialisation has found a chip: it
  dereferences the configuration before it checks anything.\<close>

theorem flash_operations_return:
  assumes "drv_idle s"
  shows "(\<exists>st s'. drv_flash_init bus s = Some (st, s') \<and> drv_idle s' \<and> (st = FLASH_DEVICE_DONE \<longleftrightarrow> fl_init_done s'))
       \<and> (\<exists>st s'. drv_flash_write bus a n buf cb s = Some (st, s') \<and> drv_idle s')
       \<and> (\<exists>st bs s'. drv_flash_read bus a n b cb s = Some (st, bs, s') \<and> drv_idle s')
       \<and> (\<exists>st s'. drv_flash_write_reg bus op len v cb s = Some (st, s') \<and> drv_idle s')
       \<and> (if fl_config s = None then drv_flash_erase bus ty start cnt s = None
          else \<exists>st s'. drv_flash_erase bus ty start cnt s = Some (st, s') \<and> drv_idle s')"
proof (intro conjI)
  have st: "fl_state s = 0" and cfg: "fl_init_done s \<Longrightarrow> \<exists>c. fl_config s = Some c" using assms by (auto simp: drv_idle_def)
  note keep = drv_idle_same [OF _ assms]
  show "\<exists>st s'. drv_flash_init bus s = Some (st, s') \<and> drv_idle s' \<and> (st = FLASH_DEVICE_DONE \<longleftrightarrow> fl_init_done s')"
    by (rule drv_flash_init_idle [OF assms])
  show "\<exists>st s'. drv_flash_write bus a n buf cb s = Some (st, s') \<and> drv_idle s'"
  proof (cases "fl_init_done s")
    case True
    then show ?thesis using drv_flash_write_returns [OF _ st, of _ bus a n buf cb] cfg keep by blast
  qed (simp add: drv_flash_write_def assms)
  show "\<exists>st bs s'. drv_flash_read bus a n b cb s = Some (st, bs, s') \<and> drv_idle s'"
    using drv_flash_read_returns [OF _ st, of _ bus a n b cb] cfg keep by blast
  show "\<exists>st s'. drv_flash_write_reg bus op len v cb s = Some (st, s') \<and> drv_idle s'"
    using drv_flash_write_reg_returns [OF st, of bus op len v cb] keep by blast
  show "if fl_config s = None then drv_flash_erase bus ty start cnt s = None
        else \<exists>st s'. drv_flash_erase bus ty start cnt s = Some (st, s') \<and> drv_idle s'"
    using drv_flash_erase_returns [OF _ st, of _ bus ty start cnt] keep by (auto simp: drv_flash_erase_def)
qed

text \<open>The first initialisation after power-up, with the simulated chip in the socket.\<close>

definition power_up_flash :: "demo_chip flash" where
  "power_up_flash = \<lparr>fl_init_done = False, fl_state = 0, fl_config = None, fl_clock = 0, fl_dev = (\<lambda>_. 0, False, False)\<rparr>"

theorem flash_operations_return_witness:
  "drv_flash_erase demo_bus FLASH_BLOCK_ERASE_E 0 1 power_up_flash = None
   \<and> (\<exists>st s'. drv_flash_init demo_bus power_up_flash = Some (st, s') \<and> drv_idle s' \<and> (st = FLASH_DEVICE_DONE \<longleftrightarrow> fl_init_done s'))"
proof -
  have "drv_idle power_up_flash" by (simp add: drv_idle_def power_up_flash_def)
  from flash_operations_return [OF this, of demo_bus _ _ _ _ _ _ _ _ FLASH_BLOCK_ERASE_E 0 1] show ?thesis
    by (simp add: power_up_flash_def)
qed

text \<open>The initialisation always returns. When it reports success the driver is ready
  with the table entry of the identified chip, whose six bus modes are valid; when it
  reports an error the driver stays unusable and hands out no configuration.\<close>

theorem flash_init_outcome:
  assumes "\<not> fl_init_done s"
  shows "\<exists>st s'. drv_flash_init bus s = Some (st, s') \<and>
    (if st = FLASH_DEVICE_DONE
     then fl_init_done s' \<and> (\<exists>c \<in> set (flash_device_config (qb_quad_table bus)). drv_flash_get_config s' = Some c
            \<and> list_all VALID_RW_MODE (rw_modes_of c))
     else \<not> fl_init_done s' \<and> drv_flash_get_config s' = None)"
  unfolding init_outcome_def [symmetric] by (rule drv_flash_init_outcome [OF assms])

theorem flash_init_outcome_witness:
  "\<exists>st s'. drv_flash_init demo_bus (demo_flash\<lparr>fl_init_done := False\<rparr>) = Some (st, s')
     \<and> (st = FLASH_DEVICE_DONE \<longleftrightarrow> fl_init_done s')"
proof -
  have "\<not> fl_init_done (demo_flash\<lparr>fl_init_done := False\<rparr>)" by simp
  from flash_init_outcome [OF this, of demo_bus] show ?thesis by (auto split: if_splits)
qed

text \<open>The protection bits of the Puya and Zetta chips are in the table but never cleared:
  for those manufacturers the driver sends nothing to the chip and reports success.\<close>

theorem flash_protection_not_cleared:
  assumes "c \<in> {cfg_zd25wq32ce quad, cfg_PY25Q32HB quad, cfg_PY25Q32HA quad, cfg_PY25Q32LC quad}" and "fl_config s = Some c"
  shows "fc_write_protect_bmask c \<noteq> 0 \<and> drv_flash_clear_write_protection bus s = Some (FLASH_DEVICE_DONE, s)"
  using assms by (auto simp: drv_flash_clear_write_protection_def Let_def cfg_defs MANUFACTURER_ID_WINBOND_def
      MANUFACTURER_ID_GD_def MANUFACTURER_ID_GT_def MANUFACTURER_ID_MACRONIX_def MANUFACTURER_ID_ISSI_def)

theorem flash_protection_not_cleared_witness:
  "drv_flash_clear_write_protection demo_bus (demo_flash\<lparr>fl_config := Some (cfg_PY25Q32HB False)\<rparr>)
     = Some (FLASH_DEVICE_DONE, demo_flash\<lparr>fl_config := Some (cfg_PY25Q32HB False)\<rparr>)"
  using flash_protection_not_cleared [of "cfg_PY25Q32HB False" False "demo_flash\<lparr>fl_config := Some (cfg_PY25Q32HB False)\<rparr>" demo_bus]
  by simp

end
