(* ===== verification/Rollback.thy ===== *)
theory Rollback
  imports Rram_Correct
begin

text \<open>
  Protection against version roll-back: \<^verbatim>\<open>qboot/sbl_auth/rollback/boot_rollback_version.c\<close> and
  \<^verbatim>\<open>boot_rollback_version_impl.c\<close>. The version of an image set is the number of fuse bits that
  are set in two words of the OTP area, which is part of the byte memory. NULL pointers are
  the address 0; \<open>None\<close> is a call that does not return.
\<close>

section \<open>Little-endian words in memory\<close>

definition read_u32 :: "memory \<Rightarrow> addr \<Rightarrow> u32" where
  "read_u32 m a = ucast (m a) OR push_bit 8 (ucast (m (a + 1))) OR push_bit 16 (ucast (m (a + 2))) OR push_bit 24 (ucast (m (a + 3)))"

definition le_bytes64 :: "u64 \<Rightarrow> bytes" where
  "le_bytes64 w = map (\<lambda>i. ucast (drop_bit (8 * i) w)) [0..<8]"

section \<open>Model\<close>

type_synonym sec_img_auth_id_type = u32

definition SEC_IMG_AUTH_SBL_IMG :: u32 where "SEC_IMG_AUTH_SBL_IMG = 0"
definition SEC_IMG_AUTH_APP_IMG :: u32 where "SEC_IMG_AUTH_APP_IMG = 1"
definition SEC_IMG_AUTH_NUM_SUPPORTED_IMG :: u32 where "SEC_IMG_AUTH_NUM_SUPPORTED_IMG = 0x7FFFFFFF"
definition ANTI_ROLLBACK_OTP_OFFSET :: u32 where "ANTI_ROLLBACK_OTP_OFFSET = 0x1A00B0"

record boot_version_rollback_img_set =
  sec_sw_img_list :: "u32 list"
  feature_enable_base_address :: addr
  feature_enable_mask :: u32
  version_lsb_base_address :: addr
  version_lsb_mask :: u32
  version_lsb_shift :: u32
  version_msb_base_address :: addr
  version_msb_mask :: u32
  version_msb_shift :: u32

record pbl_auth_state =
  auth_enabled :: bool
  hash_integrity_check_disabled :: bool
  debug_override :: bool
  anti_rollback_unlock :: bool
  sw_id :: u64

definition boot_rollback_version_img_set_table :: "boot_version_rollback_img_set list" where
  "boot_rollback_version_img_set_table =
     [\<lparr>sec_sw_img_list = [SEC_IMG_AUTH_SBL_IMG, SEC_IMG_AUTH_APP_IMG, SEC_IMG_AUTH_NUM_SUPPORTED_IMG],
       feature_enable_base_address = NULL, feature_enable_mask = 0,
       version_lsb_base_address = 0x1A00B0, version_lsb_mask = 0xFFFFFFFF, version_lsb_shift = 0,
       version_msb_base_address = 0x1A00B4, version_msb_mask = 0xFFFFFFFF, version_msb_shift = 0\<rparr>]"

function boot_rollback_count_bits_set :: "u32 \<Rightarrow> u32" where
  "boot_rollback_count_bits_set input_val =
     (if input_val = 0 then 0 else 1 + boot_rollback_count_bits_set (input_val AND (input_val - 1)))"
  by pat_completeness auto

termination
proof (relation "measure unat", goal_cases)
  case (2 w)
  have "unat (w AND (w - 1)) \<le> unat (w - 1)" by (simp add: word_le_nat_alt [symmetric] word_and_le1)
  also have "\<dots> < unat w" using 2 by (simp add: unat_minus_one unat_gt_0)
  finally show ?case by simp
qed simp

function find_open_from :: "nat \<Rightarrow> u32 \<Rightarrow> u32 \<Rightarrow> u32" where
  "find_open_from i v bits =
     (if i < 32 then
        if bits AND push_bit i 1 \<noteq> 0 \<and> v AND push_bit i 1 = 0 then push_bit i 1
        else find_open_from (i + 1) v bits
      else 0)"
  by pat_completeness auto

termination
  by (relation "measure (\<lambda>(i, v, bits). 32 - i)") auto

definition boot_rollback_find_open_bit :: "u32 \<Rightarrow> u32 \<Rightarrow> u32" where
  "boot_rollback_find_open_bit v bits = find_open_from 0 v bits"

text \<open>The table walk, with the matching set on the right of the sum: the set that is looked at and the counter never change inside the loop.\<close>

partial_function (option) get_set_loop ::
    "boot_version_rollback_img_set \<Rightarrow> u32 \<Rightarrow> u32 \<Rightarrow> sec_img_auth_id_type \<Rightarrow> (bl_error_type + boot_version_rollback_img_set) option" where
  "get_set_loop image_set image_set_count entries image_sw_type =
     (if image_set_count < entries then
        if list_ex (\<lambda>i. i = image_sw_type) (sec_sw_img_list image_set) then Some (Inr image_set)
        else get_set_loop image_set image_set_count entries image_sw_type
      else Some (Inl BL_ERR_ROLLBACK_IMAGE_SET_NOT_FOUND))"

definition boot_rollback_get_set_by_img_type ::
    "boot_version_rollback_img_set list \<Rightarrow> sec_img_auth_id_type \<Rightarrow> (bl_error_type + boot_version_rollback_img_set) option" where
  "boot_rollback_get_set_by_img_type image_set_table image_sw_type =
     (case image_set_table of
        [] \<Rightarrow> Some (Inl BL_ERR_ROLLBACK_IMAGE_SET_NOT_FOUND)
      | image_set # _ \<Rightarrow> get_set_loop image_set 0 (of_nat (length image_set_table)) image_sw_type)"

definition boot_rollback_is_feature_enabled_on_set :: "memory \<Rightarrow> boot_version_rollback_img_set \<Rightarrow> bool" where
  "boot_rollback_is_feature_enabled_on_set m image_set \<longleftrightarrow>
     feature_enable_base_address image_set \<noteq> NULL
     \<and> read_u32 m (feature_enable_base_address image_set) AND feature_enable_mask image_set \<noteq> 0"

text \<open>The fuse rows strictly between the two version words; the bound counts words, not bytes.\<close>

definition rows_between :: "boot_version_rollback_img_set \<Rightarrow> addr list" where
  "rows_between image_set =
     (let lsb = version_lsb_base_address image_set;
          n = (unat (version_msb_base_address image_set) - unat lsb) div 4
      in if n > 4 then map (\<lambda>i. lsb + 4 * of_nat i) [1..<n] else [])"

definition boot_rollback_calculate_fuse_version :: "memory \<Rightarrow> boot_version_rollback_img_set \<Rightarrow> bl_error_type \<times> u32" where
  "boot_rollback_calculate_fuse_version m image_set =
     (if version_lsb_base_address image_set = NULL \<or> version_msb_base_address image_set = NULL then (BL_ERR_NULL_PTR, 0)
      else
        (BL_ERR_NONE,
         boot_rollback_count_bits_set (read_u32 m (version_lsb_base_address image_set) AND version_lsb_mask image_set)
         + sum_list (map (\<lambda>a. boot_rollback_count_bits_set (read_u32 m a AND 0xFF)) (rows_between image_set))
         + boot_rollback_count_bits_set (read_u32 m (version_msb_base_address image_set) AND version_msb_mask image_set)))"

fun find_open_row :: "memory \<Rightarrow> (addr \<times> u32) list \<Rightarrow> (addr \<times> u32) option" where
  "find_open_row m [] = None"
| "find_open_row m ((a, bits) # rows) =
     (let b = boot_rollback_find_open_bit (read_u32 m a) bits in if b \<noteq> 0 then Some (a, b) else find_open_row m rows)"

definition boot_rollback_find_open_version_bit ::
    "memory \<Rightarrow> boot_version_rollback_img_set \<Rightarrow> bl_error_type \<times> (addr \<times> u64) option" where
  "boot_rollback_find_open_version_bit m image_set =
     (if version_lsb_base_address image_set = NULL \<or> version_msb_base_address image_set = NULL then (BL_ERR_NULL_PTR, None)
      else
        case find_open_row m ((version_lsb_base_address image_set, version_lsb_mask image_set)
               # map (\<lambda>a. (a, 0xFF)) (rows_between image_set)
               @ [(version_msb_base_address image_set, version_msb_mask image_set)]) of
          None \<Rightarrow> (BL_ERR_ROLLBACK_OPEN_VERSION_FUSE_NOT_FOUND, None)
        | Some (a, b) \<Rightarrow> (BL_ERR_NONE, Some (a, ucast b)))"

text \<open>The upper half of the software id is the version.\<close>

definition sw_version_of :: "pbl_auth_state \<Rightarrow> u32" where
  "sw_version_of st = ucast (drop_bit 32 (sw_id st) AND 0xFFFFFFFF)"

definition boot_rollback_validate_image_version ::
    "sec_img_auth_id_type \<Rightarrow> pbl_auth_state option \<Rightarrow> pbl_auth_state option \<Rightarrow> bool \<times> pbl_auth_state option" where
  "boot_rollback_validate_image_version app_img_id sbl_auth_state app_auth_state =
     (case (sbl_auth_state, app_auth_state) of
        (Some sbl, Some app) \<Rightarrow>
          let sbl_img_id = (ucast (sw_id sbl AND 0xFFFFFFFF) :: u32)
          in if sbl_img_id = SEC_IMG_AUTH_SBL_IMG \<and> app_img_id = SEC_IMG_AUTH_APP_IMG \<and> sw_version_of app \<noteq> sw_version_of sbl
             then (False, Some (app\<lparr>anti_rollback_unlock := False\<rparr>))
             else (True, app_auth_state)
      | _ \<Rightarrow> (False, app_auth_state))"

text \<open>The loop that sets one mask bit per version.\<close>

primrec version_masks :: "nat \<Rightarrow> u32 \<times> u32" where
  "version_masks 0 = (0, 0)"
| "version_masks (Suc i) =
     (case version_masks i of (lsb_mask, msb_mask) \<Rightarrow>
        if i < 32 then (lsb_mask OR push_bit i 1, msb_mask) else (lsb_mask, msb_mask OR push_bit (i - 32) 1))"

definition fuse_bit_mask :: "u32 \<Rightarrow> u64" where
  "fuse_bit_mask sw_version =
     (case version_masks (unat sw_version) of (lsb_mask, msb_mask) \<Rightarrow> push_bit 32 (ucast msb_mask) OR ucast lsb_mask)"

definition boot_rollback_fuse_version_save :: "dma \<Rightarrow> u64 \<Rightarrow> memory \<Rightarrow> bl_error_type \<times> memory" where
  "boot_rollback_fuse_version_save dma fuse_value m =
     rram_block_write_dxe dma ANTI_ROLLBACK_OTP_OFFSET (Src_buf (le_bytes64 fuse_value @ replicate 8 0)) RRAM_WRITE_ADR_BYTE_ALIGN m"

text \<open>The result of storing the new fuse value is dropped.\<close>

definition boot_rollback_update_fuse_version ::
    "dma \<Rightarrow> sec_img_auth_id_type \<Rightarrow> pbl_auth_state option \<Rightarrow> memory \<Rightarrow> (bl_error_type \<times> memory) option" where
  "boot_rollback_update_fuse_version dma image_id auth_state m =
     (case auth_state of
        None \<Rightarrow> Some (BL_ERR_NULL_PTR, m)
      | Some st \<Rightarrow> do {
          found \<leftarrow> boot_rollback_get_set_by_img_type boot_rollback_version_img_set_table image_id;
          case found of
            Inl result \<Rightarrow> Some (result, m)
          | Inr image_set \<Rightarrow>
              if \<not> boot_rollback_is_feature_enabled_on_set m image_set \<and> \<not> auth_enabled st then Some (BL_ERR_NONE, m)
              else (case boot_rollback_calculate_fuse_version m image_set of
                (result, fuse_version_value) \<Rightarrow>
                  if result \<noteq> BL_ERR_NONE then Some (result, m)
                  else if sw_version_of st \<le> fuse_version_value then Some (BL_ERR_NONE, m)
                  else if sw_version_of st > 64 then Some (BL_ERR_NONE, m)
                  else Some (BL_ERR_NONE, snd (boot_rollback_fuse_version_save dma (fuse_bit_mask (sw_version_of st)) m)))
        })"

declare boot_rollback_count_bits_set.simps [simp del] find_open_from.simps [simp del]

end
