(* ===== verification/Rollback_Props.thy ===== *)
theory Rollback_Props
  imports Rollback
begin

text \<open>
  Properties of the roll-back protection: the bit-clearing loop counts the set bits, storing
  a newer version raises the version read back from the fuses to exactly that version and
  never lowers it, and the search for an image set does not end for an unknown image.
\<close>

section \<open>Counting bits\<close>

definition popcount :: "nat \<Rightarrow> nat" where
  "popcount n = card {i. bit n i}"

lemma finite_bits: "finite {i. bit (n :: nat) i}"
proof (rule finite_subset)
  show "{i. bit n i} \<subseteq> {..n}"
  proof (clarsimp simp: bit_iff_odd)
    fix i assume "odd (n div 2 ^ i)"
    then have "2 ^ i \<le> n" by (metis div_less even_zero not_le)
    then show "i \<le> n" by (meson le_trans less_exp less_imp_le)
  qed
qed simp

lemma popcount_0 [simp]: "popcount 0 = 0"
  by (simp add: popcount_def)

lemma popcount_step: "popcount n = n mod 2 + popcount (n div 2)"
proof -
  have s: "{i. bit n i} = (if odd n then {0} else {}) \<union> Suc ` {i. bit (n div 2) i}"
    by (auto simp: image_iff bit_0 bit_Suc [symmetric] split: if_splits) (metis bit_0 bit_Suc not0_implies_Suc)+
  show ?thesis unfolding popcount_def s
    using finite_bits [of "n div 2"] by (subst card_Un_disjoint) (auto simp: card_image mod2_eq_if)
qed

lemma popcount_double: "popcount (2 * v) = popcount v" and popcount_Suc_double: "popcount (Suc (2 * v)) = Suc (popcount v)"
  by (simp_all add: popcount_step [of "2 * v"] popcount_step [of "Suc (2 * v)"])

lemma popcount_clear_lowest: "0 < n \<Longrightarrow> popcount n = Suc (popcount (n AND (n - 1)))"
proof (induction n rule: less_induct)
  case (less n)
  show ?case
  proof (cases "even n")
    case True
    then obtain v where v: "n = 2 * v" by blast
    with less.prems have "0 < v" "v < n" by auto
    have "n AND (n - 1) = 2 * (v AND (v - 1))"
    proof -
      have "n - 1 = 2 * (v - 1) + 1" using v \<open>0 < v\<close> by simp
      then show ?thesis using v by (simp add: and_rec [of "2 * v"])
    qed
    then show ?thesis using less.IH [OF \<open>v < n\<close> \<open>0 < v\<close>] v
      by (simp add: popcount_double)
  next
    case False
    then obtain v where v: "n = 2 * v + 1" by (blast elim: oddE)
    have "n AND (n - 1) = 2 * v" using v by (simp add: and_rec [of "Suc (2 * v)"])
    then show ?thesis using v by (simp add: popcount_double popcount_Suc_double)
  qed
qed

lemma popcount_le: "n < 2 ^ k \<Longrightarrow> popcount n \<le> k"
proof (induction k arbitrary: n)
  case (Suc k)
  then have "popcount (n div 2) \<le> k" by (simp add: less_mult_imp_div_less mult.commute)
  then show ?case by (simp add: popcount_step [of n])
qed simp

lemma count_bits: "unat (boot_rollback_count_bits_set w) = popcount (unat w)"
proof (induction w rule: boot_rollback_count_bits_set.induct)
  case (1 w)
  show ?case
  proof (cases "w = 0")
    case True
    then show ?thesis by (simp add: boot_rollback_count_bits_set.simps)
  next
    case False
    then have "unat (w AND (w - 1)) = unat w AND (unat w - 1)" by (simp add: unsigned_and_eq unat_minus_one)
    with False have p: "popcount (unat w) = Suc (popcount (unat (w AND (w - 1))))"
      using popcount_clear_lowest [of "unat w"] by (simp add: unat_gt_0)
    have "popcount (unat w) \<le> 32" using unsigned_less [of w, where ?'a = nat] by (intro popcount_le) simp
    then show ?thesis using 1 [OF False] p False
      by (subst boot_rollback_count_bits_set.simps) (simp add: unat_word_ariths)
  qed
qed

text \<open>The loop that clears the lowest set bit until none is left returns the number of set
  bits of its argument.\<close>

theorem rollback_count_bits_is_popcount: "unat (boot_rollback_count_bits_set w) = card {i. bit w i}"
  using count_bits [of w] by (simp add: popcount_def bit_unsigned_iff)

section \<open>Words in memory\<close>

lemma bit_read_u32:
  "bit (read_u32 m a) n \<longleftrightarrow> n < 32 \<and> bit (m (a + of_nat (n div 8))) (n mod 8)"
proof -
  consider "n < 8" | "8 \<le> n" "n < 16" | "16 \<le> n" "n < 24" | "24 \<le> n" "n < 32" | "32 \<le> n" by linarith
  then show ?thesis
  proof cases
    case 2
    then have "n div 8 = 1" "n mod 8 = n - 8" by presburger+
    then show ?thesis using 2 by (auto simp: read_u32_def bit_or_iff bit_push_bit_iff bit_ucast_iff dest: bit_imp_le_length)
  next
    case 3
    then have "n div 8 = 2" "n mod 8 = n - 16" by presburger+
    then show ?thesis using 3 by (auto simp: read_u32_def bit_or_iff bit_push_bit_iff bit_ucast_iff dest: bit_imp_le_length)
  next
    case 4
    then have "n div 8 = 3" "n mod 8 = n - 24" by presburger+
    then show ?thesis using 4 by (auto simp: read_u32_def bit_or_iff bit_push_bit_iff bit_ucast_iff dest: bit_imp_le_length)
  next
    case 5
    then show ?thesis by (auto simp: read_u32_def bit_or_iff bit_push_bit_iff bit_ucast_iff dest: bit_imp_le_length)
  qed (auto simp: read_u32_def bit_or_iff bit_push_bit_iff bit_ucast_iff dest: bit_imp_le_length)
qed

lemma read_u32_bytes:
  assumes "\<And>i. i < 4 \<Longrightarrow> m (a + of_nat i) = ucast (drop_bit (8 * i) (w :: u64))"
  shows "read_u32 m a = ucast w"
proof (rule bit_word_eqI)
  fix n assume "n < LENGTH(32)"
  then have n: "n < 32" "n div 8 < 4" by auto
  have "8 * (n div 8) + n mod 8 = n" by simp
  then show "bit (read_u32 m a) n = bit (ucast w :: u32) n"
    using n assms [OF n(2)] by (simp add: bit_read_u32 bit_ucast_iff bit_drop_bit_eq)
qed

section \<open>The version in the fuses\<close>

lemma version_masks_bits:
  "n \<le> 64 \<Longrightarrow> bit (fst (version_masks n)) i = (i < 32 \<and> i < n) \<and> bit (snd (version_masks n)) i = (i < 32 \<and> i + 32 < n)"
proof (induction n)
  case (Suc n)
  then show ?case
    by (cases "version_masks n") (auto simp: bit_or_iff bit_push_bit_iff bit_exp_iff less_Suc_eq)
qed simp

lemma fuse_bit_mask_bits:
  assumes "unat v \<le> 64"
  shows "bit (fuse_bit_mask v) i \<longleftrightarrow> i < unat v"
proof -
  obtain l h where lh: "version_masks (unat v) = (l, h)" by (cases "version_masks (unat v)")
  then show ?thesis
    using version_masks_bits [OF assms, of i] version_masks_bits [OF assms, of "i - 32"] assms
    by (auto simp: fuse_bit_mask_def bit_or_iff bit_push_bit_iff bit_ucast_iff)
qed

abbreviation the_set :: boot_version_rollback_img_set where
  "the_set \<equiv> hd boot_rollback_version_img_set_table"

text \<open>The version the fuses hold.\<close>

definition fuse_version :: "memory \<Rightarrow> nat" where
  "fuse_version m = popcount (unat (read_u32 m 0x1A00B0)) + popcount (unat (read_u32 m 0x1A00B4))"

lemma and_all_ones: "(w :: u32) AND 0xFFFFFFFF = w"
proof -
  have "(0xFFFFFFFF :: u32) = - 1" by simp
  then show ?thesis by (metis and.right_neutral)
qed

lemma fuse_version_le: "fuse_version m \<le> 64"
proof -
  have "popcount (unat w) \<le> 32" for w :: u32
    using unsigned_less [of w, where ?'a = nat] by (intro popcount_le) simp
  from this [of "read_u32 m 0x1A00B0"] this [of "read_u32 m 0x1A00B4"] show ?thesis by (simp add: fuse_version_def)
qed

lemma calculate_version:
  "fst (boot_rollback_calculate_fuse_version m the_set) = BL_ERR_NONE"
  "unat (snd (boot_rollback_calculate_fuse_version m the_set)) = fuse_version m"
proof -
  have r: "rows_between the_set = []"
    by (simp add: rows_between_def boot_rollback_version_img_set_table_def Let_def)
  show "fst (boot_rollback_calculate_fuse_version m the_set) = BL_ERR_NONE"
    by (simp add: boot_rollback_calculate_fuse_version_def boot_rollback_version_img_set_table_def)
  have v: "snd (boot_rollback_calculate_fuse_version m the_set) =
      boot_rollback_count_bits_set (read_u32 m 0x1A00B0) + boot_rollback_count_bits_set (read_u32 m 0x1A00B4)"
    unfolding boot_rollback_calculate_fuse_version_def r
    by (simp add: boot_rollback_version_img_set_table_def and_all_ones)
  have "fuse_version m < 2 ^ 32" using fuse_version_le [of m] by simp
  then show "unat (snd (boot_rollback_calculate_fuse_version m the_set)) = fuse_version m"
    by (simp add: v unat_word_ariths count_bits fuse_version_def)
qed

lemma save_fuses:
  assumes "dma_copies dma"
  shows "boot_rollback_fuse_version_save dma w m = (BL_ERR_NONE, mem_write m 0x1A00B0 (le_bytes64 w @ replicate 8 0))"
  unfolding boot_rollback_fuse_version_save_def
  by (subst block_write_buf [OF assms]) (simp_all add: ANTI_ROLLBACK_OTP_OFFSET_def le_bytes64_def)

lemma saved_words:
  fixes w :: u64 and m :: memory
  defines "m' \<equiv> mem_write m 0x1A00B0 (le_bytes64 w @ replicate 8 0)"
  shows "read_u32 m' 0x1A00B0 = ucast w" and "read_u32 m' 0x1A00B4 = ucast (drop_bit 32 w)"
proof -
  have b: "m' (0x1A00B0 + of_nat i) = ucast (drop_bit (8 * i) w)" if "i < 8" for i
  proof -
    have "m' (0x1A00B0 + of_nat i) = (le_bytes64 w @ replicate 8 0) ! i"
      unfolding m'_def by (rule mem_write_nth) (use that in \<open>simp_all add: le_bytes64_def\<close>)
    then show ?thesis using that by (simp add: le_bytes64_def nth_append del: upt_rec_numeral)
  qed
  show "read_u32 m' 0x1A00B0 = ucast w" by (rule read_u32_bytes) (simp add: b)
  show "read_u32 m' 0x1A00B4 = ucast (drop_bit 32 w)"
  proof (rule read_u32_bytes)
    fix i :: nat assume "i < 4"
    then show "m' (0x1A00B4 + of_nat i) = ucast (drop_bit (8 * i) (drop_bit 32 w))"
      using b [of "4 + i"] by (simp add: algebra_simps)
  qed
qed

lemma popcount_below: "(\<And>i. bit n i \<longleftrightarrow> i < k) \<Longrightarrow> popcount n = k"
  by (simp add: popcount_def lessThan_def [symmetric])

lemma saved_version:
  assumes "dma_copies dma" and "unat v \<le> 64"
  shows "fuse_version (snd (boot_rollback_fuse_version_save dma (fuse_bit_mask v) m)) = unat v"
proof -
  have "popcount (unat (ucast (fuse_bit_mask v) :: u32)) = min 32 (unat v)"
    by (rule popcount_below) (auto simp: bit_unsigned_iff bit_ucast_iff fuse_bit_mask_bits [OF assms(2)])
  moreover have "popcount (unat (ucast (drop_bit 32 (fuse_bit_mask v)) :: u32)) = unat v - 32"
    by (rule popcount_below) (use assms(2) in \<open>auto simp: bit_unsigned_iff bit_ucast_iff bit_drop_bit_eq fuse_bit_mask_bits [OF assms(2)]\<close>)
  ultimately show ?thesis
    using saved_words [of m "fuse_bit_mask v"] by (simp add: save_fuses [OF assms(1)] fuse_version_def)
qed

lemma get_set_loop_hit: "c < e \<Longrightarrow> i \<in> set (sec_sw_img_list s) \<Longrightarrow> get_set_loop s c e i = Some (Inr s)"
  by (subst get_set_loop.simps) (simp add: list_ex_iff)

lemma get_set_known:
  assumes "img \<in> {SEC_IMG_AUTH_SBL_IMG, SEC_IMG_AUTH_APP_IMG, SEC_IMG_AUTH_NUM_SUPPORTED_IMG}"
  shows "boot_rollback_get_set_by_img_type boot_rollback_version_img_set_table img = Some (Inr the_set)"
  using assms by (auto simp: boot_rollback_get_set_by_img_type_def boot_rollback_version_img_set_table_def intro!: get_set_loop_hit)

lemma feature_off: "\<not> boot_rollback_is_feature_enabled_on_set m the_set"
  by (simp add: boot_rollback_is_feature_enabled_on_set_def boot_rollback_version_img_set_table_def)

text \<open>C14: When authentication is on, storing the version of an authenticated image makes the
  fuses hold exactly the larger of the old version and the image's, as long as that is at
  most 64; the version never goes down, and memory outside the 16-byte fuse row is not
  touched. A version above 64 is accepted and not recorded.\<close>

theorem rollback_update_version:
  assumes "dma_copies dma" and "img \<in> {SEC_IMG_AUTH_SBL_IMG, SEC_IMG_AUTH_APP_IMG}" and "auth_enabled st"
  shows "\<exists>m'. boot_rollback_update_fuse_version dma img (Some st) m = Some (BL_ERR_NONE, m')
    \<and> fuse_version m' = (if unat (sw_version_of st) \<le> 64 then max (fuse_version m) (unat (sw_version_of st)) else fuse_version m)
    \<and> (\<forall>a. a \<notin> {0x1A00B0 ..< 0x1A00C0} \<longrightarrow> m' a = m a)"
proof -
  let ?v = "sw_version_of st"
  obtain fv where fv: "boot_rollback_calculate_fuse_version m the_set = (BL_ERR_NONE, fv)" "unat fv = fuse_version m"
    using calculate_version [of m] by (metis prod.collapse)
  have known: "boot_rollback_get_set_by_img_type boot_rollback_version_img_set_table img = Some (Inr the_set)"
    using get_set_known assms(2) by blast
  have upd: "boot_rollback_update_fuse_version dma img (Some st) m =
    (if ?v \<le> fv \<or> ?v > 64 then Some (BL_ERR_NONE, m)
     else Some (BL_ERR_NONE, snd (boot_rollback_fuse_version_save dma (fuse_bit_mask ?v) m)))"
    by (simp add: boot_rollback_update_fuse_version_def known assms(3) fv(1))
  have le: "?v \<le> fv \<longleftrightarrow> unat ?v \<le> fuse_version m" "?v > 64 \<longleftrightarrow> unat ?v > 64"
    by (simp_all add: word_le_nat_alt word_less_nat_alt fv(2))
  show ?thesis
  proof (cases "?v \<le> fv \<or> ?v > 64")
    case True
    then show ?thesis using upd le fuse_version_le [of m] by (auto simp: max_def)
  next
    case False
    then have v: "unat ?v \<le> 64" "fuse_version m < unat ?v" using le by auto
    have frame: "snd (boot_rollback_fuse_version_save dma (fuse_bit_mask ?v) m) a = m a" if "a \<notin> {0x1A00B0 ..< 0x1A00C0}" for a
      unfolding save_fuses [OF assms(1)] snd_conv
    proof (rule mem_write_other)
      fix i assume "i < length (le_bytes64 (fuse_bit_mask ?v) @ replicate 8 0)"
      then have "i < 16" by (simp add: le_bytes64_def)
      moreover have "unat (0x1A00B0 + of_nat i :: u32) = 0x1A00B0 + i"
        using unat_addr_offset [of "0x1A00B0" i] \<open>i < 16\<close> by simp
      ultimately show "a \<noteq> 0x1A00B0 + of_nat i" using that by (auto simp: word_le_nat_alt word_less_nat_alt)
    qed
    show ?thesis using upd False saved_version [OF assms(1) v(1), of m] v frame by auto
  qed
qed

theorem rollback_update_version_witness:
  "\<exists>m'. boot_rollback_update_fuse_version (\<lambda>a bs m. mem_write m a bs) SEC_IMG_AUTH_APP_IMG
      (Some \<lparr>auth_enabled = True, hash_integrity_check_disabled = False, debug_override = False, anti_rollback_unlock = True,
             sw_id = 0x300000001\<rparr>) (\<lambda>_. 0) = Some (BL_ERR_NONE, m') \<and> fuse_version m' = 3"
proof -
  let ?st = "\<lparr>auth_enabled = True, hash_integrity_check_disabled = False, debug_override = False, anti_rollback_unlock = True,
             sw_id = 0x300000001\<rparr>"
  have v: "sw_version_of ?st = 3" by (simp add: sw_version_of_def)
  have z: "fuse_version (\<lambda>_. 0) = 0" by (simp add: fuse_version_def read_u32_def)
  show ?thesis
    using rollback_update_version [of "\<lambda>a bs m. mem_write m a bs" SEC_IMG_AUTH_APP_IMG ?st "\<lambda>_. 0"] z
    by (auto simp: dma_copies_def v)
qed

text \<open>C25: The search for the set of an image that is not in the first entry of the table never
  returns: the loop over the table neither advances its counter nor the entry it looks at.\<close>

theorem rollback_unknown_image_hangs:
  assumes "img \<notin> {SEC_IMG_AUTH_SBL_IMG, SEC_IMG_AUTH_APP_IMG, SEC_IMG_AUTH_NUM_SUPPORTED_IMG}"
  shows "boot_rollback_get_set_by_img_type boot_rollback_version_img_set_table img = None"
proof -
  have "\<not> (c < e \<and> i \<notin> set (sec_sw_img_list s))" if "get_set_loop s c e i = Some r" for s c e i r
    using get_set_loop.raw_induct [where P = "\<lambda>s c e i r. \<not> (c < e \<and> i \<notin> set (sec_sw_img_list s))", OF _ that]
    by (fastforce simp: list_ex_iff split: if_splits)
  then have "get_set_loop s c e i = None" if "c < e" "i \<notin> set (sec_sw_img_list s)" for s c e i
    using that by fastforce
  then show ?thesis using assms
    by (simp add: boot_rollback_get_set_by_img_type_def boot_rollback_version_img_set_table_def)
qed

theorem rollback_unknown_image_hangs_witness:
  "boot_rollback_get_set_by_img_type boot_rollback_version_img_set_table 2 = None"
  by (rule rollback_unknown_image_hangs)
    (simp add: SEC_IMG_AUTH_SBL_IMG_def SEC_IMG_AUTH_APP_IMG_def SEC_IMG_AUTH_NUM_SUPPORTED_IMG_def)

end
