(* ===== verification/Elf_Correct.thy ===== *)
theory Elf_Correct
  imports Elf_Loader Flash_Props Rram_Correct
begin

text \<open>
  What the ELF loader puts into memory, proved once for every place an image can be loaded
  from: the locale \<open>image_source\<close> is the contract between the memory layer (\<open>boot_elf_mem_read\<close>,
  \<open>boot_elf_mem_set\<close>) and the loader. The interpretations at the end discharge it for the
  operations table of the boot loader: flash to RAM, flash to RRAM and RRAM to RRAM.
\<close>

section \<open>What a loaded image is\<close>

text \<open>Destination and contents of a segment; an image in copy mode goes to the physical addresses, without zeroed tail.\<close>

definition seg_dest :: "boot_elf_load_type \<Rightarrow> boot_elf32_phdr \<Rightarrow> addr" where
  "seg_dest ty ph = (if ty = BOOT_ELF_LOAD_COPY then p_paddr ph else p_vaddr ph)"

definition seg_bytes :: "memory \<Rightarrow> addr \<Rightarrow> boot_elf_load_type \<Rightarrow> boot_elf32_phdr \<Rightarrow> bytes" where
  "seg_bytes img elf ty ph =
     mem_read img (elf + p_offset ph) (unat (p_filesz ph)) @
     (if ty = BOOT_ELF_LOAD_COPY then [] else replicate (unat (p_memsz ph) - unat (p_filesz ph)) 0)"

text \<open>The segments the loader copies: type \<open>PT_LOAD\<close> with bytes in the file, and for a RAM load
  an address in RAM. A loadable segment with file size 0 (only zero-initialised data or heap)
  is skipped whatever its memory size: it is neither copied nor zeroed.\<close>

definition seg_loaded :: "boot_elf_load_type \<Rightarrow> boot_elf32_phdr \<Rightarrow> bool" where
  "seg_loaded ty ph \<longleftrightarrow> p_type ph = PT_LOAD \<and> p_filesz ph \<noteq> 0 \<and> (ty = BOOT_ELF_LOAD_RAM \<longrightarrow> p_vaddr ph < FRN_RAM_END)"

definition seg_write :: "memory \<Rightarrow> addr \<Rightarrow> boot_elf_load_type \<Rightarrow> boot_elf32_phdr \<Rightarrow> memory \<Rightarrow> memory" where
  "seg_write img elf ty ph m = (if seg_loaded ty ph then mem_write m (seg_dest ty ph) (seg_bytes img elf ty ph) else m)"

definition image_loaded :: "memory \<Rightarrow> addr \<Rightarrow> boot_elf_load_type \<Rightarrow> boot_elf32_phdr list \<Rightarrow> memory \<Rightarrow> memory" where
  "image_loaded img elf ty phs m = fold (seg_write img elf ty) phs m"

abbreviation hdrs_size :: nat where "hdrs_size \<equiv> 1280"

lemma length_seg_bytes:
  "length (seg_bytes img elf ty ph) =
     (if ty = BOOT_ELF_LOAD_COPY then unat (p_filesz ph) else max (unat (p_filesz ph)) (unat (p_memsz ph)))"
  by (simp add: seg_bytes_def max_def)

text \<open>A segment the store holds, whose parts have a valid destination away from the loader's headers.\<close>

definition seg_fits ::
    "(addr \<Rightarrow> nat \<Rightarrow> bool) \<Rightarrow> (addr \<Rightarrow> nat \<Rightarrow> bool) \<Rightarrow> addr \<Rightarrow> addr \<Rightarrow> boot_elf_load_type \<Rightarrow> boot_elf32_phdr \<Rightarrow> bool" where
  "seg_fits from_ok to_ok hdrs elf ty ph \<longleftrightarrow>
     p_filesz ph \<le> p_memsz ph \<and> from_ok (elf + p_offset ph) (unat (p_filesz ph))
     \<and> to_ok (seg_dest ty ph) (unat (p_filesz ph))
     \<and> (ty \<noteq> BOOT_ELF_LOAD_COPY \<longrightarrow> p_filesz ph < p_memsz ph \<longrightarrow>
          to_ok (seg_dest ty ph + p_filesz ph) (unat (p_memsz ph) - unat (p_filesz ph)))
     \<and> apart hdrs hdrs_size (seg_dest ty ph) (if ty = BOOT_ELF_LOAD_COPY then unat (p_filesz ph) else unat (p_memsz ph))"

lemma prog_hdr_apart:
  assumes "apart (prog_hdrs_addr l) hdrs_size d (length bs)" and "i < 40"
  shows "prog_hdr l (mem_write m d bs) i = prog_hdr l m i"
proof -
  have u: "unat (prog_hdrs_addr l + of_nat (i * PHDR_SIZE)) = unat (prog_hdrs_addr l) + i * 32"
    using assms by (subst unat_addr_offset) (auto simp: apart_def PHDR_SIZE_def)
  have "apart (prog_hdrs_addr l + of_nat (i * PHDR_SIZE)) PHDR_SIZE d (length bs)"
    using assms u by (auto simp: PHDR_SIZE_def intro: apart_sub)
  then show ?thesis by (simp add: prog_hdr_def mem_read_write_apart)
qed

lemma prog_hdr_seg_write:
  assumes "seg_loaded ty ph \<Longrightarrow> seg_fits from_ok to_ok (prog_hdrs_addr l) elf ty ph" and "i < 40"
  shows "prog_hdr l (seg_write img elf ty ph m) i = prog_hdr l m i"
proof -
  have "apart (prog_hdrs_addr l) hdrs_size (seg_dest ty ph) (length (seg_bytes img elf ty ph))" if "seg_loaded ty ph"
    using assms(1) [OF that] by (auto simp: seg_fits_def length_seg_bytes word_le_nat_alt max_absorb2)
  then show ?thesis using assms(2) by (simp add: seg_write_def prog_hdr_apart)
qed

text \<open>The headers of an image.\<close>

definition image_hdr :: "memory \<Rightarrow> addr \<Rightarrow> boot_elf32_ehdr" where
  "image_hdr img elf = decode_ehdr (mem_read img elf EHDR_SIZE)"

definition image_phdr :: "memory \<Rightarrow> addr \<Rightarrow> nat \<Rightarrow> boot_elf32_phdr" where
  "image_phdr img elf i = decode_phdr (mem_read img (elf + e_phoff (image_hdr img elf) + of_nat (i * PHDR_SIZE)) PHDR_SIZE)"

text \<open>In the final memory every loaded segment reads as its contents, and everything else is untouched.\<close>

definition seg_present :: "memory \<Rightarrow> addr \<Rightarrow> boot_elf_load_type \<Rightarrow> boot_elf32_phdr \<Rightarrow> memory \<Rightarrow> bool" where
  "seg_present img elf ty ph m \<longleftrightarrow> mem_read m (seg_dest ty ph) (length (seg_bytes img elf ty ph)) = seg_bytes img elf ty ph"

definition in_seg :: "memory \<Rightarrow> addr \<Rightarrow> boot_elf_load_type \<Rightarrow> boot_elf32_phdr \<Rightarrow> addr \<Rightarrow> bool" where
  "in_seg img elf ty ph x \<longleftrightarrow> (\<exists>k < length (seg_bytes img elf ty ph). x = seg_dest ty ph + of_nat k)"

definition segs_apart :: "memory \<Rightarrow> addr \<Rightarrow> boot_elf_load_type \<Rightarrow> boot_elf32_phdr \<Rightarrow> boot_elf32_phdr \<Rightarrow> bool" where
  "segs_apart img elf ty p q \<longleftrightarrow>
     apart (seg_dest ty p) (length (seg_bytes img elf ty p)) (seg_dest ty q) (length (seg_bytes img elf ty q))"

lemma seg_write_read:
  "seg_loaded ty ph \<Longrightarrow>
     mem_read (seg_write img elf ty ph m) (seg_dest ty ph) (length (seg_bytes img elf ty ph)) = seg_bytes img elf ty ph"
  unfolding seg_write_def
  using unsigned_less [of "p_filesz ph", where ?'a = nat] unsigned_less [of "p_memsz ph", where ?'a = nat]
  by (simp del: length_append) (rule mem_read_write_same, simp add: length_seg_bytes)

lemma image_loaded_segment:
  assumes "i < length phs" and "seg_loaded ty (phs ! i)"
    and "\<And>j. j < length phs \<Longrightarrow> j \<noteq> i \<Longrightarrow> seg_loaded ty (phs ! j) \<Longrightarrow>
        apart (seg_dest ty (phs ! i)) (length (seg_bytes img elf ty (phs ! i))) (seg_dest ty (phs ! j)) (length (seg_bytes img elf ty (phs ! j)))"
  shows "mem_read (image_loaded img elf ty phs m) (seg_dest ty (phs ! i)) (length (seg_bytes img elf ty (phs ! i))) = seg_bytes img elf ty (phs ! i)"
  using assms
proof (induction phs rule: rev_induct)
  case (snoc ph phs)
  show ?case
  proof (cases "i = length phs")
    case True
    then show ?thesis using snoc.prems(2) seg_write_read by (simp add: image_loaded_def)
  next
    case False
    then have i: "i < length phs" using snoc.prems(1) by simp
    have "mem_read (image_loaded img elf ty phs m) (seg_dest ty (phs ! i)) (length (seg_bytes img elf ty (phs ! i))) = seg_bytes img elf ty (phs ! i)"
    proof (rule snoc.IH [OF i])
      show "seg_loaded ty (phs ! i)" using snoc.prems(2) i by (simp add: nth_append)
      fix j assume "j < length phs" "j \<noteq> i" "seg_loaded ty (phs ! j)"
      then show "apart (seg_dest ty (phs ! i)) (length (seg_bytes img elf ty (phs ! i))) (seg_dest ty (phs ! j)) (length (seg_bytes img elf ty (phs ! j)))"
        using snoc.prems(3) [of j] i by (simp add: nth_append)
    qed
    moreover have "mem_read (seg_write img elf ty ph m') (seg_dest ty (phs ! i)) (length (seg_bytes img elf ty (phs ! i)))
        = mem_read m' (seg_dest ty (phs ! i)) (length (seg_bytes img elf ty (phs ! i)))" for m'
      using snoc.prems(3) [of "length phs"] i False by (simp add: seg_write_def mem_read_write_apart nth_append)
    ultimately show ?thesis using i by (simp add: image_loaded_def nth_append)
  qed
qed simp

lemma image_loaded_frame:
  assumes "\<And>ph k. ph \<in> set phs \<Longrightarrow> seg_loaded ty ph \<Longrightarrow> k < length (seg_bytes img elf ty ph) \<Longrightarrow> x \<noteq> seg_dest ty ph + of_nat k"
  shows "image_loaded img elf ty phs m x = m x"
  using assms
proof (induction phs rule: rev_induct)
  case (snoc ph phs)
  have "seg_write img elf ty ph m' x = m' x" for m'
    using snoc.prems [of ph] by (auto simp: seg_write_def intro!: mem_write_other)
  moreover have "image_loaded img elf ty phs m x = m x" by (rule snoc.IH) (use snoc.prems in auto)
  ultimately show ?case by (simp add: image_loaded_def)
qed (simp add: image_loaded_def)

lemma mem_read_slice:
  assumes "i + k \<le> length bs" and "length bs \<le> 2 ^ 32"
  shows "mem_read (mem_write m a bs) (a + of_nat i) k = take k (drop i bs)"
proof (rule nth_equalityI)
  fix j assume "j < length (mem_read (mem_write m a bs) (a + of_nat i) k)"
  then have j: "j < k" by simp
  have "mem_write m a bs (a + of_nat (i + j)) = bs ! (i + j)" by (rule mem_write_nth) (use assms j in simp_all)
  then show "mem_read (mem_write m a bs) (a + of_nat i) k ! j = take k (drop i bs) ! j"
    using assms j by (simp add: add.assoc)
qed (use assms in simp)

text \<open>The bytes of the loader's two headers.\<close>

definition in_headers :: "'d boot_elf_loader \<Rightarrow> addr \<Rightarrow> bool" where
  "in_headers l x \<longleftrightarrow> (\<exists>k < EHDR_SIZE + hdrs_size. x = hdr_addr l + of_nat k)"

lemma headers_frame:
  assumes "\<not> in_headers l x"
  shows "length bs \<le> EHDR_SIZE \<Longrightarrow> mem_write m (hdr_addr l) bs x = m x"
    and "length bs \<le> hdrs_size \<Longrightarrow> mem_write m (prog_hdrs_addr l) bs x = m x"
proof -
  assume "length bs \<le> EHDR_SIZE"
  then show "mem_write m (hdr_addr l) bs x = m x"
    by (intro mem_write_other) (use assms in \<open>auto simp: in_headers_def\<close>)
next
  assume len: "length bs \<le> hdrs_size"
  have e: "prog_hdrs_addr l + of_nat k = hdr_addr l + of_nat (EHDR_SIZE + k)" for k
    by (simp add: prog_hdrs_addr_def hdr_addr_def add.assoc)
  show "mem_write m (prog_hdrs_addr l) bs x = m x"
  proof (rule mem_write_other)
    fix k assume "k < length bs"
    then have "EHDR_SIZE + k < EHDR_SIZE + hdrs_size" using len by simp
    then show "x \<noteq> prog_hdrs_addr l + of_nat k" unfolding e using assms unfolding in_headers_def by blast
  qed
qed

text \<open>The start of the initialisation: zero both headers.\<close>

definition zeroed :: "'d boot_elf_loader \<Rightarrow> 'd boot \<Rightarrow> 'd boot" where
  "zeroed l s = s\<lparr>bt_mem := mem_write (mem_write (bt_mem s) (hdr_addr l) (replicate EHDR_SIZE 0)) (prog_hdrs_addr l) (replicate hdrs_size 0)\<rparr>"

lemma init_zeroed:
  assumes "elf \<noteq> NULL" and "boot_elf_mem_op_init op_cfg = (BL_ERR_NONE, ops)" and "l1 = l\<lparr>el_ops := ops, el_elf_addr := elf\<rparr>"
  shows "boot_elf_load_init l elf op_cfg s =
     do {
       (result, s) \<leftarrow> boot_elf_load_elf_header l1 (zeroed l s);
       if result \<noteq> BL_ERR_NONE then Some (result, l1, s)
       else do {
         (result, s) \<leftarrow> boot_elf_load_prog_hdrs l1 s;
         if result \<noteq> BL_ERR_NONE then Some (result, l1, s)
         else Some (BL_ERR_NONE, l1\<lparr>el_phr_num := ucast (e_phnum (elf_hdr l1 (bt_mem s)))\<rparr>, s)
       }
     }"
  unfolding assms(3) using assms(1,2) by (simp add: boot_elf_load_init_def zeroed_def Let_def PHDR_SIZE_def MI_PBT_MAX_SEGMENTS_def)

section \<open>Contract of the memory layer\<close>

text \<open>
  \<open>img\<close> is the image store as the loader addresses it, \<open>inv\<close> what keeps the store readable,
  \<open>from_ok\<close> and \<open>to_ok\<close> the ranges that can be read from it and written to.
\<close>

locale image_source =
  fixes ops :: "'d bl_elf_mem_op list" and inv :: "'d boot \<Rightarrow> bool" and img :: memory
    and from_ok to_ok :: "addr \<Rightarrow> nat \<Rightarrow> bool"
  assumes read_copies:
      "inv s \<Longrightarrow> from_ok a (unat n) \<Longrightarrow> to_ok d (unat n) \<Longrightarrow> n \<noteq> 0 \<Longrightarrow>
       \<exists>s'. boot_elf_mem_read a d n ops s = Some (BL_ERR_NONE, s') \<and> inv s'
          \<and> bt_mem s' = mem_write (bt_mem s) d (mem_read img a (unat n))"
    and set_fills:
      "inv s \<Longrightarrow> to_ok d (unat n) \<Longrightarrow> n \<noteq> 0 \<Longrightarrow>
       \<exists>s'. boot_elf_mem_set d v n ops s = Some (BL_ERR_NONE, s') \<and> inv s'
          \<and> bt_mem s' = mem_write (bt_mem s) d (replicate (unat n) (ucast v))"
    and to_top: "to_ok d k \<Longrightarrow> unat d + k < 2 ^ 32"
    and to_shorter: "to_ok d k \<Longrightarrow> j \<le> k \<Longrightarrow> to_ok d j"
    and write_keeps: "inv s \<Longrightarrow> to_ok d (length bs) \<Longrightarrow> inv (s\<lparr>bt_mem := mem_write (bt_mem s) d bs\<rparr>)"
begin

lemma segment_loads:
  assumes inv: "inv s" and elf: "el_elf_addr l \<noteq> NULL" and ops: "el_ops l = ops"
    and idx: "i < unat (el_phr_num l)" "i < 40" and ok: "seg_loaded ty (prog_hdr l (bt_mem s) i) \<Longrightarrow>
        seg_fits from_ok to_ok (prog_hdrs_addr l) (el_elf_addr l) ty (prog_hdr l (bt_mem s) i)"
  shows "\<exists>s'. load_segment l ty i s = Some (BL_ERR_NONE, s') \<and> inv s'
     \<and> bt_mem s' = seg_write img (el_elf_addr l) ty (prog_hdr l (bt_mem s) i) (bt_mem s)"
proof (cases "seg_loaded ty (prog_hdr l (bt_mem s) i)")
  case False
  then show ?thesis using assms
    by (cases ty) (auto simp: load_segment_def seg_loaded_def seg_write_def boot_elf_load_generic_segment_def Let_def)
next
  case True
  define ph where "ph = prog_hdr l (bt_mem s) i"
  define elf where "elf = el_elf_addr l"
  define d where "d = seg_dest ty ph"
  define f where "f = mem_read img (elf + p_offset ph) (unat (p_filesz ph))"
  note so = ok [OF True, folded ph_def, unfolded seg_fits_def, folded d_def elf_def]
  have ld: "load_segment l ty i s = boot_elf_load_generic_segment l i 0 d (if ty = BOOT_ELF_LOAD_COPY then p_filesz ph else p_memsz ph) s"
    using True by (cases ty) (auto simp: load_segment_def seg_loaded_def seg_dest_def d_def ph_def Let_def)
  have fz: "p_filesz ph \<noteq> 0" "p_filesz ph \<le> p_memsz ph" using True so by (simp_all add: seg_loaded_def ph_def)
  obtain s1 where s1: "boot_elf_mem_read (elf + p_offset ph) d (p_filesz ph) ops s = Some (BL_ERR_NONE, s1)" "inv s1"
      "bt_mem s1 = mem_write (bt_mem s) d f"
    using read_copies [OF inv _ _ fz(1), of "elf + p_offset ph" d] so by (auto simp: f_def)
  have lf: "length f = unat (p_filesz ph)" by (simp add: f_def)
  have "apart (prog_hdrs_addr l) hdrs_size d (length f)"
    using so lf by (auto simp: apart_def word_le_nat_alt split: if_splits)
  then have ph1: "prog_hdr l (bt_mem s1) i = ph" using idx(2) by (simp add: s1(3) prog_hdr_apart ph_def)
  have nz: "p_memsz ph \<noteq> 0" using fz by (auto simp: word_le_nat_alt unat_eq_zero)
  let ?rd = "bytes_to_read ph 0 (if ty = BOOT_ELF_LOAD_COPY then p_filesz ph else p_memsz ph)"
  have rd: "?rd = p_filesz ph" using fz by (auto simp: bytes_to_read_def)
  show ?thesis
  proof (cases "ty \<noteq> BOOT_ELF_LOAD_COPY \<and> p_filesz ph < p_memsz ph")
    case False
    then have "bytes_to_set ph (p_filesz ph) (if ty = BOOT_ELF_LOAD_COPY then p_filesz ph else p_memsz ph) = 0"
      by (auto simp: bytes_to_set_def)
    then have "load_segment l ty i s = Some (BL_ERR_NONE, s1)"
      unfolding ld using elf ops idx(1) fz nz rd s1(1)
      by (simp add: boot_elf_load_generic_segment_def ph_def [symmetric] elf_def [symmetric] Let_def)
    moreover have "seg_bytes img elf ty ph = f"
      using False fz by (auto simp: seg_bytes_def f_def word_le_nat_alt word_less_nat_alt)
    ultimately show ?thesis using s1 True by (simp add: seg_write_def ph_def [symmetric] elf_def [symmetric] d_def [symmetric])
  next
    case tail: True
    then have st: "bytes_to_set ph (p_filesz ph) (p_memsz ph) = p_memsz ph - p_filesz ph" "p_memsz ph - p_filesz ph \<noteq> 0"
      by (auto simp: bytes_to_set_def)
    have un: "unat (p_memsz ph - p_filesz ph) = unat (p_memsz ph) - unat (p_filesz ph)"
      using fz by (simp add: unat_sub)
    have "unat d + unat (p_filesz ph) < 2 ^ 32" using so to_top by blast
    then have nowrap: "d \<le> d + p_filesz ph" by (simp add: word_le_nat_alt unat_word_ariths)
    obtain s2 where s2: "boot_elf_mem_set (d + p_filesz ph) 0 (p_memsz ph - p_filesz ph) ops s1 = Some (BL_ERR_NONE, s2)" "inv s2"
        "bt_mem s2 = mem_write (bt_mem s1) (d + p_filesz ph) (replicate (unat (p_memsz ph - p_filesz ph)) 0)"
      using set_fills [OF s1(2) _ st(2), of "d + p_filesz ph" 0] so tail un by auto
    have "load_segment l ty i s = Some (BL_ERR_NONE, s2)"
      unfolding ld using elf ops idx(1) fz nz rd s1(1) s2(1) st tail nowrap
      by (simp add: boot_elf_load_generic_segment_def ph_def [symmetric] elf_def [symmetric] Let_def ph1)
    moreover have "seg_bytes img elf ty ph = f @ replicate (unat (p_memsz ph - p_filesz ph)) 0"
      using tail by (simp add: seg_bytes_def f_def un)
    ultimately show ?thesis using s1(3) s2 True lf
      by (simp add: seg_write_def ph_def [symmetric] elf_def [symmetric] d_def [symmetric] mem_write_append)
  qed
qed

lemma segments_load:
  assumes "inv s" and elf: "el_elf_addr l \<noteq> NULL" and ops: "el_ops l = ops"
    and idx: "\<And>i. i \<in> set is \<Longrightarrow> i < unat (el_phr_num l) \<and> i < 40"
    and "\<And>i. i \<in> set is \<Longrightarrow> seg_loaded ty (prog_hdr l (bt_mem s) i) \<Longrightarrow>
        seg_fits from_ok to_ok (prog_hdrs_addr l) (el_elf_addr l) ty (prog_hdr l (bt_mem s) i)"
  shows "\<exists>s'. load_segments l ty is s = Some (BL_ERR_NONE, s') \<and> inv s'
     \<and> bt_mem s' = image_loaded img (el_elf_addr l) ty (map (prog_hdr l (bt_mem s)) is) (bt_mem s)"
  using assms
proof (induction "is" arbitrary: s)
  case (Cons i "is")
  have i: "i < unat (el_phr_num l)" "i < 40" using Cons.prems(4) [of i] by auto
  obtain s1 where s1: "load_segment l ty i s = Some (BL_ERR_NONE, s1)" "inv s1"
      "bt_mem s1 = seg_write img (el_elf_addr l) ty (prog_hdr l (bt_mem s) i) (bt_mem s)"
    using segment_loads [OF Cons.prems(1-3) i] Cons.prems(5) [of i] by auto
  have h: "prog_hdr l (bt_mem s1) j = prog_hdr l (bt_mem s) j" if "j < 40" for j
    unfolding s1(3) by (rule prog_hdr_seg_write) (use Cons.prems(5) [of i] that in auto)
  have "\<exists>s'. load_segments l ty is s1 = Some (BL_ERR_NONE, s') \<and> inv s'
     \<and> bt_mem s' = image_loaded img (el_elf_addr l) ty (map (prog_hdr l (bt_mem s1)) is) (bt_mem s1)"
    by (rule Cons.IH) (use Cons.prems(2-5) s1(2) h in auto)
  then obtain s' where s': "load_segments l ty is s1 = Some (BL_ERR_NONE, s')" "inv s'"
      "bt_mem s' = image_loaded img (el_elf_addr l) ty (map (prog_hdr l (bt_mem s1)) is) (bt_mem s1)" by blast
  moreover have same: "map (prog_hdr l (bt_mem s1)) is = map (prog_hdr l (bt_mem s)) is" using h Cons.prems(4) by auto
  have "bt_mem s' = image_loaded img (el_elf_addr l) ty (map (prog_hdr l (bt_mem s)) (i # is)) (bt_mem s)"
    unfolding s'(3) same unfolding s1(3) by (simp add: image_loaded_def)
  then show ?case using s1(1) s'(1,2) by auto
qed (simp add: image_loaded_def)

lemma image_loads:
  assumes "inv s" and "el_elf_addr l \<noteq> NULL" and "el_ops l = ops" and "unat (el_phr_num l) \<le> 40"
    and "\<And>i. i < unat (el_phr_num l) \<Longrightarrow> seg_loaded ty (prog_hdr l (bt_mem s) i) \<Longrightarrow>
        seg_fits from_ok to_ok (prog_hdrs_addr l) (el_elf_addr l) ty (prog_hdr l (bt_mem s) i)"
  shows "\<exists>s'. boot_elf_load_image l ty s = Some (BL_ERR_NONE, s') \<and> inv s'
     \<and> bt_mem s' = image_loaded img (el_elf_addr l) ty (map (prog_hdr l (bt_mem s)) [0 ..< unat (el_phr_num l)]) (bt_mem s)"
  unfolding boot_elf_load_image_def using assms segments_load [OF assms(1-3), of "[0 ..< unat (el_phr_num l)]" ty] by auto

text \<open>Initialisation reads both headers into the object and reports what the validation says.\<close>

lemma header_loads:
  assumes "inv s" and "el_elf_addr l \<noteq> NULL" and "el_ops l = ops" and "to_ok (hdr_addr l) EHDR_SIZE" and "from_ok (el_elf_addr l) EHDR_SIZE"
  shows "\<exists>s'. boot_elf_load_elf_header l s = Some (boot_elf_validate_elf_header (image_hdr img (el_elf_addr l)), s') \<and> inv s'
     \<and> bt_mem s' = mem_write (bt_mem s) (hdr_addr l) (mem_read img (el_elf_addr l) EHDR_SIZE)"
proof -
  have n: "unat (of_nat EHDR_SIZE :: u32) = EHDR_SIZE" "(of_nat EHDR_SIZE :: u32) \<noteq> 0" by (simp_all add: EHDR_SIZE_def)
  obtain s1 where s1: "boot_elf_mem_read (el_elf_addr l) (hdr_addr l) (of_nat EHDR_SIZE) ops s = Some (BL_ERR_NONE, s1)" "inv s1"
      "bt_mem s1 = mem_write (bt_mem s) (hdr_addr l) (mem_read img (el_elf_addr l) EHDR_SIZE)"
    using read_copies [OF assms(1) _ _ n(2), of "el_elf_addr l" "hdr_addr l"] assms(4,5) n(1) by auto
  have "elf_hdr l (bt_mem s1) = image_hdr img (el_elf_addr l)"
    using mem_read_write_same [of "mem_read img (el_elf_addr l) EHDR_SIZE" "bt_mem s" "hdr_addr l"]
    by (simp add: elf_hdr_def image_hdr_def s1(3) EHDR_SIZE_def)
  then show ?thesis using assms(2,3) s1 by (auto simp: boot_elf_load_elf_header_def)
qed

lemma prog_hdrs_load:
  assumes "inv s" and "el_elf_addr l \<noteq> NULL" and "el_ops l = ops" and hdr: "elf_hdr l (bt_mem s) = h"
    and h: "e_phentsize h = of_nat PHDR_SIZE" "e_phnum h \<noteq> 0" "e_phnum h \<le> MI_PBT_MAX_SEGMENTS"
    and "to_ok (prog_hdrs_addr l) hdrs_size" and "from_ok (el_elf_addr l + e_phoff h) (unat (e_phnum h) * PHDR_SIZE)"
  shows "\<exists>s'. boot_elf_load_prog_hdrs l s = Some (BL_ERR_NONE, s') \<and> inv s'
     \<and> bt_mem s' = mem_write (bt_mem s) (prog_hdrs_addr l) (mem_read img (el_elf_addr l + e_phoff h) (unat (e_phnum h) * PHDR_SIZE))"
proof -
  define n where "n = (ucast (e_phnum h) * ucast (e_phentsize h) :: u32)"
  have "unat (e_phnum h) \<le> 40" using h(3) by (simp add: MI_PBT_MAX_SEGMENTS_def word_le_nat_alt)
  then have n: "unat n = unat (e_phnum h) * PHDR_SIZE" "unat n \<le> hdrs_size"
    by (simp_all add: n_def h(1) PHDR_SIZE_def unat_word_ariths)
  have "unat (e_phnum h) \<noteq> 0" using h(2) by (simp add: unat_eq_zero)
  then have "n \<noteq> 0" using n(1) by (auto simp: PHDR_SIZE_def)
  then show ?thesis
    using read_copies [OF assms(1), of "el_elf_addr l + e_phoff h" n "prog_hdrs_addr l"] assms(2,3,8,9) n hdr to_shorter
    by (simp add: boot_elf_load_prog_hdrs_def Let_def n_def [symmetric])
qed

lemma zeroed_keeps:
  assumes "inv s" and "to_ok (hdr_addr l) EHDR_SIZE" and "to_ok (prog_hdrs_addr l) hdrs_size"
  shows "inv (zeroed l s)"
proof -
  have "inv (s\<lparr>bt_mem := mem_write (bt_mem s) (hdr_addr l) (replicate EHDR_SIZE 0)\<rparr>)"
    by (rule write_keeps) (use assms in simp_all)
  from write_keeps [OF this, of "prog_hdrs_addr l" "replicate hdrs_size 0"] show ?thesis
    using assms(3) by (simp add: zeroed_def)
qed

lemma init_loads:
  assumes inv: "inv s" and elf: "elf \<noteq> NULL" and ops: "boot_elf_mem_op_init op_cfg = (BL_ERR_NONE, ops)"
    and to: "to_ok (hdr_addr l) EHDR_SIZE" "to_ok (prog_hdrs_addr l) hdrs_size" and src: "from_ok elf EHDR_SIZE"
    and valid: "boot_elf_validate_elf_header (image_hdr img elf) = BL_ERR_NONE"
    and phs: "e_phnum (image_hdr img elf) \<noteq> 0"
      "from_ok (elf + e_phoff (image_hdr img elf)) (unat (e_phnum (image_hdr img elf)) * PHDR_SIZE)"
  shows "\<exists>s'. boot_elf_load_init l elf op_cfg s = Some (BL_ERR_NONE,
            l\<lparr>el_ops := ops, el_elf_addr := elf, el_phr_num := ucast (e_phnum (image_hdr img elf))\<rparr>, s') \<and> inv s'
     \<and> (\<forall>i < unat (e_phnum (image_hdr img elf)). prog_hdr l (bt_mem s') i = image_phdr img elf i)
     \<and> (\<forall>x. \<not> in_headers l x \<longrightarrow> bt_mem s' x = bt_mem s x)"
proof -
  define h where "h = image_hdr img elf"
  define n where "n = unat (e_phnum h)"
  define l1 where "l1 = l\<lparr>el_ops := ops, el_elf_addr := elf\<rparr>"
  have addrs: "hdr_addr l1 = hdr_addr l" "prog_hdrs_addr l1 = prog_hdrs_addr l" "el_elf_addr l1 = elf" "el_ops l1 = ops"
    by (simp_all add: l1_def hdr_addr_def prog_hdrs_addr_def)
  have hd: "e_phentsize h = of_nat PHDR_SIZE" "e_phnum h \<le> MI_PBT_MAX_SEGMENTS"
    using valid by (auto simp: boot_elf_validate_elf_header_def h_def not_less split: if_splits)
  then have n40: "n \<le> 40" by (simp add: n_def MI_PBT_MAX_SEGMENTS_def word_le_nat_alt)
  define z where "z = bt_mem (zeroed l s)"
  note inv0 = zeroed_keeps [OF inv to]
  obtain s1 where s1: "boot_elf_load_elf_header l1 (zeroed l s) = Some (BL_ERR_NONE, s1)" "inv s1"
      "bt_mem s1 = mem_write z (hdr_addr l) (mem_read img elf EHDR_SIZE)"
    using header_loads [OF inv0, of l1] addrs elf to(1) src valid by (auto simp: z_def)
  have rd: "mem_read (bt_mem s1) (hdr_addr l) EHDR_SIZE = mem_read img elf EHDR_SIZE"
    using mem_read_write_same [of "mem_read img elf EHDR_SIZE" z "hdr_addr l"] by (simp add: s1(3) EHDR_SIZE_def)
  then have h1: "elf_hdr l1 (bt_mem s1) = h" by (simp add: elf_hdr_def h_def image_hdr_def addrs)
  define pb where "pb = mem_read img (elf + e_phoff h) (n * PHDR_SIZE)"
  obtain s2 where s2: "boot_elf_load_prog_hdrs l1 s1 = Some (BL_ERR_NONE, s2)" "inv s2" "bt_mem s2 = mem_write (bt_mem s1) (prog_hdrs_addr l) pb"
    using prog_hdrs_load [OF s1(2) _ _ h1 hd(1) _ hd(2)] addrs elf to(2) phs by (auto simp: h_def n_def pb_def)
  have lp: "length pb \<le> hdrs_size" using n40 by (simp add: pb_def PHDR_SIZE_def)
  have "unat (prog_hdrs_addr l) = unat (hdr_addr l) + EHDR_SIZE"
    using to_top [OF to(1)] unat_addr_offset [of "hdr_addr l" EHDR_SIZE] by (simp add: prog_hdrs_addr_def hdr_addr_def)
  then have "apart (hdr_addr l) EHDR_SIZE (prog_hdrs_addr l) (length pb)"
    using to_top [OF to(1)] to_top [OF to(2)] lp by (auto simp: apart_def)
  then have h2: "elf_hdr l1 (bt_mem s2) = h"
    using h1 by (simp add: elf_hdr_def addrs s2(3) mem_read_write_apart)
  have "prog_hdr l (bt_mem s2) i = image_phdr img elf i" if "i < n" for i
  proof -
    have "i * PHDR_SIZE + PHDR_SIZE \<le> n * PHDR_SIZE" using that by (simp add: PHDR_SIZE_def)
    then have sl: "i * PHDR_SIZE + PHDR_SIZE \<le> length pb" "length pb \<le> 2 ^ 32" using lp by (simp_all add: pb_def)
    have "take PHDR_SIZE (drop (i * PHDR_SIZE) pb) = mem_read img (elf + e_phoff h + of_nat (i * PHDR_SIZE)) PHDR_SIZE"
      using sl(1) unfolding pb_def drop_mem_read length_mem_read by (intro mem_read_take) simp
    then show ?thesis
      using mem_read_slice [OF sl, of "bt_mem s1" "prog_hdrs_addr l"] by (simp add: prog_hdr_def image_phdr_def s2(3) h_def)
  qed
  moreover have "bt_mem s2 x = bt_mem s x" if "\<not> in_headers l x" for x
    using headers_frame [OF that] lp by (simp add: s2(3) s1(3) z_def zeroed_def)
  moreover have "boot_elf_load_init l elf op_cfg s = Some (BL_ERR_NONE,
            l\<lparr>el_ops := ops, el_elf_addr := elf, el_phr_num := ucast (e_phnum h)\<rparr>, s2)"
    unfolding init_zeroed [OF elf ops l1_def] using s1(1) s2(1) h2 by (simp add: l1_def)
  ultimately show ?thesis using s2(2) by (auto simp: h_def n_def)
qed

text \<open>An image whose header the validation refuses stops there, with the validation's code.\<close>

lemma init_rejects:
  assumes inv: "inv s" and elf: "elf \<noteq> NULL" and ops: "boot_elf_mem_op_init op_cfg = (BL_ERR_NONE, ops)"
    and to: "to_ok (hdr_addr l) EHDR_SIZE" "to_ok (prog_hdrs_addr l) hdrs_size" and src: "from_ok elf EHDR_SIZE"
    and bad: "boot_elf_validate_elf_header (image_hdr img elf) \<noteq> BL_ERR_NONE"
  shows "\<exists>l' s'. boot_elf_load_init l elf op_cfg s = Some (boot_elf_validate_elf_header (image_hdr img elf), l', s')
     \<and> inv s' \<and> el_base l' = el_base l \<and> (\<forall>x. \<not> in_headers l x \<longrightarrow> bt_mem s' x = bt_mem s x)
     \<and> mem_read (bt_mem s') (prog_hdrs_addr l) hdrs_size = replicate hdrs_size 0"
proof -
  define l1 where "l1 = l\<lparr>el_ops := ops, el_elf_addr := elf\<rparr>"
  have addrs: "hdr_addr l1 = hdr_addr l" "el_elf_addr l1 = elf" "el_ops l1 = ops"
    by (simp_all add: l1_def hdr_addr_def)
  obtain s' where s': "boot_elf_load_elf_header l1 (zeroed l s) = Some (boot_elf_validate_elf_header (image_hdr img elf), s')" "inv s'"
      "bt_mem s' = mem_write (bt_mem (zeroed l s)) (hdr_addr l) (mem_read img elf EHDR_SIZE)"
    using header_loads [OF zeroed_keeps [OF inv to], of l1] addrs elf to src by auto
  have "bt_mem s' x = bt_mem s x" if "\<not> in_headers l x" for x
    using headers_frame [OF that] by (simp add: s'(3) zeroed_def)
  moreover have "mem_read (bt_mem s') (prog_hdrs_addr l) hdrs_size = replicate hdrs_size 0"
  proof -
    have "unat (prog_hdrs_addr l) = unat (hdr_addr l) + EHDR_SIZE"
      using to_top [OF to(1)] unat_addr_offset [of "hdr_addr l" EHDR_SIZE] by (simp add: prog_hdrs_addr_def hdr_addr_def)
    then have "apart (prog_hdrs_addr l) hdrs_size (hdr_addr l) EHDR_SIZE"
      using to_top [OF to(1)] to_top [OF to(2)] by (auto simp: apart_def)
    then show ?thesis
      using mem_read_write_same [of "replicate hdrs_size 0" _ "prog_hdrs_addr l"] by (simp add: s'(3) mem_read_write_apart zeroed_def)
  qed
  ultimately show ?thesis using s'(1,2) bad by (auto simp: init_zeroed [OF elf ops l1_def] l1_def)
qed

text \<open>Initialising the loader and loading, put together.\<close>

lemma load_complete:
  assumes inv: "inv s" and elf: "elf \<noteq> NULL" and ops: "boot_elf_mem_op_init op_cfg = (BL_ERR_NONE, ops)"
    and to: "to_ok (hdr_addr l) EHDR_SIZE" "to_ok (prog_hdrs_addr l) hdrs_size" and src: "from_ok elf EHDR_SIZE"
    and valid: "boot_elf_validate_elf_header (image_hdr img elf) = BL_ERR_NONE"
    and n: "n = unat (e_phnum (image_hdr img elf))" "0 < n" "from_ok (elf + e_phoff (image_hdr img elf)) (n * PHDR_SIZE)"
    and fit: "\<And>i. i < n \<Longrightarrow> seg_loaded ty (image_phdr img elf i) \<Longrightarrow>
        seg_fits from_ok to_ok (prog_hdrs_addr l) elf ty (image_phdr img elf i)"
  shows "\<exists>l' s1 s2. boot_elf_load_init l elf op_cfg s = Some (BL_ERR_NONE, l', s1)
     \<and> boot_elf_load_image l' ty s1 = Some (BL_ERR_NONE, s2) \<and> inv s2
     \<and> bt_mem s2 = image_loaded img elf ty (map (image_phdr img elf) [0 ..< n]) (bt_mem s1)
     \<and> (\<forall>x. \<not> in_headers l x \<longrightarrow> bt_mem s1 x = bt_mem s x)"
proof -
  define h where "h = image_hdr img elf"
  define l' where "l' = l\<lparr>el_ops := ops, el_elf_addr := elf, el_phr_num := ucast (e_phnum h)\<rparr>"
  have nz: "e_phnum h \<noteq> 0" using n(1,2) by (auto simp: h_def)
  obtain s1 where s1: "boot_elf_load_init l elf op_cfg s = Some (BL_ERR_NONE, l', s1)" "inv s1"
      "\<And>i. i < n \<Longrightarrow> prog_hdr l (bt_mem s1) i = image_phdr img elf i" "\<forall>x. \<not> in_headers l x \<longrightarrow> bt_mem s1 x = bt_mem s x"
    using init_loads [OF inv elf ops to src valid nz [unfolded h_def]] n(1,3) by (auto simp: l'_def h_def)
  have ph: "prog_hdr l' m i = prog_hdr l m i" for m i
    by (simp add: prog_hdr_def prog_hdrs_addr_def l'_def)
  have l': "el_elf_addr l' = elf" "el_ops l' = ops" "unat (el_phr_num l') = n" "prog_hdrs_addr l' = prog_hdrs_addr l"
    by (simp_all add: l'_def n(1) h_def prog_hdrs_addr_def)
  have "e_phnum h \<le> MI_PBT_MAX_SEGMENTS"
    using valid by (auto simp: boot_elf_validate_elf_header_def h_def not_less split: if_splits)
  then have n40: "n \<le> 40" by (simp add: n(1) h_def MI_PBT_MAX_SEGMENTS_def word_le_nat_alt)
  obtain s2 where "boot_elf_load_image l' ty s1 = Some (BL_ERR_NONE, s2)" "inv s2"
      "bt_mem s2 = image_loaded img elf ty (map (prog_hdr l' (bt_mem s1)) [0 ..< n]) (bt_mem s1)"
    using image_loads [OF s1(2), of l' ty] l' elf n40 fit s1(3) ph by auto
  moreover have "map (prog_hdr l' (bt_mem s1)) [0 ..< n] = map (image_phdr img elf) [0 ..< n]" using s1(3) ph by auto
  ultimately show ?thesis using s1(1,4) by metis
qed

lemma segments_present:
  assumes inv: "inv s" and elf: "elf \<noteq> NULL" and ops: "boot_elf_mem_op_init op_cfg = (BL_ERR_NONE, ops)"
    and to: "to_ok (hdr_addr l) EHDR_SIZE" "to_ok (prog_hdrs_addr l) hdrs_size" and src: "from_ok elf EHDR_SIZE"
    and valid: "boot_elf_validate_elf_header (image_hdr img elf) = BL_ERR_NONE"
    and n: "n = unat (e_phnum (image_hdr img elf))" "0 < n" "from_ok (elf + e_phoff (image_hdr img elf)) (n * PHDR_SIZE)"
    and fit: "\<And>i. i < n \<Longrightarrow> seg_loaded ty (image_phdr img elf i) \<Longrightarrow>
        seg_fits from_ok to_ok (prog_hdrs_addr l) elf ty (image_phdr img elf i)"
    and disj: "\<And>i j. i < n \<Longrightarrow> j < n \<Longrightarrow> i \<noteq> j \<Longrightarrow> seg_loaded ty (image_phdr img elf i) \<Longrightarrow> seg_loaded ty (image_phdr img elf j) \<Longrightarrow>
        segs_apart img elf ty (image_phdr img elf i) (image_phdr img elf j)"
  shows "\<exists>l' s1 s2. boot_elf_load_init l elf op_cfg s = Some (BL_ERR_NONE, l', s1)
     \<and> boot_elf_load_image l' ty s1 = Some (BL_ERR_NONE, s2)
     \<and> (\<forall>i < n. seg_loaded ty (image_phdr img elf i) \<longrightarrow> seg_present img elf ty (image_phdr img elf i) (bt_mem s2))
     \<and> (\<forall>x. \<not> in_headers l x \<longrightarrow> (\<forall>i < n. seg_loaded ty (image_phdr img elf i) \<longrightarrow> \<not> in_seg img elf ty (image_phdr img elf i) x)
          \<longrightarrow> bt_mem s2 x = bt_mem s x)"
proof -
  define phs where "phs = map (image_phdr img elf) [0 ..< n]"
  have phs: "length phs = n" "\<And>i. i < n \<Longrightarrow> phs ! i = image_phdr img elf i" by (simp_all add: phs_def)
  obtain l' s1 s2 where run: "boot_elf_load_init l elf op_cfg s = Some (BL_ERR_NONE, l', s1)"
      "boot_elf_load_image l' ty s1 = Some (BL_ERR_NONE, s2)" "bt_mem s2 = image_loaded img elf ty phs (bt_mem s1)"
      "\<forall>x. \<not> in_headers l x \<longrightarrow> bt_mem s1 x = bt_mem s x"
    using load_complete [OF inv elf ops to src valid n fit] unfolding phs_def by blast
  have "seg_present img elf ty (image_phdr img elf i) (bt_mem s2)" if "i < n" "seg_loaded ty (image_phdr img elf i)" for i
    unfolding seg_present_def run(3)
    using image_loaded_segment [of i phs ty img elf "bt_mem s1"] that disj phs by (simp add: segs_apart_def)
  moreover have "bt_mem s2 x = bt_mem s x"
    if "\<not> in_headers l x" "\<forall>i < n. seg_loaded ty (image_phdr img elf i) \<longrightarrow> \<not> in_seg img elf ty (image_phdr img elf i) x" for x
  proof -
    have "bt_mem s2 x = bt_mem s1 x"
      unfolding run(3) by (rule image_loaded_frame) (use that(2) in \<open>auto simp: phs_def in_seg_def\<close>)
    then show ?thesis using run(4) that(1) by simp
  qed
  ultimately show ?thesis using run(1,2) by blast
qed

end

end
