(* ===== verification/Elf_Props.thy ===== *)
theory Elf_Props
  imports Elf_Correct
begin

text \<open>
  The contract of the memory layer discharged for the boot loader's table of operations
  (\<open>flash_image\<close>: an image in NOR flash, loaded to RAM and RRAM; \<open>rram_image\<close>: an image in
  RRAM), and the properties of the ELF loader that rest on it.
\<close>

section \<open>Images in flash\<close>

definition flash_holds ::
    "'d boot_env \<Rightarrow> flash_config_data \<Rightarrow> ('d \<Rightarrow> memory) \<Rightarrow> ('d \<Rightarrow> bool) \<Rightarrow> ('d \<Rightarrow> bool) \<Rightarrow> memory \<Rightarrow> 'd boot \<Rightarrow> bool" where
  "flash_holds env c content wel busy data s \<longleftrightarrow>
     nor_chip (be_bus env) c content wel busy \<and> fc_addr_bytes c \<le> 4 \<and> fc_read_wait_state c \<le> 16
     \<and> unat (fc_density_in_blocks c) * 4096 < 2 ^ 32
     \<and> fl_config (bt_flash s) = Some c \<and> fl_init_done (bt_flash s) \<and> fl_state (bt_flash s) = 0
     \<and> content (fl_dev (bt_flash s)) = data \<and> \<not> busy (fl_dev (bt_flash s)) \<and> dma_copies (be_dma env)"

lemma flash_holds_mem [simp]: "flash_holds env c content wel busy data (s\<lparr>bt_mem := m\<rparr>) = flash_holds env c content wel busy data s"
  by (simp add: flash_holds_def)

lemma sbl_flash_read:
  assumes "flash_holds env c content wel busy data s" and "n \<noteq> 0" and "unat a + unat n \<le> unat (fc_density_in_blocks c) * 4096"
  shows "\<exists>s'. boot_sbl_flash_read env a n s = Some (FLASH_DEVICE_DONE, mem_read data a (unat n), s')
     \<and> flash_holds env c content wel busy data s' \<and> bt_mem s' = bt_mem s"
proof -
  note h = assms(1) [unfolded flash_holds_def]
  have "\<not> range_bad (fc_density_in_blocks c) a n" using range_ok_iff assms(2,3) h by blast
  from read_returns_array [OF _ _ _ _ _ _ _ this, of "be_bus env" content wel busy "bt_flash s"] h
  obtain d where "drv_flash_read (be_bus env) a n True False (bt_flash s) =
      Some (FLASH_DEVICE_DONE, mem_read data a (unat n), (bt_flash s)\<lparr>fl_dev := d\<rparr>)" "content d = data" "\<not> busy d"
    by auto
  then show ?thesis using h by (auto simp: boot_sbl_flash_read_def flash_holds_def)
qed

text \<open>The chunk loop copies a whole number of chunks and leaves at most one.\<close>

lemma chunks_copy:
  assumes store: "\<And>k bs s. unat k mod 2048 = 0 \<Longrightarrow> unat k + length bs \<le> unat n \<Longrightarrow>
      store (d + k) bs s = s\<lparr>bt_mem := mem_write (bt_mem s) (d + k) bs\<rparr>"
    and "flash_holds env c content wel busy data s" and "unat k \<le> unat n" and "unat k mod 2048 = 0"
    and top: "unat a + unat n \<le> unat (fc_density_in_blocks c) * 4096"
  shows "\<exists>j s'. flash_chunks env store a d n k s = Some (FLASH_DEVICE_DONE, j, s') \<and> flash_holds env c content wel busy data s'
     \<and> unat k \<le> unat j \<and> unat j \<le> unat n \<and> unat n - unat j \<le> 2048 \<and> unat j mod 2048 = 0
     \<and> bt_mem s' = mem_write (bt_mem s) (d + k) (mem_read data (a + k) (unat j - unat k))"
  using assms(2-4)
proof (induction "unat n - unat k" arbitrary: k s rule: less_induct)
  case less
  have fits: "unat (fc_density_in_blocks c) * 4096 < 2 ^ 32" using less.prems(1) by (simp add: flash_holds_def)
  show ?case
  proof (cases "unat n - unat k \<le> 2048")
    case True
    then have "\<not> (k \<le> n \<and> n - k > RRAM_READ_BUF_SIZE)"
      using less.prems(2) by (simp add: RRAM_READ_BUF_SIZE_def word_less_nat_alt unat_sub word_le_nat_alt)
    then have "flash_chunks env store a d n k s = Some (FLASH_DEVICE_DONE, k, s)" by (subst flash_chunks.simps) (simp only: if_False)
    then show ?thesis using True less.prems by simp
  next
    case False
    then have go: "k \<le> n \<and> n - k > RRAM_READ_BUF_SIZE"
      using less.prems(2) by (simp add: RRAM_READ_BUF_SIZE_def word_less_nat_alt unat_sub word_le_nat_alt)
    have ua: "unat (a + k) = unat a + unat k" using fits top less.prems(2) by (simp add: unat_word_ariths)
    have uk: "unat (k + 2048) = unat k + 2048"
      using False unsigned_less [of n, where ?'a = nat] by (simp add: unat_word_ariths)
    have room: "unat (a + k) + unat (2048 :: u32) \<le> unat (fc_density_in_blocks c) * 4096" unfolding ua using False top by simp
    obtain s1 where s1: "boot_sbl_flash_read env (a + k) 2048 s = Some (FLASH_DEVICE_DONE, mem_read data (a + k) 2048, s1)"
        "flash_holds env c content wel busy data s1" "bt_mem s1 = bt_mem s"
      using sbl_flash_read [OF less.prems(1), of 2048 "a + k"] room by auto
    define s2 where "s2 = s1\<lparr>bt_mem := mem_write (bt_mem s1) (d + k) (mem_read data (a + k) 2048)\<rparr>"
    have st: "store (d + k) (mem_read data (a + k) 2048) s1 = s2"
      unfolding s2_def using store less.prems(3) False by simp
    have s2: "flash_holds env c content wel busy data s2" using s1(2) by (simp add: s2_def)
    have dec: "unat n - (unat k + 2048) < unat n - unat k" "unat k + 2048 \<le> unat n" using False by simp_all
    obtain j s' where IH: "flash_chunks env store a d n (k + 2048) s2 = Some (FLASH_DEVICE_DONE, j, s')" "flash_holds env c content wel busy data s'"
        "unat k + 2048 \<le> unat j" "unat j \<le> unat n" "unat n - unat j \<le> 2048" "unat j mod 2048 = 0"
        "bt_mem s' = mem_write (bt_mem s2) (d + (k + 2048)) (mem_read data (a + (k + 2048)) (unat j - (unat k + 2048)))"
      using less.hyps [of "k + 2048" s2] s2 dec uk less.prems(3) by auto
    have "flash_chunks env store a d n k s = Some (FLASH_DEVICE_DONE, j, s')"
      by (subst flash_chunks.simps) (simp add: go [unfolded RRAM_READ_BUF_SIZE_def] RRAM_READ_BUF_SIZE_def s1(1) st IH(1))
    moreover have "bt_mem s' = mem_write (bt_mem s) (d + k) (mem_read data (a + k) (unat j - unat k))"
    proof -
      have "mem_read data (a + k) (unat j - unat k) = mem_read data (a + k) 2048 @ mem_read data (a + (k + 2048)) (unat j - (unat k + 2048))"
        using mem_read_add [of data "a + k" 2048 "unat j - (unat k + 2048)"] IH(3) by (simp add: add.assoc)
      then show ?thesis by (simp add: IH(7) s2_def s1(3) mem_write_append add.assoc)
    qed
    ultimately show ?thesis using IH by auto
  qed
qed

lemma flash_copy_exact:
  assumes store: "\<And>k bs s. unat k mod 2048 = 0 \<Longrightarrow> unat k + length bs \<le> unat n \<Longrightarrow>
      store (d + k) bs s = s\<lparr>bt_mem := mem_write (bt_mem s) (d + k) bs\<rparr>"
    and holds: "flash_holds env c content wel busy data s" and n: "n \<noteq> 0"
    and top: "unat (a - 0xA00000) + unat n \<le> unat (fc_density_in_blocks c) * 4096"
  shows "\<exists>s'. flash_copy env store a d n s = Some (BL_ERR_NONE, s') \<and> flash_holds env c content wel busy data s'
     \<and> bt_mem s' = mem_write (bt_mem s) d (mem_read data (a - 0xA00000) (unat n))"
proof -
  define b where "b = a - 0xA00000"
  obtain k s1 where k: "(if n > RRAM_READ_BUF_SIZE then flash_chunks env store b d n 0 s else Some (FLASH_DEVICE_DONE, 0, s)) = Some (FLASH_DEVICE_DONE, k, s1)"
      "flash_holds env c content wel busy data s1" "unat k \<le> unat n" "unat k mod 2048 = 0"
      "bt_mem s1 = mem_write (bt_mem s) d (mem_read data b (unat k))"
    using chunks_copy [where n = n and d = d and k = 0 and a = b, OF store holds] holds top by (cases "n > RRAM_READ_BUF_SIZE") (auto simp: b_def)
  have un: "unat (n - k) = unat n - unat k" using k(3) by (simp add: unat_sub word_le_nat_alt)
  have fits: "unat (fc_density_in_blocks c) * 4096 < 2 ^ 32" using holds by (simp add: flash_holds_def)
  have ub: "unat (b + k) = unat b + unat k" using fits top k(3) by (simp add: unat_word_ariths b_def)
  have run: "flash_copy env store a d n s =
      (let last_bytes = n - k
       in if last_bytes = 0 then Some (BL_ERR_NONE, s1)
          else do {
            (status, bs, s) \<leftarrow> boot_sbl_flash_read env (b + k) last_bytes s1;
            if status \<noteq> FLASH_DEVICE_DONE then Some (BL_ERR_ELF_MEM_READ, s)
            else Some (BL_ERR_NONE, store (d + k) bs s)
          })"
    unfolding flash_copy_def APP_IMAGE_FLASH_ADDRESS_def b_def [symmetric] Let_def k(1) by simp
  show ?thesis
  proof (cases "n = k")
    case True
    then show ?thesis unfolding run using k(2,5) by (simp add: Let_def b_def)
  next
    case False
    obtain s2 where s2: "boot_sbl_flash_read env (b + k) (n - k) s1 = Some (FLASH_DEVICE_DONE, mem_read data (b + k) (unat n - unat k), s2)"
        "flash_holds env c content wel busy data s2" "bt_mem s2 = bt_mem s1"
      using sbl_flash_read [OF k(2), of "n - k" "b + k"] False un ub top k(3) by (auto simp: b_def)
    have st: "store (d + k) (mem_read data (b + k) (unat n - unat k)) s2 =
        s2\<lparr>bt_mem := mem_write (bt_mem s2) (d + k) (mem_read data (b + k) (unat n - unat k))\<rparr>"
      by (rule store) (use k(3,4) in simp_all)
    have "mem_read data b (unat n) = mem_read data b (unat k) @ mem_read data (b + k) (unat n - unat k)"
      using mem_read_add [of data b "unat k" "unat n - unat k"] k(3) by simp
    then have "mem_write (bt_mem s2) (d + k) (mem_read data (b + k) (unat n - unat k)) = mem_write (bt_mem s) d (mem_read data b (unat n))"
      by (simp add: s2(3) k(5) mem_write_append)
    then show ?thesis unfolding run using s2 False st by (simp add: Let_def b_def)
  qed
qed

text \<open>The ranges of the table: flash behind its window address, RAM and word-aligned RRAM.\<close>

definition flash_from :: "u32 \<Rightarrow> addr \<Rightarrow> nat \<Rightarrow> bool" where
  "flash_from density a n \<longleftrightarrow>
     0xA00000 \<le> unat a \<and> unat a + n \<le> 0xE00000 \<and> unat a + n \<le> 0xA00000 + unat density * 4096"

definition ram_to :: "addr \<Rightarrow> nat \<Rightarrow> bool" where
  "ram_to d n \<longleftrightarrow> unat d + n \<le> 0x9FFFF"

definition rram_to :: "addr \<Rightarrow> nat \<Rightarrow> bool" where
  "rram_to d n \<longleftrightarrow> 0x200000 \<le> unat d \<and> unat d mod 4 = 0 \<and> unat d + n \<le> 0x37FFFF"

lemmas region_defs = boot_elf_mem_read_def boot_elf_mem_set_def elf_mem_op_def BL_ELF_MEM_READ_REGION_CHECK_def BL_ELF_MEM_SET_REGION_CHECK_def
  FRN_RAM_START_def FRN_RAM_END_def FRN_RRAM_START_def FRN_RRAM_END_def FRN_FLASH_START_def FRN_FLASH_END_def
  word_le_nat_alt Let_def

lemma unat_sum_below: "unat a + unat n \<le> 0xE00000 \<Longrightarrow> unat (a + n :: u32) = unat a + unat n"
  by (simp add: unat_word_ariths)

lemma dispatch_flash:
  assumes "flash_from density a (unat n)"
  shows "ram_to d (unat n) \<Longrightarrow> boot_elf_mem_read a d n (elf_mem_op env) s = bl_elf_flash_read_to_ram env a d n s"
    and "rram_to d (unat n) \<Longrightarrow> boot_elf_mem_read a d n (elf_mem_op env) s = bl_elf_flash_read_to_rram_dxe env a d n s"
  using assms unat_sum_below [of a n] unat_sum_below [of d n]
  by (simp_all add: region_defs flash_from_def ram_to_def rram_to_def)

lemma dispatch_set:
  shows "ram_to d (unat n) \<Longrightarrow> boot_elf_mem_set d v n (elf_mem_op env) s = bl_elf_rram_set_ram d v n s"
    and "rram_to d (unat n) \<Longrightarrow> boot_elf_mem_set d v n (elf_mem_op env) s = bl_elf_rram_set_rram_dxe env d v n s"
  using unat_sum_below [of d n] by (simp_all add: region_defs ram_to_def rram_to_def)

lemma set_exact:
  assumes "dma_copies (be_dma env)" and "ram_to d (unat n) \<or> rram_to d (unat n)"
  shows "boot_elf_mem_set d v n (elf_mem_op env) s = Some (BL_ERR_NONE, s\<lparr>bt_mem := mem_write (bt_mem s) d (replicate (unat n) (ucast v))\<rparr>)"
  using assms(2)
proof
  assume "rram_to d (unat n)"
  moreover have "rram_verify_address d n = BL_ERR_NONE" using \<open>rram_to d (unat n)\<close> by (simp add: verify_iff rram_to_def)
  ultimately show ?thesis by (simp add: dispatch_set(2) bl_elf_rram_set_rram_dxe_def memset_ok [OF assms(1)])
qed (simp add: dispatch_set(1) bl_elf_rram_set_ram_def)

lemma store_rram_ok:
  assumes "dma_copies (be_dma env)" and "rram_to d (unat n)" and "unat k mod 2048 = 0" and "unat k + length bs \<le> unat n"
  shows "store_rram env (d + k) bs s = s\<lparr>bt_mem := mem_write (bt_mem s) (d + k) bs\<rparr>"
proof -
  note to = assms(2) [unfolded rram_to_def]
  have dk: "unat (d + k) = unat d + unat k" using to assms(4) by (intro unat_sum_below) simp
  have l: "unat (of_nat (length bs) :: u32) = length bs" using to assms(4) by (simp add: unat_of_nat)
  obtain q where "unat k = 2048 * q" using assms(3) by auto
  then have "unat d + unat k = unat d + (512 * q) * 4" by simp
  then have al: "(unat d + unat k) mod 4 = 0" using to by (simp only: mod_mult_self1)
  have "rram_verify_address (d + k) (of_nat (length bs)) = BL_ERR_NONE"
    unfolding verify_iff dk l using to assms(4) al by simp
  from write_ok [OF assms(1) this, of "Src_buf bs"]
  have "rram_write_dxe (be_dma env) (d + k) (Src_buf bs) (of_nat (length bs)) m = (BL_ERR_NONE, mem_write m (d + k) bs)" for m
    unfolding l by simp
  then show ?thesis unfolding store_rram_def boot_sbl_rram_write_def by simp
qed

lemma flash_read_exact:
  assumes holds: "flash_holds env c content wel busy data s" and src: "flash_from (fc_density_in_blocks c) a (unat n)"
    and to: "ram_to d (unat n) \<or> rram_to d (unat n)" and n: "n \<noteq> 0"
  shows "\<exists>s'. boot_elf_mem_read a d n (elf_mem_op env) s = Some (BL_ERR_NONE, s') \<and> flash_holds env c content wel busy data s'
     \<and> bt_mem s' = mem_write (bt_mem s) d (mem_read (\<lambda>x. data (x - 0xA00000)) a (unat n))"
proof -
  have win: "mem_read (\<lambda>x. data (x - 0xA00000)) a k = mem_read data (a - 0xA00000) k" for k
    by (rule nth_equalityI) (simp_all add: algebra_simps)
  have "unat (a - 0xA00000) = unat a - 0xA00000" using src by (subst unat_sub) (simp_all add: word_le_nat_alt flash_from_def)
  then have top: "unat (a - 0xA00000) + unat n \<le> unat (fc_density_in_blocks c) * 4096" using src unfolding flash_from_def by linarith
  from to show ?thesis
  proof
    assume "ram_to d (unat n)"
    then show ?thesis
      using flash_copy_exact [where n = n and d = d and store = store_ram, OF _ holds n top]
      by (simp add: dispatch_flash(1) [OF src] bl_elf_flash_read_to_ram_def win store_ram_def)
  next
    assume d: "rram_to d (unat n)"
    have dma: "dma_copies (be_dma env)" using holds by (simp add: flash_holds_def)
    show ?thesis
      using flash_copy_exact [where n = n and d = d and store = "store_rram env", OF store_rram_ok [OF dma d] holds n top] d
      by (simp add: dispatch_flash(2) [OF src] bl_elf_flash_read_to_rram_dxe_def win)
  qed
qed

interpretation flash_image: image_source "elf_mem_op env" "flash_holds env c content wel busy data" "\<lambda>x. data (x - 0xA00000)"
  "flash_from (fc_density_in_blocks c)" "\<lambda>d n. ram_to d n \<or> rram_to d n"
  for env :: "'d boot_env" and c content wel busy data
proof (unfold_locales, goal_cases)
  case (1 s a n d)
  then show ?case by (rule flash_read_exact)
next
  case (2 s d n v)
  then show ?case by (simp add: flash_holds_def [of env c content wel busy data s] set_exact)
qed (auto simp: ram_to_def rram_to_def)

section \<open>Images in RRAM\<close>

text \<open>
  The image is the \<open>len\<close> bytes at \<open>base\<close>. A copy to RRAM must not overlap it, and a copy to
  RAM must be no longer than the read buffer: longer ones overrun (see below).
\<close>

definition rram_holds :: "'d boot_env \<Rightarrow> addr \<Rightarrow> nat \<Rightarrow> memory \<Rightarrow> 'd boot \<Rightarrow> bool" where
  "rram_holds env base len img s \<longleftrightarrow>
     dma_copies (be_dma env) \<and> mem_read (bt_mem s) base len = mem_read img base len
     \<and> 0x200000 \<le> unat base \<and> unat base + len \<le> 0x37FFFF"

definition rram_from :: "addr \<Rightarrow> nat \<Rightarrow> addr \<Rightarrow> nat \<Rightarrow> bool" where
  "rram_from base len a n \<longleftrightarrow> unat base \<le> unat a \<and> unat a + n \<le> unat base + len"

definition rram_image_to :: "addr \<Rightarrow> nat \<Rightarrow> addr \<Rightarrow> nat \<Rightarrow> bool" where
  "rram_image_to base len d n \<longleftrightarrow> ram_to d n \<and> n \<le> 2048 \<or> rram_to d n \<and> apart base len d n"

lemma rram_holds_read:
  assumes "rram_holds env base len img s" and "rram_from base len a n"
  shows "mem_read (bt_mem s) a n = mem_read img a n"
proof -
  define k where "k = unat a - unat base"
  have k: "k + n \<le> len" "unat a = unat base + k" using assms(2) by (auto simp: rram_from_def k_def)
  then have "unat (base + of_nat k) = unat a" using unsigned_less [of a, where ?'a = nat] unat_addr_offset [of base k] by simp
  then have a: "a = base + of_nat k" by (simp only: word_unat_eq_iff)
  have "mem_read m a n = take n (drop k (mem_read m base len))" for m
    using k(1) unfolding a drop_mem_read by (simp add: mem_read_take)
  then show ?thesis using assms(1) by (simp add: rram_holds_def)
qed

lemma rram_holds_write:
  assumes "rram_holds env base len img s" and "rram_image_to base len d (length bs)"
  shows "rram_holds env base len img (s\<lparr>bt_mem := mem_write (bt_mem s) d bs\<rparr>)"
proof -
  have "apart base len d (length bs)"
    using assms by (auto simp: rram_holds_def rram_image_to_def ram_to_def apart_def)
  then show ?thesis using assms(1) by (simp add: rram_holds_def mem_read_write_apart)
qed

lemma dispatch_rram:
  assumes "0x200000 \<le> unat a" and "unat a + unat n \<le> 0x37FFFF"
  shows "ram_to d (unat n) \<Longrightarrow> boot_elf_mem_read a d n (elf_mem_op env) s = bl_elf_rram_read_to_ram a d n s"
    and "rram_to d (unat n) \<Longrightarrow> boot_elf_mem_read a d n (elf_mem_op env) s = bl_elf_rram_read_to_rram_dxe env a d n s"
  using assms unat_sum_below [of a n] unat_sum_below [of d n]
  by (simp_all add: region_defs ram_to_def rram_to_def)

lemma rram_read_exact:
  assumes holds: "rram_holds env base len img s" and src: "rram_from base len a (unat n)"
    and to: "rram_image_to base len d (unat n)" and n: "n \<noteq> 0"
  shows "boot_elf_mem_read a d n (elf_mem_op env) s = Some (BL_ERR_NONE, s\<lparr>bt_mem := mem_write (bt_mem s) d (mem_read img a (unat n))\<rparr>)"
proof -
  have a: "0x200000 \<le> unat a" "unat a + unat n \<le> 0x37FFFF" using holds src by (auto simp: rram_holds_def rram_from_def)
  note rd = rram_holds_read [OF holds src]
  from to [unfolded rram_image_to_def] show ?thesis
  proof (elim disjE conjE)
    assume d: "ram_to d (unat n)" "unat n \<le> 2048"
    then have "\<not> n > RRAM_READ_BUF_SIZE" by (simp add: RRAM_READ_BUF_SIZE_def word_less_nat_alt)
    then show ?thesis using a n d(1) rd read_main [of a n d "bt_mem s"]
      by (simp add: dispatch_rram(1) bl_elf_rram_read_to_ram_def)
  next
    assume d: "rram_to d (unat n)" "apart base len d (unat n)"
    have v: "rram_verify_address d n = BL_ERR_NONE" using d(1) by (simp add: verify_iff rram_to_def)
    have dma: "dma_copies (be_dma env)" using holds by (simp add: rram_holds_def)
    have "src_ok (Src_mem a) d (unat n)" using d src by (auto simp: rram_from_def apart_def)
    from write_ok [OF dma v this] show ?thesis
      by (simp add: dispatch_rram(2) [OF a d(1)] bl_elf_rram_read_to_rram_dxe_def rd)
  qed
qed

interpretation rram_image: image_source "elf_mem_op env" "rram_holds env base len img" img
  "rram_from base len" "rram_image_to base len"
  for env :: "'d boot_env" and base len img
proof (unfold_locales, goal_cases)
  case (1 s a n d)
  then show ?case using rram_holds_write [OF 1(1), of d "mem_read img a (unat n)"] by (simp add: rram_read_exact)
next
  case (2 s d n v)
  then have "dma_copies (be_dma env)" "ram_to d (unat n) \<or> rram_to d (unat n)" by (auto simp: rram_holds_def rram_image_to_def)
  from set_exact [OF this] show ?case using rram_holds_write [OF 2(1), of d "replicate (unat n) (ucast v)"] 2 by simp
next
  case (3 d k)
  then show ?case by (auto simp: rram_image_to_def ram_to_def rram_to_def)
next
  case (4 d k j)
  then show ?case by (auto simp: rram_image_to_def ram_to_def rram_to_def apart_def)
next
  case (5 s d bs)
  then show ?case by (rule rram_holds_write)
qed

section \<open>Loading an image\<close>

lemma op_init_table: "boot_elf_mem_op_init (elf_mem_op env) = (BL_ERR_NONE, elf_mem_op env)"
  by (simp add: boot_elf_mem_op_init_def elf_mem_op_def boot_elf_mem_op_register_def BL_MEM_MAX_NUM_def)

text \<open>The flash contents as the loader addresses them.\<close>

abbreviation window :: "memory \<Rightarrow> memory" where
  "window data \<equiv> \<lambda>x. data (x - 0xA00000)"

abbreviation boot_to :: "addr \<Rightarrow> nat \<Rightarrow> bool" where
  "boot_to \<equiv> \<lambda>d n. ram_to d n \<or> rram_to d n"

section \<open>A small image\<close>

text \<open>An ELF file with one segment: four bytes for address \<open>0x1000\<close> (physical \<open>0x210000\<close>), zeroed up to eight.\<close>

definition demo_elf :: bytes where
  "demo_elf =
     [0x7F, 0x45, 0x4C, 0x46, 1, 1, 1, 0, 0, 0, 0, 0, 0, 0, 0, 0,
      2, 0, 0x28, 0, 1, 0, 0, 0, 0, 0x10, 0, 0, 0x34, 0, 0, 0, 0, 0, 0, 0, 0, 0, 0, 0, 0x34, 0, 0x20, 0, 1, 0, 0, 0, 0, 0, 0, 0,
      1, 0, 0, 0, 0x54, 0, 0, 0, 0, 0x10, 0, 0, 0, 0, 0x21, 0, 4, 0, 0, 0, 8, 0, 0, 0, 5, 0, 0, 0, 4, 0, 0, 0,
      0xDE, 0xAD, 0xBE, 0xEF]"

definition demo_phdr :: boot_elf32_phdr where
  "demo_phdr = \<lparr>p_type = 1, p_offset = 0x54, p_vaddr = 0x1000, p_paddr = 0x210000, p_filesz = 4, p_memsz = 8, p_flags = 5, p_align = 4\<rparr>"

definition demo_env :: "demo_chip boot_env" where
  "demo_env = \<lparr>be_bus = demo_bus, be_dma = (\<lambda>a bs m. mem_write m a bs)\<rparr>"

definition demo_loader :: "demo_chip boot_elf_loader" where
  "demo_loader = \<lparr>el_base = 0x80000, el_elf_addr = NULL, el_phr_num = 0, el_ops = []\<rparr>"

definition demo_boot :: "memory \<Rightarrow> memory \<Rightarrow> demo_chip boot" where
  "demo_boot fl m = \<lparr>bt_mem = m, bt_flash = demo_flash\<lparr>fl_dev := (fl, False, False)\<rparr>\<rparr>"

lemma length_demo_elf: "length demo_elf = 88"
  by (simp add: demo_elf_def)

lemma demo_image_at:
  assumes "\<And>i k. i + k \<le> length demo_elf \<Longrightarrow> mem_read img (elf + of_nat i) k = take k (drop i demo_elf)"
  shows "boot_elf_validate_elf_header (image_hdr img elf) = BL_ERR_NONE" "unat (e_phnum (image_hdr img elf)) = 1"
    "e_phoff (image_hdr img elf) = 0x34" "image_phdr img elf 0 = demo_phdr"
    "seg_bytes img elf BOOT_ELF_LOAD_FULL demo_phdr = [0xDE, 0xAD, 0xBE, 0xEF, 0, 0, 0, 0]"
    "seg_bytes img elf BOOT_ELF_LOAD_COPY demo_phdr = [0xDE, 0xAD, 0xBE, 0xEF]"
proof -
  have h: "mem_read img elf EHDR_SIZE = take 52 demo_elf" using assms [of 0 52] by (simp add: EHDR_SIZE_def demo_elf_def)
  show "boot_elf_validate_elf_header (image_hdr img elf) = BL_ERR_NONE" "unat (e_phnum (image_hdr img elf)) = 1"
    and off: "e_phoff (image_hdr img elf) = 0x34"
    unfolding image_hdr_def h by (simp_all add: demo_elf_def decode_ehdr_def boot_elf_validate_elf_header_def EHDR_SIZE_def PHDR_SIZE_def MI_PBT_MAX_SEGMENTS_def)
  have "mem_read img (elf + 0x34) PHDR_SIZE = take 32 (drop 52 demo_elf)" using assms [of 52 32] by (simp add: PHDR_SIZE_def demo_elf_def)
  then show "image_phdr img elf 0 = demo_phdr"
    by (simp add: image_phdr_def off demo_elf_def decode_phdr_def demo_phdr_def)
  have zeros: "replicate 4 (0 :: u8) = [0, 0, 0, 0]" by (simp add: numeral_eq_Suc)
  have "mem_read img (elf + 0x54) 4 = [0xDE, 0xAD, 0xBE, 0xEF]" using assms [of 84 4] by (simp add: demo_elf_def)
  then show "seg_bytes img elf BOOT_ELF_LOAD_FULL demo_phdr = [0xDE, 0xAD, 0xBE, 0xEF, 0, 0, 0, 0]"
    "seg_bytes img elf BOOT_ELF_LOAD_COPY demo_phdr = [0xDE, 0xAD, 0xBE, 0xEF]"
    by (simp_all add: seg_bytes_def demo_phdr_def zeros)
qed

lemma demo_in_flash:
  assumes "i + k \<le> length demo_elf"
  shows "mem_read (window (mem_write (\<lambda>_. 0xFF) 0 demo_elf)) (0xA00000 + of_nat i) k = take k (drop i demo_elf)"
proof -
  have "mem_read (window data) (0xA00000 + of_nat i) k = mem_read data (0 + of_nat i) k" for data
    by (rule nth_equalityI) (simp_all add: algebra_simps)
  then show ?thesis using mem_read_slice [OF assms, of "\<lambda>_. 0xFF" 0] by (simp add: length_demo_elf)
qed

lemma demo_flash_holds: "flash_holds demo_env demo_cfg fst demo_wel demo_busy data (demo_boot data m)"
  using demo_nor_chip by (simp add: flash_holds_def demo_env_def demo_boot_def demo_flash_def demo_simps dma_copies_def cfg_GD25WQ32E_def)

lemmas demo_addrs = demo_loader_def hdr_addr_def prog_hdrs_addr_def EHDR_SIZE_def PHDR_SIZE_def

section \<open>Properties\<close>

text \<open>C4: An image in NOR flash with a valid header is loaded as the loader means to load it:
  initialising the loader and loading the image both succeed; every loadable segment that has
  bytes in the file (for a RAM load: and lies in RAM) then reads in memory as its bytes in the
  flash followed by zeros up to its memory size (for a copy: the file bytes at the physical
  address), in RAM as in RRAM and across the 2048-byte chunks of the copy loop; and no byte
  changes outside these segments and the loader's two headers. In particular a loadable
  segment of file size 0 is skipped: its memory is not zeroed, which the source leaves to the
  start-up code of the image. The copied segments must lie in the regions of the table, apart
  from each other and from the headers, and the flash chip must be idle.\<close>

theorem elf_flash_image_loaded:
  assumes "flash_holds env c content wel busy data s" and "elf \<noteq> NULL"
    and "boot_to (hdr_addr l) EHDR_SIZE" and "boot_to (prog_hdrs_addr l) hdrs_size"
    and "flash_from (fc_density_in_blocks c) elf EHDR_SIZE"
    and "boot_elf_validate_elf_header (image_hdr (window data) elf) = BL_ERR_NONE"
    and "n = unat (e_phnum (image_hdr (window data) elf))" and "0 < n"
    and "flash_from (fc_density_in_blocks c) (elf + e_phoff (image_hdr (window data) elf)) (n * PHDR_SIZE)"
    and "\<And>i. i < n \<Longrightarrow> seg_loaded ty (image_phdr (window data) elf i) \<Longrightarrow>
        seg_fits (flash_from (fc_density_in_blocks c)) boot_to (prog_hdrs_addr l) elf ty (image_phdr (window data) elf i)"
    and "\<And>i j. i < n \<Longrightarrow> j < n \<Longrightarrow> i \<noteq> j \<Longrightarrow> seg_loaded ty (image_phdr (window data) elf i) \<Longrightarrow> seg_loaded ty (image_phdr (window data) elf j) \<Longrightarrow>
        segs_apart (window data) elf ty (image_phdr (window data) elf i) (image_phdr (window data) elf j)"
  shows "\<exists>l' s1 s2. boot_elf_load_init l elf (elf_mem_op env) s = Some (BL_ERR_NONE, l', s1)
     \<and> boot_elf_load_image l' ty s1 = Some (BL_ERR_NONE, s2)
     \<and> (\<forall>i < n. seg_loaded ty (image_phdr (window data) elf i) \<longrightarrow> seg_present (window data) elf ty (image_phdr (window data) elf i) (bt_mem s2))
     \<and> (\<forall>x. \<not> in_headers l x
          \<longrightarrow> (\<forall>i < n. seg_loaded ty (image_phdr (window data) elf i) \<longrightarrow> \<not> in_seg (window data) elf ty (image_phdr (window data) elf i) x)
          \<longrightarrow> bt_mem s2 x = bt_mem s x)"
  by (rule flash_image.segments_present [OF assms(1,2) op_init_table assms(3-)])

theorem elf_flash_image_loaded_witness:
  "\<exists>l' s1 s2. boot_elf_load_init demo_loader 0xA00000 (elf_mem_op demo_env) (demo_boot (mem_write (\<lambda>_. 0xFF) 0 demo_elf) (\<lambda>_. 7)) = Some (BL_ERR_NONE, l', s1)
     \<and> boot_elf_load_image l' BOOT_ELF_LOAD_FULL s1 = Some (BL_ERR_NONE, s2)
     \<and> mem_read (bt_mem s2) 0x1000 8 = [0xDE, 0xAD, 0xBE, 0xEF, 0, 0, 0, 0]"
proof -
  define data where "data = mem_write (\<lambda>_. 0xFF) 0 demo_elf"
  note d = demo_image_at [of "window data" "0xA00000", OF demo_in_flash [folded data_def]]
  have fits: "seg_fits (flash_from (fc_density_in_blocks demo_cfg)) boot_to (prog_hdrs_addr demo_loader) 0xA00000 BOOT_ELF_LOAD_FULL demo_phdr"
    by (simp add: seg_fits_def seg_dest_def demo_phdr_def flash_from_def demo_simps ram_to_def apart_def demo_addrs)
  note holds = demo_flash_holds [of data "\<lambda>_. 7"]
  have ld: "seg_loaded BOOT_ELF_LOAD_FULL demo_phdr" by (simp add: seg_loaded_def demo_phdr_def PT_LOAD_def)
  have "\<exists>l' s1 s2. boot_elf_load_init demo_loader 0xA00000 (elf_mem_op demo_env) (demo_boot data (\<lambda>_. 7)) = Some (BL_ERR_NONE, l', s1)
     \<and> boot_elf_load_image l' BOOT_ELF_LOAD_FULL s1 = Some (BL_ERR_NONE, s2)
     \<and> (\<forall>i < 1. seg_loaded BOOT_ELF_LOAD_FULL (image_phdr (window data) 0xA00000 i) \<longrightarrow>
          seg_present (window data) 0xA00000 BOOT_ELF_LOAD_FULL (image_phdr (window data) 0xA00000 i) (bt_mem s2))
     \<and> (\<forall>x. \<not> in_headers demo_loader x
          \<longrightarrow> (\<forall>i < 1. seg_loaded BOOT_ELF_LOAD_FULL (image_phdr (window data) 0xA00000 i) \<longrightarrow>
               \<not> in_seg (window data) 0xA00000 BOOT_ELF_LOAD_FULL (image_phdr (window data) 0xA00000 i) x)
          \<longrightarrow> bt_mem s2 x = bt_mem (demo_boot data (\<lambda>_. 7)) x)"
    by (rule elf_flash_image_loaded [OF holds _ _ _ _ d(1)])
      (use d fits in \<open>simp_all add: flash_from_def demo_simps ram_to_def demo_addrs\<close>)
  then obtain l' s1 s2 where run: "boot_elf_load_init demo_loader 0xA00000 (elf_mem_op demo_env) (demo_boot data (\<lambda>_. 7)) = Some (BL_ERR_NONE, l', s1)"
      "boot_elf_load_image l' BOOT_ELF_LOAD_FULL s1 = Some (BL_ERR_NONE, s2)" "seg_present (window data) 0xA00000 BOOT_ELF_LOAD_FULL demo_phdr (bt_mem s2)"
    using d(4) ld by (metis One_nat_def lessI)
  have "seg_dest BOOT_ELF_LOAD_FULL demo_phdr = 0x1000" by (simp add: seg_dest_def demo_phdr_def)
  then have "mem_read (bt_mem s2) 0x1000 8 = [0xDE, 0xAD, 0xBE, 0xEF, 0, 0, 0, 0]" using run(3) d(5,6) by (simp add: seg_present_def eval_nat_numeral)
  then show ?thesis using run(1,2) unfolding data_def by blast
qed

text \<open>C31: The same for an image in RRAM that is loaded in place of another one: every loadable
  segment with bytes in the file reads as these bytes followed by the zeros, those without
  are skipped and not zeroed, and nothing else changes but the loader's headers. The copy to
  RRAM goes through the DXE engine and may not overlap the image; a part that goes to RAM may
  have at most 2048 bytes (a longer one overruns, see \<open>elf_rram_to_ram_overruns\<close>).\<close>

theorem elf_rram_image_loaded:
  assumes "rram_holds env base len img s" and "elf \<noteq> NULL"
    and "rram_image_to base len (hdr_addr l) EHDR_SIZE" and "rram_image_to base len (prog_hdrs_addr l) hdrs_size"
    and "rram_from base len elf EHDR_SIZE"
    and "boot_elf_validate_elf_header (image_hdr img elf) = BL_ERR_NONE"
    and "n = unat (e_phnum (image_hdr img elf))" and "0 < n"
    and "rram_from base len (elf + e_phoff (image_hdr img elf)) (n * PHDR_SIZE)"
    and "\<And>i. i < n \<Longrightarrow> seg_loaded ty (image_phdr img elf i) \<Longrightarrow>
        seg_fits (rram_from base len) (rram_image_to base len) (prog_hdrs_addr l) elf ty (image_phdr img elf i)"
    and "\<And>i j. i < n \<Longrightarrow> j < n \<Longrightarrow> i \<noteq> j \<Longrightarrow> seg_loaded ty (image_phdr img elf i) \<Longrightarrow> seg_loaded ty (image_phdr img elf j) \<Longrightarrow>
        segs_apart img elf ty (image_phdr img elf i) (image_phdr img elf j)"
  shows "\<exists>l' s1 s2. boot_elf_load_init l elf (elf_mem_op env) s = Some (BL_ERR_NONE, l', s1)
     \<and> boot_elf_load_image l' ty s1 = Some (BL_ERR_NONE, s2)
     \<and> (\<forall>i < n. seg_loaded ty (image_phdr img elf i) \<longrightarrow> seg_present img elf ty (image_phdr img elf i) (bt_mem s2))
     \<and> (\<forall>x. \<not> in_headers l x
          \<longrightarrow> (\<forall>i < n. seg_loaded ty (image_phdr img elf i) \<longrightarrow> \<not> in_seg img elf ty (image_phdr img elf i) x)
          \<longrightarrow> bt_mem s2 x = bt_mem s x)"
  by (rule rram_image.segments_present [OF assms(1,2) op_init_table assms(3-)])

theorem elf_rram_image_loaded_witness:
  "\<exists>l' s1 s2. boot_elf_load_init demo_loader 0x300000 (elf_mem_op demo_env) (demo_boot (\<lambda>_. 0xFF) (mem_write (\<lambda>_. 7) 0x300000 demo_elf)) = Some (BL_ERR_NONE, l', s1)
     \<and> boot_elf_load_image l' BOOT_ELF_LOAD_COPY s1 = Some (BL_ERR_NONE, s2)
     \<and> mem_read (bt_mem s2) 0x210000 4 = [0xDE, 0xAD, 0xBE, 0xEF]"
proof -
  define img where "img = mem_write (\<lambda>_. 7) 0x300000 demo_elf"
  have at: "mem_read img (0x300000 + of_nat i) k = take k (drop i demo_elf)" if "i + k \<le> length demo_elf" for i k
    unfolding img_def by (rule mem_read_slice [OF that]) (simp add: length_demo_elf)
  note d = demo_image_at [of img "0x300000", OF at]
  have fits: "seg_fits (rram_from 0x300000 88) (rram_image_to 0x300000 88) (prog_hdrs_addr demo_loader) 0x300000 BOOT_ELF_LOAD_COPY demo_phdr"
    by (simp add: seg_fits_def seg_dest_def demo_phdr_def rram_from_def rram_image_to_def rram_to_def apart_def demo_addrs)
  have holds: "rram_holds demo_env 0x300000 88 img (demo_boot (\<lambda>_. 0xFF) img)"
    by (simp add: rram_holds_def demo_env_def demo_boot_def dma_copies_def)
  have ld: "seg_loaded BOOT_ELF_LOAD_COPY demo_phdr" by (simp add: seg_loaded_def demo_phdr_def PT_LOAD_def)
  have "\<exists>l' s1 s2. boot_elf_load_init demo_loader 0x300000 (elf_mem_op demo_env) (demo_boot (\<lambda>_. 0xFF) img) = Some (BL_ERR_NONE, l', s1)
     \<and> boot_elf_load_image l' BOOT_ELF_LOAD_COPY s1 = Some (BL_ERR_NONE, s2)
     \<and> (\<forall>i < 1. seg_loaded BOOT_ELF_LOAD_COPY (image_phdr img 0x300000 i) \<longrightarrow>
          seg_present img 0x300000 BOOT_ELF_LOAD_COPY (image_phdr img 0x300000 i) (bt_mem s2))
     \<and> (\<forall>x. \<not> in_headers demo_loader x
          \<longrightarrow> (\<forall>i < 1. seg_loaded BOOT_ELF_LOAD_COPY (image_phdr img 0x300000 i) \<longrightarrow>
               \<not> in_seg img 0x300000 BOOT_ELF_LOAD_COPY (image_phdr img 0x300000 i) x)
          \<longrightarrow> bt_mem s2 x = bt_mem (demo_boot (\<lambda>_. 0xFF) img) x)"
    by (rule elf_rram_image_loaded [OF holds _ _ _ _ d(1)])
      (use d fits in \<open>simp_all add: rram_from_def rram_image_to_def ram_to_def demo_addrs\<close>)
  then obtain l' s1 s2 where run: "boot_elf_load_init demo_loader 0x300000 (elf_mem_op demo_env) (demo_boot (\<lambda>_. 0xFF) img) = Some (BL_ERR_NONE, l', s1)"
      "boot_elf_load_image l' BOOT_ELF_LOAD_COPY s1 = Some (BL_ERR_NONE, s2)" "seg_present img 0x300000 BOOT_ELF_LOAD_COPY demo_phdr (bt_mem s2)"
    using d(4) ld by (metis One_nat_def lessI)
  have "seg_dest BOOT_ELF_LOAD_COPY demo_phdr = 0x210000" by (simp add: seg_dest_def demo_phdr_def)
  then have "mem_read (bt_mem s2) 0x210000 4 = [0xDE, 0xAD, 0xBE, 0xEF]" using run(3) d(5,6) by (simp add: seg_present_def eval_nat_numeral)
  then show ?thesis using run(1,2) unfolding img_def by blast
qed

text \<open>C32: An image whose header is not a 32-bit ELF header, or whose header sizes are not those of
  the loader's structures, or with more than 40 segments (more than the header table of the
  object has room for) is refused, with the code of the first test it fails: the magic number,
  the class byte, the two sizes, the segment count. No program header has been read: the
  loader's table of them is still all zeros; and nothing outside the loader's headers has
  changed.\<close>

theorem elf_bad_header_refused:
  assumes "flash_holds env c content wel busy data s" and "elf \<noteq> NULL"
    and "boot_to (hdr_addr l) EHDR_SIZE" and "boot_to (prog_hdrs_addr l) hdrs_size"
    and "flash_from (fc_density_in_blocks c) elf EHDR_SIZE"
    and "h = image_hdr (window data) elf"
    and "\<not> (take 5 (e_ident h) = [0x7F, 0x45, 0x4C, 0x46, 1] \<and> e_ehsize h = 52 \<and> e_phentsize h = 32 \<and> unat (e_phnum h) \<le> 40)"
  shows "\<exists>e l' s'. boot_elf_load_init l elf (elf_mem_op env) s = Some (e, l', s')
     \<and> e = (if take 4 (e_ident h) \<noteq> [0x7F, 0x45, 0x4C, 0x46] then BL_ERR_ELF_PARSE
            else if take 5 (e_ident h) \<noteq> [0x7F, 0x45, 0x4C, 0x46, 1] then BL_ERR_ELF_CLASS_INVALID
            else if e_ehsize h \<noteq> 52 \<or> e_phentsize h \<noteq> 32 then BL_ERR_ELF_FORMAT
            else BL_ERR_ELF_SEGMENT_COUNT)
     \<and> mem_read (bt_mem s') (prog_hdrs_addr l) hdrs_size = replicate hdrs_size 0
     \<and> (\<forall>x. \<not> in_headers l x \<longrightarrow> bt_mem s' x = bt_mem s x)"
proof -
  have "take 5 xs = take 4 xs @ take 1 (drop 4 xs)" for xs :: bytes using take_add [of 4 1 xs] by simp
  then have code: "boot_elf_validate_elf_header h =
      (if take 4 (e_ident h) \<noteq> [0x7F, 0x45, 0x4C, 0x46] then BL_ERR_ELF_PARSE
       else if take 5 (e_ident h) \<noteq> [0x7F, 0x45, 0x4C, 0x46, 1] then BL_ERR_ELF_CLASS_INVALID
       else if e_ehsize h \<noteq> 52 \<or> e_phentsize h \<noteq> 32 then BL_ERR_ELF_FORMAT
       else BL_ERR_ELF_SEGMENT_COUNT)"
    using assms(7) by (auto simp: boot_elf_validate_elf_header_def EHDR_SIZE_def PHDR_SIZE_def MI_PBT_MAX_SEGMENTS_def word_less_nat_alt)
  then have "boot_elf_validate_elf_header (image_hdr (window data) elf) \<noteq> BL_ERR_NONE" by (auto simp: assms(6))
  from flash_image.init_rejects [OF assms(1,2) op_init_table assms(3-5) this, folded assms(6), unfolded code]
  show ?thesis by blast
qed

theorem elf_bad_header_refused_witness:
  "\<exists>l' s'. boot_elf_load_init demo_loader 0xA00000 (elf_mem_op demo_env) (demo_boot (\<lambda>_. 0xFF) (\<lambda>_. 7)) = Some (BL_ERR_ELF_PARSE, l', s')
     \<and> mem_read (bt_mem s') (prog_hdrs_addr demo_loader) hdrs_size = replicate hdrs_size 0"
proof -
  note holds = demo_flash_holds [of "\<lambda>_. 0xFF" "\<lambda>_. 7"]
  have "mem_read (\<lambda>_. 0xFF) a 52 = replicate 52 0xFF" for a by (rule nth_equalityI) simp_all
  then have id: "e_ident (image_hdr (window (\<lambda>_. 0xFF)) 0xA00000) = replicate 16 0xFF"
    by (simp add: image_hdr_def EHDR_SIZE_def decode_ehdr_def)
  then have bad: "\<not> (take 5 (e_ident (image_hdr (window (\<lambda>_. 0xFF)) 0xA00000)) = [0x7F, 0x45, 0x4C, 0x46, 1] \<and> P)" for P
    by (auto dest: arg_cong [where f = hd])
  have magic: "take 4 (e_ident (image_hdr (window (\<lambda>_. 0xFF)) 0xA00000)) \<noteq> [0x7F, 0x45, 0x4C, 0x46]"
    using id by (auto dest: arg_cong [where f = hd])
  have "boot_to (hdr_addr demo_loader) EHDR_SIZE" "boot_to (prog_hdrs_addr demo_loader) hdrs_size"
    "flash_from (fc_density_in_blocks demo_cfg) 0xA00000 EHDR_SIZE"
    by (simp_all add: flash_from_def demo_simps ram_to_def demo_addrs)
  from elf_bad_header_refused [OF holds _ this refl bad] show ?thesis
    using magic by auto
qed

text \<open>A segment that ends at the last byte of the RAM is never copied: the region test asks for
  \<open>dst + bytes \<le> FRN_RAM_END\<close> with \<open>FRN_RAM_END\<close> the address of the last byte, no operation
  matches, and \<open>boot_elf_mem_read\<close> reports success with nothing done.\<close>

theorem elf_unmatched_copy_succeeds:
  assumes "unat d + unat n = 0xA0000" and "n \<noteq> 0"
  shows "boot_elf_mem_read a d n (elf_mem_op env) s = Some (BL_ERR_NONE, s)"
proof -
  have "unat n \<noteq> 0" using assms(2) by (simp add: unat_eq_zero)
  then have "unat d < 0xA0000" "unat (d + n) = 0xA0000" using assms(1) unat_sum_below [of d n] by simp_all
  then show ?thesis by (simp add: region_defs)
qed

theorem elf_unmatched_copy_succeeds_witness:
  "boot_elf_mem_read 0xA00054 0x9FFFC 4 (elf_mem_op demo_env) (demo_boot (\<lambda>_. 0xFF) (\<lambda>_. 7)) = Some (BL_ERR_NONE, demo_boot (\<lambda>_. 0xFF) (\<lambda>_. 7))"
  by (rule elf_unmatched_copy_succeeds) simp_all

text \<open>Copying from flash to an RRAM address that is not word-aligned reports success and
  writes nothing: the engine refuses the address and the copy function only prints the
  error (shown for a copy of up to one buffer).\<close>

theorem elf_unaligned_rram_dropped:
  assumes "flash_holds env c content wel busy data s" and "flash_from (fc_density_in_blocks c) a (unat n)"
    and "0x200000 \<le> unat d" and "unat d + unat n \<le> 0x37FFFF" and "unat d mod 4 \<noteq> 0" and "n \<noteq> 0" and "unat n \<le> 2048"
  shows "\<exists>s'. boot_elf_mem_read a d n (elf_mem_op env) s = Some (BL_ERR_NONE, s') \<and> bt_mem s' = bt_mem s"
proof -
  have disp: "boot_elf_mem_read a d n (elf_mem_op env) s = bl_elf_flash_read_to_rram_dxe env a d n s"
    using assms(2-4) unat_sum_below [of a n] unat_sum_below [of d n]
    by (simp add: region_defs flash_from_def)
  have "unat (a - 0xA00000) = unat a - 0xA00000" using assms(2) by (subst unat_sub) (simp_all add: word_le_nat_alt flash_from_def)
  then have top: "unat (a - 0xA00000) + unat n \<le> unat (fc_density_in_blocks c) * 4096"
    using assms(2) unfolding flash_from_def by linarith
  obtain s1 where s1: "boot_sbl_flash_read env (a - 0xA00000) n s = Some (FLASH_DEVICE_DONE, mem_read data (a - 0xA00000) (unat n), s1)"
      "bt_mem s1 = bt_mem s"
    using sbl_flash_read [OF assms(1,6) top] by blast
  have "rram_verify_address d n \<noteq> BL_ERR_NONE" using assms(5) by (simp add: verify_iff)
  then have "store_rram env d (mem_read data (a - 0xA00000) (unat n)) s1 = s1"
    by (simp add: store_rram_def boot_sbl_rram_write_def rram_write_dxe_def)
  moreover have "\<not> n > RRAM_READ_BUF_SIZE" using assms(7) by (simp add: RRAM_READ_BUF_SIZE_def word_less_nat_alt)
  ultimately show ?thesis unfolding disp using s1 assms(6)
    by (simp add: bl_elf_flash_read_to_rram_dxe_def flash_copy_def APP_IMAGE_FLASH_ADDRESS_def)
qed

theorem elf_unaligned_rram_dropped_witness:
  "\<exists>s'. boot_elf_mem_read 0xA00054 0x210001 4 (elf_mem_op demo_env) (demo_boot (\<lambda>_. 0xFF) (\<lambda>_. 7)) = Some (BL_ERR_NONE, s')
     \<and> bt_mem s' = bt_mem (demo_boot (\<lambda>_. 0xFF) (\<lambda>_. 7))"
proof -
  note holds = demo_flash_holds [of "\<lambda>_. 0xFF" "\<lambda>_. 7"]
  show ?thesis by (rule elf_unaligned_rram_dropped [OF holds]) (simp_all add: flash_from_def demo_simps)
qed

text \<open>
  The copy from RRAM to RAM: the loop reads full buffers while \<open>done \<le> bytes\<close>, so it goes on
  to the end of the buffer that contains the last byte, and one further when the length is a
  multiple of the buffer size.
\<close>

lemma rram_chunks_copy:
  assumes src: "0x200000 \<le> unat a" "unat a + (unat n div 2048 + 1) * 2048 \<le> 0x380000"
    and dst: "unat d + (unat n div 2048 + 1) * 2048 \<le> 0x200000" and "q \<le> unat n div 2048 + 1"
  shows "rram_chunks a d n (of_nat (q * 2048)) (mem_write m d (mem_read m a (q * 2048))) =
    Some (0, of_nat ((unat n div 2048 + 1) * 2048), mem_write m d (mem_read m a ((unat n div 2048 + 1) * 2048)))"
  using assms(4)
proof (induction "unat n div 2048 + 1 - q" arbitrary: q)
  case 0
  then have q: "q = unat n div 2048 + 1" by simp
  have lim: "(unat n div 2048 + 1) * 2048 \<le> 0x380000" using src(2) by simp
  have "unat n < (unat n div 2048 + 1) * 2048" by (simp add: dividend_less_div_times)
  moreover have "unat (of_nat ((unat n div 2048 + 1) * 2048) :: u32) = (unat n div 2048 + 1) * 2048"
    using lim by (simp add: unat_of_nat del: of_nat_mult of_nat_add)
  ultimately have "\<not> (of_nat (q * 2048) :: u32) \<le> n" unfolding q word_le_nat_alt by simp
  then show ?case unfolding q by (subst rram_chunks.simps) (simp only: if_False)
next
  case (Suc r)
  have q: "q \<le> unat n div 2048" using Suc.hyps(2) by simp
  then have "q * 2048 \<le> unat n div 2048 * 2048" by simp
  also have "\<dots> \<le> unat n" by simp
  finally have qn: "q * 2048 \<le> unat n" .
  have "(q + 1) * 2048 \<le> (unat n div 2048 + 1) * 2048" using q by simp
  then have q1: "q * 2048 + 2048 \<le> (unat n div 2048 + 1) * 2048" by simp
  have uq: "unat (of_nat (q * 2048) :: u32) = q * 2048" using q1 src(2) by (simp add: unat_of_nat del: of_nat_mult)
  have go: "(of_nat (q * 2048) :: u32) \<le> n" using qn by (simp only: word_le_nat_alt uq)
  have ua: "unat (a + of_nat (q * 2048)) = unat a + q * 2048" using q1 src(2) by (intro unat_addr_offset) simp
  define m1 where "m1 = mem_write m d (mem_read m a (q * 2048))"
  have rd: "nt_bl_rram_read (a + of_nat (q * 2048)) (d + of_nat (q * 2048)) RRAM_READ_BUF_SIZE m1 =
      Some (0, mem_write m1 (d + of_nat (q * 2048)) (mem_read m1 (a + of_nat (q * 2048)) 2048))"
    by (subst read_main) (use ua q1 src in \<open>simp_all add: RRAM_READ_BUF_SIZE_def del: of_nat_mult\<close>)
  have "apart (a + of_nat (q * 2048)) 2048 d (q * 2048)" using ua q1 src dst by (simp add: apart_def del: of_nat_mult)
  then have "mem_read m1 (a + of_nat (q * 2048)) 2048 = mem_read m (a + of_nat (q * 2048)) 2048"
    unfolding m1_def by (intro mem_read_write_apart) simp
  then have m2: "mem_write m1 (d + of_nat (q * 2048)) (mem_read m1 (a + of_nat (q * 2048)) 2048) = mem_write m d (mem_read m a (Suc q * 2048))"
    unfolding m1_def using mem_write_append [of m d "mem_read m a (q * 2048)"] mem_read_add [of m a "q * 2048" 2048]
    by (simp add: add.commute del: of_nat_mult)
  have nx: "(of_nat (q * 2048) :: u32) + RRAM_READ_BUF_SIZE = of_nat (Suc q * 2048)" by (simp add: RRAM_READ_BUF_SIZE_def)
  have "rram_chunks a d n (of_nat (q * 2048)) m1 = rram_chunks a d n (of_nat (Suc q * 2048)) (mem_write m d (mem_read m a (Suc q * 2048)))"
    by (subst rram_chunks.simps) (simp only: go if_True if_False rd m2 nx bind.bind_lunit prod.case simp_thms)
  moreover have "r = unat n div 2048 + 1 - Suc q" "Suc q \<le> unat n div 2048 + 1" using Suc.hyps(2) q by simp_all
  ultimately show ?case using Suc.hyps(1) [of "Suc q"] unfolding m1_def by simp
qed

text \<open>Copying more than 2048 bytes from RRAM to RAM succeeds but writes too much: the memory
  after it has the image bytes up to the end of the 2048-byte chunk that follows the last full
  one, between 1 and 2048 bytes beyond the destination range.\<close>

theorem elf_rram_to_ram_overruns:
  assumes "2048 < unat n" and "written = (unat n div 2048 + 1) * 2048"
    and "0x200000 \<le> unat a" and "unat a + written \<le> 0x380000" and "unat d + written \<le> 0x200000"
  shows "bl_elf_rram_read_to_ram a d n s = Some (BL_ERR_NONE, s\<lparr>bt_mem := mem_write (bt_mem s) d (mem_read (bt_mem s) a written)\<rparr>)
     \<and> unat n < written \<and> written \<le> unat n + 2048"
proof -
  define k where "k = unat n div 2048 * 2048"
  define j where "j = unat n mod 2048"
  have kj: "unat n = k + j" "written = k + 2048" "j < 2048" by (simp_all add: k_def j_def assms(2))
  define m where "m = mem_write (bt_mem s) d (mem_read (bt_mem s) a written)"
  have loop: "rram_chunks a d n 0 (bt_mem s) = Some (0, of_nat written, m)"
    using rram_chunks_copy [of a n d 0 "bt_mem s"] assms(3-5) unfolding assms(2) [symmetric] m_def by simp
  have big: "n > RRAM_READ_BUF_SIZE" using assms(1) by (simp add: RRAM_READ_BUF_SIZE_def word_less_nat_alt)
  have dn: "of_nat written - RRAM_READ_BUF_SIZE = (of_nat k :: u32)" by (simp add: kj(2) RRAM_READ_BUF_SIZE_def)
  have "of_nat (unat n) = (of_nat (k + j) :: u32)" using kj(1) by simp
  then have n: "n = of_nat k + of_nat j" by simp
  then have last: "RRAM_READ_BUF_SIZE - (of_nat written - n) = of_nat j" by (simp add: kj(2) RRAM_READ_BUF_SIZE_def)
  have uj: "unat (of_nat j :: u32) = j" using kj(3) by (simp add: unat_of_nat)
  have tl: "nt_bl_rram_read (a + of_nat k) (d + of_nat k) (of_nat j) m = Some (0, m)" if "(of_nat j :: u32) \<noteq> 0"
  proof -
    have ua: "unat (a + of_nat k) = unat a + k" using kj assms(4) by (intro unat_addr_offset) simp
    have "apart (a + of_nat k) j d written" using ua kj assms(3-5) by (simp add: apart_def)
    then have "mem_read m (a + of_nat k) j = mem_read (bt_mem s) (a + of_nat k) j"
      unfolding m_def by (intro mem_read_write_apart) simp
    also have "\<dots> = take j (drop k (mem_read (bt_mem s) a written))"
      using kj unfolding drop_mem_read by (simp add: mem_read_take)
    also have "\<dots> = mem_read m (d + of_nat k) j"
      unfolding m_def by (rule mem_read_slice [symmetric]) (use kj assms(4) in simp_all)
    finally show ?thesis using that ua kj assms(3,4) read_main [of "a + of_nat k" "of_nat j" "d + of_nat k" m]
      by (simp add: uj mem_write_same)
  qed
  have "bl_elf_rram_read_to_ram a d n s = Some (BL_ERR_NONE, s\<lparr>bt_mem := m\<rparr>)"
    unfolding bl_elf_rram_read_to_ram_def using big loop tl by (simp add: dn last)
  then show ?thesis using kj unfolding m_def by simp
qed

theorem elf_rram_to_ram_overruns_witness:
  "bl_elf_rram_read_to_ram 0x300000 0x1000 2049 (demo_boot (\<lambda>_. 0xFF) (\<lambda>_. 7)) = Some (BL_ERR_NONE,
     (demo_boot (\<lambda>_. 0xFF) (\<lambda>_. 7))\<lparr>bt_mem := mem_write (\<lambda>_. 7) 0x1000 (mem_read (\<lambda>_. 7) 0x300000 4096)\<rparr>)"
  using elf_rram_to_ram_overruns [of 2049 4096 "0x300000" "0x1000" "demo_boot (\<lambda>_. 0xFF) (\<lambda>_. 7)"]
  by (simp add: demo_boot_def)

end
