(* ===== verification/Sbl_Fwd.thy ===== *)
theory Sbl_Fwd
  imports Fdt
begin

text \<open>
  The choice of the application image in flash: the firmware descriptors at the start of the
  flash, \<^verbatim>\<open>qboot/system/sbl_flash_fwd.c\<close>, and the selection of one of them, with the reset that
  may follow, in \<^verbatim>\<open>qboot/src/sbl_main.c\<close>. The state is the boot state with the global
  \<open>g_sbl_info\<close>.
\<close>

section \<open>Data\<close>

definition MAX_FW_IMAGE_ENTRIES :: nat where "MAX_FW_IMAGE_ENTRIES = 30"
definition FW_UPGRADE_MAGIC_V1 :: u32 where "FW_UPGRADE_MAGIC_V1 = 0x54445746"
definition APP_IMG_ID :: u32 where "APP_IMG_ID = 10"
definition SBL_IMG_ID :: u32 where "SBL_IMG_ID = 1"
definition INDEX_TRIAL :: u8 where "INDEX_TRIAL = 0"
definition INDEX_CURRENT :: u8 where "INDEX_CURRENT = 1"
definition INDEX_GOLDEN :: u8 where "INDEX_GOLDEN = 2"
definition MAX_FWD_NUM :: nat where "MAX_FWD_NUM = 3"
definition ERROR_SBL_NONE :: u8 where "ERROR_SBL_NONE = 0"
definition ERROR_SBL_LOAD_INIT :: nat where "ERROR_SBL_LOAD_INIT = 1"
definition ERROR_SBL_IMAGE_AUTH :: nat where "ERROR_SBL_IMAGE_AUTH = 2"
definition ERROR_SBL_IMAGE_LOAD :: nat where "ERROR_SBL_IMAGE_LOAD = 3"
definition ERROR_SBL_VERIFY_HASH :: nat where "ERROR_SBL_VERIFY_HASH = 4"
definition FWD_SIZE :: nat where "FWD_SIZE = 512"

record image_entry =
  ie_image_id :: u32
  ie_start_block :: u32
  ie_total_blocks :: u32
  ie_img_version :: u32

record fwd =
  fw_signature :: u32
  fw_version :: u32
  fw_rank :: u32
  fw_status :: u8
  fw_total_images :: u8
  fw_reserved :: bytes
  fw_image_entries :: "image_entry list"

record sbl_info_s =
  si_flash_fwd_table :: "fwd list"
  si_boot_fwd :: "u8 list"
  si_valid_fwd :: u8
  si_valid_fwd_mask :: u8
  si_load_type :: boot_elf_load_type
  si_ota_sbl_exist :: u8
  si_err_code :: u8

definition decode_entry :: "bytes \<Rightarrow> image_entry" where
  "decode_entry bs =
     \<lparr>ie_image_id = le32 bs, ie_start_block = le32 (drop 4 bs), ie_total_blocks = le32 (drop 8 bs), ie_img_version = le32 (drop 12 bs)\<rparr>"

fun byte_at :: "nat \<Rightarrow> bytes \<Rightarrow> u8" where
  "byte_at i bs = (if i < length bs then bs ! i else 0)"

definition decode_fwd :: "bytes \<Rightarrow> fwd" where
  "decode_fwd bs =
     \<lparr>fw_signature = le32 bs, fw_version = le32 (drop 4 bs), fw_rank = le32 (drop 8 bs), fw_status = byte_at 12 bs,
      fw_total_images = byte_at 13 bs, fw_reserved = take 18 (drop 14 bs),
      fw_image_entries = map (\<lambda>i. decode_entry (drop (32 + 16 * i) bs)) [0 ..< MAX_FW_IMAGE_ENTRIES]\<rparr>"

definition encode_entry :: "image_entry \<Rightarrow> bytes" where
  "encode_entry e = le_bytes32 (ie_image_id e) @ le_bytes32 (ie_start_block e) @ le_bytes32 (ie_total_blocks e) @ le_bytes32 (ie_img_version e)"

definition encode_fwd :: "fwd \<Rightarrow> bytes" where
  "encode_fwd f =
     le_bytes32 (fw_signature f) @ le_bytes32 (fw_version f) @ le_bytes32 (fw_rank f) @ [fw_status f, fw_total_images f]
     @ fw_reserved f @ concat (map encode_entry (fw_image_entries f))"

definition empty_fwd :: fwd where
  "empty_fwd = decode_fwd (replicate FWD_SIZE 0)"

record 'd sbl =
  sb_boot :: "'d boot"
  sb_info :: sbl_info_s

definition sector_addr :: "u32 \<Rightarrow> u32" where
  "sector_addr sector = sector * BLOCK_SIZE_IN_BYTES"

section \<open>Reading the descriptors\<close>

definition fwd_valid :: "fwd \<Rightarrow> bool" where
  "fwd_valid f \<longleftrightarrow> fw_signature f = FW_UPGRADE_MAGIC_V1 \<and> fw_status f = ucast OTA_IMG_STATE_VALID"

text \<open>A valid descriptor goes to the slot of its rank.\<close>

definition fwd_slot :: "fwd \<Rightarrow> u8" where
  "fwd_slot f = (if fw_rank f = 0 then INDEX_GOLDEN else if fw_rank f = 0xFFFFFFFF then INDEX_TRIAL else INDEX_CURRENT)"

definition slot_bit :: "u8 \<Rightarrow> u8" where
  "slot_bit slot = (if slot = INDEX_GOLDEN then 1 else if slot = INDEX_TRIAL then 4 else 2)"

definition record_fwd :: "u32 \<Rightarrow> fwd \<Rightarrow> sbl_info_s \<Rightarrow> sbl_info_s" where
  "record_fwd i_sector f info =
     (let slot = fwd_slot f
      in info\<lparr>si_flash_fwd_table := (si_flash_fwd_table info)[unat slot := f],
              si_boot_fwd := (si_boot_fwd info)[unat slot := ucast i_sector],
              si_valid_fwd_mask := si_valid_fwd_mask info OR slot_bit slot\<rparr>)"

primrec fwd_loop :: "'d boot_env \<Rightarrow> nat list \<Rightarrow> bl_error_type \<Rightarrow> 'd sbl \<Rightarrow> (bl_error_type \<times> 'd sbl) option" where
  "fwd_loop env [] status s = Some (status, s)"
| "fwd_loop env (i # is) status s =
     do {
       (st, bs, b) \<leftarrow> boot_sbl_flash_read env (sector_addr (of_nat i)) (of_nat FWD_SIZE) (sb_boot s);
       let s = s\<lparr>sb_boot := b\<rparr>;
       if st \<noteq> FLASH_DEVICE_DONE then Some (status, s)
       else if fwd_valid (decode_fwd bs)
       then fwd_loop env is BL_ERR_NONE (s\<lparr>sb_info := record_fwd (of_nat i) (decode_fwd bs) (sb_info s)\<rparr>)
       else fwd_loop env is status s
     }"

definition boot_sbl_get_fwd_info :: "'d boot_env \<Rightarrow> 'd sbl \<Rightarrow> (bl_error_type \<times> 'd sbl) option" where
  "boot_sbl_get_fwd_info env s =
     fwd_loop env [0 ..< MAX_FWD_NUM] BL_ERR_INVALID_PARAM
       (s\<lparr>sb_info := (sb_info s)\<lparr>si_flash_fwd_table := replicate MAX_FWD_NUM empty_fwd\<rparr>\<rparr>)"

section \<open>Using a descriptor\<close>

definition fwd_of :: "sbl_info_s \<Rightarrow> u8 \<Rightarrow> fwd option" where
  "fwd_of info i = (if unat i < length (si_flash_fwd_table info) then Some (si_flash_fwd_table info ! unat i) else None)"

definition FWD_TABLE_IS_VALID :: "sbl_info_s \<Rightarrow> u8 \<Rightarrow> bool" where
  "FWD_TABLE_IS_VALID info i \<longleftrightarrow> (case fwd_of info i of None \<Rightarrow> False | Some f \<Rightarrow> fw_signature f = FW_UPGRADE_MAGIC_V1 \<and> fw_status f = 1)"

text \<open>The index of the first entry of the image, or the number of entries.\<close>

definition boot_sbl_find_fwd_image :: "sbl_info_s \<Rightarrow> u8 \<Rightarrow> u32 \<Rightarrow> u8 option" where
  "boot_sbl_find_fwd_image info fwd_idx img =
     map_option (\<lambda>f. case find (\<lambda>n. ie_image_id (fw_image_entries f ! n) = img) [0 ..< MAX_FW_IMAGE_ENTRIES] of
                   Some n \<Rightarrow> of_nat n | None \<Rightarrow> of_nat MAX_FW_IMAGE_ENTRIES)
       (fwd_of info fwd_idx)"

definition rank_of_index :: "u8 \<Rightarrow> u32 \<Rightarrow> u32" where
  "rank_of_index i old =
     (if i = INDEX_TRIAL then OTA_IMG_RANK_TRIAL else if i = INDEX_CURRENT then OTA_IMG_RANK_CURRENT
      else if i = INDEX_GOLDEN then OTA_IMG_RANK_GOLDEN else old)"

text \<open>
  \<open>ptrs\<close>: neither pointer is NULL. The result is the status, the entry, the load address
  and the information block; a descriptor index outside the table is undefined.
\<close>

definition boot_sbl_prepare_set_fde ::
    "bool \<Rightarrow> fdt_entry \<Rightarrow> u32 \<Rightarrow> u8 \<Rightarrow> sbl_info_s \<Rightarrow> (bl_error_type \<times> fdt_entry \<times> u32 \<times> sbl_info_s) option" where
  "boot_sbl_prepare_set_fde ptrs app_fde app_load_addr i info =
     do {
       f \<leftarrow> fwd_of info i;
       if \<not> fwd_valid f then Some (BL_ERR_NONE, app_fde, app_load_addr, info)
       else if \<not> ptrs then Some (BL_ERR_NULL_PTR, app_fde, app_load_addr, info)
       else
         let pos = ucast (si_boot_fwd info ! unat i) :: u32;
             (fde, load, info) =
               (case find (\<lambda>n. ie_image_id (fw_image_entries f ! n) = APP_IMG_ID) [0 ..< MAX_FW_IMAGE_ENTRIES] of
                  None \<Rightarrow> (app_fde, app_load_addr, info)
                | Some n \<Rightarrow>
                    (app_fde\<lparr>fe_addr := pos, fe_state := OTA_IMG_STATE_VALID, fe_rank := rank_of_index i (fe_rank app_fde)\<rparr>,
                     ie_start_block (fw_image_entries f ! n) * BLOCK_SIZE_IN_BYTES,
                     info\<lparr>si_load_type := (if fe_addr app_fde \<noteq> pos then BOOT_ELF_LOAD_FULL else BOOT_ELF_LOAD_RAM)\<rparr>))
         in Some (BL_ERR_NONE, fde\<lparr>fe_reserve := (fe_reserve fde)[0 := si_valid_fwd_mask info]\<rparr>, load, info)
     }"

definition boot_sbl_flash_write :: "'d boot_env \<Rightarrow> u32 \<Rightarrow> u32 \<Rightarrow> bytes \<Rightarrow> 'd boot \<Rightarrow> (flash_status \<times> 'd boot) option" where
  "boot_sbl_flash_write env address byte_cnt buffer s =
     map_option (\<lambda>(status, f). (status, s\<lparr>bt_flash := f\<rparr>))
       (drv_flash_write (be_bus env) address byte_cnt (Some buffer) False (bt_flash s))"

text \<open>
  The test of the read is the wrong way round: the descriptor is only looked at when it could
  not be read, and is then still the zeroed local variable, as far as the read left it.
\<close>

definition boot_sbl_update_fwd :: "'d boot_env \<Rightarrow> u8 \<Rightarrow> 'd boot \<Rightarrow> 'd boot_result" where
  "boot_sbl_update_fwd env sector s =
     do {
       (st, bs, s) \<leftarrow> boot_sbl_flash_read env (sector_addr (ucast sector)) (of_nat FWD_SIZE) s;
       if st \<noteq> FLASH_DEVICE_DONE then
         (let f = decode_fwd (bs @ replicate (FWD_SIZE - length bs) 0)
          in if fw_status f \<noteq> 0 then do {
               (st, s) \<leftarrow> boot_sbl_flash_write env (sector_addr (ucast sector)) (of_nat FWD_SIZE) (encode_fwd (f\<lparr>fw_status := 0\<rparr>)) s;
               Some (if st \<noteq> FLASH_DEVICE_DONE then BL_ERR_INVALID_PARAM else BL_ERR_NONE, s)
             } else Some (BL_ERR_NONE, s))
       else Some (BL_ERR_NONE, s)
     }"

section \<open>Selection\<close>

text \<open>Whether the reset is carried out: not for the last image.\<close>

definition boot_sbl_sw_reset :: "sbl_info_s \<Rightarrow> bool" where
  "boot_sbl_sw_reset info \<longleftrightarrow>
     \<not> (si_valid_fwd info = INDEX_GOLDEN
        \<or> si_valid_fwd info = INDEX_CURRENT \<and> \<not> FWD_TABLE_IS_VALID info INDEX_GOLDEN
        \<or> si_valid_fwd info = INDEX_TRIAL \<and> \<not> FWD_TABLE_IS_VALID info INDEX_CURRENT)"

text \<open>The chip is reset, with the state it leaves behind in memory and flash, or a value is returned.\<close>

datatype ('d, 'a) step = Reset "'d boot" | Go 'a

definition clear_status :: "u8 \<Rightarrow> sbl_info_s \<Rightarrow> sbl_info_s" where
  "clear_status i info =
     info\<lparr>si_flash_fwd_table := (si_flash_fwd_table info)[unat i := (si_flash_fwd_table info ! unat i)\<lparr>fw_status := 0\<rparr>]\<rparr>"

text \<open>After an error: possibly a reset, possibly marking the descriptor in flash, then the next index.\<close>

definition select_after_error :: "'d boot_env \<Rightarrow> 'd sbl \<Rightarrow> ('d, u8 \<times> 'd sbl) step option" where
  "select_after_error env s =
     (let info = sb_info s;
          give_up = si_ota_sbl_exist info \<noteq> of_nat MAX_FW_IMAGE_ENTRIES \<or> si_valid_fwd info = INDEX_GOLDEN;
          info = (if give_up then info\<lparr>si_err_code := ERROR_SBL_NONE\<rparr> else info)
      in if give_up \<and> boot_sbl_sw_reset info then Some (Reset (sb_boot s))
         else do {
           let late = drop_bit ERROR_SBL_IMAGE_LOAD (si_err_code info) \<noteq> 0 \<and> unat (si_valid_fwd info) < MAX_FWD_NUM;
           (_, b) \<leftarrow> (if late then boot_sbl_update_fwd env (si_boot_fwd info ! unat (si_valid_fwd info)) (sb_boot s)
                       else Some (BL_ERR_NONE, sb_boot s));
           if late \<and> boot_sbl_sw_reset info then Some (Reset b)
           else
             let info = (if unat (si_valid_fwd info) < MAX_FWD_NUM
                         then (clear_status (si_valid_fwd info) info)\<lparr>si_err_code := ERROR_SBL_NONE, si_valid_fwd := si_valid_fwd info + 1\<rparr>
                         else info)
             in Some (Go (si_valid_fwd info, s\<lparr>sb_boot := b, sb_info := info\<rparr>))
         })"

text \<open>Without an error: the first valid one of trial, current and golden.\<close>

definition first_valid :: "sbl_info_s \<Rightarrow> u8 list \<Rightarrow> u8 option" where
  "first_valid info is = find (FWD_TABLE_IS_VALID info) is"

definition select_first :: "u32 \<Rightarrow> sbl_info_s \<Rightarrow> (u8 \<times> sbl_info_s) option" where
  "select_first sbl_rank info =
     (case first_valid info [INDEX_TRIAL, INDEX_CURRENT, INDEX_GOLDEN] of
        None \<Rightarrow> Some (of_nat MAX_FWD_NUM, info)
      | Some i \<Rightarrow> do {
          let info = info\<lparr>si_valid_fwd := i\<rparr>;
          ota \<leftarrow> boot_sbl_find_fwd_image info i SBL_IMG_ID;
          let info = info\<lparr>si_ota_sbl_exist := ota\<rparr>;
          if ota \<noteq> of_nat MAX_FW_IMAGE_ENTRIES \<and> sbl_rank = OTA_IMG_RANK_CURRENT \<and> i = INDEX_TRIAL then
            (let info = clear_status i info;
                 info = (case first_valid info [INDEX_CURRENT, INDEX_GOLDEN] of None \<Rightarrow> info | Some j \<Rightarrow> info\<lparr>si_valid_fwd := j\<rparr>)
             in Some (si_valid_fwd info, info))
          else Some (si_valid_fwd info, info)
        })"

text \<open>\<open>sbl_rank\<close> is the rank of the running boot loader (\<open>sbl_fde_content.rank\<close>).\<close>

definition boot_sbl_select_validFwd :: "'d boot_env \<Rightarrow> u32 \<Rightarrow> 'd sbl \<Rightarrow> ('d, u8 \<times> 'd sbl) step option" where
  "boot_sbl_select_validFwd env sbl_rank s =
     (if si_err_code (sb_info s) \<noteq> ERROR_SBL_NONE then select_after_error env s
      else map_option (\<lambda>(i, info). Go (i, s\<lparr>sb_info := info\<rparr>)) (select_first sbl_rank (sb_info s)))"

end
