(* ===== verification/Sbl_Auth.thy ===== *)
theory Sbl_Auth
  imports Rollback Sbl_Fwd
begin

text \<open>
  Authentication of the application image, \<^verbatim>\<open>qboot/sbl_auth/sbl_auth.c\<close>. The routines of the ROM
  (\<open>secimg_auth\<close>, \<open>pbl_get_image_hash_handle\<close>, \<open>secimg_auth_is_valid_segment\<close>) and \<open>mbedtls_sha256\<close>
  are parameters; they may use and change the memory. Their result codes are error values,
  with \<open>BL_ERR_NONE\<close> for success.
\<close>

definition SECBOOT_IMG_AUTH_APP_IMG :: u32 where "SECBOOT_IMG_AUTH_APP_IMG = 1"
definition SECBOOT_IMG_AUTH_APP_GOLD_IMG :: u32 where "SECBOOT_IMG_AUTH_APP_GOLD_IMG = 3"
definition CRYPTO_DIGEST_BYTE_SIZE_SHA256 :: nat where "CRYPTO_DIGEST_BYTE_SIZE_SHA256 = 32"

record 'd secboot_auth_image_info =
  ii_elf_loader :: "'d boot_elf_loader"
  ii_image_id :: u32
  ii_image_rank :: u32

record pbl_hash_handle =
  hh_hash_table :: bytes
  hh_auth_state :: pbl_auth_state

text \<open>A function pointer is \<open>None\<close> when it is NULL.\<close>

record 'd boot_apps_shared_data =
  sd_auth_state :: pbl_auth_state
  sd_pbl_get_image_hash_handle :: "('d boot \<Rightarrow> pbl_hash_handle \<Rightarrow> bl_error_type \<times> pbl_hash_handle) option"
  sd_secimg_auth :: "('d secboot_auth_image_info \<Rightarrow> 'd boot \<Rightarrow> bl_error_type \<times> 'd boot) option"
  sd_is_valid_segment :: "boot_elf32_phdr \<Rightarrow> bool"

text \<open>The digest, or \<open>None\<close> when the hash function reports an error.\<close>

type_synonym sha256 = "bytes \<Rightarrow> bytes option"

definition checks_off :: "pbl_auth_state \<Rightarrow> bool" where
  "checks_off st \<longleftrightarrow> \<not> auth_enabled st \<and> hash_integrity_check_disabled st"

definition sbl_image_auth ::
    "'d secboot_auth_image_info \<Rightarrow> 'd boot_apps_shared_data \<Rightarrow> pbl_hash_handle \<Rightarrow> 'd boot
     \<Rightarrow> bl_error_type \<times> pbl_hash_handle \<times> 'd boot" where
  "sbl_image_auth image_info sbl_shared hash_handle s =
     (if checks_off (sd_auth_state sbl_shared) then (BL_ERR_NONE, hash_handle, s)
      else case (sd_secimg_auth sbl_shared, sd_pbl_get_image_hash_handle sbl_shared) of
        (Some secimg_auth, Some get_handle) \<Rightarrow>
          (case secimg_auth image_info s of (sbl_ret, s) \<Rightarrow>
           case (if sbl_ret = BL_ERR_NONE then get_handle s hash_handle else (sbl_ret, hash_handle)) of (sbl_ret, hash_handle) \<Rightarrow>
           if sbl_ret = BL_ERR_NONE \<and> auth_enabled (sd_auth_state sbl_shared) then
             (case boot_rollback_validate_image_version (ii_image_id image_info) (Some (sd_auth_state sbl_shared))
                     (Some (hh_auth_state hash_handle)) of
                (ok, app) \<Rightarrow>
                  (if ok then sbl_ret else BL_ERR_ROLLBACK_VERSION_VERIFY_FAIL,
                   hash_handle\<lparr>hh_auth_state := (case app of Some a \<Rightarrow> a | None \<Rightarrow> hh_auth_state hash_handle)\<rparr>, s))
           else (sbl_ret, hash_handle, s))
      | _ \<Rightarrow> (BL_ERR_IMG_AUTH_NULL_PTR, hash_handle, s))"

text \<open>The digest of segment \<open>i\<close> is entry \<open>i\<close> of the hash table.\<close>

definition table_digest :: "pbl_hash_handle \<Rightarrow> nat \<Rightarrow> bytes" where
  "table_digest h i = take CRYPTO_DIGEST_BYTE_SIZE_SHA256 (drop (i * CRYPTO_DIGEST_BYTE_SIZE_SHA256) (hh_hash_table h))"

primrec verify_segments ::
    "sha256 \<Rightarrow> (boot_elf32_phdr \<Rightarrow> bool) \<Rightarrow> 'd boot_elf_loader \<Rightarrow> pbl_hash_handle \<Rightarrow> memory \<Rightarrow> nat list \<Rightarrow> bl_error_type" where
  "verify_segments sha valid_segment l h m [] = BL_ERR_NONE"
| "verify_segments sha valid_segment l h m (i # is) =
     (let ph = prog_hdr l m i
      in if valid_segment ph \<and> p_filesz ph \<noteq> 0 then
           (case sha (mem_read m (p_vaddr ph) (unat (p_filesz ph))) of
              None \<Rightarrow> BL_ERR_IMG_SECURITY_FAIL
            | Some digest \<Rightarrow>
                if table_digest h i \<noteq> digest then BL_ERR_ELF_HASH_MISMATCH
                else verify_segments sha valid_segment l h m is)
         else verify_segments sha valid_segment l h m is)"

text \<open>\<open>None\<close> for \<open>image_info\<close> and \<open>sbl_shared\<close> is a NULL pointer; a NULL loader pointer is not modelled apart.\<close>

definition sbl_compute_verify_hash ::
    "'d boot_env \<Rightarrow> sha256 \<Rightarrow> 'd secboot_auth_image_info option \<Rightarrow> 'd boot_apps_shared_data option \<Rightarrow> pbl_hash_handle \<Rightarrow> 'd boot
     \<Rightarrow> 'd boot_result" where
  "sbl_compute_verify_hash env sha image_info sbl_shared h s =
     (case (image_info, sbl_shared) of
        (Some info, Some shared) \<Rightarrow>
          if checks_off (sd_auth_state shared) then Some (BL_ERR_NONE, s)
          else
            let l = ii_elf_loader info;
                sbl_ret = verify_segments sha (sd_is_valid_segment shared) l h (bt_mem s) [1 ..< unat (el_phr_num l)]
            in if sbl_ret = BL_ERR_NONE \<and> auth_enabled (sd_auth_state shared) \<and> ii_image_rank info = OTA_IMG_RANK_CURRENT
                  \<and> anti_rollback_unlock (sd_auth_state shared)
               then map_option (\<lambda>(r, m). (r, s\<lparr>bt_mem := m\<rparr>))
                      (boot_rollback_update_fuse_version (be_dma env) SECBOOT_IMG_AUTH_APP_IMG (Some (hh_auth_state h)) (bt_mem s))
               else Some (sbl_ret, s)
      | _ \<Rightarrow> Some (BL_ERR_IMG_AUTH_NULL_PTR, s))"

end
