(* ===== verification/Sbl_Main.thy ===== *)
theory Sbl_Main
  imports Sbl_Auth
begin

text \<open>
  The second-stage boot loader, \<open>loader_start\<close> of \<^verbatim>\<open>qboot/src/sbl_main.c\<close>, in the build with QSPI flash
  and without execution in place: what the ROM shares, the choice of the application, the loop
  that selects, loads and checks an image until one is good, and the hand-over. The ROM's
  \<open>boot_elf_load_init\<close>, the hash function and the addresses of the linker script are parameters.
  Initialisation of UART, MPU and SysTick and the printed messages are left out.
\<close>

section \<open>What the ROM shares\<close>

definition PBL_VERSION_ADDR :: addr where "PBL_VERSION_ADDR = 0x200168"
definition PBL_VER_CS :: u32 where "PBL_VER_CS = push_bit 24 16 OR push_bit 16 2 OR 2"

definition is_pbl_cs :: "memory \<Rightarrow> bool" where
  "is_pbl_cs m \<longleftrightarrow> \<not> le32 (mem_read m PBL_VERSION_ADDR 4) < PBL_VER_CS"

type_synonym 'd load_init =
  "'d boot_elf_loader \<Rightarrow> addr \<Rightarrow> 'd bl_elf_mem_op list \<Rightarrow> 'd boot \<Rightarrow> (bl_error_type \<times> 'd boot_elf_loader \<times> 'd boot) option"

record 'd boot_pbl_share =
  ps_boot_elf_load_init :: "'d load_init"
  ps_cmd :: "char option"
  ps_fde_idx :: u32
  ps_fde_content :: fdt_entry
  ps_secboot_data :: "'d boot_apps_shared_data"

text \<open>The argument read with the layout of an early and of a commercial ROM; only the latter authenticates.\<close>

definition get_pbl_share :: "'d boot_pbl_share \<Rightarrow> 'd boot_pbl_share \<Rightarrow> bool \<Rightarrow> 'd boot_pbl_share \<times> bool" where
  "get_pbl_share arg_es arg_cs cs_pbl = (if \<not> cs_pbl then (arg_es, False) else (arg_cs, True))"

section \<open>State of the boot\<close>

text \<open>What does not change during the loop.\<close>

record 'd sbl_cfg =
  sc_env :: "'d boot_env"
  sc_load_init :: "'d load_init"
  sc_sha256 :: sha256
  sc_auth_enable :: bool
  sc_shared :: "'d boot_apps_shared_data"
  sc_sbl_rank :: u32

text \<open>The variables of \<open>loader_start\<close> the loop works on, with the globals.\<close>

record 'd sbl_run = "'d sbl" +
  rn_loader :: "'d boot_elf_loader"
  rn_hash :: pbl_hash_handle
  rn_fde :: fdt_entry
  rn_tempfde :: fdt_entry
  rn_load_addr :: u32
  rn_type :: boot_elf_load_type

definition set_error :: "nat \<Rightarrow> 'd sbl_run \<Rightarrow> 'd sbl_run" where
  "set_error bit_nr r = r\<lparr>sb_info := (sb_info r)\<lparr>si_err_code := si_err_code (sb_info r) OR push_bit bit_nr 1\<rparr>\<rparr>"

definition sbl_part :: "'d sbl_run \<Rightarrow> 'd sbl" where
  "sbl_part r = \<lparr>sb_boot = sb_boot r, sb_info = sb_info r\<rparr>"

section \<open>One round of the loop\<close>

text \<open>
  Selection: the descriptor gives the load address, the type of the load and the new
  descriptor entry. When no descriptor is selected the values of the last round stay.
\<close>

definition select_image :: "'d sbl_cfg \<Rightarrow> 'd sbl_run \<Rightarrow> ('d, 'd sbl_run) step option" where
  "select_image cfg r =
     (let info = sb_info r;
          info = (if fe_addr (rn_fde r) \<ge> of_nat MAX_FWD_NUM then info\<lparr>si_load_type := BOOT_ELF_LOAD_FULL\<rparr> else info)
      in do {
        sel \<leftarrow> boot_sbl_select_validFwd (sc_env cfg) (sc_sbl_rank cfg) ((sbl_part r)\<lparr>sb_info := info\<rparr>);
        case sel of
          Reset b \<Rightarrow> Some (Reset b)
        | Go (i, s) \<Rightarrow>
            let r = r\<lparr>sb_boot := sb_boot s, sb_info := sb_info s\<rparr>
            in if unat i < MAX_FWD_NUM then do {
                 (_, fde, load, info) \<leftarrow> boot_sbl_prepare_set_fde True (rn_fde r) (rn_load_addr r) (si_valid_fwd (sb_info r)) (sb_info r);
                 Some (Go (r\<lparr>sb_info := info, rn_tempfde := rn_fde r, rn_fde := fde, rn_type := si_load_type info,
                             rn_load_addr := load + APP_IMAGE_FLASH_ADDRESS\<rparr>))
               } else Some (Go r)
      })"

definition image_info :: "'d sbl_run \<Rightarrow> 'd secboot_auth_image_info" where
  "image_info r =
     \<lparr>ii_elf_loader = rn_loader r,
      ii_image_id = (if fe_rank (rn_fde r) = OTA_IMG_RANK_GOLDEN then SECBOOT_IMG_AUTH_APP_GOLD_IMG else SECBOOT_IMG_AUTH_APP_IMG),
      ii_image_rank = fe_rank (rn_fde r)\<rparr>"

text \<open>The four stages; each leaves its error bit and ends the round when it fails.\<close>

definition stage_init :: "'d sbl_cfg \<Rightarrow> 'd sbl_run \<Rightarrow> (bool \<times> 'd sbl_run) option" where
  "stage_init cfg r =
     map_option (\<lambda>(err, l, b). let r = r\<lparr>rn_loader := l, sb_boot := b\<rparr>
                               in if err \<noteq> BL_ERR_NONE then (False, set_error ERROR_SBL_LOAD_INIT r) else (True, r))
       (sc_load_init cfg (rn_loader r) (rn_load_addr r) (elf_mem_op (sc_env cfg)) (sb_boot r))"

definition stage_auth :: "'d sbl_cfg \<Rightarrow> 'd sbl_run \<Rightarrow> (bool \<times> 'd sbl_run) option" where
  "stage_auth cfg r =
     (if sc_auth_enable cfg then
        (case sbl_image_auth (image_info r) (sc_shared cfg) (rn_hash r) (sb_boot r) of
           (err, h, b) \<Rightarrow> let r = r\<lparr>rn_hash := h, sb_boot := b\<rparr>
                          in Some (if err \<noteq> BL_ERR_NONE then (False, set_error ERROR_SBL_IMAGE_AUTH r) else (True, r)))
      else Some (True, r))"

definition stage_load :: "'d sbl_cfg \<Rightarrow> 'd sbl_run \<Rightarrow> (bool \<times> 'd sbl_run) option" where
  "stage_load cfg r =
     map_option (\<lambda>(err, b). let r = r\<lparr>sb_boot := b\<rparr>
                            in if err \<noteq> BL_ERR_NONE then (False, set_error ERROR_SBL_IMAGE_LOAD r) else (True, r))
       (boot_elf_load_image (rn_loader r) (rn_type r) (sb_boot r))"

definition stage_hash :: "'d sbl_cfg \<Rightarrow> 'd sbl_run \<Rightarrow> (bool \<times> 'd sbl_run) option" where
  "stage_hash cfg r =
     (if sc_auth_enable cfg then
        map_option (\<lambda>(err, b). let r = r\<lparr>sb_boot := b\<rparr>
                               in if err \<noteq> BL_ERR_NONE then (False, set_error ERROR_SBL_VERIFY_HASH r) else (True, r))
          (sbl_compute_verify_hash (sc_env cfg) (sc_sha256 cfg) (Some (image_info r)) (Some (sc_shared cfg)) (rn_hash r) (sb_boot r))
      else Some (True, r))"

fun run_stages :: "('r \<Rightarrow> (bool \<times> 'r) option) list \<Rightarrow> 'r \<Rightarrow> 'r option" where
  "run_stages [] r = Some r"
| "run_stages (f # fs) r = do { (ok, r) \<leftarrow> f r; if ok then run_stages fs r else Some r }"

definition attempt :: "'d sbl_cfg \<Rightarrow> 'd sbl_run \<Rightarrow> 'd sbl_run option" where
  "attempt cfg = run_stages [stage_init cfg, stage_auth cfg, stage_load cfg, stage_hash cfg]"

text \<open>The loop goes round until a round leaves no error bit.\<close>

partial_function (option) boot_loop :: "'d sbl_cfg \<Rightarrow> 'd sbl_run \<Rightarrow> ('d, 'd sbl_run) step option" where
  "boot_loop cfg r =
     do {
       sel \<leftarrow> select_image cfg r;
       case sel of
         Reset b \<Rightarrow> Some (Reset b)
       | Go r \<Rightarrow> do {
           r \<leftarrow> attempt cfg r;
           if si_err_code (sb_info r) \<noteq> 0 then boot_loop cfg r else Some (Go r)
         }
     }"

section \<open>Hand-over\<close>

definition initial_info :: sbl_info_s where
  "initial_info =
     \<lparr>si_flash_fwd_table = replicate MAX_FWD_NUM empty_fwd, si_boot_fwd = replicate MAX_FWD_NUM 0, si_valid_fwd = 0,
      si_valid_fwd_mask = 0, si_load_type = BOOT_ELF_LOAD_FULL, si_ota_sbl_exist = 0, si_err_code = 0\<rparr>"

definition initial_share :: boot_sbl_share where
  "initial_share = \<lparr>sh_magic_num = 0, sh_ver = 0, sh_img_type = 0, sh_bdf_addr = 0, sh_fdt_part = replicate PART_SIZE (0, 0)\<rparr>"

text \<open>The boot ends with a reset or with the entry, the stack pointer and the argument of the application.\<close>

datatype 'd outcome = Rebooted "'d boot" | Started u32 u32 boot_sbl_share "'d boot"

text \<open>
  After the loop: the boot loader's own entry becomes valid when it was on trial, and the
  application's entry is written when this round changed it.
\<close>

definition confirm_sbl :: "dma \<Rightarrow> addr \<Rightarrow> u32 \<Rightarrow> fdt_entry \<Rightarrow> memory \<Rightarrow> memory" where
  "confirm_sbl dma fdt sbl_fde_idx content m =
     (if fe_rank content = OTA_IMG_RANK_TRIAL \<and> fe_state content = OTA_IMG_STATE_VERIFY_PENDING
      then snd (fde_update dma fdt (Some (content\<lparr>fe_state := OTA_IMG_STATE_VALID\<rparr>)) sbl_fde_idx m) else m)"

definition record_app :: "dma \<Rightarrow> addr \<Rightarrow> u32 \<Rightarrow> fdt_entry \<Rightarrow> fdt_entry \<Rightarrow> memory \<Rightarrow> memory" where
  "record_app dma fdt idx tempfde fde m =
     (if idx \<noteq> FDE_INVAL_IDX \<and> tempfde \<noteq> fde then snd (fde_update dma fdt (Some fde) idx m) else m)"

definition start_elf :: "'d boot_env \<Rightarrow> addr \<Rightarrow> 'd boot_pbl_share \<Rightarrow> addr \<Rightarrow> u32 \<Rightarrow> 'd sbl_run \<Rightarrow> 'd outcome option" where
  "start_elf env app_start p fdt idx r =
     (let m = record_app (be_dma env) fdt idx (rn_tempfde r) (rn_fde r)
                (confirm_sbl (be_dma env) fdt (ps_fde_idx p) (ps_fde_content p) (bt_mem (sb_boot r)))
      in map_option (\<lambda>share. Started (e_entry (elf_hdr (rn_loader r) m)) (le32 (mem_read m app_start 4)) share ((sb_boot r)\<lparr>bt_mem := m\<rparr>))
           (set_sbl_share (ucast OTA_IMG_FORMAT_ELF) (get_bdf_addr m fdt) m fdt initial_share))"

definition start_bin :: "addr \<Rightarrow> addr \<Rightarrow> 'd boot \<Rightarrow> 'd outcome option" where
  "start_bin start_addr fdt b =
     map_option (\<lambda>share. Started (le32 (mem_read (bt_mem b) (start_addr + 4) 4)) (le32 (mem_read (bt_mem b) start_addr 4)) share b)
       (set_sbl_share (ucast OTA_IMG_FORMAT_BIN) (get_bdf_addr (bt_mem b) fdt) (bt_mem b) fdt initial_share)"

text \<open>The application's entry of the table and its index.\<close>

definition pick_app :: "memory \<Rightarrow> addr \<Rightarrow> u32 \<times> fdt_entry" where
  "pick_app m fdt =
     (let idx = (case boot_sbl_find_appimg m fdt FDE_INVAL_IDX of (st, i) \<Rightarrow> if st \<noteq> BL_ERR_NONE then FDE_INVAL_IDX else i)
      in (idx, if idx \<noteq> FDE_INVAL_IDX
               then (case snd (fde_get_by_idx m fdt (Some empty_fde) idx) of Some e \<Rightarrow> e | None \<Rightarrow> empty_fde) else empty_fde))"

text \<open>The results of the flash initialisation and of the search for descriptors are only printed.\<close>

definition boot_sbl_flash_init :: "'d boot_env \<Rightarrow> 'd boot \<Rightarrow> (flash_status \<times> 'd boot) option" where
  "boot_sbl_flash_init env b = map_option (\<lambda>(st, f). (st, b\<lparr>bt_flash := f\<rparr>)) (drv_flash_init (be_bus env) (bt_flash b))"

definition boot_from_flash ::
    "'d sbl_cfg \<Rightarrow> addr \<Rightarrow> 'd boot_pbl_share \<Rightarrow> addr \<Rightarrow> u32 \<Rightarrow> fdt_entry \<Rightarrow> 'd boot_elf_loader \<Rightarrow> pbl_hash_handle \<Rightarrow> 'd boot \<Rightarrow> 'd outcome option" where
  "boot_from_flash cfg app_start p fdt idx fde l h b =
     do {
       (_, b) \<leftarrow> boot_sbl_flash_init (sc_env cfg) b;
       (_, s) \<leftarrow> boot_sbl_get_fwd_info (sc_env cfg) \<lparr>sb_boot = b, sb_info = initial_info\<rparr>;
       res \<leftarrow> boot_loop cfg \<lparr>sb_boot = sb_boot s, sb_info = sb_info s, rn_loader = l, rn_hash = h, rn_fde = fde,
                             rn_tempfde = empty_fde, rn_load_addr = APP_IMAGE_FLASH_ADDRESS, rn_type = BOOT_ELF_LOAD_FULL\<rparr>;
       case res of Reset b \<Rightarrow> Some (Rebooted b) | Go r \<Rightarrow> start_elf (sc_env cfg) app_start p fdt idx r
     }"

definition loader_start ::
    "'d boot_env \<Rightarrow> sha256 \<Rightarrow> addr \<Rightarrow> 'd boot_pbl_share \<Rightarrow> 'd boot_pbl_share \<Rightarrow> 'd boot_elf_loader \<Rightarrow> pbl_hash_handle \<Rightarrow> 'd boot
     \<Rightarrow> 'd outcome option" where
  "loader_start env sha app_start arg_es arg_cs l h b =
     (case get_pbl_share arg_es arg_cs (is_pbl_cs (bt_mem b)) of (p, auth) \<Rightarrow>
      if (case ps_cmd p of None \<Rightarrow> True | Some c \<Rightarrow> c = CHR ''t'') then
        (let fdt = snd (fdt_get (bt_mem b)) in
         case pick_app (bt_mem b) fdt of (idx, fde) \<Rightarrow>
           if idx \<noteq> FDE_INVAL_IDX \<and> fe_format fde = OTA_IMG_FORMAT_BIN then start_bin (fe_addr fde) fdt b
           else if idx \<noteq> FDE_INVAL_IDX \<and> fe_format fde \<noteq> OTA_IMG_FORMAT_ELF then start_bin app_start fdt b
           else boot_from_flash
                  \<lparr>sc_env = env, sc_load_init = ps_boot_elf_load_init p, sc_sha256 = sha, sc_auth_enable = auth,
                   sc_shared = ps_secboot_data p, sc_sbl_rank = fe_rank (ps_fde_content p)\<rparr>
                  app_start p fdt idx fde l h b)
      else start_bin app_start NULL b)"

end
