(* ===== verification/Sbl_Correct.thy ===== *)
theory Sbl_Correct
  imports Sbl_Main Fdt_Props
begin

text \<open>
  The rounds of the boot loop: what a successful round has checked, what a round leaves
  alone, and how the selection moves from one descriptor to the next.
\<close>

section \<open>Stages\<close>

lemma set_error_code: "n \<le> 4 \<Longrightarrow> si_err_code (sb_info (set_error n r)) \<noteq> 0"
proof -
  assume "n \<le> 4"
  then have "bit (si_err_code (sb_info r) OR push_bit n 1) n" by (simp add: bit_simps)
  then show ?thesis by (auto simp: set_error_def)
qed

lemmas error_bits = ERROR_SBL_LOAD_INIT_def ERROR_SBL_IMAGE_AUTH_def ERROR_SBL_IMAGE_LOAD_def ERROR_SBL_VERIFY_HASH_def

lemmas stage_defs = stage_init_def stage_auth_def stage_load_def stage_hash_def

lemma run_stages_Cons:
  assumes "run_stages (f # fs) r = Some r'"
  obtains (on) q where "f r = Some (True, q)" and "run_stages fs q = Some r'" | (stop) "f r = Some (False, r')"
  using assms by (auto split: bind_splits if_splits)

lemma stage_fails:
  assumes "f \<in> set [stage_init cfg, stage_auth cfg, stage_load cfg, stage_hash cfg]" and "f q = Some (False, q')"
  shows "si_err_code (sb_info q') \<noteq> 0"
  using assms by (auto simp: stage_defs Let_def error_bits set_error_code split: if_splits prod.splits)

text \<open>A round that leaves no error bit went through all stages.\<close>

lemma attempt_ok:
  assumes "attempt cfg r = Some r'" and "si_err_code (sb_info r') = 0"
  obtains r1 r2 r3 where "stage_init cfg r = Some (True, r1)" and "stage_auth cfg r1 = Some (True, r2)"
    and "stage_load cfg r2 = Some (True, r3)" and "stage_hash cfg r3 = Some (True, r')"
proof -
  have ok: "\<not> f q = Some (False, r')" if "f \<in> set [stage_init cfg, stage_auth cfg, stage_load cfg, stage_hash cfg]" for f q
    using stage_fails that assms(2) by blast
  show ?thesis
    using assms(1) unfolding attempt_def
    by (elim run_stages_Cons) (use ok in \<open>auto intro!: that\<close>)
qed

text \<open>A round changes the boot state, the loader, the hash handle and the error bits, and only adds bits.\<close>

definition adds_bits :: "sbl_info_s \<Rightarrow> sbl_info_s \<Rightarrow> bool" where
  "adds_bits i j \<longleftrightarrow> (\<exists>e. j = i\<lparr>si_err_code := si_err_code i OR e\<rparr>)"

lemma adds_bits_refl [simp]: "adds_bits i i"
  unfolding adds_bits_def by (rule exI [of _ 0]) simp

lemma adds_bits_or [simp]: "adds_bits i (i\<lparr>si_err_code := si_err_code i OR e\<rparr>)"
  unfolding adds_bits_def by blast

lemma adds_bits_trans: "adds_bits i j \<Longrightarrow> adds_bits j k \<Longrightarrow> adds_bits i k"
  unfolding adds_bits_def by (auto simp: or.assoc)

definition same_choice :: "'d sbl_run \<Rightarrow> 'd sbl_run \<Rightarrow> bool" where
  "same_choice r r' \<longleftrightarrow> rn_fde r' = rn_fde r \<and> rn_tempfde r' = rn_tempfde r \<and> rn_load_addr r' = rn_load_addr r \<and> rn_type r' = rn_type r
     \<and> adds_bits (sb_info r) (sb_info r')"

lemma same_choice_refl: "same_choice r r"
  by (simp add: same_choice_def)

lemma same_choice_trans: "same_choice r q \<Longrightarrow> same_choice q s \<Longrightarrow> same_choice r s"
  unfolding same_choice_def by (auto intro: adds_bits_trans)

lemma stage_same_choice:
  assumes "f \<in> set [stage_init cfg, stage_auth cfg, stage_load cfg, stage_hash cfg]" and "f q = Some (ok, q')"
  shows "same_choice q q'"
  using assms
  by (auto simp: stage_defs Let_def set_error_def same_choice_def split: if_splits prod.splits)

lemma run_stages_same_choice:
  assumes "set fs \<subseteq> set [stage_init cfg, stage_auth cfg, stage_load cfg, stage_hash cfg]" and "run_stages fs r = Some r'"
  shows "same_choice r r'"
  using assms
proof (induction fs arbitrary: r)
  case Nil
  then show ?case by (simp add: same_choice_refl)
next
  case (Cons f fs)
  then have f: "f \<in> set [stage_init cfg, stage_auth cfg, stage_load cfg, stage_hash cfg]" by simp
  from Cons.prems(2) show ?case
  proof (cases rule: run_stages_Cons)
    case (on q)
    have "same_choice q r'" by (rule Cons.IH) (use Cons.prems on in simp_all)
    with stage_same_choice [OF f on(1)] show ?thesis by (rule same_choice_trans)
  next
    case stop
    then show ?thesis by (rule stage_same_choice [OF f])
  qed
qed

lemma attempt_same_choice: "attempt cfg r = Some r' \<Longrightarrow> same_choice r r'"
  unfolding attempt_def by (rule run_stages_same_choice [OF subset_refl])

section \<open>A boot that succeeds\<close>

lemma boot_loop_go:
  assumes "boot_loop cfg r = Some (Go r')"
  obtains q where "attempt cfg q = Some r'" and "si_err_code (sb_info r') = 0"
proof -
  have "\<exists>q. attempt cfg q = Some r' \<and> si_err_code (sb_info r') = 0"
    by (rule boot_loop.raw_induct [where P = "\<lambda>cfg r res. \<forall>r'. res = Go r' \<longrightarrow> (\<exists>q. attempt cfg q = Some r' \<and> si_err_code (sb_info r') = 0)",
          OF _ assms, rule_format])
      (auto split: bind_splits step.splits if_splits)
  then show ?thesis using that by blast
qed

lemma verify_segments_ok:
  "verify_segments sha ok l h m is = BL_ERR_NONE \<longleftrightarrow>
     (\<forall>i \<in> set is. ok (prog_hdr l m i) \<and> p_filesz (prog_hdr l m i) \<noteq> 0
        \<longrightarrow> sha (mem_read m (p_vaddr (prog_hdr l m i)) (unat (p_filesz (prog_hdr l m i)))) = Some (table_digest h i))"
  by (induction "is") (auto simp: Let_def split: option.splits)

text \<open>What the ROM's authentication has accepted before the image was loaded.\<close>

lemma auth_ok:
  assumes "sbl_image_auth info shared h b = (BL_ERR_NONE, h', b')" and "\<not> checks_off (sd_auth_state shared)"
  obtains secimg get h1 where "sd_secimg_auth shared = Some secimg" and "sd_pbl_get_image_hash_handle shared = Some get"
    and "secimg info b = (BL_ERR_NONE, b')" and "get b' h = (BL_ERR_NONE, h1)" and "hh_hash_table h' = hh_hash_table h1"
    and "auth_enabled (sd_auth_state shared)
      \<Longrightarrow> fst (boot_rollback_validate_image_version (ii_image_id info) (Some (sd_auth_state shared)) (Some (hh_auth_state h1)))"
  using assms by (auto simp: sbl_image_auth_def split: option.splits prod.splits if_splits)

lemma hash_ok:
  assumes "sbl_compute_verify_hash env sha (Some info) (Some shared) h b = Some (BL_ERR_NONE, b')" and "\<not> checks_off (sd_auth_state shared)"
  shows "verify_segments sha (sd_is_valid_segment shared) (ii_elf_loader info) h (bt_mem b) [1 ..< unat (el_phr_num (ii_elf_loader info))] = BL_ERR_NONE"
    and "b' = b \<or> (\<exists>m. boot_rollback_update_fuse_version (be_dma env) SECBOOT_IMG_AUTH_APP_IMG (Some (hh_auth_state h)) (bt_mem b) = Some (BL_ERR_NONE, m)
           \<and> b' = b\<lparr>bt_mem := m\<rparr>)"
  using assms by (auto simp: sbl_compute_verify_hash_def Let_def split: if_splits)

section \<open>From one descriptor to the next\<close>

text \<open>The entry of the application image in a descriptor, and where it is loaded from.\<close>

definition fwd_app :: "fwd \<Rightarrow> image_entry option" where
  "fwd_app f = map_option (\<lambda>n. fw_image_entries f ! n) (find (\<lambda>n. ie_image_id (fw_image_entries f ! n) = APP_IMG_ID) [0 ..< MAX_FW_IMAGE_ENTRIES])"

definition image_slot_addr :: "sbl_info_s \<Rightarrow> nat \<Rightarrow> u32" where
  "image_slot_addr info k = (case fwd_app (si_flash_fwd_table info ! k) of Some e \<Rightarrow> ie_start_block e * BLOCK_SIZE_IN_BYTES | None \<Rightarrow> 0) + APP_IMAGE_FLASH_ADDRESS"

text \<open>Three valid descriptors, each with an application image; the one on trial has no boot loader image.\<close>

definition all_usable :: "sbl_info_s \<Rightarrow> bool" where
  "all_usable info \<longleftrightarrow> length (si_flash_fwd_table info) = 3 \<and> length (si_boot_fwd info) = 3 \<and> si_err_code info = 0
     \<and> (\<forall>k < 3. fwd_valid (si_flash_fwd_table info ! k) \<and> fwd_app (si_flash_fwd_table info ! k) \<noteq> None)
     \<and> boot_sbl_find_fwd_image info INDEX_TRIAL SBL_IMG_ID = Some (of_nat MAX_FW_IMAGE_ENTRIES)"

text \<open>The state after the selection of slot \<open>k\<close>; later slots are as they were at the start.\<close>

definition at_slot :: "sbl_info_s \<Rightarrow> nat \<Rightarrow> 'd sbl_run \<Rightarrow> bool" where
  "at_slot info0 k r \<longleftrightarrow> si_valid_fwd (sb_info r) = of_nat k \<and> si_ota_sbl_exist (sb_info r) = of_nat MAX_FW_IMAGE_ENTRIES
     \<and> si_err_code (sb_info r) = 0 \<and> si_boot_fwd (sb_info r) = si_boot_fwd info0
     \<and> length (si_flash_fwd_table (sb_info r)) = 3
     \<and> (\<forall>j. k \<le> j \<and> j < 3 \<longrightarrow> si_flash_fwd_table (sb_info r) ! j = si_flash_fwd_table info0 ! j)
     \<and> rn_load_addr r = image_slot_addr info0 k \<and> fe_rank (rn_fde r) = rank_of_index (of_nat k) 0
     \<and> fe_addr (rn_fde r) = ucast (si_boot_fwd info0 ! k) \<and> fe_state (rn_fde r) = OTA_IMG_STATE_VALID"

lemmas index_defs = INDEX_TRIAL_def INDEX_CURRENT_def INDEX_GOLDEN_def MAX_FWD_NUM_def MAX_FW_IMAGE_ENTRIES_def ERROR_SBL_NONE_def

lemma valid_table: "fwd_of info i = Some f \<Longrightarrow> FWD_TABLE_IS_VALID info i \<longleftrightarrow> fwd_valid f"
  by (simp add: FWD_TABLE_IS_VALID_def fwd_valid_def OTA_IMG_STATE_VALID_def)

lemma table_only:
  assumes "si_flash_fwd_table info = si_flash_fwd_table info'"
  shows "fwd_of info i = fwd_of info' i" and "boot_sbl_find_fwd_image info i img = boot_sbl_find_fwd_image info' i img"
    and "FWD_TABLE_IS_VALID info i = FWD_TABLE_IS_VALID info' i"
  using assms by (simp_all add: fwd_of_def boot_sbl_find_fwd_image_def FWD_TABLE_IS_VALID_def)

lemma prepare_usable:
  assumes "fwd_of info i = Some f" and "fwd_valid f" and "fwd_app f = Some e"
  shows "\<exists>fde info'. boot_sbl_prepare_set_fde True app_fde load i info = Some (BL_ERR_NONE, fde, ie_start_block e * BLOCK_SIZE_IN_BYTES, info')
    \<and> (\<exists>t. info' = info\<lparr>si_load_type := t\<rparr>)
    \<and> fe_rank fde = rank_of_index i (fe_rank app_fde) \<and> fe_addr fde = ucast (si_boot_fwd info ! unat i) \<and> fe_state fde = OTA_IMG_STATE_VALID"
  using assms by (auto simp: boot_sbl_prepare_set_fde_def fwd_app_def Let_def)

lemma select_usable:
  assumes sel: "boot_sbl_select_validFwd (sc_env cfg) (sc_sbl_rank cfg)
      ((sbl_part r)\<lparr>sb_info := if fe_addr (rn_fde r) \<ge> of_nat MAX_FWD_NUM then (sb_info r)\<lparr>si_load_type := BOOT_ELF_LOAD_FULL\<rparr> else sb_info r\<rparr>)
      = Some (Go (of_nat k, s))"
    and k: "k < 3" and info0: "all_usable info0" and b: "sb_boot s = sb_boot r"
    and s: "si_valid_fwd (sb_info s) = of_nat k" "si_ota_sbl_exist (sb_info s) = of_nat MAX_FW_IMAGE_ENTRIES" "si_err_code (sb_info s) = 0"
      "si_boot_fwd (sb_info s) = si_boot_fwd info0" "length (si_flash_fwd_table (sb_info s)) = 3"
      "\<And>j. k \<le> j \<Longrightarrow> j < 3 \<Longrightarrow> si_flash_fwd_table (sb_info s) ! j = si_flash_fwd_table info0 ! j"
  shows "\<exists>r1. select_image cfg r = Some (Go r1) \<and> at_slot info0 k r1 \<and> sb_boot r1 = sb_boot r"
proof -
  let ?f = "si_flash_fwd_table info0 ! k"
  have u: "unat (of_nat k :: u8) = k" using k by (simp add: unat_of_nat)
  have f: "fwd_of (sb_info s) (of_nat k) = Some ?f" using k s(5,6) by (simp add: fwd_of_def u)
  have v: "fwd_valid ?f" and "fwd_app ?f \<noteq> None" using info0 k by (simp_all add: all_usable_def)
  then obtain e where e: "fwd_app ?f = Some e" by blast
  obtain fde info' t where p: "boot_sbl_prepare_set_fde True (rn_fde r) (rn_load_addr r) (of_nat k) (sb_info s)
        = Some (BL_ERR_NONE, fde, ie_start_block e * BLOCK_SIZE_IN_BYTES, info')" "info' = (sb_info s)\<lparr>si_load_type := t\<rparr>"
    and fde: "fe_rank fde = rank_of_index (of_nat k) (fe_rank (rn_fde r))" "fe_addr fde = ucast (si_boot_fwd (sb_info s) ! k)"
      "fe_state fde = OTA_IMG_STATE_VALID"
    using prepare_usable [OF f v e, of "rn_fde r" "rn_load_addr r"] unfolding u by blast
  have "rank_of_index (of_nat k) x = rank_of_index (of_nat k) y" for x y
    using k by (auto simp: rank_of_index_def index_defs less_Suc_eq numeral_eq_Suc)
  then show ?thesis
    using sel p fde s b k e
    by (simp add: select_image_def at_slot_def image_slot_addr_def MAX_FWD_NUM_def u)
qed

text \<open>The first round selects the image on trial.\<close>

lemma first_slot:
  assumes "all_usable (sb_info r)"
  shows "\<exists>r1. select_image cfg r = Some (Go r1) \<and> at_slot (sb_info r) 0 r1 \<and> sb_boot r1 = sb_boot r"
proof -
  define info where "info = (if fe_addr (rn_fde r) \<ge> of_nat MAX_FWD_NUM then (sb_info r)\<lparr>si_load_type := BOOT_ELF_LOAD_FULL\<rparr> else sb_info r)"
  have i: "si_flash_fwd_table info = si_flash_fwd_table (sb_info r)" "si_err_code info = 0" "si_boot_fwd info = si_boot_fwd (sb_info r)"
    using assms by (simp_all add: info_def all_usable_def)
  have "fwd_of info INDEX_TRIAL = Some (si_flash_fwd_table (sb_info r) ! 0)" "fwd_valid (si_flash_fwd_table (sb_info r) ! 0)"
    using assms by (simp_all add: fwd_of_def i INDEX_TRIAL_def all_usable_def)
  then have "FWD_TABLE_IS_VALID info INDEX_TRIAL" by (simp add: valid_table)
  moreover have "boot_sbl_find_fwd_image (info\<lparr>si_valid_fwd := INDEX_TRIAL\<rparr>) INDEX_TRIAL SBL_IMG_ID = Some (of_nat MAX_FW_IMAGE_ENTRIES)"
    using assms table_only(2) [of "info\<lparr>si_valid_fwd := INDEX_TRIAL\<rparr>" "sb_info r"] by (simp add: all_usable_def i)
  ultimately have "select_first (sc_sbl_rank cfg) info = Some (0, info\<lparr>si_valid_fwd := 0, si_ota_sbl_exist := of_nat MAX_FW_IMAGE_ENTRIES\<rparr>)"
    by (simp add: select_first_def first_valid_def INDEX_TRIAL_def)
  then have "boot_sbl_select_validFwd (sc_env cfg) (sc_sbl_rank cfg) ((sbl_part r)\<lparr>sb_info := info\<rparr>)
      = Some (Go (of_nat 0, (sbl_part r)\<lparr>sb_info := info\<lparr>si_valid_fwd := 0, si_ota_sbl_exist := of_nat MAX_FW_IMAGE_ENTRIES\<rparr>\<rparr>))"
    by (simp add: boot_sbl_select_validFwd_def i ERROR_SBL_NONE_def)
  from select_usable [OF this [unfolded info_def] _ assms] show ?thesis
    using assms i by (simp add: all_usable_def sbl_part_def flip: info_def)
qed

text \<open>After a round that failed early the next slot is selected, without a reset.\<close>

lemma early_error: "(e :: u8) \<in> {2, 4} \<Longrightarrow> e \<noteq> 0 \<and> drop_bit ERROR_SBL_IMAGE_LOAD e = 0"
  by (auto simp: ERROR_SBL_IMAGE_LOAD_def)

lemma next_slot:
  assumes info0: "all_usable info0" and q: "at_slot info0 k q" and k: "k < 2" and c: "same_choice q r"
    and e: "si_err_code (sb_info r) \<in> {2, 4}"
  shows "\<exists>r1. select_image cfg r = Some (Go r1) \<and> at_slot info0 (Suc k) r1 \<and> sb_boot r1 = sb_boot r"
proof -
  define info where "info = (if fe_addr (rn_fde r) \<ge> of_nat MAX_FWD_NUM then (sb_info r)\<lparr>si_load_type := BOOT_ELF_LOAD_FULL\<rparr> else sb_info r)"
  obtain x where x: "sb_info r = (sb_info q)\<lparr>si_err_code := x\<rparr>" using c by (auto simp: same_choice_def adds_bits_def)
  have i: "si_flash_fwd_table info = si_flash_fwd_table (sb_info q)" "si_err_code info = si_err_code (sb_info r)"
    "si_boot_fwd info = si_boot_fwd info0" "si_valid_fwd info = of_nat k" "si_ota_sbl_exist info = of_nat MAX_FW_IMAGE_ENTRIES"
    using q by (simp_all add: info_def x at_slot_def)
  have u: "unat (of_nat k :: u8) = k" "(of_nat k :: u8) \<noteq> INDEX_GOLDEN" using k by (auto simp: unat_of_nat INDEX_GOLDEN_def less_2_cases_iff)
  let ?info = "(clear_status (of_nat k) info)\<lparr>si_err_code := ERROR_SBL_NONE, si_valid_fwd := of_nat k + 1\<rparr>"
  have "boot_sbl_select_validFwd (sc_env cfg) (sc_sbl_rank cfg) ((sbl_part r)\<lparr>sb_info := info\<rparr>)
      = Some (Go (of_nat (Suc k), (sbl_part r)\<lparr>sb_info := ?info\<rparr>))"
    using early_error [OF e] k
    by (simp add: boot_sbl_select_validFwd_def select_after_error_def Let_def i u ERROR_SBL_NONE_def MAX_FWD_NUM_def sbl_part_def add.commute clear_status_def)
  from select_usable [OF this [unfolded info_def] _ info0] show ?thesis
    using q k i u by (simp add: at_slot_def sbl_part_def clear_status_def ERROR_SBL_NONE_def flip: info_def)
qed

section \<open>When no image is left\<close>

text \<open>Past the last slot, with \<open>si_valid_fwd\<close> equal to 3.\<close>

definition past_last :: "'d sbl_run \<Rightarrow> bool" where
  "past_last r \<longleftrightarrow> si_valid_fwd (sb_info r) = 3 \<and> si_ota_sbl_exist (sb_info r) = of_nat MAX_FW_IMAGE_ENTRIES"

lemma past_golden:
  assumes q: "at_slot info0 2 q" and c: "same_choice q r" and e: "si_err_code (sb_info r) \<noteq> 0"
  shows "\<exists>r1. select_image cfg r = Some (Go r1) \<and> past_last r1 \<and> si_err_code (sb_info r1) = 0 \<and> sb_boot r1 = sb_boot r
    \<and> rn_load_addr r1 = rn_load_addr r"
proof -
  define info where "info = (if fe_addr (rn_fde r) \<ge> of_nat MAX_FWD_NUM then (sb_info r)\<lparr>si_load_type := BOOT_ELF_LOAD_FULL\<rparr> else sb_info r)"
  obtain x where x: "sb_info r = (sb_info q)\<lparr>si_err_code := x\<rparr>" using c by (auto simp: same_choice_def adds_bits_def)
  have i: "si_err_code info \<noteq> 0" "si_valid_fwd info = 2" "si_ota_sbl_exist info = of_nat MAX_FW_IMAGE_ENTRIES"
    using q e by (simp_all add: info_def x at_slot_def)
  let ?info = "(clear_status 2 (info\<lparr>si_err_code := ERROR_SBL_NONE\<rparr>))\<lparr>si_err_code := ERROR_SBL_NONE, si_valid_fwd := 3\<rparr>"
  have "boot_sbl_select_validFwd (sc_env cfg) (sc_sbl_rank cfg) ((sbl_part r)\<lparr>sb_info := info\<rparr>)
      = Some (Go (3, (sbl_part r)\<lparr>sb_info := ?info\<rparr>))"
    using i by (simp add: boot_sbl_select_validFwd_def select_after_error_def Let_def boot_sbl_sw_reset_def index_defs sbl_part_def)
  then show ?thesis
    unfolding select_image_def Let_def info_def [symmetric]
    by (simp add: past_last_def MAX_FWD_NUM_def sbl_part_def clear_status_def i ERROR_SBL_NONE_def)
qed

lemma past_last_select:
  assumes "past_last r" and "si_err_code (sb_info r) \<noteq> 0" and "select_image cfg r = Some res"
  shows "\<exists>r1. res = Go r1 \<and> past_last r1 \<and> si_err_code (sb_info r1) = si_err_code (sb_info r)"
  using assms
  by (auto simp: select_image_def boot_sbl_select_validFwd_def select_after_error_def Let_def past_last_def index_defs sbl_part_def
      split: if_splits)

lemma past_last_attempt:
  assumes "past_last r" and "si_err_code (sb_info r) \<noteq> 0" and "attempt cfg r = Some r1"
  shows "past_last r1 \<and> si_err_code (sb_info r1) \<noteq> 0"
  using attempt_same_choice [OF assms(3)] assms(1,2) by (auto simp: same_choice_def adds_bits_def past_last_def or_eq_0_iff)

text \<open>There an error is never cleared again, whatever the rounds do: the loop does not end.\<close>

lemma past_last_hangs:
  assumes "past_last r" and "si_err_code (sb_info r) \<noteq> 0"
  shows "boot_loop cfg r = None"
proof (cases "boot_loop cfg r")
  case (Some res)
  have "\<not> (past_last r \<and> si_err_code (sb_info r) \<noteq> 0)"
  proof (rule boot_loop.raw_induct [where P = "\<lambda>cfg r res. \<not> (past_last r \<and> si_err_code (sb_info r) \<noteq> 0)", OF _ Some], rule notI, erule conjE)
    fix f :: "'a sbl_cfg \<Rightarrow> 'a sbl_run \<Rightarrow> ('a, 'a sbl_run) step option" and cfg r res
    assume IH: "\<And>cfg r res. f cfg r = Some res \<Longrightarrow> \<not> (past_last r \<and> si_err_code (sb_info r) \<noteq> 0)"
      and eq: "do { sel \<leftarrow> select_image cfg r; case sel of Reset b \<Rightarrow> Some (Reset b)
                  | Go r \<Rightarrow> do { r \<leftarrow> attempt cfg r; if si_err_code (sb_info r) \<noteq> 0 then f cfg r else Some (Go r) } } = Some res"
      and p: "past_last r" "si_err_code (sb_info r) \<noteq> 0"
    obtain sel where sel: "select_image cfg r = Some sel" using eq by (auto split: bind_splits)
    obtain r1 where r1: "sel = Go r1" "past_last r1" "si_err_code (sb_info r1) \<noteq> 0" using past_last_select [OF p sel] p(2) by auto
    obtain r2 where r2: "attempt cfg r1 = Some r2" using eq sel r1(1) by (auto split: bind_splits)
    note p2 = past_last_attempt [OF r1(2,3) r2]
    then have "f cfg r2 = Some res" using eq sel r1(1) r2 by simp
    from IH [OF this] p2 show False ..
  qed
  then show ?thesis using assms by simp
qed

end
