(* ===== verification/Sbl_Props.thy ===== *)
theory Sbl_Props
  imports Sbl_Correct Elf_Props
begin

text \<open>
  Properties of the second-stage boot loader: a boot with authentication runs only what was
  checked, a bad image is passed over for the next one, and what happens when none is left.
\<close>

section \<open>Passing over bad images\<close>

text \<open>
  \<open>keep\<close> is what the rounds keep of the loader and the boot state. An image at \<open>a\<close> is rejected
  when a round ends early with an error, accepted when it ends without one and with \<open>post\<close>.
\<close>

definition rejected :: "'d sbl_cfg \<Rightarrow> ('d boot_elf_loader \<Rightarrow> 'd boot \<Rightarrow> bool) \<Rightarrow> u32 \<Rightarrow> bool" where
  "rejected cfg keep a \<longleftrightarrow> (\<forall>r. keep (rn_loader r) (sb_boot r) \<longrightarrow> rn_load_addr r = a \<longrightarrow> si_err_code (sb_info r) = 0
     \<longrightarrow> (\<exists>r'. attempt cfg r = Some r' \<and> keep (rn_loader r') (sb_boot r') \<and> si_err_code (sb_info r') \<in> {2, 4}))"

definition accepted :: "'d sbl_cfg \<Rightarrow> ('d boot_elf_loader \<Rightarrow> 'd boot \<Rightarrow> bool) \<Rightarrow> u32 \<Rightarrow> ('d sbl_run \<Rightarrow> bool) \<Rightarrow> bool" where
  "accepted cfg keep a post \<longleftrightarrow> (\<forall>r. keep (rn_loader r) (sb_boot r) \<longrightarrow> rn_load_addr r = a \<longrightarrow> si_err_code (sb_info r) = 0
     \<longrightarrow> (\<exists>r'. attempt cfg r = Some r' \<and> si_err_code (sb_info r') = 0 \<and> post r'))"

lemma at_slot_keeps:
  assumes "at_slot info0 k r" and "same_choice r r'" and "si_err_code (sb_info r') = 0"
  shows "at_slot info0 k r'"
  using assms by (auto simp: at_slot_def same_choice_def adds_bits_def)

lemma selection_keeps_loader:
  assumes "select_image cfg r = Some (Go r1)"
  shows "rn_loader r1 = rn_loader r"
  using assms by (auto simp: select_image_def Let_def split: bind_splits step.splits if_splits prod.splits)

text \<open>One round at slot \<open>k\<close> and what follows it.\<close>

definition round_from :: "'d sbl_cfg \<Rightarrow> 'd sbl_run \<Rightarrow> ('d, 'd sbl_run) step option" where
  "round_from cfg r = do { r \<leftarrow> attempt cfg r; if si_err_code (sb_info r) \<noteq> 0 then boot_loop cfg r else Some (Go r) }"

lemma boot_loop_round: "select_image cfg r = Some (Go r1) \<Longrightarrow> boot_loop cfg r = round_from cfg r1"
  by (subst boot_loop.simps) (simp add: round_from_def)

lemma rejected_round:
  assumes "all_usable info0" and "at_slot info0 k r" and "k < 2" and "keep (rn_loader r) (sb_boot r)" and "rejected cfg keep (image_slot_addr info0 k)"
  shows "\<exists>r1. round_from cfg r = round_from cfg r1 \<and> at_slot info0 (Suc k) r1 \<and> keep (rn_loader r1) (sb_boot r1)"
proof -
  have "rn_load_addr r = image_slot_addr info0 k" "si_err_code (sb_info r) = 0" using assms(2) by (simp_all add: at_slot_def)
  then obtain r' where r': "attempt cfg r = Some r'" "keep (rn_loader r') (sb_boot r')" "si_err_code (sb_info r') \<in> {2, 4}"
    using assms(4,5) by (auto simp: rejected_def)
  obtain r1 where r1: "select_image cfg r' = Some (Go r1)" "at_slot info0 (Suc k) r1" "sb_boot r1 = sb_boot r'"
    using next_slot [OF assms(1-3) attempt_same_choice [OF r'(1)] r'(3)] by blast
  have "round_from cfg r = boot_loop cfg r'" using r'(1,3) by (auto simp: round_from_def)
  also have "\<dots> = round_from cfg r1" by (rule boot_loop_round [OF r1(1)])
  finally show ?thesis using r1 r'(2) selection_keeps_loader [OF r1(1)] by auto
qed

lemma from_slot:
  assumes "all_usable info0" and "at_slot info0 k r" and "keep (rn_loader r) (sb_boot r)" and "k \<le> g" and "g < 3"
    and "\<And>j. k \<le> j \<Longrightarrow> j < g \<Longrightarrow> rejected cfg keep (image_slot_addr info0 j)" and "accepted cfg keep (image_slot_addr info0 g) post"
  shows "\<exists>r'. round_from cfg r = Some (Go r') \<and> at_slot info0 g r' \<and> post r'"
  using assms(2-4,6)
proof (induction "g - k" arbitrary: k r)
  case 0
  then have k: "at_slot info0 g r" by simp
  then obtain r' where r': "attempt cfg r = Some r'" "si_err_code (sb_info r') = 0" "post r'"
    using assms(7) 0 by (auto simp: accepted_def at_slot_def)
  with at_slot_keeps [OF k attempt_same_choice [OF r'(1)] r'(2)] show ?case by (auto simp: round_from_def)
next
  case (Suc d)
  then have "k < 2" "rejected cfg keep (image_slot_addr info0 k)" using assms(5) by auto
  from rejected_round [OF assms(1) Suc.prems(1) this(1) Suc.prems(2) this(2)]
  obtain r1 where r1: "round_from cfg r = round_from cfg r1" "at_slot info0 (Suc k) r1" "keep (rn_loader r1) (sb_boot r1)" by blast
  from Suc.hyps(1) [OF _ r1(2,3)] show ?case using Suc.hyps(2) Suc.prems(3,4) r1(1) by simp
qed

lemma falls_back:
  assumes "all_usable (sb_info r)" and "keep (rn_loader r) (sb_boot r)" and "g < 3"
    and "\<And>j. j < g \<Longrightarrow> rejected cfg keep (image_slot_addr (sb_info r) j)" and "accepted cfg keep (image_slot_addr (sb_info r) g) post"
  shows "\<exists>r'. boot_loop cfg r = Some (Go r') \<and> at_slot (sb_info r) g r' \<and> post r'"
proof -
  obtain r1 where r1: "select_image cfg r = Some (Go r1)" "at_slot (sb_info r) 0 r1" "sb_boot r1 = sb_boot r"
    using first_slot [OF assms(1)] by blast
  then have "keep (rn_loader r1) (sb_boot r1)" using assms(2) selection_keeps_loader [OF r1(1)] by simp
  from from_slot [OF assms(1) r1(2) this _ assms(3) _ assms(5)] show ?thesis
    using assms(4) by (simp add: boot_loop_round [OF r1(1)])
qed

lemma no_image_left:
  assumes "all_usable (sb_info r)" and "keep (rn_loader r) (sb_boot r)"
    and bad: "\<And>j. j < 3 \<Longrightarrow> rejected cfg keep (image_slot_addr (sb_info r) j)"
  shows "boot_loop cfg r = None"
proof -
  obtain r0 where r0: "boot_loop cfg r = round_from cfg r0" "at_slot (sb_info r) 0 r0" "keep (rn_loader r0) (sb_boot r0)"
    using first_slot [OF assms(1)] assms(2) by (metis boot_loop_round selection_keeps_loader)
  obtain r1 where r1: "round_from cfg r0 = round_from cfg r1" "at_slot (sb_info r) 1 r1" "keep (rn_loader r1) (sb_boot r1)"
    using rejected_round [OF assms(1) r0(2) _ r0(3) bad] by auto
  obtain r2 where r2: "round_from cfg r1 = round_from cfg r2" "at_slot (sb_info r) 2 r2" "keep (rn_loader r2) (sb_boot r2)"
    using rejected_round [OF assms(1) r1(2) _ r1(3) bad] by (auto simp: numeral_2_eq_2)
  then have "rn_load_addr r2 = image_slot_addr (sb_info r) 2" "si_err_code (sb_info r2) = 0" by (simp_all add: at_slot_def)
  then obtain r3 where r3: "attempt cfg r2 = Some r3" "keep (rn_loader r3) (sb_boot r3)" "si_err_code (sb_info r3) \<noteq> 0"
    using bad [of 2] r2(3) by (fastforce simp: rejected_def)
  obtain r4 where r4: "select_image cfg r3 = Some (Go r4)" "past_last r4" "si_err_code (sb_info r4) = 0" "sb_boot r4 = sb_boot r3"
      "rn_load_addr r4 = image_slot_addr (sb_info r) 2"
    using past_golden [OF r2(2) attempt_same_choice [OF r3(1)] r3(3), of cfg] attempt_same_choice [OF r3(1)] r2(2)
    by (auto simp: same_choice_def at_slot_def)
  have "keep (rn_loader r4) (sb_boot r4)" using r3(2) r4(4) selection_keeps_loader [OF r4(1)] by simp
  then obtain r5 where r5: "attempt cfg r4 = Some r5" "si_err_code (sb_info r5) \<noteq> 0"
    using bad [of 2] r4(3,5) by (fastforce simp: rejected_def)
  have "past_last r5" using attempt_same_choice [OF r5(1)] r4(2) by (auto simp: same_choice_def adds_bits_def past_last_def)
  then have "round_from cfg r4 = None" using r5 by (simp add: round_from_def past_last_hangs)
  then have "round_from cfg r2 = None" using r3 boot_loop_round [OF r4(1)] by (simp add: round_from_def)
  then show ?thesis using r0(1) r1(1) r2(1) by simp
qed

section \<open>Images in flash\<close>

text \<open>
  An image at \<open>a\<close> whose header is refused, and one that loads completely: as in the
  properties of the ELF loader, for both kinds of load.
\<close>

definition unbootable :: "flash_config_data \<Rightarrow> memory \<Rightarrow> addr \<Rightarrow> bool" where
  "unbootable c data a \<longleftrightarrow> a \<noteq> NULL \<and> flash_from (fc_density_in_blocks c) a EHDR_SIZE
     \<and> boot_elf_validate_elf_header (image_hdr (window data) a) \<noteq> BL_ERR_NONE"

definition bootable :: "flash_config_data \<Rightarrow> memory \<Rightarrow> 'd boot_elf_loader \<Rightarrow> addr \<Rightarrow> bool" where
  "bootable c data l a \<longleftrightarrow> a \<noteq> NULL \<and> flash_from (fc_density_in_blocks c) a EHDR_SIZE
     \<and> boot_elf_validate_elf_header (image_hdr (window data) a) = BL_ERR_NONE \<and> e_phnum (image_hdr (window data) a) \<noteq> 0
     \<and> flash_from (fc_density_in_blocks c) (a + e_phoff (image_hdr (window data) a)) (unat (e_phnum (image_hdr (window data) a)) * PHDR_SIZE)
     \<and> (\<forall>ty i. i < unat (e_phnum (image_hdr (window data) a)) \<longrightarrow> seg_loaded ty (image_phdr (window data) a i)
          \<longrightarrow> seg_fits (flash_from (fc_density_in_blocks c)) boot_to (prog_hdrs_addr l) a ty (image_phdr (window data) a i))
     \<and> (\<forall>ty i j. i < unat (e_phnum (image_hdr (window data) a)) \<longrightarrow> j < unat (e_phnum (image_hdr (window data) a)) \<longrightarrow> i \<noteq> j
          \<longrightarrow> seg_loaded ty (image_phdr (window data) a i) \<longrightarrow> seg_loaded ty (image_phdr (window data) a j)
          \<longrightarrow> segs_apart (window data) a ty (image_phdr (window data) a i) (image_phdr (window data) a j))"

definition image_in_memory :: "memory \<Rightarrow> addr \<Rightarrow> 'd sbl_run \<Rightarrow> bool" where
  "image_in_memory data a r \<longleftrightarrow> (\<forall>i < unat (e_phnum (image_hdr (window data) a)). seg_loaded (rn_type r) (image_phdr (window data) a i)
     \<longrightarrow> seg_present (window data) a (rn_type r) (image_phdr (window data) a i) (bt_mem (sb_boot r)))"

text \<open>What the rounds keep: where the loader object is, and the contents of the flash.\<close>

definition flash_kept :: "'d boot_env \<Rightarrow> flash_config_data \<Rightarrow> ('d \<Rightarrow> memory) \<Rightarrow> ('d \<Rightarrow> bool) \<Rightarrow> ('d \<Rightarrow> bool) \<Rightarrow> memory \<Rightarrow> addr \<Rightarrow> 'd boot_elf_loader \<Rightarrow> 'd boot \<Rightarrow> bool" where
  "flash_kept env c content wel busy data base l b \<longleftrightarrow> el_base l = base \<and> boot_to (hdr_addr l) EHDR_SIZE \<and> boot_to (prog_hdrs_addr l) hdrs_size
     \<and> flash_holds env c content wel busy data b"

lemma loader_addrs: "el_base l' = el_base l \<Longrightarrow> hdr_addr l' = hdr_addr l \<and> prog_hdrs_addr l' = prog_hdrs_addr l"
  by (simp add: hdr_addr_def prog_hdrs_addr_def)

lemma unbootable_rejected:
  fixes cfg :: "'a sbl_cfg"
  assumes "sc_load_init cfg = boot_elf_load_init" and "unbootable c data a"
  shows "rejected cfg (flash_kept (sc_env cfg) c content wel busy data base) a"
  unfolding rejected_def
proof (intro allI impI)
  fix r :: "'a sbl_run" assume k: "flash_kept (sc_env cfg) c content wel busy data base (rn_loader r) (sb_boot r)" and a: "rn_load_addr r = a"
    and e: "si_err_code (sb_info r) = 0"
  note k' = k [unfolded flash_kept_def] and a' = assms(2) [unfolded unbootable_def]
  from flash_image.init_rejects [OF _ _ op_init_table, of "sc_env cfg" c content wel busy data "sb_boot r" a "rn_loader r"] k' a'
  obtain l' b' where init: "boot_elf_load_init (rn_loader r) a (elf_mem_op (sc_env cfg)) (sb_boot r)
        = Some (boot_elf_validate_elf_header (image_hdr (window data) a), l', b')"
      "flash_holds (sc_env cfg) c content wel busy data b'" "el_base l' = el_base (rn_loader r)" by blast
  then show "\<exists>r'. attempt cfg r = Some r' \<and> flash_kept (sc_env cfg) c content wel busy data base (rn_loader r') (sb_boot r')
      \<and> si_err_code (sb_info r') \<in> {2, 4}"
    using a a' k' e loader_addrs [OF init(3)]
    by (simp add: attempt_def stage_init_def assms(1) set_error_def ERROR_SBL_LOAD_INIT_def flash_kept_def)
qed

lemma bootable_accepted:
  fixes cfg :: "'a sbl_cfg"
  assumes "sc_load_init cfg = boot_elf_load_init" and "\<not> sc_auth_enable cfg" and "bootable c data l a" and "el_base l = base"
  shows "accepted cfg (flash_kept (sc_env cfg) c content wel busy data base) a (image_in_memory data a)"
  unfolding accepted_def
proof (intro allI impI)
  fix r :: "'a sbl_run" assume k: "flash_kept (sc_env cfg) c content wel busy data base (rn_loader r) (sb_boot r)" and a: "rn_load_addr r = a"
    and e: "si_err_code (sb_info r) = 0"
  note k' = k [unfolded flash_kept_def] and a' = assms(3) [unfolded bootable_def]
  define n where "n = unat (e_phnum (image_hdr (window data) a))"
  have holds: "flash_holds (sc_env cfg) c content wel busy data (sb_boot r)" using k' by blast
  have n: "0 < n" using a' by (simp add: n_def unat_gt_0)
  have l: "prog_hdrs_addr l = prog_hdrs_addr (rn_loader r)" using k' assms(4) by (simp add: prog_hdrs_addr_def)
  have "\<exists>l' s1 s2. boot_elf_load_init (rn_loader r) a (elf_mem_op (sc_env cfg)) (sb_boot r) = Some (BL_ERR_NONE, l', s1)
     \<and> boot_elf_load_image l' (rn_type r) s1 = Some (BL_ERR_NONE, s2)
     \<and> (\<forall>i < n. seg_loaded (rn_type r) (image_phdr (window data) a i) \<longrightarrow> seg_present (window data) a (rn_type r) (image_phdr (window data) a i) (bt_mem s2))
     \<and> (\<forall>x. \<not> in_headers (rn_loader r) x
          \<longrightarrow> (\<forall>i < n. seg_loaded (rn_type r) (image_phdr (window data) a i) \<longrightarrow> \<not> in_seg (window data) a (rn_type r) (image_phdr (window data) a i) x)
          \<longrightarrow> bt_mem s2 x = bt_mem (sb_boot r) x)"
    by (rule flash_image.segments_present [OF holds _ op_init_table _ _ _ _ n_def n]) (use k' a' l in \<open>simp_all add: n_def\<close>)
  then show "\<exists>r'. attempt cfg r = Some r' \<and> si_err_code (sb_info r') = 0 \<and> image_in_memory data a r'"
    using e a assms(1,2)
    by (auto simp: attempt_def stage_init_def stage_auth_def stage_load_def stage_hash_def image_in_memory_def n_def)
qed

section \<open>Properties\<close>

text \<open>C9: Falling back to a good image. With three valid descriptors in flash, images on trial and
  in use whose headers are bad are passed over: the boot loop ends, without a reset, with the
  first good image of trial, current and golden loaded into memory, and the entry to be stored
  names its rank and its descriptor (images not authenticated; the loader's initialisation in
  the ROM is the one in the repository).\<close>

theorem sbl_falls_back_to_good_image:
  assumes "sc_load_init cfg = boot_elf_load_init" and "\<not> sc_auth_enable cfg"
    and "flash_holds (sc_env cfg) c content wel busy data (sb_boot r)"
    and "boot_to (hdr_addr (rn_loader r)) EHDR_SIZE" and "boot_to (prog_hdrs_addr (rn_loader r)) hdrs_size"
    and "all_usable (sb_info r)" and "g < 3"
    and "\<And>k. k < g \<Longrightarrow> unbootable c data (image_slot_addr (sb_info r) k)"
    and "bootable c data (rn_loader r) (image_slot_addr (sb_info r) g)"
  shows "\<exists>r'. boot_loop cfg r = Some (Go r') \<and> rn_load_addr r' = image_slot_addr (sb_info r) g
     \<and> image_in_memory data (image_slot_addr (sb_info r) g) r'
     \<and> fe_rank (rn_fde r') = [OTA_IMG_RANK_TRIAL, OTA_IMG_RANK_CURRENT, OTA_IMG_RANK_GOLDEN] ! g
     \<and> fe_addr (rn_fde r') = ucast (si_boot_fwd (sb_info r) ! g) \<and> fe_state (rn_fde r') = OTA_IMG_STATE_VALID"
proof -
  have kept: "flash_kept (sc_env cfg) c content wel busy data (el_base (rn_loader r)) (rn_loader r) (sb_boot r)"
    using assms(3-5) by (simp add: flash_kept_def)
  have bad: "rejected cfg (flash_kept (sc_env cfg) c content wel busy data (el_base (rn_loader r))) (image_slot_addr (sb_info r) j)" if "j < g" for j
    by (rule unbootable_rejected [OF assms(1) assms(8) [OF that]])
  note good = bootable_accepted [OF assms(1,2,9) refl, of content wel]
  have "rank_of_index (of_nat g) 0 = [OTA_IMG_RANK_TRIAL, OTA_IMG_RANK_CURRENT, OTA_IMG_RANK_GOLDEN] ! g"
    using assms(7) by (auto simp: rank_of_index_def index_defs less_Suc_eq numeral_eq_Suc)
  then show ?thesis
    using falls_back [OF assms(6) kept assms(7) bad good] by (auto simp: at_slot_def)
qed

definition demo_entry :: "u32 \<Rightarrow> image_entry" where
  "demo_entry block = \<lparr>ie_image_id = 10, ie_start_block = block, ie_total_blocks = 1, ie_img_version = 1\<rparr>"

definition demo_fwd :: "u32 \<Rightarrow> u32 \<Rightarrow> fwd" where
  "demo_fwd rank block =
     \<lparr>fw_signature = FW_UPGRADE_MAGIC_V1, fw_version = 1, fw_rank = rank, fw_status = 1, fw_total_images = 30,
      fw_reserved = replicate 18 0, fw_image_entries = replicate 30 (demo_entry block)\<rparr>"

definition demo_info :: sbl_info_s where
  "demo_info =
     \<lparr>si_flash_fwd_table = [demo_fwd 0xFFFFFFFF 4, demo_fwd 1 5, demo_fwd 0 3], si_boot_fwd = [2, 1, 0], si_valid_fwd = 0,
      si_valid_fwd_mask = 7, si_load_type = BOOT_ELF_LOAD_FULL, si_ota_sbl_exist = 0, si_err_code = 0\<rparr>"

lemma find_demo:
  "find (\<lambda>n. ie_image_id (fw_image_entries (demo_fwd rank block) ! n) = img) [0 ..< MAX_FW_IMAGE_ENTRIES] = (if img = 10 then Some 0 else None)"
proof -
  have "[0 ..< MAX_FW_IMAGE_ENTRIES] = 0 # [1 ..< 30]" by (simp add: upt_conv_Cons MAX_FW_IMAGE_ENTRIES_def)
  then show ?thesis by (auto simp: demo_fwd_def demo_entry_def find_None_iff)
qed

lemma demo_app: "fwd_app (demo_fwd rank block) = Some (demo_entry block)" "fwd_valid (demo_fwd rank block)"
proof -
  have "fw_image_entries (demo_fwd rank block) ! 0 = demo_entry block" by (simp add: demo_fwd_def)
  then show "fwd_app (demo_fwd rank block) = Some (demo_entry block)" by (simp add: fwd_app_def find_demo APP_IMG_ID_def)
  show "fwd_valid (demo_fwd rank block)" by (simp add: fwd_valid_def demo_fwd_def OTA_IMG_STATE_VALID_def)
qed

lemma demo_usable: "all_usable demo_info"
proof -
  have "si_flash_fwd_table demo_info ! k \<in> {demo_fwd 0xFFFFFFFF 4, demo_fwd 1 5, demo_fwd 0 3}" if "k < 3" for k
    using that by (auto simp: demo_info_def less_Suc_eq numeral_3_eq_3)
  then have "\<forall>k < 3. fwd_valid (si_flash_fwd_table demo_info ! k) \<and> fwd_app (si_flash_fwd_table demo_info ! k) \<noteq> None"
    using demo_app by fastforce
  moreover have "boot_sbl_find_fwd_image demo_info INDEX_TRIAL SBL_IMG_ID = Some (of_nat MAX_FW_IMAGE_ENTRIES)"
    by (simp add: boot_sbl_find_fwd_image_def fwd_of_def INDEX_TRIAL_def demo_info_def find_demo SBL_IMG_ID_def)
  ultimately show ?thesis by (simp add: all_usable_def) (simp add: demo_info_def)
qed

lemma demo_slots: "image_slot_addr demo_info 0 = 0xA04000" "image_slot_addr demo_info 1 = 0xA05000" "image_slot_addr demo_info 2 = 0xA03000"
  by (simp_all add: image_slot_addr_def demo_info_def demo_app demo_entry_def BLOCK_SIZE_IN_BYTES_def APP_IMAGE_FLASH_ADDRESS_def)

text \<open>A flash with the small image at block 3 and nothing else, and the start of the loop.\<close>

definition demo_data :: memory where
  "demo_data = mem_write (\<lambda>_. 0xFF) 0x3000 demo_elf"

definition demo_auth_state :: pbl_auth_state where
  "demo_auth_state = \<lparr>auth_enabled = False, hash_integrity_check_disabled = False, debug_override = False, anti_rollback_unlock = False, sw_id = 0\<rparr>"

definition demo_cfg_off :: "demo_chip sbl_cfg" where
  "demo_cfg_off =
     \<lparr>sc_env = demo_env, sc_load_init = boot_elf_load_init, sc_sha256 = (\<lambda>_. None), sc_auth_enable = False,
      sc_shared = \<lparr>sd_auth_state = demo_auth_state, sd_pbl_get_image_hash_handle = None, sd_secimg_auth = None, sd_is_valid_segment = (\<lambda>_. True)\<rparr>,
      sc_sbl_rank = OTA_IMG_RANK_CURRENT\<rparr>"

definition demo_run :: "memory \<Rightarrow> demo_chip sbl_run" where
  "demo_run data =
     \<lparr>sb_boot = demo_boot data (\<lambda>_. 7), sb_info = demo_info, rn_loader = demo_loader,
      rn_hash = \<lparr>hh_hash_table = [], hh_auth_state = demo_auth_state\<rparr>, rn_fde = empty_fde, rn_tempfde = empty_fde,
      rn_load_addr = APP_IMAGE_FLASH_ADDRESS, rn_type = BOOT_ELF_LOAD_FULL\<rparr>"

lemma demo_data_image:
  assumes "i + k \<le> length demo_elf"
  shows "mem_read (window demo_data) (0xA03000 + of_nat i) k = take k (drop i demo_elf)"
proof -
  have "mem_read (window data) (0xA03000 + of_nat i) k = mem_read data (0x3000 + of_nat i) k" for data
    by (rule nth_equalityI) (simp_all add: algebra_simps)
  then show ?thesis using mem_read_slice [OF assms, of "\<lambda>_. 0xFF" "0x3000"] by (simp add: length_demo_elf demo_data_def)
qed

lemma erased_unbootable:
  assumes "\<And>i. i < 52 \<Longrightarrow> data (a - 0xA00000 + of_nat i) = 0xFF" and "a \<noteq> NULL" and "flash_from (fc_density_in_blocks c) a EHDR_SIZE"
  shows "unbootable c data a"
proof -
  have "mem_read (window data) a EHDR_SIZE = replicate 52 0xFF"
    using assms(1) by (intro nth_equalityI) (simp_all add: EHDR_SIZE_def algebra_simps)
  then have "take 4 (e_ident (image_hdr (window data) a)) = [0xFF, 0xFF, 0xFF, 0xFF]"
    by (simp add: image_hdr_def decode_ehdr_def numeral_eq_Suc)
  then have "boot_elf_validate_elf_header (image_hdr (window data) a) = BL_ERR_ELF_PARSE"
    by (simp add: boot_elf_validate_elf_header_def)
  then show ?thesis using assms(2,3) by (simp add: unbootable_def)
qed

lemma demo_data_erased:
  assumes "a \<in> {0xA04000, 0xA05000}"
  shows "unbootable demo_cfg demo_data a"
proof -
  have "demo_data (a - 0xA00000 + of_nat i) = 0xFF" if "i < 52" for i
    unfolding demo_data_def
  proof (rule mem_write_other)
    fix j assume j: "j < length demo_elf"
    have u: "unat (a - 0xA00000) \<in> {0x4000, 0x5000}" using assms by auto
    have "unat (a - 0xA00000 + of_nat i) = unat (a - 0xA00000) + i" by (rule unat_addr_offset) (use u that in auto)
    moreover have "unat (0x3000 + of_nat j :: addr) = 0x3000 + j"
      using unat_addr_offset [of "0x3000" j] j by (simp add: length_demo_elf)
    ultimately have "unat (a - 0xA00000 + of_nat i) \<noteq> unat (0x3000 + of_nat j :: addr)"
      using u j by (auto simp: length_demo_elf)
    then show "a - 0xA00000 + of_nat i \<noteq> 0x3000 + of_nat j" by metis
  qed
  then show ?thesis by (rule erased_unbootable) (use assms in \<open>auto simp: flash_from_def demo_simps EHDR_SIZE_def\<close>)
qed

lemma demo_data_bootable: "bootable demo_cfg demo_data demo_loader 0xA03000"
proof -
  note d = demo_image_at [of "window demo_data" "0xA03000", OF demo_data_image]
  have "seg_fits (flash_from (fc_density_in_blocks demo_cfg)) boot_to (prog_hdrs_addr demo_loader) 0xA03000 ty demo_phdr" for ty
    by (cases ty) (simp_all add: seg_fits_def seg_dest_def demo_phdr_def flash_from_def demo_simps ram_to_def rram_to_def apart_def demo_addrs)
  moreover have "e_phnum (image_hdr (window demo_data) 0xA03000) \<noteq> 0" using d(2) by auto
  ultimately show ?thesis using d by (simp add: bootable_def flash_from_def demo_simps EHDR_SIZE_def PHDR_SIZE_def)
qed

theorem sbl_falls_back_to_good_image_witness:
  "\<exists>r'. boot_loop demo_cfg_off (demo_run demo_data) = Some (Go r') \<and> rn_load_addr r' = 0xA03000 \<and> image_in_memory demo_data 0xA03000 r'
     \<and> fe_rank (rn_fde r') = OTA_IMG_RANK_GOLDEN \<and> fe_addr (rn_fde r') = 0"
proof -
  have bad: "unbootable demo_cfg demo_data (image_slot_addr (sb_info (demo_run demo_data)) k)" if "k < 2" for k
    using that demo_slots demo_data_erased by (auto simp: demo_run_def less_2_cases_iff)
  have "\<exists>r'. boot_loop demo_cfg_off (demo_run demo_data) = Some (Go r') \<and> rn_load_addr r' = image_slot_addr (sb_info (demo_run demo_data)) 2
     \<and> image_in_memory demo_data (image_slot_addr (sb_info (demo_run demo_data)) 2) r'
     \<and> fe_rank (rn_fde r') = [OTA_IMG_RANK_TRIAL, OTA_IMG_RANK_CURRENT, OTA_IMG_RANK_GOLDEN] ! 2
     \<and> fe_addr (rn_fde r') = ucast (si_boot_fwd (sb_info (demo_run demo_data)) ! 2) \<and> fe_state (rn_fde r') = OTA_IMG_STATE_VALID"
    by (rule sbl_falls_back_to_good_image [OF _ _ _ _ _ _ _ bad, where content = fst and wel = demo_wel and busy = demo_busy])
      (use demo_flash_holds demo_usable demo_slots demo_data_bootable in
        \<open>simp_all add: demo_cfg_off_def demo_run_def ram_to_def demo_addrs\<close>)
  then show ?thesis using demo_slots by (auto simp: demo_run_def demo_info_def)
qed

text \<open>C33: With three valid descriptors whose images all have bad headers the boot loop never ends:
  after the golden image failed, the selection neither clears the error nor resets the chip
  (the boot loader's own image not being part of the update).\<close>

theorem sbl_no_image_hangs:
  assumes "sc_load_init cfg = boot_elf_load_init" and "flash_holds (sc_env cfg) c content wel busy data (sb_boot r)"
    and "boot_to (hdr_addr (rn_loader r)) EHDR_SIZE" and "boot_to (prog_hdrs_addr (rn_loader r)) hdrs_size"
    and "all_usable (sb_info r)" and "\<And>k. k < 3 \<Longrightarrow> unbootable c data (image_slot_addr (sb_info r) k)"
  shows "boot_loop cfg r = None"
proof (rule no_image_left [OF assms(5), where keep = "flash_kept (sc_env cfg) c content wel busy data (el_base (rn_loader r))"])
  show "flash_kept (sc_env cfg) c content wel busy data (el_base (rn_loader r)) (rn_loader r) (sb_boot r)"
    using assms(2-4) by (simp add: flash_kept_def)
  show "rejected cfg (flash_kept (sc_env cfg) c content wel busy data (el_base (rn_loader r))) (image_slot_addr (sb_info r) j)" if "j < 3" for j
    by (rule unbootable_rejected [OF assms(1) assms(6) [OF that]])
qed

theorem sbl_no_image_hangs_witness: "boot_loop demo_cfg_off (demo_run (\<lambda>_. 0xFF)) = None"
proof -
  have "unbootable demo_cfg (\<lambda>_. 0xFF) a" if "a \<in> {0xA03000, 0xA04000, 0xA05000}" for a
    by (rule erased_unbootable) (use that in \<open>auto simp: flash_from_def demo_simps EHDR_SIZE_def\<close>)
  then have bad: "unbootable demo_cfg (\<lambda>_. 0xFF) (image_slot_addr (sb_info (demo_run (\<lambda>_. 0xFF))) k)" if "k < 3" for k
    using that demo_slots by (auto simp: demo_run_def less_Suc_eq numeral_3_eq_3 numeral_2_eq_2)
  show ?thesis
    by (rule sbl_no_image_hangs [OF _ _ _ _ _ bad, where content = fst and wel = demo_wel and busy = demo_busy])
      (use demo_flash_holds demo_usable in \<open>simp_all add: demo_cfg_off_def demo_run_def ram_to_def demo_addrs\<close>)
qed

text \<open>When loading an image or verifying its hashes fails and the next descriptor is valid, the
  boot loader resets the chip, to boot the next image; the descriptor in flash is not marked
  invalid, since \<open>boot_sbl_update_fwd\<close> gives up when its read succeeds. Flash and memory are as
  before, so the next boot selects the same image again.\<close>

theorem sbl_late_failure_keeps_descriptor:
  assumes "flash_holds env c content wel busy data (sb_boot s)"
    and "drop_bit 3 (si_err_code (sb_info s)) \<noteq> 0" and "si_ota_sbl_exist (sb_info s) = of_nat MAX_FW_IMAGE_ENTRIES"
    and "si_valid_fwd (sb_info s) \<in> {INDEX_TRIAL, INDEX_CURRENT}" and "FWD_TABLE_IS_VALID (sb_info s) (si_valid_fwd (sb_info s) + 1)"
    and "unat (si_boot_fwd (sb_info s) ! unat (si_valid_fwd (sb_info s))) < unat (fc_density_in_blocks c)"
  shows "\<exists>b. boot_sbl_select_validFwd env sbl_rank s = Some (Reset b) \<and> flash_holds env c content wel busy data b \<and> bt_mem b = bt_mem (sb_boot s)"
proof -
  define sec where "sec = si_boot_fwd (sb_info s) ! unat (si_valid_fwd (sb_info s))"
  have "unat sec < 256" using unsigned_less [of sec, where ?'a = nat] by simp
  then have "unat (sector_addr (ucast sec)) = unat sec * 4096"
    by (simp add: sector_addr_def BLOCK_SIZE_IN_BYTES_def unat_word_ariths unsigned_ucast_eq take_bit_nat_eq_self)
  moreover have "unat (of_nat FWD_SIZE :: u32) = 512" by (simp add: FWD_SIZE_def)
  ultimately have "unat (sector_addr (ucast sec)) + unat (of_nat FWD_SIZE :: u32) \<le> unat (fc_density_in_blocks c) * 4096"
    using assms(6) by (simp add: sec_def)
  from sbl_flash_read [OF assms(1) _ this]
  obtain b where b: "boot_sbl_flash_read env (sector_addr (ucast sec)) (of_nat FWD_SIZE) (sb_boot s)
        = Some (FLASH_DEVICE_DONE, mem_read data (sector_addr (ucast sec)) 512, b)"
      "flash_holds env c content wel busy data b" "bt_mem b = bt_mem (sb_boot s)"
    by (auto simp: FWD_SIZE_def)
  have upd: "boot_sbl_update_fwd env sec (sb_boot s) = Some (BL_ERR_NONE, b)"
    using b(1) by (simp add: boot_sbl_update_fwd_def)
  have "si_err_code (sb_info s) \<noteq> 0" using assms(2) by auto
  moreover have "boot_sbl_sw_reset (sb_info s)" using assms(4,5) by (auto simp: boot_sbl_sw_reset_def index_defs)
  ultimately have "boot_sbl_select_validFwd env sbl_rank s = Some (Reset b)"
    using assms(2-4) upd
    by (auto simp: boot_sbl_select_validFwd_def select_after_error_def Let_def index_defs ERROR_SBL_IMAGE_LOAD_def sec_def)
  then show ?thesis using b(2,3) by blast
qed

theorem sbl_late_failure_keeps_descriptor_witness:
  "\<exists>b. boot_sbl_select_validFwd demo_env 0
        \<lparr>sb_boot = demo_boot demo_data (\<lambda>_. 7), sb_info = demo_info\<lparr>si_err_code := 16, si_ota_sbl_exist := 30\<rparr>\<rparr> = Some (Reset b)
     \<and> flash_holds demo_env demo_cfg fst demo_wel demo_busy demo_data b"
proof -
  have "FWD_TABLE_IS_VALID (demo_info\<lparr>si_err_code := 16, si_ota_sbl_exist := 30\<rparr>) 1"
    by (simp add: FWD_TABLE_IS_VALID_def fwd_of_def demo_info_def demo_fwd_def)
  then show ?thesis
    using sbl_late_failure_keeps_descriptor [of demo_env demo_cfg fst demo_wel demo_busy demo_data
        "\<lparr>sb_boot = demo_boot demo_data (\<lambda>_. 7), sb_info = demo_info\<lparr>si_err_code := 16, si_ota_sbl_exist := 30\<rparr>\<rparr>" 0] demo_flash_holds
    by (auto simp: demo_info_def index_defs demo_simps)
qed

section \<open>Verified boot\<close>

lemma attempt_verified:
  assumes "attempt cfg r = Some r'" and "si_err_code (sb_info r') = 0" and auth: "sc_auth_enable cfg" and on: "\<not> checks_off (sd_auth_state (sc_shared cfg))"
  obtains b0 b1 b2 h0 where "sbl_image_auth (image_info r') (sc_shared cfg) h0 b0 = (BL_ERR_NONE, rn_hash r', b1)"
    and "boot_elf_load_image (rn_loader r') (rn_type r') b1 = Some (BL_ERR_NONE, b2)"
    and "sbl_compute_verify_hash (sc_env cfg) (sc_sha256 cfg) (Some (image_info r')) (Some (sc_shared cfg)) (rn_hash r') b2
      = Some (BL_ERR_NONE, sb_boot r')"
proof -
  obtain r1 r2 r3 where s: "stage_auth cfg r1 = Some (True, r2)" "stage_load cfg r2 = Some (True, r3)" "stage_hash cfg r3 = Some (True, r')"
    using attempt_ok [OF assms(1,2)] by metis
  obtain h b1 where 1: "sbl_image_auth (image_info r1) (sc_shared cfg) (rn_hash r1) (sb_boot r1) = (BL_ERR_NONE, h, b1)"
      "r2 = r1\<lparr>rn_hash := h, sb_boot := b1\<rparr>"
    using s(1) auth by (auto simp: stage_auth_def Let_def split: prod.splits if_splits)
  obtain b2 where 2: "boot_elf_load_image (rn_loader r2) (rn_type r2) (sb_boot r2) = Some (BL_ERR_NONE, b2)" "r3 = r2\<lparr>sb_boot := b2\<rparr>"
    using s(2) by (auto simp: stage_load_def Let_def split: if_splits)
  obtain b3 where 3: "sbl_compute_verify_hash (sc_env cfg) (sc_sha256 cfg) (Some (image_info r3)) (Some (sc_shared cfg)) (rn_hash r3) (sb_boot r3)
      = Some (BL_ERR_NONE, b3)" "r' = r3\<lparr>sb_boot := b3\<rparr>"
    using s(3) auth by (auto simp: stage_hash_def Let_def split: if_splits)
  have i: "image_info r' = image_info r1" "image_info r3 = image_info r1" by (simp_all add: 1(2) 2(2) 3(2) image_info_def)
  show ?thesis
    by (rule that [of "rn_hash r1" "sb_boot r1" b1 b2]) (use 1 2 3 i in simp_all)
qed

text \<open>C3: A boot with authentication runs only what was checked: when the boot loop hands over an
  image, the ROM's signature check has accepted its headers and supplied the hash table, its
  version passed the roll-back check, and after loading, the memory of every valid non-empty
  segment but the first has the digest of that table. Afterwards at most the roll-back fuses
  were written.\<close>

theorem sbl_verified_boot:
  assumes "boot_loop cfg r = Some (Go r')" and "sc_auth_enable cfg" and "\<not> checks_off (sd_auth_state (sc_shared cfg))"
  shows "\<exists>secimg_auth get_handle b0 b1 b2 h0 h1.
     sd_secimg_auth (sc_shared cfg) = Some secimg_auth \<and> secimg_auth (image_info r') b0 = (BL_ERR_NONE, b1)
     \<and> sd_pbl_get_image_hash_handle (sc_shared cfg) = Some get_handle \<and> get_handle b1 h0 = (BL_ERR_NONE, h1)
     \<and> hh_hash_table (rn_hash r') = hh_hash_table h1
     \<and> (auth_enabled (sd_auth_state (sc_shared cfg)) \<longrightarrow>
          fst (boot_rollback_validate_image_version (ii_image_id (image_info r')) (Some (sd_auth_state (sc_shared cfg))) (Some (hh_auth_state h1))))
     \<and> boot_elf_load_image (rn_loader r') (rn_type r') b1 = Some (BL_ERR_NONE, b2)
     \<and> (\<forall>i. 1 \<le> i \<and> i < unat (el_phr_num (rn_loader r')) \<longrightarrow>
          (let ph = prog_hdr (rn_loader r') (bt_mem b2) i
           in sd_is_valid_segment (sc_shared cfg) ph \<and> p_filesz ph \<noteq> 0 \<longrightarrow>
              sc_sha256 cfg (mem_read (bt_mem b2) (p_vaddr ph) (unat (p_filesz ph))) = Some (table_digest (rn_hash r') i)))
     \<and> (sb_boot r' = b2 \<or> (\<exists>m. sb_boot r' = b2\<lparr>bt_mem := m\<rparr>
          \<and> boot_rollback_update_fuse_version (be_dma (sc_env cfg)) SECBOOT_IMG_AUTH_APP_IMG (Some (hh_auth_state (rn_hash r'))) (bt_mem b2)
              = Some (BL_ERR_NONE, m)))"
proof -
  obtain q where q: "attempt cfg q = Some r'" "si_err_code (sb_info r') = 0" using boot_loop_go [OF assms(1)] .
  obtain b0 b1 b2 h0 where a: "sbl_image_auth (image_info r') (sc_shared cfg) h0 b0 = (BL_ERR_NONE, rn_hash r', b1)"
    and load: "boot_elf_load_image (rn_loader r') (rn_type r') b1 = Some (BL_ERR_NONE, b2)"
    and hash: "sbl_compute_verify_hash (sc_env cfg) (sc_sha256 cfg) (Some (image_info r')) (Some (sc_shared cfg)) (rn_hash r') b2
      = Some (BL_ERR_NONE, sb_boot r')"
    using attempt_verified [OF q assms(2,3)] .
  have l: "ii_elf_loader (image_info r') = rn_loader r'" by (simp add: image_info_def)
  have seg: "\<forall>i. 1 \<le> i \<and> i < unat (el_phr_num (rn_loader r')) \<longrightarrow>
          (let ph = prog_hdr (rn_loader r') (bt_mem b2) i
           in sd_is_valid_segment (sc_shared cfg) ph \<and> p_filesz ph \<noteq> 0 \<longrightarrow>
              sc_sha256 cfg (mem_read (bt_mem b2) (p_vaddr ph) (unat (p_filesz ph))) = Some (table_digest (rn_hash r') i))"
    using hash_ok(1) [OF hash assms(3)] unfolding verify_segments_ok l by (simp add: Let_def)
  have fuses: "sb_boot r' = b2 \<or> (\<exists>m. sb_boot r' = b2\<lparr>bt_mem := m\<rparr>
          \<and> boot_rollback_update_fuse_version (be_dma (sc_env cfg)) SECBOOT_IMG_AUTH_APP_IMG (Some (hh_auth_state (rn_hash r'))) (bt_mem b2)
              = Some (BL_ERR_NONE, m))"
    using hash_ok(2) [OF hash assms(3)] by blast
  show ?thesis
  proof (rule auth_ok [OF a assms(3)], goal_cases)
    case (1 secimg get h1)
    show ?case
      by (intro exI conjI, rule 1(1), rule 1(3), rule 1(2), rule 1(4), rule 1(5), rule impI, erule 1(6), rule load, rule seg, rule fuses)
  qed
qed

text \<open>A boot with checks, on a memory of ones: two program headers that are not loaded, the second with a digest.\<close>

definition demo_cfg_on :: "demo_chip sbl_cfg" where
  "demo_cfg_on =
     \<lparr>sc_env = demo_env, sc_load_init = (\<lambda>l a ops b. Some (BL_ERR_NONE, l\<lparr>el_elf_addr := a, el_phr_num := 2\<rparr>, b)),
      sc_sha256 = (\<lambda>_. Some (replicate 32 5)), sc_auth_enable = True,
      sc_shared = \<lparr>sd_auth_state = demo_auth_state,
        sd_pbl_get_image_hash_handle = Some (\<lambda>_ h. (BL_ERR_NONE, h\<lparr>hh_hash_table := replicate 64 5\<rparr>)),
        sd_secimg_auth = Some (\<lambda>_ b. (BL_ERR_NONE, b)), sd_is_valid_segment = (\<lambda>_. True)\<rparr>,
      sc_sbl_rank = OTA_IMG_RANK_CURRENT\<rparr>"

lemma demo_on_accepted: "accepted demo_cfg_on (\<lambda>l b. bt_mem b = (\<lambda>_. 1)) 0xA04000 (\<lambda>r. el_phr_num (rn_loader r) = 2)"
  unfolding accepted_def
proof (intro allI impI)
  fix r :: "demo_chip sbl_run" assume m: "bt_mem (sb_boot r) = (\<lambda>_. 1)" and a: "rn_load_addr r = 0xA04000" and e: "si_err_code (sb_info r) = 0"
  have ph: "p_type (prog_hdr l (\<lambda>_. 1) i) \<noteq> PT_LOAD" for l :: "demo_chip boot_elf_loader" and i
  proof -
    have "mem_read (\<lambda>_. 1) x PHDR_SIZE = 1 # 1 # 1 # 1 # replicate 28 1" for x
      by (rule nth_equalityI) (auto simp: PHDR_SIZE_def nth_Cons' split: if_splits)
    then show ?thesis by (simp add: prog_hdr_def decode_phdr_def PT_LOAD_def)
  qed
  define l where "l = (rn_loader r)\<lparr>el_elf_addr := 0xA04000, el_phr_num := 2\<rparr>"
  have load: "boot_elf_load_image l (rn_type r) (sb_boot r) = Some (BL_ERR_NONE, sb_boot r)"
    using ph m by (simp add: boot_elf_load_image_def l_def load_segment_def Let_def upt_rec)
  have "table_digest ((rn_hash r)\<lparr>hh_hash_table := replicate 64 5\<rparr>) 1 = replicate 32 5"
    by (simp add: table_digest_def CRYPTO_DIGEST_BYTE_SIZE_SHA256_def)
  then have "verify_segments (\<lambda>_. Some (replicate 32 5)) (\<lambda>_. True) l ((rn_hash r)\<lparr>hh_hash_table := replicate 64 5\<rparr>) m' [1 ..< 2] = BL_ERR_NONE" for m'
    by (simp add: upt_rec Let_def)
  then show "\<exists>r'. attempt demo_cfg_on r = Some r' \<and> si_err_code (sb_info r') = 0 \<and> el_phr_num (rn_loader r') = 2"
    using load e a m
    by (simp add: attempt_def stage_defs demo_cfg_on_def sbl_image_auth_def sbl_compute_verify_hash_def checks_off_def demo_auth_state_def
        image_info_def Let_def flip: l_def) (simp add: l_def)
qed

theorem sbl_verified_boot_witness:
  "\<exists>r' b1 b2. boot_loop demo_cfg_on ((demo_run (\<lambda>_. 0xFF))\<lparr>sb_boot := demo_boot (\<lambda>_. 0xFF) (\<lambda>_. 1)\<rparr>) = Some (Go r')
     \<and> el_phr_num (rn_loader r') = 2 \<and> boot_elf_load_image (rn_loader r') (rn_type r') b1 = Some (BL_ERR_NONE, b2)
     \<and> hh_hash_table (rn_hash r') = replicate 64 5"
proof -
  have u: "all_usable (sb_info ((demo_run (\<lambda>_. 0xFF))\<lparr>sb_boot := demo_boot (\<lambda>_. 0xFF) (\<lambda>_. 1)\<rparr>))"
    and s: "image_slot_addr (sb_info ((demo_run (\<lambda>_. 0xFF))\<lparr>sb_boot := demo_boot (\<lambda>_. 0xFF) (\<lambda>_. 1)\<rparr>)) 0 = 0xA04000"
    using demo_usable demo_slots by (simp_all add: demo_run_def)
  obtain r' where r': "boot_loop demo_cfg_on ((demo_run (\<lambda>_. 0xFF))\<lparr>sb_boot := demo_boot (\<lambda>_. 0xFF) (\<lambda>_. 1)\<rparr>) = Some (Go r')"
      "el_phr_num (rn_loader r') = 2"
    using falls_back [OF u, of "\<lambda>l b. bt_mem b = (\<lambda>_. 1)" 0 demo_cfg_on] demo_on_accepted unfolding s by (auto simp: demo_boot_def)
  have "\<not> checks_off (sd_auth_state (sc_shared demo_cfg_on))" by (simp add: checks_off_def demo_cfg_on_def demo_auth_state_def)
  moreover have "sc_auth_enable demo_cfg_on" by (simp add: demo_cfg_on_def)
  ultimately
  obtain get b1 b2 h0 h1 where res: "sd_pbl_get_image_hash_handle (sc_shared demo_cfg_on) = Some get" "get b1 h0 = (BL_ERR_NONE, h1)"
      "hh_hash_table (rn_hash r') = hh_hash_table h1" "boot_elf_load_image (rn_loader r') (rn_type r') b1 = Some (BL_ERR_NONE, b2)"
    using sbl_verified_boot [OF r'(1)] by blast
  then have "hh_hash_table (rn_hash r') = replicate 64 5" by (auto simp: demo_cfg_on_def)
  then show ?thesis using r' res(4) by blast
qed

end
