(* ===== verification/Fpci.thy ===== *)
theory Fpci
  imports Prelude
begin

text \<open>
  Power-event callbacks of the Wi-Fi firmware, \<^verbatim>\<open>qsystem/src/wifi_fw_pwr_cb_infra.c\<close>: a table of sixteen
  registrations kept in order of priority by a bubble sort, with registration, deregistration
  and dispatch. A callback is its address; what calling it does is a parameter of the dispatch.
\<close>

section \<open>Sorting\<close>

datatype sort_direction = SORT_DIRECTION_ASSENDING | SORT_DIRECTION_DESSENDING

text \<open>\<open>memcmp (a, b, n) > 0\<close>; the two keys always have the same length.\<close>

fun memcmp_gt :: "bytes \<Rightarrow> bytes \<Rightarrow> bool" where
  "memcmp_gt (a # as) (b # bs) \<longleftrightarrow> a > b \<or> a = b \<and> memcmp_gt as bs"
| "memcmp_gt [] bs \<longleftrightarrow> False"
| "memcmp_gt as [] \<longleftrightarrow> as \<noteq> []"

text \<open>The test of the inner loop: the direction, exclusive or, the comparison.\<close>

definition must_swap :: "sort_direction \<Rightarrow> bytes \<Rightarrow> bytes \<Rightarrow> bool" where
  "must_swap dir a b \<longleftrightarrow> (dir = SORT_DIRECTION_DESSENDING) \<noteq> memcmp_gt a b"

definition swap :: "nat \<Rightarrow> 'a list \<Rightarrow> 'a list" where
  "swap j xs = xs[j := xs ! Suc j, Suc j := xs ! j]"

text \<open>The inner loop over the first \<open>k\<close> neighbours, then the outer loop; \<open>key\<close> is the compared part of a node.\<close>

definition bubble_pass :: "sort_direction \<Rightarrow> ('a \<Rightarrow> bytes) \<Rightarrow> nat \<Rightarrow> 'a list \<Rightarrow> 'a list" where
  "bubble_pass dir key k xs = fold (\<lambda>j xs. if must_swap dir (key (xs ! j)) (key (xs ! Suc j)) then swap j xs else xs) [0 ..< k] xs"

definition sort_bubble :: "sort_direction \<Rightarrow> ('a \<Rightarrow> bytes) \<Rightarrow> 'a list \<Rightarrow> 'a list" where
  "sort_bubble dir key xs = fold (\<lambda>i xs. bubble_pass dir key (length xs - 1 - i) xs) [0 ..< length xs - 1] xs"

section \<open>The table\<close>

definition FPCI_MAX_REG :: nat where "FPCI_MAX_REG = 16"
definition PWR_EVT_WMAC_MAX :: u16 where "PWR_EVT_WMAC_MAX = 0x80"
definition FPCI_MIN_PRIOR :: u8 where "FPCI_MIN_PRIOR = 0"

datatype fpci_err = FPCI_SUCCESS | FPCI_ERR

record pwr_evt_reg =
  pe_evt_mask :: u16
  pe_priority :: u8
  pe_evt_cb :: addr
  pe_p_args :: addr

definition zero_reg :: pwr_evt_reg where
  "zero_reg = \<lparr>pe_evt_mask = 0, pe_priority = 0, pe_evt_cb = NULL, pe_p_args = NULL\<rparr>"

record fpci =
  g_event_bin :: "pwr_evt_reg list"
  g_event_bin_ctr :: u32

definition fpci_init :: fpci where
  "fpci_init = \<lparr>g_event_bin = replicate FPCI_MAX_REG zero_reg, g_event_bin_ctr = 0\<rparr>"

definition sort_FPCI :: "pwr_evt_reg list \<Rightarrow> pwr_evt_reg list" where
  "sort_FPCI = sort_bubble SORT_DIRECTION_DESSENDING (\<lambda>e. [pe_priority e])"

text \<open>The first index below the counter whose entry satisfies the test, or the counter.\<close>

definition find_index :: "(pwr_evt_reg \<Rightarrow> bool) \<Rightarrow> fpci \<Rightarrow> nat" where
  "find_index P s = (case find (\<lambda>i. P (g_event_bin s ! i)) [0 ..< unat (g_event_bin_ctr s)] of Some i \<Rightarrow> i | None \<Rightarrow> unat (g_event_bin_ctr s))"

definition fpci_evt_cb_reg :: "addr \<Rightarrow> u16 \<Rightarrow> u8 \<Rightarrow> addr \<Rightarrow> fpci \<Rightarrow> fpci_err \<times> fpci" where
  "fpci_evt_cb_reg cb evt_reg_mask priority p_args s =
     (if cb = NULL \<or> \<not> evt_reg_mask < PWR_EVT_WMAC_MAX \<or> \<not> g_event_bin_ctr s < of_nat FPCI_MAX_REG - 1 \<or> \<not> priority > FPCI_MIN_PRIOR
      then (FPCI_ERR, s)
      else
        let index = find_index (\<lambda>e. pe_evt_cb e = cb) s;
            e = g_event_bin s ! index;
            bin = (g_event_bin s)[index := e\<lparr>pe_evt_cb := cb, pe_evt_mask := pe_evt_mask e OR evt_reg_mask, pe_priority := priority, pe_p_args := p_args\<rparr>];
            ctr = (if index = unat (g_event_bin_ctr s) then g_event_bin_ctr s + 1 else g_event_bin_ctr s)
        in (FPCI_SUCCESS, s\<lparr>g_event_bin := sort_FPCI bin, g_event_bin_ctr := ctr\<rparr>))"

text \<open>An access beyond the table is undefined (\<open>None\<close>).\<close>

definition fpci_evt_cb_dereg :: "addr \<Rightarrow> u16 \<Rightarrow> fpci \<Rightarrow> (fpci_err \<times> fpci) option" where
  "fpci_evt_cb_dereg cb evt_reg_mask s =
     (if cb = NULL \<or> \<not> evt_reg_mask < PWR_EVT_WMAC_MAX then Some (FPCI_ERR, s)
      else
        let index = find_index (\<lambda>e. pe_evt_cb e = cb \<and> pe_evt_mask e AND evt_reg_mask \<noteq> 0) s;
            e = g_event_bin s ! index;
            e = (if index < unat (g_event_bin_ctr s) then e\<lparr>pe_evt_mask := pe_evt_mask e AND NOT evt_reg_mask\<rparr> else e);
            bin = (g_event_bin s)[index := e]
        in if \<not> index < FPCI_MAX_REG then None
           else if pe_evt_mask e = 0
           then Some (FPCI_SUCCESS, s\<lparr>g_event_bin := sort_FPCI (bin[index := zero_reg]), g_event_bin_ctr := g_event_bin_ctr s - 1\<rparr>)
           else Some (FPCI_SUCCESS, s\<lparr>g_event_bin := bin\<rparr>))"

text \<open>
  \<open>call cb evt args\<close> is the effect of a callback on the table and on the rest of the world;
  the loop looks at the table again after each call.
\<close>

function dispatch_loop :: "(addr \<Rightarrow> u8 \<Rightarrow> addr \<Rightarrow> fpci \<times> 'w \<Rightarrow> fpci \<times> 'w) \<Rightarrow> u16 \<Rightarrow> nat \<Rightarrow> fpci \<times> 'w \<Rightarrow> (fpci \<times> 'w) option" where
  "dispatch_loop call evt i sw =
     (if \<not> i < unat (g_event_bin_ctr (fst sw)) then Some sw
      else if \<not> i < FPCI_MAX_REG then None
      else
        let e = g_event_bin (fst sw) ! i
        in dispatch_loop call evt (Suc i)
             (if pe_evt_mask e AND evt \<noteq> 0 \<and> pe_evt_cb e \<noteq> NULL then call (pe_evt_cb e) (ucast evt) (pe_p_args e) sw else sw))"
  by pat_completeness auto

termination
  by (relation "measure (\<lambda>(call, evt, i, sw). FPCI_MAX_REG - i)") auto

definition fpci_evt_dispatch :: "(addr \<Rightarrow> u8 \<Rightarrow> addr \<Rightarrow> fpci \<times> 'w \<Rightarrow> fpci \<times> 'w) \<Rightarrow> u16 \<Rightarrow> fpci \<times> 'w \<Rightarrow> (fpci_err \<times> fpci \<times> 'w) option" where
  "fpci_evt_dispatch call evt sw =
     (if \<not> evt < PWR_EVT_WMAC_MAX then Some (FPCI_ERR, sw) else map_option (Pair FPCI_SUCCESS) (dispatch_loop call evt 0 sw))"

declare dispatch_loop.simps [simp del]

end
