(* ===== verification/Fpci_Props.thy ===== *)
theory Fpci_Props
  imports Fpci
begin

text \<open>
  The bubble sort sorts; with it the table of callbacks is a map from callbacks to their
  masks, and events are dispatched in order of priority.
\<close>

section \<open>Bubble sort\<close>

text \<open>
  A comparison that is true only where the neighbours may be exchanged: after the step they
  are in the order \<open>before\<close>.
\<close>

locale neighbour_order =
  fixes exchange before :: "'a \<Rightarrow> 'a \<Rightarrow> bool"
  assumes kept: "\<not> exchange x y \<Longrightarrow> before x y"
    and exchanged: "exchange x y \<Longrightarrow> before y x"
    and trans: "before x y \<Longrightarrow> before y z \<Longrightarrow> before x z"
begin

definition step :: "nat \<Rightarrow> 'a list \<Rightarrow> 'a list" where
  "step j xs = (if exchange (xs ! j) (xs ! Suc j) then swap j xs else xs)"

definition pass :: "nat \<Rightarrow> 'a list \<Rightarrow> 'a list" where
  "pass k xs = fold step [0 ..< k] xs"

lemma step_facts:
  assumes "Suc j < length xs"
  shows "length (step j xs) = length xs" and "mset (take (Suc (Suc j)) (step j xs)) = mset (take (Suc (Suc j)) xs)"
    and "drop (Suc (Suc j)) (step j xs) = drop (Suc (Suc j)) xs" and "i < j \<Longrightarrow> step j xs ! i = xs ! i"
    and "before (step j xs ! j) (step j xs ! Suc j)"
  using assms kept exchanged by (auto simp: step_def swap_def take_Suc_conv_app_nth)

lemma pass_facts:
  assumes "k < length xs"
  shows "length (pass k xs) = length xs \<and> mset (take (Suc k) (pass k xs)) = mset (take (Suc k) xs)
    \<and> drop (Suc k) (pass k xs) = drop (Suc k) xs \<and> (\<forall>i < k. before (pass k xs ! i) (pass k xs ! k))"
  using assms
proof (induction k)
  case 0
  then show ?case by (simp add: pass_def)
next
  case (Suc k)
  define ys where "ys = pass k xs"
  have IH: "length ys = length xs" "mset (take (Suc k) ys) = mset (take (Suc k) xs)" "drop (Suc k) ys = drop (Suc k) xs"
    "\<And>i. i < k \<Longrightarrow> before (ys ! i) (ys ! k)" using Suc by (auto simp: ys_def)
  have p: "pass (Suc k) xs = step k ys" by (simp add: pass_def ys_def)
  have k: "Suc k < length ys" using Suc.prems IH(1) by simp
  note f = step_facts [OF k]
  have nth: "ys ! Suc k = xs ! Suc k" using IH(1,3) k by (metis Cons_nth_drop_Suc list.inject)
  have "mset (take (Suc (Suc k)) ys) = mset (take (Suc (Suc k)) xs)"
    using IH(1,2) k nth by (simp add: take_Suc_conv_app_nth [of "Suc k"])
  moreover have "drop (Suc (Suc k)) ys = drop (Suc (Suc k)) xs" using IH(3) by (metis drop_drop plus_1_eq_Suc)
  moreover have "before (step k ys ! i) (step k ys ! Suc k)" if "i < Suc k" for i
  proof (cases "i = k")
    case False
    then have i: "i < k" using that by simp
    show ?thesis
    proof (cases "exchange (ys ! k) (ys ! Suc k)")
      case True
      then have "step k ys ! Suc k = ys ! k" using k by (simp add: step_def swap_def)
      then show ?thesis using IH(4) [OF i] f(4) [OF i] by simp
    next
      case False
      then have "step k ys ! Suc k = ys ! Suc k" "before (ys ! k) (ys ! Suc k)" using kept by (simp_all add: step_def)
      then show ?thesis using trans [OF IH(4) [OF i]] f(4) [OF i] by simp
    qed
  qed (use f(5) in simp)
  ultimately show ?case using f(1-3) IH(1) by (simp add: p)
qed

text \<open>After \<open>i\<close> rounds the last \<open>i\<close> elements are in order and after all others.\<close>

definition rounds :: "nat \<Rightarrow> 'a list \<Rightarrow> 'a list" where
  "rounds i xs = fold (\<lambda>i xs. pass (length xs - 1 - i) xs) [0 ..< i] xs"

lemma rounds_facts:
  assumes "i < length xs \<or> i = 0"
  shows "length (rounds i xs) = length xs \<and> mset (rounds i xs) = mset xs \<and> sorted_wrt before (drop (length xs - i) (rounds i xs))
    \<and> (\<forall>x \<in> set (take (length xs - i) (rounds i xs)). \<forall>y \<in> set (drop (length xs - i) (rounds i xs)). before x y)"
  using assms
proof (induction i)
  case 0
  then show ?case by (simp add: rounds_def)
next
  case (Suc i)
  define ys where "ys = rounds i xs"
  define k where "k = length xs - 1 - i"
  have k: "length xs - i = Suc k" "length xs - Suc i = k" using Suc.prems by (auto simp: k_def)
  have IH: "length ys = length xs" "mset ys = mset xs" "sorted_wrt before (drop (Suc k) ys)"
    "\<forall>x \<in> set (take (Suc k) ys). \<forall>y \<in> set (drop (Suc k) ys). before x y"
    using Suc k by (auto simp: ys_def)
  define zs where "zs = pass k ys"
  have r: "rounds (Suc i) xs = zs" using IH(1) by (simp add: rounds_def ys_def zs_def k_def)
  have kl: "k < length ys" using IH(1) Suc.prems by (simp add: k_def)
  have f: "length zs = length ys" "mset (take (Suc k) zs) = mset (take (Suc k) ys)" "drop (Suc k) zs = drop (Suc k) ys"
    "\<And>i. i < k \<Longrightarrow> before (zs ! i) (zs ! k)" using pass_facts [OF kl] by (auto simp: zs_def)
  have d: "drop k zs = zs ! k # drop (Suc k) ys" using f(1,3) kl by (metis Cons_nth_drop_Suc)
  have t: "take (Suc k) zs = take k zs @ [zs ! k]" using f(1) kl by (simp add: take_Suc_conv_app_nth)
  have s: "set (take (Suc k) zs) = set (take (Suc k) ys)" using f(2) by (metis set_mset_mset)
  have "mset zs = mset ys" using f(2,3) by (metis append_take_drop_id mset_append)
  moreover have "before x (zs ! k)" if "x \<in> set (take k zs)" for x
    using that f(1,4) kl by (auto simp: in_set_conv_nth)
  moreover have "before x y" if "x \<in> set (take (Suc k) zs)" "y \<in> set (drop (Suc k) ys)" for x y
    using IH(4) that s by blast
  ultimately show ?case unfolding r k(2) d using IH(1-3) f(1) t by auto
qed

lemma rounds_sort: "mset (rounds (length xs - 1) xs) = mset xs \<and> sorted_wrt before (rounds (length xs - 1) xs)"
proof (cases "length xs \<le> 1")
  case True
  then show ?thesis by (cases xs) (simp_all add: rounds_def)
next
  case False
  let ?ys = "rounds (length xs - 1) xs"
  have f: "length ?ys = length xs" "mset ?ys = mset xs" "sorted_wrt before (drop 1 ?ys)"
    "\<forall>x \<in> set (take 1 ?ys). \<forall>y \<in> set (drop 1 ?ys). before x y"
    using rounds_facts [of "length xs - 1" xs] False by (auto simp: Suc_diff_Suc)
  obtain y zs where "?ys = y # zs" using f(1) False by (cases ?ys) auto
  then show ?thesis using f by simp
qed

end

text \<open>The two directions of the sort.\<close>

definition in_order :: "sort_direction \<Rightarrow> bytes \<Rightarrow> bytes \<Rightarrow> bool" where
  "in_order dir a b \<longleftrightarrow> (case dir of SORT_DIRECTION_ASSENDING \<Rightarrow> \<not> memcmp_gt a b | SORT_DIRECTION_DESSENDING \<Rightarrow> \<not> memcmp_gt b a)"

lemma memcmp_gt_asym: "memcmp_gt a b \<Longrightarrow> \<not> memcmp_gt b a"
  by (induction a b rule: memcmp_gt.induct) auto

lemma memcmp_gt_trans: "\<not> memcmp_gt a b \<Longrightarrow> \<not> memcmp_gt b c \<Longrightarrow> \<not> memcmp_gt a c"
proof (induction a arbitrary: b c)
  case (Cons x a)
  then show ?case by (cases b; cases c) (auto simp: not_less_iff_gr_or_eq)
qed simp

interpretation bubble: neighbour_order "\<lambda>x y. must_swap dir (key x) (key y)" "\<lambda>x y. in_order dir (key x) (key y)"
  for dir key
  by unfold_locales (auto simp: must_swap_def in_order_def dest: memcmp_gt_asym memcmp_gt_trans split: sort_direction.splits)

lemma sort_bubble_rounds: "sort_bubble dir key xs = bubble.rounds dir key (length xs - 1) xs"
  unfolding sort_bubble_def bubble.rounds_def bubble.pass_def bubble.step_def bubble_pass_def ..

text \<open>The bubble sort sorts, in both directions and for every key: the result is a permutation of
  the nodes in which no node comes before one that the direction puts earlier.\<close>

theorem sort_bubble_sorts:
  "mset (sort_bubble dir key xs) = mset xs \<and> sorted_wrt (\<lambda>x y. in_order dir (key x) (key y)) (sort_bubble dir key xs)"
  unfolding sort_bubble_rounds by (rule bubble.rounds_sort)

lemma sort_FPCI_facts:
  "mset (sort_FPCI xs) = mset xs" "sorted_wrt (\<lambda>x y. pe_priority x \<ge> pe_priority y) (sort_FPCI xs)"
  using bubble.rounds_sort [of SORT_DIRECTION_DESSENDING "\<lambda>e. [pe_priority e]" xs]
  unfolding sort_FPCI_def sort_bubble_rounds in_order_def by (simp_all add: not_less)

section \<open>The table as a map\<close>

text \<open>The live entries; the others are zero and behind them.\<close>

definition live :: "fpci \<Rightarrow> pwr_evt_reg list" where
  "live s = filter (\<lambda>e. pe_priority e \<noteq> 0) (g_event_bin s)"

definition fpci_inv :: "fpci \<Rightarrow> bool" where
  "fpci_inv s \<longleftrightarrow> length (g_event_bin s) = FPCI_MAX_REG \<and> unat (g_event_bin_ctr s) = length (live s) \<and> length (live s) < FPCI_MAX_REG
     \<and> sorted_wrt (\<lambda>x y. pe_priority x \<ge> pe_priority y) (g_event_bin s)
     \<and> (\<forall>e \<in> set (g_event_bin s). pe_priority e = 0 \<longrightarrow> e = zero_reg)
     \<and> (\<forall>e \<in> set (live s). pe_evt_cb e \<noteq> NULL) \<and> distinct (map pe_evt_cb (live s))"

text \<open>What a callback is registered for.\<close>

definition registered :: "fpci \<Rightarrow> addr \<Rightarrow> (u16 \<times> u8 \<times> addr) option" where
  "registered s cb = map_of (map (\<lambda>e. (pe_evt_cb e, pe_evt_mask e, pe_priority e, pe_p_args e)) (live s)) cb"

lemma sorted_split:
  assumes "sorted_wrt (\<lambda>x y. pe_priority x \<ge> pe_priority y) xs"
  shows "xs = filter (\<lambda>e. pe_priority e \<noteq> 0) xs @ filter (\<lambda>e. pe_priority e = 0) xs"
  using assms
proof (induction xs)
  case (Cons x xs)
  show ?case
  proof (cases "pe_priority x = 0")
    case True
    then have "\<forall>y \<in> set xs. pe_priority y = 0" using Cons.prems by auto
    then show ?thesis using True by (simp add: filter_id_conv)
  qed (use Cons in simp)
qed simp

lemma inv_layout:
  assumes "fpci_inv s"
  shows "g_event_bin s = live s @ replicate (FPCI_MAX_REG - length (live s)) zero_reg"
proof -
  define zs where "zs = filter (\<lambda>e. pe_priority e = 0) (g_event_bin s)"
  have e: "g_event_bin s = live s @ zs" using assms sorted_split unfolding live_def zs_def by (auto simp: fpci_inv_def)
  then have "length zs = FPCI_MAX_REG - length (live s)" using assms by (metis fpci_inv_def diff_add_inverse length_append)
  moreover have "\<forall>z \<in> set zs. z = zero_reg" using assms by (auto simp: zs_def fpci_inv_def)
  ultimately have "zs = replicate (FPCI_MAX_REG - length (live s)) zero_reg" by (metis replicate_length_same)
  with e show ?thesis by simp
qed

definition entry_ok :: "pwr_evt_reg \<Rightarrow> bool" where
  "entry_ok e \<longleftrightarrow> pe_priority e \<noteq> 0 \<and> pe_evt_cb e \<noteq> NULL"

definition info_of :: "pwr_evt_reg \<Rightarrow> u16 \<times> u8 \<times> addr" where
  "info_of e = (pe_evt_mask e, pe_priority e, pe_p_args e)"

lemma live_ok: "fpci_inv s \<Longrightarrow> e \<in> set (live s) \<Longrightarrow> entry_ok e"
  by (auto simp: fpci_inv_def entry_ok_def live_def)

lemma registered_mset:
  assumes "mset (live s) = mset es" and "distinct (map pe_evt_cb es)"
  shows "registered s = map_of (map (\<lambda>e. (pe_evt_cb e, info_of e)) es)"
proof -
  have "mset (map pe_evt_cb (live s)) = mset (map pe_evt_cb es)" using assms(1) by simp
  then have d: "distinct (map pe_evt_cb (live s))" using assms(2) by (metis mset_eq_imp_distinct_iff)
  have "set (live s) = set es" using assms(1) by (metis set_mset_mset)
  then have "set (map (\<lambda>e. (pe_evt_cb e, info_of e)) (live s)) = set (map (\<lambda>e. (pe_evt_cb e, info_of e)) es)" by simp
  then have "map_of (map (\<lambda>e. (pe_evt_cb e, info_of e)) (live s)) = map_of (map (\<lambda>e. (pe_evt_cb e, info_of e)) es)"
    by (intro map_of_inject_set [THEN iffD2]) (use d assms(2) in \<open>simp_all add: comp_def\<close>)
  then show ?thesis unfolding registered_def info_of_def by (rule ext [OF fun_cong])
qed

lemma registered_live: "fpci_inv s \<Longrightarrow> registered s = map_of (map (\<lambda>e. (pe_evt_cb e, info_of e)) (live s))"
  by (rule registered_mset) (simp_all add: fpci_inv_def)

lemma registered_nth:
  assumes "fpci_inv s" and "j < length (live s)"
  shows "registered s (pe_evt_cb (live s ! j)) = Some (info_of (live s ! j))"
proof -
  have "(pe_evt_cb (live s ! j), info_of (live s ! j)) \<in> set (map (\<lambda>e. (pe_evt_cb e, info_of e)) (live s))"
    using assms(2) by (metis (mono_tags, lifting) length_map nth_map nth_mem)
  moreover have "distinct (map fst (map (\<lambda>e. (pe_evt_cb e, info_of e)) (live s)))"
    using assms(1) by (simp add: fpci_inv_def comp_def)
  ultimately show ?thesis unfolding registered_live [OF assms(1)] by (rule map_of_is_SomeI [rotated])
qed

text \<open>A sorted table of good entries and zeros has the invariant; sorting gives one.\<close>

lemma table_inv:
  assumes b: "mset (g_event_bin s) = mset es + replicate_mset (FPCI_MAX_REG - length es) zero_reg" and n: "length es < FPCI_MAX_REG"
    and ok: "\<And>e. e \<in> set es \<Longrightarrow> entry_ok e" and d: "distinct (map pe_evt_cb es)"
    and s: "sorted_wrt (\<lambda>x y. pe_priority x \<ge> pe_priority y) (g_event_bin s)" "g_event_bin_ctr s = of_nat (length es)"
  shows "fpci_inv s \<and> mset (live s) = mset es"
proof -
  have "filter_mset (\<lambda>e. pe_priority e \<noteq> 0) (mset es) = mset es" using ok by (auto simp: filter_mset_eq_conv entry_ok_def)
  moreover have "filter_mset (\<lambda>e. pe_priority e \<noteq> 0) (replicate_mset k zero_reg) = {#}" for k
    by (induction k) (simp_all add: zero_reg_def)
  ultimately have l: "mset (live s) = mset es" unfolding live_def mset_filter b by (simp add: zero_reg_def)
  have len: "length (live s) = length es" using l by (metis size_mset)
  have st: "set (live s) = set es" using l by (metis set_mset_mset)
  have "length (g_event_bin s) = FPCI_MAX_REG" using arg_cong [OF b, of size] n by (simp add: FPCI_MAX_REG_def)
  moreover have "unat (of_nat (length es) :: u32) = length es" using n by (simp add: FPCI_MAX_REG_def unat_of_nat)
  moreover have "set (g_event_bin s) \<subseteq> set es \<union> {zero_reg}"
    using arg_cong [OF b, of set_mset] by (auto split: if_splits)
  moreover have "distinct (map pe_evt_cb (live s))" using l d by (metis mset_eq_imp_distinct_iff mset_map)
  ultimately show ?thesis
    using l len st n s ok unfolding fpci_inv_def entry_ok_def by auto
qed

lemma sorted_inv:
  assumes "mset bin = mset es + replicate_mset (FPCI_MAX_REG - length es) zero_reg" and "length es < FPCI_MAX_REG"
    and "\<And>e. e \<in> set es \<Longrightarrow> entry_ok e" and "distinct (map pe_evt_cb es)"
    and "g_event_bin s = sort_FPCI bin" "g_event_bin_ctr s = of_nat (length es)"
  shows "fpci_inv s \<and> mset (live s) = mset es"
  by (rule table_inv) (use assms sort_FPCI_facts in simp_all)

lemma find_index_cases:
  assumes "fpci_inv s"
  obtains (found) i where "find_index P s = i" and "i < length (live s)" and "P (live s ! i)" and "g_event_bin s ! i = live s ! i"
  | (absent) "find_index P s = length (live s)" and "\<And>e. e \<in> set (live s) \<Longrightarrow> \<not> P e" and "g_event_bin s ! length (live s) = zero_reg"
proof -
  note lay = inv_layout [OF assms]
  have c: "unat (g_event_bin_ctr s) = length (live s)" "length (live s) < FPCI_MAX_REG" using assms by (simp_all add: fpci_inv_def)
  have nth: "g_event_bin s ! i = live s ! i" if "i < length (live s)" for i using lay that by (metis nth_append)
  show ?thesis
  proof (cases "find (\<lambda>i. P (g_event_bin s ! i)) [0 ..< length (live s)]")
    case None
    then have "\<not> P e" if "e \<in> set (live s)" for e using that nth by (fastforce simp: find_None_iff in_set_conv_nth)
    moreover have "g_event_bin s ! length (live s) = zero_reg" using c(2) by (subst lay) (simp add: nth_append)
    ultimately show ?thesis using None c(1) by (intro absent) (auto simp: find_index_def)
  next
    case (Some i)
    then have "find_index P s = i" using c(1) by (simp add: find_index_def)
    then show ?thesis using Some nth by (intro found [of i]) (auto simp: find_Some_iff)
  qed
qed

section \<open>Registration\<close>

lemma map_of_entries_upd:
  assumes "i < length es" and "distinct (map pe_evt_cb es)" and "pe_evt_cb e = pe_evt_cb (es ! i)"
  shows "map_of (map (\<lambda>e. (pe_evt_cb e, info_of e)) (es[i := e])) = (map_of (map (\<lambda>e. (pe_evt_cb e, info_of e)) es))(pe_evt_cb e \<mapsto> info_of e)"
    and "distinct (map pe_evt_cb (es[i := e]))"
proof -
  have c: "map pe_evt_cb (es[i := e]) = map pe_evt_cb es" using assms(1,3) by (metis list_update_id map_update nth_map)
  then show d: "distinct (map pe_evt_cb (es[i := e]))" using assms(2) by simp
  show "map_of (map (\<lambda>e. (pe_evt_cb e, info_of e)) (es[i := e])) = (map_of (map (\<lambda>e. (pe_evt_cb e, info_of e)) es))(pe_evt_cb e \<mapsto> info_of e)"
    using assms
  proof (induction es arbitrary: i)
    case (Cons x es)
    then show ?case by (cases i) (auto simp: fun_eq_iff, metis image_eqI nth_mem)
  qed simp
qed

lemma bin_mset:
  assumes "g_event_bin s = live s @ replicate (FPCI_MAX_REG - length (live s)) zero_reg" and "i < length (live s)"
  shows "mset ((g_event_bin s)[i := e]) = mset ((live s)[i := e]) + replicate_mset (FPCI_MAX_REG - length (live s)) zero_reg"
  by (subst assms(1)) (simp add: assms(2) list_update_append)

lemma bin_mset_new:
  assumes "g_event_bin s = live s @ replicate (FPCI_MAX_REG - length (live s)) zero_reg" and "length (live s) < FPCI_MAX_REG"
  shows "mset ((g_event_bin s)[length (live s) := e]) = mset (live s @ [e]) + replicate_mset (FPCI_MAX_REG - length (live s @ [e])) zero_reg"
proof -
  obtain k where k: "FPCI_MAX_REG - length (live s) = Suc k" using assms(2) by (metis Suc_diff_Suc)
  then have "FPCI_MAX_REG - length (live s @ [e]) = k" by simp
  then show ?thesis by (subst assms(1)) (simp add: k list_update_append)
qed

text \<open>C35: Registering a callback: with room in the table (fewer than fifteen entries), a mask of known
  events and a positive priority, the call succeeds, keeps the table sorted and free of
  duplicates, and adds the events to those of the callback, with the new priority and
  argument; no other callback is affected.\<close>

theorem fpci_reg_refines:
  assumes "fpci_inv s" and "cb \<noteq> NULL" and "m < PWR_EVT_WMAC_MAX" and "prio > 0" and "g_event_bin_ctr s < 15"
  shows "\<exists>s'. fpci_evt_cb_reg cb m prio args s = (FPCI_SUCCESS, s') \<and> fpci_inv s'
     \<and> registered s' = (registered s)(cb \<mapsto> ((case registered s cb of Some (m', _) \<Rightarrow> m' | None \<Rightarrow> 0) OR m, prio, args))"
proof -
  note lay = inv_layout [OF assms(1)]
  have c: "unat (g_event_bin_ctr s) = length (live s)" and d: "distinct (map pe_evt_cb (live s))" using assms(1) by (auto simp: fpci_inv_def)
  have n: "length (live s) < 15" using assms(5) c by (simp add: word_less_nat_alt)
  have ctr: "g_event_bin_ctr s = of_nat (length (live s))" using c by (metis of_nat_unat ucast_id)
  define i where "i = find_index (\<lambda>e. pe_evt_cb e = cb) s"
  define e where "e = g_event_bin s ! i"
  define e' where "e' = e\<lparr>pe_evt_cb := cb, pe_evt_mask := pe_evt_mask e OR m, pe_priority := prio, pe_p_args := args\<rparr>"
  define s' where "s' = s\<lparr>g_event_bin := sort_FPCI ((g_event_bin s)[i := e']),
     g_event_bin_ctr := (if i = unat (g_event_bin_ctr s) then g_event_bin_ctr s + 1 else g_event_bin_ctr s)\<rparr>"
  have run: "fpci_evt_cb_reg cb m prio args s = (FPCI_SUCCESS, s')"
    using assms(2-5) by (auto simp: fpci_evt_cb_reg_def FPCI_MAX_REG_def FPCI_MIN_PRIOR_def Let_def s'_def e'_def e_def i_def)
  have ok': "entry_ok e'" "pe_evt_cb e' = cb" "info_of e' = (pe_evt_mask e OR m, prio, args)"
    using assms(2,4) by (auto simp: e'_def entry_ok_def info_of_def)
  note reg = registered_live [OF assms(1)]
  from assms(1) show ?thesis
  proof (cases rule: find_index_cases [where P = "\<lambda>e. pe_evt_cb e = cb"])
    case (found j)
    then have ij: "i = j" "e = live s ! j" by (auto simp: i_def e_def)
    have j: "j < length (live s)" "pe_evt_cb e' = pe_evt_cb (live s ! j)" using found ok' by auto
    have "fpci_inv s' \<and> mset (live s') = mset ((live s)[j := e'])"
    proof (rule sorted_inv [OF _ _ _ map_of_entries_upd(2) [OF j(1) d j(2)]])
      show "mset ((g_event_bin s)[j := e']) = mset ((live s)[j := e']) + replicate_mset (FPCI_MAX_REG - length ((live s)[j := e'])) zero_reg"
        using bin_mset [OF lay j(1)] by simp
    qed (use n c j ctr ij ok'(1) live_ok [OF assms(1)] set_update_subset_insert [of "live s" j e'] in
        \<open>auto simp: s'_def FPCI_MAX_REG_def\<close>)
    moreover have "registered s cb = Some (info_of e)"
      using registered_nth [OF assms(1) j(1)] found(3) ij(2) by simp
    ultimately show ?thesis
      using run registered_mset [of s' "(live s)[j := e']"] map_of_entries_upd [OF j(1) d j(2)] reg ok'
      by (auto simp: info_of_def)
  next
    case absent
    then have i: "i = length (live s)" "e = zero_reg" by (auto simp: i_def e_def)
    have cb: "cb \<notin> pe_evt_cb ` set (live s)" using absent(2) by blast
    have "fpci_inv s' \<and> mset (live s') = mset (live s @ [e'])"
      by (rule sorted_inv [OF bin_mset_new [OF lay]])
        (use n c d i ctr ok' cb live_ok [OF assms(1)] in \<open>auto simp: s'_def FPCI_MAX_REG_def\<close>)
    moreover have none: "registered s cb = None" unfolding reg using cb by (auto simp: map_of_eq_None_iff)
    moreover have "distinct (map pe_evt_cb (live s @ [e']))" using d cb ok'(2) by auto
    ultimately have "registered s' = map_of (map (\<lambda>e. (pe_evt_cb e, info_of e)) (live s @ [e']))"
      using registered_mset [of s' "live s @ [e']"] by blast
    also have "\<dots> = (registered s)(cb \<mapsto> info_of e')"
      using none ok'(2) unfolding reg by (auto simp: fun_eq_iff map_add_def split: option.splits)
    finally show ?thesis using run \<open>fpci_inv s' \<and> _\<close> none ok'(3) i(2) by (simp add: zero_reg_def)
  qed
qed

text \<open>The table of the firmware at start-up, and after one registration.\<close>

lemma init_inv: "fpci_inv fpci_init" "registered fpci_init = Map.empty"
proof -
  have "fpci_inv fpci_init \<and> mset (live fpci_init) = mset []"
    by (rule table_inv) (simp_all add: fpci_init_def FPCI_MAX_REG_def sorted_wrt_iff_nth_less)
  then show "fpci_inv fpci_init" "registered fpci_init = Map.empty" by (simp_all add: registered_def fun_eq_iff)
qed

theorem fpci_reg_refines_witness:
  "\<exists>s'. fpci_evt_cb_reg 0x1000 6 3 0 fpci_init = (FPCI_SUCCESS, s') \<and> fpci_inv s' \<and> registered s' 0x1000 = Some (6, 3, 0)"
  using fpci_reg_refines [OF init_inv(1), of "0x1000" 6 3 0] init_inv(2)
  by (auto simp: PWR_EVT_WMAC_MAX_def fpci_init_def)

section \<open>Deregistration\<close>

lemma map_of_entries_del:
  "map_of (map (\<lambda>e. (pe_evt_cb e, info_of e)) (filter (\<lambda>e. pe_evt_cb e \<noteq> cb) es)) = (map_of (map (\<lambda>e. (pe_evt_cb e, info_of e)) es))(cb := None)"
  by (induction es) (auto simp: fun_eq_iff)

lemma remove_entry:
  assumes "j < length es" and "distinct (map pe_evt_cb es)" and "cb = pe_evt_cb (es ! j)"
  shows "mset (es[j := z]) = mset (filter (\<lambda>e. pe_evt_cb e \<noteq> cb) es) + {#z#}" and "Suc (length (filter (\<lambda>e. pe_evt_cb e \<noteq> cb) es)) = length es"
proof -
  obtain xs ys e where es: "es = xs @ e # ys" "length xs = j" "es ! j = e" using assms(1) by (metis id_take_nth_drop length_take min.absorb4 nth_append_length)
  have "cb \<notin> pe_evt_cb ` set xs" "cb \<notin> pe_evt_cb ` set ys" using assms(2,3) es(3) unfolding es(1) by auto
  then have "filter (\<lambda>e. pe_evt_cb e \<noteq> cb) xs = xs" "filter (\<lambda>e. pe_evt_cb e \<noteq> cb) ys = ys" by (auto simp: filter_id_conv)
  then have f: "filter (\<lambda>e. pe_evt_cb e \<noteq> cb) es = xs @ ys" using assms(3) es(3) unfolding es(1) by simp
  show "mset (es[j := z]) = mset (filter (\<lambda>e. pe_evt_cb e \<noteq> cb) es) + {#z#}" unfolding f using es(2) by (simp add: es(1) list_update_append)
  show "Suc (length (filter (\<lambda>e. pe_evt_cb e \<noteq> cb) es)) = length es" unfolding f by (simp add: es(1))
qed

lemma sorted_same_priority:
  assumes "sorted_wrt (\<lambda>x y. pe_priority x \<ge> pe_priority y) xs" and "i < length xs" and "pe_priority e = pe_priority (xs ! i)"
  shows "sorted_wrt (\<lambda>x y. pe_priority x \<ge> pe_priority y) (xs[i := e])"
proof -
  have same: "map pe_priority (xs[i := e]) = map pe_priority xs" using assms(2,3) by (metis list_update_id map_update nth_map)
  have e: "sorted_wrt (\<lambda>x y. pe_priority x \<ge> pe_priority y) ys \<longleftrightarrow> sorted_wrt (\<ge>) (map pe_priority ys)" for ys
    by (simp add: sorted_wrt_map)
  show ?thesis using assms(1) unfolding e same .
qed

text \<open>Deregistering a callback from events it is registered for removes exactly these events; when
  none is left its entry goes, and with it its priority. The other callbacks keep theirs, and
  the table its invariant.\<close>

theorem fpci_dereg_refines:
  assumes "fpci_inv s" and "cb \<noteq> NULL" and "m < PWR_EVT_WMAC_MAX" and "registered s cb = Some (m', prio, args)" and "m' AND m \<noteq> 0"
  shows "\<exists>s'. fpci_evt_cb_dereg cb m s = Some (FPCI_SUCCESS, s') \<and> fpci_inv s'
     \<and> registered s' = (registered s)(cb := if m' AND NOT m = 0 then None else Some (m' AND NOT m, prio, args))"
proof -
  note lay = inv_layout [OF assms(1)] and reg = registered_live [OF assms(1)]
  have c: "unat (g_event_bin_ctr s) = length (live s)" "length (live s) < FPCI_MAX_REG" and d: "distinct (map pe_evt_cb (live s))"
    and bl: "length (g_event_bin s) = FPCI_MAX_REG" and st: "sorted_wrt (\<lambda>x y. pe_priority x \<ge> pe_priority y) (g_event_bin s)"
    using assms(1) by (auto simp: fpci_inv_def)
  have ctr: "g_event_bin_ctr s = of_nat (length (live s))" using c(1) by (metis of_nat_unat ucast_id)
  let ?P = "\<lambda>e. pe_evt_cb e = cb \<and> pe_evt_mask e AND m \<noteq> 0"
  obtain e0 where e0: "e0 \<in> set (live s)" "pe_evt_cb e0 = cb" "info_of e0 = (m', prio, args)"
    using map_of_SomeD [OF assms(4) [unfolded reg]] by auto
  then have "?P e0" using assms(5) by (simp add: info_of_def)
  from assms(1) obtain j where j: "find_index ?P s = j" "j < length (live s)" "?P (live s ! j)" "g_event_bin s ! j = live s ! j"
    by (cases rule: find_index_cases [where P = ?P]) (use e0(1) \<open>?P e0\<close> in blast)+
  define e where "e = live s ! j"
  have e: "pe_evt_cb e = cb" "info_of e = (m', prio, args)"
    using registered_nth [OF assms(1) j(2)] assms(4) j(3) by (simp_all add: e_def)
  define e' where "e' = e\<lparr>pe_evt_mask := pe_evt_mask e AND NOT m\<rparr>"
  have e': "pe_evt_cb e' = pe_evt_cb (live s ! j)" "info_of e' = (m' AND NOT m, prio, args)" "entry_ok e'" "pe_evt_mask e' = m' AND NOT m"
    using e live_ok [OF assms(1) nth_mem [OF j(2)]] by (auto simp: e'_def info_of_def e_def entry_ok_def)
  have jm: "j < FPCI_MAX_REG" using j(2) c(2) by simp
  have run: "fpci_evt_cb_dereg cb m s = (if m' AND NOT m = 0
      then Some (FPCI_SUCCESS, s\<lparr>g_event_bin := sort_FPCI ((g_event_bin s)[j := zero_reg]), g_event_bin_ctr := g_event_bin_ctr s - 1\<rparr>)
      else Some (FPCI_SUCCESS, s\<lparr>g_event_bin := (g_event_bin s)[j := e']\<rparr>))"
    using assms(2,3) j e' c(1) jm unfolding fpci_evt_cb_dereg_def by (auto simp: Let_def e'_def e_def)
  show ?thesis
  proof (cases "m' AND NOT m = 0")
    case True
    define es where "es = filter (\<lambda>x. pe_evt_cb x \<noteq> cb) (live s)"
    define s' where "s' = s\<lparr>g_event_bin := sort_FPCI ((g_event_bin s)[j := zero_reg]), g_event_bin_ctr := g_event_bin_ctr s - 1\<rparr>"
    note rm = remove_entry [OF j(2) d, of cb, folded es_def]
    have len: "length (live s) = Suc (length es)" using rm(2) j(3) by simp
    have "mset ((g_event_bin s)[j := zero_reg]) = mset es + replicate_mset (FPCI_MAX_REG - length es) zero_reg"
      using bin_mset [OF lay j(2), of zero_reg] rm(1) [of zero_reg] j(3) c(2) len by (simp add: Suc_diff_Suc flip: replicate_mset_Suc)
    then have "fpci_inv s' \<and> mset (live s') = mset es"
      by (rule sorted_inv)
        (use c(2) len ctr d live_ok [OF assms(1)] in \<open>auto simp: es_def s'_def distinct_map_filter\<close>)
    moreover have "distinct (map pe_evt_cb es)" using d by (simp add: es_def distinct_map_filter)
    ultimately have "registered s' = (registered s)(cb := None)" "fpci_inv s'"
      using registered_mset [of s' es] map_of_entries_del [of cb "live s"] by (simp_all add: es_def reg)
    then show ?thesis using run True by (simp add: s'_def)
  next
    case False
    define s' where "s' = s\<lparr>g_event_bin := (g_event_bin s)[j := e']\<rparr>"
    have "pe_priority e' = pe_priority (g_event_bin s ! j)" using j(4) by (simp add: e'_def e_def)
    then have so: "sorted_wrt (\<lambda>x y. pe_priority x \<ge> pe_priority y) (g_event_bin s')"
      unfolding s'_def using sorted_same_priority [OF st, of j e'] jm bl by simp
    have "fpci_inv s' \<and> mset (live s') = mset ((live s)[j := e'])"
      by (rule table_inv [OF _ _ _ map_of_entries_upd(2) [OF j(2) d e'(1)] so])
        (use bin_mset [OF lay j(2), of e'] c ctr e'(3) live_ok [OF assms(1)] set_update_subset_insert [of "live s" j e'] in
          \<open>auto simp: s'_def\<close>)
    then have "fpci_inv s'" "registered s' = (registered s)(cb \<mapsto> (m' AND NOT m, prio, args))"
      using registered_mset [of s' "(live s)[j := e']"] map_of_entries_upd [OF j(2) d e'(1)] reg e' j(3) by auto
    then show ?thesis using run False by (simp add: s'_def)
  qed
qed

definition demo_reg :: pwr_evt_reg where
  "demo_reg = \<lparr>pe_evt_mask = 6, pe_priority = 3, pe_evt_cb = 0x1000, pe_p_args = 0\<rparr>"

definition demo_fpci :: fpci where
  "demo_fpci = snd (fpci_evt_cb_reg 0x1000 6 3 0 fpci_init)"

lemma demo_fpci: "fpci_inv demo_fpci" "registered demo_fpci = [0x1000 \<mapsto> (6, 3, 0)]" "live demo_fpci = [demo_reg]"
proof -
  have z: "replicate FPCI_MAX_REG zero_reg = zero_reg # replicate 15 zero_reg" by (simp add: FPCI_MAX_REG_def numeral_eq_Suc)
  have e: "demo_fpci = \<lparr>g_event_bin = sort_FPCI (demo_reg # replicate 15 zero_reg), g_event_bin_ctr = 1\<rparr>"
    by (simp add: demo_fpci_def fpci_evt_cb_reg_def fpci_init_def z PWR_EVT_WMAC_MAX_def FPCI_MIN_PRIOR_def find_index_def demo_reg_def)
      (simp add: zero_reg_def FPCI_MAX_REG_def)
  have "fpci_inv demo_fpci \<and> mset (live demo_fpci) = mset [demo_reg]"
    by (rule sorted_inv [of "demo_reg # replicate 15 zero_reg"]) (simp_all add: e FPCI_MAX_REG_def entry_ok_def demo_reg_def)
  then show "fpci_inv demo_fpci" "registered demo_fpci = [0x1000 \<mapsto> (6, 3, 0)]" "live demo_fpci = [demo_reg]"
    using registered_mset [of demo_fpci "[demo_reg]"] by (auto simp: info_of_def demo_reg_def)
qed

theorem fpci_dereg_refines_witness:
  "\<exists>s'. fpci_evt_cb_dereg 0x1000 2 demo_fpci = Some (FPCI_SUCCESS, s') \<and> fpci_inv s' \<and> registered s' = [0x1000 \<mapsto> (4, 3, 0)]"
  using fpci_dereg_refines [OF demo_fpci(1), of "0x1000" 2 6 3 0] by (auto simp: demo_fpci(2) PWR_EVT_WMAC_MAX_def)

section \<open>Dispatch\<close>

lemma dispatch_live:
  assumes inv: "fpci_inv s" and call: "\<And>c v a w. fst (call c v a (s, w)) = s" and sw: "fst sw = s"
  shows "i \<le> length (live s) \<Longrightarrow> dispatch_loop call evt i sw
     = Some (fold (\<lambda>e. call (pe_evt_cb e) (ucast evt) (pe_p_args e)) (filter (\<lambda>e. pe_evt_mask e AND evt \<noteq> 0) (drop i (live s))) sw)"
  using sw
proof (induction "length (live s) - i" arbitrary: i sw)
  case 0
  have c: "unat (g_event_bin_ctr s) = length (live s)" using inv by (simp add: fpci_inv_def)
  show ?case using 0 c by (subst dispatch_loop.simps) simp
next
  case (Suc k)
  have c: "unat (g_event_bin_ctr s) = length (live s)" "length (live s) < FPCI_MAX_REG" using inv by (simp_all add: fpci_inv_def)
  have i: "i < length (live s)" using Suc.hyps(2) by simp
  have nth: "g_event_bin s ! i = live s ! i" using inv_layout [OF inv] i by (metis nth_append)
  have cb: "pe_evt_cb (live s ! i) \<noteq> NULL" using live_ok [OF inv nth_mem [OF i]] by (simp add: entry_ok_def)
  have f: "fst (call a v b sw) = s" for a v b using call [of a v b "snd sw"] Suc.prems(2) by (metis prod.collapse)
  have d: "drop i (live s) = live s ! i # drop (Suc i) (live s)" using i by (simp add: Cons_nth_drop_Suc)
  have IH: "dispatch_loop call evt (Suc i) sw'
     = Some (fold (\<lambda>e. call (pe_evt_cb e) (ucast evt) (pe_p_args e)) (filter (\<lambda>e. pe_evt_mask e AND evt \<noteq> 0) (drop (Suc i) (live s))) sw')"
    if "fst sw' = s" for sw' using Suc.hyps i that by simp
  show ?case
    by (subst dispatch_loop.simps) (use i c nth cb f d Suc.prems(2) IH in \<open>simp add: Let_def\<close>)
qed

text \<open>C12: In a state with the registration invariant \<open>fpci_inv\<close> (the entries sorted by
  falling priority with the free ones zeroed behind, distinct callbacks, the count right and one
  entry free: the initial state has it and registration keeps it, deregistering a callback that
  is not registered loses it) an event calls exactly the callbacks registered for it, each once with
  its own argument, in order of falling priority, for callbacks that do not change the
  registrations.\<close>

theorem fpci_dispatch_by_priority:
  assumes "fpci_inv s" and "evt < PWR_EVT_WMAC_MAX" and "\<And>c v a w. fst (call c v a (s, w)) = s"
  shows "\<exists>es. fpci_evt_dispatch call evt (s, w) = Some (FPCI_SUCCESS, fold (\<lambda>(cb, args). call cb (ucast evt) args) es (s, w))
     \<and> distinct (map fst es)
     \<and> (\<forall>cb args. (cb, args) \<in> set es \<longleftrightarrow> (\<exists>m prio. registered s cb = Some (m, prio, args) \<and> m AND evt \<noteq> 0))
     \<and> sorted_wrt (\<lambda>x y. fst (snd (the (registered s (fst x)))) \<ge> fst (snd (the (registered s (fst y))))) es"
proof -
  define ls where "ls = filter (\<lambda>e. pe_evt_mask e AND evt \<noteq> 0) (live s)"
  define es where "es = map (\<lambda>e. (pe_evt_cb e, pe_p_args e)) ls"
  have d: "distinct (map pe_evt_cb (live s))" using assms(1) by (simp add: fpci_inv_def)
  have reg: "registered s cb = Some v \<longleftrightarrow> (\<exists>e \<in> set (live s). pe_evt_cb e = cb \<and> info_of e = v)" for cb v
    unfolding registered_live [OF assms(1)] using d by (subst map_of_eq_Some_iff) (auto simp: comp_def)
  have "fold (\<lambda>e. call (pe_evt_cb e) (ucast evt) (pe_p_args e)) ls (s, w) = fold (\<lambda>(cb, args). call cb (ucast evt) args) es (s, w)"
    unfolding es_def by (simp add: fold_map comp_def)
  then have run: "fpci_evt_dispatch call evt (s, w) = Some (FPCI_SUCCESS, fold (\<lambda>(cb, args). call cb (ucast evt) args) es (s, w))"
    using dispatch_live [where call = call and sw = "(s, w)" and s = s and i = 0 and evt = evt, OF assms(1) assms(3)] assms(2) by (simp add: fpci_evt_dispatch_def ls_def)
  have dist: "distinct (map fst es)" using d by (simp add: es_def ls_def comp_def distinct_map_filter)
  have mem: "(cb, args) \<in> set es \<longleftrightarrow> (\<exists>m prio. registered s cb = Some (m, prio, args) \<and> m AND evt \<noteq> 0)" for cb args
    unfolding reg by (auto simp: es_def ls_def info_of_def image_iff)
  have "sorted_wrt (\<lambda>x y. pe_priority x \<ge> pe_priority y) ls"
    using assms(1) by (simp add: ls_def live_def fpci_inv_def sorted_wrt_filter)
  moreover have "fst (snd (the (registered s (pe_evt_cb e)))) = pe_priority e" if "e \<in> set ls" for e
  proof -
    have "registered s (pe_evt_cb e) = Some (info_of e)" unfolding reg using that by (auto simp: ls_def)
    then show ?thesis by (simp add: info_of_def)
  qed
  ultimately have "sorted_wrt (\<lambda>x y. fst (snd (the (registered s (fst x)))) \<ge> fst (snd (the (registered s (fst y))))) es"
    unfolding es_def sorted_wrt_map by (simp add: sorted_wrt_mono_rel [of ls "\<lambda>x y. pe_priority x \<ge> pe_priority y"])
  with run dist mem show ?thesis by blast
qed

theorem fpci_dispatch_by_priority_witness:
  "\<exists>es. fpci_evt_dispatch (\<lambda>c v a (s, w). (s, c # w)) 4 (demo_fpci, []) = Some (FPCI_SUCCESS, fold (\<lambda>(cb, args) (s, w). (s, cb # w)) es (demo_fpci, []))
     \<and> (0x1000, 0 :: addr) \<in> set es"
proof -
  obtain es where es: "fpci_evt_dispatch (\<lambda>c v a (s, w). (s, c # w)) 4 (demo_fpci, [])
        = Some (FPCI_SUCCESS, fold (\<lambda>(cb, args). (\<lambda>c v a (s, w). (s, c # w)) cb (ucast (4 :: u16)) args) es (demo_fpci, []))"
      "\<And>cb args. (cb, args) \<in> set es \<longleftrightarrow> (\<exists>m prio. registered demo_fpci cb = Some (m, prio, args) \<and> m AND 4 \<noteq> 0)"
    using fpci_dispatch_by_priority [OF demo_fpci(1), of 4 "\<lambda>c v a (s, w). (s, c # w)" "[]"] by (auto simp: PWR_EVT_WMAC_MAX_def)
  then have "(0x1000, 0) \<in> set es" by (simp add: demo_fpci(2))
  with es(1) show ?thesis by (intro exI [of _ es]) simp
qed

section \<open>Deregistering what is not registered\<close>

lemma dispatch_zeros:
  assumes "g_event_bin (fst sw) = replicate FPCI_MAX_REG zero_reg" and "unat (g_event_bin_ctr (fst sw)) > FPCI_MAX_REG"
    and "i \<le> FPCI_MAX_REG"
  shows "dispatch_loop call evt i sw = None"
  using assms(3)
proof (induction "FPCI_MAX_REG - i" arbitrary: i)
  case 0
  then show ?case using assms(2) by (subst dispatch_loop.simps) auto
next
  case (Suc k)
  then have "i < FPCI_MAX_REG" "dispatch_loop call evt (Suc i) sw = None" by simp_all
  then show ?case using assms(1,2) by (subst dispatch_loop.simps) (simp add: zero_reg_def)
qed

lemma last_of_sorted:
  assumes "sorted_wrt (\<lambda>x y. pe_priority x \<ge> pe_priority y) xs" and "xs \<noteq> []" and "x \<in> set xs"
  shows "pe_priority (last xs) \<le> pe_priority x"
proof -
  obtain ys y where "xs = ys @ [y]" using assms(2) by (metis append_butlast_last_id)
  then show ?thesis using assms(1,3) by (auto simp: sorted_wrt_append)
qed

text \<open>Deregistering a callback from events it is not registered for reports success and loses
  another registration: the counter goes down although nothing was removed, so the entry of
  lowest priority falls out of the table. On an empty table the counter wraps around and the
  next event reads beyond the table.\<close>

theorem fpci_dereg_unknown_drops:
  assumes "fpci_inv s" and "cb \<noteq> NULL" and "m < PWR_EVT_WMAC_MAX"
    and "case registered s cb of Some (m', _) \<Rightarrow> m' AND m = 0 | None \<Rightarrow> True"
  shows "\<exists>s'. fpci_evt_cb_dereg cb m s = Some (FPCI_SUCCESS, s')
     \<and> (if live s = [] then g_event_bin_ctr s' = 0xFFFFFFFF \<and> (\<forall>call w. fpci_evt_dispatch call 2 (s', w) = None)
        else \<exists>e \<in> set (live s). (\<forall>x \<in> set (live s). pe_priority e \<le> pe_priority x)
               \<and> mset (take (unat (g_event_bin_ctr s')) (g_event_bin s')) = mset (live s) - {#e#})"
proof -
  note lay = inv_layout [OF assms(1)]
  have c: "unat (g_event_bin_ctr s) = length (live s)" "length (live s) < FPCI_MAX_REG" using assms(1) by (auto simp: fpci_inv_def)
  have ctr: "g_event_bin_ctr s = of_nat (length (live s))" using c(1) by (metis of_nat_unat ucast_id)
  let ?P = "\<lambda>e. pe_evt_cb e = cb \<and> pe_evt_mask e AND m \<noteq> 0"
  have no: "\<not> ?P (live s ! j)" if "j < length (live s)" for j
    using registered_nth [OF assms(1) that] assms(4) by (auto simp: info_of_def)
  from assms(1) have i: "find_index ?P s = length (live s)" "g_event_bin s ! length (live s) = zero_reg"
    by (cases rule: find_index_cases [where P = ?P]; use no in auto)+
  define s' where "s' = s\<lparr>g_event_bin := sort_FPCI (g_event_bin s), g_event_bin_ctr := g_event_bin_ctr s - 1\<rparr>"
  have "(g_event_bin s)[length (live s) := zero_reg] = g_event_bin s" using i(2) by (metis list_update_id)
  then have run: "fpci_evt_cb_dereg cb m s = Some (FPCI_SUCCESS, s')"
    using assms(2,3) i c unfolding fpci_evt_cb_dereg_def s'_def by (simp add: Let_def not_le zero_reg_def)
  show ?thesis
  proof (cases "live s = []")
    case True
    then have z: "g_event_bin s = replicate FPCI_MAX_REG zero_reg" using lay by simp
    have "mset (sort_FPCI (g_event_bin s)) = replicate_mset FPCI_MAX_REG zero_reg" using z by (simp add: sort_FPCI_facts)
    then have "set (sort_FPCI (g_event_bin s)) \<subseteq> {zero_reg}" "length (sort_FPCI (g_event_bin s)) = FPCI_MAX_REG"
      by (metis set_mset_mset set_mset_replicate_mset_subset order_refl insert_subset empty_subsetI, metis size_mset size_replicate_mset)
    then have "g_event_bin s' = replicate FPCI_MAX_REG zero_reg" by (auto simp: s'_def intro!: replicate_eqI)
    moreover have "g_event_bin_ctr s' = 0xFFFFFFFF" using True ctr by (simp add: s'_def)
    moreover have "unat (g_event_bin_ctr s') > FPCI_MAX_REG" using calculation(2) by (simp add: FPCI_MAX_REG_def)
    ultimately show ?thesis
      using run True by (auto simp: fpci_evt_dispatch_def PWR_EVT_WMAC_MAX_def intro!: dispatch_zeros)
  next
    case False
    have "fpci_inv (s\<lparr>g_event_bin := sort_FPCI (g_event_bin s)\<rparr>) \<and> mset (live (s\<lparr>g_event_bin := sort_FPCI (g_event_bin s)\<rparr>)) = mset (live s)"
    proof (rule sorted_inv [of "g_event_bin s"])
      show "mset (g_event_bin s) = mset (live s) + replicate_mset (FPCI_MAX_REG - length (live s)) zero_reg" by (subst lay) simp
    qed (use c ctr assms(1) in \<open>auto simp: fpci_inv_def intro: live_ok [OF assms(1)]\<close>)
    then have q: "fpci_inv (s\<lparr>g_event_bin := sort_FPCI (g_event_bin s)\<rparr>)"
        "mset (live (s\<lparr>g_event_bin := sort_FPCI (g_event_bin s)\<rparr>)) = mset (live s)" by auto
    define ls where "ls = live (s\<lparr>g_event_bin := sort_FPCI (g_event_bin s)\<rparr>)"
    have ls: "mset ls = mset (live s)" "sort_FPCI (g_event_bin s) = ls @ replicate (FPCI_MAX_REG - length ls) zero_reg"
      using q(2) inv_layout [OF q(1)] unfolding ls_def by simp_all
    have n: "length ls = length (live s)" "ls \<noteq> []" "set ls = set (live s)" using ls(1) False by (metis size_mset, auto, metis set_mset_mset, metis set_mset_mset)
    have "sorted_wrt (\<lambda>x y. pe_priority x \<ge> pe_priority y) ls"
      using sort_FPCI_facts(2) [of "g_event_bin s"] unfolding ls(2) by (simp add: sorted_wrt_append)
    then have low: "\<forall>x \<in> set (live s). pe_priority (last ls) \<le> pe_priority x" using last_of_sorted n by blast
    have "0 < unat (g_event_bin_ctr s)" using c(1) n(1,2) by (cases ls) auto
    then have "(1 :: u32) \<le> g_event_bin_ctr s" by (simp add: word_le_nat_alt)
    then have "unat (g_event_bin_ctr s') = length ls - 1" using n(1) c(1) by (simp add: s'_def unat_sub)
    then have "take (unat (g_event_bin_ctr s')) (g_event_bin s') = butlast ls" using ls(2) by (simp add: s'_def butlast_conv_take)
    moreover have "mset ls = add_mset (last ls) (mset (butlast ls))" using n(2) by (metis append_butlast_last_id mset_append mset_single_iff_right union_mset_add_mset_right add.right_neutral)
    ultimately show ?thesis using run False low n ls(1) by (auto intro!: bexI [of _ "last ls"])
  qed
qed

theorem fpci_dereg_unknown_drops_witness:
  "\<exists>s'. fpci_evt_cb_dereg 0x2000 2 demo_fpci = Some (FPCI_SUCCESS, s') \<and> take (unat (g_event_bin_ctr s')) (g_event_bin s') = []"
  using fpci_dereg_unknown_drops [OF demo_fpci(1), of "0x2000" 2]
  by (auto simp: demo_fpci(2,3) PWR_EVT_WMAC_MAX_def)

end
