(* ===== verification/Nvm_Flash.thy ===== *)
theory Nvm_Flash
  imports Flash_Props Nvm_Rram
begin

text \<open>
  The NOR flash back end of the JTAG programmer, \<^verbatim>\<open>qprgd/src/nvm_flash.c\<close>, on top of the flash
  driver (\<open>Flash\<close>). Its own state is the size of the device, the flag that the driver is
  initialised and the block of ones that blocks are compared with. As in the driver,
  \<open>None\<close> stands for a call that does not return.
\<close>

section \<open>State\<close>

record 'd nvm_flash =
  nf_density_in_blocks :: u32
  nf_flash_inited :: bool
  nf_comparative_buffer :: bytes
  nf_drv :: "'d flash"

text \<open>The values of the driver's status codes, as the programmer returns them.\<close>

fun flash_code :: "flash_status \<Rightarrow> int" where
  "flash_code FLASH_DEVICE_DONE = 0"
| "flash_code FLASH_DEVICE_FAIL = 1"
| "flash_code FLASH_DEVICE_INVALID_PARAMETER = 3"
| "flash_code FLASH_DEVICE_NOT_FOUND = 5"
| "flash_code FLASH_DEVICE_BUSY = 8"

section \<open>Operations\<close>

definition flash_init :: "'d qspi_bus \<Rightarrow> 'd nvm_flash \<Rightarrow> (int \<times> 'd nvm_flash) option" where
  "flash_init bus f =
     (if nf_flash_inited f then Some (QAPI_OK, f)
      else do {
        (status, drv) \<leftarrow> drv_flash_init bus (nf_drv f);
        let f = f\<lparr>nf_drv := drv\<rparr>;
        if flash_code status \<noteq> QAPI_OK then Some (QAPI_ERROR, f)
        else
          let (status, f) = (case drv_flash_get_config drv of
                Some flash_config \<Rightarrow> (flash_code status, f\<lparr>nf_density_in_blocks := fc_density_in_blocks flash_config\<rparr>)
              | None \<Rightarrow> (QAPI_ERROR, f))
          in Some (status, f\<lparr>nf_comparative_buffer := replicate (unat BLOCK_SIZE_IN_BYTES) 0xFF, nf_flash_inited := True\<rparr>)
      })"

definition flash_verify_address :: "u32 \<Rightarrow> u32 \<Rightarrow> 'd nvm_flash \<Rightarrow> bool" where
  "flash_verify_address address len f \<longleftrightarrow>
     address \<le> nf_density_in_blocks f * BLOCK_SIZE_IN_BYTES
     \<and> address mod BLOCK_SIZE_IN_BYTES = 0
     \<and> (nf_density_in_blocks f * BLOCK_SIZE_IN_BYTES - address) + 1 \<ge> len"

text \<open>A read is split at the block boundaries.\<close>

definition slice_size :: "u32 \<Rightarrow> u32 \<Rightarrow> u32" where
  "slice_size address byte_cnt =
     (if address mod BLOCK_SIZE_IN_BYTES \<noteq> 0 then
        (let read_size = BLOCK_SIZE_IN_BYTES - address mod BLOCK_SIZE_IN_BYTES
         in if read_size > byte_cnt then byte_cnt else read_size)
      else if byte_cnt > BLOCK_SIZE_IN_BYTES then BLOCK_SIZE_IN_BYTES else byte_cnt)"

lemma slice_size_bounds:
  assumes "byte_cnt \<noteq> 0"
  shows "0 < slice_size address byte_cnt" and "slice_size address byte_cnt \<le> byte_cnt"
proof -
  have "address mod BLOCK_SIZE_IN_BYTES < BLOCK_SIZE_IN_BYTES"
    by (simp add: BLOCK_SIZE_IN_BYTES_def word_less_nat_alt unat_mod_distrib)
  then have "0 < BLOCK_SIZE_IN_BYTES - address mod BLOCK_SIZE_IN_BYTES"
    by (simp add: word_less_nat_alt unat_sub word_le_nat_alt)
  then show "0 < slice_size address byte_cnt"
    using assms by (simp add: slice_size_def Let_def word_neq_0_conv BLOCK_SIZE_IN_BYTES_def)
  show "slice_size address byte_cnt \<le> byte_cnt"
    by (auto simp: slice_size_def Let_def not_less)
qed

text \<open>\<open>acc\<close> is what the slices before have stored in the buffer.\<close>

function flash_read_loop ::
    "'d qspi_bus \<Rightarrow> u32 \<Rightarrow> u32 \<Rightarrow> int \<Rightarrow> bytes \<Rightarrow> 'd nvm_flash \<Rightarrow> (int \<times> bytes \<times> 'd nvm_flash) option" where
  "flash_read_loop bus address byte_cnt status acc f =
     (if byte_cnt = 0 then Some (status, acc, f)
      else
        let read_size = slice_size address byte_cnt
        in do {
          (st, bs, drv) \<leftarrow> drv_flash_read bus address read_size True False (nf_drv f);
          let f = f\<lparr>nf_drv := drv\<rparr>;
          if flash_code st \<noteq> QAPI_OK then Some (flash_code st, acc @ bs, f)
          else flash_read_loop bus (address + read_size) (byte_cnt - read_size) (flash_code st) (acc @ bs) f
        })"
  by pat_completeness auto

termination
proof (relation "measure (\<lambda>(bus, a, byte_cnt, st, acc, f). unat byte_cnt)", goal_cases)
  case (2 bus a byte_cnt st acc f n z y st' bs drv f')
  then have "0 < unat (slice_size a byte_cnt)" "unat (slice_size a byte_cnt) \<le> unat byte_cnt"
    using slice_size_bounds [of byte_cnt a] by (simp_all add: word_less_nat_alt word_le_nat_alt)
  then show ?case using 2 by (simp add: unat_sub word_le_nat_alt)
qed simp

declare flash_read_loop.simps [simp del]

definition flash_read :: "'d qspi_bus \<Rightarrow> u32 \<Rightarrow> u32 \<Rightarrow> 'd nvm_flash \<Rightarrow> (int \<times> bytes \<times> 'd nvm_flash) option" where
  "flash_read bus address len f = flash_read_loop bus address len QAPI_OK [] f"

text \<open>The loop over the blocks: a block that is not all ones has the whole range erased.\<close>

partial_function (option) check_erase_loop ::
    "'d qspi_bus \<Rightarrow> u32 \<Rightarrow> u32 \<Rightarrow> u32 \<Rightarrow> u32 \<Rightarrow> int \<Rightarrow> 'd nvm_flash \<Rightarrow> (int \<times> 'd nvm_flash) option" where
  "check_erase_loop bus start_block block_num offset end_offset result f =
     (if offset < end_offset then
        Option.bind (flash_read bus offset BLOCK_SIZE_IN_BYTES f) (\<lambda>(result, erase_read_buffer, f).
          if result \<noteq> 0 then Some (result, f)
          else if erase_read_buffer \<noteq> nf_comparative_buffer f then
            Option.bind (drv_flash_erase bus FLASH_BLOCK_ERASE_E start_block block_num (nf_drv f)) (\<lambda>(st, drv).
              if flash_code st \<noteq> 0 then Some (flash_code st, f\<lparr>nf_drv := drv\<rparr>)
              else check_erase_loop bus start_block block_num (offset + BLOCK_SIZE_IN_BYTES) end_offset (flash_code st)
                     (f\<lparr>nf_drv := drv\<rparr>))
          else check_erase_loop bus start_block block_num (offset + BLOCK_SIZE_IN_BYTES) end_offset result f)
      else Some (result, f))"

definition flash_partial_check_erase :: "'d qspi_bus \<Rightarrow> u32 \<Rightarrow> u32 \<Rightarrow> 'd nvm_flash \<Rightarrow> (int \<times> 'd nvm_flash) option" where
  "flash_partial_check_erase bus start_addr len f =
     (if \<not> flash_verify_address start_addr len f then Some (QAPI_ERR_BOUNDS, f)
      else
        let start_block = start_addr div BLOCK_SIZE_IN_BYTES;
            end_block = (start_addr + len - 1) div BLOCK_SIZE_IN_BYTES;
            block_num = end_block - start_block + 1
        in if block_num = 0 then Some (0, f)
           else
             let offset = start_block * BLOCK_SIZE_IN_BYTES;
                 end_offset = offset + block_num * BLOCK_SIZE_IN_BYTES
             in check_erase_loop bus start_block block_num offset end_offset 0 f)"

definition flash_partial_erase :: "'d qspi_bus \<Rightarrow> u32 \<Rightarrow> u32 \<Rightarrow> 'd nvm_flash \<Rightarrow> (int \<times> 'd nvm_flash) option" where
  "flash_partial_erase bus start_addr len f =
     (if \<not> flash_verify_address start_addr len f then Some (QAPI_ERR_BOUNDS, f)
      else
        let start_block = start_addr div BLOCK_SIZE_IN_BYTES;
            end_block = (start_addr + len - 1) div BLOCK_SIZE_IN_BYTES;
            block_num = end_block - start_block + 1
        in do {
          (st, drv) \<leftarrow> drv_flash_erase bus FLASH_BLOCK_ERASE_E start_block block_num (nf_drv f);
          Some (flash_code st, f\<lparr>nf_drv := drv\<rparr>)
        })"

definition flash_chip_erase :: "'d qspi_bus \<Rightarrow> 'd nvm_flash \<Rightarrow> (int \<times> 'd nvm_flash) option" where
  "flash_chip_erase bus f =
     do {
       (st, drv) \<leftarrow> drv_flash_erase bus FLASH_CHIP_ERASE_E 0 1 (nf_drv f);
       Some (flash_code st, f\<lparr>nf_drv := drv\<rparr>)
     }"

definition flash_write :: "'d qspi_bus \<Rightarrow> u32 \<Rightarrow> bytes \<Rightarrow> u32 \<Rightarrow> 'd nvm_flash \<Rightarrow> (int \<times> 'd nvm_flash) option" where
  "flash_write bus destination source len f =
     do {
       (status, f) \<leftarrow> flash_partial_check_erase bus destination len f;
       if status \<noteq> QAPI_OK then Some (status, f)
       else if length source < unat len then None
       else do {
         (st, drv) \<leftarrow> drv_flash_write bus destination len (Some source) False (nf_drv f);
         Some (flash_code st, f\<lparr>nf_drv := drv\<rparr>)
       }
     }"

end
