(* ===== verification/Nvm_Programmer.thy ===== *)
theory Nvm_Programmer
  imports Nvm_Flash Nvm_Rram_Correct
begin

text \<open>
  The JTAG programmer, \<^verbatim>\<open>qprgd/src/nvm_programmer.c\<close>: a debugger writes a command with its
  parameters into \<open>JTAG_Param\<close>, lets \<open>JTAG_Run\<close> run once and reads the answer from the same
  place. \<open>JTAG_Param\<close> is a union: the word of the command is the word of the status, and the
  address parameter is the address returned. The back ends (RRAM, NOR flash, OTP) are called
  through four function pointers, a NULL pointer being \<open>None\<close>. Printing is left out. A
  result \<open>None\<close> of an operation means that it does not return or is undefined: a call
  through NULL, an access past the end of a buffer, a failed assertion, an endless wait.
\<close>

section \<open>Constants\<close>

definition BUFFER_SIZE :: u32 where "BUFFER_SIZE = 4096 * 4"

definition JTAG_COMMAND_PROGRAM :: u32 where "JTAG_COMMAND_PROGRAM = 1"
definition JTAG_COMMAND_CHIP_ERASE :: u32 where "JTAG_COMMAND_CHIP_ERASE = 5"
definition JTAG_COMMAND_COMPUTE_CRC :: u32 where "JTAG_COMMAND_COMPUTE_CRC = 0x41"
definition JTAG_COMMAND_READ :: u32 where "JTAG_COMMAND_READ = 0x43"
definition JTAG_COMMAND_PARTIAL_ERASE :: u32 where "JTAG_COMMAND_PARTIAL_ERASE = 0x45"
definition JTAG_COMMAND_SYSTEM_RESET :: u32 where "JTAG_COMMAND_SYSTEM_RESET = 0x47"
definition JTAG_COMMAND_OTP_WRITE :: u32 where "JTAG_COMMAND_OTP_WRITE = 0x51"
definition JTAG_COMMAND_OTP_READ :: u32 where "JTAG_COMMAND_OTP_READ = 0x52"

definition JTAG_STATUS_NO_ERROR :: u32 where "JTAG_STATUS_NO_ERROR = 0"
definition JTAG_STATUS_PROGRAM_ERROR :: u32 where "JTAG_STATUS_PROGRAM_ERROR = 100"
definition JTAG_STATUS_PARTIAL_ERASE_ERROR :: u32 where "JTAG_STATUS_PARTIAL_ERASE_ERROR = 101"
definition JTAG_STATUS_CHIP_ERASE_ERROR :: u32 where "JTAG_STATUS_CHIP_ERASE_ERROR = 102"
definition JTAG_STATUS_ADDRESS_ERROR :: u32 where "JTAG_STATUS_ADDRESS_ERROR = 103"
definition JTAG_STATUS_READ_ERROR :: u32 where "JTAG_STATUS_READ_ERROR = 105"
definition JTAG_STATUS_NOT_IMPLEMENTED :: u32 where "JTAG_STATUS_NOT_IMPLEMENTED = 141"

definition NVM_TYPE_NAME_NONE :: u32 where "NVM_TYPE_NAME_NONE = 0xFFFF"
definition NVM_TYPE_NAME_RRAM :: u32 where "NVM_TYPE_NAME_RRAM = 0"
definition NVM_TYPE_NAME_FLASH :: u32 where "NVM_TYPE_NAME_FLASH = 1"
definition NVM_TYPE_NAME_OTP :: u32 where "NVM_TYPE_NAME_OTP = 2"

definition QWLAN_PMU_AON_TOP_CFG_REG :: addr where "QWLAN_PMU_AON_TOP_CFG_REG = 0x011AF818"
definition QWLAN_PMU_AON_TOP_CFG_DEFAULT :: u32 where "QWLAN_PMU_AON_TOP_CFG_DEFAULT = 0xE00"
definition QWLAN_PMU_SYS_SOFT_RESET_REQ_REG :: addr where "QWLAN_PMU_SYS_SOFT_RESET_REQ_REG = 0x011AEC3C"
definition SYS_SOFT_RESET_REQ_MASK :: u32 where "SYS_SOFT_RESET_REQ_MASK = 1"

definition CRC32_Table :: "u32 list" where
  "CRC32_Table =
     [0x00000000, 0x77073096, 0xee0e612c, 0x990951ba, 0x076dc419, 0x706af48f, 0xe963a535, 0x9e6495a3,
      0x0edb8832, 0x79dcb8a4, 0xe0d5e91e, 0x97d2d988, 0x09b64c2b, 0x7eb17cbd, 0xe7b82d07, 0x90bf1d91,
      0x1db71064, 0x6ab020f2, 0xf3b97148, 0x84be41de, 0x1adad47d, 0x6ddde4eb, 0xf4d4b551, 0x83d385c7,
      0x136c9856, 0x646ba8c0, 0xfd62f97a, 0x8a65c9ec, 0x14015c4f, 0x63066cd9, 0xfa0f3d63, 0x8d080df5,
      0x3b6e20c8, 0x4c69105e, 0xd56041e4, 0xa2677172, 0x3c03e4d1, 0x4b04d447, 0xd20d85fd, 0xa50ab56b,
      0x35b5a8fa, 0x42b2986c, 0xdbbbc9d6, 0xacbcf940, 0x32d86ce3, 0x45df5c75, 0xdcd60dcf, 0xabd13d59,
      0x26d930ac, 0x51de003a, 0xc8d75180, 0xbfd06116, 0x21b4f4b5, 0x56b3c423, 0xcfba9599, 0xb8bda50f,
      0x2802b89e, 0x5f058808, 0xc60cd9b2, 0xb10be924, 0x2f6f7c87, 0x58684c11, 0xc1611dab, 0xb6662d3d,
      0x76dc4190, 0x01db7106, 0x98d220bc, 0xefd5102a, 0x71b18589, 0x06b6b51f, 0x9fbfe4a5, 0xe8b8d433,
      0x7807c9a2, 0x0f00f934, 0x9609a88e, 0xe10e9818, 0x7f6a0dbb, 0x086d3d2d, 0x91646c97, 0xe6635c01,
      0x6b6b51f4, 0x1c6c6162, 0x856530d8, 0xf262004e, 0x6c0695ed, 0x1b01a57b, 0x8208f4c1, 0xf50fc457,
      0x65b0d9c6, 0x12b7e950, 0x8bbeb8ea, 0xfcb9887c, 0x62dd1ddf, 0x15da2d49, 0x8cd37cf3, 0xfbd44c65,
      0x4db26158, 0x3ab551ce, 0xa3bc0074, 0xd4bb30e2, 0x4adfa541, 0x3dd895d7, 0xa4d1c46d, 0xd3d6f4fb,
      0x4369e96a, 0x346ed9fc, 0xad678846, 0xda60b8d0, 0x44042d73, 0x33031de5, 0xaa0a4c5f, 0xdd0d7cc9,
      0x5005713c, 0x270241aa, 0xbe0b1010, 0xc90c2086, 0x5768b525, 0x206f85b3, 0xb966d409, 0xce61e49f,
      0x5edef90e, 0x29d9c998, 0xb0d09822, 0xc7d7a8b4, 0x59b33d17, 0x2eb40d81, 0xb7bd5c3b, 0xc0ba6cad,
      0xedb88320, 0x9abfb3b6, 0x03b6e20c, 0x74b1d29a, 0xead54739, 0x9dd277af, 0x04db2615, 0x73dc1683,
      0xe3630b12, 0x94643b84, 0x0d6d6a3e, 0x7a6a5aa8, 0xe40ecf0b, 0x9309ff9d, 0x0a00ae27, 0x7d079eb1,
      0xf00f9344, 0x8708a3d2, 0x1e01f268, 0x6906c2fe, 0xf762575d, 0x806567cb, 0x196c3671, 0x6e6b06e7,
      0xfed41b76, 0x89d32be0, 0x10da7a5a, 0x67dd4acc, 0xf9b9df6f, 0x8ebeeff9, 0x17b7be43, 0x60b08ed5,
      0xd6d6a3e8, 0xa1d1937e, 0x38d8c2c4, 0x4fdff252, 0xd1bb67f1, 0xa6bc5767, 0x3fb506dd, 0x48b2364b,
      0xd80d2bda, 0xaf0a1b4c, 0x36034af6, 0x41047a60, 0xdf60efc3, 0xa867df55, 0x316e8eef, 0x4669be79,
      0xcb61b38c, 0xbc66831a, 0x256fd2a0, 0x5268e236, 0xcc0c7795, 0xbb0b4703, 0x220216b9, 0x5505262f,
      0xc5ba3bbe, 0xb2bd0b28, 0x2bb45a92, 0x5cb36a04, 0xc2d7ffa7, 0xb5d0cf31, 0x2cd99e8b, 0x5bdeae1d,
      0x9b64c2b0, 0xec63f226, 0x756aa39c, 0x026d930a, 0x9c0906a9, 0xeb0e363f, 0x72076785, 0x05005713,
      0x95bf4a82, 0xe2b87a14, 0x7bb12bae, 0x0cb61b38, 0x92d28e9b, 0xe5d5be0d, 0x7cdcefb7, 0x0bdbdf21,
      0x86d3d2d4, 0xf1d4e242, 0x68ddb3f8, 0x1fda836e, 0x81be16cd, 0xf6b9265b, 0x6fb077e1, 0x18b74777,
      0x88085ae6, 0xff0f6a70, 0x66063bca, 0x11010b5c, 0x8f659eff, 0xf862ae69, 0x616bffd3, 0x166ccf45,
      0xa00ae278, 0xd70dd2ee, 0x4e048354, 0x3903b3c2, 0xa7672661, 0xd06016f7, 0x4969474d, 0x3e6e77db,
      0xaed16a4a, 0xd9d65adc, 0x40df0b66, 0x37d83bf0, 0xa9bcae53, 0xdebb9ec5, 0x47b2cf7f, 0x30b5ffe9,
      0xbdbdf21c, 0xcabac28a, 0x53b39330, 0x24b4a3a6, 0xbad03605, 0xcdd70693, 0x54de5729, 0x23d967bf,
      0xb3667a2e, 0xc4614ab8, 0x5d681b02, 0x2a6f2b94, 0xb40bbe37, 0xc30c8ea1, 0x5a05df1b, 0x2d02ef8d]"

section \<open>State\<close>

text \<open>The union: \<open>jp_Address\<close> is \<open>Param.Address\<close> and \<open>Return.Address\<close>, \<open>jp_Command\<close> is
  \<open>Param.Command\<close> and \<open>Return.Status\<close>. \<open>jp_data\<close> is \<open>Buffer\<close> followed by \<open>ReadBuffer\<close>, which lie
  side by side; the host loads up to the size of both.\<close>

record JTAG_Param =
  jp_ModuleStart :: u32
  jp_BusWidth :: u32
  jp_Offset :: u32
  jp_Address :: u32
  jp_Size :: u32
  jp_Timing :: u32
  jp_Command :: u32
  jp_data :: bytes

datatype write_fn = Nvm_rram_write | Flash_write | Otp_rram_write
datatype read_fn = Nvm_rram_read | Flash_read | Otp_rram_read
datatype erase_fn = Rram_erase | Flash_partial_check_erase
datatype chip_erase_fn = Flash_chip_erase

record 'd nvm_dev =
  nd_hw :: nvm_hw
  nd_flash :: "'d nvm_flash"

record 'd nvm =
  nv_param :: JTAG_Param
  nv_Device_Type :: u32
  nv_Device_Type_Attached :: u32
  nv_System_Reset :: bool
  nv_Write :: "write_fn option"
  nv_Read :: "read_fn option"
  nv_Partial_Erase :: "erase_fn option"
  nv_Chip_Erase :: "chip_erase_fn option"
  nv_dev :: "'d nvm_dev"

section \<open>Calls through the pointers\<close>

text \<open>The second component of a write is the caller's buffer afterwards.\<close>

fun call_write :: "dxe \<Rightarrow> 'd qspi_bus \<Rightarrow> write_fn \<Rightarrow> u32 \<Rightarrow> bytes \<Rightarrow> u32 \<Rightarrow> 'd nvm_dev \<Rightarrow> (int \<times> bytes \<times> 'd nvm_dev) option" where
  "call_write dx bus Nvm_rram_write a src len d =
     map_option (\<lambda>(st, h). (st, src, d\<lparr>nd_hw := h\<rparr>)) (nvm_rram_write dx a src len (nd_hw d))"
| "call_write dx bus Flash_write a src len d =
     map_option (\<lambda>(st, f). (st, src, d\<lparr>nd_flash := f\<rparr>)) (flash_write bus a src len (nd_flash d))"
| "call_write dx bus Otp_rram_write a src len d =
     map_option (\<lambda>(st, src, h). (st, src, d\<lparr>nd_hw := h\<rparr>)) (otp_rram_write dx a src len (nd_hw d))"

text \<open>The second component of a read is what is stored from the start of the buffer on.\<close>

fun call_read :: "'d qspi_bus \<Rightarrow> read_fn \<Rightarrow> u32 \<Rightarrow> u32 \<Rightarrow> 'd nvm_dev \<Rightarrow> (int \<times> bytes \<times> 'd nvm_dev) option" where
  "call_read bus Nvm_rram_read a len d = (case nvm_rram_read a len (nd_hw d) of (st, bs) \<Rightarrow> Some (st, bs, d))"
| "call_read bus Flash_read a len d =
     map_option (\<lambda>(st, bs, f). (st, bs, d\<lparr>nd_flash := f\<rparr>)) (flash_read bus a len (nd_flash d))"
| "call_read bus Otp_rram_read a len d = (case otp_rram_read a len (nd_hw d) of (st, bs) \<Rightarrow> Some (st, bs, d))"

fun call_erase :: "dxe \<Rightarrow> 'd qspi_bus \<Rightarrow> erase_fn \<Rightarrow> u32 \<Rightarrow> u32 \<Rightarrow> 'd nvm_dev \<Rightarrow> (int \<times> 'd nvm_dev) option" where
  "call_erase dx bus Rram_erase a len d = map_option (\<lambda>(st, h). (st, d\<lparr>nd_hw := h\<rparr>)) (rram_erase dx a len (nd_hw d))"
| "call_erase dx bus Flash_partial_check_erase a len d =
     map_option (\<lambda>(st, f). (st, d\<lparr>nd_flash := f\<rparr>)) (flash_partial_check_erase bus a len (nd_flash d))"

fun call_chip_erase :: "'d qspi_bus \<Rightarrow> chip_erase_fn \<Rightarrow> 'd nvm_dev \<Rightarrow> (int \<times> 'd nvm_dev) option" where
  "call_chip_erase bus Flash_chip_erase d = map_option (\<lambda>(st, f). (st, d\<lparr>nd_flash := f\<rparr>)) (flash_chip_erase bus (nd_flash d))"

text \<open>Storing into a buffer from an offset on; undefined past its end.\<close>

definition store_bytes :: "bytes \<Rightarrow> nat \<Rightarrow> bytes \<Rightarrow> bytes option" where
  "store_bytes data off bs =
     (if off + length bs \<le> length data then Some (take off data @ bs @ drop (off + length bs) data) else None)"

section \<open>Attaching a device\<close>

definition Device_Attach :: "'d qspi_bus \<Rightarrow> 'd nvm \<Rightarrow> (u32 \<times> 'd nvm) option" where
  "Device_Attach bus s =
     (if nv_Device_Type_Attached s = nv_Device_Type s then Some (JTAG_STATUS_NO_ERROR, s)
      else do {
        (Status, s) \<leftarrow>
          (if nv_Device_Type s = NVM_TYPE_NAME_RRAM then
             Some (JTAG_STATUS_NO_ERROR, s\<lparr>nv_Write := Some Nvm_rram_write, nv_Read := Some Nvm_rram_read,
               nv_Partial_Erase := Some Rram_erase, nv_Chip_Erase := None\<rparr>)
           else if nv_Device_Type s = NVM_TYPE_NAME_FLASH then do {
             (st, f) \<leftarrow> flash_init bus (nd_flash (nv_dev s));
             Some (if st \<noteq> QAPI_OK then JTAG_STATUS_PROGRAM_ERROR else JTAG_STATUS_NO_ERROR,
               s\<lparr>nv_dev := (nv_dev s)\<lparr>nd_flash := f\<rparr>, nv_Write := Some Flash_write, nv_Read := Some Flash_read,
                 nv_Partial_Erase := Some Flash_partial_check_erase, nv_Chip_Erase := Some Flash_chip_erase\<rparr>)
           }
           else if nv_Device_Type s = NVM_TYPE_NAME_OTP then
             Some (JTAG_STATUS_NO_ERROR, s\<lparr>nv_Write := Some Otp_rram_write, nv_Read := Some Otp_rram_read,
               nv_Partial_Erase := None, nv_Chip_Erase := None\<rparr>)
           else Some (JTAG_STATUS_PROGRAM_ERROR, s));
        Some (Status, if Status = JTAG_STATUS_NO_ERROR then s\<lparr>nv_Device_Type_Attached := nv_Device_Type s\<rparr> else s)
      })"

section \<open>The checksum\<close>

definition crc_update :: "u32 \<Rightarrow> u8 \<Rightarrow> u32" where
  "crc_update Result b = CRC32_Table ! unat ((Result XOR ucast b) AND 0xFF) XOR drop_bit 8 Result"

text \<open>The loop over the chunks; \<open>rd\<close> is the function \<open>NVM_Read\<close> points to. The status of a failed
  read ends it early.\<close>

function Checksum_loop ::
    "(u32 \<Rightarrow> u32 \<Rightarrow> 's \<Rightarrow> (int \<times> bytes \<times> 's) option) \<Rightarrow> u32 \<Rightarrow> u32 \<Rightarrow> u32 \<Rightarrow> bytes \<Rightarrow> 's \<Rightarrow> (int \<times> u32 \<times> bytes \<times> 's) option" where
  "Checksum_loop rd Address Length Result data s =
     (if Length = 0 then Some (0, Result, data, s)
      else
        let Buffer_Size = (if Length > BUFFER_SIZE then BUFFER_SIZE else Length)
        in do {
          (Status, bs, s) \<leftarrow> rd Address Buffer_Size s;
          data \<leftarrow> store_bytes data 0 bs;
          if Status \<noteq> 0 then Some (Status, Result, data, s)
          else Checksum_loop rd (Address + Buffer_Size) (Length - Buffer_Size)
                 (foldl crc_update Result (take (unat Buffer_Size) data)) data s
        })"
  by pat_completeness auto

termination
proof (relation "measure (\<lambda>(rd, a, len, r, data, s). unat len)", goal_cases)
  case (2 rd a len r data s n z)
  have "0 < unat len" using 2(1) by (simp add: unat_gt_0)
  then show ?case using 2 by (auto simp: BUFFER_SIZE_def unat_sub word_le_nat_alt word_less_nat_alt split: if_splits)
qed simp

declare Checksum_loop.simps [simp del]

definition Checksum :: "'d qspi_bus \<Rightarrow> u32 \<Rightarrow> u32 \<Rightarrow> 'd nvm \<Rightarrow> (u32 \<times> 'd nvm) option" where
  "Checksum bus Address Length s =
     do {
       rd \<leftarrow> (if Length = 0 then Some (\<lambda>_ _ _. None) else map_option (call_read bus) (nv_Read s));
       (Status, Result, data, d) \<leftarrow> Checksum_loop rd Address Length 0xFFFFFFFF (jp_data (nv_param s)) (nv_dev s);
       let s = s\<lparr>nv_param := (nv_param s)\<lparr>jp_data := data\<rparr>, nv_dev := d\<rparr>;
       if Status \<noteq> 0 then Some (Result, s)
       else Some (0, s\<lparr>nv_param := (nv_param s)\<lparr>jp_Command := Result XOR 0xFFFFFFFF\<rparr>\<rparr>)
     }"

section \<open>Commands\<close>

definition set_status :: "u32 \<Rightarrow> 'd nvm \<Rightarrow> 'd nvm" where
  "set_status v s = s\<lparr>nv_param := (nv_param s)\<lparr>jp_Command := v\<rparr>\<rparr>"

definition set_address :: "u32 \<Rightarrow> 'd nvm \<Rightarrow> 'd nvm" where
  "set_address v s = s\<lparr>nv_param := (nv_param s)\<lparr>jp_Address := v\<rparr>\<rparr>"

definition set_data :: "bytes \<Rightarrow> 'd nvm \<Rightarrow> 'd nvm" where
  "set_data v s = s\<lparr>nv_param := (nv_param s)\<lparr>jp_data := v\<rparr>\<rparr>"

definition param_address :: "'d nvm \<Rightarrow> u32" where
  "param_address s = jp_Address (nv_param s) + jp_Offset (nv_param s)"

text \<open>The status of a command with an error code of its own.\<close>

definition status_of :: "int \<Rightarrow> u32 \<Rightarrow> u32" where
  "status_of Result err =
     (if Result = QAPI_ERR_BOUNDS then JTAG_STATUS_ADDRESS_ERROR else if Result = 0 then JTAG_STATUS_NO_ERROR else err)"

definition run_program :: "dxe \<Rightarrow> 'd qspi_bus \<Rightarrow> 'd nvm \<Rightarrow> 'd nvm option" where
  "run_program dx bus s =
     (let Address = param_address s
      in do {
        fn \<leftarrow> nv_Write s;
        (Result, data, d) \<leftarrow> call_write dx bus fn Address (jp_data (nv_param s)) (jp_Size (nv_param s)) (nv_dev s);
        Some (set_address Address (set_status (status_of Result JTAG_STATUS_PROGRAM_ERROR) (set_data data (s\<lparr>nv_dev := d\<rparr>))))
      })"

definition run_chip_erase :: "'d qspi_bus \<Rightarrow> 'd nvm \<Rightarrow> 'd nvm option" where
  "run_chip_erase bus s =
     (case nv_Chip_Erase s of
        None \<Rightarrow> Some (set_status JTAG_STATUS_NOT_IMPLEMENTED s)
      | Some fn \<Rightarrow> do {
          (Result, d) \<leftarrow> call_chip_erase bus fn (nv_dev s);
          Some (set_status (if Result = 0 then JTAG_STATUS_NO_ERROR else JTAG_STATUS_CHIP_ERASE_ERROR) (s\<lparr>nv_dev := d\<rparr>))
        })"

definition run_partial_erase :: "dxe \<Rightarrow> 'd qspi_bus \<Rightarrow> 'd nvm \<Rightarrow> 'd nvm option" where
  "run_partial_erase dx bus s =
     (let Address = param_address s
      in do {
        fn \<leftarrow> nv_Partial_Erase s;
        (Result, d) \<leftarrow> call_erase dx bus fn Address (jp_Size (nv_param s)) (nv_dev s);
        Some (set_address Address (set_status (status_of Result JTAG_STATUS_PARTIAL_ERASE_ERROR) (s\<lparr>nv_dev := d\<rparr>)))
      })"

definition run_read :: "'d qspi_bus \<Rightarrow> 'd nvm \<Rightarrow> 'd nvm option" where
  "run_read bus s =
     (let Address = param_address s
      in do {
        fn \<leftarrow> nv_Read s;
        (Result, bs, d) \<leftarrow> call_read bus fn Address (jp_Size (nv_param s)) (nv_dev s);
        data \<leftarrow> store_bytes (jp_data (nv_param s)) 0 bs;
        Some (set_address Address (set_status (status_of Result JTAG_STATUS_READ_ERROR) (set_data data (s\<lparr>nv_dev := d\<rparr>))))
      })"

definition run_otp_write :: "dxe \<Rightarrow> 'd qspi_bus \<Rightarrow> 'd nvm \<Rightarrow> 'd nvm option" where
  "run_otp_write dx bus s =
     do {
       fn \<leftarrow> nv_Write s;
       (Result, data, d) \<leftarrow>
         call_write dx bus fn (param_address s + OTP_START) (jp_data (nv_param s)) (jp_Size (nv_param s)) (nv_dev s);
       Some (set_status (if Result = 0 then JTAG_STATUS_NO_ERROR else JTAG_STATUS_PROGRAM_ERROR) (set_data data (s\<lparr>nv_dev := d\<rparr>)))
     }"

definition run_otp_read :: "'d qspi_bus \<Rightarrow> 'd nvm \<Rightarrow> 'd nvm option" where
  "run_otp_read bus s =
     do {
       data \<leftarrow> store_bytes (jp_data (nv_param s)) (unat BUFFER_SIZE) (replicate (unat BUFFER_SIZE) 0);
       fn \<leftarrow> nv_Read s;
       (Result, bs, d) \<leftarrow> call_read bus fn (param_address s + OTP_START) (jp_Size (nv_param s)) (nv_dev s);
       data \<leftarrow> store_bytes data (unat BUFFER_SIZE) bs;
       Some (set_status (if Result = 0 then JTAG_STATUS_NO_ERROR else JTAG_STATUS_PROGRAM_ERROR) (set_data data (s\<lparr>nv_dev := d\<rparr>)))
     }"

text \<open>No known command: a requested reset is triggered, and a word that is not 0 is answered.\<close>

definition run_default :: "'d nvm \<Rightarrow> 'd nvm" where
  "run_default s =
     (let s = (if nv_System_Reset s
               then s\<lparr>nv_dev := (nv_dev s)\<lparr>nd_hw :=
                      HW_REG_WR QWLAN_PMU_SYS_SOFT_RESET_REQ_REG SYS_SOFT_RESET_REQ_MASK
                        (HW_REG_WR QWLAN_PMU_AON_TOP_CFG_REG QWLAN_PMU_AON_TOP_CFG_DEFAULT (nd_hw (nv_dev s)))\<rparr>\<rparr>
               else s)
      in if jp_Command (nv_param s) \<noteq> JTAG_STATUS_NO_ERROR then set_status JTAG_STATUS_NOT_IMPLEMENTED s else s)"

definition run_command :: "dxe \<Rightarrow> 'd qspi_bus \<Rightarrow> 'd nvm \<Rightarrow> 'd nvm option" where
  "run_command dx bus s =
     (let Command = jp_Command (nv_param s)
      in if Command = JTAG_COMMAND_PROGRAM then run_program dx bus s
         else if Command = JTAG_COMMAND_COMPUTE_CRC then
           map_option snd (Checksum bus (param_address s) (jp_Size (nv_param s)) s)
         else if Command = JTAG_COMMAND_CHIP_ERASE then run_chip_erase bus s
         else if Command = JTAG_COMMAND_PARTIAL_ERASE then run_partial_erase dx bus s
         else if Command = JTAG_COMMAND_READ then run_read bus s
         else if Command = JTAG_COMMAND_SYSTEM_RESET then Some (set_status JTAG_STATUS_NO_ERROR (s\<lparr>nv_System_Reset := True\<rparr>))
         else if Command = JTAG_COMMAND_OTP_WRITE then run_otp_write dx bus s
         else if Command = JTAG_COMMAND_OTP_READ then run_otp_read bus s
         else Some (run_default s))"

definition JTAG_Run :: "dxe \<Rightarrow> 'd qspi_bus \<Rightarrow> 'd nvm \<Rightarrow> 'd nvm option" where
  "JTAG_Run dx bus s =
     do {
       (Status, s) \<leftarrow> Device_Attach bus s;
       if Status \<noteq> 0 then Some (set_status JTAG_STATUS_PROGRAM_ERROR s) else run_command dx bus s
     }"

section \<open>The main loop\<close>

text \<open>The state when the loop is entered: zeroed parameters, no device attached, the engine
  initialised. The loop calls \<open>JTAG_Run\<close> for ever; between two calls the debugger may
  change the parameters, the buffers and the device type.\<close>

definition NVM_Programmer_Start :: "nvm_hw \<Rightarrow> 'd flash \<Rightarrow> 'd nvm" where
  "NVM_Programmer_Start h drv =
     \<lparr>nv_param = \<lparr>jp_ModuleStart = 0, jp_BusWidth = 0, jp_Offset = 0, jp_Address = 0, jp_Size = 0, jp_Timing = 0,
        jp_Command = 0, jp_data = replicate (2 * unat BUFFER_SIZE) 0\<rparr>,
      nv_Device_Type = NVM_TYPE_NAME_RRAM, nv_Device_Type_Attached = NVM_TYPE_NAME_NONE, nv_System_Reset = False,
      nv_Write = None, nv_Read = None, nv_Partial_Erase = None, nv_Chip_Erase = None,
      nv_dev = \<lparr>nd_hw = rram_dxe_init h,
        nd_flash = \<lparr>nf_density_in_blocks = 0, nf_flash_inited = False,
          nf_comparative_buffer = replicate (unat BLOCK_SIZE_IN_BYTES) 0, nf_drv = drv\<rparr>\<rparr>\<rparr>"

inductive programmer_reach :: "dxe \<Rightarrow> 'd qspi_bus \<Rightarrow> nvm_hw \<Rightarrow> 'd flash \<Rightarrow> 'd nvm \<Rightarrow> bool"
  for dx :: dxe and bus :: "'d qspi_bus" and h :: nvm_hw and drv :: "'d flash" where
  start: "programmer_reach dx bus h drv (NVM_Programmer_Start h drv)"
| host: "programmer_reach dx bus h drv s \<Longrightarrow> length (jp_data p) = 2 * unat BUFFER_SIZE \<Longrightarrow>
    programmer_reach dx bus h drv (s\<lparr>nv_param := p, nv_Device_Type := t\<rparr>)"
| run: "programmer_reach dx bus h drv s \<Longrightarrow> JTAG_Run dx bus s = Some s' \<Longrightarrow> programmer_reach dx bus h drv s'"

end
