(* ===== verification/Nvm_Crc.thy ===== *)
theory Nvm_Crc
  imports Nvm_Programmer
begin

text \<open>
  The table-driven checksum of the programmer is the CRC-32 of the reflected polynomial
  0xEDB88320, computed bit by bit.
\<close>

section \<open>The reference\<close>

definition crc_bit :: "u32 \<Rightarrow> u32" where
  "crc_bit c = (if bit c 0 then drop_bit 1 c XOR 0xEDB88320 else drop_bit 1 c)"

definition crc_byte :: "u32 \<Rightarrow> u8 \<Rightarrow> u32" where
  "crc_byte c b = (crc_bit ^^ 8) (c XOR ucast b)"

definition crc32 :: "bytes \<Rightarrow> u32" where
  "crc32 bs = foldl crc_byte 0xFFFFFFFF bs XOR 0xFFFFFFFF"

section \<open>One byte at a time\<close>

lemma crc_bit_xor: "crc_bit (x XOR y) = crc_bit x XOR crc_bit y"
  by (auto simp: crc_bit_def bit_simps drop_bit_xor ac_simps)

lemma crc_bits_xor: "(crc_bit ^^ n) (x XOR y) = (crc_bit ^^ n) x XOR (crc_bit ^^ n) y"
  by (induction n) (simp_all add: crc_bit_xor)

text \<open>While the low bits are zero the steps only shift.\<close>

lemma crc_bits_shift: "(\<And>k. k < n \<Longrightarrow> \<not> bit y k) \<Longrightarrow> (crc_bit ^^ n) y = drop_bit n y"
proof (induction n)
  case (Suc n)
  have "\<not> bit (drop_bit n y) 0" using Suc.prems [of n] by (simp add: bit_drop_bit_eq)
  then show ?case using Suc by (simp add: crc_bit_def)
qed simp

text \<open>The table doubles: entry \<open>i + 2 ^ k\<close> is entry \<open>i\<close> combined with entry \<open>2 ^ k\<close>.\<close>

primrec doubled :: "u32 list \<Rightarrow> u32 list" where
  "doubled [] = [0]"
| "doubled (b # bs) = (let t = doubled bs in t @ map (\<lambda>v. v XOR b) t)"

lemma of_nat_add_power:
  assumes "i < 2 ^ k"
  shows "(of_nat (i + 2 ^ k) :: u32) = of_nat i XOR 2 ^ k"
proof -
  have "\<not> bit i k" using assms by (simp add: bit_iff_odd)
  then have "of_nat i AND (2 ^ k :: u32) = 0"
    by (intro bit_eqI) (auto simp: bit_simps)
  then show ?thesis by (simp add: disjunctive_add_eq_xor)
qed

lemma doubled_table:
  "map (\<lambda>i. (crc_bit ^^ 8) (of_nat i)) [0..<2 ^ k] = doubled (map (\<lambda>j. (crc_bit ^^ 8) (2 ^ j)) (rev [0..<k]))"
proof (induction k)
  case 0
  have "(crc_bit ^^ 8) 0 = 0" using crc_bits_shift [of 8 0] by simp
  then show ?case by simp
next
  case (Suc k)
  have "[0..<2 ^ Suc k] = [0..<2 ^ k] @ map (\<lambda>i. i + 2 ^ k) [0..<2 ^ k]"
    by (simp add: map_add_upt upt_add_eq_append [symmetric] mult_2)
  moreover have "map (\<lambda>i. (crc_bit ^^ 8) (of_nat (i + 2 ^ k))) [0..<2 ^ k] =
      map (\<lambda>v. v XOR (crc_bit ^^ 8) (2 ^ k)) (map (\<lambda>i. (crc_bit ^^ 8) (of_nat i)) [0..<2 ^ k])"
    by (simp add: of_nat_add_power crc_bits_xor del: of_nat_add)
  ultimately show ?case using Suc.IH by (simp add: o_def Let_def del: of_nat_add)
qed

lemma crc_bit_steps:
  "crc_bit 1 = 0xEDB88320" "crc_bit 0xEDB88320 = 0x76DC4190" "crc_bit 0x76DC4190 = 0x3B6E20C8"
  "crc_bit 0x3B6E20C8 = 0x1DB71064" "crc_bit 0x1DB71064 = 0x0EDB8832" "crc_bit 0x0EDB8832 = 0x076DC419"
  "crc_bit 0x076DC419 = 0xEE0E612C" "crc_bit 0xEE0E612C = 0x77073096"
  by (simp_all add: crc_bit_def)

lemma crc_of_power:
  assumes "j \<le> 8"
  shows "(crc_bit ^^ 8) (2 ^ j) = (crc_bit ^^ (8 - j)) 1"
proof -
  have "(crc_bit ^^ j) (2 ^ j) = drop_bit j (2 ^ j)" by (rule crc_bits_shift) (simp add: bit_exp_iff)
  also have "\<dots> = 1" using assms by (intro bit_eqI) (auto simp: bit_simps)
  finally have "(crc_bit ^^ j) (2 ^ j) = 1" .
  moreover have "crc_bit ^^ 8 = crc_bit ^^ (8 - j) \<circ> crc_bit ^^ j" using assms by (simp add: funpow_add [symmetric])
  ultimately show ?thesis by simp
qed

lemma crc_basis:
  "map (\<lambda>j. (crc_bit ^^ 8) (2 ^ j)) (rev [0..<8]) =
     [0xEDB88320, 0x76DC4190, 0x3B6E20C8, 0x1DB71064, 0x0EDB8832, 0x076DC419, 0xEE0E612C, 0x77073096]"
proof -
  have n: "(crc_bit ^^ 1) c = crc_bit c" "(crc_bit ^^ 2) c = crc_bit (crc_bit c)" "(crc_bit ^^ 3) c = crc_bit ((crc_bit ^^ 2) c)"
    "(crc_bit ^^ 4) c = crc_bit ((crc_bit ^^ 3) c)" "(crc_bit ^^ 5) c = crc_bit ((crc_bit ^^ 4) c)"
    "(crc_bit ^^ 6) c = crc_bit ((crc_bit ^^ 5) c)" "(crc_bit ^^ 7) c = crc_bit ((crc_bit ^^ 6) c)"
    "(crc_bit ^^ 8) c = crc_bit ((crc_bit ^^ 7) c)" for c
    by (simp_all add: eval_nat_numeral)
  have r: "rev [0..<8] = [7, 6, 5, 4, 3, 2, 1, 0]" by (simp add: upt_rec)
  have "map (\<lambda>j. (crc_bit ^^ 8) (2 ^ j)) (rev [0..<8]) = map (\<lambda>j. (crc_bit ^^ (8 - j)) 1) [7, 6, 5, 4, 3, 2, 1, 0]"
    unfolding r by (rule map_cong [OF refl], rule crc_of_power) auto
  also have "\<dots> = [0xEDB88320, 0x76DC4190, 0x3B6E20C8, 0x1DB71064, 0x0EDB8832, 0x076DC419, 0xEE0E612C, 0x77073096]"
    by (simp add: n crc_bit_steps)
  finally show ?thesis .
qed

lemma table_entries: "map (\<lambda>i. (crc_bit ^^ 8) (of_nat i)) [0..<256] = CRC32_Table"
  using doubled_table [of 8] unfolding crc_basis by (simp add: CRC32_Table_def Let_def)

lemma low_byte: "w AND 0xFF = (take_bit 8 w :: u32)"
proof -
  have "(0xFF :: u32) = mask 8" by (simp add: mask_eq_exp_minus_1)
  then show ?thesis by (simp add: take_bit_eq_mask)
qed

lemma drop_bit_byte: "drop_bit 8 (ucast (b :: u8) :: u32) = 0"
  by (rule bit_eqI) (auto simp: bit_simps dest: bit_imp_le_length)

lemma crc_update_is_crc_byte: "crc_update c b = crc_byte c b"
proof -
  let ?x = "c XOR ucast b :: u32"
  let ?i = "unat (?x AND 0xFF)"
  have i: "?i < 256" unfolding low_byte by (simp add: take_bit_eq_mod unat_mod_distrib)
  have "CRC32_Table ! ?i = (crc_bit ^^ 8) (of_nat ?i)"
    unfolding table_entries [symmetric] using i by simp
  then have t: "CRC32_Table ! ?i = (crc_bit ^^ 8) (take_bit 8 ?x)" unfolding low_byte by simp
  have s: "?x = take_bit 8 ?x XOR (?x AND NOT (mask 8))"
    by (rule bit_eqI) (auto simp: bit_simps)
  have "(crc_bit ^^ 8) (?x AND NOT (mask 8)) = drop_bit 8 (?x AND NOT (mask 8))"
    by (rule crc_bits_shift) (simp add: bit_simps)
  also have "\<dots> = drop_bit 8 ?x" by (rule bit_eqI) (auto simp: bit_simps dest: bit_imp_le_length)
  also have "\<dots> = drop_bit 8 c" by (simp add: drop_bit_xor drop_bit_byte)
  finally have h: "(crc_bit ^^ 8) (?x AND NOT (mask 8)) = drop_bit 8 c" .
  have "crc_byte c b = (crc_bit ^^ 8) (take_bit 8 ?x) XOR (crc_bit ^^ 8) (?x AND NOT (mask 8))"
    unfolding crc_byte_def by (subst s, subst crc_bits_xor) (rule refl)
  then show ?thesis unfolding crc_update_def t h by simp
qed

lemma crc_update_eq: "crc_update = crc_byte"
  by (intro ext) (rule crc_update_is_crc_byte)

text \<open>The check value of the CRC-32 catalogue: the checksum of the digits 1 to 9.\<close>

lemma crc32_check: "crc32 [0x31, 0x32, 0x33, 0x34, 0x35, 0x36, 0x37, 0x38, 0x39] = 0xCBF43926"
  by (simp add: crc32_def crc_update_eq [symmetric] crc_update_def CRC32_Table_def)

section \<open>Chunks\<close>

text \<open>A back end whose reads of the valid ranges return the contents and change nothing a read
  can see; \<open>valid\<close> is closed under splitting off a chunk.\<close>

locale chunk_reader =
  fixes rd :: "u32 \<Rightarrow> u32 \<Rightarrow> 's \<Rightarrow> (int \<times> bytes \<times> 's) option"
    and content :: "'s \<Rightarrow> u32 \<Rightarrow> u8"
    and valid :: "u32 \<Rightarrow> u32 \<Rightarrow> 's \<Rightarrow> bool"
  assumes reads: "valid a n s \<Longrightarrow> n \<noteq> 0 \<Longrightarrow>
      \<exists>s'. rd a n s = Some (0, mem_read (content s) a (unat n), s') \<and> content s' = content s \<and> (\<forall>b k. valid b k s' = valid b k s)"
    and splits: "valid a n s \<Longrightarrow> BUFFER_SIZE < n \<Longrightarrow> valid a BUFFER_SIZE s \<and> valid (a + BUFFER_SIZE) (n - BUFFER_SIZE) s"
begin

lemma checksum_loop_crc:
  assumes "valid a n s" and "unat BUFFER_SIZE \<le> length data"
  shows "\<exists>data' s'. Checksum_loop rd a n c data s = Some (0, foldl crc_byte c (mem_read (content s) a (unat n)), data', s')
    \<and> length data' = length data \<and> content s' = content s \<and> (\<forall>b k. valid b k s' = valid b k s)"
  using assms
proof (induction "unat n" arbitrary: a n c data s rule: less_induct)
  case less
  show ?case
  proof (cases "n = 0")
    case True
    then show ?thesis by (simp add: Checksum_loop.simps)
  next
    case False
    define k where "k = (if n > BUFFER_SIZE then BUFFER_SIZE else n)"
    have k: "unat k \<le> unat n" "0 < unat k" "unat k \<le> unat BUFFER_SIZE" "k \<noteq> 0"
      using False by (auto simp: k_def word_less_nat_alt unat_gt_0 BUFFER_SIZE_def)
    have sub: "unat (n - k) = unat n - unat k" using k(1) by (simp add: unat_sub word_le_nat_alt)
    have v: "valid a k s" using splits [OF less.prems(1)] less.prems(1) by (auto simp: k_def)
    obtain s1 where s1: "rd a k s = Some (0, mem_read (content s) a (unat k), s1)" "content s1 = content s" "\<forall>b j. valid b j s1 = valid b j s"
      using reads [OF v k(4)] by blast
    let ?bs = "mem_read (content s) a (unat k)"
    let ?d = "?bs @ drop (unat k) data"
    have st: "store_bytes data 0 ?bs = Some ?d" using k(3) less.prems(2) by (simp add: store_bytes_def)
    have step: "Checksum_loop rd a n c data s = Checksum_loop rd (a + k) (n - k) (foldl crc_byte c ?bs) ?d s1"
      using False s1(1) st by (subst Checksum_loop.simps) (simp add: k_def [symmetric] Let_def crc_update_eq)
    have ld: "length ?d = length data" using k(3) less.prems(2) by simp
    show ?thesis
    proof (cases "n = k")
      case True
      then show ?thesis using step s1 ld by (simp add: Checksum_loop.simps)
    next
      case lt: False
      then have "valid (a + k) (n - k) s1" using splits [OF less.prems(1)] s1(3) by (auto simp: k_def split: if_splits)
      from less.hyps [OF _ this, of ?d] k sub ld less.prems(2)
      obtain d' s' where "Checksum_loop rd (a + k) (n - k) (foldl crc_byte c ?bs) ?d s1 =
          Some (0, foldl crc_byte (foldl crc_byte c ?bs) (mem_read (content s) (a + k) (unat n - unat k)), d', s')"
        "length d' = length data" "content s' = content s" "\<forall>b j. valid b j s' = valid b j s"
        using s1(2,3) by fastforce
      moreover have "mem_read (content s) a (unat n) = ?bs @ mem_read (content s) (a + k) (unat n - unat k)"
        using mem_read_add [of "content s" a "unat k" "unat n - unat k"] k(1) by simp
      ultimately show ?thesis using step by simp
    qed
  qed
qed

end

end
