(* ===== verification/Nvm_Flash_Correct.thy ===== *)
theory Nvm_Flash_Correct
  imports Nvm_Flash
begin

text \<open>
  The flash back end of the programmer: its state invariant, that every operation returns
  and keeps it, and on a NOR chip the effect of a read, of the check-and-erase pass and of
  a write.
\<close>

section \<open>Invariant\<close>

text \<open>The driver is idle; once the back end is initialised the driver has a table entry, whose
  size the back end knows, and the block to compare with is all ones.\<close>

definition flash_inv :: "'d qspi_bus \<Rightarrow> 'd nvm_flash \<Rightarrow> bool" where
  "flash_inv bus f \<longleftrightarrow> fl_state (nf_drv f) = 0 \<and> fl_init_done (nf_drv f) = nf_flash_inited f
     \<and> (nf_flash_inited f \<longrightarrow> (\<exists>c \<in> set (flash_device_config (qb_quad_table bus)). fl_config (nf_drv f) = Some c
           \<and> nf_density_in_blocks f = fc_density_in_blocks c)
         \<and> nf_comparative_buffer f = replicate (unat BLOCK_SIZE_IN_BYTES) 0xFF)"

text \<open>Only the chip may differ.\<close>

definition same_nvm_flash :: "'d nvm_flash \<Rightarrow> 'd nvm_flash \<Rightarrow> bool" where
  "same_nvm_flash f f' \<longleftrightarrow> nf_density_in_blocks f' = nf_density_in_blocks f \<and> nf_flash_inited f' = nf_flash_inited f
     \<and> nf_comparative_buffer f' = nf_comparative_buffer f \<and> same_drv (nf_drv f) (nf_drv f')"

lemma same_nvm_flash_refl [simp]: "same_nvm_flash f f"
  by (simp add: same_nvm_flash_def)

lemma same_nvm_flash_trans: "same_nvm_flash f g \<Longrightarrow> same_nvm_flash g k \<Longrightarrow> same_nvm_flash f k"
  by (auto simp: same_nvm_flash_def intro: same_drv_trans)

lemma same_nvm_flash_drv: "same_drv (nf_drv f) drv \<Longrightarrow> same_nvm_flash f (f\<lparr>nf_drv := drv\<rparr>)"
  by (simp add: same_nvm_flash_def)

lemma flash_inv_same: "same_nvm_flash f f' \<Longrightarrow> flash_inv bus f \<Longrightarrow> flash_inv bus f'"
  by (simp add: same_nvm_flash_def same_drv_def flash_inv_def)

lemma flash_inv_config:
  assumes "flash_inv bus f"
  shows "(\<exists>c. fl_config (nf_drv f) = Some c) \<or> \<not> fl_init_done (nf_drv f)" and "fl_state (nf_drv f) = 0"
  using assms by (auto simp: flash_inv_def)

lemma flash_code_eq_0 [simp]: "flash_code st = 0 \<longleftrightarrow> st = FLASH_DEVICE_DONE"
  by (cases st) auto

section \<open>Initialising\<close>

lemma flash_init_outcome_nvm:
  assumes "flash_inv bus f"
  shows "\<exists>st f'. flash_init bus f = Some (st, f') \<and> flash_inv bus f' \<and> (st = QAPI_OK \<longleftrightarrow> nf_flash_inited f')"
proof (cases "nf_flash_inited f")
  case True
  then show ?thesis using assms by (simp add: flash_init_def)
next
  case False
  then have nd: "\<not> fl_init_done (nf_drv f)" and fs: "fl_state (nf_drv f) = 0" using assms by (simp_all add: flash_inv_def)
  obtain st d where d: "drv_flash_init bus (nf_drv f) = Some (st, d)"
    and out: "if st = FLASH_DEVICE_DONE
      then fl_init_done d \<and> (\<exists>c \<in> set (flash_device_config (qb_quad_table bus)). drv_flash_get_config d = Some c)
      else \<not> fl_init_done d"
    using drv_flash_init_outcome [OF nd, of bus] by (auto simp: init_outcome_def split: if_splits)
  have s0: "fl_state d = 0" by (rule drv_flash_init_state [OF d fs])
  show ?thesis
  proof (cases "st = FLASH_DEVICE_DONE")
    case True
    then obtain c where "fl_init_done d" "c \<in> set (flash_device_config (qb_quad_table bus))" "drv_flash_get_config d = Some c"
      using out by auto
    then show ?thesis using True False d s0
      by (auto simp: flash_init_def flash_inv_def QAPI_OK_def drv_flash_get_config_def split: if_splits)
  next
    case st: False
    then show ?thesis using out False d s0
      by (auto simp: flash_init_def flash_inv_def QAPI_OK_def QAPI_ERROR_def)
  qed
qed

section \<open>Operations return\<close>

lemma flash_read_loop_returns:
  assumes "flash_inv bus f"
  shows "\<exists>st bs f'. flash_read_loop bus a n st0 acc f = Some (st, bs, f') \<and> same_nvm_flash f f'
     \<and> (st0 = 0 \<longrightarrow> st = 0 \<longrightarrow> n \<noteq> 0 \<longrightarrow> fl_init_done (nf_drv f))"
  using assms
proof (induction "unat n" arbitrary: a n st0 acc f rule: less_induct)
  case less
  show ?case
  proof (cases "n = 0")
    case True
    then show ?thesis by (simp add: flash_read_loop.simps)
  next
    case False
    let ?k = "slice_size a n"
    have k: "0 < unat ?k" "unat ?k \<le> unat n"
      using slice_size_bounds [OF False, of a] by (simp_all add: word_less_nat_alt word_le_nat_alt)
    obtain st bs d where d: "drv_flash_read bus a ?k True False (nf_drv f) = Some (st, bs, d)" "same_drv (nf_drv f) d"
      using drv_flash_read_returns [of "nf_drv f" _ bus a ?k True False] flash_inv_config [OF less.prems] by blast
    let ?f = "f\<lparr>nf_drv := d\<rparr>"
    have sf: "same_nvm_flash f ?f" by (rule same_nvm_flash_drv [OF d(2)])
    have i: "st = FLASH_DEVICE_DONE \<Longrightarrow> fl_init_done (nf_drv f)"
      by (rule ccontr) (use d(1) in \<open>simp add: drv_flash_read_def\<close>)
    have sub: "unat (n - ?k) < unat n" using k by (simp add: unat_sub word_le_nat_alt)
    obtain st' bs' f' where "flash_read_loop bus (a + ?k) (n - ?k) (flash_code st) (acc @ bs) ?f = Some (st', bs', f')"
      "same_nvm_flash ?f f'"
      using less.hyps [OF sub flash_inv_same [OF sf less.prems]] by blast
    then show ?thesis using False d(1) sf i same_nvm_flash_trans [OF sf]
      by (subst flash_read_loop.simps) (auto simp: Let_def QAPI_OK_def simp del: flash_code.simps)
  qed
qed

lemma flash_read_returns:
  assumes "flash_inv bus f"
  shows "\<exists>st bs f'. flash_read bus a n f = Some (st, bs, f') \<and> same_nvm_flash f f' \<and> (st = 0 \<longrightarrow> n \<noteq> 0 \<longrightarrow> fl_init_done (nf_drv f))"
  using flash_read_loop_returns [OF assms, of a n QAPI_OK "[]"] by (auto simp: flash_read_def QAPI_OK_def)

lemma block_gap:
  assumes "(x :: nat) mod 4096 = 0" and "y mod 4096 = 0" and "x < y"
  shows "x + 4096 \<le> y"
proof -
  obtain i j where "x = 4096 * i" "y = 4096 * j" using assms(1,2) by (auto simp: mod_eq_0_iff_dvd elim!: dvdE)
  then show ?thesis using assms(3) by simp
qed

lemma check_erase_loop_returns:
  assumes "flash_inv bus f" and "unat o1 mod 4096 = 0" and "unat e mod 4096 = 0"
  shows "\<exists>st f'. check_erase_loop bus sb k o1 e r f = Some (st, f') \<and> same_nvm_flash f f'"
  using assms
proof (induction "unat e - unat o1" arbitrary: o1 r f rule: less_induct)
  case less
  show ?case
  proof (cases "o1 < e")
    case False
    then show ?thesis by (subst check_erase_loop.simps) simp
  next
    case True
    then have lt: "unat o1 < unat e" by (simp add: word_less_nat_alt)
    then have le: "unat o1 + 4096 \<le> unat e" by (rule block_gap [OF less.prems(2,3)])
    have o2: "unat (o1 + BLOCK_SIZE_IN_BYTES) = unat o1 + 4096"
      using le unsigned_less [of e, where ?'a = nat] by (simp add: BLOCK_SIZE_IN_BYTES_def unat_word_ariths)
    have step: "\<exists>st f'. check_erase_loop bus sb k (o1 + BLOCK_SIZE_IN_BYTES) e r' g = Some (st, f') \<and> same_nvm_flash f f'"
      if g: "same_nvm_flash f g" for r' g
    proof -
      have "unat e - unat (o1 + BLOCK_SIZE_IN_BYTES) < unat e - unat o1" using o2 lt by simp
      from less.hyps [OF this flash_inv_same [OF g less.prems(1)], of r'] show ?thesis
        using o2 less.prems(2,3) same_nvm_flash_trans [OF g] by (auto simp: mod_add_eq [symmetric, of "unat o1"])
    qed
    obtain st bs g where g: "flash_read bus o1 BLOCK_SIZE_IN_BYTES f = Some (st, bs, g)" "same_nvm_flash f g"
      "st = 0 \<Longrightarrow> fl_init_done (nf_drv f)"
      using flash_read_returns [OF less.prems(1), of o1 BLOCK_SIZE_IN_BYTES] by (auto simp: BLOCK_SIZE_IN_BYTES_def)
    show ?thesis
    proof (cases "st = 0 \<and> bs \<noteq> nf_comparative_buffer g")
      case True
      have ig: "flash_inv bus g" by (rule flash_inv_same [OF g(2) less.prems(1)])
      have "fl_init_done (nf_drv g)" using g(2,3) True by (simp add: same_nvm_flash_def same_drv_def)
      then obtain c where "fl_config (nf_drv g) = Some c" using flash_inv_config(1) [OF ig] by auto
      then obtain st' d where d: "drv_flash_erase bus FLASH_BLOCK_ERASE_E sb k (nf_drv g) = Some (st', d)" "same_drv (nf_drv g) d"
        using drv_flash_erase_returns [OF _ flash_inv_config(2) [OF ig]] by blast
      have "same_nvm_flash f (g\<lparr>nf_drv := d\<rparr>)" by (rule same_nvm_flash_trans [OF g(2) same_nvm_flash_drv [OF d(2)]])
      from this step [OF this, of "flash_code st'"] show ?thesis
        using \<open>o1 < e\<close> g(1) True d(1) by (subst check_erase_loop.simps) auto
    next
      case False
      then show ?thesis using \<open>o1 < e\<close> g(1,2) step [OF g(2), of st] by (subst check_erase_loop.simps) auto
    qed
  qed
qed

lemma block_product: "unat ((w :: u32) * BLOCK_SIZE_IN_BYTES) mod 4096 = 0"
proof -
  have "unat (w * BLOCK_SIZE_IN_BYTES) = (unat w * 4096) mod 2 ^ 32" by (simp add: BLOCK_SIZE_IN_BYTES_def unat_word_ariths)
  also have "\<dots> mod 4096 = (unat w * 4096) mod 4096" by (rule mod_mod_cancel) simp
  finally show ?thesis by simp
qed

lemma partial_check_erase_returns:
  assumes "flash_inv bus f"
  shows "\<exists>st f'. flash_partial_check_erase bus a n f = Some (st, f') \<and> same_nvm_flash f f'"
proof -
  have "unat (x * BLOCK_SIZE_IN_BYTES + y * BLOCK_SIZE_IN_BYTES) mod 4096 = 0" for x y :: u32
    unfolding distrib_right [symmetric] by (rule block_product)
  then show ?thesis
    using check_erase_loop_returns [OF assms block_product] by (simp add: flash_partial_check_erase_def Let_def)
qed

lemma flash_chip_erase_returns:
  assumes "flash_inv bus f" and "nf_flash_inited f"
  shows "\<exists>st f'. flash_chip_erase bus f = Some (st, f') \<and> same_nvm_flash f f'"
proof -
  obtain c where "fl_config (nf_drv f) = Some c" using assms by (auto simp: flash_inv_def)
  from drv_flash_erase_returns [OF this flash_inv_config(2) [OF assms(1)], of bus FLASH_CHIP_ERASE_E 0 1] show ?thesis
    by (auto simp: flash_chip_erase_def intro: same_nvm_flash_drv)
qed

section \<open>On a NOR chip\<close>

text \<open>The back end is initialised on a chip \<open>c\<close> of the table.\<close>

definition on_chip :: "'d qspi_bus \<Rightarrow> flash_config_data \<Rightarrow> 'd nvm_flash \<Rightarrow> bool" where
  "on_chip bus c f \<longleftrightarrow> flash_inv bus f \<and> nf_flash_inited f \<and> fl_config (nf_drv f) = Some c"

lemma on_chip_same: "same_nvm_flash f f' \<Longrightarrow> on_chip bus c f \<Longrightarrow> on_chip bus c f'"
  using flash_inv_same [of f f' bus] by (auto simp: on_chip_def same_nvm_flash_def same_drv_def)

lemma table_facts:
  assumes "c \<in> set (flash_device_config quad)"
  shows "fc_addr_bytes c \<le> 4" and "fc_read_wait_state c \<le> 16" and "fc_erase_4kb_opcode c \<noteq> 0"
    and "unat (fc_density_in_blocks c) * 4096 < 2 ^ 32 - 1"
  using assms by (auto simp: flash_device_config_def cfg_defs)

lemma on_chip_facts:
  assumes "on_chip bus c f"
  shows "fc_addr_bytes c \<le> 4" "fc_read_wait_state c \<le> 16" "fc_erase_4kb_opcode c \<noteq> 0"
    and "unat (fc_density_in_blocks c) * 4096 < 2 ^ 32 - 1" and "nf_density_in_blocks f = fc_density_in_blocks c"
    and "fl_init_done (nf_drv f)" and "fl_state (nf_drv f) = 0" and "fl_config (nf_drv f) = Some c"
    and "nf_comparative_buffer f = replicate 4096 0xFF"
proof -
  have c: "c \<in> set (flash_device_config (qb_quad_table bus))" using assms by (auto simp: on_chip_def flash_inv_def)
  show "fc_addr_bytes c \<le> 4" "fc_read_wait_state c \<le> 16" "fc_erase_4kb_opcode c \<noteq> 0"
    "unat (fc_density_in_blocks c) * 4096 < 2 ^ 32 - 1" by (rule table_facts [OF c])+
  show "nf_density_in_blocks f = fc_density_in_blocks c" "fl_init_done (nf_drv f)" "fl_state (nf_drv f) = 0"
    "fl_config (nf_drv f) = Some c" "nf_comparative_buffer f = replicate 4096 0xFF"
    using assms by (auto simp: on_chip_def flash_inv_def BLOCK_SIZE_IN_BYTES_def)
qed

lemma flash_read_loop_array:
  assumes nor: "nor_chip bus c content wel busy" and "on_chip bus c f" and "\<not> busy (fl_dev (nf_drv f))"
    and "unat a + unat n \<le> unat (fc_density_in_blocks c) * 4096"
  shows "\<exists>f'. flash_read_loop bus a n 0 acc f = Some (0, acc @ mem_read (content (fl_dev (nf_drv f))) a (unat n), f')
     \<and> same_nvm_flash f f' \<and> content (fl_dev (nf_drv f')) = content (fl_dev (nf_drv f)) \<and> \<not> busy (fl_dev (nf_drv f'))"
  using assms(2-4)
proof (induction "unat n" arbitrary: a n acc f rule: less_induct)
  case less
  note oc = on_chip_facts [OF less.prems(1)]
  show ?case
  proof (cases "n = 0")
    case True
    then show ?thesis using less.prems(2) by (simp add: flash_read_loop.simps)
  next
    case False
    define k where "k = slice_size a n"
    have k: "0 < unat k" "unat k \<le> unat n"
      using slice_size_bounds [OF False, of a] by (simp_all add: k_def word_less_nat_alt word_le_nat_alt)
    have sub: "unat (n - k) = unat n - unat k" using k(2) by (simp add: unat_sub word_le_nat_alt)
    have ak: "unat (a + k) = unat a + unat k" using less.prems(3) oc(4) k(2) by (simp add: unat_word_ariths)
    have "k \<noteq> 0" using k(1) by auto
    then have rng: "\<not> range_bad (fc_density_in_blocks c) a k"
      using range_ok_iff [of "fc_density_in_blocks c" a k] oc(4) less.prems(3) k(2) by simp
    obtain d where d: "drv_flash_read bus a k True False (nf_drv f) =
        Some (FLASH_DEVICE_DONE, mem_read (content (fl_dev (nf_drv f))) a (unat k), (nf_drv f)\<lparr>fl_dev := d\<rparr>)"
      "content d = content (fl_dev (nf_drv f))" "\<not> busy d"
      using read_returns_array [OF nor oc(8,1,2,6,7) less.prems(2) rng] by blast
    let ?f = "f\<lparr>nf_drv := (nf_drv f)\<lparr>fl_dev := d\<rparr>\<rparr>"
    let ?m = "content (fl_dev (nf_drv f))"
    have sf: "same_nvm_flash f ?f" by (rule same_nvm_flash_drv) simp
    have "\<exists>f'. flash_read_loop bus (a + k) (n - k) 0 (acc @ mem_read ?m a (unat k)) ?f =
        Some (0, (acc @ mem_read ?m a (unat k)) @ mem_read (content (fl_dev (nf_drv ?f))) (a + k) (unat (n - k)), f')
        \<and> same_nvm_flash ?f f' \<and> content (fl_dev (nf_drv f')) = content (fl_dev (nf_drv ?f)) \<and> \<not> busy (fl_dev (nf_drv f'))"
      by (rule less.hyps [OF _ on_chip_same [OF sf less.prems(1)]]) (use d(3) k sub ak less.prems(3) in simp_all)
    then obtain f' where "flash_read_loop bus (a + k) (n - k) 0 (acc @ mem_read ?m a (unat k)) ?f =
        Some (0, (acc @ mem_read ?m a (unat k)) @ mem_read ?m (a + k) (unat n - unat k), f')"
      "same_nvm_flash ?f f'" "content (fl_dev (nf_drv f')) = ?m" "\<not> busy (fl_dev (nf_drv f'))"
      using d(2) sub by auto
    moreover have "mem_read ?m a (unat n) = mem_read ?m a (unat k) @ mem_read ?m (a + k) (unat n - unat k)"
      using mem_read_add [of ?m a "unat k" "unat n - unat k"] k(2) by simp
    moreover have "flash_read_loop bus a n 0 acc f = flash_read_loop bus (a + k) (n - k) 0 (acc @ mem_read ?m a (unat k)) ?f"
      using False d(1) by (subst flash_read_loop.simps) (simp add: k_def [symmetric] QAPI_OK_def)
    ultimately show ?thesis using same_nvm_flash_trans [OF sf] by auto
  qed
qed

lemma flash_read_array:
  assumes "nor_chip bus c content wel busy" and "on_chip bus c f" and "\<not> busy (fl_dev (nf_drv f))"
    and "unat a + unat n \<le> unat (fc_density_in_blocks c) * 4096"
  shows "\<exists>f'. flash_read bus a n f = Some (0, mem_read (content (fl_dev (nf_drv f))) a (unat n), f')
     \<and> same_nvm_flash f f' \<and> content (fl_dev (nf_drv f')) = content (fl_dev (nf_drv f)) \<and> \<not> busy (fl_dev (nf_drv f'))"
  using flash_read_loop_array [OF assms, of "[]"] by (simp add: flash_read_def QAPI_OK_def)

lemma erased_ones:
  assumes "mem_read m a n = replicate n 0xFF"
  shows "erased m a n = m"
proof
  fix x show "erased m a n x = m x"
  proof (cases "unat (x - a) < n")
    case True
    have "mem_read m a n ! unat (x - a) = 0xFF" using True assms by simp
    then show ?thesis using True by (simp add: erased_def)
  qed (simp add: erased_def)
qed

lemma erased_erased: "i \<le> n \<Longrightarrow> erased (erased m a n) a i = erased m a n"
  by (rule ext) (simp add: erased_def)

lemma block_erase_done:
  assumes "nor_chip bus c content wel busy" and oc: "on_chip bus c g" and idle: "\<not> busy (fl_dev (nf_drv g))"
    and fits: "(unat sb + unat k) * 4096 \<le> unat (fc_density_in_blocks c) * 4096"
    and "drv_flash_erase bus FLASH_BLOCK_ERASE_E sb k (nf_drv g) = Some (FLASH_DEVICE_DONE, d)"
  shows "content (fl_dev d) = erased (content (fl_dev (nf_drv g))) (sb * BLOCK_SIZE_IN_BYTES) (unat k * 4096)"
    and "same_drv (nf_drv g) d" and "\<not> busy (fl_dev d)"
proof -
  note f = on_chip_facts [OF oc]
  have bsz: "unat BLOCK_SIZE_IN_BYTES = 4096" by (simp add: BLOCK_SIZE_IN_BYTES_def)
  have par: "erase_params c FLASH_BLOCK_ERASE_E = Some (BLOCK_SIZE_IN_BYTES, fc_erase_4kb_opcode c, fc_addr_bytes c, ERASE_TIMEOUT, ERASE_STATUS_POLLING_MSEC)"
    using f(3) by (simp add: erase_params_def)
  have "(unat sb + unat k) * unat BLOCK_SIZE_IN_BYTES < 2 ^ 32" using fits f(4) by (simp add: bsz)
  from erase_erases [OF assms(1) f(8,1) par _ this idle assms(5)]
  show "content (fl_dev d) = erased (content (fl_dev (nf_drv g))) (sb * BLOCK_SIZE_IN_BYTES) (unat k * 4096)" "same_drv (nf_drv g) d" "\<not> busy (fl_dev d)"
    by (simp_all add: bsz)
qed

text \<open>The loop over the blocks leaves the whole range erased, with or without an erase.\<close>

lemma check_erase_loop_done:
  assumes nor: "nor_chip bus c content wel busy"
    and fits: "(unat sb + unat k) * 4096 \<le> unat (fc_density_in_blocks c) * 4096" and e: "unat e = (unat sb + unat k) * 4096"
    and "on_chip bus c f" and "unat o1 = (unat sb + i) * 4096" and "i \<le> unat k"
    and "erased (content (fl_dev (nf_drv f))) (sb * BLOCK_SIZE_IN_BYTES) (i * 4096) = content (fl_dev (nf_drv f))"
    and "\<not> busy (fl_dev (nf_drv f))" and "check_erase_loop bus sb k o1 e 0 f = Some (0, f')"
  shows "content (fl_dev (nf_drv f')) = erased (content (fl_dev (nf_drv f))) (sb * BLOCK_SIZE_IN_BYTES) (unat k * 4096) \<and> \<not> busy (fl_dev (nf_drv f'))"
  using assms(4-)
proof (induction "unat k - i" arbitrary: i o1 f rule: less_induct)
  case less
  note oc = on_chip_facts [OF less.prems(1)]
  let ?A = "sb * BLOCK_SIZE_IN_BYTES" and ?m = "content (fl_dev (nf_drv f))"
  have bsz: "unat BLOCK_SIZE_IN_BYTES = 4096" by (simp add: BLOCK_SIZE_IN_BYTES_def)
  show ?case
  proof (cases "i = unat k")
    case True
    then have "\<not> o1 < e" using less.prems(2) e by (simp add: word_less_nat_alt)
    then have "f' = f" using less.prems(6) by (subst (asm) check_erase_loop.simps) simp
    then show ?thesis using less.prems(4,5) True by simp
  next
    case False
    then have i: "i < unat k" using less.prems(3) by simp
    then have lt: "o1 < e" using less.prems(2) e by (simp add: word_less_nat_alt)
    have kmax: "unat k * 4096 < 2 ^ 32 - 1" and smax: "unat sb * 4096 < 2 ^ 32 - 1" using fits oc(4) by simp_all
    have A: "unat ?A = unat sb * 4096" using smax by (simp add: unat_word_ariths bsz)
    have o1: "o1 = ?A + of_nat (i * 4096)"
    proof -
      have "unat (?A + of_nat (i * 4096)) = unat ?A + i * 4096"
        by (rule unat_addr_offset) (use A i fits oc(4) in \<open>simp add: algebra_simps\<close>)
      then show ?thesis using less.prems(2) A by (simp add: word_unat_eq_iff algebra_simps)
    qed
    have room: "unat o1 + 4096 \<le> unat (fc_density_in_blocks c) * 4096" using less.prems(2) i fits by simp
    obtain g where g: "flash_read bus o1 BLOCK_SIZE_IN_BYTES f = Some (0, mem_read ?m o1 4096, g)" "same_nvm_flash f g"
      "content (fl_dev (nf_drv g)) = ?m" "\<not> busy (fl_dev (nf_drv g))"
      using flash_read_array [OF nor less.prems(1,5), of o1 BLOCK_SIZE_IN_BYTES] room bsz by auto
    have og: "on_chip bus c g" by (rule on_chip_same [OF g(2) less.prems(1)])
    have o2: "unat (o1 + BLOCK_SIZE_IN_BYTES) = (unat sb + Suc i) * 4096"
      using less.prems(2) room oc(4) by (simp add: unat_word_ariths bsz)
    have next_block: "content (fl_dev (nf_drv f')) = erased (content (fl_dev (nf_drv h))) ?A (unat k * 4096) \<and> \<not> busy (fl_dev (nf_drv f'))"
      if "on_chip bus c h" "\<not> busy (fl_dev (nf_drv h))" "erased (content (fl_dev (nf_drv h))) ?A (Suc i * 4096) = content (fl_dev (nf_drv h))"
        "check_erase_loop bus sb k (o1 + BLOCK_SIZE_IN_BYTES) e 0 h = Some (0, f')" for h
      by (rule less.hyps [OF _ that(1) o2 _ that(3,2,4)]) (use i in simp_all)
    show ?thesis
    proof (cases "mem_read ?m o1 4096 = replicate 4096 0xFF")
      case True
      have "erased ?m ?A (Suc i * 4096) = erased (erased ?m ?A (i * 4096)) o1 4096"
        using erased_add [of "i * 4096" 4096 ?m ?A] o1 i kmax by (simp add: add.commute)
      then have "erased ?m ?A (Suc i * 4096) = ?m" using less.prems(4) erased_ones [OF True] by simp
      moreover have "check_erase_loop bus sb k (o1 + BLOCK_SIZE_IN_BYTES) e 0 g = Some (0, f')"
        using less.prems(6) lt g(1) True on_chip_facts(9) [OF og] by (subst (asm) check_erase_loop.simps) simp
      ultimately show ?thesis using next_block [OF og g(4)] g(3) by simp
    next
      case dirty: False
      obtain st d where d: "drv_flash_erase bus FLASH_BLOCK_ERASE_E sb k (nf_drv g) = Some (st, d)"
        using drv_flash_erase_returns [OF on_chip_facts(8,7) [OF og], of bus FLASH_BLOCK_ERASE_E sb k] by blast
      have st: "st = FLASH_DEVICE_DONE"
        and rest: "check_erase_loop bus sb k (o1 + BLOCK_SIZE_IN_BYTES) e 0 (g\<lparr>nf_drv := d\<rparr>) = Some (0, f')"
        using less.prems(6) lt g(1) dirty d on_chip_facts(9) [OF og]
        by (subst (asm) check_erase_loop.simps; simp split: if_splits)+
      note er = block_erase_done [OF nor og g(4) fits d [unfolded st]]
      have c1: "content (fl_dev d) = erased ?m ?A (unat k * 4096)" and sd: "same_drv (nf_drv g) d" and quiet: "\<not> busy (fl_dev d)"
        using er g(3) by simp_all
      have "on_chip bus c (g\<lparr>nf_drv := d\<rparr>)" by (rule on_chip_same [OF same_nvm_flash_drv [OF sd] og])
      from next_block [OF this _ _ rest] show ?thesis
        using quiet c1 i erased_erased [of "Suc i * 4096" "unat k * 4096" ?m ?A] erased_erased [of "unat k * 4096" "unat k * 4096" ?m ?A]
        by simp
    qed
  qed
qed

text \<open>The blocks a range of \<open>n\<close> bytes from a block boundary touches.\<close>

definition blocks_of :: "nat \<Rightarrow> nat" where
  "blocks_of n = (n + 4095) div 4096"

lemma block_count:
  fixes a n :: u32
  assumes "unat a mod 4096 = 0" and "n \<noteq> 0" and "unat a + unat n < 2 ^ 32"
  shows "a div BLOCK_SIZE_IN_BYTES * BLOCK_SIZE_IN_BYTES = a"
    and "unat ((a + n - 1) div BLOCK_SIZE_IN_BYTES - a div BLOCK_SIZE_IN_BYTES + 1) = blocks_of (unat n)"
    and "unat (a div BLOCK_SIZE_IN_BYTES) * 4096 = unat a"
proof -
  have bsz: "unat BLOCK_SIZE_IN_BYTES = 4096" by (simp add: BLOCK_SIZE_IN_BYTES_def)
  obtain q where q: "unat a = 4096 * q" using assms(1) by (auto simp: mod_eq_0_iff_dvd elim!: dvdE)
  have sb: "unat (a div BLOCK_SIZE_IN_BYTES) = q" by (simp add: unat_div_distrib bsz q)
  then show m: "unat (a div BLOCK_SIZE_IN_BYTES) * 4096 = unat a" using q by simp
  show "a div BLOCK_SIZE_IN_BYTES * BLOCK_SIZE_IN_BYTES = a"
    unfolding word_unat_eq_iff using m unsigned_less [of a, where ?'a = nat] by (simp add: unat_word_ariths bsz)
  have n: "0 < unat n" using assms(2) by (simp add: unat_gt_0)
  have an: "unat (a + n) = unat a + unat n" using assms(3) by (simp add: unat_word_ariths)
  then have "a + n \<noteq> 0" using n by (metis add_is_0 less_numeral_extra(3) unat_0)
  then have "unat (a + n - 1) = 4096 * q + (unat n - 1)" using an n q by (simp add: unat_minus_one)
  then have eb: "unat ((a + n - 1) div BLOCK_SIZE_IN_BYTES) = q + (unat n - 1) div 4096"
    by (simp add: unat_div_distrib bsz)
  have "(unat n - 1) div 4096 < 2 ^ 20" using unsigned_less [of n, where ?'a = nat] by simp
  then have "unat ((a + n - 1) div BLOCK_SIZE_IN_BYTES - a div BLOCK_SIZE_IN_BYTES + 1) = (unat n - 1) div 4096 + 1"
    using eb sb by (simp add: unat_sub word_le_nat_alt unat_word_ariths)
  moreover have "blocks_of (unat n) = (unat n - 1) div 4096 + 1"
  proof -
    have "unat n + 4095 = (unat n - 1) + 4096" using n by simp
    then show ?thesis by (simp add: blocks_of_def)
  qed
  ultimately show "unat ((a + n - 1) div BLOCK_SIZE_IN_BYTES - a div BLOCK_SIZE_IN_BYTES + 1) = blocks_of (unat n)" by simp
qed

lemma blocks_of_fit:
  assumes "a = 4096 * q" and "a + n \<le> 4096 * d" and "0 < n"
  shows "q + blocks_of n \<le> d"
  using assms unfolding blocks_of_def by simp

lemma check_erase_done:
  assumes nor: "nor_chip bus c content wel busy" and oc: "on_chip bus c f" and idle: "\<not> busy (fl_dev (nf_drv f))"
    and rng: "n \<noteq> 0" "unat a + unat n \<le> unat (fc_density_in_blocks c) * 4096"
    and run: "flash_partial_check_erase bus a n f = Some (0, f')"
  shows "content (fl_dev (nf_drv f')) = erased (content (fl_dev (nf_drv f))) a (blocks_of (unat n) * 4096)"
    and "unat a mod 4096 = 0" and "\<not> busy (fl_dev (nf_drv f'))"
proof -
  note f = on_chip_facts [OF oc]
  have v: "flash_verify_address a n f" using run by (auto simp: flash_partial_check_erase_def QAPI_ERR_BOUNDS_def split: if_splits)
  have bsz: "unat BLOCK_SIZE_IN_BYTES = 4096" by (simp add: BLOCK_SIZE_IN_BYTES_def)
  have "unat (a mod BLOCK_SIZE_IN_BYTES) = unat a mod 4096" by (simp add: unat_mod_distrib bsz)
  then show al: "unat a mod 4096 = 0" using v by (simp add: flash_verify_address_def)
  define sb k where "sb = a div BLOCK_SIZE_IN_BYTES" and "k = (a + n - 1) div BLOCK_SIZE_IN_BYTES - sb + 1"
  have top: "unat a + unat n < 2 ^ 32" using rng(2) f(4) by simp
  note bc = block_count [OF al rng(1) top, folded sb_def, folded k_def]
  have "unat sb + blocks_of (unat n) \<le> unat (fc_density_in_blocks c)"
    by (rule blocks_of_fit [of "unat a"]) (use bc(3) rng in \<open>simp_all add: unat_gt_0\<close>)
  then have fits: "(unat sb + unat k) * 4096 \<le> unat (fc_density_in_blocks c) * 4096" using bc(2) by simp
  have e: "unat (sb * BLOCK_SIZE_IN_BYTES + k * BLOCK_SIZE_IN_BYTES) = (unat sb + unat k) * 4096"
  proof -
    have s: "unat (sb + k) = unat sb + unat k" using fits f(4) by (simp add: unat_word_ariths)
    show ?thesis unfolding distrib_right [symmetric] using s fits f(4) by (simp add: unat_word_ariths bsz)
  qed
  have "k \<noteq> 0"
  proof -
    have "0 < blocks_of (unat n)" using rng(1) by (simp add: blocks_of_def unat_gt_0 Suc_le_eq div_greater_zero_iff)
    then show ?thesis using bc(2) by auto
  qed
  then have "check_erase_loop bus sb k (sb * BLOCK_SIZE_IN_BYTES) (sb * BLOCK_SIZE_IN_BYTES + k * BLOCK_SIZE_IN_BYTES) 0 f = Some (0, f')"
    using run v by (simp add: flash_partial_check_erase_def Let_def sb_def k_def)
  from check_erase_loop_done [OF nor fits e oc _ _ _ idle this, of 0]
  show "content (fl_dev (nf_drv f')) = erased (content (fl_dev (nf_drv f))) a (blocks_of (unat n) * 4096)" "\<not> busy (fl_dev (nf_drv f'))"
    using bc by simp_all
qed

lemma flash_write_done:
  assumes nor: "nor_chip bus c content wel busy" and oc: "on_chip bus c f" and idle: "\<not> busy (fl_dev (nf_drv f))"
    and run: "flash_write bus a bs n f = Some (0, f')"
  shows "content (fl_dev (nf_drv f')) = program (erased (content (fl_dev (nf_drv f))) a (blocks_of (unat n) * 4096)) a (take (unat n) bs)"
    and "n \<noteq> 0" and "unat a mod 4096 = 0" and "unat a + unat n \<le> unat (fc_density_in_blocks c) * 4096"
    and "unat n \<le> length bs" and "on_chip bus c f'" and "\<not> busy (fl_dev (nf_drv f'))"
proof -
  have "flash_inv bus f" using oc by (simp add: on_chip_def)
  from partial_check_erase_returns [OF this, of a n] obtain st g where
    g: "flash_partial_check_erase bus a n f = Some (st, g)" "same_nvm_flash f g" by blast
  have og: "on_chip bus c g" by (rule on_chip_same [OF g(2) oc])
  note fg = on_chip_facts [OF og]
  obtain st' d where d: "drv_flash_write bus a n (Some bs) False (nf_drv g) = Some (st', d)" "same_drv (nf_drv g) d"
    using drv_flash_write_returns [OF fg(8,7), of bus a n "Some bs" False] by blast
  have st: "st = 0" "st' = FLASH_DEVICE_DONE" and len: "unat n \<le> length bs" and f': "f' = g\<lparr>nf_drv := d\<rparr>"
    using run g(1) d(1) by (auto simp: flash_write_def QAPI_OK_def split: if_splits)
  have "\<not> range_bad (fc_density_in_blocks c) a n" by (rule drv_flash_write_done [OF d(1) [unfolded st(2)] fg(8)])
  then have rng: "n \<noteq> 0" "unat a + unat n \<le> unat (fc_density_in_blocks c) * 4096"
    using range_ok_iff [of "fc_density_in_blocks c" a n] fg(4) by simp_all
  note ce = check_erase_done [OF nor oc idle rng g(1) [unfolded st(1)]]
  note w = write_programs [OF nor fg(8,1) len ce(3) d(1) [unfolded st(2)]]
  show "content (fl_dev (nf_drv f')) = program (erased (content (fl_dev (nf_drv f))) a (blocks_of (unat n) * 4096)) a (take (unat n) bs)"
    using w(1) ce(1) f' by simp
  show "n \<noteq> 0" "unat a + unat n \<le> unat (fc_density_in_blocks c) * 4096" "unat a mod 4096 = 0" "unat n \<le> length bs"
    by (fact rng ce(2) len)+
  show "\<not> busy (fl_dev (nf_drv f'))" using w(3) f' by simp
  show "on_chip bus c f'" unfolding f' by (rule on_chip_same [OF same_nvm_flash_drv [OF d(2)] og])
qed

end
