(* ===== verification/Nvm_Correct.thy ===== *)
theory Nvm_Correct
  imports Nvm_Crc Nvm_Flash_Correct
begin

text \<open>
  The back ends as readers for the checksum, and the invariant of the programmer: which
  function pointers go with which attached device, kept by every command and every change
  the debugger makes.
\<close>

section \<open>The back ends as readers\<close>

lemma unat_BUFFER_SIZE [simp]: "unat BUFFER_SIZE = 16384"
  by (simp add: BUFFER_SIZE_def)

lemma buffer_step:
  assumes "BUFFER_SIZE < (n :: u32)"
  shows "16384 < unat n" and "unat (n - BUFFER_SIZE) = unat n - 16384"
proof -
  show lt: "16384 < unat n" using assms by (simp add: word_less_nat_alt)
  then show "unat (n - BUFFER_SIZE) = unat n - 16384" by (simp add: unat_sub word_le_nat_alt)
qed

lemma buffer_offset: "unat a + 16384 < 2 ^ 32 \<Longrightarrow> unat ((a :: u32) + BUFFER_SIZE) = unat a + 16384"
  using unat_BUFFER_SIZE by (simp add: unat_word_ariths)

lemma mod4_step: "(x + 16384) mod 4 = x mod (4 :: nat)"
  by presburger

text \<open>A reader that refuses an invalid range without touching anything, and whose valid ranges
  are exactly those that are valid chunk by chunk.\<close>

locale strict_reader = chunk_reader rd content valid
  for rd :: "u32 \<Rightarrow> u32 \<Rightarrow> 's \<Rightarrow> (int \<times> bytes \<times> 's) option" and content :: "'s \<Rightarrow> u32 \<Rightarrow> u8" and valid :: "u32 \<Rightarrow> u32 \<Rightarrow> 's \<Rightarrow> bool" +
  fixes err :: int
  assumes err: "err \<noteq> 0"
    and rejects: "\<not> valid a n s \<Longrightarrow> rd a n s = Some (err, [], s)"
    and same: "rd a n s = Some (st, bs, s') \<Longrightarrow> s' = s"
    and joins: "BUFFER_SIZE < n \<Longrightarrow> valid a BUFFER_SIZE s \<Longrightarrow> valid (a + BUFFER_SIZE) (n - BUFFER_SIZE) s \<Longrightarrow> valid a n s"
begin

lemma checksum_loop_rejects:
  assumes "\<not> valid a n s" and "n \<noteq> 0" and "unat BUFFER_SIZE \<le> length data"
  shows "\<exists>r data'. Checksum_loop rd a n c data s = Some (err, r, data', s) \<and> length data' = length data"
  using assms
proof (induction "unat n" arbitrary: a n c data rule: less_induct)
  case less
  define k where "k = (if n > BUFFER_SIZE then BUFFER_SIZE else n)"
  have k: "unat k \<le> unat n" "0 < unat k" "unat k \<le> unat BUFFER_SIZE" "k \<noteq> 0"
    using less.prems(2) by (auto simp: k_def word_less_nat_alt unat_gt_0 BUFFER_SIZE_def)
  show ?case
  proof (cases "valid a k s")
    case False
    have "store_bytes data 0 [] = Some data" by (simp add: store_bytes_def)
    then show ?thesis using less.prems(2) rejects [OF False] err
      by (subst Checksum_loop.simps) (simp add: k_def [symmetric] Let_def)
  next
    case True
    then have lt: "n > BUFFER_SIZE" "k = BUFFER_SIZE" using less.prems(1) by (auto simp: k_def split: if_splits)
    then have nv: "\<not> valid (a + k) (n - k) s" using joins [OF lt(1)] True less.prems(1) by auto
    obtain s' where "rd a k s = Some (0, mem_read (content s) a (unat k), s')" using reads [OF True k(4)] by blast
    then have rd: "rd a k s = Some (0, mem_read (content s) a (unat k), s)" using same by blast
    let ?d = "mem_read (content s) a (unat k) @ drop (unat k) data"
    have st: "store_bytes data 0 (mem_read (content s) a (unat k)) = Some ?d" using k(3) less.prems(3) by (simp add: store_bytes_def)
    have ld: "length ?d = length data" using k(3) less.prems(3) by simp
    have sub: "unat (n - k) = unat n - unat k" using k(1) by (simp add: unat_sub word_le_nat_alt)
    have "n - k \<noteq> 0" using lt by auto
    from less.hyps [OF _ nv this, of ?d] k sub ld less.prems(3) show ?thesis
      using less.prems(2) rd st by (subst Checksum_loop.simps) (simp add: k_def [symmetric] Let_def)
  qed
qed

end

interpretation rram: strict_reader "call_read bus Nvm_rram_read" "\<lambda>d. hw_mem (nd_hw d)"
  "\<lambda>a n d. nvm_rram_verify_address a n" QAPI_ERR_BOUNDS
  for bus :: "'d qspi_bus"
proof unfold_locales
  fix a n :: u32 and s :: "'d nvm_dev"
  show "nvm_rram_verify_address a n \<Longrightarrow> BUFFER_SIZE < n \<Longrightarrow>
      nvm_rram_verify_address a BUFFER_SIZE \<and> nvm_rram_verify_address (a + BUFFER_SIZE) (n - BUFFER_SIZE)"
    using buffer_step [of n] buffer_offset [of a] by (auto simp: nvm_verify_iff mod4_step)
  show "BUFFER_SIZE < n \<Longrightarrow> nvm_rram_verify_address a BUFFER_SIZE \<Longrightarrow> nvm_rram_verify_address (a + BUFFER_SIZE) (n - BUFFER_SIZE) \<Longrightarrow>
      nvm_rram_verify_address a n"
    using buffer_step [of n] buffer_offset [of a] by (auto simp: nvm_verify_iff)
qed (auto simp: nvm_rram_read_def rram_read_def QAPI_ERR_BOUNDS_def split: if_splits)

interpretation otp: strict_reader "call_read bus Otp_rram_read" "\<lambda>d. hw_mem (nd_hw d)"
  "\<lambda>a n d. otp_rram_verify_address a n" QAPI_ERR_BOUNDS
  for bus :: "'d qspi_bus"
proof unfold_locales
  fix a n :: u32 and s :: "'d nvm_dev"
  show "otp_rram_verify_address a n \<Longrightarrow> BUFFER_SIZE < n \<Longrightarrow>
      otp_rram_verify_address a BUFFER_SIZE \<and> otp_rram_verify_address (a + BUFFER_SIZE) (n - BUFFER_SIZE)"
    using buffer_step [of n] by (auto simp: otp_verify_iff)
  show "BUFFER_SIZE < n \<Longrightarrow> otp_rram_verify_address a BUFFER_SIZE \<Longrightarrow> otp_rram_verify_address (a + BUFFER_SIZE) (n - BUFFER_SIZE) \<Longrightarrow>
      otp_rram_verify_address a n"
    using buffer_step [of n] by (auto simp: otp_verify_iff)
qed (auto simp: otp_rram_read_def rram_read_def QAPI_ERR_BOUNDS_def split: if_splits)

interpretation nor: chunk_reader "call_read bus Flash_read" "\<lambda>d. content (fl_dev (nf_drv (nd_flash d)))"
  "\<lambda>a n d. nor_chip bus c content wel busy \<and> on_chip bus c (nd_flash d) \<and> \<not> busy (fl_dev (nf_drv (nd_flash d))) \<and> unat a + unat n \<le> unat (fc_density_in_blocks c) * 4096"
  for bus :: "'d qspi_bus" and c content wel busy
proof unfold_locales
  fix a n :: u32 and s :: "'d nvm_dev"
  let ?valid = "\<lambda>a n d. nor_chip bus c content wel busy \<and> on_chip bus c (nd_flash d) \<and> \<not> busy (fl_dev (nf_drv (nd_flash d))) \<and> unat a + unat n \<le> unat (fc_density_in_blocks c) * 4096"
  assume v: "?valid a n s"
  obtain f where f: "flash_read bus a n (nd_flash s) = Some (0, mem_read (content (fl_dev (nf_drv (nd_flash s)))) a (unat n), f)"
      "same_nvm_flash (nd_flash s) f" "content (fl_dev (nf_drv f)) = content (fl_dev (nf_drv (nd_flash s)))"
      "\<not> busy (fl_dev (nf_drv f))"
    using flash_read_array [of bus c content wel busy "nd_flash s" a n] v by blast
  have "on_chip bus c f" using on_chip_same [OF f(2)] v by blast
  then show "\<exists>s'. call_read bus Flash_read a n s = Some (0, mem_read (content (fl_dev (nf_drv (nd_flash s)))) a (unat n), s')
      \<and> content (fl_dev (nf_drv (nd_flash s'))) = content (fl_dev (nf_drv (nd_flash s))) \<and> (\<forall>b k. ?valid b k s' = ?valid b k s)"
    using f v by auto
  assume lt: "BUFFER_SIZE < n"
  have "unat (fc_density_in_blocks c) * 4096 < 2 ^ 32 - 1" using v on_chip_facts(4) [of bus c "nd_flash s"] by blast
  then show "?valid a BUFFER_SIZE s \<and> ?valid (a + BUFFER_SIZE) (n - BUFFER_SIZE) s"
    using v buffer_step [OF lt] buffer_offset [of a] by simp
qed

section \<open>Calls return\<close>

text \<open>A read transaction stores at most the bytes asked for.\<close>

definition bus_sized :: "'d qspi_bus \<Rightarrow> bool" where
  "bus_sized bus \<longleftrightarrow> (\<forall>cmd a n d. length (fst (qb_transact bus cmd a (Xfer_in n) d)) \<le> n)"

lemma drv_flash_read_length:
  assumes "bus_sized bus" and "drv_flash_read bus a n b cb s = Some (st, bs, s')"
  shows "length bs \<le> unat n"
proof -
  have run: "length bs \<le> unat n" if "drv_qspi_run_cmd bus cmd a (Xfer_in (unat n)) t = (ok, bs, t')" for cmd t ok bs t'
  proof -
    have "length (fst (qb_transact bus cmd a (Xfer_in (unat n)) (fl_dev t))) \<le> unat n" using assms(1) by (simp add: bus_sized_def)
    then show ?thesis using that by (auto simp: drv_qspi_run_cmd_def split: if_splits prod.splits)
  qed
  show ?thesis
    using assms(2) by (auto simp: drv_flash_read_def Let_def split: if_splits option.splits bind_splits prod.splits dest: run)
qed

lemma flash_read_loop_length:
  assumes "bus_sized bus" and "flash_read_loop bus a n st acc f = Some (st', bs, f')"
  shows "length bs \<le> length acc + unat n"
  using assms(2)
proof (induction "unat n" arbitrary: a n st acc f rule: less_induct)
  case less
  show ?case
  proof (cases "n = 0")
    case True
    then show ?thesis using less.prems by (subst (asm) flash_read_loop.simps) simp
  next
    case False
    let ?k = "slice_size a n"
    have k: "0 < unat ?k" "unat ?k \<le> unat n"
      using slice_size_bounds [OF False, of a] by (simp_all add: word_less_nat_alt word_le_nat_alt)
    then have sub: "unat (n - ?k) = unat n - unat ?k" by (simp add: unat_sub word_le_nat_alt)
    obtain st1 bs1 d where d: "drv_flash_read bus a ?k True False (nf_drv f) = Some (st1, bs1, d)"
      using less.prems False by (subst (asm) flash_read_loop.simps) (auto simp: Let_def split: bind_splits)
    have l: "length bs1 \<le> unat ?k" by (rule drv_flash_read_length [OF assms(1) d])
    show ?thesis
    proof (cases "st1 = FLASH_DEVICE_DONE")
      case True
      have "flash_read_loop bus (a + ?k) (n - ?k) 0 (acc @ bs1) (f\<lparr>nf_drv := d\<rparr>) = Some (st', bs, f')"
        using less.prems False d True by (subst (asm) flash_read_loop.simps) (simp add: Let_def QAPI_OK_def)
      from less.hyps [OF _ this] show ?thesis using k sub l by simp
    next
      case err: False
      then have "bs = acc @ bs1" using less.prems False d by (subst (asm) flash_read_loop.simps) (simp add: Let_def QAPI_OK_def)
      then show ?thesis using l k by simp
    qed
  qed
qed

text \<open>The devices are in order, and the bus keeps to the sizes asked for.\<close>

definition dev_inv :: "'d qspi_bus \<Rightarrow> 'd nvm_dev \<Rightarrow> bool" where
  "dev_inv bus d \<longleftrightarrow> bus_sized bus \<and> flash_inv bus (nd_flash d)"

definition same_dev :: "'d nvm_dev \<Rightarrow> 'd nvm_dev \<Rightarrow> bool" where
  "same_dev d d' \<longleftrightarrow> same_nvm_flash (nd_flash d) (nd_flash d')"

lemma same_dev_inv: "same_dev d d' \<Longrightarrow> dev_inv bus d \<Longrightarrow> dev_inv bus d'"
  using flash_inv_same by (auto simp: same_dev_def dev_inv_def)

lemma same_dev_refl [simp]: "same_dev d d"
  by (simp add: same_dev_def)

lemma same_dev_trans: "same_dev d e \<Longrightarrow> same_dev e g \<Longrightarrow> same_dev d g"
  by (auto simp: same_dev_def intro: same_nvm_flash_trans)

lemma same_dev_hw [simp]: "same_dev d (d\<lparr>nd_hw := h\<rparr>)" "same_dev d (d\<lparr>nd_flash := f\<rparr>) = same_nvm_flash (nd_flash d) f"
  by (simp_all add: same_dev_def)

text \<open>A reader that always returns, stores no more than asked for and keeps \<open>inv\<close>.\<close>

locale safe_reader =
  fixes rd :: "u32 \<Rightarrow> u32 \<Rightarrow> 's \<Rightarrow> (int \<times> bytes \<times> 's) option" and inv :: "'s \<Rightarrow> bool" and same :: "'s \<Rightarrow> 's \<Rightarrow> bool"
  assumes read_returns: "inv s \<Longrightarrow> \<exists>st bs s'. rd a n s = Some (st, bs, s') \<and> length bs \<le> unat n \<and> inv s' \<and> same s s'"
    and same_refl: "same s s" and same_trans: "same s t \<Longrightarrow> same t u \<Longrightarrow> same s u"
begin

lemma checksum_loop_returns:
  assumes "inv s" and "unat BUFFER_SIZE \<le> length data"
  shows "\<exists>st r data' s'. Checksum_loop rd a n c data s = Some (st, r, data', s') \<and> length data' = length data \<and> same s s'"
  using assms
proof (induction "unat n" arbitrary: a n c data s rule: less_induct)
  case less
  show ?case
  proof (cases "n = 0")
    case True
    then show ?thesis using same_refl by (simp add: Checksum_loop.simps)
  next
    case False
    define k where "k = (if n > BUFFER_SIZE then BUFFER_SIZE else n)"
    have k: "unat k \<le> unat n" "0 < unat k" "unat k \<le> unat BUFFER_SIZE"
      using False by (auto simp: k_def word_less_nat_alt unat_gt_0 BUFFER_SIZE_def)
    obtain st bs s1 where rd: "rd a k s = Some (st, bs, s1)" "length bs \<le> unat k" "inv s1" "same s s1"
      using read_returns [OF less.prems(1)] by blast
    let ?d = "bs @ drop (length bs) data"
    have ld: "length ?d = length data" and st: "store_bytes data 0 bs = Some ?d"
      using rd(2) k(3) less.prems(2) by (simp_all add: store_bytes_def)
    have "unat (n - k) < unat n" using k by (simp add: unat_sub word_le_nat_alt)
    from less.hyps [OF this rd(3), of ?d "a + k" "foldl crc_update c (take (unat k) ?d)"]
    obtain st' r d' s' where "Checksum_loop rd (a + k) (n - k) (foldl crc_update c (take (unat k) ?d)) ?d s1 = Some (st', r, d', s')"
      "length d' = length data" "same s1 s'"
      using ld less.prems(2) by auto
    then show ?thesis using False rd(1,4) st ld same_trans [OF rd(4)]
      by (subst Checksum_loop.simps) (auto simp: k_def [symmetric] Let_def)
  qed
qed

end

lemma call_read_returns:
  assumes "dev_inv bus d"
  shows "\<exists>st bs d'. call_read bus fn a n d = Some (st, bs, d') \<and> length bs \<le> unat n \<and> same_dev d d'"
proof (cases fn)
  case Flash_read
  obtain st bs f where f: "flash_read bus a n (nd_flash d) = Some (st, bs, f)" "same_nvm_flash (nd_flash d) f"
    using flash_read_returns [of bus "nd_flash d" a n] assms by (auto simp: dev_inv_def)
  moreover have "length bs \<le> unat n"
    using flash_read_loop_length [OF _ f(1) [unfolded flash_read_def]] assms by (simp add: dev_inv_def)
  ultimately show ?thesis using Flash_read by simp
qed (simp_all add: nvm_rram_read_def otp_rram_read_def rram_read_def)

interpretation backend: safe_reader "call_read bus fn" "dev_inv bus" same_dev
  for bus :: "'d qspi_bus" and fn
proof unfold_locales
  fix s :: "'d nvm_dev" and a n
  assume "dev_inv bus s"
  then show "\<exists>st bs s'. call_read bus fn a n s = Some (st, bs, s') \<and> length bs \<le> unat n \<and> dev_inv bus s' \<and> same_dev s s'"
    using call_read_returns [of bus s fn a n] same_dev_inv by blast
qed (auto intro: same_dev_trans)

lemma call_write_returns:
  assumes "dxe_copies dx" and "dxe_completes dx" and "dev_inv bus d" and "unat n \<le> length src" and "src \<noteq> []"
  shows "\<exists>st src' d'. call_write dx bus fn a src n d = Some (st, src', d') \<and> length src' = length src \<and> same_dev d d'"
proof (cases fn)
  case Nvm_rram_write
  show ?thesis
  proof (cases "nvm_rram_verify_address a n")
    case True
    then show ?thesis using Nvm_rram_write nvm_write_exact [OF assms(1,2) True assms(4), of "nd_hw d"] by (auto simp: done_with_def)
  qed (simp add: Nvm_rram_write nvm_rram_write_def)
next
  case Otp_rram_write
  show ?thesis
  proof (cases "otp_rram_verify_address a n")
    case True
    then show ?thesis using Otp_rram_write otp_write_exact [OF assms(1,2) True assms(4,5), of "nd_hw d"] by auto
  qed (simp add: Otp_rram_write otp_rram_write_def)
next
  case Flash_write
  have inv: "flash_inv bus (nd_flash d)" using assms(3) by (simp add: dev_inv_def)
  obtain st g where g: "flash_partial_check_erase bus a n (nd_flash d) = Some (st, g)" "same_nvm_flash (nd_flash d) g"
    using partial_check_erase_returns [OF inv, of a n] by blast
  have ig: "flash_inv bus g" by (rule flash_inv_same [OF g(2) inv])
  obtain st' drv where "drv_flash_write bus a n (Some src) False (nf_drv g) = Some (st', drv)" "same_drv (nf_drv g) drv"
  proof (cases "fl_init_done (nf_drv g)")
    case True
    then obtain c where "fl_config (nf_drv g) = Some c" using flash_inv_config(1) [OF ig] by auto
    from drv_flash_write_returns [OF this flash_inv_config(2) [OF ig]] that show thesis by blast
  qed (simp add: drv_flash_write_def that)
  then show ?thesis using Flash_write g assms(4) same_nvm_flash_trans [OF g(2) same_nvm_flash_drv]
    by (auto simp: flash_write_def)
qed

lemma call_erase_returns:
  assumes "dxe_copies dx" and "dxe_completes dx" and "dev_inv bus d"
  shows "\<exists>st d'. call_erase dx bus fn a n d = Some (st, d') \<and> same_dev d d'"
proof (cases fn)
  case Rram_erase
  show ?thesis
  proof (cases "rram_verify_erase_address a n")
    case True
    then show ?thesis using Rram_erase erase_exact [OF assms(1,2) True, of "nd_hw d"] by (auto simp: done_with_def)
  qed (simp add: Rram_erase rram_erase_def)
next
  case Flash_partial_check_erase
  then show ?thesis using partial_check_erase_returns [of bus "nd_flash d" a n] assms(3) by (auto simp: dev_inv_def)
qed

end
