(* ===== verification/Nvm_Invariant.thy ===== *)
theory Nvm_Invariant
  imports Nvm_Correct
begin

text \<open>
  The invariant of the programmer over every sequence of commands and debugger accesses,
  and that a command returns in every state that satisfies it.
\<close>

section \<open>Function pointers\<close>

type_synonym pointers = "write_fn option \<times> read_fn option \<times> erase_fn option \<times> chip_erase_fn option"

definition ptrs :: "'d nvm \<Rightarrow> pointers" where
  "ptrs s = (nv_Write s, nv_Read s, nv_Partial_Erase s, nv_Chip_Erase s)"

definition no_ptrs :: pointers where "no_ptrs = (None, None, None, None)"
definition rram_ptrs :: pointers where "rram_ptrs = (Some Nvm_rram_write, Some Nvm_rram_read, Some Rram_erase, None)"
definition otp_ptrs :: pointers where "otp_ptrs = (Some Otp_rram_write, Some Otp_rram_read, None, None)"
definition flash_ptrs :: pointers where
  "flash_ptrs = (Some Flash_write, Some Flash_read, Some Flash_partial_check_erase, Some Flash_chip_erase)"

lemmas ptrs_defs = ptrs_def no_ptrs_def rram_ptrs_def otp_ptrs_def flash_ptrs_def

lemmas type_defs = NVM_TYPE_NAME_NONE_def NVM_TYPE_NAME_RRAM_def NVM_TYPE_NAME_FLASH_def NVM_TYPE_NAME_OTP_def

text \<open>The pointers belong to the attached device, or to the flash: a flash that could not be
  attached leaves its pointers behind.\<close>

definition ptrs_inv :: "'d nvm \<Rightarrow> bool" where
  "ptrs_inv s \<longleftrightarrow>
     ptrs s = no_ptrs \<and> nv_Device_Type_Attached s = NVM_TYPE_NAME_NONE
     \<or> ptrs s = rram_ptrs \<and> nv_Device_Type_Attached s = NVM_TYPE_NAME_RRAM
     \<or> ptrs s = otp_ptrs \<and> nv_Device_Type_Attached s = NVM_TYPE_NAME_OTP
     \<or> ptrs s = flash_ptrs \<and> (nv_Device_Type_Attached s = NVM_TYPE_NAME_FLASH \<longrightarrow> nf_flash_inited (nd_flash (nv_dev s)))"

definition nvm_inv :: "'d qspi_bus \<Rightarrow> 'd nvm \<Rightarrow> bool" where
  "nvm_inv bus s \<longleftrightarrow> length (jp_data (nv_param s)) = 2 * unat BUFFER_SIZE \<and> dev_inv bus (nv_dev s) \<and> ptrs_inv s"

text \<open>What a command leaves alone.\<close>

definition keeps :: "'d nvm \<Rightarrow> 'd nvm \<Rightarrow> bool" where
  "keeps s s' \<longleftrightarrow> ptrs s' = ptrs s \<and> nv_Device_Type_Attached s' = nv_Device_Type_Attached s
     \<and> length (jp_data (nv_param s')) = length (jp_data (nv_param s)) \<and> same_dev (nv_dev s) (nv_dev s')"

lemma keeps_inv: "keeps s s' \<Longrightarrow> nvm_inv bus s \<Longrightarrow> nvm_inv bus s'"
  using same_dev_inv [of "nv_dev s" "nv_dev s'" bus]
  by (auto simp: keeps_def nvm_inv_def ptrs_inv_def same_dev_def same_nvm_flash_def)

lemma keeps_set [simp]:
  "keeps s (set_status v t) = keeps s t" "keeps s (set_address v t) = keeps s t"
  "keeps s (set_data ds t) \<longleftrightarrow> ptrs t = ptrs s \<and> nv_Device_Type_Attached t = nv_Device_Type_Attached s
     \<and> length ds = length (jp_data (nv_param s)) \<and> same_dev (nv_dev s) (nv_dev t)"
  "keeps s (s\<lparr>nv_dev := d\<rparr>) = same_dev (nv_dev s) d" "keeps s (s\<lparr>nv_System_Reset := b\<rparr>)"
  "ptrs (t\<lparr>nv_dev := d\<rparr>) = ptrs t" "keeps s s"
  by (simp_all add: keeps_def set_status_def set_address_def set_data_def ptrs_def)

lemma store_bytes_length: "store_bytes data off bs = Some data' \<Longrightarrow> length data' = length data"
  by (auto simp: store_bytes_def split: if_splits)

section \<open>Commands keep the invariant\<close>

lemma call_write_same:
  assumes "dev_inv bus d" and "call_write dx bus fn a src n d = Some (st, src', d')"
  shows "length src' = length src \<and> same_dev d d'"
proof (cases fn)
  case Nvm_rram_write
  then show ?thesis using assms(2) by auto
next
  case Otp_rram_write
  then show ?thesis using assms(2) by (auto simp: otp_rram_write_def Let_def split: if_splits bind_splits)
next
  case Flash_write
  have inv: "flash_inv bus (nd_flash d)" using assms(1) by (simp add: dev_inv_def)
  obtain st1 g where g: "flash_partial_check_erase bus a n (nd_flash d) = Some (st1, g)" "same_nvm_flash (nd_flash d) g"
    using partial_check_erase_returns [OF inv, of a n] by blast
  have ig: "flash_inv bus g" by (rule flash_inv_same [OF g(2) inv])
  have "same_drv (nf_drv g) drv" if "drv_flash_write bus a n (Some src) False (nf_drv g) = Some (st2, drv)" for st2 drv
  proof (cases "fl_init_done (nf_drv g)")
    case True
    then obtain c where "fl_config (nf_drv g) = Some c" using flash_inv_config(1) [OF ig] by auto
    from drv_flash_write_returns [OF this flash_inv_config(2) [OF ig], of bus a n "Some src" False] that show ?thesis by auto
  qed (use that in \<open>simp add: drv_flash_write_def\<close>)
  then show ?thesis using assms(2) Flash_write g same_nvm_flash_trans [OF g(2) same_nvm_flash_drv]
    by (auto simp: flash_write_def split: if_splits bind_splits)
qed

lemma call_erase_same:
  assumes "dev_inv bus d" and "call_erase dx bus fn a n d = Some (st, d')"
  shows "same_dev d d'"
proof (cases fn)
  case Flash_partial_check_erase
  then show ?thesis using partial_check_erase_returns [of bus "nd_flash d" a n] assms by (auto simp: dev_inv_def)
qed (use assms(2) in auto)

lemma call_chip_erase_same:
  assumes "dev_inv bus d" and "call_chip_erase bus fn d = Some (st, d')"
  shows "same_dev d d'"
proof (cases fn)
  case Flash_chip_erase
  have inv: "flash_inv bus (nd_flash d)" using assms(1) by (simp add: dev_inv_def)
  obtain st1 drv where e: "drv_flash_erase bus FLASH_CHIP_ERASE_E 0 1 (nf_drv (nd_flash d)) = Some (st1, drv)"
    using assms(2) Flash_chip_erase by (auto simp: flash_chip_erase_def split: bind_splits)
  then obtain c where "fl_config (nf_drv (nd_flash d)) = Some c" by (auto simp: drv_flash_erase_def split: bind_splits)
  from drv_flash_erase_returns [OF this flash_inv_config(2) [OF inv], of bus FLASH_CHIP_ERASE_E 0 1] e
  have "same_drv (nf_drv (nd_flash d)) drv" by auto
  then show ?thesis using assms(2) e Flash_chip_erase same_nvm_flash_drv by (auto simp: flash_chip_erase_def)
qed

lemma call_read_same:
  "dev_inv bus d \<Longrightarrow> call_read bus fn a n d = Some (st, bs, d') \<Longrightarrow> same_dev d d'"
  using call_read_returns [of bus d fn a n] by auto

lemma checksum_keeps:
  assumes "nvm_inv bus s" and "Checksum bus a n s = Some (r, s')"
  shows "keeps s s'"
proof -
  obtain rd where rd: "(if n = 0 then Some (\<lambda>_ _ _. None) else map_option (call_read bus) (nv_Read s)) = Some rd"
    using assms(2) by (auto simp: Checksum_def split: bind_splits)
  have "\<exists>st c data d. Checksum_loop rd a n 0xFFFFFFFF (jp_data (nv_param s)) (nv_dev s) = Some (st, c, data, d)
      \<and> length data = length (jp_data (nv_param s)) \<and> same_dev (nv_dev s) d"
  proof (cases "n = 0")
    case True
    then show ?thesis by (simp add: Checksum_loop.simps)
  next
    case False
    then obtain fn where "rd = call_read bus fn" using rd by auto
    then show ?thesis using backend.checksum_loop_returns [where s = "nv_dev s" and data = "jp_data (nv_param s)" and bus = bus and fn = fn and a = a and n = n and c = "0xFFFFFFFF"] assms(1)
      by (auto simp: nvm_inv_def)
  qed
  then show ?thesis using assms(2) rd
    by (auto simp: Checksum_def Let_def keeps_def ptrs_def split: if_splits)
qed

lemma run_command_keeps:
  assumes inv: "nvm_inv bus s" and run: "run_command dx bus s = Some s'"
  shows "keeps s s'"
proof -
  have dev: "dev_inv bus (nv_dev s)" using inv by (simp add: nvm_inv_def)
  note same = call_write_same [OF dev] call_erase_same [OF dev] call_chip_erase_same [OF dev] call_read_same [OF dev]
  have "keeps s s'" if "run_program dx bus s = Some s'"
    using that same(1) by (auto simp: run_program_def Let_def split: bind_splits)
  moreover have "keeps s s'" if "run_chip_erase bus s = Some s'"
    using that same(3) by (auto simp: run_chip_erase_def split: bind_splits option.splits)
  moreover have "keeps s s'" if "run_partial_erase dx bus s = Some s'"
    using that same(2) by (auto simp: run_partial_erase_def Let_def split: bind_splits)
  moreover have "keeps s s'" if "run_read bus s = Some s'"
    using that same(4) by (auto simp: run_read_def Let_def store_bytes_length split: bind_splits)
  moreover have "keeps s s'" if "run_otp_write dx bus s = Some s'"
    using that same(1) by (auto simp: run_otp_write_def split: bind_splits)
  moreover have "keeps s s'" if "run_otp_read bus s = Some s'"
    using that same(4) by (auto simp: run_otp_read_def store_bytes_length split: bind_splits)
  moreover have "keeps s (run_default s)" by (simp add: run_default_def Let_def)
  ultimately show ?thesis using run checksum_keeps [OF inv]
    by (auto simp: run_command_def Let_def split: if_splits)
qed

section \<open>Attaching\<close>

lemma attach_outcome:
  assumes inv: "nvm_inv bus s"
  shows "\<exists>st s'. Device_Attach bus s = Some (st, s') \<and> nvm_inv bus s' \<and> nv_param s' = nv_param s
     \<and> nv_Device_Type s' = nv_Device_Type s \<and> (st = 0 \<longrightarrow> nv_Device_Type_Attached s' = nv_Device_Type s')"
proof (cases "nv_Device_Type_Attached s = nv_Device_Type s")
  case True
  then show ?thesis using inv by (simp add: Device_Attach_def)
next
  case differ: False
  have len: "length (jp_data (nv_param s)) = 2 * unat BUFFER_SIZE" and dev: "dev_inv bus (nv_dev s)" and p: "ptrs_inv s"
    using inv by (simp_all add: nvm_inv_def)
  show ?thesis
  proof (cases "nv_Device_Type s = NVM_TYPE_NAME_FLASH")
    case True
    obtain st f where f: "flash_init bus (nd_flash (nv_dev s)) = Some (st, f)" "flash_inv bus f" "st = QAPI_OK \<longleftrightarrow> nf_flash_inited f"
      using flash_init_outcome_nvm [of bus "nd_flash (nv_dev s)"] dev by (auto simp: dev_inv_def)
    show ?thesis using True differ f len dev
      by (auto simp: Device_Attach_def nvm_inv_def ptrs_inv_def ptrs_defs dev_inv_def type_defs JTAG_STATUS_NO_ERROR_def JTAG_STATUS_PROGRAM_ERROR_def)
  next
    case False
    then show ?thesis using differ len dev p
      by (auto simp: Device_Attach_def nvm_inv_def ptrs_inv_def ptrs_defs dev_inv_def type_defs JTAG_STATUS_NO_ERROR_def JTAG_STATUS_PROGRAM_ERROR_def)
  qed
qed

text \<open>A successful attachment leaves the flash pointers only when they were there before or the
  flash is the device.\<close>

lemma attach_flash_write:
  assumes "Device_Attach bus s = Some (0, t)" and "nv_Write t = Some Flash_write"
  shows "t = s \<or> nv_Device_Type_Attached t = NVM_TYPE_NAME_FLASH"
proof (cases "nv_Device_Type_Attached s = nv_Device_Type s")
  case True
  then show ?thesis using assms(1) by (simp add: Device_Attach_def)
next
  case False
  then show ?thesis using assms
    by (cases "nv_Device_Type s = NVM_TYPE_NAME_FLASH")
      (auto simp: Device_Attach_def JTAG_STATUS_NO_ERROR_def JTAG_STATUS_PROGRAM_ERROR_def split: if_splits bind_splits)
qed

lemma run_keeps_inv:
  assumes "nvm_inv bus s" and "JTAG_Run dx bus s = Some s'"
  shows "nvm_inv bus s'"
proof -
  obtain st t where t: "Device_Attach bus s = Some (st, t)" "nvm_inv bus t" using attach_outcome [OF assms(1)] by blast
  show ?thesis using assms(2) t run_command_keeps [OF t(2)] keeps_inv [OF _ t(2)]
    by (auto simp: JTAG_Run_def split: if_splits)
qed

lemma start_inv:
  assumes "bus_sized bus" and "fl_state drv = 0" and "\<not> fl_init_done drv"
  shows "nvm_inv bus (NVM_Programmer_Start h drv)"
  using assms by (simp add: nvm_inv_def NVM_Programmer_Start_def dev_inv_def flash_inv_def ptrs_inv_def ptrs_defs)

lemma reach_inv:
  assumes "programmer_reach dx bus h drv s" and "bus_sized bus" and "fl_state drv = 0" and "\<not> fl_init_done drv"
  shows "nvm_inv bus s"
  using assms(1)
proof induction
  case start
  show ?case by (rule start_inv [OF assms(2-4)])
next
  case (host s p t)
  then show ?case by (simp add: nvm_inv_def ptrs_inv_def ptrs_def)
next
  case (run s s')
  then show ?case using run_keeps_inv by blast
qed

section \<open>Commands return\<close>

lemma store_bytes_fits: "off + length bs \<le> length data \<Longrightarrow> \<exists>data'. store_bytes data off bs = Some data' \<and> length data' = length data"
  by (simp add: store_bytes_def)

lemma checksum_returns:
  assumes "nvm_inv bus s" and "nv_Read s \<noteq> None"
  shows "\<exists>r. Checksum bus a n s = Some r"
proof -
  obtain fn where fn: "nv_Read s = Some fn" using assms(2) by auto
  show ?thesis
  proof (cases "n = 0")
    case True
    then show ?thesis by (simp add: Checksum_def Checksum_loop.simps)
  next
    case False
    then show ?thesis
      using fn backend.checksum_loop_returns [where s = "nv_dev s" and data = "jp_data (nv_param s)" and bus = bus and fn = fn and a = a and n = n and c = "0xFFFFFFFF"] assms(1)
      by (auto simp: Checksum_def nvm_inv_def Let_def)
  qed
qed

text \<open>The sizes that fit the buffers, and the two commands that call a pointer which may be
  missing or stale.\<close>

definition command_ok :: "'d nvm \<Rightarrow> bool" where
  "command_ok s \<longleftrightarrow>
     (jp_Command (nv_param s) \<in> {JTAG_COMMAND_PROGRAM, JTAG_COMMAND_READ, JTAG_COMMAND_OTP_WRITE} \<longrightarrow>
        unat (jp_Size (nv_param s)) \<le> 2 * unat BUFFER_SIZE)
     \<and> (jp_Command (nv_param s) = JTAG_COMMAND_OTP_READ \<longrightarrow> unat (jp_Size (nv_param s)) \<le> unat BUFFER_SIZE)
     \<and> (jp_Command (nv_param s) = JTAG_COMMAND_PARTIAL_ERASE \<longrightarrow> nv_Device_Type s \<noteq> NVM_TYPE_NAME_OTP)
     \<and> (jp_Command (nv_param s) = JTAG_COMMAND_CHIP_ERASE \<longrightarrow>
          nv_Write s = Some Flash_write \<longrightarrow> nv_Device_Type_Attached s = NVM_TYPE_NAME_FLASH)"

lemmas command_defs = JTAG_COMMAND_PROGRAM_def JTAG_COMMAND_CHIP_ERASE_def JTAG_COMMAND_COMPUTE_CRC_def JTAG_COMMAND_READ_def
  JTAG_COMMAND_PARTIAL_ERASE_def JTAG_COMMAND_SYSTEM_RESET_def JTAG_COMMAND_OTP_WRITE_def JTAG_COMMAND_OTP_READ_def

lemma run_command_returns:
  assumes dx: "dxe_copies dx" "dxe_completes dx" and inv: "nvm_inv bus s" and ok: "command_ok s"
    and att: "nv_Device_Type_Attached s = nv_Device_Type s" "nv_Device_Type s \<noteq> NVM_TYPE_NAME_NONE"
  shows "\<exists>s'. run_command dx bus s = Some s'"
proof -
  let ?n = "jp_Size (nv_param s)" and ?data = "jp_data (nv_param s)" and ?c = "jp_Command (nv_param s)"
  have dev: "dev_inv bus (nv_dev s)" and len: "length ?data = 32768" using inv by (simp_all add: nvm_inv_def)
  have p: "ptrs s = rram_ptrs \<or> ptrs s = otp_ptrs \<and> nv_Device_Type s = NVM_TYPE_NAME_OTP
      \<or> ptrs s = flash_ptrs \<and> (nv_Device_Type s = NVM_TYPE_NAME_FLASH \<longrightarrow> nf_flash_inited (nd_flash (nv_dev s)))"
    using inv att by (auto simp: nvm_inv_def ptrs_inv_def)
  obtain wfn rfn where fns: "nv_Write s = Some wfn" "nv_Read s = Some rfn" using p by (auto simp: ptrs_defs)
  have d0: "?data \<noteq> []" using len by auto
  have w: "\<exists>st src' d'. call_write dx bus wfn a ?data ?n (nv_dev s) = Some (st, src', d')" if "unat ?n \<le> 32768" for a
    using call_write_returns [OF dx dev _ d0, of ?n wfn a] len that by auto
  have r: "\<exists>st bs d'. call_read bus rfn a ?n (nv_dev s) = Some (st, bs, d') \<and> length bs \<le> unat ?n" for a
    using call_read_returns [OF dev, of rfn a ?n] by blast
  have "\<exists>s'. run_program dx bus s = Some s'" if "?c = JTAG_COMMAND_PROGRAM"
    using w [of "param_address s"] fns that ok by (auto simp: run_program_def Let_def command_ok_def)
  moreover have "\<exists>s'. run_otp_write dx bus s = Some s'" if "?c = JTAG_COMMAND_OTP_WRITE"
    using w [of "param_address s + OTP_START"] fns that ok by (auto simp: run_otp_write_def command_ok_def)
  moreover have "\<exists>s'. run_read bus s = Some s'" if "?c = JTAG_COMMAND_READ"
  proof -
    obtain st bs d' where "call_read bus rfn (param_address s) ?n (nv_dev s) = Some (st, bs, d')" "length bs \<le> unat ?n" using r by blast
    then show ?thesis using store_bytes_fits [of 0 bs ?data] fns that ok len
      by (auto simp: run_read_def Let_def command_ok_def)
  qed
  moreover have "\<exists>s'. run_otp_read bus s = Some s'" if "?c = JTAG_COMMAND_OTP_READ"
  proof -
    obtain st bs d' where rd: "call_read bus rfn (param_address s + OTP_START) ?n (nv_dev s) = Some (st, bs, d')" "length bs \<le> unat ?n"
      using r by blast
    have "unat BUFFER_SIZE + length (replicate (unat BUFFER_SIZE) (0 :: u8)) \<le> length ?data"
      using inv by (simp add: nvm_inv_def del: unat_BUFFER_SIZE)
    from store_bytes_fits [OF this] obtain data where
      data: "store_bytes ?data (unat BUFFER_SIZE) (replicate (unat BUFFER_SIZE) 0) = Some data" "length data = length ?data" by blast
    have "unat BUFFER_SIZE + length bs \<le> length data"
      using rd(2) that ok data(2) len by (simp add: command_ok_def)
    from store_bytes_fits [OF this] obtain data' where "store_bytes data (unat BUFFER_SIZE) bs = Some data'" by blast
    then show ?thesis unfolding run_otp_read_def data(1) using fns(2) rd(1) by simp
  qed
  moreover have "\<exists>s'. run_partial_erase dx bus s = Some s'" if "?c = JTAG_COMMAND_PARTIAL_ERASE"
  proof -
    have "nv_Device_Type s \<noteq> NVM_TYPE_NAME_OTP" using that ok by (simp add: command_ok_def)
    then have "ptrs s = rram_ptrs \<or> ptrs s = flash_ptrs" using p by blast
    then obtain fn where fn: "nv_Partial_Erase s = Some fn" by (auto simp: ptrs_defs)
    then show ?thesis using call_erase_returns [OF dx dev, of fn "param_address s" ?n] by (auto simp: run_partial_erase_def Let_def)
  qed
  moreover have "\<exists>s'. run_chip_erase bus s = Some s'" if "?c = JTAG_COMMAND_CHIP_ERASE"
  proof (cases "ptrs s = flash_ptrs")
    case True
    then have "nv_Write s = Some Flash_write" by (simp add: ptrs_defs)
    then have "nv_Device_Type s = NVM_TYPE_NAME_FLASH" using that ok att by (simp add: command_ok_def)
    then have "nf_flash_inited (nd_flash (nv_dev s))" using p True by (auto simp: ptrs_defs type_defs)
    then show ?thesis using True flash_chip_erase_returns [of bus "nd_flash (nv_dev s)"] dev
      by (auto simp: run_chip_erase_def ptrs_defs dev_inv_def)
  next
    case False
    then show ?thesis using p by (auto simp: run_chip_erase_def ptrs_defs)
  qed
  moreover have "\<exists>r. Checksum bus (param_address s) ?n s = Some r" using checksum_returns [OF inv] fns by simp
  ultimately show ?thesis by (auto simp: run_command_def Let_def)
qed

lemma run_returns:
  assumes "dxe_copies dx" "dxe_completes dx" and inv: "nvm_inv bus s" and ok: "command_ok s" and ty: "nv_Device_Type s \<noteq> NVM_TYPE_NAME_NONE"
  shows "\<exists>s'. JTAG_Run dx bus s = Some s'"
proof -
  obtain st t where t: "Device_Attach bus s = Some (st, t)" "nvm_inv bus t" "nv_param t = nv_param s"
      "nv_Device_Type t = nv_Device_Type s" "st = 0 \<Longrightarrow> nv_Device_Type_Attached t = nv_Device_Type t"
    using attach_outcome [OF inv] by blast
  have "command_ok t" if "st = 0"
  proof -
    have "nv_Write t = Some Flash_write \<longrightarrow> nv_Device_Type_Attached t = NVM_TYPE_NAME_FLASH"
      if "jp_Command (nv_param t) = JTAG_COMMAND_CHIP_ERASE"
    proof
      assume "nv_Write t = Some Flash_write"
      from attach_flash_write [OF t(1) [unfolded \<open>st = 0\<close>] this] show "nv_Device_Type_Attached t = NVM_TYPE_NAME_FLASH"
      proof
        assume "t = s"
        then show ?thesis using ok that \<open>nv_Write t = _\<close> by (simp add: command_ok_def)
      qed
    qed
    then show ?thesis using ok t(3,4) by (simp add: command_ok_def)
  qed
  then show ?thesis using t run_command_returns [OF assms(1,2) t(2)] ty by (auto simp: JTAG_Run_def)
qed

end
