(* ===== verification/Nvm_Props.thy ===== *)
theory Nvm_Props
  imports Nvm_Invariant
begin

text \<open>
  The properties of the JTAG programmer: the checksum is the CRC-32 of the range, what is
  programmed is read back, erases and flash writes change exactly what they should, every
  command returns; and where it goes wrong: the OTP permission bit and the pointers of a
  flash that could not be attached.
\<close>

section \<open>Concrete devices\<close>

definition demo_dxe :: dxe where
  "demo_dxe = \<lparr>dx_transfer = (\<lambda>d r m. if engine_ready r
       then mem_write m (dd_dstMemAddrL d) (src_bytes m (dd_srcMemAddrL d) (unat (dd_xfrSize d))) else m),
     dx_status = (\<lambda>d k. 4), dx_desc_addr = 0x70000\<rparr>"

lemma demo_dxe_copies: "dxe_copies demo_dxe"
  by (simp add: dxe_copies_def demo_dxe_def)

lemma demo_dxe_completes: "dxe_completes demo_dxe"
  by (simp add: dxe_completes_def demo_dxe_def CH0_STATUS_DONE_MASK_def)

definition demo_hw :: nvm_hw where
  "demo_hw = \<lparr>hw_mem = (\<lambda>_. 0), hw_reg = (\<lambda>_. 0), hw_block_number = 0,
     hw_desc = (\<lambda>_. write_desc 0 (Src_mem 0) 0), hw_xfer = None\<rparr>"

text \<open>The simulated flash chip on a bus that stores no more than is asked for.\<close>

definition sized_bus :: "demo_chip qspi_bus" where
  "sized_bus = demo_bus\<lparr>qb_transact := (\<lambda>cmd a x d. case x of Xfer_in n \<Rightarrow> apfst (take n) (demo_transact cmd a x d)
     | _ \<Rightarrow> demo_transact cmd a x d)\<rparr>"

lemma sized_bus_sized: "bus_sized sized_bus"
  by (simp add: bus_sized_def sized_bus_def)

definition demo_data :: bytes where
  "demo_data = [1, 2, 3, 4] @ replicate 32764 0"

lemma length_demo_data [simp]: "length demo_data = 32768"
  by (simp add: demo_data_def)

lemma take_demo_data: "take 4 demo_data = [1, 2, 3, 4]"
  by (simp add: demo_data_def)

definition demo_param :: "u32 \<Rightarrow> u32 \<Rightarrow> u32 \<Rightarrow> JTAG_Param" where
  "demo_param cmd a n = \<lparr>jp_ModuleStart = 0, jp_BusWidth = 0, jp_Offset = 0, jp_Address = a, jp_Size = n, jp_Timing = 0,
     jp_Command = cmd, jp_data = demo_data\<rparr>"

lemma demo_param_fields [simp]:
  "jp_Offset (demo_param cmd a n) = 0" "jp_Address (demo_param cmd a n) = a" "jp_Size (demo_param cmd a n) = n"
  "jp_Command (demo_param cmd a n) = cmd" "jp_data (demo_param cmd a n) = demo_data"
  by (simp_all add: demo_param_def)

definition idle_flash :: "demo_chip flash" where
  "idle_flash = demo_flash\<lparr>fl_init_done := False, fl_config := None\<rparr>"

lemma idle_flash_fields [simp]: "fl_state idle_flash = 0" "\<not> fl_init_done idle_flash"
  by (simp_all add: idle_flash_def demo_flash_def)

text \<open>The programmer with the RRAM attached and a command from the debugger.\<close>

definition demo_rram :: "u32 \<Rightarrow> u32 \<Rightarrow> u32 \<Rightarrow> demo_chip nvm" where
  "demo_rram cmd a n = (NVM_Programmer_Start demo_hw idle_flash)\<lparr>nv_param := demo_param cmd a n,
     nv_Device_Type_Attached := NVM_TYPE_NAME_RRAM, nv_Write := Some Nvm_rram_write, nv_Read := Some Nvm_rram_read,
     nv_Partial_Erase := Some Rram_erase\<rparr>"

lemma demo_rram_fields [simp]:
  "nv_param (demo_rram cmd a n) = demo_param cmd a n" "nv_Device_Type (demo_rram cmd a n) = NVM_TYPE_NAME_RRAM"
  "nv_Device_Type_Attached (demo_rram cmd a n) = NVM_TYPE_NAME_RRAM" "nv_Write (demo_rram cmd a n) = Some Nvm_rram_write"
  "nv_Read (demo_rram cmd a n) = Some Nvm_rram_read" "hw_mem (nd_hw (nv_dev (demo_rram cmd a n))) = (\<lambda>_. 0)"
  by (simp_all add: demo_rram_def NVM_Programmer_Start_def demo_hw_def)

section \<open>The checksum\<close>

lemma run_attached:
  "nv_Device_Type_Attached s = nv_Device_Type s \<Longrightarrow> JTAG_Run dx bus s = run_command dx bus s"
  by (simp add: JTAG_Run_def Device_Attach_def JTAG_STATUS_NO_ERROR_def)

lemma run_crc:
  "jp_Command (nv_param s) = JTAG_COMMAND_COMPUTE_CRC \<Longrightarrow>
     run_command dx bus s = map_option snd (Checksum bus (param_address s) (jp_Size (nv_param s)) s)"
  by (simp add: run_command_def command_defs)

text \<open>C8: The checksum command on the RRAM answers with the CRC-32 (reflected polynomial
  0xEDB88320, computed bit by bit) of the bytes of the range, however many buffers the
  range takes, and changes no memory. When the range is not in the RRAM the status word
  still holds the number of the command, 0x41, which the host cannot tell from a checksum.\<close>

theorem nvm_checksum_is_crc32:
  assumes "nv_Device_Type s = NVM_TYPE_NAME_RRAM" and "nv_Device_Type_Attached s = NVM_TYPE_NAME_RRAM"
    and rd: "nv_Read s = Some Nvm_rram_read" and cmd: "jp_Command (nv_param s) = JTAG_COMMAND_COMPUTE_CRC"
    and len: "length (jp_data (nv_param s)) = 32768"
  shows "\<exists>s'. JTAG_Run dx bus s = Some s' \<and> hw_mem (nd_hw (nv_dev s')) = hw_mem (nd_hw (nv_dev s))
     \<and> jp_Command (nv_param s') =
         (if jp_Size (nv_param s) = 0 \<or> nvm_rram_verify_address (param_address s) (jp_Size (nv_param s))
          then crc32 (mem_read (hw_mem (nd_hw (nv_dev s))) (param_address s) (unat (jp_Size (nv_param s)))) else 0x41)"
proof -
  let ?a = "param_address s" and ?n = "jp_Size (nv_param s)" and ?d = "jp_data (nv_param s)"
  let ?m = "hw_mem (nd_hw (nv_dev s))"
  have run: "JTAG_Run dx bus s = map_option snd (Checksum bus ?a ?n s)"
    using run_attached [of s dx bus] run_crc [OF cmd] assms(1,2) by simp
  have l: "unat BUFFER_SIZE \<le> length ?d" using len by simp
  consider (zero) "?n = 0" | (valid) "?n \<noteq> 0" "nvm_rram_verify_address ?a ?n" | (bad) "?n \<noteq> 0" "\<not> nvm_rram_verify_address ?a ?n" by blast
  then show ?thesis
  proof cases
    case zero
    then show ?thesis by (simp add: run Checksum_def Checksum_loop.simps crc32_def)
  next
    case valid
    obtain data' d' where "Checksum_loop (call_read bus Nvm_rram_read) ?a ?n 0xFFFFFFFF ?d (nv_dev s) =
        Some (0, foldl crc_byte 0xFFFFFFFF (mem_read ?m ?a (unat ?n)), data', d')" "hw_mem (nd_hw d') = ?m"
      using rram.checksum_loop_crc [OF valid(2) l] by blast
    then show ?thesis using valid rd by (simp add: run Checksum_def crc32_def)
  next
    case bad
    obtain r data' where "Checksum_loop (call_read bus Nvm_rram_read) ?a ?n 0xFFFFFFFF ?d (nv_dev s) =
        Some (QAPI_ERR_BOUNDS, r, data', nv_dev s)"
      using rram.checksum_loop_rejects [OF bad(2,1) l] by blast
    then show ?thesis using bad rd cmd by (simp add: run Checksum_def QAPI_ERR_BOUNDS_def JTAG_COMMAND_COMPUTE_CRC_def)
  qed
qed

theorem nvm_checksum_is_crc32_witness:
  "\<exists>s'. JTAG_Run demo_dxe demo_bus (demo_rram JTAG_COMMAND_COMPUTE_CRC 0x208000 4) = Some s'
     \<and> jp_Command (nv_param s') = crc32 [0, 0, 0, 0]"
proof -
  have v: "nvm_rram_verify_address 0x208000 4" by (simp add: nvm_verify_iff)
  have m: "mem_read (\<lambda>_. 0 :: u8) 0x208000 4 = [0, 0, 0, 0]" by (simp add: mem_read_def upt_rec)
  show ?thesis
    using nvm_checksum_is_crc32 [of "demo_rram JTAG_COMMAND_COMPUTE_CRC 0x208000 4" demo_dxe demo_bus] v m
    by (auto simp: param_address_def)
qed

text \<open>The same for a chip of the flash table.\<close>

theorem nvm_flash_checksum:
  assumes "nor_chip bus c content wel busy" and "on_chip bus c (nd_flash (nv_dev s))" and "\<not> busy (fl_dev (nf_drv (nd_flash (nv_dev s))))"
    and "unat (param_address s) + unat (jp_Size (nv_param s)) \<le> unat (fc_density_in_blocks c) * 4096"
    and "nv_Device_Type s = NVM_TYPE_NAME_FLASH" and "nv_Device_Type_Attached s = NVM_TYPE_NAME_FLASH"
    and rd: "nv_Read s = Some Flash_read" and cmd: "jp_Command (nv_param s) = JTAG_COMMAND_COMPUTE_CRC"
    and len: "length (jp_data (nv_param s)) = 32768"
  shows "\<exists>s'. JTAG_Run dx bus s = Some s' \<and> jp_Command (nv_param s') =
     crc32 (mem_read (content (fl_dev (nf_drv (nd_flash (nv_dev s))))) (param_address s) (unat (jp_Size (nv_param s))))"
proof -
  let ?a = "param_address s" and ?n = "jp_Size (nv_param s)" and ?d = "jp_data (nv_param s)"
  let ?m = "content (fl_dev (nf_drv (nd_flash (nv_dev s))))"
  have run: "JTAG_Run dx bus s = map_option snd (Checksum bus ?a ?n s)"
    using run_attached [of s dx bus] run_crc [OF cmd] assms(5,6) by simp
  have l: "unat BUFFER_SIZE \<le> length ?d" using len by simp
  obtain data' d' where "Checksum_loop (call_read bus Flash_read) ?a ?n 0xFFFFFFFF ?d (nv_dev s) =
      Some (0, foldl crc_byte 0xFFFFFFFF (mem_read ?m ?a (unat ?n)), data', d')"
    using nor.checksum_loop_crc [OF conjI [OF assms(1) conjI [OF assms(2) conjI [OF assms(3,4)]]] l] by blast
  then show ?thesis using rd by (cases "?n = 0") (simp_all add: run Checksum_def Checksum_loop.simps crc32_def)
qed

section \<open>The RRAM\<close>

text \<open>C6: What is programmed is read back. With the RRAM attached, a program command for a range
  of the RRAM answers 0, returns the address and stores exactly the bytes of the buffer in
  the range; whatever the debugger then puts into the buffers, a read command for the same
  range answers 0 and the buffer starts with the bytes that were programmed.\<close>

theorem nvm_program_then_read:
  assumes dx: "dxe_copies dx" "dxe_completes dx"
    and att: "nv_Device_Type s = NVM_TYPE_NAME_RRAM" "nv_Device_Type_Attached s = NVM_TYPE_NAME_RRAM"
    and fns: "nv_Write s = Some Nvm_rram_write" "nv_Read s = Some Nvm_rram_read"
    and cmd: "jp_Command (nv_param s) = JTAG_COMMAND_PROGRAM" and len: "length (jp_data (nv_param s)) = 32768"
    and n: "n = jp_Size (nv_param s)" "unat n \<le> 32768" and a: "a = param_address s" and v: "nvm_rram_verify_address a n"
    and q: "jp_Command q = JTAG_COMMAND_READ" "jp_Address q + jp_Offset q = a" "jp_Size q = n" "length (jp_data q) = 32768"
  shows "\<exists>s1 s2. JTAG_Run dx bus s = Some s1 \<and> jp_Command (nv_param s1) = JTAG_STATUS_NO_ERROR \<and> jp_Address (nv_param s1) = a
     \<and> hw_mem (nd_hw (nv_dev s1)) = mem_write (hw_mem (nd_hw (nv_dev s))) a (take (unat n) (jp_data (nv_param s)))
     \<and> JTAG_Run dx bus (s1\<lparr>nv_param := q\<rparr>) = Some s2 \<and> jp_Command (nv_param s2) = JTAG_STATUS_NO_ERROR
     \<and> take (unat n) (jp_data (nv_param s2)) = take (unat n) (jp_data (nv_param s))"
proof -
  let ?bs = "take (unat n) (jp_data (nv_param s))"
  obtain h where h: "nvm_rram_write dx a (jp_data (nv_param s)) n (nd_hw (nv_dev s)) = Some (0, h)"
      "hw_mem h = mem_write (hw_mem (nd_hw (nv_dev s))) a ?bs"
    using nvm_write_exact [OF dx v, of "jp_data (nv_param s)" "nd_hw (nv_dev s)"] n len by (auto simp: done_with_def)
  define s1 where "s1 = set_address a (set_status JTAG_STATUS_NO_ERROR (set_data (jp_data (nv_param s)) (s\<lparr>nv_dev := (nv_dev s)\<lparr>nd_hw := h\<rparr>\<rparr>)))"
  have 1: "JTAG_Run dx bus s = Some s1"
    using run_attached [of s dx bus] att cmd h(1) fns n(1) a
    by (simp add: run_command_def command_defs run_program_def Let_def s1_def status_of_def QAPI_ERR_BOUNDS_def)
  have f1: "nv_Device_Type s1 = NVM_TYPE_NAME_RRAM" "nv_Device_Type_Attached s1 = NVM_TYPE_NAME_RRAM" "nv_Read s1 = Some Nvm_rram_read"
    "nd_hw (nv_dev s1) = h" "jp_Command (nv_param s1) = JTAG_STATUS_NO_ERROR" "jp_Address (nv_param s1) = a"
    using att fns by (simp_all add: s1_def set_address_def set_status_def set_data_def)
  let ?t = "s1\<lparr>nv_param := q\<rparr>"
  have lbs: "length ?bs = unat n" using n len by simp
  have rd: "nvm_rram_read a n h = (0, ?bs)"
    using v h(2) mem_read_write_same [of ?bs "hw_mem (nd_hw (nv_dev s))" a] lbs n by (simp add: nvm_rram_read_def rram_read_def)
  define data where "data = ?bs @ drop (unat n) (jp_data q)"
  have st: "store_bytes (jp_data q) 0 ?bs = Some data" using n q(4) lbs by (simp add: store_bytes_def data_def)
  have "JTAG_Run dx bus ?t = Some (set_address a (set_status JTAG_STATUS_NO_ERROR (set_data data ?t)))"
    using run_attached [of ?t dx bus] f1 q rd st
    by (simp add: run_command_def command_defs run_read_def Let_def status_of_def QAPI_ERR_BOUNDS_def param_address_def)
  then show ?thesis using 1 f1 h(2) lbs by (auto simp: set_address_def set_status_def set_data_def data_def)
qed

theorem nvm_program_then_read_witness:
  "\<exists>s1 s2. JTAG_Run demo_dxe demo_bus (demo_rram JTAG_COMMAND_PROGRAM 0x208004 4) = Some s1
     \<and> JTAG_Run demo_dxe demo_bus (s1\<lparr>nv_param := demo_param JTAG_COMMAND_READ 0x208004 4\<rparr>) = Some s2
     \<and> take 4 (jp_data (nv_param s2)) = [1, 2, 3, 4]"
proof -
  have v: "nvm_rram_verify_address 0x208004 4" by (simp add: nvm_verify_iff)
  have a: "0x208004 = param_address (demo_rram JTAG_COMMAND_PROGRAM 0x208004 4)" by (simp add: param_address_def)
  show ?thesis
    using nvm_program_then_read [OF demo_dxe_copies demo_dxe_completes _ _ _ _ _ _ _ _ a v,
        of "demo_param JTAG_COMMAND_READ 0x208004 4" demo_bus] by (auto simp: take_demo_data)
qed

text \<open>C37: Erasing the RRAM sets exactly the bytes of the range to ones, for every alignment and
  length, and refuses a range that is not in the erasable part; the primary boot loader
  below 0x208000 is never changed.\<close>

theorem nvm_rram_erase_exact:
  assumes "dxe_copies dx" and "dxe_completes dx"
  shows "\<exists>st h'. rram_erase dx a n h = Some (st, h')
     \<and> (if 0x208000 \<le> unat a \<and> unat a \<le> 0x37FFFF \<and> unat a mod 4 = 0 \<and> unat a + unat n \<le> 0x380000
         then st = 0 \<and> hw_mem h' = mem_write (hw_mem h) a (replicate (unat n) 0xFF) else st = QAPI_ERR_BOUNDS \<and> h' = h)
     \<and> (\<forall>x. x < 0x208000 \<longrightarrow> hw_mem h' x = hw_mem h x)"
proof (cases "rram_verify_erase_address a n")
  case True
  obtain h' where h: "rram_erase dx a n h = Some (0, h')" "hw_mem h' = mem_write (hw_mem h) a (replicate (unat n) 0xFF)"
    using erase_exact [OF assms True, of h] by (auto simp: done_with_def)
  have "hw_mem h' x = hw_mem h x" if "x < 0x208000" for x
    unfolding h(2)
  proof (rule mem_write_other)
    fix i assume "i < length (replicate (unat n) (0xFF :: u8))"
    then have "unat (a + of_nat i) = unat a + i" using True by (intro unat_addr_offset) (simp add: erase_verify_iff)
    then show "x \<noteq> a + of_nat i" using True that by (auto simp: erase_verify_iff word_less_nat_alt)
  qed
  then show ?thesis using h True by (simp add: erase_verify_iff)
next
  case False
  then show ?thesis by (auto simp: rram_erase_def erase_verify_iff)
qed

theorem nvm_rram_erase_exact_witness:
  "\<exists>h'. rram_erase demo_dxe 0x208004 2 demo_hw = Some (0, h') \<and> hw_mem h' = mem_write (\<lambda>_. 0) 0x208004 [0xFF, 0xFF]"
proof -
  have "replicate 2 (0xFF :: u8) = [0xFF, 0xFF]" by (simp add: numeral_2_eq_2)
  then show ?thesis
    using nvm_rram_erase_exact [OF demo_dxe_copies demo_dxe_completes, of "0x208004" 2 demo_hw] by (auto simp: demo_hw_def)
qed

section \<open>The OTP\<close>

text \<open>Which byte a write to the OTP leaves in the permission word, for every write that
  covers it: the bit that is meant to stay 0 is cleared only when the write starts exactly
  at that word; a write that starts before it stores the byte of the buffer as it is.\<close>

theorem otp_permission_byte:
  assumes "dxe_copies dx" and "dxe_completes dx" and v: "otp_rram_verify_address a n" and len: "unat n \<le> length src"
    and cov: "unat a \<le> 0x1A0030" "0x1A0030 < unat a + unat n"
  shows "\<exists>src' h'. otp_rram_write dx a src n h = Some (0, src', h')
     \<and> hw_mem h' 0x1A0030 = (if a = 0x1A0030 then src ! 0 AND NOT 2 else src ! (0x1A0030 - unat a))"
proof -
  let ?i = "0x1A0030 - unat a"
  have i: "?i < unat n" using cov by simp
  then have ne: "src \<noteq> []" using len by auto
  obtain h' where h: "otp_rram_write dx a src n h = Some (0, otp_source a src, h')"
      "hw_mem h' = mem_write (hw_mem h) a (take (unat n) (otp_source a src))"
    using otp_write_exact [OF assms(1,2) v len ne] by blast
  have x: "(0x1A0030 :: u32) = a + of_nat ?i"
    unfolding word_unat_eq_iff using cov(1) by (subst unat_addr_offset) simp_all
  have "hw_mem h' (a + of_nat ?i) = take (unat n) (otp_source a src) ! ?i"
    unfolding h(2) by (rule mem_write_nth) (use i len unsigned_less [of n, where ?'a = nat] in simp_all)
  also have "\<dots> = (if a = 0x1A0030 then src ! 0 AND NOT 2 else src ! ?i)"
    using i ne by (simp add: otp_source_def READ_PERMISSION_READ_WRITE_PERMISIONS_ADDRESS_def READ_PERMISSION_READ_WRITE_PERMISIONS_OFFSET_def)
  finally show ?thesis using h(1) unfolding x [symmetric] by blast
qed

theorem otp_permission_byte_witness:
  "\<exists>src' h'. otp_rram_write demo_dxe 0x1A002C [0, 0, 0, 0, 0xFF, 0, 0, 0] 8 demo_hw = Some (0, src', h') \<and> hw_mem h' 0x1A0030 = 0xFF"
proof -
  have "otp_rram_verify_address 0x1A002C 8" by (simp add: otp_verify_iff)
  from otp_permission_byte [OF demo_dxe_copies demo_dxe_completes this, of "[0, 0, 0, 0, 0xFF, 0, 0, 0]" demo_hw]
  show ?thesis by simp
qed

section \<open>The flash\<close>

text \<open>C7: A flash write that reports success, on a NOR chip that is idle at the start and may be
  busy for any time after each page and each erased block: the destination is a block boundary and the range
  is inside the device; the range holds the data, the rest of the blocks it touches is all
  ones and every other byte of the chip is as before, whether or not the blocks had to be
  erased; the chip is idle again and reading the range gives the data back.\<close>

theorem nvm_flash_write_exact:
  assumes nor: "nor_chip bus c content wel busy" and oc: "on_chip bus c f" and idle: "\<not> busy (fl_dev (nf_drv f))"
    and run: "flash_write bus a bs n f = Some (0, f')"
  shows "unat a mod 4096 = 0 \<and> unat a + unat n \<le> unat (fc_density_in_blocks c) * 4096
     \<and> (\<forall>x. content (fl_dev (nf_drv f')) x =
          (if unat (x - a) < unat n then bs ! unat (x - a)
           else if unat (x - a) < (unat n + 4095) div 4096 * 4096 then 0xFF
           else content (fl_dev (nf_drv f)) x))
     \<and> \<not> busy (fl_dev (nf_drv f')) \<and> (\<exists>f''. flash_read bus a n f' = Some (0, take (unat n) bs, f''))"
proof -
  note w = flash_write_done [OF assms]
  have le: "unat n \<le> blocks_of (unat n) * 4096" by (simp add: blocks_of_def)
  have c: "content (fl_dev (nf_drv f')) x =
      (if unat (x - a) < unat n then bs ! unat (x - a)
       else if unat (x - a) < blocks_of (unat n) * 4096 then 0xFF else content (fl_dev (nf_drv f)) x)" for x
    using w(5) le by (simp add: w(1) program_def erased_def)
  have "mem_read (content (fl_dev (nf_drv f'))) a (unat n) = take (unat n) bs"
  proof (rule nth_equalityI)
    fix i assume "i < length (mem_read (content (fl_dev (nf_drv f'))) a (unat n))"
    then have i: "i < unat n" by simp
    then have "unat (of_nat i :: u32) = i" using unsigned_less [of n, where ?'a = nat] by (simp add: unat_of_nat)
    then show "mem_read (content (fl_dev (nf_drv f'))) a (unat n) ! i = take (unat n) bs ! i"
      using i c [of "a + of_nat i"] by simp
  qed (use w(5) in simp)
  then show ?thesis using w(3,4) c w(7) flash_read_array [OF nor w(6,7,4)] by (auto simp: blocks_of_def)
qed

definition demo_nvm_flash :: "demo_chip nvm_flash" where
  "demo_nvm_flash = \<lparr>nf_density_in_blocks = 1024, nf_flash_inited = True, nf_comparative_buffer = replicate 4096 0xFF, nf_drv = demo_flash\<rparr>"

lemma demo_on_chip: "on_chip demo_bus demo_cfg demo_nvm_flash"
proof -
  have "demo_cfg \<in> set (flash_device_config False)" by (simp add: flash_device_config_def)
  moreover have "qb_quad_table demo_bus = False" by (simp add: demo_bus_def)
  moreover have "fl_config demo_flash = Some demo_cfg" "fl_state demo_flash = 0" "fl_init_done demo_flash" by (simp_all add: demo_flash_def)
  ultimately show ?thesis
    by (auto simp: on_chip_def flash_inv_def demo_nvm_flash_def BLOCK_SIZE_IN_BYTES_def demo_simps)
qed

lemma demo_quiet: "\<not> demo_busy (fl_dev (nf_drv demo_nvm_flash))"
  by (simp add: demo_nvm_flash_def demo_flash_def)

text \<open>On the simulated chip every step succeeds.\<close>

lemma demo_flash_write:
  "\<exists>f'. flash_write demo_bus 0 [1, 2, 3, 4] 4 demo_nvm_flash = Some (0, f')"
proof -
  let ?f = demo_nvm_flash
  have bsz: "unat BLOCK_SIZE_IN_BYTES = 4096" by (simp add: BLOCK_SIZE_IN_BYTES_def)
  note on = on_chip_facts [OF demo_on_chip]
  obtain g where g: "flash_read demo_bus 0 BLOCK_SIZE_IN_BYTES ?f = Some (0, mem_read (fst (fl_dev (nf_drv ?f))) 0 4096, g)" "same_nvm_flash ?f g"
      "\<not> demo_busy (fl_dev (nf_drv g))"
    using flash_read_array [OF demo_nor_chip demo_on_chip demo_quiet, of 0 BLOCK_SIZE_IN_BYTES] by (auto simp: bsz demo_simps)
  have og: "on_chip demo_bus demo_cfg g" by (rule on_chip_same [OF g(2) demo_on_chip])
  note fg = on_chip_facts [OF og]
  have "mem_read (fst (fl_dev (nf_drv ?f))) 0 4096 ! 0 \<noteq> replicate 4096 (0xFF :: u8) ! 0"
    by (simp add: demo_nvm_flash_def demo_flash_def)
  then have dirty: "mem_read (fst (fl_dev (nf_drv ?f))) 0 4096 \<noteq> nf_comparative_buffer g" using fg(9) by metis
  define d where "d = (nf_drv g)\<lparr>fl_dev := (erased (fst (fl_dev (nf_drv g))) 0 4096, False, False)\<rparr>"
  have e: "drv_flash_erase demo_bus FLASH_BLOCK_ERASE_E 0 1 (nf_drv g) = Some (FLASH_DEVICE_DONE, d)"
    unfolding d_def by (rule demo_erase [OF fg(8,6,7) g(3)])
  have l0: "check_erase_loop demo_bus 0 1 4096 4096 0 (g\<lparr>nf_drv := d\<rparr>) = Some (0, g\<lparr>nf_drv := d\<rparr>)"
    by (subst check_erase_loop.simps) simp
  have "check_erase_loop demo_bus 0 1 0 4096 0 ?f = Some (0, g\<lparr>nf_drv := d\<rparr>)"
    using g(1) dirty e l0 by (subst check_erase_loop.simps) (simp add: BLOCK_SIZE_IN_BYTES_def)
  then have ce: "flash_partial_check_erase demo_bus 0 4 ?f = Some (0, g\<lparr>nf_drv := d\<rparr>)"
    by (simp add: flash_partial_check_erase_def flash_verify_address_def demo_nvm_flash_def BLOCK_SIZE_IN_BYTES_def word_le_nat_alt)
  have "\<exists>d'. write_loop demo_bus demo_cfg False 0 4 [1, 2, 3, 4] (d\<lparr>fl_state := FLASH_STATE_WRITE\<rparr>) = Some (FLASH_DEVICE_DONE, d')"
    using fg(8) by (simp add: write_loop.simps transfer_size_def PAGE_SIZE_IN_BYTES_def demo_write_page d_def)
  then obtain d' where "drv_flash_write demo_bus 0 4 (Some [1, 2, 3, 4]) False d = Some (FLASH_DEVICE_DONE, d')"
    using fg(6,7,8) by (auto simp: drv_flash_write_def range_bad_def demo_simps BLOCK_SIZE_IN_BYTES_def d_def)
  then show ?thesis using ce by (simp add: flash_write_def QAPI_OK_def)
qed

theorem nvm_flash_write_exact_witness:
  "\<exists>f' f''. flash_write demo_bus 0 [1, 2, 3, 4] 4 demo_nvm_flash = Some (0, f')
     \<and> fst (fl_dev (nf_drv f')) 4 = 0xFF \<and> flash_read demo_bus 0 4 f' = Some (0, [1, 2, 3, 4], f'')"
proof -
  obtain f' where f': "flash_write demo_bus 0 [1, 2, 3, 4] 4 demo_nvm_flash = Some (0, f')" using demo_flash_write by blast
  from nvm_flash_write_exact [OF demo_nor_chip demo_on_chip demo_quiet f'] show ?thesis using f' by auto
qed

section \<open>Attaching and running\<close>

text \<open>C38: A flash that cannot be initialised leaves its function pointers behind: with the RRAM
  attached, a command for the flash fails with the program error, and when the debugger
  then selects the RRAM again, attaching reports success and changes nothing, although
  reads and writes still go to the flash.\<close>

theorem nvm_stale_pointers:
  assumes "nv_Device_Type_Attached s = NVM_TYPE_NAME_RRAM" and "nv_Device_Type s = NVM_TYPE_NAME_FLASH"
    and "flash_init bus (nd_flash (nv_dev s)) = Some (st, f)" and "st \<noteq> QAPI_OK"
  shows "\<exists>s1. JTAG_Run dx bus s = Some s1 \<and> jp_Command (nv_param s1) = JTAG_STATUS_PROGRAM_ERROR
     \<and> Device_Attach bus (s1\<lparr>nv_param := q, nv_Device_Type := NVM_TYPE_NAME_RRAM\<rparr>)
         = Some (JTAG_STATUS_NO_ERROR, s1\<lparr>nv_param := q, nv_Device_Type := NVM_TYPE_NAME_RRAM\<rparr>)
     \<and> nv_Write s1 = Some Flash_write \<and> nv_Read s1 = Some Flash_read"
  using assms
  by (simp add: JTAG_Run_def Device_Attach_def type_defs JTAG_STATUS_PROGRAM_ERROR_def JTAG_STATUS_NO_ERROR_def set_status_def)

text \<open>A bus with no chip on it.\<close>

definition empty_bus :: "demo_chip qspi_bus" where
  "empty_bus = demo_bus\<lparr>qb_transact := (\<lambda>cmd a x d. ([], d))\<rparr>"

lemma empty_bus_init: "\<exists>f. flash_init empty_bus (nd_flash (nv_dev (demo_rram cmd a n))) = Some (QAPI_ERROR, f)"
  by (simp add: flash_init_def demo_rram_def NVM_Programmer_Start_def idle_flash_def demo_flash_def drv_flash_init_def
      drv_flash_controller_init_def drv_flash_info_init_def drv_flash_read_reg_internal_def run_reg_cmd empty_bus_def demo_bus_def
      device_id_of_def flash_device_config_def cfg_defs Let_def drv_flash_power_up_def run_plain_dev delay_def QAPI_OK_def)

theorem nvm_stale_pointers_witness:
  "\<exists>s1. JTAG_Run demo_dxe empty_bus ((demo_rram JTAG_COMMAND_READ 0 4)\<lparr>nv_Device_Type := NVM_TYPE_NAME_FLASH\<rparr>) = Some s1
     \<and> nv_Write s1 = Some Flash_write"
proof -
  obtain f where "flash_init empty_bus (nd_flash (nv_dev (demo_rram JTAG_COMMAND_READ 0 4))) = Some (QAPI_ERROR, f)"
    using empty_bus_init by blast
  then show ?thesis
    using nvm_stale_pointers [of "(demo_rram JTAG_COMMAND_READ 0 4)\<lparr>nv_Device_Type := NVM_TYPE_NAME_FLASH\<rparr>" empty_bus QAPI_ERROR f
        demo_dxe "demo_param 0 0 0"]
    by (auto simp: QAPI_ERROR_def QAPI_OK_def)
qed

text \<open>C36: After any sequence of commands and debugger accesses from the start, a command returns
  and is defined, whatever the flash answers, as long as the size fits the buffers, the
  device type is not the marker for no device, no range erase is asked of the OTP, and no
  chip erase meets the pointers of a flash that could not be attached. The DMA engine is taken
  to copy what a ready channel describes (\<open>dxe_copies\<close>) and to report the end of every
  transfer at some time (\<open>dxe_completes\<close>), and the bus to answer a read with at most as many
  bytes as were asked for (\<open>bus_sized\<close>).\<close>

theorem nvm_commands_return:
  assumes "programmer_reach dx bus h drv s" and "bus_sized bus" and "fl_state drv = 0" and "\<not> fl_init_done drv"
    and "dxe_copies dx" and "dxe_completes dx"
    and "command_ok s" and "nv_Device_Type s \<noteq> NVM_TYPE_NAME_NONE"
  shows "\<exists>s'. JTAG_Run dx bus s = Some s'"
  by (rule run_returns [OF assms(5,6) reach_inv [OF assms(1-4)] assms(7,8)])

theorem nvm_commands_return_witness:
  "\<exists>s'. JTAG_Run demo_dxe sized_bus ((NVM_Programmer_Start demo_hw idle_flash)
     \<lparr>nv_param := demo_param JTAG_COMMAND_PROGRAM 0x208000 4, nv_Device_Type := NVM_TYPE_NAME_FLASH\<rparr>) = Some s'"
proof -
  let ?s = "(NVM_Programmer_Start demo_hw idle_flash)
     \<lparr>nv_param := demo_param JTAG_COMMAND_PROGRAM 0x208000 4, nv_Device_Type := NVM_TYPE_NAME_FLASH\<rparr>"
  have r: "programmer_reach demo_dxe sized_bus demo_hw idle_flash ?s"
    by (rule programmer_reach.host [OF programmer_reach.start]) simp
  have "command_ok ?s" "nv_Device_Type ?s \<noteq> NVM_TYPE_NAME_NONE"
    by (simp_all add: command_ok_def command_defs type_defs)
  from nvm_commands_return [OF r sized_bus_sized _ _ demo_dxe_copies demo_dxe_completes this] show ?thesis by simp
qed

text \<open>A range erase of the OTP calls through the NULL pointer.\<close>

theorem nvm_otp_erase_undefined:
  assumes "nv_Device_Type s = NVM_TYPE_NAME_OTP" and "nv_Device_Type_Attached s \<noteq> NVM_TYPE_NAME_OTP"
    and "jp_Command (nv_param s) = JTAG_COMMAND_PARTIAL_ERASE"
  shows "JTAG_Run dx bus s = None"
  using assms by (simp add: JTAG_Run_def Device_Attach_def run_command_def command_defs run_partial_erase_def
      type_defs JTAG_STATUS_NO_ERROR_def)

end
