(* ===== verification/Spec2Isabelle.thy ===== *)
theory Spec2Isabelle
  imports Qspi_Props Bl_Otp_Props Rram_Channel Unpa_Correct Ring_Props Flash_Props Rollback_Props Elf_Props Sbl_Props Fpci_Props Nvm_Props
begin

text \<open>
  Verification library of the QCC730 hardware abstraction layer (qhal): the power-resource
  manager and the power-event callbacks, the ring service to the host, the secondary boot
  loader from the choice of an image to the jump into it, and the programmer that a debugger
  runs to fill the memories.

  \<^bold>\<open>The parts and how they meet.\<close> At run time, drivers and power code vote on shared resources
  through uNPA (\<^verbatim>\<open>qsystem/src/unpa*.c\<close>) and are told of sleep and wake-up through registered
  callbacks (\<^verbatim>\<open>qsystem/src/wifi_fw_pwr_cb_infra.c\<close>), and the application exchanges packets with a host
  processor through shared descriptor rings (\<^verbatim>\<open>qring/src/ring_service_qcc730.c\<close>). At boot, the
  secondary boot loader (\<^verbatim>\<open>qboot/src/sbl_main.c\<close>) looks up the application in the descriptor table in
  RRAM (\<^verbatim>\<open>qboot/system/rram_fdt.c\<close>), selects one of the descriptors in flash
  (\<^verbatim>\<open>qboot/system/sbl_flash_fwd.c\<close>), and loads and authenticates (\<^verbatim>\<open>qboot/sbl_auth/sbl_auth.c\<close>) images until
  one is good. Loading reads an ELF image (\<^verbatim>\<open>qboot/elf_loader\<close>) through the NOR flash driver
  (\<^verbatim>\<open>hal/hal/src/ferm_flash.c\<close>, on the QSPI driver \<^verbatim>\<open>hal/hal/src/ferm_qspi.c\<close>) or from RRAM (\<^verbatim>\<open>qboot/system/nt_bl_mem.c\<close>), writes its segments to RAM
  or, through the DXE engine, to RRAM (\<^verbatim>\<open>qboot/system/nt_bl_rram_dxe.c\<close>), and keeps the version of
  the image in one-time-programmable fuses (\<^verbatim>\<open>qboot/sbl_auth/rollback\<close>). In production, a debugger loads
  the programmer (\<^verbatim>\<open>qprgd/src\<close>) into RAM and drives it command by command; it writes, erases, reads
  and checks RRAM, OTP and, through the same flash driver, the NOR flash.

  \<^bold>\<open>Conventions\<close> (\<open>Prelude\<close>). Integers are words of their width; memory is a function from 32-bit
  addresses to bytes, with \<open>mem_write\<close> and \<open>mem_read\<close> for \<open>memcpy\<close> and \<open>memset\<close>. A C function is a
  function of the state it changes; error codes are values. A result \<open>None\<close> is a call that does
  not return or that follows an invalid pointer, so that a theorem that a result is \<open>Some\<close> says
  that the code returns. Hardware, kernel calls and functions outside the repository are
  arguments: \<open>unpa_env\<close>, \<open>ring_env\<close>, \<open>qspi_bus\<close> (the bus with the chip), \<open>dma\<close> (one transfer of
  the DXE engine), \<open>dxe\<close> (the engine with its descriptor and status register), \<open>rram_dev\<close> (what
  the registers of the RRAM controller show and what a write leaves in a word).

  \<^bold>\<open>uNPA\<close>. \<open>Unpa\<close> has the resource, client and manager records, the aggregation functions, the
  request pipeline, creation, destruction and queries, in the order of the C files.
  \<open>Unpa_Correct\<close> shows by rule induction over every sequence of operations that the aggregates
  are the maximum, the non-zero minimum and the count of the active votes, that no lock stays
  held, that no operation on a live client follows a bad pointer, and what one request does.

  \<^bold>\<open>Ring service\<close>. \<open>Ring_Service\<close> has the control block, descriptors, heap blocks and statistics,
  with initialisation, shutdown, send, receive, interrupt handler and deferred work.
  \<open>Ring_Index\<close> is the arithmetic of the wrapping indices, \<open>Ring_Correct\<close> the invariant and its
  preservation, \<open>Queue_Interface\<close> the bounded-queue contract as a locale, \<open>Ring_Init\<close> the
  initialisation with its error paths, \<open>Ring_Props\<close> the interpretation of the contract for both
  directions and the properties: first-in first-out over every interleaving with the host
  (packets of length 0 included, whose receive returns 0 like the poll of an empty ring),
  exact capacity, no leak on failed initialisation or shutdown.

  \<^bold>\<open>Flash driver\<close>. \<open>Flash_Config\<close> is the device table, \<open>Flash\<close> the driver in its non-OS build.
  \<open>Flash_Correct\<close> shows that every polling loop ends (the period divides the time-out, so the
  32-bit countdown hits zero), \<open>Flash_Props\<close> what writes, erases and reads do on a chip that
  behaves as its data sheet says (\<open>nor_chip\<close>), the range checks and the initialisation. Such a
  chip may be busy after every program and erase command; while it is, the contract speaks of
  its status and error registers and promises nothing for any other command, so the driver's waits carry the
  proofs. The simulated GD25WQ32E, which ignores commands while busy, shows that such a chip
  exists.

  \<^bold>\<open>QSPI controller\<close>. \<open>Qspi\<close> (\<^verbatim>\<open>hal/hal/src/ferm_qspi.c\<close>, \<^verbatim>\<open>hal/hal/include/ferm_qspi_hal.h\<close>) has the register
  functions, the FIFO service, the transfers, the descriptor chain with its transfer buffer and
  the queueing of a command; the controller is the parameter \<open>qspi_hw\<close>. \<open>Qspi_Pio\<close> states what the
  driver relies on in it (\<open>pio_controller\<close>, over a view of the transfer in progress) and proves
  the PIO transfers, including that every word access is aligned and that a controller which
  stalls at most \<open>0x1C000\<close> times in a transfer (with one successful poll per word of at most
  \<open>0xFFFF\<close> bytes this meets the limit of \<open>0x20000\<close>) never runs into the retry limit.
  \<open>Qspi_Chain\<close> has flushing and allocation, \<open>Qspi_Queue\<close> opcode, address and dummy bytes,
  \<open>Qspi_Data\<close> the data phase with bounce copies and flushes on the way. \<open>Qspi_Stuck\<close> follows the
  driver in front of a controller that never delivers a byte. \<open>Qspi_Props\<close> shows that
  running a command implements the bus \<open>qspi_bus\<close> of the flash driver, with a simulated controller
  as instance of the contract, and the failures the driver does not report.

  \<^bold>\<open>RRAM\<close>. \<open>Rram_Dxe\<close> splits writes of any alignment into the engine's 16-byte blocks,
  \<open>Rram_Correct\<close> shows that exactly the requested bytes change. \<open>Rram_Otp\<close> has the permission
  check and the read; the check reads the lock bits through itself, so it has a depth, and
  depth 2 is proved enough for every access. \<open>Bl_Rram\<close> has the second writer of the boot loader,
  which stores word by word with retries; the controller is the parameter \<open>rram_dev\<close>, and
  \<open>Bl_Rram_Correct\<close> shows for every controller that a reported success is exact. \<open>Bl_Otp\<close> has the
  operations on the OTP area above it (locks, serial number, flags), \<open>Bl_Otp_Props\<close> what they
  leave behind. \<open>Rram_Channel\<close> has the block write of the DXE writer down to the registers, and
  shows that it implements the abstract one and agrees with the programmer's copy. The engine
  starts when the enable bit of the channel is written, on the descriptor that the channel's
  register points to and with the registers as they are then; the memory changes when its
  status register reports the end.

  \<^bold>\<open>Roll-back protection\<close>. \<open>Rollback\<close> and \<open>Rollback_Props\<close>: the version in the fuses, its
  update, and the search for the image set, a \<open>partial_function\<close> because it can run for ever.

  \<^bold>\<open>ELF loader\<close>. \<open>Elf_Mem\<close> has the copy operations, the region table and the dispatch, \<open>Elf_Loader\<close>
  the headers (bytes in memory, decoded where the code looks at them) and the loading.
  \<open>Elf_Correct\<close> states the contract between the two as the locale \<open>image_source\<close> and proves the
  loader against it; \<open>Elf_Props\<close> interprets it for images in flash and in RRAM, where it rests on
  the lemmas of the flash driver and of the RRAM writer, and has the properties. As in the
  code, a loadable segment without bytes in the file is skipped and not zeroed.

  \<^bold>\<open>Boot loader\<close>. \<open>Fdt\<close> is the descriptor table in RRAM, bytes that are decoded where the code
  looks at them; \<open>Fdt_Props\<close> states it as a table of entries (locale \<open>entry_table\<close>), interprets it
  for the update through the DXE engine and proves the list of partitions handed over. \<open>Sbl_Fwd\<close>
  has the descriptors in flash and the selection, \<open>Sbl_Auth\<close> the authentication and the hash check,
  \<open>Sbl_Main\<close> the rounds of the boot loop and \<open>loader_start\<close>; a reset of the chip ends a run with the
  state it leaves behind. \<open>Sbl_Correct\<close> follows a round and the move from slot to slot,
  \<open>Sbl_Props\<close> shows that only checked images are handed over, that bad images are passed over,
  and when the loop does not end; it composes the selection with the ELF loader and the flash
  driver down to the contents of the chip. What the ROM does is a parameter: its
  authentication, the hash function, and its copy of \<open>boot_elf_load_init\<close>, which the theorems
  on loading take to be the one of the repository.

  \<^bold>\<open>Power-event callbacks\<close>. \<open>Fpci\<close> has the table of registrations and the bubble sort that keeps it in
  order; \<open>Fpci_Props\<close> proves the sort for any comparison of neighbours (locale \<open>neighbour_order\<close>,
  interpreted for both directions) and shows that the table is a map from callbacks to events,
  dispatched by priority.

  \<^bold>\<open>JTAG programmer\<close>. \<open>Nvm_Rram\<close> (\<^verbatim>\<open>nvm_rram.c\<close>) has the address checks, the RRAM writer with the
  registers of the DXE engine, reads and the erase; \<open>Nvm_Rram_Correct\<close> proves that it refines the
  writer of the boot loader (\<open>Rram_Dxe\<close>), from which exactness follows. \<open>Nvm_Flash\<close>
  (\<^verbatim>\<open>nvm_flash.c\<close>) is the flash back end on the model of the driver, \<open>Nvm_Flash_Correct\<close> its
  invariant, that it returns, and its effect on a NOR chip. \<open>Nvm_Programmer\<close> (\<^verbatim>\<open>nvm_programmer.c\<close>)
  has the parameter union, the function pointers, the checksum, every command and the loop
  with the debugger as a step relation. \<open>Nvm_Crc\<close> shows that the table-driven checksum is the
  bitwise CRC-32 and, in the locale \<open>chunk_reader\<close>, that reading in chunks does not matter;
  \<open>Nvm_Correct\<close> interprets the locale for the three back ends, and \<open>Nvm_Invariant\<close> has the
  invariant of the function pointers and that commands return. \<open>Nvm_Props\<close> has the properties.

  \<^bold>\<open>Loops and bounds\<close>. Chunk and page loops are functions with a measure on the bytes left. The
  polling loop of the flash driver, the RRAM chunk loop, the roll-back search, the boot loop and
  the programmer's wait for the engine and pass over the blocks, and the block loop of the
  word writer, the write loop, the walks over the chain and the waits of the QSPI driver, may run
  for ever in C and are partial functions; that they return (or, for the
  search and for a boot loop without a good image, do not) is proved.

  \<^bold>\<open>Not modelled\<close>. Register sequences of the hardware (UART, GPIO, MPU,
  watchdog), the OS build of the flash driver (mutex and power events), the
  signature check inside the ROM, execution in place from flash (compiled out), the printing
  of the programmer, the device configuration parser and the Wi-Fi image loader (the headers
  with their structures are not in the repository, and no target builds the latter), the WLAN
  driver and its firmware interface, the Zephyr shims and the Python tools; the indirection of the boot loader's functions through the ROM table,
  which selects between copies of the same code.
\<close>

end
